(* ===== verification/Prelude.thy ===== *)
theory Prelude
  imports Main
begin

text \<open>
  Shared vocabulary of the development: the model of Python's \<^verbatim>\<open>str\<close>, of a call that
  either returns or raises, of a stateful call that may raise after it has changed its
  state, and the generic lemmas on lists and on these types that the component theories
  use. Nothing here models a line of the repository.

  \<^item> A Python \<^verbatim>\<open>str\<close> is the list of its code points, \<open>ustr\<close>; \<open>lit\<close> embeds an
    ASCII literal.
  \<^item> A call that returns \<open>'a\<close> or raises \<open>'e\<close> has the type \<open>'e + 'a\<close>.
  \<^item> A stateful call has the type \<open>('s, 'e, 'a) action\<close>: the state survives a raise, as
    it does in Python.
\<close>

section \<open>Collections of facts\<close>

named_theorems action_simps \<open>unfolding rules for stateful calls\<close>
named_theorems invar_intros \<open>every operation preserves its component's invariant\<close>
named_theorems keeps_intros \<open>composed calls keep what their parts keep\<close>

section \<open>Strings\<close>

type_synonym ustr = "nat list"

definition lit :: "string \<Rightarrow> ustr" where
  "lit s = map of_char s"

lemma lit_Nil [simp]: "lit [] = []"
  by (simp add: lit_def)

lemma lit_Cons [simp]: "lit (c # cs) = of_char c # lit cs"
  by (simp add: lit_def)

lemma lit_append: "lit (s @ t) = lit s @ lit t"
  by (simp add: lit_def)

lemma length_lit [simp]: "length (lit s) = length s"
  by (simp add: lit_def)

lemma lit_inject [simp]: "lit s = lit t \<longleftrightarrow> s = t"
  unfolding lit_def by (simp add: inj_map_eq_map inj_def)

section \<open>Calls that return or raise\<close>

fun rbind :: "'e + 'a \<Rightarrow> ('a \<Rightarrow> 'e + 'b) \<Rightarrow> 'e + 'b" where
  "rbind (Inl e) k = Inl e"
| "rbind (Inr x) k = k x"

lemma rbind_Inr_iff: "rbind m k = Inr y \<longleftrightarrow> (\<exists>x. m = Inr x \<and> k x = Inr y)"
  by (cases m) auto

lemma rbind_Inl_iff:
  "rbind m k = Inl e \<longleftrightarrow> m = Inl e \<or> (\<exists>x. m = Inr x \<and> k x = Inl e)"
  by (cases m) auto

lemma rbind_cong [fundef_cong]:
  "m = m' \<Longrightarrow> (\<And>x. m' = Inr x \<Longrightarrow> k x = k' x) \<Longrightarrow> rbind m k = rbind m' k'"
  by (cases m') auto

section \<open>Stateful calls that may raise\<close>

type_synonym ('s, 'e, 'a) action = "'s \<Rightarrow> ('e + 'a) \<times> 's"

definition areturn :: "'a \<Rightarrow> ('s, 'e, 'a) action" where
  "areturn x s = (Inr x, s)"

definition araise :: "'e \<Rightarrow> ('s, 'e, 'a) action" where
  "araise e s = (Inl e, s)"

definition abind :: "('s, 'e, 'a) action \<Rightarrow> ('a \<Rightarrow> ('s, 'e, 'b) action) \<Rightarrow> ('s, 'e, 'b) action" where
  "abind m k s = (case m s of (Inl e, t) \<Rightarrow> (Inl e, t) | (Inr x, t) \<Rightarrow> k x t)"

text \<open>\<^verbatim>\<open>try: m  except as e: h(e)\<close>, where \<open>h\<close> decides whether to re-raise.\<close>

definition acatch :: "('s, 'e, 'a) action \<Rightarrow> ('e \<Rightarrow> ('s, 'e, 'a) action) \<Rightarrow> ('s, 'e, 'a) action" where
  "acatch m h s = (case m s of (Inl e, t) \<Rightarrow> h e t | (Inr x, t) \<Rightarrow> (Inr x, t))"

text \<open>\<^verbatim>\<open>try: m  finally: f\<close>, also the exit of a context manager that does not swallow exceptions.\<close>

definition afinally :: "('s, 'e, 'a) action \<Rightarrow> ('s, 'e, unit) action \<Rightarrow> ('s, 'e, 'a) action" where
  "afinally m f s =
     (case m s of (Inl e, t) \<Rightarrow> abind f (\<lambda>_. araise e) t | (Inr x, t) \<Rightarrow> abind f (\<lambda>_. areturn x) t)"

definition aget :: "('s \<Rightarrow> 'a) \<Rightarrow> ('s, 'e, 'a) action" where
  "aget f s = (Inr (f s), s)"

definition amodify :: "('s \<Rightarrow> 's) \<Rightarrow> ('s, 'e, unit) action" where
  "amodify f s = (Inr (), f s)"

text \<open>A check or constructor inside a stateful call.\<close>

definition of_result :: "'e + 'a \<Rightarrow> ('s, 'e, 'a) action" where
  "of_result r = (case r of Inl e \<Rightarrow> araise e | Inr x \<Rightarrow> areturn x)"

lemmas action_defs = areturn_def araise_def abind_def acatch_def afinally_def aget_def amodify_def

lemma abind_Inr_iff:
  "abind m k s = (Inr y, u) \<longleftrightarrow> (\<exists>x t. m s = (Inr x, t) \<and> k x t = (Inr y, u))"
  by (auto simp: abind_def split: prod.splits sum.splits)

lemma abind_areturn [simp]: "abind (areturn x) k = k x"
  by (rule ext) (simp add: abind_def areturn_def)

lemma abind_araise [simp]: "abind (araise e) k = araise e"
  by (rule ext) (simp add: abind_def araise_def)

subsection \<open>Weakest preconditions\<close>

text \<open>
  \<open>wp m Q E s\<close>: the call \<open>m\<close> from state \<open>s\<close> ends in \<open>Q\<close> when it returns and in \<open>E\<close> when it
  raises. The rules compute it through the constructs of stateful calls; what a call of an
  interface does enters through \<open>wp_mono\<close>.
\<close>

definition wp :: "('s, 'e, 'a) action \<Rightarrow> ('a \<Rightarrow> 's \<Rightarrow> bool) \<Rightarrow> ('e \<Rightarrow> 's \<Rightarrow> bool) \<Rightarrow> 's \<Rightarrow> bool" where
  "wp m Q E s \<longleftrightarrow> (case m s of (Inr x, t) \<Rightarrow> Q x t | (Inl e, t) \<Rightarrow> E e t)"

lemma wp_areturn [action_simps]: "wp (areturn x) Q E s \<longleftrightarrow> Q x s"
  by (simp add: wp_def areturn_def)

lemma wp_araise [action_simps]: "wp (araise e) Q E s \<longleftrightarrow> E e s"
  by (simp add: wp_def araise_def)

lemma wp_abind [action_simps]: "wp (abind m k) Q E s \<longleftrightarrow> wp m (\<lambda>x. wp (k x) Q E) E s"
  by (auto simp: wp_def abind_def split: prod.splits sum.splits)

lemma wp_acatch [action_simps]: "wp (acatch m h) Q E s \<longleftrightarrow> wp m Q (\<lambda>e. wp (h e) Q E) s"
  by (auto simp: wp_def acatch_def split: prod.splits sum.splits)

lemma wp_afinally [action_simps]:
  "wp (afinally m f) Q E s \<longleftrightarrow> wp m (\<lambda>x. wp f (\<lambda>_. Q x) E) (\<lambda>e. wp f (\<lambda>_. E e) E) s"
  by (auto simp: wp_def afinally_def action_defs split: prod.splits sum.splits)

lemma wp_aget [action_simps]: "wp (aget f) Q E s \<longleftrightarrow> Q (f s) s"
  by (simp add: wp_def aget_def)

lemma wp_amodify [action_simps]: "wp (amodify f) Q E s \<longleftrightarrow> Q () (f s)"
  by (simp add: wp_def amodify_def)

lemma wp_if [action_simps]: "wp (if b then m else n) Q E s \<longleftrightarrow> (if b then wp m Q E s else wp n Q E s)"
  by simp

lemma wp_case_option [action_simps]:
  "wp (case x of None \<Rightarrow> m | Some y \<Rightarrow> k y) Q E s \<longleftrightarrow>
     (case x of None \<Rightarrow> wp m Q E s | Some y \<Rightarrow> wp (k y) Q E s)"
  by (simp split: option.split)

lemma wp_case_sum [action_simps]:
  "wp (case x of Inl y \<Rightarrow> m y | Inr z \<Rightarrow> k z) Q E s \<longleftrightarrow>
     (case x of Inl y \<Rightarrow> wp (m y) Q E s | Inr z \<Rightarrow> wp (k z) Q E s)"
  by (simp split: sum.split)

lemma wp_case_prod [action_simps]:
  "wp (case x of (y, z) \<Rightarrow> k y z) Q E s \<longleftrightarrow> (case x of (y, z) \<Rightarrow> wp (k y z) Q E s)"
  by (simp split: prod.split)

lemma wp_of_result [action_simps]:
  "wp (of_result r) Q E c \<longleftrightarrow> (case r of Inl e \<Rightarrow> E e c | Inr x \<Rightarrow> Q x c)"
  by (cases r) (simp_all add: of_result_def action_simps)

lemma wp_mono:
  "wp m Q E s \<Longrightarrow> (\<And>x t. Q x t \<Longrightarrow> Q' x t) \<Longrightarrow> (\<And>e t. E e t \<Longrightarrow> E' e t) \<Longrightarrow> wp m Q' E' s"
  by (auto simp: wp_def split: prod.splits sum.splits)

lemma wp_any: "(\<And>x t. Q x t) \<Longrightarrow> (\<And>e t. E e t) \<Longrightarrow> wp m Q E s"
  by (auto simp: wp_def split: prod.splits sum.splits)

lemma wp_ret: "wp m Q E s \<Longrightarrow> m s = (Inr x, t) \<Longrightarrow> Q x t"
  by (simp add: wp_def)

lemma wp_exn: "wp m Q E s \<Longrightarrow> m s = (Inl e, t) \<Longrightarrow> E e t"
  by (simp add: wp_def)

lemma wpI:
  "(\<And>x t. m s = (Inr x, t) \<Longrightarrow> Q x t) \<Longrightarrow> (\<And>e t. m s = (Inl e, t) \<Longrightarrow> E e t) \<Longrightarrow> wp m Q E s"
  by (auto simp: wp_def split: prod.splits sum.splits)

lemma wp_conj:
  "wp m Q E s \<Longrightarrow> wp m Q' E' s \<Longrightarrow> wp m (\<lambda>x t. Q x t \<and> Q' x t) (\<lambda>e t. E e t \<and> E' e t) s"
  by (auto simp: wp_def split: prod.splits sum.splits)

subsection \<open>Invariants of composed calls\<close>

text \<open>
  \<open>keeps I m\<close>: the call keeps the invariant \<open>I\<close> whether it returns or raises. \<open>yields P m\<close>: every
  value it returns satisfies \<open>P\<close>.
\<close>

definition keeps :: "('s \<Rightarrow> bool) \<Rightarrow> ('s, 'e, 'a) action \<Rightarrow> bool" where
  "keeps I m \<longleftrightarrow> (\<forall>s. I s \<longrightarrow> wp m (\<lambda>_. I) (\<lambda>_. I) s)"

definition yields :: "('a \<Rightarrow> bool) \<Rightarrow> ('s, 'e, 'a) action \<Rightarrow> bool" where
  "yields P m \<longleftrightarrow> (\<forall>s. wp m (\<lambda>x _. P x) (\<lambda>_ _. True) s)"

lemma keeps_wp: "keeps I m \<Longrightarrow> I s \<Longrightarrow> wp m (\<lambda>_. I) (\<lambda>_. I) s"
  by (simp add: keeps_def)

lemma keeps_basic [keeps_intros]: "keeps I (areturn x)" "keeps I (araise e)" "keeps I (aget f)" "keeps I (of_result r)"
  by (auto simp: keeps_def action_simps split: sum.split)

lemma keeps_amodify [keeps_intros]: "(\<And>s. I s \<Longrightarrow> I (f s)) \<Longrightarrow> keeps I (amodify f)"
  by (simp add: keeps_def action_simps)

lemma keeps_abind [keeps_intros]: "keeps I m \<Longrightarrow> (\<And>x. keeps I (k x)) \<Longrightarrow> keeps I (abind m k)"
  unfolding keeps_def wp_abind by (blast intro: wp_mono)

lemma keeps_acatch [keeps_intros]: "keeps I m \<Longrightarrow> (\<And>e. keeps I (h e)) \<Longrightarrow> keeps I (acatch m h)"
  unfolding keeps_def wp_acatch by (blast intro: wp_mono)

lemma keeps_afinally [keeps_intros]: "keeps I m \<Longrightarrow> keeps I f \<Longrightarrow> keeps I (afinally m f)"
  unfolding keeps_def wp_afinally by (blast intro: wp_mono)

lemma keeps_branches [keeps_intros]:
  "keeps I m \<Longrightarrow> keeps I n \<Longrightarrow> keeps I (if b then m else n)"
  "keeps I m \<Longrightarrow> (\<And>y. keeps I (k y)) \<Longrightarrow> keeps I (case x of None \<Rightarrow> m | Some y \<Rightarrow> k y)"
  "(\<And>y z. keeps I (g y z)) \<Longrightarrow> keeps I (case p of (y, z) \<Rightarrow> g y z)"
  by (auto split: option.split prod.split)

lemma yields_abind: "(\<And>x. yields P (k x)) \<Longrightarrow> yields P (abind m k)"
  unfolding yields_def wp_abind by (blast intro: wp_any)

lemma yields_of_result: "(\<And>x. r = Inr x \<Longrightarrow> yields P (k x)) \<Longrightarrow> yields P (abind (of_result r) k)"
  unfolding yields_def wp_abind by (auto simp: action_simps split: sum.split)

lemma yields_afinally: "yields P m \<Longrightarrow> yields P (afinally m f)"
  unfolding yields_def wp_afinally by (blast intro: wp_mono wp_any)

lemma yields_acatch: "yields P m \<Longrightarrow> (\<And>e. yields P (h e)) \<Longrightarrow> yields P (acatch m h)"
  unfolding yields_def wp_acatch by (blast intro: wp_mono wp_any)

lemma yields_basic: "P x \<Longrightarrow> yields P (areturn x)" "yields P (araise e)"
  by (simp_all add: yields_def action_simps)

section \<open>Lists\<close>

text \<open>\<^verbatim>\<open>tuple(dict.fromkeys(xs))\<close>: the first occurrence of every element, in order.\<close>

fun dedup_from :: "'a list \<Rightarrow> 'a list \<Rightarrow> 'a list" where
  "dedup_from seen [] = []"
| "dedup_from seen (x # xs) =
     (if x \<in> set seen then dedup_from seen xs else x # dedup_from (x # seen) xs)"

definition dict_fromkeys :: "'a list \<Rightarrow> 'a list" where
  "dict_fromkeys xs = dedup_from [] xs"

lemma set_dedup_from: "set (dedup_from seen xs) = set xs - set seen"
  by (induction seen xs rule: dedup_from.induct) auto

lemma distinct_dedup_from: "distinct (dedup_from seen xs)"
  by (induction seen xs rule: dedup_from.induct) (auto simp: set_dedup_from)

lemma length_dedup_from: "length (dedup_from seen xs) \<le> length xs"
  by (induction seen xs rule: dedup_from.induct) auto

lemma set_dict_fromkeys [simp]: "set (dict_fromkeys xs) = set xs"
  by (simp add: dict_fromkeys_def set_dedup_from)

lemma distinct_dict_fromkeys [simp]: "distinct (dict_fromkeys xs)"
  by (simp add: dict_fromkeys_def distinct_dedup_from)

lemma dedup_from_id: "distinct xs \<Longrightarrow> set xs \<inter> set seen = {} \<Longrightarrow> dedup_from seen xs = xs"
  by (induction seen xs rule: dedup_from.induct) auto

lemma dict_fromkeys_distinct: "distinct xs \<Longrightarrow> dict_fromkeys xs = xs"
  by (simp add: dict_fromkeys_def dedup_from_id)

text \<open>\<^verbatim>\<open>all(p(x) for x in xs)\<close> over an optional value: absent values pass.\<close>

fun opt_all :: "('a \<Rightarrow> bool) \<Rightarrow> 'a option \<Rightarrow> bool" where
  "opt_all p None = True"
| "opt_all p (Some x) = p x"

section \<open>Guarded operations: the contract of a budget\<close>

text \<open>
  Several components are a state with operations that check first and change the state only
  when the check passes. \<open>run_ops\<close> runs a sequence of calls whose caller survives the ones
  that raise; the locale states the contract (an operation that returns keeps the
  invariant) and gives the invariant for every sequence of calls.
\<close>

fun run_ops :: "('op \<Rightarrow> 's \<Rightarrow> 'e + 's) \<Rightarrow> 's \<Rightarrow> 'op list \<Rightarrow> 's" where
  "run_ops step s [] = s"
| "run_ops step s (x # xs) = run_ops step (case step x s of Inl _ \<Rightarrow> s | Inr s' \<Rightarrow> s') xs"

text \<open>The operations that did not raise, in their order.\<close>

fun accepted_ops :: "('op \<Rightarrow> 's \<Rightarrow> 'e + 's) \<Rightarrow> 's \<Rightarrow> 'op list \<Rightarrow> 'op list" where
  "accepted_ops step s [] = []"
| "accepted_ops step s (x # xs) =
     (case step x s of Inl _ \<Rightarrow> accepted_ops step s xs | Inr s' \<Rightarrow> x # accepted_ops step s' xs)"

locale guarded_ops =
  fixes step :: "'op \<Rightarrow> 's \<Rightarrow> 'e + 's" and invar :: "'s \<Rightarrow> bool"
  assumes step_invar: "invar s \<Longrightarrow> step x s = Inr s' \<Longrightarrow> invar s'"
begin

lemma run_invar: "invar s \<Longrightarrow> invar (run_ops step s xs)"
  by (induction xs arbitrary: s) (auto intro: step_invar split: sum.splits)

lemma accepted_all:
  assumes "\<And>x s s'. invar s \<Longrightarrow> step x s = Inr s' \<Longrightarrow> P x" "invar s"
  shows "\<forall>x\<in>set (accepted_ops step s xs). P x"
  using assms(2) by (induction xs arbitrary: s) (auto intro: step_invar assms(1) split: sum.splits)

end

text \<open>A meter: every accepted operation moves it in a way that depends on the operation only, so that it reads what was accepted.\<close>

locale metered_ops =
  fixes step :: "'op \<Rightarrow> 's \<Rightarrow> 'e + 's" and meter :: "'s \<Rightarrow> 'm" and charge :: "'op \<Rightarrow> 'm \<Rightarrow> 'm"
  assumes step_meter: "step x s = Inr s' \<Longrightarrow> meter s' = charge x (meter s)"
begin

lemma run_meter: "meter (run_ops step s xs) = fold charge (accepted_ops step s xs) (meter s)"
  by (induction xs arbitrary: s) (auto simp: step_meter split: sum.splits)

end

lemma fold_plus: "fold (\<lambda>x t. t + c x) xs a = a + sum_list (map c xs)"
  for a :: "'a :: comm_monoid_add"
  by (induction xs arbitrary: a) (simp_all add: ac_simps)

section \<open>Event machines\<close>

text \<open>
  A component with several tasks is a partial step function on events: \<open>None\<close> when the event cannot
  happen in the state. The first locale is the contract of an invariant. The second one adds a
  potential that every step lowers by one and the promise that only final states are stuck, so
  that every run, however the tasks are scheduled, has a bounded length and ends in a final state.
\<close>

fun run_events :: "('ev \<Rightarrow> 's \<Rightarrow> 's option) \<Rightarrow> 's \<Rightarrow> 'ev list \<Rightarrow> 's option" where
  "run_events step s [] = Some s"
| "run_events step s (e # es) = (case step e s of None \<Rightarrow> None | Some s' \<Rightarrow> run_events step s' es)"

lemma run_events_append:
  "run_events step s (es @ fs) = (case run_events step s es of None \<Rightarrow> None | Some s' \<Rightarrow> run_events step s' fs)"
  by (induction es arbitrary: s) (auto split: option.split)

locale event_machine =
  fixes step :: "'ev \<Rightarrow> 's \<Rightarrow> 's option" and invar :: "'s \<Rightarrow> bool"
  assumes step_invar: "invar s \<Longrightarrow> step e s = Some s' \<Longrightarrow> invar s'"
begin

lemma run_invar: "invar s \<Longrightarrow> run_events step s es = Some s' \<Longrightarrow> invar s'"
  by (induction es arbitrary: s) (auto intro: step_invar split: option.splits)

end

locale progressing_machine = event_machine +
  fixes potential :: "'s \<Rightarrow> nat" and final :: "'s \<Rightarrow> bool"
  assumes step_potential: "invar s \<Longrightarrow> step e s = Some s' \<Longrightarrow> potential s = Suc (potential s')"
    and progress: "invar s \<Longrightarrow> \<not> final s \<Longrightarrow> \<exists>e s'. step e s = Some s'"
begin

lemma run_length: "invar s \<Longrightarrow> run_events step s es = Some s' \<Longrightarrow> length es + potential s' = potential s"
proof (induction es arbitrary: s)
  case (Cons e es)
  then obtain s1 where "step e s = Some s1" "run_events step s1 es = Some s'" by (auto split: option.splits)
  with Cons step_potential [of s e s1] step_invar [of s e s1] show ?case by simp
qed simp

lemma run_extends:
  assumes "invar s"
  shows "\<exists>es s'. run_events step s es = Some s' \<and> final s'"
  using assms
proof (induction "potential s" arbitrary: s rule: less_induct)
  case less
  show ?case
  proof (cases "final s")
    case True
    then have "run_events step s [] = Some s \<and> final s" by simp
    then show ?thesis by blast
  next
    case False
    with progress [OF less.prems] obtain e s1 where s1: "step e s = Some s1" by blast
    from less.hyps [of s1] step_potential [OF less.prems s1] step_invar [OF less.prems s1]
    obtain es s' where "run_events step s1 es = Some s'" "final s'" by auto
    with s1 have "run_events step s (e # es) = Some s' \<and> final s'" by simp
    then show ?thesis by blast
  qed
qed

end

end
