(* ===== verification/Lifecycle.thy ===== *)
theory Lifecycle
  imports Prelude
begin

text \<open>
  The domain enumerations of \<^verbatim>\<open>domain/enums.py\<close>, the exception classes of
  \<^verbatim>\<open>domain/errors.py\<close>, \<^verbatim>\<open>adapters/persistence/errors.py\<close> and
  \<^verbatim>\<open>adapters/export/models.py\<close>, and the source-file lifecycle: the table of allowed transitions and its guard. An exception is a value of the
  record \<open>exn\<close>: its class and the attributes a handler reads. Message texts are not
  modelled.
\<close>

section \<open>Document semantics\<close>

datatype DocumentType =
    STORES | PRICE_FULL | PRICE_DELTA | PROMOTION_FULL | PROMOTION_DELTA | UNKNOWN_DOCUMENT

fun is_full_snapshot :: "DocumentType \<Rightarrow> bool" where
  "is_full_snapshot d = (d \<in> {STORES, PRICE_FULL, PROMOTION_FULL})"

fun is_delta :: "DocumentType \<Rightarrow> bool" where
  "is_delta d = (d \<in> {PRICE_DELTA, PROMOTION_DELTA})"

fun is_price :: "DocumentType \<Rightarrow> bool" where
  "is_price d = (d \<in> {PRICE_FULL, PRICE_DELTA})"

fun is_promotion :: "DocumentType \<Rightarrow> bool" where
  "is_promotion d = (d \<in> {PROMOTION_FULL, PROMOTION_DELTA})"

datatype CompressionFormat = NONE | GZIP | ZIP | ZSTANDARD | UNKNOWN_COMPRESSION

datatype SourceProtocol = HTTPS | HTTP | FTP | FTPS | FIXTURE

datatype IssueCategory =
    WARNING | RECORD_REJECTION | FILE_QUARANTINE | SOURCE_FAILURE | SYSTEM_FAILURE

datatype DiscountKind =
    FIXED_PRICE | PERCENTAGE | AMOUNT | QUANTITY | SECOND_ITEM | MIX_AND_MATCH | CONDITIONAL
  | UNKNOWN_DISCOUNT

datatype IdentifierKind = GTIN | RETAILER_ITEM | MANUFACTURER | UNKNOWN_IDENTIFIER

section \<open>The source-file lifecycle\<close>

datatype IngestionStatus =
    DISCOVERED | DOWNLOADING | ARCHIVED | PARSING | STAGED | VALIDATING | APPLYING
  | COMPLETED | QUARANTINED | FAILED_RETRYABLE | FAILED_TERMINAL

fun ALLOWED_TRANSITIONS :: "IngestionStatus \<Rightarrow> IngestionStatus set" where
  "ALLOWED_TRANSITIONS DISCOVERED = {DOWNLOADING, FAILED_RETRYABLE, FAILED_TERMINAL}"
| "ALLOWED_TRANSITIONS DOWNLOADING = {ARCHIVED, FAILED_RETRYABLE, FAILED_TERMINAL}"
| "ALLOWED_TRANSITIONS ARCHIVED = {PARSING, QUARANTINED, FAILED_RETRYABLE, FAILED_TERMINAL}"
| "ALLOWED_TRANSITIONS PARSING = {STAGED, QUARANTINED, FAILED_RETRYABLE, FAILED_TERMINAL}"
| "ALLOWED_TRANSITIONS STAGED = {VALIDATING, QUARANTINED, FAILED_RETRYABLE, FAILED_TERMINAL}"
| "ALLOWED_TRANSITIONS VALIDATING = {APPLYING, QUARANTINED, FAILED_RETRYABLE, FAILED_TERMINAL}"
| "ALLOWED_TRANSITIONS APPLYING = {COMPLETED, QUARANTINED, FAILED_RETRYABLE, FAILED_TERMINAL}"
| "ALLOWED_TRANSITIONS FAILED_RETRYABLE =
     {ARCHIVED, DOWNLOADING, PARSING, VALIDATING, APPLYING, FAILED_TERMINAL}"
| "ALLOWED_TRANSITIONS COMPLETED = {}"
| "ALLOWED_TRANSITIONS QUARANTINED = {}"
| "ALLOWED_TRANSITIONS FAILED_TERMINAL = {}"

section \<open>Exceptions\<close>

text \<open>
  One constructor per class of the error modules, and the Python classes the modelled
  code raises or distinguishes itself. \<open>OtherError\<close> stands for any other subclass of
  \<^verbatim>\<open>Exception\<close>; \<open>CancelledError\<close> is the one modelled class outside \<^verbatim>\<open>Exception\<close>.
\<close>

datatype exn_class =
    MakoletError | DomainValidationError | InvalidStateTransitionError | SourceAccessError
  | SourceResponseError | SourceBlockedError | UnsafeRemoteError | DownloadLimitError
  | DiscoveryBudgetExceededError | ChargeBudgetExceededError | ArchiveCapacityError
  | ArchiveIntegrityError | UnsafeArchiveError | MalformedDocumentError
  | QuarantinedFileError | RepositoryError | LeaseUnavailableError | MaintenanceModeError
  | NormalizedRebuildInterruptedError | QueryLimitError | NotFoundError
  | CatalogMatchConflictError
  | PersistenceError | PersistenceConflictError | PersistenceNotFoundError
  | SnapshotValidationError
  | ExportValidationError | ExportConflictError
  | ValueError | UnicodeEncodeError | RuntimeError | KeyError | AssertionError | TimeoutError | OtherError
  | CancelledError

text \<open>\<^verbatim>\<open>isinstance(error, MakoletError)\<close>, and the class attributes \<^verbatim>\<open>code\<close> and \<^verbatim>\<open>retryable\<close>.\<close>

fun error_class_code :: "exn_class \<Rightarrow> string option" where
  "error_class_code MakoletError = Some ''makolet_error''"
| "error_class_code DomainValidationError = Some ''domain_validation_error''"
| "error_class_code InvalidStateTransitionError = Some ''invalid_state_transition''"
| "error_class_code SourceAccessError = Some ''source_access_error''"
| "error_class_code SourceResponseError = Some ''source_response_error''"
| "error_class_code SourceBlockedError = Some ''source_blocked''"
| "error_class_code UnsafeRemoteError = Some ''unsafe_remote''"
| "error_class_code DownloadLimitError = Some ''download_limit_exceeded''"
| "error_class_code DiscoveryBudgetExceededError = Some ''discovery_budget_exceeded''"
| "error_class_code ChargeBudgetExceededError = Some ''charge_budget_exceeded''"
| "error_class_code ArchiveCapacityError = Some ''archive_capacity_exhausted''"
| "error_class_code ArchiveIntegrityError = Some ''archive_integrity_error''"
| "error_class_code UnsafeArchiveError = Some ''unsafe_archive''"
| "error_class_code MalformedDocumentError = Some ''malformed_document''"
| "error_class_code QuarantinedFileError = Some ''file_quarantined''"
| "error_class_code RepositoryError = Some ''repository_error''"
| "error_class_code LeaseUnavailableError = Some ''lease_unavailable''"
| "error_class_code MaintenanceModeError = Some ''maintenance_mode_active''"
| "error_class_code NormalizedRebuildInterruptedError = Some ''normalized_rebuild_interrupted''"
| "error_class_code QueryLimitError = Some ''query_limit_exceeded''"
| "error_class_code NotFoundError = Some ''not_found''"
| "error_class_code CatalogMatchConflictError = Some ''catalog_match_conflict''"
| "error_class_code _ = None"

fun is_makolet_class :: "exn_class \<Rightarrow> bool" where
  "is_makolet_class c = (error_class_code c \<noteq> None)"

fun class_retryable :: "exn_class \<Rightarrow> bool" where
  "class_retryable c =
     (c \<in> {SourceAccessError, DiscoveryBudgetExceededError, ChargeBudgetExceededError,
           ArchiveCapacityError, RepositoryError, LeaseUnavailableError,
           MaintenanceModeError, NormalizedRebuildInterruptedError})"

text \<open>
  An exception as the handlers see it: \<^verbatim>\<open>transferred_bytes\<close> and \<^verbatim>\<open>budget_limited\<close> have their
  defaults 0 and \<open>False\<close>, \<^verbatim>\<open>reason\<close> is set by \<^verbatim>\<open>DiscoveryBudgetExceededError\<close> only.
\<close>

record exn =
  exn_class :: exn_class
  transferred_bytes :: int
  budget_limited :: bool
  reason :: "string option"

definition exn_of :: "exn_class \<Rightarrow> exn" where
  "exn_of c = \<lparr>exn_class = c, transferred_bytes = 0, budget_limited = False, reason = None\<rparr>"

definition MakoletError_init :: "exn_class \<Rightarrow> int \<Rightarrow> exn + exn" where
  "MakoletError_init c n =
     (if n < 0 then Inl (exn_of ValueError) else Inr ((exn_of c)\<lparr>transferred_bytes := n\<rparr>))"

definition DiscoveryBudgetExceededError_init :: "string \<Rightarrow> exn + exn" where
  "DiscoveryBudgetExceededError_init r =
     (if r \<notin> {''listing_request_limit'', ''listing_byte_limit'', ''listing_elapsed_limit''}
      then Inl (exn_of ValueError)
      else Inr ((exn_of DiscoveryBudgetExceededError)\<lparr>reason := Some r\<rparr>))"

definition ensure_ingestion_transition :: "IngestionStatus \<Rightarrow> IngestionStatus \<Rightarrow> exn + unit" where
  "ensure_ingestion_transition current target =
     (if target \<notin> ALLOWED_TRANSITIONS current
      then Inl (exn_of InvalidStateTransitionError) else Inr ())"

section \<open>Paths through the lifecycle\<close>

text \<open>
  A lifecycle path is a sequence of statuses each of which the guard lets follow the one
  before it. \<open>terminal\<close> are the statuses without a successor.
\<close>

definition terminal :: "IngestionStatus \<Rightarrow> bool" where
  "terminal s \<longleftrightarrow> s \<in> {COMPLETED, QUARANTINED, FAILED_TERMINAL}"

inductive lifecycle :: "IngestionStatus \<Rightarrow> IngestionStatus list \<Rightarrow> IngestionStatus \<Rightarrow> bool" where
  lc_nil: "lifecycle s [] s"
| lc_step: "ensure_ingestion_transition s t = Inr () \<Longrightarrow> lifecycle t ts u \<Longrightarrow> lifecycle s (t # ts) u"

inductive_cases lifecycle_ConsE: "lifecycle s (t # ts) u"
inductive_cases lifecycle_NilE: "lifecycle s [] u"
inductive_simps lifecycle_Nil_iff [simp]: "lifecycle s [] u"
inductive_simps lifecycle_Cons_iff [simp]: "lifecycle s (t # ts) u"

lemma ensure_transition_iff [simp]:
  "ensure_ingestion_transition s t = Inr () \<longleftrightarrow> t \<in> ALLOWED_TRANSITIONS s"
  by (simp add: ensure_ingestion_transition_def)

lemma terminal_no_successor: "terminal s \<longleftrightarrow> ALLOWED_TRANSITIONS s = {}"
  by (cases s) (auto simp: terminal_def)

lemma lifecycle_append:
  "lifecycle s (ts @ us) v \<longleftrightarrow> (\<exists>m. lifecycle s ts m \<and> lifecycle m us v)"
  by (induction ts arbitrary: s) auto

lemma lifecycle_last: "lifecycle s ts u \<Longrightarrow> u = last (s # ts)"
  by (induction rule: lifecycle.induct) auto

lemma lifecycle_terminal_stuck: "lifecycle s ts u \<Longrightarrow> terminal s \<Longrightarrow> ts = [] \<and> u = s"
  by (induction rule: lifecycle.induct) (auto simp: terminal_no_successor)

lemma completed_predecessor:
  "lifecycle s ts COMPLETED \<Longrightarrow> s \<noteq> COMPLETED \<Longrightarrow> \<exists>us. s # ts = us @ [APPLYING, COMPLETED]"
proof (induction s ts "COMPLETED" rule: lifecycle.induct)
  case (lc_step s t ts)
  show ?case
  proof (cases "t = COMPLETED")
    case True
    then have "ts = []" using lc_step.hyps(2) lifecycle_terminal_stuck [of t ts COMPLETED]
      by (simp add: terminal_def)
    moreover have "s = APPLYING" using lc_step.hyps(1) True by (cases s) auto
    ultimately show ?thesis using True by simp
  next
    case False
    then show ?thesis using lc_step.hyps(3) by (metis append_Cons)
  qed
qed simp

text \<open>One step of a path that completes without a failure: the only way on.\<close>

lemma onward:
  assumes "lifecycle w us COMPLETED \<and> FAILED_RETRYABLE \<notin> set us" "w \<noteq> COMPLETED"
    and "ALLOWED_TRANSITIONS w \<subseteq> {v, QUARANTINED, FAILED_RETRYABLE, FAILED_TERMINAL}"
  obtains r where "us = v # r" "lifecycle v r COMPLETED \<and> FAILED_RETRYABLE \<notin> set r"
proof (cases us)
  case (Cons a r)
  then have a: "lifecycle a r COMPLETED" "a \<in> ALLOWED_TRANSITIONS w" "a \<noteq> FAILED_RETRYABLE"
    "FAILED_RETRYABLE \<notin> set r" using assms(1) by auto
  have "\<not> terminal a \<or> a = COMPLETED" using lifecycle_terminal_stuck [OF a(1)] by auto
  then have "a = v" using a assms(3) by (auto simp: terminal_def)
  then show ?thesis using that Cons a by blast
qed (use assms in simp)

section \<open>Properties\<close>

text \<open>
  A file that was discovered and is completed was applied immediately before; when no step
  failed in between, it went through download, archive, parse, staging and validation in
  exactly this order, none skipped and none repeated.
\<close>
theorem completion_path:
  assumes "lifecycle DISCOVERED ts COMPLETED"
  shows "(\<exists>us. DISCOVERED # ts = us @ [APPLYING, COMPLETED]) \<and>
     (FAILED_RETRYABLE \<in> set ts \<or>
      ts = [DOWNLOADING, ARCHIVED, PARSING, STAGED, VALIDATING, APPLYING, COMPLETED])"
proof
  show "\<exists>us. DISCOVERED # ts = us @ [APPLYING, COMPLETED]"
    using completed_predecessor [OF assms] by simp
  show "FAILED_RETRYABLE \<in> set ts \<or>
      ts = [DOWNLOADING, ARCHIVED, PARSING, STAGED, VALIDATING, APPLYING, COMPLETED]"
  proof (cases "FAILED_RETRYABLE \<in> set ts")
    case False
    with assms have "lifecycle DISCOVERED ts COMPLETED \<and> FAILED_RETRYABLE \<notin> set ts" by simp
    then obtain r1 where 1: "ts = DOWNLOADING # r1"
        "lifecycle DOWNLOADING r1 COMPLETED \<and> FAILED_RETRYABLE \<notin> set r1"
      by (rule onward) auto
    from 1(2) obtain r2 where 2: "r1 = ARCHIVED # r2"
        "lifecycle ARCHIVED r2 COMPLETED \<and> FAILED_RETRYABLE \<notin> set r2" by (rule onward) auto
    from 2(2) obtain r3 where 3: "r2 = PARSING # r3"
        "lifecycle PARSING r3 COMPLETED \<and> FAILED_RETRYABLE \<notin> set r3" by (rule onward) auto
    from 3(2) obtain r4 where 4: "r3 = STAGED # r4"
        "lifecycle STAGED r4 COMPLETED \<and> FAILED_RETRYABLE \<notin> set r4" by (rule onward) auto
    from 4(2) obtain r5 where 5: "r4 = VALIDATING # r5"
        "lifecycle VALIDATING r5 COMPLETED \<and> FAILED_RETRYABLE \<notin> set r5" by (rule onward) auto
    from 5(2) obtain r6 where 6: "r5 = APPLYING # r6"
        "lifecycle APPLYING r6 COMPLETED \<and> FAILED_RETRYABLE \<notin> set r6" by (rule onward) auto
    from 6(2) obtain r7 where 7: "r6 = COMPLETED # r7" "lifecycle COMPLETED r7 COMPLETED"
      by (rule onward [of APPLYING r6 COMPLETED]) auto
    from 7(2) have "r7 = []" using lifecycle_terminal_stuck by (fastforce simp: terminal_def)
    with 1 2 3 4 5 6 7 show ?thesis by simp
  qed simp
qed

theorem completion_path_witness:
  "lifecycle DISCOVERED [DOWNLOADING, FAILED_RETRYABLE, DOWNLOADING, ARCHIVED, PARSING, STAGED,
       VALIDATING, APPLYING, COMPLETED] COMPLETED \<and>
   (\<exists>us. [DISCOVERED, DOWNLOADING, FAILED_RETRYABLE, DOWNLOADING, ARCHIVED, PARSING, STAGED,
       VALIDATING, APPLYING, COMPLETED] = us @ [APPLYING, COMPLETED])"
  using completion_path [of "[DOWNLOADING, FAILED_RETRYABLE, DOWNLOADING, ARCHIVED, PARSING,
      STAGED, VALIDATING, APPLYING, COMPLETED]"]
  by simp

end
