(* ===== verification/Archive_Keys.thy ===== *)
theory Archive_Keys
  imports Lifecycle "HOL-Library.Sublist"
begin

text \<open>
  The content-addressed object keys of \<^verbatim>\<open>adapters/archive/keys.py\<close>. A key is the text
  \<^verbatim>\<open>sha256/ab/cd/abcd...\<close>; the digest is 64 lowercase hex digits. The regular expression
  \<^verbatim>\<open>OBJECT_KEY_PATTERN\<close> has a fixed length, so its \<^verbatim>\<open>fullmatch\<close> is a test of the characters
  by position. The interface locale \<open>content_addressing\<close> states what the archive
  relies on: a name for every digest, from which the digest is read back.
\<close>

section \<open>Definitions\<close>

definition hex_digit :: "nat \<Rightarrow> bool" where
  "hex_digit c \<longleftrightarrow> c \<in> set (lit ''0123456789abcdef'')"

definition is_sha256_hex :: "ustr \<Rightarrow> bool" where
  "is_sha256_hex s \<longleftrightarrow> length s = 64 \<and> list_all hex_digit s"

definition key_for_digest :: "ustr \<Rightarrow> exn + ustr" where
  "key_for_digest digest =
     (if length digest \<noteq> 64 \<or> \<not> list_all hex_digit digest then Inl (exn_of ValueError)
      else Inr (lit ''sha256/'' @ take 2 digest @ lit ''/'' @ take 2 (drop 2 digest) @ lit ''/'' @ digest))"

text \<open>\<^verbatim>\<open>OBJECT_KEY_PATTERN.fullmatch\<close>: the groups \<^verbatim>\<open>first\<close>, \<^verbatim>\<open>second\<close>, \<^verbatim>\<open>digest\<close> of a match.\<close>

definition OBJECT_KEY_PATTERN :: "ustr \<Rightarrow> (ustr \<times> ustr \<times> ustr) option" where
  "OBJECT_KEY_PATTERN key =
     (let first = take 2 (drop 7 key); second = take 2 (drop 10 key); digest = drop 13 key
      in if length key = 77 \<and> take 7 key = lit ''sha256/'' \<and> list_all hex_digit first
            \<and> take 1 (drop 9 key) = lit ''/'' \<and> list_all hex_digit second
            \<and> take 1 (drop 12 key) = lit ''/'' \<and> list_all hex_digit digest
         then Some (first, second, digest) else None)"

definition digest_for_key :: "ustr \<Rightarrow> ustr option \<Rightarrow> exn + ustr" where
  "digest_for_key object_key expected_sha256 =
     (case OBJECT_KEY_PATTERN object_key of
        None \<Rightarrow> Inl (exn_of ArchiveIntegrityError)
      | Some (first, second, digest) \<Rightarrow>
          if first \<noteq> take 2 digest \<or> second \<noteq> take 2 (drop 2 digest)
          then Inl (exn_of ArchiveIntegrityError)
          else if expected_sha256 \<noteq> None \<and> Some digest \<noteq> expected_sha256
          then Inl (exn_of ArchiveIntegrityError)
          else Inr digest)"

text \<open>\<^verbatim>\<open>str.strip("/")\<close> and \<^verbatim>\<open>str.split("/")\<close>.\<close>

definition strip_char :: "nat \<Rightarrow> ustr \<Rightarrow> ustr" where
  "strip_char c s = rev (dropWhile (\<lambda>x. x = c) (rev (dropWhile (\<lambda>x. x = c) s)))"

fun split_char :: "nat \<Rightarrow> ustr \<Rightarrow> ustr list" where
  "split_char c [] = [[]]"
| "split_char c (x # xs) =
     (if x = c then [] # split_char c xs
      else (case split_char c xs of [] \<Rightarrow> [[x]] | p # ps \<Rightarrow> (x # p) # ps))"

definition slash :: nat where
  "slash = of_char (CHR ''/'')"

definition normalize_key_prefix :: "ustr \<Rightarrow> exn + ustr" where
  "normalize_key_prefix key_prefix =
     (let normalized = strip_char slash key_prefix
      in if normalized \<noteq> [] \<and>
            (\<exists>part \<in> set (split_char slash normalized). part \<in> {[], lit ''.'', lit ''..''})
         then Inl (exn_of ValueError) else Inr normalized)"

definition service_key_for_object :: "ustr \<Rightarrow> ustr \<Rightarrow> exn + ustr" where
  "service_key_for_object object_key key_prefix =
     rbind (digest_for_key object_key None) (\<lambda>_.
     rbind (normalize_key_prefix key_prefix) (\<lambda>normalized_prefix.
       Inr (if normalized_prefix \<noteq> [] then normalized_prefix @ lit ''/'' @ object_key
            else object_key)))"

definition object_key_from_service_key :: "ustr \<Rightarrow> ustr \<Rightarrow> ustr option \<Rightarrow> exn + ustr" where
  "object_key_from_service_key service_key key_prefix expected_sha256 =
     rbind (normalize_key_prefix key_prefix) (\<lambda>normalized_prefix.
       let marker = (if normalized_prefix \<noteq> [] then normalized_prefix @ lit ''/'' else [])
       in if \<not> prefix marker service_key then Inl (exn_of ArchiveIntegrityError)
          else let object_key = drop (length marker) service_key
               in rbind (digest_for_key object_key expected_sha256) (\<lambda>_. Inr object_key))"

section \<open>The interface: content addressing\<close>

text \<open>
  \<open>name\<close> maps an identity to its name or raises, \<open>ident\<close> reads a name back. The laws are
  the two round trips; the client's facts follow once for every provider.
\<close>

locale content_addressing =
  fixes name :: "'d \<Rightarrow> 'e + 'n" and ident :: "'n \<Rightarrow> 'e + 'd"
  assumes ident_name: "name d = Inr n \<Longrightarrow> ident n = Inr d"
    and name_ident: "ident n = Inr d \<Longrightarrow> name d = Inr n"
begin

lemma name_inj: "name d = Inr n \<Longrightarrow> name d' = Inr n \<Longrightarrow> d = d'"
  by (metis ident_name sum.inject(2))

lemma ident_inj: "ident n = Inr d \<Longrightarrow> ident n' = Inr d \<Longrightarrow> n = n'"
  by (metis name_ident sum.inject(2))

lemma ident_iff_name: "ident n = Inr d \<longleftrightarrow> name d = Inr n"
  using ident_name name_ident by blast

end

section \<open>Lemmas\<close>

lemma key_for_digest_Inr:
  "key_for_digest d = Inr k \<longleftrightarrow>
     is_sha256_hex d \<and>
     k = lit ''sha256/'' @ take 2 d @ lit ''/'' @ take 2 (drop 2 d) @ lit ''/'' @ d"
  by (auto simp: key_for_digest_def is_sha256_hex_def)

lemma key_for_digest_length: "key_for_digest d = Inr k \<Longrightarrow> length k = 77"
  by (auto simp: key_for_digest_Inr is_sha256_hex_def)

lemma list_all_take_drop:
  "list_all P xs \<Longrightarrow> list_all P (take n xs)" "list_all P xs \<Longrightarrow> list_all P (drop n xs)"
  by (auto simp: list_all_iff dest: in_set_takeD in_set_dropD)

lemma pattern_of_key:
  assumes "key_for_digest d = Inr k"
  shows "OBJECT_KEY_PATTERN k = Some (take 2 d, take 2 (drop 2 d), d)"
proof -
  have hex: "length d = 64" "list_all hex_digit d"
    and k: "k = lit ''sha256/'' @ take 2 d @ lit ''/'' @ take 2 (drop 2 d) @ lit ''/'' @ d"
    using assms by (auto simp: key_for_digest_Inr is_sha256_hex_def)
  obtain a b c e ds where d: "d = a # b # c # e # ds" "length ds = 60"
    using hex(1) by (auto simp: numeral_eq_Suc length_Suc_conv)
  show ?thesis using hex(2) d by (simp add: OBJECT_KEY_PATTERN_def k numeral_eq_Suc)
qed

lemma key_of_pattern:
  assumes "OBJECT_KEY_PATTERN k = Some (f, s, d)"
  shows "k = lit ''sha256/'' @ f @ lit ''/'' @ s @ lit ''/'' @ d \<and> is_sha256_hex d"
proof -
  have len: "length k = 77" and pre: "take 7 k = lit ''sha256/''"
    and s1: "take 1 (drop 9 k) = lit ''/''" and s2: "take 1 (drop 12 k) = lit ''/''"
    and f: "f = take 2 (drop 7 k)" and s: "s = take 2 (drop 10 k)" and d: "d = drop 13 k"
    and hex: "list_all hex_digit d"
    using assms by (auto simp: OBJECT_KEY_PATTERN_def Let_def split: if_splits)
  have cut: "drop n k = take m (drop n k) @ drop (n + m) k" for n m
    by (metis append_take_drop_id drop_drop add.commute)
  have "k = take 7 k @ drop 7 k" by simp
  also have "drop 7 k = f @ drop 9 k" using cut [of 7 2] by (simp add: f)
  also have "drop 9 k = lit ''/'' @ drop 10 k" using cut [of 9 1] s1 by simp
  also have "drop 10 k = s @ drop 12 k" using cut [of 10 2] by (simp add: s)
  also have "drop 12 k = lit ''/'' @ d" using cut [of 12 1] s2 by (simp add: d)
  finally have "k = take 7 k @ f @ lit ''/'' @ s @ lit ''/'' @ d" .
  then show ?thesis using pre d hex len by (simp add: is_sha256_hex_def)
qed

lemma digest_for_key_of_digest:
  "key_for_digest d = Inr k \<Longrightarrow> digest_for_key k None = Inr d"
  by (simp add: digest_for_key_def pattern_of_key)

lemma key_of_digest_for_key:
  assumes "digest_for_key k e = Inr d" shows "key_for_digest d = Inr k"
  using assms
  by (auto simp: digest_for_key_def key_for_digest_Inr split: option.splits if_splits
      dest!: key_of_pattern)

interpretation keys: content_addressing key_for_digest "\<lambda>k. digest_for_key k None"
  by unfold_locales (auto intro: digest_for_key_of_digest key_of_digest_for_key)

lemma digest_for_key_expected:
  "digest_for_key k (Some e) = Inr d \<longleftrightarrow> digest_for_key k None = Inr d \<and> e = d"
  by (auto simp: digest_for_key_def split: option.splits if_splits)

text \<open>
  Service keys: a configured prefix in front of the object key. For a fixed prefix they are
  again names that can be read back.
\<close>

definition key_marker :: "ustr \<Rightarrow> ustr" where
  "key_marker n = (if n \<noteq> [] then n @ lit ''/'' else [])"

lemma service_key_Inr:
  "service_key_for_object k p = Inr s \<longleftrightarrow>
     (\<exists>d n. digest_for_key k None = Inr d \<and> normalize_key_prefix p = Inr n \<and> key_marker n @ k = s)"
  by (cases "digest_for_key k None"; cases "normalize_key_prefix p")
    (simp_all add: service_key_for_object_def key_marker_def)

lemma object_key_Inr:
  "object_key_from_service_key s p e = Inr k \<longleftrightarrow>
     (\<exists>d n. digest_for_key k e = Inr d \<and> normalize_key_prefix p = Inr n \<and> key_marker n @ k = s)"
proof (cases "normalize_key_prefix p")
  case (Inr n)
  have "object_key_from_service_key s p e = Inr k \<longleftrightarrow>
      prefix (key_marker n) s \<and> drop (length (key_marker n)) s = k \<and> (\<exists>d. digest_for_key k e = Inr d)"
    unfolding object_key_from_service_key_def Inr rbind.simps Let_def key_marker_def [symmetric]
    by (cases "digest_for_key (drop (length (key_marker n)) s) e") auto
  moreover have "prefix (key_marker n) s \<and> drop (length (key_marker n)) s = k \<longleftrightarrow> key_marker n @ k = s"
    by (auto simp: prefix_def)
  ultimately show ?thesis using Inr by simp blast
qed (simp add: object_key_from_service_key_def)

interpretation service: content_addressing
    "\<lambda>k. service_key_for_object k p" "\<lambda>s. object_key_from_service_key s p None" for p
  by unfold_locales (simp_all add: service_key_Inr object_key_Inr)

section \<open>Properties\<close>

text \<open>
  C34. The digest read from an object key is exactly the digest the key was made from: a text
  is accepted as the key of a digest if and only if it is the key made for that digest. No
  two digests share a key, no digest has two keys, and a key whose fan-out directories do
  not repeat the first four digits is refused.
\<close>
theorem object_key_roundtrip:
  "digest_for_key k None = Inr d \<longleftrightarrow> key_for_digest d = Inr k"
  by (rule keys.ident_iff_name)

text \<open>
  For every configured key prefix the service key of an object key reads back to that
  object key and to nothing else, and a service key that reads back is the one that is
  written for the object key.
\<close>
theorem service_key_roundtrip:
  "object_key_from_service_key s p None = Inr k \<longleftrightarrow> service_key_for_object k p = Inr s"
  by (rule service.ident_iff_name)

text \<open>
  The check of an expected digest: with an expectation the call returns only that digest,
  and every refusal is an archive integrity error, never another exception.
\<close>
theorem digest_for_key_result:
  "digest_for_key k e =
     (if \<exists>d. key_for_digest d = Inr k \<and> (e = None \<or> e = Some d)
      then Inr (drop 13 k) else Inl (exn_of ArchiveIntegrityError))"
proof -
  have "digest_for_key k e = Inr d \<longleftrightarrow> key_for_digest d = Inr k \<and> (e = None \<or> e = Some d)" for d
    using keys.ident_iff_name [of k d] digest_for_key_expected [of k _ d] by (cases e) auto
  moreover have "drop 13 k = d" if "key_for_digest d = Inr k" for d
    using that by (auto simp: key_for_digest_Inr is_sha256_hex_def numeral_eq_Suc)
  moreover have "\<exists>d. digest_for_key k e = Inr d" if "digest_for_key k e \<noteq> Inl (exn_of ArchiveIntegrityError)"
    using that by (auto simp: digest_for_key_def split: option.splits if_splits)
  ultimately show ?thesis by auto
qed

end
