(* ===== verification/Py_Values.thy ===== *)
theory Py_Values
  imports Lifecycle
begin

text \<open>
  The values of the Python standard library that the modelled code computes with:
  \<^verbatim>\<open>str.encode("utf-8")\<close>, \<^verbatim>\<open>decimal.Decimal\<close> with \<^verbatim>\<open>format(value, "f")\<close>, and
  \<^verbatim>\<open>datetime.datetime\<close> with \<^verbatim>\<open>astimezone(UTC).isoformat(timespec="microseconds")\<close>. These are
  models of the language's library, used by the component theories.
\<close>

section \<open>UTF-8\<close>

fun utf8_char :: "nat \<Rightarrow> nat list" where
  "utf8_char c =
     (if c < 0x80 then [c]
      else if c < 0x800 then [0xC0 + c div 64, 0x80 + c mod 64]
      else if c < 0x10000 then [0xE0 + c div 4096, 0x80 + c div 64 mod 64, 0x80 + c mod 64]
      else [0xF0 + c div 262144, 0x80 + c div 4096 mod 64, 0x80 + c div 64 mod 64, 0x80 + c mod 64])"

definition surrogate :: "nat \<Rightarrow> bool" where
  "surrogate c \<longleftrightarrow> 0xD800 \<le> c \<and> c \<le> 0xDFFF"

definition utf8_encode :: "ustr \<Rightarrow> exn + nat list" where
  "utf8_encode s =
     (if list_ex surrogate s then Inl (exn_of UnicodeEncodeError) else Inr (concat (map utf8_char s)))"

lemma length_utf8_char: "1 \<le> length (utf8_char c)" "length (utf8_char c) \<le> 4"
  by auto

lemma length_utf8_encode:
  assumes "utf8_encode s = Inr b" shows "length s \<le> length b" and "length b \<le> 4 * length s"
proof -
  have "length s \<le> length (concat (map utf8_char s)) \<and>
        length (concat (map utf8_char s)) \<le> 4 * length s"
    by (induction s) auto
  then show "length s \<le> length b" and "length b \<le> 4 * length s"
    using assms by (auto simp: utf8_encode_def split: if_splits)
qed

lemma utf8_encode_ascii: "\<forall>c \<in> set s. c < 128 \<Longrightarrow> utf8_encode s = Inr s"
  by (auto simp: utf8_encode_def surrogate_def list_ex_iff) (induction s; simp)

section \<open>White space\<close>

text \<open>\<^verbatim>\<open>str.isspace\<close>, and \<^verbatim>\<open>str.strip()\<close> without an argument.\<close>

definition is_py_space :: "nat \<Rightarrow> bool" where
  "is_py_space c \<longleftrightarrow> 9 \<le> c \<and> c \<le> 13 \<or> 28 \<le> c \<and> c \<le> 32 \<or> 8192 \<le> c \<and> c \<le> 8202 \<or>
     c \<in> {133, 160, 5760, 8232, 8233, 8239, 8287, 12288}"

definition py_strip :: "ustr \<Rightarrow> ustr" where
  "py_strip s = rev (dropWhile is_py_space (rev (dropWhile is_py_space s)))"

section \<open>Decimals\<close>

text \<open>
  A finite decimal is a sign, a coefficient and an exponent, as \<^verbatim>\<open>as_tuple()\<close> shows it: the
  digits are those of the coefficient without leading zeros, one digit for zero.
\<close>

datatype decimal = Dec bool nat int | DInfinity bool | DNaN

fun dec_finite :: "decimal \<Rightarrow> bool" where
  "dec_finite (Dec _ _ _) = True"
| "dec_finite _ = False"

fun dec_digits :: "nat \<Rightarrow> ustr" where
  "dec_digits n = (if n < 10 then [48 + n] else dec_digits (n div 10) @ [48 + n mod 10])"

declare dec_digits.simps [simp del]

text \<open>\<^verbatim>\<open>format(value, "f")\<close> for a finite value: sign, integer part, and a point before a fraction.\<close>

fun format_f :: "decimal \<Rightarrow> ustr" where
  "format_f (Dec sign coeff e) =
     (let (coeff', e') = (if coeff = 0 \<and> e > 0 then (0, 0) else (coeff, e));
          ds = dec_digits coeff';
          dotplace = e' + int (length ds);
          (intpart, fracpart) =
            (if dotplace < 0 then ([48], replicate (nat (- dotplace)) 48 @ ds)
             else if dotplace > int (length ds)
             then (ds @ replicate (nat (dotplace - int (length ds))) 48, [])
             else (if take (nat dotplace) ds = [] then [48] else take (nat dotplace) ds,
                   drop (nat dotplace) ds))
      in (if sign then [45] else []) @ intpart @ (if fracpart = [] then [] else 46 # fracpart))"
| "format_f _ = []"

lemma dec_digits_pos: "dec_digits n \<noteq> []"
  by (subst dec_digits.simps) simp

lemma dec_digits_0 [simp]: "dec_digits 0 = [48]"
  by (subst dec_digits.simps) simp

lemma length_dec_digits_pos: "0 < length (dec_digits n)"
  using dec_digits_pos by simp

lemma dec_digits_ascii: "\<forall>c \<in> set (dec_digits n). 48 \<le> c \<and> c \<le> 57"
proof (induction n rule: dec_digits.induct)
  case (1 n)
  then show ?case by (subst dec_digits.simps) auto
qed

lemma format_f_ascii: "\<forall>c \<in> set (format_f d). c < 128"
proof (cases d)
  case (Dec sign coeff e)
  have "\<forall>c \<in> set (dec_digits k). c < 128" for k using dec_digits_ascii [of k] by fastforce
  then show ?thesis
    by (auto simp: Dec Let_def split: prod.splits if_splits dest: in_set_takeD in_set_dropD)
qed auto

section \<open>Instants\<close>

text \<open>
  A \<^verbatim>\<open>datetime\<close> without a usable offset is \<open>Naive\<close> (its wall-clock microseconds); one with an
  offset is \<open>Aware\<close>, the microseconds of its UTC instant counted from 0001-01-01T00:00:00,
  by which Python compares aware values.
\<close>

datatype datetime = Naive int | Aware int

fun is_aware :: "datetime \<Rightarrow> bool" where
  "is_aware (Aware _) = True"
| "is_aware (Naive _) = False"

fun instant_le :: "datetime \<Rightarrow> datetime \<Rightarrow> bool" where
  "instant_le (Aware a) (Aware b) = (a \<le> b)"
| "instant_le (Naive a) (Naive b) = (a \<le> b)"
| "instant_le _ _ = False"

text \<open>The proleptic Gregorian calendar, from the day number (0 for 0001-01-01).\<close>

definition is_leap :: "nat \<Rightarrow> bool" where
  "is_leap y \<longleftrightarrow> y mod 4 = 0 \<and> (y mod 100 \<noteq> 0 \<or> y mod 400 = 0)"

definition days_in_month :: "nat \<Rightarrow> nat \<Rightarrow> nat" where
  "days_in_month y m =
     (if m = 2 then (if is_leap y then 29 else 28) else if m \<in> {4, 6, 9, 11} then 30 else 31)"

fun month_of :: "nat \<Rightarrow> nat list \<Rightarrow> nat \<Rightarrow> nat \<times> nat" where
  "month_of y [] d = (12, d + 1)"
| "month_of y (m # ms) d =
     (if d < days_in_month y m then (m, d + 1) else month_of y ms (d - days_in_month y m))"

definition ord2ymd :: "nat \<Rightarrow> nat \<times> nat \<times> nat" where
  "ord2ymd n =
     (let n400 = n div 146097; n' = n mod 146097;
          n100 = n' div 36524; n'' = n' mod 36524;
          n4 = n'' div 1461; n3 = n'' mod 1461;
          n1 = n3 div 365; d = n3 mod 365;
          year = n400 * 400 + n100 * 100 + n4 * 4 + n1 + 1
      in if n1 = 4 \<or> n100 = 4 then (year - 1, 12, 31)
         else let (m, day) = month_of year [1..<13] d in (year, m, day))"

definition pad_digits :: "nat \<Rightarrow> nat \<Rightarrow> ustr" where
  "pad_digits w n = (let ds = dec_digits n in replicate (w - length ds) 48 @ ds)"

text \<open>\<^verbatim>\<open>value.astimezone(UTC).isoformat(timespec="microseconds")\<close> of an aware instant.\<close>

definition iso_utc :: "nat \<Rightarrow> ustr" where
  "iso_utc us =
     (let (y, m, d) = ord2ymd (us div 86400000000); t = us mod 86400000000
      in pad_digits 4 y @ lit ''-'' @ pad_digits 2 m @ lit ''-'' @ pad_digits 2 d @ lit ''T'' @
         pad_digits 2 (t div 3600000000) @ lit '':'' @ pad_digits 2 (t div 60000000 mod 60) @ lit '':'' @
         pad_digits 2 (t div 1000000 mod 60) @ lit ''.'' @ pad_digits 6 (t mod 1000000) @
         lit ''+00:00'')"

text \<open>The instants a \<^verbatim>\<open>datetime\<close> can hold: the years 1 to 9999.\<close>

fun instant_ok :: "datetime \<Rightarrow> bool" where
  "instant_ok (Aware us) = (0 \<le> us \<and> us < 3652059 * 86400000000)"
| "instant_ok (Naive us) = (0 \<le> us \<and> us < 3652059 * 86400000000)"

lemma length_dec_digits: "n < 10 ^ Suc k \<Longrightarrow> length (dec_digits n) \<le> Suc k"
proof (induction k arbitrary: n)
  case 0
  then show ?case by (subst dec_digits.simps) simp
next
  case (Suc k)
  then have "n div 10 < 10 ^ Suc k" by (simp add: less_mult_imp_div_less)
  then have "length (dec_digits (n div 10)) \<le> Suc k" by (rule Suc.IH)
  then show ?case by (subst dec_digits.simps) simp
qed

lemma length_pad_digits: "n < 10 ^ 6 \<Longrightarrow> w \<le> 6 \<Longrightarrow> length (pad_digits w n) \<le> 6"
  using length_dec_digits [of n 5] by (auto simp: pad_digits_def Let_def)

lemma month_of_bounds: "set ms \<subseteq> {..12} \<Longrightarrow> month_of y ms d = (m, k) \<Longrightarrow> m \<le> 12 \<and> k \<le> d + 1"
  by (induction y ms d rule: month_of.induct) (fastforce split: if_splits)+

lemma ord2ymd_bounds:
  assumes "n < 3652059" "ord2ymd n = (y, m, d)"
  shows "y < 10 ^ 6" "m < 10 ^ 6" "d < 10 ^ 6"
proof -
  define n1 where "n1 = n mod 146097 mod 36524 mod 1461 div 365"
  define dd where "dd = n mod 146097 mod 36524 mod 1461 mod 365"
  define year where "year = n div 146097 * 400 + n mod 146097 div 36524 * 100
      + n mod 146097 mod 36524 div 1461 * 4 + n1 + 1"
  have "n div 146097 \<le> 25" "n mod 146097 div 36524 \<le> 4" "n mod 146097 mod 36524 div 1461 \<le> 25" "n1 \<le> 4"
    using assms(1) unfolding n1_def by auto
  then have year: "year < 10 ^ 6" unfolding year_def by simp
  obtain m' d' where md: "month_of year [1..<13] dd = (m', d')" by (cases "month_of year [1..<13] dd")
  then have "m' \<le> 12 \<and> d' \<le> dd + 1" by (intro month_of_bounds) auto
  moreover have "dd < 365" by (simp add: dd_def)
  moreover have "(y, m, d) = (year - 1, 12, 31) \<or> (y, m, d) = (year, m', d')"
    using assms(2) md unfolding ord2ymd_def Let_def n1_def [symmetric] dd_def [symmetric] year_def [symmetric]
    by (auto split: if_splits)
  ultimately show "y < 10 ^ 6" "m < 10 ^ 6" "d < 10 ^ 6" using year by auto
qed

lemma length_iso_utc: "us < 3652059 * 86400000000 \<Longrightarrow> length (iso_utc us) \<le> 54"
proof -
  assume us: "us < 3652059 * 86400000000"
  then have days: "us div 86400000000 < 3652059" by (simp add: less_mult_imp_div_less)
  obtain y m d where ymd: "ord2ymd (us div 86400000000) = (y, m, d)" by (metis prod_cases3)
  have lens: "length (pad_digits 4 y) \<le> 6" "length (pad_digits 2 m) \<le> 6" "length (pad_digits 2 d) \<le> 6"
    using ord2ymd_bounds [OF days ymd] by (simp_all add: length_pad_digits)
  define t where "t = us mod 86400000000"
  have t: "t < 86400000000" by (simp add: t_def)
  have mod60: "length (pad_digits 2 (k mod 60)) \<le> 6" for k
  proof -
    have "k mod 60 < 60" by simp
    then have "k mod 60 < 10 ^ 6" by simp
    then show ?thesis by (rule length_pad_digits) simp
  qed
  have "t div 3600000000 < 10 ^ 6" "t mod 1000000 < 10 ^ 6" using t by auto
  then have "length (pad_digits 2 (t div 3600000000)) \<le> 6" "length (pad_digits 6 (t mod 1000000)) \<le> 6"
    by (simp_all only: length_pad_digits numeral_le_iff semiring_norm)
  then show ?thesis
    using lens mod60 [of "t div 60000000"] mod60 [of "t div 1000000"]
    unfolding iso_utc_def ymd Let_def t_def [symmetric] by simp
qed

end
