(* ===== verification/Export_Models.thy ===== *)
theory Export_Models
  imports Py_Values Complex_Main
begin

text \<open>
  The explicit values and limits of analytical exports, \<^verbatim>\<open>adapters/export/models.py\<close>: the
  field and schema types with the checks of their \<^verbatim>\<open>__post_init__\<close>, \<^verbatim>\<open>ExportLimits\<close>, and the
  operation budget that every partition of one export shares. Seconds are exact rationals
  (the source uses binary floating point); \<open>now\<close> is the reading of \<^verbatim>\<open>time.monotonic()\<close> at the
  call. Dynamic type tests the record types already guarantee (\<^verbatim>\<open>isinstance\<close>, \<^verbatim>\<open>type(x) is int\<close>)
  have no counterpart.
\<close>

section \<open>Fields and schemas\<close>

datatype ExportType =
    STRING | BINARY | INT32 | INT64 | BOOLEAN | DECIMAL_STRING | TIMESTAMP_ISO8601

fun export_type_value :: "ExportType \<Rightarrow> string" where
  "export_type_value STRING = ''string''"
| "export_type_value BINARY = ''binary''"
| "export_type_value INT32 = ''int32''"
| "export_type_value INT64 = ''int64''"
| "export_type_value BOOLEAN = ''boolean''"
| "export_type_value DECIMAL_STRING = ''decimal_string''"
| "export_type_value TIMESTAMP_ISO8601 = ''timestamp_iso8601''"

record ExportField =
  field_name :: ustr
  value_type :: ExportType
  nullable :: bool

definition ExportField_post_init :: "ExportField \<Rightarrow> exn + unit" where
  "ExportField_post_init f =
     rbind (utf8_encode (field_name f)) (\<lambda>encoded_name.
       if field_name f = [] \<or> 0 \<in> set (field_name f) \<or> length encoded_name > 255
       then Inl (exn_of ExportValidationError) else Inr ())"

record ExportSchema =
  entity :: ustr
  version :: ustr
  schema_fields :: "ExportField list"

definition in_class :: "string \<Rightarrow> nat \<Rightarrow> bool" where
  "in_class cs c \<longleftrightarrow> c \<in> set (lit cs)"

abbreviation "lower_letters \<equiv> ''abcdefghijklmnopqrstuvwxyz''"
abbreviation "upper_letters \<equiv> ''ABCDEFGHIJKLMNOPQRSTUVWXYZ''"
abbreviation "digit_chars \<equiv> ''0123456789''"

text \<open>\<^verbatim>\<open>[a-z][a-z0-9_]{0,63}\<close> and \<^verbatim>\<open>[A-Za-z0-9][A-Za-z0-9._-]{0,63}\<close>, matched in full.\<close>

fun IDENTIFIER_PATTERN :: "ustr \<Rightarrow> bool" where
  "IDENTIFIER_PATTERN [] = False"
| "IDENTIFIER_PATTERN (c # cs) =
     (in_class lower_letters c \<and> length cs \<le> 63 \<and>
      list_all (in_class (lower_letters @ digit_chars @ ''_'')) cs)"

fun SCHEMA_VERSION_PATTERN :: "ustr \<Rightarrow> bool" where
  "SCHEMA_VERSION_PATTERN [] = False"
| "SCHEMA_VERSION_PATTERN (c # cs) =
     (in_class (upper_letters @ lower_letters @ digit_chars) c \<and> length cs \<le> 63 \<and>
      list_all (in_class (upper_letters @ lower_letters @ digit_chars @ ''._-'')) cs)"

definition ExportSchema_post_init :: "ExportSchema \<Rightarrow> exn + unit" where
  "ExportSchema_post_init s =
     (if \<not> IDENTIFIER_PATTERN (entity s) then Inl (exn_of ExportValidationError)
      else if \<not> SCHEMA_VERSION_PATTERN (version s) then Inl (exn_of ExportValidationError)
      else if schema_fields s = [] then Inl (exn_of ExportValidationError)
      else if \<not> distinct (map field_name (schema_fields s)) then Inl (exn_of ExportValidationError)
      else Inr ())"

text \<open>A schema as the writer receives it: it and its fields passed their checks.\<close>

definition valid_schema :: "ExportSchema \<Rightarrow> bool" where
  "valid_schema s \<longleftrightarrow> ExportSchema_post_init s = Inr () \<and>
     (\<forall>f \<in> set (schema_fields s). ExportField_post_init f = Inr ())"

section \<open>Limits\<close>

record ExportLimits =
  max_columns :: int
  max_rows_per_file :: int
  max_files :: int
  max_dataset_rows :: int
  max_string_bytes :: int
  max_binary_bytes :: int
  max_page_bytes :: int
  max_file_bytes :: int
  max_working_set_bytes :: int
  max_spool_bytes :: int
  max_output_bytes :: int
  max_operation_seconds :: rat

definition default_ExportLimits :: ExportLimits where
  "default_ExportLimits =
     \<lparr>max_columns = 128, max_rows_per_file = 50000, max_files = 1000,
      max_dataset_rows = 10000000, max_string_bytes = 1048576, max_binary_bytes = 16777216,
      max_page_bytes = 67108864, max_file_bytes = 67108864, max_working_set_bytes = 268435456,
      max_spool_bytes = 2147483648, max_output_bytes = 68719476736,
      max_operation_seconds = 3600\<rparr>"

definition ExportLimits_post_init :: "ExportLimits \<Rightarrow> exn + unit" where
  "ExportLimits_post_init l =
     (if \<exists>v \<in> set [max_columns l, max_rows_per_file l, max_files l, max_dataset_rows l,
            max_string_bytes l, max_binary_bytes l, max_page_bytes l, max_file_bytes l,
            max_working_set_bytes l, max_spool_bytes l, max_output_bytes l]. v \<le> 0
      then Inl (exn_of ExportValidationError)
      else if max_dataset_rows l < max_rows_per_file l then Inl (exn_of ExportValidationError)
      else if max_rows_per_file l \<ge> 2 ^ 31 \<or> max_page_bytes l \<ge> 2 ^ 31 \<or> max_file_bytes l \<ge> 2 ^ 31
      then Inl (exn_of ExportValidationError)
      else if max_string_bytes l \<ge> 2 ^ 32 \<or> max_binary_bytes l \<ge> 2 ^ 32
      then Inl (exn_of ExportValidationError)
      else if max_page_bytes l > max_file_bytes l then Inl (exn_of ExportValidationError)
      else if max_file_bytes l > max_working_set_bytes l then Inl (exn_of ExportValidationError)
      else if max_spool_bytes l \<ge> 2 ^ 63 \<or> max_output_bytes l \<ge> 2 ^ 63
      then Inl (exn_of ExportValidationError)
      else if \<not> (0 < max_operation_seconds l \<and> max_operation_seconds l \<le> 86400)
      then Inl (exn_of ExportValidationError)
      else Inr ())"

section \<open>The operation budget\<close>

record ExportOperationBudget =
  limits :: ExportLimits
  work_deadline :: rat
  cleanup_deadline :: rat
  planned_rows :: "int option"
  consumed_rows :: int
  consumed_files :: int
  consumed_spool_bytes :: int
  consumed_output_bytes :: int

definition budget_start :: "ExportLimits \<Rightarrow> rat \<Rightarrow> ExportOperationBudget" where
  "budget_start l started_at =
     (let cleanup_reserve =
            min (min 30 (max 4 (max_operation_seconds l * (1 / 10)))) (max_operation_seconds l / 2)
      in \<lparr>limits = l,
          work_deadline = started_at + max_operation_seconds l - cleanup_reserve,
          cleanup_deadline = started_at + max_operation_seconds l,
          planned_rows = None, consumed_rows = 0, consumed_files = 0,
          consumed_spool_bytes = 0, consumed_output_bytes = 0\<rparr>)"

definition remaining_seconds :: "bool \<Rightarrow> rat \<Rightarrow> ExportOperationBudget \<Rightarrow> rat" where
  "remaining_seconds cleanup now b =
     max 0 ((if cleanup then cleanup_deadline b else work_deadline b) - now)"

definition budget_checkpoint :: "bool \<Rightarrow> rat \<Rightarrow> ExportOperationBudget \<Rightarrow> exn + unit" where
  "budget_checkpoint cleanup now b =
     (if remaining_seconds cleanup now b \<le> 0 then Inl (exn_of ExportValidationError) else Inr ())"

definition preflight :: "rat \<Rightarrow> int list \<Rightarrow> int \<Rightarrow> ExportOperationBudget \<Rightarrow> exn + ExportOperationBudget" where
  "preflight now partition_row_counts row_count b =
     rbind (budget_checkpoint False now b) (\<lambda>_.
       if row_count < 0 \<or> (\<exists>n \<in> set partition_row_counts. n < 0)
       then Inl (exn_of ExportValidationError)
       else if sum_list partition_row_counts \<noteq> row_count then Inl (exn_of ExportValidationError)
       else if row_count > max_dataset_rows (limits b) then Inl (exn_of ExportValidationError)
       else let minimum_files =
                  sum_list (map (\<lambda>n. (n + max_rows_per_file (limits b) - 1)
                                       div max_rows_per_file (limits b)) partition_row_counts)
            in if minimum_files > max_files (limits b) then Inl (exn_of ExportValidationError)
               else Inr (b\<lparr>planned_rows := Some row_count\<rparr>))"

definition charge_row :: "rat \<Rightarrow> int \<Rightarrow> ExportOperationBudget \<Rightarrow> exn + ExportOperationBudget" where
  "charge_row now spool_bytes b =
     rbind (budget_checkpoint False now b) (\<lambda>_.
       if spool_bytes < 0 then Inl (exn_of ExportValidationError)
       else let prospective_rows = consumed_rows b + 1;
                prospective_spool = consumed_spool_bytes b + spool_bytes
            in if prospective_rows > max_dataset_rows (limits b)
               then Inl (exn_of ExportValidationError)
               else if (case planned_rows b of None \<Rightarrow> False | Some p \<Rightarrow> prospective_rows > p)
               then Inl (exn_of ExportValidationError)
               else if prospective_spool > max_spool_bytes (limits b)
               then Inl (exn_of ExportValidationError)
               else Inr (b\<lparr>consumed_rows := prospective_rows,
                           consumed_spool_bytes := prospective_spool\<rparr>))"

definition charge_file :: "rat \<Rightarrow> int \<Rightarrow> ExportOperationBudget \<Rightarrow> exn + ExportOperationBudget" where
  "charge_file now output_bytes b =
     rbind (budget_checkpoint False now b) (\<lambda>_.
       if output_bytes < 0 then Inl (exn_of ExportValidationError)
       else let prospective_files = consumed_files b + 1;
                prospective_output = consumed_output_bytes b + output_bytes
            in if prospective_files > max_files (limits b) then Inl (exn_of ExportValidationError)
               else if prospective_output > max_output_bytes (limits b)
               then Inl (exn_of ExportValidationError)
               else Inr (b\<lparr>consumed_files := prospective_files,
                           consumed_output_bytes := prospective_output\<rparr>))"

definition budget_finish :: "rat \<Rightarrow> ExportOperationBudget \<Rightarrow> exn + unit" where
  "budget_finish now b =
     rbind (budget_checkpoint False now b) (\<lambda>_.
       case planned_rows b of
         None \<Rightarrow> Inr ()
       | Some p \<Rightarrow> if consumed_rows b \<noteq> p then Inl (exn_of ExportValidationError) else Inr ())"

section \<open>Every sequence of charges stays within the limits\<close>

datatype budget_op = Preflight rat "int list" int | ChargeRow rat int | ChargeFile rat int

fun budget_step :: "budget_op \<Rightarrow> ExportOperationBudget \<Rightarrow> exn + ExportOperationBudget" where
  "budget_step (Preflight now counts n) b = preflight now counts n b"
| "budget_step (ChargeRow now n) b = charge_row now n b"
| "budget_step (ChargeFile now n) b = charge_file now n b"

definition budget_within :: "ExportLimits \<Rightarrow> rat \<Rightarrow> ExportOperationBudget \<Rightarrow> bool" where
  "budget_within l deadline b \<longleftrightarrow> limits b = l \<and> work_deadline b = deadline \<and>
     0 \<le> consumed_rows b \<and> consumed_rows b \<le> max_dataset_rows l \<and>
     0 \<le> consumed_files b \<and> consumed_files b \<le> max_files l \<and>
     0 \<le> consumed_spool_bytes b \<and> consumed_spool_bytes b \<le> max_spool_bytes l \<and>
     0 \<le> consumed_output_bytes b \<and> consumed_output_bytes b \<le> max_output_bytes l"

text \<open>What one operation stands for: a row with its spooled bytes, a file with its bytes, a plan.\<close>

fun op_rows :: "budget_op \<Rightarrow> int" where
  "op_rows (ChargeRow now n) = 1"
| "op_rows _ = 0"

fun op_spool :: "budget_op \<Rightarrow> int" where
  "op_spool (ChargeRow now n) = n"
| "op_spool _ = 0"

fun op_files :: "budget_op \<Rightarrow> int" where
  "op_files (ChargeFile now n) = 1"
| "op_files _ = 0"

fun op_output :: "budget_op \<Rightarrow> int" where
  "op_output (ChargeFile now n) = n"
| "op_output _ = 0"

fun op_plan :: "budget_op \<Rightarrow> int option \<Rightarrow> int option" where
  "op_plan (Preflight now counts n) p = Some n"
| "op_plan _ p = p"

fun op_time :: "budget_op \<Rightarrow> rat" where
  "op_time (Preflight now counts n) = now"
| "op_time (ChargeRow now n) = now"
| "op_time (ChargeFile now n) = now"

lemma checkpoint_Inr: "budget_checkpoint c now b = Inr () \<longleftrightarrow> 0 < remaining_seconds c now b"
  by (auto simp: budget_checkpoint_def)

lemmas budget_ops = preflight_def charge_row_def charge_file_def Let_def rbind_Inr_iff checkpoint_Inr

lemma budget_step_within:
  "budget_within l t b \<Longrightarrow> budget_step x b = Inr b' \<Longrightarrow> budget_within l t b'"
  by (cases x) (auto simp: budget_within_def budget_ops split: if_splits option.splits)

interpretation export_budget: guarded_ops budget_step "budget_within l t" for l t
  by unfold_locales (rule budget_step_within)

text \<open>The counters read what was accepted.\<close>

interpretation rows_meter: metered_ops budget_step consumed_rows "\<lambda>x n. n + op_rows x"
  by unfold_locales (case_tac x; auto simp: budget_ops split: if_splits option.splits)

interpretation spool_meter: metered_ops budget_step consumed_spool_bytes "\<lambda>x n. n + op_spool x"
  by unfold_locales (case_tac x; auto simp: budget_ops split: if_splits option.splits)

interpretation files_meter: metered_ops budget_step consumed_files "\<lambda>x n. n + op_files x"
  by unfold_locales (case_tac x; auto simp: budget_ops split: if_splits option.splits)

interpretation output_meter: metered_ops budget_step consumed_output_bytes "\<lambda>x n. n + op_output x"
  by unfold_locales (case_tac x; auto simp: budget_ops split: if_splits option.splits)

interpretation plan_meter: metered_ops budget_step planned_rows op_plan
  by unfold_locales (case_tac x; auto simp: budget_ops split: if_splits option.splits)

lemmas budget_meters = rows_meter.run_meter spool_meter.run_meter files_meter.run_meter output_meter.run_meter plan_meter.run_meter fold_plus

lemma budget_step_in_time: "budget_within l t b \<Longrightarrow> budget_step x b = Inr b' \<Longrightarrow> op_time x < t"
  by (cases x) (auto simp: budget_within_def budget_ops remaining_seconds_def)

lemma ExportLimits_bounds:
  assumes "ExportLimits_post_init l = Inr ()"
  shows "0 < max_rows_per_file l" "max_rows_per_file l < 2 ^ 31"
    "0 < max_page_bytes l" "max_page_bytes l \<le> max_file_bytes l" "max_file_bytes l < 2 ^ 31"
    "max_string_bytes l < 2 ^ 32" "max_binary_bytes l < 2 ^ 32"
    "0 < max_dataset_rows l" "0 < max_files l" "0 < max_spool_bytes l" "0 < max_output_bytes l"
    "0 < max_operation_seconds l"
  using assms by (auto simp: ExportLimits_post_init_def split: if_splits)

lemma budget_start_within:
  "ExportLimits_post_init l = Inr () \<Longrightarrow> budget_within l (work_deadline (budget_start l now)) (budget_start l now)"
  using ExportLimits_bounds [of l] by (simp add: budget_start_def budget_within_def Let_def)

lemma budget_start_deadline: "0 < max_operation_seconds l \<Longrightarrow> work_deadline (budget_start l now) < now + max_operation_seconds l"
  by (simp add: budget_start_def Let_def)

lemma charge_accepted:
  "(\<exists>b'. charge_row now n b = Inr b') \<longleftrightarrow> now < work_deadline b \<and> 0 \<le> n \<and> consumed_rows b < max_dataset_rows (limits b) \<and>
     (\<forall>p. planned_rows b = Some p \<longrightarrow> consumed_rows b < p) \<and> consumed_spool_bytes b + n \<le> max_spool_bytes (limits b)"
  "(\<exists>b'. charge_file now n b = Inr b') \<longleftrightarrow> now < work_deadline b \<and> 0 \<le> n \<and> consumed_files b < max_files (limits b) \<and>
     consumed_output_bytes b + n \<le> max_output_bytes (limits b)"
  by (auto simp: budget_ops remaining_seconds_def split: option.split)

section \<open>Properties\<close>

text \<open>
  C28. Whatever plans, row charges and file charges one export makes, the charges that are accepted together stay within the configured
  limits: their number of rows and files, their spooled bytes and their output bytes, and none is accepted at or after the working deadline, which lies
  before the end of the operation. Nothing else is refused: the next charge of a row or a file is accepted exactly when it is in time,
  not negative, within the limits together with what was accepted before, and a row within the last accepted plan. An export that
  finishes after a plan has been charged exactly the planned number of rows.
\<close>
theorem export_budget_never_exceeded:
  fixes l :: ExportLimits and started :: rat and ops :: "budget_op list"
  defines "acc \<equiv> accepted_ops budget_step (budget_start l started) ops" and "b \<equiv> run_ops budget_step (budget_start l started) ops"
    and "deadline \<equiv> work_deadline (budget_start l started)"
  assumes "ExportLimits_post_init l = Inr ()"
  shows "sum_list (map op_rows acc) \<le> max_dataset_rows l \<and> sum_list (map op_spool acc) \<le> max_spool_bytes l \<and>
     sum_list (map op_files acc) \<le> max_files l \<and> sum_list (map op_output acc) \<le> max_output_bytes l \<and>
     (\<forall>x\<in>set acc. op_time x < deadline) \<and> deadline < started + max_operation_seconds l \<and>
     (\<forall>now n. (\<exists>b'. charge_row now n b = Inr b') \<longleftrightarrow> now < deadline \<and> 0 \<le> n \<and> sum_list (map op_rows acc) < max_dataset_rows l \<and>
        (\<forall>p. fold op_plan acc None = Some p \<longrightarrow> sum_list (map op_rows acc) < p) \<and> sum_list (map op_spool acc) + n \<le> max_spool_bytes l) \<and>
     (\<forall>now n. (\<exists>b'. charge_file now n b = Inr b') \<longleftrightarrow> now < deadline \<and> 0 \<le> n \<and> sum_list (map op_files acc) < max_files l \<and>
        sum_list (map op_output acc) + n \<le> max_output_bytes l) \<and>
     (\<forall>now p. budget_finish now b = Inr () \<longrightarrow> fold op_plan acc None = Some p \<longrightarrow> sum_list (map op_rows acc) = p)"
proof -
  have start: "budget_within l deadline (budget_start l started)" unfolding deadline_def by (rule budget_start_within [OF assms(4)])
  have within: "budget_within l deadline b" unfolding b_def by (rule export_budget.run_invar [OF start])
  have meters: "consumed_rows b = sum_list (map op_rows acc)" "consumed_spool_bytes b = sum_list (map op_spool acc)"
    "consumed_files b = sum_list (map op_files acc)" "consumed_output_bytes b = sum_list (map op_output acc)" "planned_rows b = fold op_plan acc None"
    unfolding b_def acc_def budget_meters by (simp_all add: budget_start_def Let_def)
  have time: "\<forall>x\<in>set acc. op_time x < deadline" unfolding acc_def by (rule export_budget.accepted_all [OF budget_step_in_time start])
  have deadline: "deadline < started + max_operation_seconds l" unfolding deadline_def by (rule budget_start_deadline [OF ExportLimits_bounds(12) [OF assms(4)]])
  have finish: "\<forall>now p. budget_finish now b = Inr () \<longrightarrow> planned_rows b = Some p \<longrightarrow> consumed_rows b = p"
    by (auto simp: budget_finish_def rbind_Inr_iff split: if_splits)
  show ?thesis using within time deadline finish unfolding charge_accepted meters by (simp add: budget_within_def meters)
qed

theorem export_budget_never_exceeded_witness:
  "ExportLimits_post_init default_ExportLimits = Inr () \<and>
   accepted_ops budget_step (budget_start default_ExportLimits 0) [Preflight 1 [1] 1, ChargeRow 2 100, ChargeRow 2 100, ChargeFile 3 500] =
     [Preflight 1 [1] 1, ChargeRow 2 100, ChargeFile 3 500] \<and>
   \<not> (\<exists>b'. charge_row 4 1 (run_ops budget_step (budget_start default_ExportLimits 0)
       [Preflight 1 [1] 1, ChargeRow 2 100, ChargeRow 2 100, ChargeFile 3 500]) = Inr b')"
proof -
  let ?ops = "[Preflight 1 [1] 1, ChargeRow 2 100, ChargeRow 2 100, ChargeFile 3 500]"
  have l: "ExportLimits_post_init default_ExportLimits = Inr ()"
    by (simp add: ExportLimits_post_init_def default_ExportLimits_def)
  have acc: "accepted_ops budget_step (budget_start default_ExportLimits 0) ?ops = [Preflight 1 [1] 1, ChargeRow 2 100, ChargeFile 3 500]"
    by (simp add: budget_start_def default_ExportLimits_def preflight_def charge_row_def charge_file_def
        budget_checkpoint_def remaining_seconds_def Let_def)
  from export_budget_never_exceeded [OF l, of 0 ?ops] l acc show ?thesis by simp
qed

end
