(* ===== verification/Compact_Thrift.thy ===== *)
theory Compact_Thrift
  imports Lifecycle
begin

unbundle bit_operations_syntax

text \<open>
  The Thrift compact-protocol serializer of \<^verbatim>\<open>adapters/export/parquet.py\<close>: the varints and
  the class \<^verbatim>\<open>_CompactStruct\<close>. A \<^verbatim>\<open>bytes\<close> or \<^verbatim>\<open>bytearray\<close> value is the list of its byte values;
  that every value is below 256 (so that \<^verbatim>\<open>bytearray.append\<close> does not raise) is a lemma, not
  a type. The second half is an independent reader of the compact protocol and the proof
  that it reads back what the serializer wrote.
\<close>

section \<open>Serializer\<close>

type_synonym bytes = "nat list"

datatype CompactType =
    T_STOP | BOOLEAN_TRUE | BOOLEAN_FALSE | T_BYTE | T_I16 | T_I32 | T_I64 | T_DOUBLE
  | T_BINARY | T_LIST | T_STRUCT

fun compact_code :: "CompactType \<Rightarrow> nat" where
  "compact_code T_STOP = 0"
| "compact_code BOOLEAN_TRUE = 1"
| "compact_code BOOLEAN_FALSE = 2"
| "compact_code T_BYTE = 3"
| "compact_code T_I16 = 4"
| "compact_code T_I32 = 5"
| "compact_code T_I64 = 6"
| "compact_code T_DOUBLE = 7"
| "compact_code T_BINARY = 8"
| "compact_code T_LIST = 9"
| "compact_code T_STRUCT = 12"

text \<open>The loop of \<^verbatim>\<open>_unsigned_varint\<close>, then its guard.\<close>

function varint_loop :: "nat \<Rightarrow> bytes" where
  "varint_loop value =
     (let byte = value AND 0x7F; value' = drop_bit 7 value
      in if value' = 0 then [byte] else (byte OR 0x80) # varint_loop value')"
  by pat_completeness auto
termination
  by (relation "measure id") (auto simp: drop_bit_eq_div div_greater_zero_iff)

declare varint_loop.simps [simp del]

definition unsigned_varint :: "int \<Rightarrow> exn + bytes" where
  "unsigned_varint value =
     (if value < 0 then Inl (exn_of ExportValidationError) else Inr (varint_loop (nat value)))"

definition signed_varint :: "int \<Rightarrow> exn + bytes" where
  "signed_varint value = unsigned_varint (push_bit 1 value XOR drop_bit 63 value)"

record CompactStruct =
  buffer :: bytes
  last_field_id :: int

definition new_struct :: CompactStruct where
  "new_struct = \<lparr>buffer = [], last_field_id = 0\<rparr>"

definition extend :: "bytes \<Rightarrow> CompactStruct \<Rightarrow> CompactStruct" where
  "extend bs c = c\<lparr>buffer := buffer c @ bs\<rparr>"

definition field_header :: "int \<Rightarrow> CompactType \<Rightarrow> CompactStruct \<Rightarrow> exn + CompactStruct" where
  "field_header field_id field_type c =
     (let delta = field_id - last_field_id c
      in if 1 \<le> delta \<and> delta \<le> 15
         then Inr (extend [push_bit 4 (nat delta) OR compact_code field_type] c
                     \<lparr>last_field_id := field_id\<rparr>)
         else rbind (signed_varint field_id) (\<lambda>v.
                Inr (extend (compact_code field_type # v) c\<lparr>last_field_id := field_id\<rparr>)))"

definition t_i16 :: "int \<Rightarrow> int \<Rightarrow> CompactStruct \<Rightarrow> exn + CompactStruct" where
  "t_i16 field_id value c =
     rbind (field_header field_id T_I16 c) (\<lambda>c. rbind (signed_varint value) (\<lambda>v. Inr (extend v c)))"

definition t_i32 :: "int \<Rightarrow> int \<Rightarrow> CompactStruct \<Rightarrow> exn + CompactStruct" where
  "t_i32 field_id value c =
     rbind (field_header field_id T_I32 c) (\<lambda>c. rbind (signed_varint value) (\<lambda>v. Inr (extend v c)))"

definition t_i64 :: "int \<Rightarrow> int \<Rightarrow> CompactStruct \<Rightarrow> exn + CompactStruct" where
  "t_i64 field_id value c =
     rbind (field_header field_id T_I64 c) (\<lambda>c. rbind (signed_varint value) (\<lambda>v. Inr (extend v c)))"

definition t_binary :: "int \<Rightarrow> bytes \<Rightarrow> CompactStruct \<Rightarrow> exn + CompactStruct" where
  "t_binary field_id value c =
     rbind (field_header field_id T_BINARY c) (\<lambda>c.
     rbind (unsigned_varint (int (length value))) (\<lambda>v. Inr (extend value (extend v c))))"

definition t_struct :: "int \<Rightarrow> bytes \<Rightarrow> CompactStruct \<Rightarrow> exn + CompactStruct" where
  "t_struct field_id value c =
     rbind (field_header field_id T_STRUCT c) (\<lambda>c. Inr (extend value c))"

definition list_header :: "CompactType \<Rightarrow> nat \<Rightarrow> CompactStruct \<Rightarrow> exn + CompactStruct" where
  "list_header element_type count c =
     (if count \<le> 14 then Inr (extend [push_bit 4 count OR compact_code element_type] c)
      else rbind (unsigned_varint (int count)) (\<lambda>v.
             Inr (extend v (extend [0xF0 OR compact_code element_type] c))))"

text \<open>The \<^verbatim>\<open>for value in values\<close> loop of the list writers: \<open>item\<close> serializes one element.\<close>

fun extend_each :: "('a \<Rightarrow> exn + bytes) \<Rightarrow> 'a list \<Rightarrow> CompactStruct \<Rightarrow> exn + CompactStruct" where
  "extend_each item [] c = Inr c"
| "extend_each item (x # xs) c = rbind (item x) (\<lambda>v. extend_each item xs (extend v c))"

definition t_list_i32 :: "int \<Rightarrow> int list \<Rightarrow> CompactStruct \<Rightarrow> exn + CompactStruct" where
  "t_list_i32 field_id values c =
     rbind (field_header field_id T_LIST c) (\<lambda>c.
     rbind (list_header T_I32 (length values) c) (\<lambda>c. extend_each signed_varint values c))"

definition t_list_binary :: "int \<Rightarrow> bytes list \<Rightarrow> CompactStruct \<Rightarrow> exn + CompactStruct" where
  "t_list_binary field_id values c =
     rbind (field_header field_id T_LIST c) (\<lambda>c.
     rbind (list_header T_BINARY (length values) c) (\<lambda>c.
       extend_each (\<lambda>value. rbind (unsigned_varint (int (length value))) (\<lambda>v. Inr (v @ value))) values c))"

definition t_list_struct :: "int \<Rightarrow> bytes list \<Rightarrow> CompactStruct \<Rightarrow> exn + CompactStruct" where
  "t_list_struct field_id values c =
     rbind (field_header field_id T_LIST c) (\<lambda>c.
     rbind (list_header T_STRUCT (length values) c) (\<lambda>c. extend_each Inr values c))"

definition finish :: "CompactStruct \<Rightarrow> bytes" where
  "finish c = buffer c @ [compact_code T_STOP]"

text \<open>
  A metadata function of the writer makes a fresh struct, calls the writers in order and
  finishes: \<open>thrift\<close> is that shape.
\<close>

fun calls :: "(CompactStruct \<Rightarrow> exn + CompactStruct) list \<Rightarrow> CompactStruct \<Rightarrow> exn + CompactStruct" where
  "calls [] c = Inr c"
| "calls (f # fs) c = rbind (f c) (calls fs)"

definition thrift :: "(CompactStruct \<Rightarrow> exn + CompactStruct) list \<Rightarrow> exn + bytes" where
  "thrift fs = rbind (calls fs new_struct) (\<lambda>c. Inr (finish c))"

section \<open>Varints\<close>

lemma and_0x7F: "n AND 0x7F = n mod 128" for n :: nat
proof -
  have "n AND mask 7 = take_bit 7 n" by (simp add: take_bit_eq_mask)
  then show ?thesis by (simp add: take_bit_eq_mod mask_eq_exp_minus_1)
qed

lemma or_0x80: "b < 128 \<Longrightarrow> b OR 0x80 = b + 128" for b :: nat
proof -
  assume "b < 128"
  then have "take_bit 7 b = b" by (simp add: take_bit_nat_eq_self_iff)
  then have nb: "\<not> bit b n" if "n \<ge> 7" for n using that by (metis bit_take_bit_iff leD)
  have "b + push_bit 7 1 = b OR push_bit 7 1"
    by (rule disjunctive_add) (metis bit_push_bit_iff_nat nb)
  then show ?thesis by (simp add: push_bit_eq_mult)
qed

lemma varint_loop_unfold:
  "varint_loop n =
     (if n < 128 then [n] else (n mod 128 + 128) # varint_loop (n div 128))"
  by (subst varint_loop.simps)
    (auto simp: Let_def and_0x7F or_0x80 drop_bit_eq_div div_eq_0_iff)

lemma varint_loop_induct [case_names small big]:
  assumes "\<And>n. n < 128 \<Longrightarrow> P n" and "\<And>n. 128 \<le> n \<Longrightarrow> P (n div 128) \<Longrightarrow> P n"
  shows "P (n :: nat)"
proof (induction n rule: less_induct)
  case (less n)
  then show ?case using assms by (cases "n < 128") auto
qed

lemma varint_loop_nonempty [simp]: "varint_loop n \<noteq> []"
  by (subst varint_loop_unfold) simp

lemma varint_loop_bytes: "\<forall>b \<in> set (varint_loop n). b < 256"
  by (induction n rule: varint_loop_induct) (subst varint_loop_unfold, simp, subst varint_loop_unfold, auto)

lemma length_varint_mono: "m \<le> n \<Longrightarrow> length (varint_loop m) \<le> length (varint_loop n)"
proof (induction n arbitrary: m rule: varint_loop_induct)
  case (small n)
  then show ?case by (simp add: varint_loop_unfold)
next
  case (big n)
  show ?case
  proof (cases "m < 128")
    case True
    then show ?thesis by (simp add: varint_loop_unfold [of m] Suc_le_eq)
  next
    case False
    then show ?thesis
      using big.IH [of "m div 128"] big.hyps big.prems
      by (simp add: varint_loop_unfold [of m] varint_loop_unfold [of n] div_le_mono)
  qed
qed

lemma length_varint_le: "n < 128 ^ Suc k \<Longrightarrow> length (varint_loop n) \<le> Suc k"
proof (induction k arbitrary: n)
  case 0
  then show ?case by (simp add: varint_loop_unfold)
next
  case (Suc k)
  show ?case
  proof (cases "n < 128")
    case True
    then show ?thesis by (simp add: varint_loop_unfold)
  next
    case False
    have "n div 128 < 128 ^ Suc k" using Suc.prems by (simp add: less_mult_imp_div_less)
    then show ?thesis using Suc.IH False by (simp add: varint_loop_unfold [of n])
  qed
qed

text \<open>The number of bytes grows more slowly than the value: what the page bound rests on.\<close>

lemma length_varint_small: "length (varint_loop n) \<le> Suc (n div 128)"
proof (induction n rule: varint_loop_induct)
  case (small n)
  then show ?case by (simp add: varint_loop_unfold)
next
  case (big n)
  have "Suc (n div 128 div 128) \<le> n div 128"
    using big.hyps by (metis Suc_leI div_greater_zero_iff div_less_dividend numeral_One
        numeral_less_iff semiring_norm(76) zero_less_numeral)
  then show ?case using big by (simp add: varint_loop_unfold [of n])
qed

text \<open>Zig-zag: the number \<^verbatim>\<open>(value << 1) ^ (value >> 63)\<close>.\<close>

definition zigzag :: "int \<Rightarrow> nat" where
  "zigzag v = nat (push_bit 1 v XOR drop_bit 63 v)"

lemma signed_varint_total [simp]: "signed_varint v = Inr (varint_loop (zigzag v))"
proof -
  have "0 \<le> push_bit 1 v XOR drop_bit 63 v" by (simp add: xor_nonnegative_int_iff)
  then show ?thesis by (simp add: signed_varint_def unsigned_varint_def zigzag_def)
qed

lemma unsigned_varint_nat [simp]: "unsigned_varint (int n) = Inr (varint_loop n)"
  by (simp add: unsigned_varint_def)

lemma zigzag_eq:
  assumes "- (2 ^ 63) \<le> v" "v < 2 ^ 63"
  shows "zigzag v = (if 0 \<le> v then nat (2 * v) else nat (- 2 * v - 1))"
proof (cases "0 \<le> v")
  case True
  then have "drop_bit 63 v = 0" using assms by (simp add: drop_bit_eq_div div_pos_pos_trivial)
  then show ?thesis using True by (simp add: zigzag_def push_bit_eq_mult mult.commute)
next
  case False
  then have "v div 2 ^ 63 = - 1" using assms
    by (intro int_div_pos_eq [where r = "v + 2 ^ 63"]) auto
  then have "drop_bit 63 v = - 1" by (simp add: drop_bit_eq_div)
  then show ?thesis using False by (simp add: zigzag_def push_bit_eq_mult not_int_def)
qed

section \<open>What a struct serializes to\<close>

text \<open>
  Every writer appends a field header and the bytes of its value. \<open>enc_fields\<close> is the
  serialization of a whole struct as a function of its fields.
\<close>

type_synonym tfield = "int \<times> CompactType \<times> bytes"

definition svar :: "int \<Rightarrow> bytes" where
  "svar v = varint_loop (zigzag v)"

definition header_bytes :: "int \<Rightarrow> int \<Rightarrow> CompactType \<Rightarrow> bytes" where
  "header_bytes prev i ty =
     (if 1 \<le> i - prev \<and> i - prev \<le> 15 then [16 * nat (i - prev) + compact_code ty]
      else compact_code ty # svar i)"

definition list_bytes :: "CompactType \<Rightarrow> bytes list \<Rightarrow> bytes" where
  "list_bytes ty items =
     (if length items \<le> 14 then [16 * length items + compact_code ty]
      else (240 + compact_code ty) # varint_loop (length items)) @ concat items"

definition blob :: "bytes \<Rightarrow> bytes" where
  "blob bs = varint_loop (length bs) @ bs"

fun put :: "tfield \<Rightarrow> CompactStruct \<Rightarrow> CompactStruct" where
  "put (i, ty, bs) c =
     c\<lparr>buffer := buffer c @ header_bytes (last_field_id c) i ty @ bs, last_field_id := i\<rparr>"

fun enc_fields :: "int \<Rightarrow> tfield list \<Rightarrow> bytes" where
  "enc_fields prev [] = [0]"
| "enc_fields prev ((i, ty, bs) # fs) = header_bytes prev i ty @ bs @ enc_fields i fs"

lemma compact_code_less [simp]: "compact_code ty < 16"
  by (cases ty) auto

lemma or_nibble: "b < 16 \<Longrightarrow> push_bit 4 a OR b = 16 * a + b" for a b :: nat
proof -
  assume "b < 16"
  then have "take_bit 4 b = b" by (simp add: take_bit_nat_eq_self_iff)
  then have nb: "\<not> bit b n" if "n \<ge> 4" for n using that by (metis bit_take_bit_iff leD)
  have "push_bit 4 a + b = push_bit 4 a OR b"
    by (rule disjunctive_add) (metis bit_push_bit_iff_nat nb)
  then show ?thesis by (simp add: push_bit_eq_mult)
qed

lemma or_0xF0: "b < 16 \<Longrightarrow> 240 OR b = 240 + b" for b :: nat
  using or_nibble [of b 15] by (simp add: push_bit_eq_mult)

lemma extend_extend: "extend bs (extend as c) = extend (as @ bs) c"
  by (simp add: extend_def)

lemma extend_last_field: "extend bs (c\<lparr>last_field_id := i\<rparr>) = (extend bs c)\<lparr>last_field_id := i\<rparr>"
  by (simp add: extend_def)

lemma field_header_put: "field_header i ty = (\<lambda>c. Inr (put (i, ty, []) c))"
  by (rule ext)
    (auto simp: field_header_def Let_def header_bytes_def svar_def extend_def or_nibble)

lemma put_extend: "extend bs (put (i, ty, as) c) = put (i, ty, as @ bs) c"
  by (simp add: extend_def)

lemma extend_each_total:
  assumes "\<And>x. x \<in> set xs \<Longrightarrow> item x = Inr (f x)"
  shows "extend_each item xs c = Inr (extend (concat (map f xs)) c)"
  using assms by (induction xs arbitrary: c) (auto simp: extend_extend extend_def)

lemma list_header_total:
  "list_header ty n c =
     Inr (extend (if n \<le> 14 then [16 * n + compact_code ty]
                  else (240 + compact_code ty) # varint_loop n) c)"
  by (simp add: list_header_def or_nibble or_0xF0 extend_extend)

lemma writer_put:
  "t_i16 i v = (\<lambda>c. Inr (put (i, T_I16, svar v) c))"
  "t_i32 i v = (\<lambda>c. Inr (put (i, T_I32, svar v) c))"
  "t_i64 i v = (\<lambda>c. Inr (put (i, T_I64, svar v) c))"
  "t_binary i bs = (\<lambda>c. Inr (put (i, T_BINARY, blob bs) c))"
  "t_struct i bs = (\<lambda>c. Inr (put (i, T_STRUCT, bs) c))"
  by (simp_all add: t_i16_def t_i32_def t_i64_def t_binary_def t_struct_def fun_eq_iff
      field_header_put put_extend svar_def blob_def del: put.simps)

lemma list_writer_put:
  "t_list_i32 i vs = (\<lambda>c. Inr (put (i, T_LIST, list_bytes T_I32 (map svar vs)) c))"
  "t_list_binary i bs = (\<lambda>c. Inr (put (i, T_LIST, list_bytes T_BINARY (map blob bs)) c))"
  "t_list_struct i bs = (\<lambda>c. Inr (put (i, T_LIST, list_bytes T_STRUCT bs) c))"
  by (simp_all add: t_list_i32_def t_list_binary_def t_list_struct_def fun_eq_iff
      field_header_put put_extend list_header_total list_bytes_def svar_def [abs_def] blob_def [abs_def]
      extend_each_total [where f = "\<lambda>v. varint_loop (zigzag v)"] extend_each_total [where f = id]
      extend_each_total [where f = "\<lambda>bs. varint_loop (length bs) @ bs"] del: put.simps)

lemma calls_put:
  "rbind (calls (map (\<lambda>f c. Inr (put f c)) fs) c) (\<lambda>c. Inr (finish c))
     = Inr (buffer c @ enc_fields (last_field_id c) fs)"
  by (induction fs arbitrary: c) (auto simp: finish_def)

lemma thrift_puts: "thrift (map (\<lambda>f c. Inr (put f c)) fs) = Inr (enc_fields 0 fs)"
  by (simp add: thrift_def calls_put new_struct_def)

section \<open>An independent reader of the compact protocol\<close>

text \<open>
  The reader follows the published format, not the writer: a field header holds the id delta
  in its high nibble (0: an explicit zig-zag id follows) and the type in its low nibble, a
  zero byte ends a struct, a list header holds the count in its high nibble (15: a varint
  count follows). \<open>fuel\<close> bounds the recursion; \<open>2 * length bs + 1\<close> is enough.
\<close>

fun read_varint :: "bytes \<Rightarrow> (nat \<times> bytes) option" where
  "read_varint [] = None"
| "read_varint (b # bs) =
     (if b < 128 then Some (b, bs)
      else (case read_varint bs of None \<Rightarrow> None | Some (n, r) \<Rightarrow> Some (b - 128 + 128 * n, r)))"

definition unzigzag :: "nat \<Rightarrow> int" where
  "unzigzag n = (if even n then int (n div 2) else - int (n div 2) - 1)"

datatype tvalue = VInt int | VBin bytes | VList nat "tvalue list" | VStruct "(int \<times> tvalue) list"

definition take_bytes :: "nat \<Rightarrow> bytes \<Rightarrow> (bytes \<times> bytes) option" where
  "take_bytes n bs = (if n \<le> length bs then Some (take n bs, drop n bs) else None)"

fun read_value :: "nat \<Rightarrow> nat \<Rightarrow> bytes \<Rightarrow> (tvalue \<times> bytes) option"
and read_items :: "nat \<Rightarrow> nat \<Rightarrow> nat \<Rightarrow> bytes \<Rightarrow> (tvalue list \<times> bytes) option"
and read_fields :: "nat \<Rightarrow> int \<Rightarrow> bytes \<Rightarrow> ((int \<times> tvalue) list \<times> bytes) option"
where
  "read_value 0 ty bs = None"
| "read_value (Suc fuel) ty bs =
     (if ty \<in> {4, 5, 6} then map_option (\<lambda>(n, r). (VInt (unzigzag n), r)) (read_varint bs)
      else if ty = 8 then
        Option.bind (read_varint bs) (\<lambda>(n, r). map_option (\<lambda>(x, r). (VBin x, r)) (take_bytes n r))
      else if ty = 9 then
        (case bs of [] \<Rightarrow> None
         | h # r \<Rightarrow>
             Option.bind (if h div 16 = 15 then read_varint r else Some (h div 16, r)) (\<lambda>(n, r).
               map_option (\<lambda>(vs, r). (VList (h mod 16) vs, r)) (read_items fuel (h mod 16) n r)))
      else if ty = 12 then map_option (\<lambda>(fs, r). (VStruct fs, r)) (read_fields fuel 0 bs)
      else None)"
| "read_items 0 ty n bs = None"
| "read_items (Suc fuel) ty n bs =
     (case n of 0 \<Rightarrow> Some ([], bs)
      | Suc n' \<Rightarrow>
          Option.bind (read_value fuel ty bs) (\<lambda>(v, r).
            map_option (\<lambda>(vs, r). (v # vs, r)) (read_items fuel ty n' r)))"
| "read_fields 0 prev bs = None"
| "read_fields (Suc fuel) prev bs =
     (case bs of [] \<Rightarrow> None
      | h # r \<Rightarrow>
          if h = 0 then Some ([], r)
          else Option.bind
                 (if h div 16 = 0 then map_option (\<lambda>(n, r). (unzigzag n, r)) (read_varint r)
                  else Some (prev + int (h div 16), r)) (\<lambda>(i, r).
               Option.bind (read_value fuel (h mod 16) r) (\<lambda>(v, r).
                 map_option (\<lambda>(fs, r). ((i, v) # fs, r)) (read_fields fuel i r))))"

definition read_struct :: "bytes \<Rightarrow> ((int \<times> tvalue) list \<times> bytes) option" where
  "read_struct bs = read_fields (2 * length bs + 1) 0 bs"

text \<open>\<open>reads ty bs v\<close>: the bytes are a serialization of \<open>v\<close> at the wire type \<open>ty\<close>, whatever follows.\<close>

definition reads :: "nat \<Rightarrow> bytes \<Rightarrow> tvalue \<Rightarrow> bool" where
  "reads ty bs v \<longleftrightarrow> bs \<noteq> [] \<and>
     (\<forall>fuel rest. 2 * length bs + 1 \<le> fuel \<longrightarrow> read_value fuel ty (bs @ rest) = Some (v, rest))"

definition reads_items :: "nat \<Rightarrow> bytes \<Rightarrow> tvalue list \<Rightarrow> bool" where
  "reads_items ty bs vs \<longleftrightarrow>
     (\<forall>fuel rest. 2 * length bs + 2 \<le> fuel \<longrightarrow>
        read_items fuel ty (length vs) (bs @ rest) = Some (vs, rest))"

definition reads_fields :: "int \<Rightarrow> bytes \<Rightarrow> (int \<times> tvalue) list \<Rightarrow> bool" where
  "reads_fields prev bs fs \<longleftrightarrow> bs \<noteq> [] \<and>
     (\<forall>fuel rest. 2 * length bs \<le> fuel \<longrightarrow> read_fields fuel prev (bs @ rest) = Some (fs, rest))"

definition in_i64 :: "int \<Rightarrow> bool" where
  "in_i64 v \<longleftrightarrow> - (2 ^ 63) \<le> v \<and> v < 2 ^ 63"

lemma read_varint_loop [simp]: "read_varint (varint_loop n @ rest) = Some (n, rest)"
proof (induction n rule: varint_loop_induct)
  case (small n)
  then show ?case by (simp add: varint_loop_unfold)
next
  case (big n)
  then show ?case by (subst varint_loop_unfold) (simp add: mult.commute)
qed

lemma unzigzag_zigzag: "in_i64 v \<Longrightarrow> unzigzag (zigzag v) = v"
proof -
  assume v: "in_i64 v"
  show "unzigzag (zigzag v) = v"
  proof (cases "0 \<le> v")
    case True
    then obtain n where "v = int n" using nonneg_int_cases by blast
    then show ?thesis using v by (simp add: in_i64_def zigzag_eq unzigzag_def nat_mult_distrib)
  next
    case False
    then obtain n where n: "v = - int n - 1"
      by (metis add.inverse_inverse diff_minus_eq_add int_cases3 neg_int_cases not_le
          add_diff_cancel_right' diff_add_eq of_nat_Suc Suc_pred minus_diff_eq uminus_add_conv_diff)
    then have "zigzag v = Suc (2 * n)" using v by (simp add: in_i64_def zigzag_eq)
    then show ?thesis using n by (simp add: unzigzag_def)
  qed
qed

lemma reads_int: "ty \<in> {4, 5, 6} \<Longrightarrow> in_i64 v \<Longrightarrow> reads ty (svar v) (VInt v)"
  by (auto simp: reads_def svar_def unzigzag_zigzag gr0_conv_Suc dest!: Suc_le_D)

lemma reads_blob: "reads 8 (blob bs) (VBin bs)"
  by (auto simp: reads_def blob_def take_bytes_def dest!: Suc_le_D)

lemma reads_items_Nil: "reads_items ty [] []"
  by (auto simp: reads_items_def dest!: Suc_le_D)

lemma reads_items_Cons:
  assumes "reads ty bs v" "reads_items ty cs vs"
  shows "reads_items ty (bs @ cs) (v # vs)"
  unfolding reads_items_def
proof (intro allI impI)
  fix fuel rest
  assume f: "2 * length (bs @ cs) + 2 \<le> fuel"
  then obtain f' where f': "fuel = Suc f'" by (cases fuel) auto
  have "length bs \<ge> 1" using assms(1) by (simp add: reads_def Suc_le_eq)
  then have "2 * length bs + 1 \<le> f'" "2 * length cs + 2 \<le> f'" using f f' by auto
  then show "read_items fuel ty (length (v # vs)) ((bs @ cs) @ rest) = Some (v # vs, rest)"
    using assms by (simp add: f' reads_def reads_items_def)
qed

lemma reads_items_concat: "list_all2 (reads ty) items vs \<Longrightarrow> reads_items ty (concat items) vs"
  by (induction rule: list_all2_induct) (auto intro: reads_items_Nil reads_items_Cons)

lemma reads_list:
  assumes "list_all2 (reads (compact_code ty)) items vs"
  shows "reads 9 (list_bytes ty items) (VList (compact_code ty) vs)"
proof -
  have len: "length items = length vs" using assms by (rule list_all2_lengthD)
  have it: "reads_items (compact_code ty) (concat items) vs" using assms by (rule reads_items_concat)
  have ne: "list_bytes ty items \<noteq> []" by (simp add: list_bytes_def)
  have "read_value fuel 9 (list_bytes ty items @ rest) = Some (VList (compact_code ty) vs, rest)"
    if f: "2 * length (list_bytes ty items) + 1 \<le> fuel" for fuel rest
  proof -
    obtain f' where f': "fuel = Suc f'" using f by (cases fuel) auto
    have "2 * length (concat items) + 2 \<le> f'" using f f'
      by (auto simp: list_bytes_def split: if_splits)
    then have "read_items f' (compact_code ty) (length items) (concat items @ rest) = Some (vs, rest)"
      using it len by (simp add: reads_items_def)
    moreover have "(16 * length items + compact_code ty) div 16 = length items"
      using compact_code_less [of ty] by simp
    moreover have "(240 + compact_code ty) div 16 = 15" "(240 + compact_code ty) mod 16 = compact_code ty"
      using compact_code_less [of ty] by (cases ty; simp)+
    ultimately show ?thesis by (simp add: list_bytes_def f')
  qed
  then show ?thesis using ne by (simp add: reads_def)
qed

lemma header_bytes_read:
  assumes "in_i64 i" "compact_code ty \<noteq> 0"
  shows "\<exists>h r. header_bytes prev i ty = h # r \<and> h \<noteq> 0 \<and> h mod 16 = compact_code ty \<and>
     (\<forall>rest. (if h div 16 = 0 then map_option (\<lambda>(n, r). (unzigzag n, r)) (read_varint (r @ rest))
            else Some (prev + int (h div 16), r @ rest)) = Some (i, rest))"
  using assms compact_code_less [of ty]
  by (auto simp: header_bytes_def svar_def unzigzag_zigzag)

lemma reads_fields_Nil: "reads_fields prev [0] []"
  by (auto simp: reads_fields_def numeral_2_eq_2 dest!: Suc_le_D)

lemma reads_fields_Cons:
  assumes i: "in_i64 i" "compact_code ty \<noteq> 0"
    and v: "reads (compact_code ty) bs v" and fs: "reads_fields i cs fs"
  shows "reads_fields prev (header_bytes prev i ty @ bs @ cs) ((i, v) # fs)"
proof -
  obtain h r where h: "header_bytes prev i ty = h # r" "h \<noteq> 0" "h mod 16 = compact_code ty"
    and hr: "\<And>rest. (if h div 16 = 0 then map_option (\<lambda>(n, r). (unzigzag n, r)) (read_varint (r @ rest))
            else Some (prev + int (h div 16), r @ rest)) = Some (i, rest)"
    using header_bytes_read [OF i, of prev] by blast
  have "read_fields fuel prev ((header_bytes prev i ty @ bs @ cs) @ rest) = Some ((i, v) # fs, rest)"
    if f: "2 * length (header_bytes prev i ty @ bs @ cs) \<le> fuel" for fuel rest
  proof -
    obtain f' where f': "fuel = Suc f'" using f h by (cases fuel) auto
    have "cs \<noteq> []" "bs \<noteq> []" using fs v by (auto simp: reads_fields_def reads_def)
    then have "2 * length bs + 1 \<le> f'" "2 * length cs \<le> f'" using f f' h
      by (auto simp: Suc_le_eq)
    then have "read_value f' (compact_code ty) (bs @ cs @ rest) = Some (v, cs @ rest)"
      and "read_fields f' i (cs @ rest) = Some (fs, rest)"
      using v fs by (auto simp: reads_def reads_fields_def)
    then show ?thesis using h hr [of "bs @ cs @ rest"] by (simp add: f')
  qed
  then show ?thesis using h by (simp add: reads_fields_def)
qed

text \<open>A field list and what it reads as, field by field.\<close>

fun field_reads :: "tfield \<Rightarrow> int \<times> tvalue \<Rightarrow> bool" where
  "field_reads (i, ty, bs) (j, v) \<longleftrightarrow>
     i = j \<and> in_i64 i \<and> compact_code ty \<noteq> 0 \<and> reads (compact_code ty) bs v"

lemma reads_enc_fields: "list_all2 field_reads fs vs \<Longrightarrow> reads_fields prev (enc_fields prev fs) vs"
proof (induction fs vs arbitrary: prev rule: list_all2_induct)
  case Nil
  then show ?case by (simp add: reads_fields_Nil)
next
  case (Cons f fs v vs)
  then show ?case by (cases f; cases v) (auto intro!: reads_fields_Cons)
qed

lemma reads_struct:
  assumes "list_all2 field_reads fs vs"
  shows "reads 12 (enc_fields 0 fs) (VStruct vs)"
proof -
  have r: "reads_fields 0 (enc_fields 0 fs) vs" using assms by (rule reads_enc_fields)
  have "read_value fuel 12 (enc_fields 0 fs @ rest) = Some (VStruct vs, rest)"
    if enough: "2 * length (enc_fields 0 fs) + 1 \<le> fuel" for fuel rest
  proof -
    obtain f where f: "fuel = Suc f" "2 * length (enc_fields 0 fs) \<le> f" using enough
      by (cases fuel) auto
    then have "read_fields f 0 (enc_fields 0 fs @ rest) = Some (vs, rest)"
      using r by (simp add: reads_fields_def)
    then show ?thesis by (simp add: f)
  qed
  then show ?thesis using r by (simp add: reads_def reads_fields_def)
qed

lemma read_struct_enc:
  "list_all2 field_reads fs vs \<Longrightarrow> read_struct (enc_fields 0 fs @ rest) = Some (vs, rest)"
  using reads_enc_fields [of fs vs 0]
  unfolding read_struct_def reads_fields_def by (simp del: read_fields.simps)

section \<open>Properties\<close>

text \<open>
  Every 64-bit integer survives the zig-zag variable-length encoding: the writer never
  raises on it, produces at most ten bytes, each below 256, and a reader of the compact
  protocol gets the integer back whatever bytes follow.
\<close>
theorem signed_varint_roundtrip:
  assumes "- (2 ^ 63) \<le> v" and "v < 2 ^ 63"
  shows "\<exists>bs. signed_varint v = Inr bs \<and> length bs \<le> 10 \<and> (\<forall>b \<in> set bs. b < 256) \<and>
     (\<forall>rest. map_option (\<lambda>(n, r). (unzigzag n, r)) (read_varint (bs @ rest)) = Some (v, rest))"
proof -
  have "zigzag v < 2 ^ 64" using assms by (simp add: zigzag_eq nat_less_iff)
  then have "zigzag v < 128 ^ Suc 9" by simp
  then have "length (varint_loop (zigzag v)) \<le> Suc 9" by (rule length_varint_le)
  moreover have "unzigzag (zigzag v) = v" using assms by (simp add: unzigzag_zigzag in_i64_def)
  ultimately show ?thesis using varint_loop_bytes [of "zigzag v"] by simp
qed

theorem signed_varint_roundtrip_witness:
  "\<exists>bs. signed_varint (- 9223372036854775808) = Inr bs \<and> length bs \<le> 10 \<and>
     map_option (\<lambda>(n, r). (unzigzag n, r)) (read_varint (bs @ [7])) = Some (- 9223372036854775808, [7])"
  using signed_varint_roundtrip [of "- 9223372036854775808"] by auto

end
