(* ===== verification/Parquet_Pages.thy ===== *)
theory Parquet_Pages
  imports Export_Models Compact_Thrift
begin

unbundle bit_operations_syntax

text \<open>
  The data pages of \<^verbatim>\<open>adapters/export/parquet.py\<close>: the normalization of one source value, the
  run-length encoding of definition levels and the PLAIN encoding of a column, the size
  each value is charged for, and readers written from the Parquet format that recover what
  was encoded. \<open>pyobj\<close> are the Python objects a row may hold, told apart the way
  \<^verbatim>\<open>isinstance\<close> and \<^verbatim>\<open>type(x) is\<close> do; \<open>pvalue\<close> are normalized values.
\<close>

section \<open>Values\<close>

datatype pyobj =
    OStr ustr | OBytes bytes | OInt int | OBool bool | ODecimal decimal | ODatetime datetime
  | OOther

datatype pvalue = PBytes bytes | PInt int | PBool bool

datatype PhysicalType = P_BOOLEAN | P_INT32 | P_INT64 | P_BYTE_ARRAY

fun physical_code :: "PhysicalType \<Rightarrow> int" where
  "physical_code P_BOOLEAN = 0"
| "physical_code P_INT32 = 1"
| "physical_code P_INT64 = 2"
| "physical_code P_BYTE_ARRAY = 6"

fun physical_type :: "ExportType \<Rightarrow> PhysicalType" where
  "physical_type BOOLEAN = P_BOOLEAN"
| "physical_type INT32 = P_INT32"
| "physical_type INT64 = P_INT64"
| "physical_type _ = P_BYTE_ARRAY"

fun is_string_type :: "ExportType \<Rightarrow> bool" where
  "is_string_type t = (t \<in> {STRING, DECIMAL_STRING, TIMESTAMP_ISO8601})"

text \<open>The length \<^verbatim>\<open>_normalize_value\<close> computes for a decimal before it formats it.\<close>

fun formatted_length :: "decimal \<Rightarrow> int" where
  "formatted_length (Dec sign coeff e) =
     (let s = (if sign then 1 else 0); n = int (length (dec_digits coeff))
      in if coeff = 0 \<and> e \<ge> 0 then s + 1
         else if e \<ge> 0 then s + n + e
         else if - e < n then s + n + 1
         else s + 2 - e)"
| "formatted_length _ = 0"

text \<open>\<^verbatim>\<open>timestamp.replace("+00:00", "Z")\<close>: the suffix the UTC format always ends in.\<close>

definition iso_z :: "nat \<Rightarrow> ustr" where
  "iso_z us = (let s = iso_utc us in take (length s - 6) s @ lit ''Z'')"

definition normalize_value :: "pyobj \<Rightarrow> ExportType \<Rightarrow> ExportLimits \<Rightarrow> exn + pvalue" where
  "normalize_value value t l =
     (let err = Inl (exn_of ExportValidationError) in
      case t of
        STRING \<Rightarrow> (case value of
            OStr s \<Rightarrow> if int (length s) > max_string_bytes l then err
                      else rbind (utf8_encode s) (\<lambda>encoded.
                             if int (length encoded) > max_string_bytes l then err
                             else Inr (PBytes encoded))
          | _ \<Rightarrow> err)
      | BINARY \<Rightarrow> (case value of
            OBytes b \<Rightarrow> if int (length b) > max_binary_bytes l then err else Inr (PBytes b)
          | _ \<Rightarrow> err)
      | INT32 \<Rightarrow> (case value of
            OInt n \<Rightarrow> if \<not> (- (2 ^ 31) \<le> n \<and> n < 2 ^ 31) then err else Inr (PInt n)
          | _ \<Rightarrow> err)
      | INT64 \<Rightarrow> (case value of
            OInt n \<Rightarrow> if \<not> (- (2 ^ 63) \<le> n \<and> n < 2 ^ 63) then err else Inr (PInt n)
          | _ \<Rightarrow> err)
      | BOOLEAN \<Rightarrow> (case value of OBool b \<Rightarrow> Inr (PBool b) | _ \<Rightarrow> err)
      | DECIMAL_STRING \<Rightarrow> (case value of
            ODecimal d \<Rightarrow> if \<not> dec_finite d then err
                          else if formatted_length d > max_string_bytes l then err
                          else rbind (utf8_encode (format_f d)) (\<lambda>encoded.
                                 if int (length encoded) > max_string_bytes l then err
                                 else Inr (PBytes encoded))
          | _ \<Rightarrow> err)
      | TIMESTAMP_ISO8601 \<Rightarrow> (case value of
            ODatetime (Aware us) \<Rightarrow> Inr (PBytes (iso_z (nat us)))
          | _ \<Rightarrow> err))"

section \<open>Encoding\<close>

text \<open>\<^verbatim>\<open>struct.pack("<I", n)\<close>, \<^verbatim>\<open>"<i"\<close> and \<^verbatim>\<open>"<q"\<close>: \<open>w\<close> little-endian bytes, two's complement.\<close>

fun le_bytes :: "nat \<Rightarrow> nat \<Rightarrow> bytes" where
  "le_bytes 0 n = []"
| "le_bytes (Suc w) n = n mod 256 # le_bytes w (n div 256)"

definition pack_u32 :: "nat \<Rightarrow> exn + bytes" where
  "pack_u32 n = (if n < 2 ^ 32 then Inr (le_bytes 4 n) else Inl (exn_of OtherError))"

definition pack_signed :: "nat \<Rightarrow> int \<Rightarrow> exn + bytes" where
  "pack_signed w n =
     (if - (2 ^ (8 * w - 1)) \<le> n \<and> n < 2 ^ (8 * w - 1)
      then Inr (le_bytes w (nat (n mod 2 ^ (8 * w)))) else Inl (exn_of OtherError))"

text \<open>The outer loop of \<^verbatim>\<open>_encode_definition_levels\<close>; \<open>takeWhile\<close> is its inner loop.\<close>

function rle_runs :: "bool list \<Rightarrow> bytes" where
  "rle_runs [] = []"
| "rle_runs (v # vs) =
     (let run = Suc (length (takeWhile (\<lambda>x. x = v) vs))
      in varint_loop (push_bit 1 run) @ [if v then 1 else 0] @
         rle_runs (dropWhile (\<lambda>x. x = v) vs))"
  by pat_completeness auto
termination
  by (relation "measure length") (auto simp: le_imp_less_Suc length_dropWhile_le)

declare rle_runs.simps(2) [simp del]

definition encode_definition_levels :: "bool list \<Rightarrow> exn + bytes" where
  "encode_definition_levels present =
     (let encoded = rle_runs present
      in rbind (pack_u32 (length encoded)) (\<lambda>h. Inr (h @ encoded)))"

text \<open>\<^verbatim>\<open>packed |= 1 << bit\<close> over one group of at most eight booleans.\<close>

fun pack_bits :: "nat \<Rightarrow> nat \<Rightarrow> pvalue list \<Rightarrow> nat" where
  "pack_bits pos packed [] = packed"
| "pack_bits pos packed (v # vs) =
     pack_bits (Suc pos) (if v = PBool True then packed OR push_bit pos 1 else packed) vs"

function encode_bools :: "pvalue list \<Rightarrow> bytes" where
  "encode_bools vs =
     (if vs = [] then [] else pack_bits 0 0 (take 8 vs) # encode_bools (drop 8 vs))"
  by pat_completeness auto
termination
  by (relation "measure length") auto

declare encode_bools.simps [simp del]

fun encode_each :: "('a \<Rightarrow> exn + bytes) \<Rightarrow> 'a list \<Rightarrow> exn + bytes" where
  "encode_each f [] = Inr []"
| "encode_each f (x # xs) = rbind (f x) (\<lambda>b. rbind (encode_each f xs) (\<lambda>bs. Inr (b @ bs)))"

fun encode_int :: "nat \<Rightarrow> pvalue \<Rightarrow> exn + bytes" where
  "encode_int w (PInt n) = pack_signed w n"
| "encode_int w _ = Inl (exn_of ExportValidationError)"

fun encode_byte_array :: "pvalue \<Rightarrow> exn + bytes" where
  "encode_byte_array (PBytes b) = rbind (pack_u32 (length b)) (\<lambda>h. Inr (h @ b))"
| "encode_byte_array _ = Inl (exn_of ExportValidationError)"

fun encode_plain :: "pvalue list \<Rightarrow> ExportType \<Rightarrow> exn + bytes" where
  "encode_plain vs BOOLEAN = Inr (encode_bools vs)"
| "encode_plain vs INT32 = encode_each (encode_int 4) vs"
| "encode_plain vs INT64 = encode_each (encode_int 8) vs"
| "encode_plain vs _ = encode_each encode_byte_array vs"

fun plain_value_size :: "pvalue \<Rightarrow> ExportType \<Rightarrow> exn + int" where
  "plain_value_size v BOOLEAN = Inr 1"
| "plain_value_size v INT32 = Inr 4"
| "plain_value_size v INT64 = Inr 8"
| "plain_value_size v _ =
     (case v of PBytes b \<Rightarrow> Inr (4 + int (length b)) | _ \<Rightarrow> Inl (exn_of ExportValidationError))"

text \<open>What \<open>normalize_value\<close> returns for a field type: the values a column may hold.\<close>

fun typed_value :: "ExportType \<Rightarrow> pvalue \<Rightarrow> bool" where
  "typed_value BOOLEAN v = (\<exists>b. v = PBool b)"
| "typed_value INT32 v = (\<exists>n. v = PInt n \<and> - (2 ^ 31) \<le> n \<and> n < 2 ^ 31)"
| "typed_value INT64 v = (\<exists>n. v = PInt n \<and> - (2 ^ 63) \<le> n \<and> n < 2 ^ 63)"
| "typed_value _ v = (\<exists>b. v = PBytes b \<and> length b < 2 ^ 32)"

section \<open>Readers\<close>

fun le_nat :: "bytes \<Rightarrow> nat" where
  "le_nat [] = 0"
| "le_nat (b # bs) = b + 256 * le_nat bs"

definition le_int :: "bytes \<Rightarrow> int" where
  "le_int bs =
     (let n = int (le_nat bs); m = 2 ^ (8 * length bs) in if 2 * n < m then n else n - m)"

text \<open>The RLE half of the hybrid encoding at bit width 1, until \<open>n\<close> levels are read.\<close>

fun read_levels :: "nat \<Rightarrow> nat \<Rightarrow> bytes \<Rightarrow> bool list option" where
  "read_levels 0 n bs = (if n = 0 then Some [] else None)"
| "read_levels (Suc fuel) n bs =
     (if n = 0 then Some []
      else Option.bind (read_varint bs) (\<lambda>(h, r).
        if odd h \<or> h div 2 = 0 then None
        else (case r of [] \<Rightarrow> None
              | v # r \<Rightarrow> map_option (\<lambda>ls. replicate (h div 2) (v = 1) @ ls)
                           (read_levels fuel (n - h div 2) r))))"

fun unpack_bits :: "nat \<Rightarrow> nat \<Rightarrow> bool list" where
  "unpack_bits 0 b = []"
| "unpack_bits (Suc n) b = odd b # unpack_bits n (b div 2)"

fun read_bools :: "nat \<Rightarrow> bytes \<Rightarrow> pvalue list option" where
  "read_bools n [] = (if n = 0 then Some [] else None)"
| "read_bools n (b # bs) =
     (if n = 0 then None
      else map_option (\<lambda>vs. map PBool (unpack_bits (min 8 n) b) @ vs) (read_bools (n - 8) bs))"

fun read_ints :: "nat \<Rightarrow> nat \<Rightarrow> bytes \<Rightarrow> pvalue list option" where
  "read_ints w 0 bs = (if bs = [] then Some [] else None)"
| "read_ints w (Suc n) bs =
     Option.bind (take_bytes w bs) (\<lambda>(b, r). map_option (\<lambda>vs. PInt (le_int b) # vs) (read_ints w n r))"

fun read_byte_arrays :: "nat \<Rightarrow> bytes \<Rightarrow> pvalue list option" where
  "read_byte_arrays 0 bs = (if bs = [] then Some [] else None)"
| "read_byte_arrays (Suc n) bs =
     Option.bind (take_bytes 4 bs) (\<lambda>(h, r).
     Option.bind (take_bytes (le_nat h) r) (\<lambda>(b, r).
       map_option (\<lambda>vs. PBytes b # vs) (read_byte_arrays n r)))"

definition read_plain :: "int \<Rightarrow> nat \<Rightarrow> bytes \<Rightarrow> pvalue list option" where
  "read_plain code n bs =
     (if code = 0 then read_bools n bs else if code = 1 then read_ints 4 n bs
      else if code = 2 then read_ints 8 n bs else if code = 6 then read_byte_arrays n bs else None)"

text \<open>A column from its levels and its values: a value for every present level.\<close>

fun interleave :: "bool list \<Rightarrow> pvalue list \<Rightarrow> pvalue option list option" where
  "interleave [] vs = (if vs = [] then Some [] else None)"
| "interleave (False # ls) vs = map_option (\<lambda>c. None # c) (interleave ls vs)"
| "interleave (True # ls) (v # vs) = map_option (\<lambda>c. Some v # c) (interleave ls vs)"
| "interleave (True # ls) [] = None"

definition read_page :: "int \<Rightarrow> bool \<Rightarrow> nat \<Rightarrow> bytes \<Rightarrow> pvalue option list option" where
  "read_page code optional n bs =
     (if optional then
        Option.bind (take_bytes 4 bs) (\<lambda>(h, r).
        Option.bind (take_bytes (le_nat h) r) (\<lambda>(lv, r).
        Option.bind (read_levels n n lv) (\<lambda>ls.
        Option.bind (read_plain code (length (filter id ls)) r) (\<lambda>vs. interleave ls vs))))
      else map_option (map Some) (read_plain code n bs))"

section \<open>Round trips\<close>

lemma length_le_bytes [simp]: "length (le_bytes w n) = w"
  by (induction w arbitrary: n) auto

lemma le_nat_le_bytes: "n < 256 ^ w \<Longrightarrow> le_nat (le_bytes w n) = n"
proof (induction w arbitrary: n)
  case (Suc w)
  then have "n div 256 < 256 ^ w" by (simp add: less_mult_imp_div_less)
  then show ?case using Suc.IH by simp
qed simp

lemma le_int_signed:
  assumes "0 < w" "- (2 ^ (8 * w - 1)) \<le> n" "n < 2 ^ (8 * w - 1)"
  shows "le_int (le_bytes w (nat (n mod 2 ^ (8 * w)))) = n"
proof -
  define m where "m = (2 :: int) ^ (8 * w - 1)"
  have lo: "- m \<le> n" and hi: "n < m" using assms(2,3) by (simp_all add: m_def)
  have m: "(2 :: int) ^ (8 * w) = 2 * m" using assms(1) by (simp add: m_def power_eq_if)
  have "(256 :: nat) ^ w = 2 ^ (8 * w)" by (simp add: power_mult)
  moreover have "nat (n mod 2 ^ (8 * w)) < 2 ^ (8 * w)" by (simp add: nat_less_iff)
  ultimately have "le_nat (le_bytes w (nat (n mod 2 ^ (8 * w)))) = nat (n mod (2 * m))"
    by (simp add: le_nat_le_bytes m)
  moreover have "n mod (2 * m) = (if 0 \<le> n then n else n + 2 * m)"
  proof (cases "0 \<le> n")
    case True
    then show ?thesis using hi by (simp add: mod_pos_pos_trivial)
  next
    case False
    have "n mod (2 * m) = (n + 2 * m) mod (2 * m)" by simp
    also have "\<dots> = n + 2 * m"
      using False lo by (intro mod_pos_pos_trivial) auto
    finally show ?thesis using False by simp
  qed
  ultimately show ?thesis using lo hi by (auto simp: le_int_def m Let_def)
qed

lemma pack_u32_Inr: "pack_u32 n = Inr b \<longleftrightarrow> n < 2 ^ 32 \<and> b = le_bytes 4 n"
  by (auto simp: pack_u32_def)

lemma pack_signed_Inr:
  "pack_signed w n = Inr b \<longleftrightarrow>
     - (2 ^ (8 * w - 1)) \<le> n \<and> n < 2 ^ (8 * w - 1) \<and> b = le_bytes w (nat (n mod 2 ^ (8 * w)))"
  by (auto simp: pack_signed_def)

text \<open>Definition levels.\<close>

lemma push_bit_1_nat: "push_bit 1 n = 2 * n" for n :: nat
  by (simp add: push_bit_eq_mult)

lemma takeWhile_eq_replicate: "takeWhile (\<lambda>x. x = v) vs = replicate (length (takeWhile (\<lambda>x. x = v) vs)) v"
  by (induction vs) auto

lemma run_split:
  "v # vs = replicate (Suc (length (takeWhile (\<lambda>x. x = v) vs))) v @ dropWhile (\<lambda>x. x = v) vs"
  by (metis append_Cons replicate_Suc takeWhile_dropWhile_id takeWhile_eq_replicate)

lemma read_levels_rle: "length vs \<le> fuel \<Longrightarrow> read_levels fuel (length vs) (rle_runs vs) = Some vs"
proof (induction vs arbitrary: fuel rule: rle_runs.induct)
  case 1
  then show ?case by (cases fuel) auto
next
  case (2 v vs)
  let ?run = "Suc (length (takeWhile (\<lambda>x. x = v) vs))" and ?rest = "dropWhile (\<lambda>x. x = v) vs"
  obtain f where f: "fuel = Suc f" using "2.prems" by (cases fuel) auto
  have len: "length (v # vs) = ?run + length ?rest"
    by (metis length_append length_replicate run_split)
  then have "length ?rest \<le> f" using "2.prems" f by simp
  then have IH: "read_levels f (length ?rest) (rle_runs ?rest) = Some ?rest" using "2.IH" by simp
  have "read_levels fuel (length (v # vs)) (rle_runs (v # vs)) = Some (replicate ?run v @ ?rest)"
    unfolding f rle_runs.simps(2) Let_def push_bit_1_nat
    using IH len by (simp del: replicate.simps)
  then show ?case by (simp only: run_split [of v vs, symmetric])
qed

lemma length_rle_runs: "length (rle_runs vs) \<le> 2 * length vs"
proof (induction vs rule: rle_runs.induct)
  case 1
  then show ?case by simp
next
  case (2 v vs)
  let ?run = "Suc (length (takeWhile (\<lambda>x. x = v) vs))" and ?rest = "dropWhile (\<lambda>x. x = v) vs"
  have len: "length (v # vs) = ?run + length ?rest"
    by (metis length_append length_replicate run_split)
  have "length (varint_loop (2 * ?run)) \<le> Suc (2 * ?run div 128)" by (rule length_varint_small)
  then have "length (varint_loop (2 * ?run)) + 1 \<le> 2 * ?run" by simp
  then show ?case using "2.IH" len unfolding rle_runs.simps(2) Let_def push_bit_1_nat by simp
qed

text \<open>Booleans.\<close>

lemma or_push_bit: "p < 2 ^ k \<Longrightarrow> p OR push_bit k 1 = p + 2 ^ k" for p :: nat
proof -
  assume "p < 2 ^ k"
  then have "take_bit k p = p" by (simp add: take_bit_nat_eq_self_iff)
  then have "\<not> bit p n" if "n \<ge> k" for n using that by (metis bit_take_bit_iff leD)
  then have "p + push_bit k 1 = p OR push_bit k 1"
    by (intro disjunctive_add) (metis bit_push_bit_iff_nat)
  then show ?thesis by (simp add: push_bit_eq_mult)
qed

fun bits_nat :: "bool list \<Rightarrow> nat" where
  "bits_nat [] = 0"
| "bits_nat (b # bs) = (if b then 1 else 0) + 2 * bits_nat bs"

lemma unpack_bits_nat: "unpack_bits (length bs) (bits_nat bs) = bs"
  by (induction bs) auto

lemma bits_nat_less: "bits_nat bs < 2 ^ length bs"
  by (induction bs) auto

lemma pack_bits_eq: "p < 2 ^ k \<Longrightarrow> pack_bits k p (map PBool bs) = p + 2 ^ k * bits_nat bs"
proof (induction bs arbitrary: k p)
  case (Cons b bs)
  have "(if b then p OR push_bit k 1 else p) = p + 2 ^ k * (if b then 1 else 0)"
    using or_push_bit [OF Cons.prems] by simp
  moreover have "p + 2 ^ k * (if b then 1 else 0) < 2 ^ Suc k" using Cons.prems by simp
  ultimately show ?case using Cons.IH by (simp add: algebra_simps split: if_splits)
qed simp

lemma pack_bits_0: "pack_bits 0 0 (map PBool bs) = bits_nat bs"
  using pack_bits_eq [of 0 0 bs] by simp

lemma encode_bools_unfold:
  "encode_bools (map PBool bs) =
     (if bs = [] then [] else bits_nat (take 8 bs) # encode_bools (map PBool (drop 8 bs)))"
  by (subst encode_bools.simps) (simp add: take_map drop_map pack_bits_0)

lemma encode_bools_Nil [simp]: "encode_bools [] = []"
  by (subst encode_bools.simps) simp

lemma length_encode_bools: "length (encode_bools (map PBool bs)) \<le> length bs"
proof (induction bs rule: length_induct)
  case (1 bs)
  have "length (encode_bools (map PBool (drop 8 bs))) \<le> length (drop 8 bs)" if "bs \<noteq> []"
    using "1" [rule_format, of "drop 8 bs"] that by simp
  then show ?case by (subst encode_bools_unfold) (fastforce simp: Suc_le_eq neq_Nil_conv)
qed

lemma read_encode_bools: "read_bools (length bs) (encode_bools (map PBool bs)) = Some (map PBool bs)"
proof (induction bs rule: length_induct)
  case (1 bs)
  show ?case
  proof (cases "bs = []")
    case True
    then show ?thesis by simp
  next
    case False
    then have "read_bools (length (drop 8 bs)) (encode_bools (map PBool (drop 8 bs)))
        = Some (map PBool (drop 8 bs))" using "1" [rule_format, of "drop 8 bs"] by simp
    moreover have "unpack_bits (min 8 (length bs)) (bits_nat (take 8 bs)) = take 8 bs"
      using unpack_bits_nat [of "take 8 bs"] by (simp add: min.commute)
    ultimately show ?thesis using False
      by (subst encode_bools_unfold) (simp flip: map_append)
  qed
qed

text \<open>Fixed-width integers and byte arrays, through the per-value encoder.\<close>

lemma encode_each_total:
  "(\<And>x. x \<in> set xs \<Longrightarrow> f x = Inr (g x)) \<Longrightarrow> encode_each f xs = Inr (concat (map g xs))"
  by (induction xs) auto

fun int_bytes :: "nat \<Rightarrow> pvalue \<Rightarrow> bytes" where
  "int_bytes w (PInt n) = le_bytes w (nat (n mod 2 ^ (8 * w)))"
| "int_bytes w _ = []"

fun array_bytes :: "pvalue \<Rightarrow> bytes" where
  "array_bytes (PBytes b) = le_bytes 4 (length b) @ b"
| "array_bytes _ = []"

fun plain_bytes :: "ExportType \<Rightarrow> pvalue list \<Rightarrow> bytes" where
  "plain_bytes BOOLEAN vs = encode_bools vs"
| "plain_bytes INT32 vs = concat (map (int_bytes 4) vs)"
| "plain_bytes INT64 vs = concat (map (int_bytes 8) vs)"
| "plain_bytes _ vs = concat (map array_bytes vs)"

lemma encode_plain_total:
  assumes "\<forall>v \<in> set vs. typed_value t v" shows "encode_plain vs t = Inr (plain_bytes t vs)"
proof -
  have "encode_int 4 v = Inr (int_bytes 4 v)" if "typed_value INT32 v" for v
    using that by (auto simp: pack_signed_def)
  moreover have "encode_int 8 v = Inr (int_bytes 8 v)" if "typed_value INT64 v" for v
    using that by (auto simp: pack_signed_def)
  moreover have "encode_byte_array v = Inr (array_bytes v)" if "typed_value STRING v" for v
    using that by (auto simp: pack_u32_def)
  ultimately show ?thesis using assms
    by (cases t) (auto intro!: encode_each_total)
qed

lemma take_bytes_append [simp]: "take_bytes (length a) (a @ b) = Some (a, b)"
  by (simp add: take_bytes_def)

lemma take_bytes_le [simp]: "take_bytes w (le_bytes w n @ r) = Some (le_bytes w n, r)"
  by (simp add: take_bytes_def)

lemma read_ints_int_bytes:
  assumes "0 < w" "\<forall>v \<in> set vs. \<exists>n. v = PInt n \<and> - (2 ^ (8 * w - 1)) \<le> n \<and> n < 2 ^ (8 * w - 1)"
  shows "read_ints w (length vs) (concat (map (int_bytes w) vs)) = Some vs"
  using assms(2) by (induction vs) (auto simp: le_int_signed [OF assms(1)])

lemma read_byte_arrays_bytes:
  assumes "\<forall>v \<in> set vs. \<exists>b. v = PBytes b \<and> length b < 2 ^ 32"
  shows "read_byte_arrays (length vs) (concat (map array_bytes vs)) = Some vs"
  using assms by (induction vs) (auto simp: le_nat_le_bytes)

lemma bools_of_typed:
  assumes "\<forall>v \<in> set vs. typed_value BOOLEAN v" obtains bs where "vs = map PBool bs"
proof -
  have "\<exists>bs. vs = map PBool bs" using assms
  proof (induction vs)
    case (Cons v vs)
    then obtain b bs where "v = PBool b" "vs = map PBool bs" by auto
    then have "v # vs = map PBool (b # bs)" by simp
    then show ?case by (rule exI)
  qed simp
  then show ?thesis using that by blast
qed

lemma read_plain_bytes:
  assumes "\<forall>v \<in> set vs. typed_value t v"
  shows "read_plain (physical_code (physical_type t)) (length vs) (plain_bytes t vs) = Some vs"
proof (cases "t = BOOLEAN")
  case True
  then obtain bs where "vs = map PBool bs" using assms bools_of_typed by blast
  then show ?thesis using read_encode_bools [of bs] by (simp add: True read_plain_def)
next
  case False
  then show ?thesis using assms read_ints_int_bytes [of 4 vs] read_ints_int_bytes [of 8 vs]
      read_byte_arrays_bytes [of vs]
    by (cases t) (simp_all add: read_plain_def)
qed

text \<open>The charge of a value bounds the bytes it takes.\<close>

definition value_charge :: "ExportType \<Rightarrow> pvalue \<Rightarrow> nat" where
  "value_charge t v =
     (case t of BOOLEAN \<Rightarrow> 1 | INT32 \<Rightarrow> 4 | INT64 \<Rightarrow> 8
      | _ \<Rightarrow> (case v of PBytes b \<Rightarrow> 4 + length b | _ \<Rightarrow> 0))"

lemma plain_value_size_typed:
  "typed_value t v \<Longrightarrow> plain_value_size v t = Inr (int (value_charge t v))"
  by (cases t) (auto simp: value_charge_def)

lemma length_plain_bytes:
  assumes "\<forall>v \<in> set vs. typed_value t v"
  shows "length (plain_bytes t vs) \<le> sum_list (map (value_charge t) vs)"
proof (cases "t = BOOLEAN")
  case True
  then obtain bs where "vs = map PBool bs" using assms bools_of_typed by blast
  moreover have "sum_list (map (value_charge BOOLEAN) (map PBool bs)) = length bs"
    by (induction bs) (auto simp: value_charge_def)
  ultimately show ?thesis using length_encode_bools [of bs] by (simp add: True)
next
  case False
  then show ?thesis using assms
    by (induction vs) (cases t; auto simp: value_charge_def)+
qed

section \<open>A whole page\<close>

definition page_bytes :: "ExportType \<Rightarrow> bool \<Rightarrow> pvalue option list \<Rightarrow> bytes" where
  "page_bytes t optional col =
     (let levels = rle_runs (map (\<lambda>v. v \<noteq> None) col); vs = map the (filter (\<lambda>v. v \<noteq> None) col)
      in (if optional then le_bytes 4 (length levels) @ levels else []) @ plain_bytes t vs)"

lemma interleave_column:
  "interleave (map (\<lambda>v. v \<noteq> None) col) (map the (filter (\<lambda>v. v \<noteq> None) col)) = Some col"
  by (induction col) auto

lemma typed_column_values:
  "\<forall>v. Some v \<in> set col \<longrightarrow> typed_value t v \<Longrightarrow>
   \<forall>v \<in> set (map the (filter (\<lambda>v. v \<noteq> None) col)). typed_value t v"
  by auto

lemma read_page_bytes:
  assumes typed: "\<forall>v. Some v \<in> set col \<longrightarrow> typed_value t v"
    and small: "2 * length col < 2 ^ 32" and req: "\<not> optional \<Longrightarrow> None \<notin> set col"
  shows "read_page (physical_code (physical_type t)) optional (length col) (page_bytes t optional col)
           = Some col"
proof -
  let ?ls = "map (\<lambda>v. v \<noteq> None) col" and ?vs = "map the (filter (\<lambda>v. v \<noteq> None) col)"
  have vs: "read_plain (physical_code (physical_type t)) (length ?vs) (plain_bytes t ?vs) = Some ?vs"
    using typed_column_values [OF typed] by (rule read_plain_bytes)
  show ?thesis
  proof (cases optional)
    case True
    have "length (rle_runs ?ls) < 2 ^ 32" using length_rle_runs [of ?ls] small by simp
    then have "le_nat (le_bytes 4 (length (rle_runs ?ls))) = length (rle_runs ?ls)"
      by (simp add: le_nat_le_bytes)
    moreover have "read_levels (length col) (length col) (rle_runs ?ls) = Some ?ls"
      using read_levels_rle [of ?ls "length col"] by simp
    moreover have "length (filter id ?ls) = length ?vs" by (simp add: filter_map comp_def)
    ultimately show ?thesis using vs interleave_column [of col]
      by (simp add: read_page_def page_bytes_def Let_def True)
  next
    case False
    then have "filter (\<lambda>v. v \<noteq> None) col = col" using req
      by (intro filter_True ballI notI) auto
    moreover have "map Some (map the col) = col"
      unfolding map_map using False req by (intro map_idI) (metis comp_apply option.collapse)
    ultimately show ?thesis using vs False by (simp add: read_page_def page_bytes_def)
  qed
qed

text \<open>The page stays below the charge: two bytes per level and the charge of every value.\<close>

definition cell_charge :: "ExportType \<Rightarrow> bool \<Rightarrow> pvalue option \<Rightarrow> nat" where
  "cell_charge t optional v =
     (case v of None \<Rightarrow> 0 | Some x \<Rightarrow> value_charge t x) + (if optional then 2 else 0)"

lemma sum_cell_charge:
  "sum_list (map (cell_charge t optional) col) =
     sum_list (map (value_charge t) (map the (filter (\<lambda>v. v \<noteq> None) col)))
       + (if optional then 2 * length col else 0)"
  by (induction col) (auto simp: cell_charge_def)

lemma length_page_bytes:
  assumes "\<forall>v. Some v \<in> set col \<longrightarrow> typed_value t v"
  shows "length (page_bytes t optional col) \<le>
           (if optional then 4 else 0) + sum_list (map (cell_charge t optional) col)"
  using length_plain_bytes [OF typed_column_values [OF assms]]
    length_rle_runs [of "map (\<lambda>v. v \<noteq> None) col"]
  by (simp add: page_bytes_def Let_def sum_cell_charge)

section \<open>Properties\<close>

text \<open>
  The length of a decimal that the writer computes before it formats the value is exactly
  the length of the formatted text, for every sign, coefficient and exponent: the guard
  against huge exponents refuses a value if and only if its text would be too long.
\<close>
theorem formatted_length_exact:
  assumes "dec_finite d" shows "formatted_length d = int (length (format_f d))"
proof (cases d)
  case (Dec sign coeff e)
  have "0 < length (dec_digits coeff)" by (rule length_dec_digits_pos)
  then show ?thesis unfolding Dec by (auto simp: Let_def split: prod.splits if_splits)
qed (use assms in simp_all)

theorem formatted_length_exact_witness:
  "formatted_length (Dec True 12345 (- 7)) = int (length (format_f (Dec True 12345 (- 7)))) \<and>
   formatted_length (Dec False 0 5) = int (length (format_f (Dec False 0 5)))"
  using formatted_length_exact [of "Dec True 12345 (- 7)"] formatted_length_exact [of "Dec False 0 5"]
  by simp

text \<open>
  The run-length encoding of definition levels: for every batch below the row limit the
  encoder succeeds, announces the number of bytes that follow, spends at most two bytes per
  row beyond the announcement, and decoding the runs gives the levels back.
\<close>
theorem definition_levels_roundtrip:
  assumes "length present < 2 ^ 31"
  shows "\<exists>bs. encode_definition_levels present = Inr bs \<and> length bs \<le> 4 + 2 * length present \<and>
     le_nat (take 4 bs) = length bs - 4 \<and>
     read_levels (length present) (length present) (drop 4 bs) = Some present"
proof -
  have "length (rle_runs present) < 2 ^ 32" using length_rle_runs [of present] assms by simp
  then show ?thesis
    using length_rle_runs [of present] read_levels_rle [of present "length present"]
    by (simp add: encode_definition_levels_def pack_u32_def le_nat_le_bytes Let_def)
qed

theorem definition_levels_roundtrip_witness:
  "\<exists>bs. encode_definition_levels [True, True, False] = Inr bs \<and> length bs \<le> 10 \<and>
     read_levels 3 3 (drop 4 bs) = Some [True, True, False]"
  using definition_levels_roundtrip [of "[True, True, False]"] by (auto simp: numeral_3_eq_3)

end
