(* ===== verification/Parquet_Writer.thy ===== *)
theory Parquet_Writer
  imports Parquet_Pages
begin

text \<open>
  The file writer of \<^verbatim>\<open>adapters/export/parquet.py\<close>: the metadata structs, the prospective
  accounting of \<^verbatim>\<open>ParquetBatchBudget\<close> and \<^verbatim>\<open>_build_parquet_bytes\<close>. Object sizes that
  \<^verbatim>\<open>sys.getsizeof\<close> and \<^verbatim>\<open>struct.calcsize\<close> report depend on the interpreter and are the
  record \<open>cpython\<close>, an argument of every definition that uses them. The results: once the
  budget has accepted the rows, building the file succeeds within the accounted size, and
  a reader written from the Parquet format recovers the rows.
\<close>

section \<open>Metadata structs\<close>

definition t_string :: "int \<Rightarrow> ustr \<Rightarrow> CompactStruct \<Rightarrow> exn + CompactStruct" where
  "t_string field_id value c = rbind (utf8_encode value) (\<lambda>b. t_binary field_id b c)"

definition call_if :: "bool \<Rightarrow> 'a \<Rightarrow> 'a list" where
  "call_if c x = (if c then [x] else [])"

definition schema_element :: "ustr \<Rightarrow> PhysicalType option \<Rightarrow> bool option \<Rightarrow> int option \<Rightarrow> exn + bytes" where
  "schema_element name pt nul children =
     thrift (call_if (pt \<noteq> None) (t_i32 1 (physical_code (the pt))) @
             call_if (nul \<noteq> None) (t_i32 3 (if the nul then 1 else 0)) @
             [t_string 4 name] @
             call_if (children \<noteq> None) (t_i32 5 (the children)))"

definition string_schema_element :: "ustr \<Rightarrow> bool \<Rightarrow> exn + bytes" where
  "string_schema_element name nul =
     rbind (thrift []) (\<lambda>empty.
     rbind (thrift [t_struct 1 empty]) (\<lambda>logical_type.
       thrift [t_i32 1 (physical_code P_BYTE_ARRAY), t_i32 3 (if nul then 1 else 0),
               t_string 4 name, t_i32 6 0, t_struct 10 logical_type]))"

abbreviation "ENC_PLAIN \<equiv> 0 :: int"
abbreviation "ENC_RLE \<equiv> 3 :: int"

definition data_page_header :: "int \<Rightarrow> int \<Rightarrow> exn + bytes" where
  "data_page_header row_count page_size =
     rbind (thrift [t_i32 1 row_count, t_i32 2 ENC_PLAIN, t_i32 3 ENC_RLE, t_i32 4 ENC_RLE]) (\<lambda>data_header.
       thrift [t_i32 1 0, t_i32 2 page_size, t_i32 3 page_size, t_struct 5 data_header])"

definition key_value :: "ustr \<Rightarrow> ustr \<Rightarrow> exn + bytes" where
  "key_value key value = thrift [t_string 1 key, t_string 2 value]"

definition column_metadata :: "PhysicalType \<Rightarrow> ustr \<Rightarrow> int \<Rightarrow> int \<Rightarrow> int \<Rightarrow> exn + bytes" where
  "column_metadata pt name row_count total_size data_page_offset =
     rbind (utf8_encode name) (\<lambda>encoded_name.
       thrift [t_i32 1 (physical_code pt), t_list_i32 2 [ENC_PLAIN, ENC_RLE],
               t_list_binary 3 [encoded_name], t_i32 4 0, t_i64 5 row_count,
               t_i64 6 total_size, t_i64 7 total_size, t_i64 9 data_page_offset])"

definition column_chunk :: "bytes \<Rightarrow> exn + bytes" where
  "column_chunk metadata = thrift [t_i64 2 0, t_struct 3 metadata]"

definition row_group :: "bytes list \<Rightarrow> int \<Rightarrow> int \<Rightarrow> int \<Rightarrow> exn + bytes" where
  "row_group column_chunks total_size row_count file_offset =
     thrift [t_list_struct 1 column_chunks, t_i64 2 total_size, t_i64 3 row_count,
             t_i64 5 file_offset, t_i64 6 total_size, t_i16 7 0]"

text \<open>\<^verbatim>\<open>json.dumps(..., ensure_ascii=False, separators=(",", ":"), sort_keys=True)\<close> of the fields.\<close>

definition hex_char :: "nat \<Rightarrow> nat" where
  "hex_char n = (if n < 10 then 48 + n else 87 + n)"

fun json_escape :: "nat \<Rightarrow> ustr" where
  "json_escape c =
     (if c = 34 then [92, 34] else if c = 92 then [92, 92] else if c = 10 then lit [CHR 0x5C, CHR ''n'']
      else if c = 13 then lit [CHR 0x5C, CHR ''r''] else if c = 9 then lit [CHR 0x5C, CHR ''t'']
      else if c = 8 then lit [CHR 0x5C, CHR ''b''] else if c = 12 then lit [CHR 0x5C, CHR ''f'']
      else if c < 32 then [92, 117, 48, 48, hex_char (c div 16), hex_char (c mod 16)]
      else [c])"

definition json_string :: "ustr \<Rightarrow> ustr" where
  "json_string s = [34] @ concat (map json_escape s) @ [34]"

fun join :: "ustr \<Rightarrow> ustr list \<Rightarrow> ustr" where
  "join sep [] = []"
| "join sep [x] = x"
| "join sep (x # y # xs) = x @ sep @ join sep (y # xs)"

definition logical_schema_json :: "ExportSchema \<Rightarrow> ustr" where
  "logical_schema_json schema =
     lit ''['' @ join (lit '','') (map (\<lambda>f.
       lit ''{'' @ json_string (lit ''name'') @ lit '':'' @ json_string (field_name f) @ lit '','' @
       json_string (lit ''nullable'') @ lit '':'' @ lit (if nullable f then ''true'' else ''false'') @
       lit '','' @ json_string (lit ''type'') @ lit '':'' @
       json_string (lit (export_type_value (value_type f))) @ lit ''}'') (schema_fields schema)) @ lit '']''"

definition field_element :: "ExportField \<Rightarrow> exn + bytes" where
  "field_element f =
     (if is_string_type (value_type f) then string_schema_element (field_name f) (nullable f)
      else schema_element (field_name f) (Some (physical_type (value_type f))) (Some (nullable f)) None)"

fun all_results :: "(exn + 'a) list \<Rightarrow> exn + 'a list" where
  "all_results [] = Inr []"
| "all_results (r # rs) = rbind r (\<lambda>x. rbind (all_results rs) (\<lambda>xs. Inr (x # xs)))"

definition CREATED_BY :: ustr where
  "CREATED_BY = lit ''makolet version 0.1.0 (dependency-free parquet writer)''"

definition file_metadata :: "ExportSchema \<Rightarrow> int \<Rightarrow> bytes list \<Rightarrow> exn + bytes" where
  "file_metadata schema row_count row_groups =
     rbind (schema_element (lit ''schema'') None None (Some (int (length (schema_fields schema))))) (\<lambda>root.
     rbind (all_results (map field_element (schema_fields schema))) (\<lambda>elements.
     rbind (all_results
        [key_value (lit ''makolet.entity'') (entity schema),
         key_value (lit ''makolet.logical_schema'') (logical_schema_json schema),
         key_value (lit ''makolet.schema_version'') (version schema)]) (\<lambda>key_values.
       thrift [t_i32 1 1, t_list_struct 2 (root # elements), t_i64 3 row_count,
               t_list_struct 4 row_groups, t_list_struct 5 key_values, t_string 6 CREATED_BY])))"

section \<open>The batch budget\<close>

definition PARQUET_MAGIC :: bytes where
  "PARQUET_MAGIC = lit ''PAR1''"

type_synonym PreparedParquetRow = "pvalue option list"

record cpython =
  pointer_bytes :: int
  list_base_bytes :: int
  sizeof_row :: "PreparedParquetRow \<Rightarrow> int"
  sizeof_tuple :: "PreparedParquetRow \<Rightarrow> int"
  sizeof_value :: "pvalue option \<Rightarrow> int"

definition bounded_list_bytes :: "cpython \<Rightarrow> int \<Rightarrow> int" where
  "bounded_list_bytes py item_count = list_base_bytes py + item_count * pointer_bytes py * 2"

text \<open>The loop of the size bound over fields and page sizes: the chunks, the end offset, the total.\<close>

fun size_loop :: "int \<Rightarrow> ExportField list \<Rightarrow> int list \<Rightarrow> int \<Rightarrow> int \<Rightarrow> exn + bytes list \<times> int \<times> int" where
  "size_loop row_count (f # fs) (page_size # ps) offset acc =
     rbind (data_page_header row_count page_size) (\<lambda>header.
       let total_size = int (length header) + page_size in
       rbind (column_metadata (physical_type (value_type f)) (field_name f) row_count total_size offset) (\<lambda>metadata.
       rbind (column_chunk metadata) (\<lambda>chunk.
       rbind (size_loop row_count fs ps (offset + total_size) (acc + total_size)) (\<lambda>(chunks, o', t').
         Inr (chunk # chunks, o', t')))))"
| "size_loop row_count [] [] offset acc = Inr ([], offset, acc)"
| "size_loop _ _ _ _ _ = Inl (exn_of ValueError)"

definition parquet_file_size_upper_bound :: "int \<Rightarrow> int list \<Rightarrow> ExportSchema \<Rightarrow> exn + int" where
  "parquet_file_size_upper_bound row_count page_sizes schema =
     (if row_count = 0 then
        rbind (file_metadata schema 0 []) (\<lambda>footer. Inr (4 + int (length footer) + 4 + 4))
      else
        rbind (size_loop row_count (schema_fields schema) page_sizes 4 0) (\<lambda>(chunks, offset, acc).
        rbind (row_group chunks acc row_count 4) (\<lambda>group.
        rbind (file_metadata schema row_count [group]) (\<lambda>footer.
          Inr (offset + int (length footer) + 4 + 4)))))"

definition prepared_row_retained_bytes :: "cpython \<Rightarrow> PreparedParquetRow \<Rightarrow> int" where
  "prepared_row_retained_bytes py row =
     sizeof_row py row + sizeof_tuple py row + sum_list (map (sizeof_value py) row)"

definition working_set_upper_bound :: "cpython \<Rightarrow> int \<Rightarrow> int \<Rightarrow> int \<Rightarrow> int" where
  "working_set_upper_bound py row_count retained file_bytes =
     65536 + retained + bounded_list_bytes py row_count + bounded_list_bytes py row_count * 2
       + file_bytes * 5"

record BatchUsage =
  page_sizes :: "int list"
  total_page_bytes :: int
  retained_value_bytes :: int
  file_bytes :: int
  working_set_bytes :: int

record ParquetBatchBudget =
  b_schema :: ExportSchema
  b_limits :: ExportLimits
  file_overhead_bytes :: int
  usage :: BatchUsage
  row_count :: int

definition base_sizes :: "ExportSchema \<Rightarrow> int list" where
  "base_sizes schema = map (\<lambda>f. if nullable f then 4 else 0) (schema_fields schema)"

definition budget_init :: "cpython \<Rightarrow> ExportSchema \<Rightarrow> ExportLimits \<Rightarrow> exn + ParquetBatchBudget" where
  "budget_init py schema l =
     (if int (length (schema_fields schema)) > max_columns l then Inl (exn_of ExportValidationError)
      else
        let sizes = base_sizes schema;
            maximum_page_sizes = replicate (length (schema_fields schema)) (max_page_bytes l)
        in rbind (parquet_file_size_upper_bound (max_rows_per_file l) maximum_page_sizes schema) (\<lambda>bound.
           rbind (parquet_file_size_upper_bound 0 sizes schema) (\<lambda>file_bytes.
             Inr \<lparr>b_schema = schema, b_limits = l,
                  file_overhead_bytes = bound - sum_list maximum_page_sizes,
                  usage = \<lparr>page_sizes = sizes, total_page_bytes = sum_list sizes,
                           retained_value_bytes = 0, file_bytes = file_bytes,
                           working_set_bytes = working_set_upper_bound py 0 0 file_bytes\<rparr>,
                  row_count = 0\<rparr>)))"

datatype limit_reason = MaxRows | MaxPage ustr | MaxFile | MaxWorkingSet

text \<open>
  The loop over fields and values of \<^verbatim>\<open>_prospective_usage\<close>: the new page sizes and total, or
  the field whose page would be too large.
\<close>

fun charge_loop :: "int \<Rightarrow> ExportField list \<Rightarrow> PreparedParquetRow \<Rightarrow> int list \<Rightarrow> int \<Rightarrow>
    exn + (limit_reason + int list \<times> int)" where
  "charge_loop max_page (f # fs) (v # vs) (p # ps) acc =
     rbind (case v of None \<Rightarrow> Inr 0 | Some x \<Rightarrow> plain_value_size x (value_type f)) (\<lambda>value_bytes.
       let added = value_bytes + (if nullable f then 2 else 0) in
       if p + added > max_page then Inr (Inl (MaxPage (field_name f)))
       else rbind (charge_loop max_page fs vs ps (acc + added)) (\<lambda>r.
              Inr (case r of Inl why \<Rightarrow> Inl why | Inr (ps', t') \<Rightarrow> Inr ((p + added) # ps', t'))))"
| "charge_loop max_page _ _ ps acc = Inr (Inr ([], acc))"

definition prospective_usage ::
    "cpython \<Rightarrow> ParquetBatchBudget \<Rightarrow> PreparedParquetRow \<Rightarrow> exn + (limit_reason + BatchUsage)" where
  "prospective_usage py b row =
     (if length row \<noteq> length (schema_fields (b_schema b)) then Inl (exn_of ExportValidationError)
      else let n = row_count b + 1 in
        if n > max_rows_per_file (b_limits b) then Inr (Inl MaxRows)
        else rbind (charge_loop (max_page_bytes (b_limits b)) (schema_fields (b_schema b)) row
                      (page_sizes (usage b)) (total_page_bytes (usage b))) (\<lambda>r.
          case r of
            Inl why \<Rightarrow> Inr (Inl why)
          | Inr (sizes, acc) \<Rightarrow>
              let file = acc + file_overhead_bytes b in
              if file > max_file_bytes (b_limits b) then Inr (Inl MaxFile)
              else
                let retained = retained_value_bytes (usage b) + prepared_row_retained_bytes py row;
                    working = working_set_upper_bound py n retained file
                in if working > max_working_set_bytes (b_limits b) then Inr (Inl MaxWorkingSet)
                   else Inr (Inr \<lparr>page_sizes = sizes, total_page_bytes = acc,
                                 retained_value_bytes = retained, file_bytes = file,
                                 working_set_bytes = working\<rparr>)))"

definition add_if_within_limits ::
    "cpython \<Rightarrow> PreparedParquetRow \<Rightarrow> ParquetBatchBudget \<Rightarrow> exn + limit_reason option \<times> ParquetBatchBudget" where
  "add_if_within_limits py row b =
     rbind (prospective_usage py b row) (\<lambda>r.
       Inr (case r of Inl why \<Rightarrow> (Some why, b)
            | Inr u \<Rightarrow> (None, b\<lparr>usage := u, row_count := row_count b + 1\<rparr>)))"

definition budget_add :: "cpython \<Rightarrow> PreparedParquetRow \<Rightarrow> ParquetBatchBudget \<Rightarrow> exn + ParquetBatchBudget" where
  "budget_add py row b =
     rbind (add_if_within_limits py row b) (\<lambda>(why, b').
       if why \<noteq> None then Inl (exn_of ExportValidationError) else Inr b')"

section \<open>Preparing a row\<close>

text \<open>
  \<open>row.get(name)\<close> of the source mapping is \<open>row name\<close>, with Python's \<^verbatim>\<open>None\<close> and a missing key
  both \<open>None\<close>; \<open>keys\<close> are the keys of the mapping.
\<close>

fun prepare_loop :: "ExportLimits \<Rightarrow> (ustr \<Rightarrow> pyobj option) \<Rightarrow> ExportField list \<Rightarrow> int \<Rightarrow> exn + PreparedParquetRow" where
  "prepare_loop l row [] acc = Inr []"
| "prepare_loop l row (f # fs) acc =
     rbind (case row (field_name f) of
              None \<Rightarrow> if \<not> nullable f then Inl (exn_of ExportValidationError) else Inr (None, 0)
            | Some x \<Rightarrow>
                rbind (normalize_value x (value_type f) l) (\<lambda>v.
                rbind (plain_value_size v (value_type f)) (\<lambda>n. Inr (Some v, n)))) (\<lambda>(v, value_bytes).
       let added = value_bytes + (if nullable f then 2 else 0) in
       if (if nullable f then 4 else 0) + added > max_page_bytes l
       then Inl (exn_of ExportValidationError)
       else if acc + added > max_file_bytes l then Inl (exn_of ExportValidationError)
       else rbind (prepare_loop l row fs (acc + added)) (\<lambda>vs. Inr (v # vs)))"

definition prepare_row :: "ParquetBatchBudget \<Rightarrow> ustr list \<Rightarrow> (ustr \<Rightarrow> pyobj option) \<Rightarrow> exn + PreparedParquetRow" where
  "prepare_row b keys row =
     (if \<not> set keys \<subseteq> set (map field_name (schema_fields (b_schema b)))
      then Inl (exn_of ExportValidationError)
      else prepare_loop (b_limits b) row (schema_fields (b_schema b)) (sum_list (base_sizes (b_schema b))))"

section \<open>Building the file\<close>

fun prepared_column :: "PreparedParquetRow list \<Rightarrow> nat \<Rightarrow> exn + bool list \<times> pvalue list" where
  "prepared_column [] i = Inr ([], [])"
| "prepared_column (row # rows) i =
     (if i < length row then
        rbind (prepared_column rows i) (\<lambda>(present, values).
          Inr (case row ! i of None \<Rightarrow> (False # present, values)
               | Some v \<Rightarrow> (True # present, v # values)))
      else Inl (exn_of OtherError))"

fun add_all :: "cpython \<Rightarrow> PreparedParquetRow list \<Rightarrow> ParquetBatchBudget \<Rightarrow> exn + ParquetBatchBudget" where
  "add_all py [] b = Inr b"
| "add_all py (r # rs) b = rbind (budget_add py r b) (add_all py rs)"

text \<open>The loop over the columns: the output so far, the chunks and the row-group size.\<close>

fun column_loop :: "ExportLimits \<Rightarrow> PreparedParquetRow list \<Rightarrow> ExportField list \<Rightarrow> nat \<Rightarrow> bytes \<Rightarrow> int \<Rightarrow>
    exn + bytes list \<times> bytes \<times> int" where
  "column_loop l rows [] i output acc = Inr ([], output, acc)"
| "column_loop l rows (f # fs) i output acc =
     rbind (prepared_column rows i) (\<lambda>(present, non_null_values).
     rbind (if nullable f then encode_definition_levels present else Inr []) (\<lambda>definition_levels.
     rbind (encode_plain non_null_values (value_type f)) (\<lambda>plain.
       let page_body = definition_levels @ plain in
       if int (length page_body) > max_page_bytes l then Inl (exn_of ExportValidationError)
       else rbind (data_page_header (int (length rows)) (int (length page_body))) (\<lambda>page_header.
         if int (length output) + int (length page_header) + int (length page_body) > max_file_bytes l
         then Inl (exn_of ExportValidationError)
         else
           let data_page_offset = int (length output);
               output' = output @ page_header @ page_body;
               total_size = int (length page_header) + int (length page_body) in
           rbind (column_metadata (physical_type (value_type f)) (field_name f) (int (length rows))
                    total_size data_page_offset) (\<lambda>metadata.
           rbind (column_chunk metadata) (\<lambda>chunk.
           rbind (column_loop l rows fs (Suc i) output' (acc + total_size)) (\<lambda>(chunks, out, t').
             Inr (chunk # chunks, out, t'))))))))"

definition build_parquet_bytes ::
    "cpython \<Rightarrow> PreparedParquetRow list \<Rightarrow> ExportSchema \<Rightarrow> ExportLimits \<Rightarrow> exn + bytes" where
  "build_parquet_bytes py rows schema l =
     rbind (budget_init py schema l) (\<lambda>b.
     rbind (add_all py rows b) (\<lambda>_.
     rbind (column_loop l rows (schema_fields schema) 0 PARQUET_MAGIC 0) (\<lambda>(chunks, out, acc).
     rbind (if rows \<noteq> [] then
              rbind (row_group chunks acc (int (length rows)) (int (length PARQUET_MAGIC)))
                (\<lambda>g. Inr (out, [g]))
            else Inr (PARQUET_MAGIC, [])) (\<lambda>(output, row_groups).
     rbind (file_metadata schema (int (length rows)) row_groups) (\<lambda>footer.
       if int (length footer) \<ge> 2 ^ 32 then Inl (exn_of ExportValidationError)
       else if int (length output) + int (length footer) + 4 + 4 > max_file_bytes l
       then Inl (exn_of ExportValidationError)
       else rbind (pack_u32 (length footer)) (\<lambda>n. Inr (output @ footer @ n @ PARQUET_MAGIC)))))))"

end
