(* ===== verification/Parquet_Budget.thy ===== *)
theory Parquet_Budget
  imports Parquet_Correct
begin

text \<open>
  The batch budget is sound. The layout of a file is a function of the row count and the
  page sizes, and the bytes around the pages (headers, chunk metadata, footer) grow
  monotonically with both, so the overhead computed once for the largest batch bounds the
  overhead of every batch. Together with the invariant of the accounted page sizes this
  gives: rows that the budget has accepted are always written, within the accounted size.
\<close>

section \<open>The layout\<close>

definition column_total :: "int \<Rightarrow> int \<Rightarrow> int" where
  "column_total n p = int (length (page_header_bytes n p)) + p"

fun chunk_list :: "int \<Rightarrow> ExportField list \<Rightarrow> int list \<Rightarrow> int \<Rightarrow> bytes list" where
  "chunk_list n (f # fs) (p # ps) off =
     enc_fields 0 (chunk_fields f n (column_total n p) off) # chunk_list n fs ps (off + column_total n p)"
| "chunk_list n _ _ off = []"

abbreviation columns_total :: "int \<Rightarrow> int list \<Rightarrow> int" where
  "columns_total n ps \<equiv> sum_list (map (column_total n) ps)"

definition group_bytes :: "int \<Rightarrow> ExportField list \<Rightarrow> int list \<Rightarrow> bytes" where
  "group_bytes n fs ps = enc_fields 0 (group_fields (chunk_list n fs ps 4) (columns_total n ps) n)"

definition footer_bytes :: "bytes list \<times> bytes list \<Rightarrow> int \<Rightarrow> ExportField list \<Rightarrow> int list \<Rightarrow> bytes" where
  "footer_bytes parts n fs ps =
     enc_fields 0 (footer_fields (fst parts) (snd parts) n [group_bytes n fs ps])"

text \<open>All bytes of the file outside the page bodies.\<close>

definition overhead :: "bytes list \<times> bytes list \<Rightarrow> int \<Rightarrow> ExportField list \<Rightarrow> int list \<Rightarrow> int" where
  "overhead parts n fs ps =
     4 + sum_list (map (\<lambda>p. int (length (page_header_bytes n p))) ps) + int (length (footer_bytes parts n fs ps)) + 8"

lemma columns_total_split:
  "columns_total n ps = sum_list (map (\<lambda>p. int (length (page_header_bytes n p))) ps) + sum_list ps"
  by (induction ps) (auto simp: column_total_def)

definition encodable_names :: "ExportField list \<Rightarrow> bool" where
  "encodable_names fs \<longleftrightarrow> (\<forall>f \<in> set fs. encodable (field_name f))"

lemma size_loop_layout:
  assumes "encodable_names fs" "length fs = length ps"
  shows "size_loop n fs ps off acc =
     Inr (chunk_list n fs ps off, off + columns_total n ps, acc + columns_total n ps)"
  using assms(2,1)
proof (induction fs ps arbitrary: off acc rule: list_induct2)
  case (Cons f fs p ps)
  then have "encodable (field_name f)" "encodable_names fs" by (auto simp: encodable_names_def)
  then show ?case
    using Cons.IH [of "off + column_total n p" "acc + column_total n p"]
    by (simp add: data_page_header_total column_metadata_total column_chunk_total
        column_total_def [symmetric] Let_def del: enc_fields.simps)
qed simp

lemma upper_bound_overhead:
  assumes "encodable_names (schema_fields s)" "schema_parts s = Inr parts"
    and "length ps = length (schema_fields s)" "n \<noteq> 0"
  shows "parquet_file_size_upper_bound n ps s = Inr (overhead parts n (schema_fields s) ps + sum_list ps)"
proof -
  obtain els kvs where parts: "parts = (els, kvs)" by (cases parts)
  show ?thesis using assms parts
    by (simp add: parquet_file_size_upper_bound_def size_loop_layout row_group_total file_metadata_total
        overhead_def footer_bytes_def group_bytes_def columns_total_split)
qed

section \<open>Monotonicity\<close>

lemma page_header_mono:
  assumes "0 \<le> n" "n \<le> n'" "0 \<le> p" "p \<le> p'"
  shows "length (page_header_bytes n p) \<le> length (page_header_bytes n' p')"
proof -
  have "length (enc_fields 0 [(1, T_I32, svar n), (2, T_I32, svar 0), (3, T_I32, svar 3), (4, T_I32, svar 3)])
      \<le> length (enc_fields 0 [(1, T_I32, svar n'), (2, T_I32, svar 0), (3, T_I32, svar 3), (4, T_I32, svar 3)])"
    by (rule enc_fields_mono) (simp add: field_le_def length_svar_mono assms)
  then have "list_all2 field_le (page_header_fields n p) (page_header_fields n' p')"
    by (simp add: page_header_fields_def field_le_def length_svar_mono assms)
  then show ?thesis by (rule enc_fields_mono)
qed

lemma column_total_mono:
  assumes "0 \<le> n" "n \<le> n'" "0 \<le> p" "p \<le> p'"
  shows "0 \<le> column_total n p" "column_total n p \<le> column_total n' p'"
  using page_header_mono [OF assms] assms by (auto simp: column_total_def)

lemma chunk_fields_mono:
  assumes "0 \<le> n" "n \<le> n'" "0 \<le> t" "t \<le> t'" "0 \<le> off" "off \<le> off'"
  shows "length (enc_fields 0 (chunk_fields f n t off)) \<le> length (enc_fields 0 (chunk_fields f n' t' off'))"
proof -
  have "list_all2 field_le (meta_fields f n t off) (meta_fields f n' t' off')"
    by (simp add: meta_fields_def field_le_def length_svar_mono assms)
  then have "length (enc_fields 0 (meta_fields f n t off)) \<le> length (enc_fields 0 (meta_fields f n' t' off'))"
    by (rule enc_fields_mono)
  then have "list_all2 field_le (chunk_fields f n t off) (chunk_fields f n' t' off')"
    by (simp add: chunk_fields_def field_le_def)
  then show ?thesis by (rule enc_fields_mono)
qed

definition sizes_le :: "int list \<Rightarrow> int list \<Rightarrow> bool" where
  "sizes_le ps qs \<longleftrightarrow> list_all2 (\<lambda>p q. 0 \<le> p \<and> p \<le> q) ps qs"

lemma chunk_list_mono:
  assumes "0 \<le> n" "n \<le> n'" "sizes_le ps qs" "0 \<le> off" "off \<le> off'"
  shows "list_all2 (\<lambda>a b. length a \<le> length b) (chunk_list n fs ps off) (chunk_list n' fs qs off')"
  using assms(3-5) unfolding sizes_le_def
proof (induction ps qs arbitrary: fs off off' rule: list_all2_induct)
  case Nil
  then show ?case by (cases fs) auto
next
  case (Cons p ps q qs)
  show ?case
  proof (cases fs)
    case (Cons f gs)
    have t: "0 \<le> column_total n p" "column_total n p \<le> column_total n' q"
      using column_total_mono [OF assms(1,2)] Cons.hyps by blast+
    then have "list_all2 (\<lambda>a b. length a \<le> length b)
        (chunk_list n gs ps (off + column_total n p)) (chunk_list n' gs qs (off' + column_total n' q))"
      using Cons.prems by (intro Cons.IH) auto
    then show ?thesis using t Cons.prems assms Cons by (simp add: chunk_fields_mono)
  qed simp
qed

lemma columns_total_mono:
  assumes "0 \<le> n" "n \<le> n'" "sizes_le ps qs"
  shows "0 \<le> columns_total n ps" "columns_total n ps \<le> columns_total n' qs"
proof -
  have "0 \<le> columns_total n ps \<and> columns_total n ps \<le> columns_total n' qs"
    using assms(3) unfolding sizes_le_def
  proof (induction ps qs rule: list_all2_induct)
    case (Cons p ps q qs)
    then show ?case using column_total_mono [OF assms(1,2), of p q] by auto
  qed simp
  then show "0 \<le> columns_total n ps" "columns_total n ps \<le> columns_total n' qs" by auto
qed

lemma header_sum_mono:
  assumes "0 \<le> n" "n \<le> n'" "sizes_le ps qs"
  shows "sum_list (map (\<lambda>p. int (length (page_header_bytes n p))) ps)
      \<le> sum_list (map (\<lambda>p. int (length (page_header_bytes n' p))) qs)"
  using assms(3) unfolding sizes_le_def
proof (induction ps qs rule: list_all2_induct)
  case (Cons p ps q qs)
  have "length (page_header_bytes n p) \<le> length (page_header_bytes n' q)"
    using page_header_mono assms Cons.hyps by blast
  then show ?case using Cons.IH by simp
qed simp

lemma footer_mono:
  assumes "0 \<le> n" "n \<le> n'" "sizes_le ps qs"
  shows "length (footer_bytes parts n fs ps) \<le> length (footer_bytes parts n' fs qs)"
proof -
  have "list_all2 field_le (group_fields (chunk_list n fs ps 4) (columns_total n ps) n)
      (group_fields (chunk_list n' fs qs 4) (columns_total n' qs) n')"
    using columns_total_mono [OF assms] list_bytes_mono [OF chunk_list_mono [OF assms, of 4 4 fs]] assms
    by (simp add: group_fields_def field_le_def length_svar_mono)
  then have g: "length (group_bytes n fs ps) \<le> length (group_bytes n' fs qs)"
    unfolding group_bytes_def by (rule enc_fields_mono)
  have "list_all2 field_le (footer_fields (fst parts) (snd parts) n [group_bytes n fs ps])
      (footer_fields (fst parts) (snd parts) n' [group_bytes n' fs qs])"
    using assms g by (simp add: footer_fields_def field_le_def length_svar_mono list_bytes_mono)
  then show ?thesis unfolding footer_bytes_def by (rule enc_fields_mono)
qed

lemma overhead_mono:
  assumes "0 \<le> n" "n \<le> n'" "sizes_le ps qs"
  shows "overhead parts n fs ps \<le> overhead parts n' fs qs"
  using header_sum_mono [OF assms] footer_mono [OF assms, of parts fs] by (simp add: overhead_def)

section \<open>A valid schema can be described\<close>

lemma encodable_append [simp]: "encodable (a @ b) \<longleftrightarrow> encodable a \<and> encodable b"
  by (simp add: encodable_def)

lemma not_surrogate_char [simp]: "\<not> surrogate (of_char c)"
  unfolding surrogate_def using nat_of_char_less_256 [of c] by linarith

lemma encodable_lit [simp]: "encodable (lit s)"
  by (auto simp: encodable_def list_ex_iff lit_def)

lemma encodable_concat: "(\<And>x. x \<in> set xs \<Longrightarrow> encodable x) \<Longrightarrow> encodable (concat xs)"
  by (induction xs) (auto simp: encodable_def)

lemma encodable_join: "encodable sep \<Longrightarrow> (\<And>x. x \<in> set xs \<Longrightarrow> encodable x) \<Longrightarrow> encodable (join sep xs)"
  by (induction sep xs rule: join.induct) (auto simp: encodable_def)

lemma encodable_json_escape: "\<not> surrogate c \<Longrightarrow> encodable (json_escape c)"
proof -
  assume c: "\<not> surrogate c"
  have "\<not> surrogate (hex_char (c div 16))" if "c < 32"
    using that by (simp add: surrogate_def hex_char_def)
  moreover have "\<not> surrogate (hex_char (c mod 16))"
    using mod_less_divisor [of 16 c] by (auto simp: surrogate_def hex_char_def)
  moreover have "\<not> surrogate k" if "k < 128" for k using that by (simp add: surrogate_def)
  ultimately show ?thesis using c by (simp add: encodable_def)
qed

lemma encodable_json_string: "encodable s \<Longrightarrow> encodable (json_string s)"
proof -
  assume "encodable s"
  then have "encodable (concat (map json_escape s))"
    by (intro encodable_concat) (auto simp: encodable_def [of s] list_ex_iff intro!: encodable_json_escape
        simp del: json_escape.simps)
  then show ?thesis by (simp add: json_string_def) (simp add: encodable_def surrogate_def)
qed

lemma in_class_encodable: "in_class cs c \<Longrightarrow> \<not> surrogate c"
  by (auto simp: in_class_def lit_def)

lemma pattern_encodable:
  "IDENTIFIER_PATTERN s \<Longrightarrow> encodable s" "SCHEMA_VERSION_PATTERN s \<Longrightarrow> encodable s"
  by (cases s; simp add: encodable_def list_ex_iff list_all_iff; blast dest: in_class_encodable)+

lemma valid_schema_encodable:
  assumes "valid_schema s"
  shows "encodable_names (schema_fields s)" "encodable (entity s)" "encodable (version s)"
proof -
  have "encodable (field_name f)" if "f \<in> set (schema_fields s)" for f
    using assms that unfolding valid_schema_def ExportField_post_init_def
    by (force simp: rbind_Inr_iff utf8_encode_def encodable_def split: if_splits)
  then show "encodable_names (schema_fields s)" by (simp add: encodable_names_def)
  show "encodable (entity s)" "encodable (version s)"
    using assms pattern_encodable by (auto simp: valid_schema_def ExportSchema_post_init_def split: if_splits)
qed

lemma logical_schema_json_encodable: "encodable_names fs \<Longrightarrow> schema_fields s = fs \<Longrightarrow> encodable (logical_schema_json s)"
  unfolding logical_schema_json_def encodable_append
  by (intro conjI encodable_join)
    (auto simp: encodable_names_def encodable_json_string simp del: lit_Cons)

lemma all_results_Inr: "(\<And>x. x \<in> set xs \<Longrightarrow> \<exists>y. f x = Inr y) \<Longrightarrow> \<exists>ys. all_results (map f xs) = Inr ys"
  by (induction xs) (auto, metis rbind.simps(2))

lemma key_value_Inr: "encodable k \<Longrightarrow> encodable v \<Longrightarrow> \<exists>b. key_value k v = Inr b"
  using thrift_puts [of "[(1, T_BINARY, blob (utf8 k)), (2, T_BINARY, blob (utf8 v))]"]
  by (simp add: key_value_def writers del: put.simps enc_fields.simps)

lemma schema_element_root_Inr: "\<exists>b. schema_element (lit ''schema'') None None (Some n) = Inr b"
  using thrift_puts [of "[(4, T_BINARY, blob (utf8 (lit ''schema''))), (5, T_I32, svar n)]"]
  by (simp add: schema_element_def call_if_def writers del: put.simps enc_fields.simps lit_Cons)

lemma field_element_Inr:
  assumes "encodable (field_name f)" shows "\<exists>b. field_element f = Inr b"
proof (cases "is_string_type (value_type f)")
  case True
  then show ?thesis
    using thrift_puts [of "[(1, T_STRUCT, enc_fields 0 [])]"] thrift_puts [of "[]"] assms
      thrift_puts [of "[(1, T_I32, svar 6), (3, T_I32, svar (if nullable f then 1 else 0)),
        (4, T_BINARY, blob (utf8 (field_name f))), (6, T_I32, svar 0),
        (10, T_STRUCT, enc_fields 0 [(1, T_STRUCT, enc_fields 0 [])])]"]
    by (simp add: field_element_def string_schema_element_def writers
        del: put.simps enc_fields.simps is_string_type.simps)
next
  case False
  then show ?thesis
    using thrift_puts [of "[(1, T_I32, svar (physical_code (physical_type (value_type f)))),
        (3, T_I32, svar (if nullable f then 1 else 0)), (4, T_BINARY, blob (utf8 (field_name f)))]"] assms
    by (simp add: field_element_def schema_element_def call_if_def writers
        del: put.simps enc_fields.simps is_string_type.simps)
qed

lemma schema_parts_total:
  assumes "valid_schema s" obtains parts where "schema_parts s = Inr parts"
proof -
  note enc = valid_schema_encodable [OF assms]
  obtain root where "schema_element (lit ''schema'') None None (Some (int (length (schema_fields s)))) = Inr root"
    using schema_element_root_Inr by blast
  moreover obtain els where "all_results (map field_element (schema_fields s)) = Inr els"
    using all_results_Inr [of "schema_fields s" field_element] field_element_Inr enc(1)
    by (auto simp: encodable_names_def)
  moreover obtain k1 k2 k3 where
    "key_value (lit ''makolet.entity'') (entity s) = Inr k1"
    "key_value (lit ''makolet.logical_schema'') (logical_schema_json s) = Inr k2"
    "key_value (lit ''makolet.schema_version'') (version s) = Inr k3"
    using key_value_Inr [OF encodable_lit] enc logical_schema_json_encodable [OF enc(1) refl] by metis
  ultimately have "schema_parts s = Inr (root # els, [k1, k2, k3])"
    by (simp add: schema_parts_def del: lit_Cons)
  then show ?thesis by (rule that)
qed

section \<open>The invariant of the budget\<close>

text \<open>\<open>cell_ok\<close>: what a prepared row may hold in a field.\<close>

definition cell_ok :: "ExportField \<Rightarrow> pvalue option \<Rightarrow> bool" where
  "cell_ok f v \<longleftrightarrow> (case v of None \<Rightarrow> nullable f | Some x \<Rightarrow> typed_value (value_type f) x)"

definition typed_row :: "ExportField list \<Rightarrow> PreparedParquetRow \<Rightarrow> bool" where
  "typed_row fs row \<longleftrightarrow> list_all2 cell_ok fs row"

definition charge :: "ExportField \<Rightarrow> pvalue option \<Rightarrow> int" where
  "charge f v = int (cell_charge (value_type f) (nullable f) v)"

definition base_size :: "ExportField \<Rightarrow> int" where
  "base_size f = (if nullable f then 4 else 0)"

definition column :: "PreparedParquetRow list \<Rightarrow> nat \<Rightarrow> pvalue option list" where
  "column rows i = map (\<lambda>r. r ! i) rows"

text \<open>The page sizes after a sequence of rows, column by column.\<close>

definition accounted :: "ExportField list \<Rightarrow> PreparedParquetRow list \<Rightarrow> int list" where
  "accounted fs rows =
     map (\<lambda>i. base_size (fs ! i) + sum_list (map (charge (fs ! i)) (column rows i))) [0..<length fs]"

lemma charge_nonneg: "0 \<le> charge f v"
  by (simp add: charge_def)

lemma plain_size_charge:
  "cell_ok f v \<Longrightarrow>
   rbind (case v of None \<Rightarrow> Inr 0 | Some x \<Rightarrow> plain_value_size x (value_type f))
     (\<lambda>b. k (b + (if nullable f then 2 else 0))) = k (charge f v)"
  by (auto simp: cell_ok_def charge_def cell_charge_def plain_value_size_typed split: option.splits)

lemma charge_loop_Inr:
  assumes "typed_row fs row" "length ps = length fs"
    and "charge_loop m fs row ps acc = Inr (Inr (ps', acc'))"
  shows "ps' = map2 (+) ps (map2 charge fs row) \<and> acc' - acc = sum_list ps' - sum_list ps \<and>
         (\<forall>p \<in> set ps'. p \<le> m)"
  using assms(1)[unfolded typed_row_def] assms(2,3)
proof (induction fs row arbitrary: ps acc ps' acc' rule: list_all2_induct)
  case (Cons f fs v vs)
  then obtain p qs where ps: "ps = p # qs" "length qs = length fs" by (cases ps) auto
  have eq: "charge_loop m (f # fs) (v # vs) (p # qs) acc =
     (if p + charge f v > m then Inr (Inl (MaxPage (field_name f)))
      else rbind (charge_loop m fs vs qs (acc + charge f v)) (\<lambda>r.
              Inr (case r of Inl why \<Rightarrow> Inl why | Inr (ps', t') \<Rightarrow> Inr ((p + charge f v) # ps', t'))))"
    using plain_size_charge [OF Cons.hyps(1), where k = "\<lambda>c. if p + c > m then Inr (Inl (MaxPage (field_name f)))
      else rbind (charge_loop m fs vs qs (acc + c)) (\<lambda>r.
              Inr (case r of Inl why \<Rightarrow> Inl why | Inr (ps', t') \<Rightarrow> Inr ((p + c) # ps', t')))"]
    by (simp add: Let_def)
  obtain qs' where "p + charge f v \<le> m" "ps' = (p + charge f v) # qs'"
      "charge_loop m fs vs qs (acc + charge f v) = Inr (Inr (qs', acc'))"
    using Cons.prems(2) unfolding ps eq
    by (cases "charge_loop m fs vs qs (acc + charge f v)") (auto split: if_splits sum.split_asm)
  then show ?case using Cons.IH [of qs "acc + charge f v" qs' acc'] ps by auto
qed simp

lemma length_accounted [simp]: "length (accounted fs rows) = length fs"
  by (simp add: accounted_def)

lemma accounted_Nil: "accounted fs [] = map base_size fs"
  by (rule nth_equalityI) (simp_all add: accounted_def column_def)

lemma accounted_snoc:
  "length row = length fs \<Longrightarrow>
   accounted fs (rows @ [row]) = map2 (+) (accounted fs rows) (map2 charge fs row)"
  by (rule nth_equalityI) (simp_all add: accounted_def column_def)

lemma accounted_nonneg: "p \<in> set (accounted fs rows) \<Longrightarrow> 0 \<le> p"
  by (auto simp: accounted_def base_size_def charge_nonneg intro!: add_nonneg_nonneg sum_list_nonneg)

definition budget_inv ::
    "cpython \<Rightarrow> ExportSchema \<Rightarrow> ExportLimits \<Rightarrow> int \<Rightarrow> PreparedParquetRow list \<Rightarrow> ParquetBatchBudget \<Rightarrow> bool" where
  "budget_inv py s l ov rows b \<longleftrightarrow>
     b_schema b = s \<and> b_limits b = l \<and> file_overhead_bytes b = ov \<and>
     row_count b = int (length rows) \<and> (\<forall>r \<in> set rows. typed_row (schema_fields s) r) \<and>
     page_sizes (usage b) = accounted (schema_fields s) rows \<and>
     total_page_bytes (usage b) = sum_list (page_sizes (usage b)) \<and>
     retained_value_bytes (usage b) = sum_list (map (prepared_row_retained_bytes py) rows) \<and>
     (rows \<noteq> [] \<longrightarrow>
        row_count b \<le> max_rows_per_file l \<and>
        (\<forall>p \<in> set (page_sizes (usage b)). p \<le> max_page_bytes l) \<and>
        file_bytes (usage b) = total_page_bytes (usage b) + ov \<and>
        file_bytes (usage b) \<le> max_file_bytes l \<and>
        working_set_bytes (usage b) =
          working_set_upper_bound py (row_count b) (retained_value_bytes (usage b)) (file_bytes (usage b)) \<and>
        working_set_bytes (usage b) \<le> max_working_set_bytes l)"

lemma typed_row_length: "typed_row fs row \<Longrightarrow> length row = length fs"
  unfolding typed_row_def by (rule list_all2_lengthD [symmetric])

lemma budget_add_inv:
  assumes inv: "budget_inv py s l ov rows b" and typed: "typed_row (schema_fields s) row"
    and add: "budget_add py row b = Inr b'"
  shows "budget_inv py s l ov (rows @ [row]) b'"
proof -
  have bs: "b_schema b = s" "b_limits b = l" using inv by (auto simp: budget_inv_def)
  obtain u where u: "prospective_usage py b row = Inr (Inr u)"
    and b': "b' = b\<lparr>usage := u, row_count := row_count b + 1\<rparr>"
    using add unfolding budget_add_def add_if_within_limits_def
    by (cases "prospective_usage py b row") (auto split: sum.split_asm)
  obtain sizes acc where loop: "charge_loop (max_page_bytes l) (schema_fields s) row
        (page_sizes (usage b)) (total_page_bytes (usage b)) = Inr (Inr (sizes, acc))"
    and ok: "row_count b + 1 \<le> max_rows_per_file l" "acc + file_overhead_bytes b \<le> max_file_bytes l"
    and u': "u = \<lparr>page_sizes = sizes, total_page_bytes = acc,
        retained_value_bytes = retained_value_bytes (usage b) + prepared_row_retained_bytes py row,
        file_bytes = acc + file_overhead_bytes b,
        working_set_bytes = working_set_upper_bound py (row_count b + 1)
          (retained_value_bytes (usage b) + prepared_row_retained_bytes py row)
          (acc + file_overhead_bytes b)\<rparr>"
    and ws: "working_set_bytes u \<le> max_working_set_bytes l"
    using u unfolding prospective_usage_def bs Let_def
    by (cases "charge_loop (max_page_bytes l) (schema_fields s) row
        (page_sizes (usage b)) (total_page_bytes (usage b))") (auto split: if_splits sum.split_asm)
  have len: "length (page_sizes (usage b)) = length (schema_fields s)"
    using inv by (simp add: budget_inv_def)
  have sizes: "sizes = accounted (schema_fields s) (rows @ [row])"
    "acc = sum_list sizes" "\<forall>p \<in> set sizes. p \<le> max_page_bytes l"
    using charge_loop_Inr [OF typed len loop] inv accounted_snoc [OF typed_row_length [OF typed]]
    by (auto simp: budget_inv_def)
  show ?thesis using inv typed sizes ok ws
    by (simp add: budget_inv_def b' u')
qed

lemma add_all_inv:
  assumes "budget_inv py s l ov done b" "\<forall>r \<in> set rows. typed_row (schema_fields s) r"
    and "add_all py rows b = Inr b'"
  shows "budget_inv py s l ov (done @ rows) b'"
  using assms
proof (induction rows arbitrary: "done" b)
  case (Cons r rows)
  then obtain b1 where "budget_add py r b = Inr b1" "add_all py rows b1 = Inr b'"
    by (auto simp: rbind_Inr_iff)
  then show ?case using Cons.IH [of "done @ [r]" b1] Cons.prems budget_add_inv by auto
qed simp

lemma budget_init_inv:
  assumes "valid_schema s" "schema_parts s = Inr parts" "ExportLimits_post_init l = Inr ()"
    and "budget_init py s l = Inr b"
  shows "budget_inv py s l
     (overhead parts (max_rows_per_file l) (schema_fields s)
        (replicate (length (schema_fields s)) (max_page_bytes l))) [] b"
proof -
  have "map base_size (schema_fields s) = base_sizes s"
    by (simp add: base_sizes_def base_size_def)
  then show ?thesis using assms(4) ExportLimits_bounds(1) [OF assms(3)]
    upper_bound_overhead [OF valid_schema_encodable(1) [OF assms(1)] assms(2), of
      "replicate (length (schema_fields s)) (max_page_bytes l)" "max_rows_per_file l"]
    by (auto simp: budget_init_def budget_inv_def Let_def rbind_Inr_iff accounted_Nil split: if_splits)
qed

section \<open>Building the file\<close>

fun pages :: "PreparedParquetRow list \<Rightarrow> nat \<Rightarrow> ExportField list \<Rightarrow> bytes list" where
  "pages rows i [] = []"
| "pages rows i (f # fs) = page_bytes (value_type f) (nullable f) (column rows i) # pages rows (Suc i) fs"

abbreviation page_lengths :: "bytes list \<Rightarrow> int list" where
  "page_lengths ps \<equiv> map (\<lambda>p. int (length p)) ps"

definition with_header :: "int \<Rightarrow> bytes \<Rightarrow> bytes" where
  "with_header n p = page_header_bytes n (int (length p)) @ p"

lemma length_with_header: "int (length (with_header n p)) = column_total n (int (length p))"
  by (simp add: with_header_def column_total_def)

lemma prepared_column_total:
  "\<forall>r \<in> set rows. i < length r \<Longrightarrow>
   prepared_column rows i =
     Inr (map (\<lambda>v. v \<noteq> None) (column rows i), map the (filter (\<lambda>v. v \<noteq> None) (column rows i)))"
  by (induction rows) (auto simp: column_def split: option.splits)

lemma page_total:
  assumes "\<forall>r \<in> set rows. i < length r \<and> cell_ok f (r ! i)" "2 * length rows < 2 ^ 32"
  shows "rbind (prepared_column rows i) (\<lambda>(present, vs).
           rbind (if nullable f then encode_definition_levels present else Inr []) (\<lambda>levels.
           rbind (encode_plain vs (value_type f)) (\<lambda>plain. k (levels @ plain)))) =
         k (page_bytes (value_type f) (nullable f) (column rows i))"
proof -
  let ?col = "column rows i"
  have typed: "\<forall>v. Some v \<in> set ?col \<longrightarrow> typed_value (value_type f) v"
    using assms(1) by (fastforce simp: column_def cell_ok_def split: option.split_asm)
  have len: "length (rle_runs (map (\<lambda>v. v \<noteq> None) ?col)) < 2 ^ 32"
    using length_rle_runs [of "map (\<lambda>v. v \<noteq> None) ?col"] assms(2) by (simp add: column_def)
  show ?thesis
    using assms(1) encode_plain_total [OF typed_column_values [OF typed]] len
    by (simp add: prepared_column_total encode_definition_levels_def pack_u32_def page_bytes_def Let_def)
qed

lemma column_loop_total:
  assumes "encodable_names fs" "2 * length rows < 2 ^ 32"
    and "\<forall>k < length fs. \<forall>r \<in> set rows. i + k < length r \<and> cell_ok (fs ! k) (r ! (i + k))"
    and "\<forall>p \<in> set (page_lengths (pages rows i fs)). p \<le> max_page_bytes l"
    and "int (length out) + columns_total (int (length rows)) (page_lengths (pages rows i fs)) \<le> max_file_bytes l"
  shows "column_loop l rows fs i out acc =
    Inr (chunk_list (int (length rows)) fs (page_lengths (pages rows i fs)) (int (length out)),
         out @ concat (map (with_header (int (length rows))) (pages rows i fs)),
         acc + columns_total (int (length rows)) (page_lengths (pages rows i fs)))"
  using assms(1,3-5)
proof (induction fs arbitrary: i out acc)
  case (Cons f fs)
  let ?n = "int (length rows)" and ?p = "page_bytes (value_type f) (nullable f) (column rows i)"
  let ?ps = "page_lengths (pages rows (Suc i) fs)"
  have row: "\<forall>r \<in> set rows. i < length r \<and> cell_ok f (r ! i)" using Cons.prems(2) by force
  have rest: "\<forall>k < length fs. \<forall>r \<in> set rows. Suc i + k < length r \<and> cell_ok (fs ! k) (r ! (Suc i + k))"
    using Cons.prems(2) by force
  have enc: "encodable (field_name f)" "encodable_names fs" using Cons.prems(1) by (auto simp: encodable_names_def)
  have nn: "0 \<le> columns_total ?n ?ps"
    by (intro sum_list_nonneg) (auto simp: column_total_def)
  have fit: "int (length (out @ with_header ?n ?p)) + columns_total ?n ?ps \<le> max_file_bytes l"
    using Cons.prems(4) length_with_header [of ?n ?p] by simp
  then have here: "int (length out) + int (length (page_header_bytes ?n (int (length ?p)))) + int (length ?p)
      \<le> max_file_bytes l" using nn by (simp add: with_header_def)
  have IH: "column_loop l rows fs (Suc i) (out @ with_header ?n ?p) (acc + column_total ?n (int (length ?p))) =
     Inr (chunk_list ?n fs ?ps (int (length (out @ with_header ?n ?p))),
       (out @ with_header ?n ?p) @ concat (map (with_header ?n) (pages rows (Suc i) fs)),
       (acc + column_total ?n (int (length ?p))) + columns_total ?n ?ps)"
    using Cons.prems(3) fit by (intro Cons.IH [OF enc(2) rest]) auto
  have page: "int (length ?p) \<le> max_page_bytes l" using Cons.prems(3) by simp
  define K where "K = (\<lambda>body.
     if int (length body) > max_page_bytes l then Inl (exn_of ExportValidationError)
     else rbind (data_page_header ?n (int (length body))) (\<lambda>header.
       if int (length out) + int (length header) + int (length body) > max_file_bytes l
       then Inl (exn_of ExportValidationError)
       else rbind (column_metadata (physical_type (value_type f)) (field_name f) ?n
                (int (length header) + int (length body)) (int (length out))) (\<lambda>metadata.
         rbind (column_chunk metadata) (\<lambda>chunk.
         rbind (column_loop l rows fs (Suc i) (out @ header @ body)
                  (acc + (int (length header) + int (length body)))) (\<lambda>(chunks, out, t').
           Inr (chunk # chunks, out, t'))))))"
  have "column_loop l rows (f # fs) i out acc =
     rbind (prepared_column rows i) (\<lambda>(present, vs).
       rbind (if nullable f then encode_definition_levels present else Inr []) (\<lambda>levels.
       rbind (encode_plain vs (value_type f)) (\<lambda>plain. K (levels @ plain))))"
    unfolding K_def column_loop.simps Let_def by (rule refl)
  also have "\<dots> = K ?p" by (rule page_total [OF row assms(2)])
  also have "K ?p = Inr (enc_fields 0 (chunk_fields f ?n (column_total ?n (int (length ?p))) (int (length out)))
        # chunk_list ?n fs ?ps (int (length (out @ with_header ?n ?p))),
      (out @ with_header ?n ?p) @ concat (map (with_header ?n) (pages rows (Suc i) fs)),
      (acc + column_total ?n (int (length ?p))) + columns_total ?n ?ps)"
    using here page enc(1) IH [unfolded with_header_def [of _ ?p] column_total_def [of _ "int (length ?p)"]]
    unfolding K_def with_header_def [of _ ?p] column_total_def [of _ "int (length ?p)"]
    by (simp add: data_page_header_total column_metadata_total column_chunk_total del: enc_fields.simps)
  finally show ?case using length_with_header [of ?n ?p] by (simp del: enc_fields.simps)
qed simp

lemma length_pages [simp]: "length (pages rows i fs) = length fs"
  by (induction fs arbitrary: i) auto

lemma nth_pages:
  "k < length fs \<Longrightarrow>
   pages rows i fs ! k = page_bytes (value_type (fs ! k)) (nullable (fs ! k)) (column rows (i + k))"
  by (induction fs arbitrary: i k) (auto simp: nth_Cons split: nat.splits)

lemma typed_row_nth: "typed_row fs r \<Longrightarrow> k < length fs \<Longrightarrow> k < length r \<and> cell_ok (fs ! k) (r ! k)"
  unfolding typed_row_def by (metis list_all2_lengthD list_all2_nthD)

lemma pages_accounted:
  assumes "\<forall>r \<in> set rows. typed_row fs r"
  shows "sizes_le (page_lengths (pages rows 0 fs)) (accounted fs rows)"
  unfolding sizes_le_def
proof (rule list_all2_all_nthI)
  fix k assume "k < length (page_lengths (pages rows 0 fs))"
  then have k: "k < length fs" by simp
  have "\<forall>v. Some v \<in> set (column rows k) \<longrightarrow> typed_value (value_type (fs ! k)) v"
    using assms typed_row_nth [OF _ k] by (fastforce simp: column_def cell_ok_def split: option.split_asm)
  from length_page_bytes [OF this, of "nullable (fs ! k)"]
  have "int (length (page_bytes (value_type (fs ! k)) (nullable (fs ! k)) (column rows k)))
     \<le> base_size (fs ! k) + int (sum_list (map (cell_charge (value_type (fs ! k)) (nullable (fs ! k))) (column rows k)))"
    by (simp add: base_size_def split: if_splits)
  moreover have "int (sum_list (map (cell_charge t o') c)) = sum_list (map (\<lambda>v. int (cell_charge t o' v)) c)" for t o' c
    by (induction c) auto
  ultimately show "0 \<le> page_lengths (pages rows 0 fs) ! k \<and>
      page_lengths (pages rows 0 fs) ! k \<le> accounted fs rows ! k"
    using k by (simp add: nth_pages accounted_def charge_def [abs_def])
qed simp

lemma sizes_le_replicate:
  "sizes_le ps qs \<Longrightarrow> \<forall>q \<in> set qs. q \<le> m \<Longrightarrow> sizes_le ps (replicate (length qs) m)"
  unfolding sizes_le_def by (induction rule: list_all2_induct) auto

lemma sizes_le_sum: "sizes_le ps qs \<Longrightarrow> sum_list ps \<le> sum_list qs"
  unfolding sizes_le_def by (induction rule: list_all2_induct) auto

lemma sizes_le_bound: "sizes_le ps qs \<Longrightarrow> \<forall>q \<in> set qs. q \<le> m \<Longrightarrow> \<forall>p \<in> set ps. p \<le> m"
  unfolding sizes_le_def by (induction rule: list_all2_induct) auto

text \<open>The bytes of the file, as a function of the rows.\<close>

definition footer_of :: "bytes list \<times> bytes list \<Rightarrow> PreparedParquetRow list \<Rightarrow> ExportField list \<Rightarrow> bytes" where
  "footer_of parts rows fs = footer_bytes parts (int (length rows)) fs (page_lengths (pages rows 0 fs))"

definition file_of :: "bytes list \<times> bytes list \<Rightarrow> PreparedParquetRow list \<Rightarrow> ExportField list \<Rightarrow> bytes" where
  "file_of parts rows fs =
     (PARQUET_MAGIC @ concat (map (with_header (int (length rows))) (pages rows 0 fs))) @
     footer_of parts rows fs @ le_bytes 4 (length (footer_of parts rows fs)) @ PARQUET_MAGIC"

lemma length_concat_with_header:
  "int (length (concat (map (with_header n) ps))) = columns_total n (page_lengths ps)"
  by (induction ps) (auto simp: length_with_header)

lemma length_magic [simp]: "length PARQUET_MAGIC = 4"
  by (simp add: PARQUET_MAGIC_def)

lemma length_file_of:
  "int (length (file_of parts rows fs)) =
     overhead parts (int (length rows)) fs (page_lengths (pages rows 0 fs)) +
     sum_list (page_lengths (pages rows 0 fs))"
  using length_concat_with_header [of "int (length rows)" "pages rows 0 fs"]
    columns_total_split [of "int (length rows)" "page_lengths (pages rows 0 fs)"]
  by (simp add: file_of_def overhead_def footer_of_def)

lemma accepted_rows_build:
  assumes schema: "valid_schema s" "schema_parts s = Inr parts" and lim: "ExportLimits_post_init l = Inr ()"
    and rows: "rows \<noteq> []" "\<forall>r \<in> set rows. typed_row (schema_fields s) r"
    and init: "budget_init py s l = Inr b0" and add: "add_all py rows b0 = Inr b"
  shows "build_parquet_bytes py rows s l = Inr (file_of parts rows (schema_fields s))"
    and "int (length (file_of parts rows (schema_fields s))) \<le> file_bytes (usage b)"
    and "file_bytes (usage b) \<le> max_file_bytes l"
    and "int (length rows) \<le> max_rows_per_file l"
proof -
  let ?fs = "schema_fields s" and ?n = "int (length rows)"
  let ?ps = "pages rows 0 ?fs"
  let ?top = "replicate (length ?fs) (max_page_bytes l)"
  define ov where "ov = overhead parts (max_rows_per_file l) ?fs ?top"
  have inv: "budget_inv py s l ov rows b"
    using add_all_inv [OF budget_init_inv [OF schema lim init] rows(2) add] by (simp add: ov_def)
  show n: "?n \<le> max_rows_per_file l" and fb: "file_bytes (usage b) \<le> max_file_bytes l"
    using inv rows(1) by (auto simp: budget_inv_def)
  have acc: "\<forall>q \<in> set (accounted ?fs rows). q \<le> max_page_bytes l"
    "file_bytes (usage b) = sum_list (accounted ?fs rows) + ov"
    using inv rows(1) by (auto simp: budget_inv_def)
  have le: "sizes_le (page_lengths ?ps) (accounted ?fs rows)" by (rule pages_accounted [OF rows(2)])
  have "overhead parts ?n ?fs (page_lengths ?ps) \<le> ov"
    unfolding ov_def using n sizes_le_replicate [OF le acc(1)] by (intro overhead_mono) auto
  then show len: "int (length (file_of parts rows ?fs)) \<le> file_bytes (usage b)"
    unfolding length_file_of using sizes_le_sum [OF le] acc(2) by linarith
  have small: "2 * length rows < 2 ^ 32" "file_bytes (usage b) < 2 ^ 31"
    using n fb ExportLimits_bounds [OF lim] by auto
  have "int (length PARQUET_MAGIC) + columns_total ?n (page_lengths ?ps) \<le> max_file_bytes l"
    using len fb length_concat_with_header [of ?n ?ps] by (simp add: file_of_def)
  moreover have "\<forall>k < length ?fs. \<forall>r \<in> set rows. 0 + k < length r \<and> cell_ok (?fs ! k) (r ! (0 + k))"
    using rows(2) typed_row_nth by auto
  ultimately have "column_loop l rows ?fs 0 PARQUET_MAGIC 0 =
      Inr (chunk_list ?n ?fs (page_lengths ?ps) (int (length PARQUET_MAGIC)),
        PARQUET_MAGIC @ concat (map (with_header ?n) ?ps), 0 + columns_total ?n (page_lengths ?ps))"
    using valid_schema_encodable(1) [OF schema(1)] small(1) sizes_le_bound [OF le acc(1)]
    by (intro column_loop_total)
  moreover have "file_metadata s ?n [enc_fields 0 (group_fields (chunk_list ?n ?fs (page_lengths ?ps) 4)
      (columns_total ?n (page_lengths ?ps)) ?n)] = Inr (footer_of parts rows ?fs)"
    using file_metadata_total [of s "fst parts" "snd parts"] schema(2)
    by (simp add: footer_of_def footer_bytes_def group_bytes_def del: enc_fields.simps)
  moreover have "length (footer_of parts rows ?fs) < 2 ^ 32"
    "int (length (PARQUET_MAGIC @ concat (map (with_header ?n) ?ps))) + int (length (footer_of parts rows ?fs)) + 4 + 4
      \<le> max_file_bytes l"
    using len small(2) fb by (simp_all add: file_of_def)
  ultimately show "build_parquet_bytes py rows s l = Inr (file_of parts rows ?fs)"
    using init add rows(1)
    by (simp add: build_parquet_bytes_def row_group_total pack_u32_def file_of_def del: enc_fields.simps)
qed

section \<open>Prepared rows are typed\<close>

text \<open>The values of a row that Python can hold: instants lie in the range of \<^verbatim>\<open>datetime\<close>.\<close>

fun pyobj_ok :: "pyobj \<Rightarrow> bool" where
  "pyobj_ok (ODatetime d) = instant_ok d"
| "pyobj_ok _ = True"

lemma length_iso_z: "us < 3652059 * 86400000000 \<Longrightarrow> length (iso_z us) \<le> 55"
  using length_iso_utc [of us] by (simp add: iso_z_def Let_def)

lemma normalize_value_typed:
  assumes "ExportLimits_post_init l = Inr ()" "pyobj_ok x" "normalize_value x t l = Inr v"
  shows "typed_value t v"
proof -
  have "length b < 2 ^ 32" if "\<not> int (length b) > max_string_bytes l" for b :: bytes
    using that ExportLimits_bounds(6) [OF assms(1)] by simp
  moreover have "length b < 2 ^ 32" if "\<not> int (length b) > max_binary_bytes l" for b :: bytes
    using that ExportLimits_bounds(7) [OF assms(1)] by simp
  moreover have "length (iso_z (nat us)) < 2 ^ 32" if "instant_ok (Aware us)" for us
  proof -
    have "nat us < 3652059 * 86400000000" using that by (simp add: nat_less_iff)
    then have "length (iso_z (nat us)) \<le> 55" by (rule length_iso_z)
    then show ?thesis by simp
  qed
  ultimately show ?thesis using assms(2,3)
    by (cases t; cases x)
      (auto simp: normalize_value_def Let_def rbind_Inr_iff simp del: instant_ok.simps
        split: if_splits datetime.splits)
qed

lemma prepare_loop_typed:
  assumes "ExportLimits_post_init l = Inr ()" "\<forall>k x. row k = Some x \<longrightarrow> pyobj_ok x"
  shows "prepare_loop l row fs acc = Inr vs \<Longrightarrow> typed_row fs vs"
proof (induction fs arbitrary: acc vs)
  case (Cons f fs)
  obtain v n ws where v: "(case row (field_name f) of
              None \<Rightarrow> if \<not> nullable f then Inl (exn_of ExportValidationError) else Inr (None, 0)
            | Some x \<Rightarrow>
                rbind (normalize_value x (value_type f) l) (\<lambda>v.
                rbind (plain_value_size v (value_type f)) (\<lambda>n. Inr (Some v, n)))) = Inr (v, n)"
    and ws: "prepare_loop l row fs (acc + (n + (if nullable f then 2 else 0))) = Inr ws" "vs = v # ws"
    using Cons.prems by (auto simp: rbind_Inr_iff Let_def split: if_splits)
  have "cell_ok f v" using v assms normalize_value_typed [OF assms(1)]
    by (auto simp: cell_ok_def rbind_Inr_iff split: option.splits if_splits) blast
  then show ?case using Cons.IH [OF ws(1)] ws(2) by (simp add: typed_row_def)
qed (simp add: typed_row_def)

lemma prepare_row_typed:
  assumes "ExportLimits_post_init (b_limits b) = Inr ()" "\<forall>k x. row k = Some x \<longrightarrow> pyobj_ok x"
    and "prepare_row b keys row = Inr vs"
  shows "typed_row (schema_fields (b_schema b)) vs"
  using assms prepare_loop_typed by (auto simp: prepare_row_def split: if_splits)

section \<open>A small batch\<close>

text \<open>Two fields and two rows, and the object sizes of one interpreter, for the witnesses.\<close>

definition demo_schema :: ExportSchema where
  "demo_schema = \<lparr>entity = lit ''prices'', version = lit ''1'', schema_fields =
     [\<lparr>field_name = lit ''name'', value_type = STRING, nullable = True\<rparr>,
      \<lparr>field_name = lit ''count'', value_type = INT32, nullable = False\<rparr>]\<rparr>"

definition demo_rows :: "PreparedParquetRow list" where
  "demo_rows = [[Some (PBytes (lit ''milk'')), Some (PInt 3)], [None, Some (PInt (- 7))]]"

definition demo_cpython :: cpython where
  "demo_cpython = \<lparr>pointer_bytes = 8, list_base_bytes = 56, sizeof_row = (\<lambda>_. 40),
     sizeof_tuple = (\<lambda>_. 56), sizeof_value = (\<lambda>_. 37)\<rparr>"

lemma demo_valid:
  "valid_schema demo_schema" "ExportLimits_post_init default_ExportLimits = Inr ()"
  by (simp_all add: valid_schema_def demo_schema_def ExportSchema_post_init_def ExportField_post_init_def
      utf8_encode_def surrogate_def in_class_def ExportLimits_post_init_def default_ExportLimits_def)

lemma demo_typed: "\<forall>r \<in> set demo_rows. typed_row (schema_fields demo_schema) r" "demo_rows \<noteq> []"
  by (simp_all add: demo_rows_def demo_schema_def typed_row_def cell_ok_def)

lemmas demo_eval = schema_element_def call_if_def field_element_def string_schema_element_def
  key_value_def logical_schema_json_def json_string_def thrift_def new_struct_def finish_def writer_put
  list_writer_put t_string_def header_bytes_def list_bytes_def blob_def utf8_encode_def surrogate_def svar_def zigzag_eq
  varint_loop_unfold file_metadata_def CREATED_BY_def row_group_def column_chunk_def column_metadata_def
  data_page_header_def


lemma replicate_pair: "replicate 2 x = [x, x]"
  by (simp add: numeral_2_eq_2)

lemma demo_accepted:
  obtains b0 b where "budget_init demo_cpython demo_schema default_ExportLimits = Inr b0"
    "add_all demo_cpython demo_rows b0 = Inr b"
proof -
  have "\<not> isl (rbind (budget_init demo_cpython demo_schema default_ExportLimits) (add_all demo_cpython demo_rows))"
  by (simp add: budget_init_def demo_schema_def default_ExportLimits_def Let_def base_sizes_def replicate_pair
      parquet_file_size_upper_bound_def demo_eval demo_rows_def demo_cpython_def budget_add_def add_if_within_limits_def
      prospective_usage_def working_set_upper_bound_def bounded_list_bytes_def prepared_row_retained_bytes_def)
  then show thesis using that
    by (cases "budget_init demo_cpython demo_schema default_ExportLimits";
        cases "rbind (budget_init demo_cpython demo_schema default_ExportLimits) (add_all demo_cpython demo_rows)") auto
qed

section \<open>Properties\<close>

text \<open>
  C25. The budget is sound: when it has accepted the rows, building the file succeeds, the file
  has at most the number of bytes the budget has accounted, and this number respects the
  configured file limit. The accounting, made row by row before anything is encoded, never
  underestimates.
\<close>
theorem accepted_batch_is_written:
  assumes "valid_schema s" and "ExportLimits_post_init l = Inr ()"
    and "rows \<noteq> []" and "\<forall>r \<in> set rows. typed_row (schema_fields s) r"
    and "budget_init py s l = Inr b0" and "add_all py rows b0 = Inr b"
  shows "\<exists>out. build_parquet_bytes py rows s l = Inr out \<and>
     int (length out) \<le> file_bytes (usage b) \<and> file_bytes (usage b) \<le> max_file_bytes l"
proof -
  obtain parts where parts: "schema_parts s = Inr parts" using schema_parts_total [OF assms(1)] .
  show ?thesis using accepted_rows_build [OF assms(1) parts assms(2-6)] by blast
qed

theorem accepted_batch_is_written_witness:
  "\<exists>b0 b out. budget_init demo_cpython demo_schema default_ExportLimits = Inr b0 \<and>
     add_all demo_cpython demo_rows b0 = Inr b \<and>
     build_parquet_bytes demo_cpython demo_rows demo_schema default_ExportLimits = Inr out \<and>
     int (length out) \<le> file_bytes (usage b) \<and> file_bytes (usage b) \<le> 67108864"
proof -
  obtain b0 b where b: "budget_init demo_cpython demo_schema default_ExportLimits = Inr b0"
    "add_all demo_cpython demo_rows b0 = Inr b" by (rule demo_accepted)
  have "max_file_bytes default_ExportLimits = 67108864" by (simp add: default_ExportLimits_def)
  then show ?thesis using b accepted_batch_is_written [OF demo_valid demo_typed(2,1) b] by metis
qed

text \<open>
  C26. The batch budget never exceeds its limits: after any accepted rows the row count, every
  page, the file and the working set are within the configured limits, the page sizes are
  the sums of the charges of the columns, and the totals are the totals of the pages.
\<close>
theorem batch_budget_invariant:
  assumes "valid_schema s" and "ExportLimits_post_init l = Inr ()"
    and "rows \<noteq> []" and "\<forall>r \<in> set rows. typed_row (schema_fields s) r"
    and "budget_init py s l = Inr b0" and "add_all py rows b0 = Inr b"
  shows "row_count b = int (length rows) \<and> row_count b \<le> max_rows_per_file l \<and>
     page_sizes (usage b) = accounted (schema_fields s) rows \<and>
     (\<forall>p \<in> set (page_sizes (usage b)). p \<le> max_page_bytes l) \<and>
     total_page_bytes (usage b) = sum_list (page_sizes (usage b)) \<and>
     file_bytes (usage b) \<le> max_file_bytes l \<and>
     working_set_bytes (usage b) \<le> max_working_set_bytes l"
proof -
  obtain parts where parts: "schema_parts s = Inr parts" using schema_parts_total [OF assms(1)] .
  show ?thesis
    using add_all_inv [OF budget_init_inv [OF assms(1) parts assms(2,5)] assms(4,6)] assms(3)
    unfolding budget_inv_def append_Nil by blast
qed

theorem batch_budget_invariant_witness:
  "\<exists>b0 b. budget_init demo_cpython demo_schema default_ExportLimits = Inr b0 \<and>
     add_all demo_cpython demo_rows b0 = Inr b \<and>
     row_count b = 2 \<and> page_sizes (usage b) = [16, 8] \<and> total_page_bytes (usage b) = 24 \<and>
     working_set_bytes (usage b) \<le> 268435456"
proof -
  obtain b0 b where b: "budget_init demo_cpython demo_schema default_ExportLimits = Inr b0"
    "add_all demo_cpython demo_rows b0 = Inr b" by (rule demo_accepted)
  have "int (length demo_rows) = 2" "accounted (schema_fields demo_schema) demo_rows = [16, 8]"
    "max_working_set_bytes default_ExportLimits = 268435456"
    by (simp_all add: accounted_def demo_rows_def demo_schema_def default_ExportLimits_def column_def
        base_size_def charge_def cell_charge_def value_charge_def)
  then have "row_count b = 2 \<and> page_sizes (usage b) = [16, 8] \<and> total_page_bytes (usage b) = sum_list [16, 8] \<and>
     working_set_bytes (usage b) \<le> 268435456"
    using batch_budget_invariant [OF demo_valid demo_typed(2,1) b] by metis
  then show ?thesis using b by auto
qed

text \<open>
  C27. Whatever a source row holds, a row that was prepared matches the schema: one value per
  field, a null only where the field is nullable, and every value in the range of its
  physical type, so that no later encoding step can fail on it.
\<close>
theorem prepared_row_is_typed:
  assumes "ExportLimits_post_init (b_limits b) = Inr ()" and "\<forall>k x. row k = Some x \<longrightarrow> pyobj_ok x"
    and "prepare_row b keys row = Inr vs"
  shows "typed_row (schema_fields (b_schema b)) vs"
  using assms by (rule prepare_row_typed)

definition demo_source_row :: "ustr \<Rightarrow> pyobj option" where
  "demo_source_row k = (if k = lit ''name'' then Some (OStr (lit ''milk''))
     else if k = lit ''count'' then Some (OInt 3) else None)"

definition demo_budget :: ParquetBatchBudget where
  "demo_budget = \<lparr>b_schema = demo_schema, b_limits = default_ExportLimits, file_overhead_bytes = 0,
     usage = \<lparr>page_sizes = [], total_page_bytes = 0, retained_value_bytes = 0, file_bytes = 0,
       working_set_bytes = 0\<rparr>, row_count = 0\<rparr>"

theorem prepared_row_is_typed_witness:
  "prepare_row demo_budget [lit ''name'', lit ''count''] demo_source_row =
     Inr [Some (PBytes (lit ''milk'')), Some (PInt 3)] \<and>
   typed_row (schema_fields demo_schema) [Some (PBytes (lit ''milk'')), Some (PInt 3)]"
proof -
  have p: "prepare_row demo_budget [lit ''name'', lit ''count''] demo_source_row =
     Inr [Some (PBytes (lit ''milk'')), Some (PInt 3)]"
    by (simp add: prepare_row_def demo_budget_def demo_schema_def base_sizes_def demo_source_row_def
        normalize_value_def utf8_encode_def surrogate_def default_ExportLimits_def Let_def)
  have "ExportLimits_post_init (b_limits demo_budget) = Inr ()"
    using demo_valid(2) by (simp add: demo_budget_def)
  moreover have "\<forall>k x. demo_source_row k = Some x \<longrightarrow> pyobj_ok x"
    by (auto simp: demo_source_row_def simp del: lit_Cons split: if_splits)
  ultimately show ?thesis using prepared_row_is_typed [OF _ _ p] p by (simp add: demo_budget_def)
qed

end
