(* ===== verification/Parquet_Reader.thy ===== *)
theory Parquet_Reader
  imports Parquet_Budget
begin

text \<open>
  A reader of Parquet files written from the published format: the trailing magic and footer
  length, the footer struct, the leaf elements of the schema, the column chunks of the row
  groups, and at every chunk's offset a page header and one data page. It shares no code
  with the writer. The main result is that it recovers exactly the rows that were given to
  \<^verbatim>\<open>_build_parquet_bytes\<close>.
\<close>

section \<open>The reader\<close>

fun field_of :: "int \<Rightarrow> tvalue \<Rightarrow> tvalue option" where
  "field_of i (VStruct fs) = map_of fs i"
| "field_of i _ = None"

fun int_of :: "tvalue \<Rightarrow> int option" where
  "int_of (VInt n) = Some n"
| "int_of _ = None"

fun bin_of :: "tvalue \<Rightarrow> bytes option" where
  "bin_of (VBin b) = Some b"
| "bin_of _ = None"

fun list_of :: "tvalue \<Rightarrow> tvalue list option" where
  "list_of (VList _ vs) = Some vs"
| "list_of _ = None"

abbreviation int_field :: "int \<Rightarrow> tvalue \<Rightarrow> int option" where
  "int_field i v \<equiv> Option.bind (field_of i v) int_of"

abbreviation list_field :: "int \<Rightarrow> tvalue \<Rightarrow> tvalue list option" where
  "list_field i v \<equiv> Option.bind (field_of i v) list_of"

fun option_list :: "'a option list \<Rightarrow> 'a list option" where
  "option_list [] = Some []"
| "option_list (x # xs) = Option.bind x (\<lambda>y. map_option (\<lambda>ys. y # ys) (option_list xs))"

text \<open>A leaf of the schema: physical type, whether it is optional, name.\<close>

definition read_leaf :: "tvalue \<Rightarrow> (int \<times> bool \<times> bytes) option" where
  "read_leaf v =
     Option.bind (int_field 1 v) (\<lambda>code.
     Option.bind (int_field 3 v) (\<lambda>repetition.
     Option.bind (Option.bind (field_of 4 v) bin_of) (\<lambda>name.
       if repetition \<in> {0, 1} then Some (code, repetition = 1, name) else None)))"

definition read_column :: "bytes \<Rightarrow> int \<times> bool \<times> bytes \<Rightarrow> tvalue \<Rightarrow> (bytes \<times> pvalue option list) option" where
  "read_column file leaf chunk =
     (case leaf of (code, optional, name) \<Rightarrow>
     Option.bind (field_of 3 chunk) (\<lambda>meta.
     Option.bind (int_field 1 meta) (\<lambda>code'.
     Option.bind (list_field 3 meta) (\<lambda>path.
     Option.bind (int_field 5 meta) (\<lambda>n.
     Option.bind (int_field 7 meta) (\<lambda>chunk_size.
     Option.bind (int_field 9 meta) (\<lambda>offset.
       if code' \<noteq> code \<or> path \<noteq> [VBin name] \<or> n < 0 \<or> chunk_size < 0 \<or> offset < 0 then None
       else
         Option.bind (take_bytes (nat chunk_size) (drop (nat offset) file)) (\<lambda>(chunk_bytes, _).
         Option.bind (read_struct chunk_bytes) (\<lambda>(header, body).
         Option.bind (int_field 3 (VStruct header)) (\<lambda>page_size.
         Option.bind (Option.bind (field_of 5 (VStruct header)) (int_field 1)) (\<lambda>values.
           if page_size \<noteq> int (length body) \<or> values \<noteq> n then None
           else map_option (Pair name) (read_page code optional (nat n) body))))))))))))"

definition read_footer :: "bytes \<Rightarrow> (int \<times> tvalue) list option" where
  "read_footer file =
     (let n = length file in
      if n < 12 \<or> take 4 file \<noteq> [80, 65, 82, 49] \<or> drop (n - 4) file \<noteq> [80, 65, 82, 49] then None
      else
        let size = le_nat (take 4 (drop (n - 8) file)) in
        if size + 12 > n then None
        else (case read_struct (take size (drop (n - 8 - size) file)) of
                Some (fs, []) \<Rightarrow> Some fs
              | _ \<Rightarrow> None))"

definition read_group :: "bytes \<Rightarrow> (int \<times> bool \<times> bytes) list \<Rightarrow> tvalue \<Rightarrow> (bytes \<times> pvalue option list) list option" where
  "read_group file leaves g =
     Option.bind (list_field 1 g) (\<lambda>chunks.
       if length chunks \<noteq> length leaves then None
       else option_list (map2 (read_column file) leaves chunks))"

text \<open>The columns of a file with one row group: name and values, top to bottom.\<close>

definition read_parquet :: "bytes \<Rightarrow> (bytes \<times> pvalue option list) list option" where
  "read_parquet file =
     Option.bind (read_footer file) (\<lambda>footer.
     Option.bind (list_field 2 (VStruct footer)) (\<lambda>elements.
     Option.bind (option_list (map read_leaf (tl elements))) (\<lambda>leaves.
     Option.bind (list_field 4 (VStruct footer)) (\<lambda>groups.
       case groups of [g] \<Rightarrow> read_group file leaves g | _ \<Rightarrow> None))))"

section \<open>The metadata structs read back\<close>

definition page_header_value :: "int \<Rightarrow> int \<Rightarrow> (int \<times> tvalue) list" where
  "page_header_value n p =
     [(1, VInt 0), (2, VInt p), (3, VInt p),
      (5, VStruct [(1, VInt n), (2, VInt 0), (3, VInt 3), (4, VInt 3)])]"

lemma in_i64_small [simp]: "- 9223372036854775808 \<le> v \<Longrightarrow> v < 9223372036854775808 \<Longrightarrow> in_i64 v"
  by (simp add: in_i64_def)

lemmas reads_simps = reads_int reads_blob

lemma page_header_reads:
  assumes "in_i64 n" "in_i64 p"
  shows "list_all2 field_reads (page_header_fields n p) (page_header_value n p)"
proof -
  have "reads 12 (enc_fields 0 [(1, T_I32, svar n), (2, T_I32, svar 0), (3, T_I32, svar 3), (4, T_I32, svar 3)])
     (VStruct [(1, VInt n), (2, VInt 0), (3, VInt 3), (4, VInt 3)])"
    by (rule reads_struct) (simp add: reads_int assms)
  then show ?thesis
    by (simp add: page_header_fields_def page_header_value_def reads_int assms del: enc_fields.simps)
qed

definition meta_value :: "ExportField \<Rightarrow> int \<Rightarrow> int \<Rightarrow> int \<Rightarrow> (int \<times> tvalue) list" where
  "meta_value f n t off =
     [(1, VInt (physical_code (physical_type (value_type f)))), (2, VList 5 [VInt 0, VInt 3]),
      (3, VList 8 [VBin (utf8 (field_name f))]), (4, VInt 0), (5, VInt n), (6, VInt t), (7, VInt t),
      (9, VInt off)]"

definition chunk_value :: "ExportField \<Rightarrow> int \<Rightarrow> int \<Rightarrow> int \<Rightarrow> tvalue" where
  "chunk_value f n t off = VStruct [(2, VInt 0), (3, VStruct (meta_value f n t off))]"

lemma physical_code_range: "in_i64 (physical_code t)"
  by (cases t) auto

lemma chunk_reads:
  assumes "in_i64 n" "in_i64 t" "in_i64 off"
  shows "reads 12 (enc_fields 0 (chunk_fields f n t off)) (chunk_value f n t off)"
proof -
  have "reads 9 (list_bytes T_I32 (map svar [0, 3])) (VList (compact_code T_I32) [VInt 0, VInt 3])"
    by (rule reads_list) (simp add: reads_int)
  moreover have "reads 9 (list_bytes T_BINARY [blob b]) (VList (compact_code T_BINARY) [VBin b])" for b
    by (rule reads_list) (simp add: reads_blob)
  ultimately have "list_all2 field_reads (meta_fields f n t off) (meta_value f n t off)"
    by (simp add: meta_fields_def meta_value_def reads_int assms physical_code_range)
  then have "reads 12 (enc_fields 0 (meta_fields f n t off)) (VStruct (meta_value f n t off))"
    by (rule reads_struct)
  then show ?thesis unfolding chunk_value_def
    by (intro reads_struct) (simp add: chunk_fields_def reads_int del: enc_fields.simps)
qed

text \<open>The schema part: the root element, one leaf for every field, the key-value pairs.\<close>

definition leaf_fields :: "ExportField \<Rightarrow> tfield list" where
  "leaf_fields f =
     [(1, T_I32, svar (physical_code (physical_type (value_type f)))),
      (3, T_I32, svar (if nullable f then 1 else 0)), (4, T_BINARY, blob (utf8 (field_name f)))] @
     (if is_string_type (value_type f)
      then [(6, T_I32, svar 0), (10, T_STRUCT, enc_fields 0 [(1, T_STRUCT, enc_fields 0 [])])] else [])"

definition leaf_value :: "ExportField \<Rightarrow> tvalue" where
  "leaf_value f = VStruct
     ([(1, VInt (physical_code (physical_type (value_type f)))),
       (3, VInt (if nullable f then 1 else 0)), (4, VBin (utf8 (field_name f)))] @
      (if is_string_type (value_type f) then [(6, VInt 0), (10, VStruct [(1, VStruct [])])] else []))"

lemma string_type_physical: "is_string_type t \<Longrightarrow> physical_type t = P_BYTE_ARRAY"
  by auto

lemma field_element_leaf:
  assumes "encodable (field_name f)" shows "field_element f = Inr (enc_fields 0 (leaf_fields f))"
proof (cases "is_string_type (value_type f)")
  case True
  then show ?thesis
    using thrift_puts [of "[(1, T_STRUCT, enc_fields 0 [])]"] thrift_puts [of "[]"] assms
      thrift_puts [of "leaf_fields f"] string_type_physical [OF True]
    by (simp add: field_element_def string_schema_element_def leaf_fields_def writers
        del: put.simps enc_fields.simps is_string_type.simps)
next
  case False
  then show ?thesis using thrift_puts [of "leaf_fields f"] assms
    by (simp add: field_element_def schema_element_def call_if_def leaf_fields_def writers
        del: put.simps enc_fields.simps is_string_type.simps)
qed

lemma leaf_reads: "reads 12 (enc_fields 0 (leaf_fields f)) (leaf_value f)"
proof -
  have e: "reads 12 (enc_fields 0 []) (VStruct [])" by (rule reads_struct) simp
  then have "reads 12 (enc_fields 0 [(1, T_STRUCT, enc_fields 0 [])]) (VStruct [(1, VStruct [])])"
    by (intro reads_struct) (simp del: enc_fields.simps)
  then show ?thesis unfolding leaf_value_def leaf_fields_def
    by (intro reads_struct) (simp add: reads_int reads_blob physical_code_range del: enc_fields.simps is_string_type.simps)
qed

lemma read_leaf_value:
  "read_leaf (leaf_value f) =
     Some (physical_code (physical_type (value_type f)), nullable f, utf8 (field_name f))"
  by (simp add: read_leaf_def leaf_value_def)

lemma all_results_map: "(\<And>x. x \<in> set xs \<Longrightarrow> f x = Inr (g x)) \<Longrightarrow> all_results (map f xs) = Inr (map g xs)"
  by (induction xs) auto

lemma key_value_reads:
  assumes "key_value k v = Inr b" shows "\<exists>x. reads 12 b x"
proof -
  have enc: "encodable k" "encodable v"
    using assms by (auto simp: key_value_def thrift_def t_string_def rbind_Inr_iff utf8_encode_def encodable_def
        split: if_splits)
  have "b = enc_fields 0 [(1, T_BINARY, blob (utf8 k)), (2, T_BINARY, blob (utf8 v))]"
    using assms enc thrift_puts [of "[(1, T_BINARY, blob (utf8 k)), (2, T_BINARY, blob (utf8 v))]"]
    by (simp add: key_value_def writers del: put.simps enc_fields.simps)
  moreover have "reads 12 (enc_fields 0 [(1, T_BINARY, blob (utf8 k)), (2, T_BINARY, blob (utf8 v))])
      (VStruct [(1, VBin (utf8 k)), (2, VBin (utf8 v))])"
    by (rule reads_struct) (simp add: reads_blob)
  ultimately show ?thesis by auto
qed

lemma root_reads:
  assumes "schema_element (lit ''schema'') None None (Some n) = Inr b" "in_i64 n"
  shows "\<exists>x. reads 12 b x"
proof -
  have "b = enc_fields 0 [(4, T_BINARY, blob (utf8 (lit ''schema''))), (5, T_I32, svar n)]"
    using assms(1) thrift_puts [of "[(4, T_BINARY, blob (utf8 (lit ''schema''))), (5, T_I32, svar n)]"]
    by (simp add: schema_element_def call_if_def writers del: put.simps enc_fields.simps lit_Cons)
  moreover have "reads 12 (enc_fields 0 [(4, T_BINARY, blob (utf8 (lit ''schema''))), (5, T_I32, svar n)])
      (VStruct [(4, VBin (utf8 (lit ''schema''))), (5, VInt n)])"
    by (rule reads_struct) (simp add: reads_blob reads_int assms(2) del: lit_Cons)
  ultimately show ?thesis by auto
qed

text \<open>What the schema part reads as: some root, the leaves, some key-value pairs.\<close>

lemma schema_parts_reads:
  assumes "encodable_names (schema_fields s)" "schema_parts s = Inr (els, kvs)"
    and "in_i64 (int (length (schema_fields s)))"
  obtains root kv where "list_all2 (reads 12) els (root # map leaf_value (schema_fields s))"
    "list_all2 (reads 12) kvs kv"
proof -
  obtain rt k1 k2 k3 leaves where
    r: "schema_element (lit ''schema'') None None (Some (int (length (schema_fields s)))) = Inr rt"
    and l: "all_results (map field_element (schema_fields s)) = Inr leaves" and els: "els = rt # leaves"
    and k: "key_value (lit ''makolet.entity'') (entity s) = Inr k1"
      "key_value (lit ''makolet.logical_schema'') (logical_schema_json s) = Inr k2"
      "key_value (lit ''makolet.schema_version'') (version s) = Inr k3" and kvs: "kvs = [k1, k2, k3]"
    using assms(2) by (auto simp: schema_parts_def rbind_Inr_iff simp del: lit_Cons)
  have "leaves = map (\<lambda>f. enc_fields 0 (leaf_fields f)) (schema_fields s)"
    using l all_results_map [of "schema_fields s" field_element "\<lambda>f. enc_fields 0 (leaf_fields f)"]
      field_element_leaf assms(1) by (simp add: encodable_names_def)
  then have "list_all2 (reads 12) leaves (map leaf_value (schema_fields s))"
    by (simp add: list_all2_conv_all_nth leaf_reads)
  moreover obtain root where "reads 12 rt root" using root_reads [OF r assms(3)] by blast
  moreover obtain x1 x2 x3 where "list_all2 (reads 12) kvs [x1, x2, x3]"
    using k [THEN key_value_reads] by (auto simp: kvs)
  ultimately show thesis using that els by (metis list_all2_Cons)
qed

section \<open>Columns\<close>

abbreviation leaf_of :: "ExportField \<Rightarrow> int \<times> bool \<times> bytes" where
  "leaf_of f \<equiv> (physical_code (physical_type (value_type f)), nullable f, utf8 (field_name f))"

lemma read_column_page:
  assumes n: "n < 2 ^ 31" and p: "length p < 2 ^ 31"
    and page: "read_page (physical_code (physical_type (value_type f))) (nullable f) n p = Some col"
  shows "read_column (pre @ with_header (int n) p @ post) (leaf_of f)
      (chunk_value f (int n) (column_total (int n) (int (length p))) (int (length pre)))
    = Some (utf8 (field_name f), col)"
proof -
  have t: "nat (column_total (int n) (int (length p))) = length (with_header (int n) p)"
    using length_with_header [of "int n" p] by simp
  have nn: "\<not> column_total (int n) (int (length p)) < 0" by (simp add: column_total_def)
  have take: "take_bytes (length (with_header (int n) p)) (with_header (int n) p @ post)
      = Some (with_header (int n) p, post)" by simp
  have "in_i64 (int n)" "in_i64 (int (length p))" using n p by auto
  then have hdr: "read_struct (with_header (int n) p) = Some (page_header_value (int n) (int (length p)), p)"
    unfolding with_header_def by (intro read_struct_enc page_header_reads)
  show ?thesis
    using page nn by (simp add: read_column_def chunk_value_def meta_value_def t take hdr)
      (simp add: page_header_value_def)
qed

fun chunk_values :: "int \<Rightarrow> ExportField list \<Rightarrow> int list \<Rightarrow> int \<Rightarrow> tvalue list" where
  "chunk_values n (f # fs) (p # ps) off =
     chunk_value f n (column_total n p) off # chunk_values n fs ps (off + column_total n p)"
| "chunk_values n _ _ off = []"

lemma column_total_nonneg: "0 \<le> p \<Longrightarrow> 0 \<le> column_total n p"
  by (simp add: column_total_def)

lemma columns_total_nonneg: "\<forall>p \<in> set ps. 0 \<le> p \<Longrightarrow> 0 \<le> columns_total n ps"
  by (intro sum_list_nonneg) (auto simp: column_total_nonneg)

lemma chunk_list_reads:
  assumes "in_i64 n" "\<forall>p \<in> set ps. 0 \<le> p" "0 \<le> off" "off + columns_total n ps < 2 ^ 31"
  shows "list_all2 (reads 12) (chunk_list n fs ps off) (chunk_values n fs ps off)"
  using assms(2-4)
proof (induction ps arbitrary: fs off)
  case Nil
  then show ?case by (cases fs) auto
next
  case (Cons p ps)
  show ?case
  proof (cases fs)
    case (Cons f gs)
    have "0 \<le> column_total n p" "0 \<le> columns_total n ps"
      using Cons.prems columns_total_nonneg column_total_nonneg by auto
    then have "in_i64 (column_total n p)" "in_i64 off" using Cons.prems by auto
    moreover have "list_all2 (reads 12) (chunk_list n gs ps (off + column_total n p))
        (chunk_values n gs ps (off + column_total n p))"
      using Cons.prems \<open>0 \<le> column_total n p\<close> by (intro Cons.IH) auto
    ultimately show ?thesis using chunk_reads [OF assms(1)] Cons by simp
  qed simp
qed

lemma read_columns:
  assumes "n < 2 ^ 31" "length fs = length ps"
    and "\<forall>k < length fs. length (ps ! k) < 2 ^ 31 \<and>
       read_page (physical_code (physical_type (value_type (fs ! k)))) (nullable (fs ! k)) n (ps ! k) = Some (cols ! k)"
    and "length cols = length fs"
  shows "option_list (map2 (read_column (pre @ concat (map (with_header (int n)) ps) @ post)) (map leaf_of fs)
      (chunk_values (int n) fs (page_lengths ps) (int (length pre))))
    = Some (zip (map (\<lambda>f. utf8 (field_name f)) fs) cols)"
  using assms(2,3,4)
proof (induction fs ps arbitrary: cols pre rule: list_induct2)
  case (Cons f fs p ps)
  then obtain c cs where c: "cols = c # cs" by (cases cols) auto
  have all: "length ((p # ps) ! k) < 2 ^ 31 \<and>
       read_page (physical_code (physical_type (value_type ((f # fs) ! k)))) (nullable ((f # fs) ! k)) n ((p # ps) ! k)
         = Some (cols ! k)" if "k < Suc (length fs)" for k
    using Cons.prems(1) that by simp
  have here: "read_column (pre @ with_header (int n) p @ concat (map (with_header (int n)) ps) @ post) (leaf_of f)
      (chunk_value f (int n) (column_total (int n) (int (length p))) (int (length pre)))
    = Some (utf8 (field_name f), c)"
    using all [of 0] c by (intro read_column_page assms(1)) auto
  have "\<forall>k < length fs. length (ps ! k) < 2 ^ 31 \<and>
       read_page (physical_code (physical_type (value_type (fs ! k)))) (nullable (fs ! k)) n (ps ! k) = Some (cs ! k)"
    using all [of "Suc _"] c by simp
  from Cons.IH [OF this, of "pre @ with_header (int n) p"] here show ?case
    using Cons.prems(2) c length_with_header [of "int n" p] by simp
qed simp

section \<open>The footer\<close>

lemma read_footer_file:
  assumes "list_all2 field_reads fs vs" "length (enc_fields 0 fs) < 2 ^ 32"
  shows "read_footer ((PARQUET_MAGIC @ body) @ enc_fields 0 fs @ le_bytes 4 (length (enc_fields 0 fs)) @ PARQUET_MAGIC)
     = Some vs"
proof -
  let ?e = "enc_fields 0 fs"
  have magic: "PARQUET_MAGIC = [80, 65, 82, 49]" by (simp add: PARQUET_MAGIC_def)
  let ?file = "(PARQUET_MAGIC @ body) @ ?e @ le_bytes 4 (length ?e) @ PARQUET_MAGIC"
  let ?n = "length ?file"
  have n: "?n = 4 + length body + length ?e + 8" by simp
  have end4: "drop (?n - 4) ?file = PARQUET_MAGIC"
    unfolding n by (simp add: drop_append)
  have "take 4 (drop (?n - 8) ?file) = le_bytes 4 (length ?e)"
    unfolding n by (simp add: drop_append)
  then have size: "le_nat (take 4 (drop (?n - 8) ?file)) = length ?e"
    using assms(2) by (simp add: le_nat_le_bytes)
  have "take (length ?e) (drop (?n - 8 - length ?e) ?file) = ?e"
    unfolding n by (simp add: drop_append)
  moreover have "read_struct ?e = Some (vs, [])" using read_struct_enc [OF assms(1), of "[]"] by simp
  moreover have "take 4 ?file = PARQUET_MAGIC" by simp
  ultimately show ?thesis using end4 size unfolding read_footer_def Let_def n magic [symmetric] by simp
qed

lemma footer_reads:
  assumes els: "list_all2 (reads 12) els ev" and kvs: "list_all2 (reads 12) kvs kv"
    and ps: "\<forall>p \<in> set ps. 0 \<le> p" and n: "in_i64 n" "4 + columns_total n ps < 2 ^ 31"
  obtains group_rest rest where
    "list_all2 field_reads (footer_fields els kvs n [group_bytes n fs ps])
      ([(1, VInt 1), (2, VList 12 ev), (3, VInt n),
        (4, VList 12 [VStruct ((1, VList 12 (chunk_values n fs ps 4)) # group_rest)])] @ rest)"
proof -
  have "0 \<le> columns_total n ps" using ps by (rule columns_total_nonneg)
  then have t: "in_i64 (columns_total n ps)" using n(2) by auto
  have "list_all2 (reads (compact_code T_STRUCT)) (chunk_list n fs ps 4) (chunk_values n fs ps 4)"
    using chunk_list_reads [OF n(1) ps, of 4 fs] n(2) by simp
  then have "reads 9 (list_bytes T_STRUCT (chunk_list n fs ps 4)) (VList (compact_code T_STRUCT) (chunk_values n fs ps 4))"
    by (rule reads_list)
  then have g: "reads 12 (group_bytes n fs ps) (VStruct ((1, VList 12 (chunk_values n fs ps 4)) #
      [(2, VInt (columns_total n ps)), (3, VInt n), (5, VInt 4), (6, VInt (columns_total n ps)), (7, VInt 0)]))"
    unfolding group_bytes_def by (intro reads_struct) (simp add: group_fields_def reads_int t n(1))
  have l: "reads 9 (list_bytes T_STRUCT xs) (VList 12 vs)" if "list_all2 (reads 12) xs vs" for xs vs
    using reads_list [of T_STRUCT xs vs] that by simp
  show thesis
    by (rule that [of "[(2, VInt (columns_total n ps)), (3, VInt n), (5, VInt 4), (6, VInt (columns_total n ps)), (7, VInt 0)]"
          "[(5, VList 12 kv), (6, VBin (utf8 CREATED_BY))]"])
      (simp add: footer_fields_def reads_int reads_blob n(1) l els kvs g)
qed

section \<open>The rows are recovered\<close>

lemma columns_total_length: "\<forall>p \<in> set ps. 0 \<le> p \<Longrightarrow> int (length ps) \<le> columns_total n ps"
proof (induction ps)
  case (Cons p ps)
  have "1 \<le> length (page_header_bytes n p)" by (simp add: page_header_fields_def header_bytes_def)
  then have "1 \<le> column_total n p" using Cons.prems by (simp add: column_total_def)
  then show ?case using Cons by simp
qed simp

lemma option_list_map: "(\<And>x. x \<in> set xs \<Longrightarrow> f x = Some (g x)) \<Longrightarrow> option_list (map f xs) = Some (map g xs)"
  by (induction xs) auto

lemma pages_read:
  assumes rows: "\<forall>r \<in> set rows. typed_row fs r" and small: "length rows < 2 ^ 31" and k: "k < length fs"
  shows "read_page (physical_code (physical_type (value_type (fs ! k)))) (nullable (fs ! k)) (length rows)
     (pages rows 0 fs ! k) = Some (column rows k)"
proof -
  have ok: "cell_ok (fs ! k) v" if "v \<in> set (column rows k)" for v
    using that rows typed_row_nth [OF _ k] by (auto simp: column_def)
  have "read_page (physical_code (physical_type (value_type (fs ! k)))) (nullable (fs ! k)) (length (column rows k))
     (page_bytes (value_type (fs ! k)) (nullable (fs ! k)) (column rows k)) = Some (column rows k)"
    using ok small by (intro read_page_bytes) (fastforce simp: cell_ok_def column_def)+
  then show ?thesis using k by (simp add: nth_pages column_def)
qed

lemma read_file_of:
  assumes names: "encodable_names (schema_fields s)" and parts: "schema_parts s = Inr parts"
    and rows: "\<forall>r \<in> set rows. typed_row (schema_fields s) r" and small: "length rows < 2 ^ 31"
    and size: "length (file_of parts rows (schema_fields s)) < 2 ^ 31"
  shows "read_parquet (file_of parts rows (schema_fields s)) =
     Some (zip (map (\<lambda>f. utf8 (field_name f)) (schema_fields s))
               (map (column rows) [0..<length (schema_fields s)]))"
proof -
  let ?fs = "schema_fields s" and ?n = "int (length rows)"
  let ?ps = "pages rows 0 ?fs" and ?ls = "page_lengths (pages rows 0 ?fs)"
  obtain els kvs where p: "parts = (els, kvs)" by (cases parts)
  have tot: "4 + columns_total ?n ?ls < 2 ^ 31" and foot: "length (footer_of parts rows ?fs) < 2 ^ 31"
    using size length_concat_with_header [of ?n ?ps] by (auto simp: file_of_def)
  have "int (length ?ls) \<le> columns_total ?n ?ls" by (rule columns_total_length) simp
  then have cols: "in_i64 (int (length ?fs))" using tot by simp
  obtain root kv where ev: "list_all2 (reads 12) els (root # map leaf_value ?fs)" "list_all2 (reads 12) kvs kv"
    using schema_parts_reads [OF names parts [unfolded p] cols] by blast
  have ls: "\<forall>q \<in> set ?ls. 0 \<le> q" and n64: "in_i64 ?n" using small by auto
  obtain gr rest where fr: "list_all2 field_reads (footer_fields els kvs ?n [group_bytes ?n ?fs ?ls])
      ([(1, VInt 1), (2, VList 12 (root # map leaf_value ?fs)), (3, VInt ?n),
        (4, VList 12 [VStruct ((1, VList 12 (chunk_values ?n ?fs ?ls 4)) # gr)])] @ rest)"
    using footer_reads [OF ev ls n64 tot] by blast
  let ?file = "file_of parts rows ?fs"
  have eq: "?file = PARQUET_MAGIC @ concat (map (with_header ?n) ?ps) @
      (footer_of parts rows ?fs @ le_bytes 4 (length (footer_of parts rows ?fs)) @ PARQUET_MAGIC)"
    by (simp add: file_of_def)
  have footer: "read_footer ?file = Some ([(1, VInt 1), (2, VList 12 (root # map leaf_value ?fs)), (3, VInt ?n),
        (4, VList 12 [VStruct ((1, VList 12 (chunk_values ?n ?fs ?ls 4)) # gr)])] @ rest)"
    using read_footer_file [OF fr] foot unfolding file_of_def footer_of_def footer_bytes_def p by simp
  have len: "length q < 2 ^ 31" if "q \<in> set ?ps" for q
  proof -
    have "length q \<le> length (concat (map (with_header ?n) ?ps))"
      using that split_list [of q ?ps] by (auto simp: with_header_def)
    then show ?thesis using size by (simp add: file_of_def)
  qed
  have "option_list (map2 (read_column ?file) (map leaf_of ?fs) (chunk_values ?n ?fs ?ls (int (length PARQUET_MAGIC))))
      = Some (zip (map (\<lambda>f. utf8 (field_name f)) ?fs) (map (column rows) [0..<length ?fs]))"
    unfolding eq using pages_read [OF rows small] len small by (intro read_columns) auto
  moreover have "length (chunk_values n fs ls off) = length fs" if "length fs = length ls" for n fs ls off
    using that by (induction fs ls arbitrary: off rule: list_induct2) auto
  ultimately have "read_group ?file (map leaf_of ?fs) (VStruct ((1, VList 12 (chunk_values ?n ?fs ?ls 4)) # gr))
      = Some (zip (map (\<lambda>f. utf8 (field_name f)) ?fs) (map (column rows) [0..<length ?fs]))"
    by (simp add: read_group_def)
  moreover have "option_list (map read_leaf (map leaf_value ?fs)) = Some (map leaf_of ?fs)"
    unfolding map_map by (intro option_list_map) (simp add: read_leaf_value)
  ultimately show ?thesis unfolding read_parquet_def footer by simp
qed

section \<open>Properties\<close>

text \<open>
  C24. Every batch of rows that the budget accepts is written to a file from which a reader of
  the Parquet format recovers exactly those rows: for every field its name and the column of
  its values, nulls included, in row order.
\<close>
theorem parquet_roundtrip:
  assumes "valid_schema s" and "ExportLimits_post_init l = Inr ()"
    and "rows \<noteq> []" and "\<forall>r \<in> set rows. typed_row (schema_fields s) r"
    and "budget_init py s l = Inr b0" and "add_all py rows b0 = Inr b"
  shows "\<exists>out. build_parquet_bytes py rows s l = Inr out \<and>
     read_parquet out =
       Some (zip (map (\<lambda>f. utf8 (field_name f)) (schema_fields s))
                 (map (\<lambda>i. map (\<lambda>r. r ! i) rows) [0..<length (schema_fields s)]))"
proof -
  obtain parts where parts: "schema_parts s = Inr parts" using schema_parts_total [OF assms(1)] .
  note built = accepted_rows_build [OF assms(1) parts assms(2-6)]
  have "length (file_of parts rows (schema_fields s)) < 2 ^ 31" "length rows < 2 ^ 31"
    using built(2-4) ExportLimits_bounds [OF assms(2)] by auto
  then show ?thesis
    using built(1) read_file_of [OF valid_schema_encodable(1) [OF assms(1)] parts assms(4)]
    by (simp add: column_def [abs_def])
qed

theorem parquet_roundtrip_witness:
  "\<exists>out. build_parquet_bytes demo_cpython demo_rows demo_schema default_ExportLimits = Inr out \<and>
     read_parquet out =
       Some [(lit ''name'', [Some (PBytes (lit ''milk'')), None]),
             (lit ''count'', [Some (PInt 3), Some (PInt (- 7))])]"
proof -
  obtain b0 b where "budget_init demo_cpython demo_schema default_ExportLimits = Inr b0"
    "add_all demo_cpython demo_rows b0 = Inr b" by (rule demo_accepted)
  from parquet_roundtrip [OF demo_valid demo_typed(2,1) this] show ?thesis
    by (simp add: demo_schema_def demo_rows_def utf8_def)
qed

end
