(* ===== verification/Domain_Models.thy ===== *)
theory Domain_Models
  imports Py_Values Complex_Main
begin

text \<open>
  The immutable records of \<^verbatim>\<open>domain/models.py\<close> with the checks of their constructors. Field names
  carry a short prefix where the same name occurs in several records (a record's field is a
  global constant here). A UUID is a natural number. \<^verbatim>\<open>RemoteFile\<close> is the record only: its URL
  check rests on \<^verbatim>\<open>urllib.parse\<close> and on the Unicode database.
\<close>

section \<open>Shared checks\<close>

definition err :: "exn_class \<Rightarrow> exn + 'a" where
  "err c = Inl (exn_of c)"

text \<open>The numerical value of a finite decimal.\<close>

fun dec_value :: "decimal \<Rightarrow> rat" where
  "dec_value (Dec sign coeff e) = (if sign then - 1 else 1) * of_nat coeff * (if e \<ge> 0 then 10 ^ nat e else 1 / 10 ^ nat (- e))"
| "dec_value _ = 0"

definition MAXIMUM_PLAUSIBLE_QUANTITY :: rat where
  "MAXIMUM_PLAUSIBLE_QUANTITY = 1000000"

definition MAXIMUM_STORED_MONEY :: rat where
  "MAXIMUM_STORED_MONEY = 99999999999999 / 10000"

definition ensure_aware :: "datetime \<Rightarrow> exn + unit" where
  "ensure_aware value = (if \<not> is_aware value then err DomainValidationError else Inr ())"

definition ensure_text_length :: "ustr option \<Rightarrow> nat \<Rightarrow> bool \<Rightarrow> exn + unit" where
  "ensure_text_length value maximum required =
     (if required \<and> (value = None \<or> value = Some []) then err DomainValidationError
      else case value of
        Some s \<Rightarrow> if length s > maximum then err DomainValidationError else Inr ()
      | None \<Rightarrow> Inr ())"

definition ensure_decimal_range :: "decimal option \<Rightarrow> rat \<Rightarrow> exn + unit" where
  "ensure_decimal_range value maximum =
     (case value of
        None \<Rightarrow> Inr ()
      | Some d \<Rightarrow> if \<not> dec_finite d \<or> dec_value d < 0 \<or> dec_value d > maximum
                 then err DomainValidationError else Inr ())"

text \<open>The checks of a constructor in order: the first that raises ends it.\<close>

fun checks :: "(exn + unit) list \<Rightarrow> exn + unit" where
  "checks [] = Inr ()"
| "checks (c # cs) = rbind c (\<lambda>_. checks cs)"

fun ensure_optional :: "('a \<Rightarrow> exn + unit) \<Rightarrow> 'a option \<Rightarrow> exn + unit" where
  "ensure_optional f None = Inr ()"
| "ensure_optional f (Some x) = f x"

section \<open>Records\<close>

record RemoteFile =
  rf_retailer_id :: ustr
  rf_portal_id :: ustr
  rf_protocol :: SourceProtocol
  rf_remote_id :: ustr
  rf_download_url :: ustr
  rf_original_filename :: ustr
  rf_document_type :: DocumentType
  rf_compression :: CompressionFormat
  rf_discovered_at :: datetime
  rf_source_timestamp :: "datetime option"
  rf_content_length :: "int option"
  rf_media_type :: "ustr option"
  rf_etag :: "ustr option"
  rf_last_modified :: "datetime option"
  rf_response_metadata :: "(ustr \<times> ustr) list"

record ArchiveReceipt =
  ar_content_sha256 :: ustr
  ar_object_key :: ustr
  ar_content_length :: int
  ar_archived_at :: datetime
  ar_created :: bool

definition lower_hex :: "nat \<Rightarrow> bool" where
  "lower_hex c \<longleftrightarrow> c \<in> set (lit ''0123456789abcdef'')"

definition ArchiveReceipt_post_init :: "ArchiveReceipt \<Rightarrow> exn + unit" where
  "ArchiveReceipt_post_init a =
     (if length (ar_content_sha256 a) \<noteq> 64 \<or> \<not> list_all lower_hex (ar_content_sha256 a)
      then err DomainValidationError
      else if ar_content_length a < 0 then err DomainValidationError
      else ensure_aware (ar_archived_at a))"

record DocumentMetadata =
  dm_source_file_id :: nat
  dm_document_type :: DocumentType
  dm_chain_id :: "ustr option"
  dm_subchain_id :: "ustr option"
  dm_store_id :: "ustr option"
  dm_audit_number :: "ustr option"
  dm_source_updated_at :: "datetime option"

definition DocumentMetadata_post_init :: "DocumentMetadata \<Rightarrow> exn + unit" where
  "DocumentMetadata_post_init d = checks
     [ensure_text_length (dm_chain_id d) 128 False, ensure_text_length (dm_subchain_id d) 128 False,
      ensure_text_length (dm_store_id d) 128 False, ensure_text_length (dm_audit_number d) 128 False,
      ensure_optional ensure_aware (dm_source_updated_at d)]"

record StoreRecord =
  sr_source_file_id :: nat
  sr_record_index :: int
  sr_chain_id :: ustr
  sr_subchain_id :: ustr
  sr_store_id :: ustr
  sr_audit_number :: "ustr option"
  sr_store_type :: "ustr option"
  sr_chain_name :: "ustr option"
  sr_subchain_name :: "ustr option"
  sr_store_name :: ustr
  sr_address :: "ustr option"
  sr_city :: "ustr option"
  sr_postal_code :: "ustr option"

definition StoreRecord_post_init :: "StoreRecord \<Rightarrow> exn + unit" where
  "StoreRecord_post_init r = checks
     [ensure_text_length (Some (sr_chain_id r)) 128 True, ensure_text_length (Some (sr_subchain_id r)) 128 False,
      ensure_text_length (Some (sr_store_id r)) 128 True, ensure_text_length (sr_audit_number r) 128 False,
      ensure_text_length (sr_store_type r) 128 False, ensure_text_length (Some (sr_store_name r)) 1024 True,
      ensure_text_length (sr_postal_code r) 32 False]"

record PriceRecord =
  pr_source_file_id :: nat
  pr_record_index :: int
  pr_chain_id :: ustr
  pr_subchain_id :: ustr
  pr_store_id :: ustr
  pr_item_code :: ustr
  pr_item_type :: "int option"
  pr_item_name :: ustr
  pr_manufacturer_name :: "ustr option"
  pr_manufacturer_country :: "ustr option"
  pr_manufacturer_description :: "ustr option"
  pr_unit_quantity :: "ustr option"
  pr_quantity :: "decimal option"
  pr_unit_of_measure :: "ustr option"
  pr_is_weighted :: "bool option"
  pr_quantity_in_package :: "decimal option"
  pr_item_price :: decimal
  pr_unit_of_measure_price :: "decimal option"
  pr_allow_discount :: "bool option"
  pr_item_status :: "int option"
  pr_price_updated_at :: "datetime option"
  pr_last_sale_at :: "datetime option"
  pr_audit_number :: "ustr option"

definition PriceRecord_post_init :: "PriceRecord \<Rightarrow> exn + unit" where
  "PriceRecord_post_init r = checks
     [ensure_text_length (Some (pr_chain_id r)) 128 True, ensure_text_length (Some (pr_subchain_id r)) 128 False,
      ensure_text_length (Some (pr_store_id r)) 128 True, ensure_text_length (Some (pr_item_code r)) 128 True,
      ensure_text_length (Some (pr_item_name r)) 2048 True, ensure_text_length (pr_unit_of_measure r) 64 False,
      ensure_text_length (pr_audit_number r) 128 False,
      ensure_decimal_range (pr_quantity r) MAXIMUM_PLAUSIBLE_QUANTITY,
      ensure_decimal_range (pr_quantity_in_package r) MAXIMUM_PLAUSIBLE_QUANTITY,
      ensure_decimal_range (Some (pr_item_price r)) MAXIMUM_STORED_MONEY,
      ensure_decimal_range (pr_unit_of_measure_price r) MAXIMUM_STORED_MONEY,
      ensure_optional ensure_aware (pr_price_updated_at r),
      ensure_optional ensure_aware (pr_last_sale_at r)]"

record PromotionItem =
  pi_item_code :: ustr
  pi_item_type :: "int option"
  pi_is_gift :: bool

definition PromotionItem_post_init :: "PromotionItem \<Rightarrow> exn + unit" where
  "PromotionItem_post_init i = ensure_text_length (Some (pi_item_code i)) 128 True"

record PromotionRecord =
  pm_source_file_id :: nat
  pm_record_index :: int
  pm_chain_id :: ustr
  pm_subchain_id :: ustr
  pm_source_store_id :: "ustr option"
  pm_promotion_id :: ustr
  pm_description :: "ustr option"
  pm_discount_kind :: DiscountKind
  pm_starts_at :: "datetime option"
  pm_ends_at :: "datetime option"
  pm_items :: "PromotionItem list"
  pm_store_ids :: "ustr list"
  pm_club_ids :: "ustr list"
  pm_reward_type :: "int option"
  pm_allows_multiple_discounts :: "bool option"
  pm_minimum_quantity :: "decimal option"
  pm_maximum_quantity :: "decimal option"
  pm_discount_rate :: "decimal option"
  pm_minimum_purchase :: "decimal option"
  pm_discounted_price :: "decimal option"
  pm_discounted_unit_price :: "decimal option"
  pm_minimum_items_offered :: "int option"
  pm_additional_restrictions :: "ustr option"
  pm_remarks :: "ustr option"
  pm_is_active :: "bool option"

definition PromotionRecord_post_init :: "PromotionRecord \<Rightarrow> exn + unit" where
  "PromotionRecord_post_init r = checks (
     [ensure_text_length (Some (pm_chain_id r)) 128 True, ensure_text_length (Some (pm_subchain_id r)) 128 False,
      ensure_text_length (pm_source_store_id r) 128 False, ensure_text_length (Some (pm_promotion_id r)) 256 True] @
     map (\<lambda>s. ensure_text_length (Some s) 128 True) (pm_store_ids r) @
     map (\<lambda>s. ensure_text_length (Some s) 128 True) (pm_club_ids r) @
     [ensure_optional ensure_aware (pm_starts_at r), ensure_optional ensure_aware (pm_ends_at r),
      (case (pm_starts_at r, pm_ends_at r) of
         (Some a, Some b) \<Rightarrow> if \<not> instant_le a b then err DomainValidationError else Inr ()
       | _ \<Rightarrow> Inr ()),
      ensure_decimal_range (pm_minimum_quantity r) MAXIMUM_PLAUSIBLE_QUANTITY,
      ensure_decimal_range (pm_maximum_quantity r) MAXIMUM_PLAUSIBLE_QUANTITY,
      (case (pm_minimum_quantity r, pm_maximum_quantity r) of
         (Some a, Some b) \<Rightarrow> if dec_value b < dec_value a then err DomainValidationError else Inr ()
       | _ \<Rightarrow> Inr ()),
      ensure_decimal_range (pm_discount_rate r) 100,
      ensure_decimal_range (pm_minimum_purchase r) MAXIMUM_STORED_MONEY,
      ensure_decimal_range (pm_discounted_price r) MAXIMUM_STORED_MONEY,
      ensure_decimal_range (pm_discounted_unit_price r) MAXIMUM_STORED_MONEY,
      (case pm_minimum_items_offered r of
         Some n \<Rightarrow> if \<not> (0 \<le> n \<and> n \<le> 1000000) then err DomainValidationError else Inr ()
       | None \<Rightarrow> Inr ())])"

definition effective_promotion_store_ids :: "PromotionRecord \<Rightarrow> ustr list" where
  "effective_promotion_store_ids event =
     (let scoped_store_ids = (case pm_source_store_id event of
            Some s \<Rightarrow> if s \<noteq> [] then [s] else [] | None \<Rightarrow> [])
      in dict_fromkeys (pm_store_ids event @ scoped_store_ids))"

record ValidationIssue =
  vi_source_file_id :: nat
  vi_severity :: IssueCategory
  vi_code :: ustr
  vi_message :: ustr
  vi_record_index :: "int option"
  vi_field_name :: "ustr option"
  vi_rejected_value :: "ustr option"

datatype ParsedEvent =
    EMetadata DocumentMetadata | EStore StoreRecord | EPrice PriceRecord
  | EPromotion PromotionRecord | EIssue ValidationIssue

section \<open>What the checks establish\<close>

lemma checks_Inr: "checks cs = Inr () \<longleftrightarrow> (\<forall>c \<in> set cs. c = Inr ())"
  by (induction cs) (auto simp: rbind_Inr_iff)

lemma err_Inr [simp]: "err c \<noteq> Inr x"
  by (simp add: err_def)

lemma ensure_text_length_Inr:
  "ensure_text_length v n req = Inr () \<longleftrightarrow>
     (req \<longrightarrow> v \<noteq> None \<and> v \<noteq> Some []) \<and> opt_all (\<lambda>s. length s \<le> n) v"
  by (auto simp: ensure_text_length_def split: option.splits if_splits)

lemma ensure_decimal_range_Inr:
  "ensure_decimal_range v m = Inr () \<longleftrightarrow>
     opt_all (\<lambda>d. dec_finite d \<and> 0 \<le> dec_value d \<and> dec_value d \<le> m) v"
  by (auto simp: ensure_decimal_range_def split: option.splits)

lemma ensure_aware_Inr: "ensure_aware d = Inr () \<longleftrightarrow> is_aware d"
  by (simp add: ensure_aware_def)

text \<open>A constructor raises only the domain validation error.\<close>

definition domain_check :: "exn + unit \<Rightarrow> bool" where
  "domain_check c \<longleftrightarrow> c = Inr () \<or> c = Inl (exn_of DomainValidationError)"

lemma domain_check_checks: "(\<And>c. c \<in> set cs \<Longrightarrow> domain_check c) \<Longrightarrow> domain_check (checks cs)"
proof (induction cs)
  case (Cons c cs)
  then have "domain_check c" "domain_check (checks cs)" by auto
  then show ?case by (auto simp: domain_check_def)
qed (simp add: domain_check_def)

lemma domain_checks [simp]:
  "domain_check (ensure_text_length v n req)" "domain_check (ensure_decimal_range dv m)"
  "domain_check (ensure_aware d)" "domain_check (ensure_optional ensure_aware od)"
  by (auto simp: domain_check_def ensure_text_length_def ensure_decimal_range_def ensure_aware_def err_def
      split: option.splits if_splits) (cases od; auto simp: ensure_aware_def err_def split: if_splits)

section \<open>Properties\<close>

text \<open>
  A price record that was constructed carries a finite, non-negative price and quantities
  within the storable range, and non-empty identifiers; a price outside the range, infinite
  or not a number, is refused with a domain validation error and no other exception.
\<close>
theorem price_record_admissible:
  "(PriceRecord_post_init r = Inr () \<longrightarrow>
      dec_finite (pr_item_price r) \<and> 0 \<le> dec_value (pr_item_price r) \<and>
      dec_value (pr_item_price r) \<le> 99999999999999 / 10000 \<and>
      opt_all (\<lambda>q. dec_finite q \<and> 0 \<le> dec_value q \<and> dec_value q \<le> 1000000) (pr_quantity r) \<and>
      pr_chain_id r \<noteq> [] \<and> pr_store_id r \<noteq> [] \<and> pr_item_code r \<noteq> [] \<and> pr_item_name r \<noteq> []) \<and>
   (PriceRecord_post_init r = Inr () \<or> PriceRecord_post_init r = Inl (exn_of DomainValidationError))"
proof -
  have "domain_check (PriceRecord_post_init r)"
    unfolding PriceRecord_post_init_def by (rule domain_check_checks) auto
  then show ?thesis
    by (auto simp: domain_check_def PriceRecord_post_init_def checks_Inr ensure_text_length_Inr
        ensure_decimal_range_Inr MAXIMUM_STORED_MONEY_def MAXIMUM_PLAUSIBLE_QUANTITY_def simp del: checks.simps)
qed

definition demo_price :: PriceRecord where
  "demo_price = \<lparr>pr_source_file_id = 1, pr_record_index = 0, pr_chain_id = lit ''729'', pr_subchain_id = [],
     pr_store_id = lit ''5'', pr_item_code = lit ''72900'', pr_item_type = None, pr_item_name = lit ''milk'',
     pr_manufacturer_name = None, pr_manufacturer_country = None, pr_manufacturer_description = None,
     pr_unit_quantity = None, pr_quantity = Some (Dec False 1 0), pr_unit_of_measure = None,
     pr_is_weighted = None, pr_quantity_in_package = None, pr_item_price = Dec False 590 (- 2),
     pr_unit_of_measure_price = None, pr_allow_discount = None, pr_item_status = None,
     pr_price_updated_at = None, pr_last_sale_at = None, pr_audit_number = None\<rparr>"

theorem price_record_admissible_witness:
  "PriceRecord_post_init demo_price = Inr () \<and> dec_finite (pr_item_price demo_price) \<and>
   0 \<le> dec_value (pr_item_price demo_price)"
proof -
  have "PriceRecord_post_init demo_price = Inr ()"
    by (simp add: PriceRecord_post_init_def demo_price_def ensure_text_length_def ensure_decimal_range_def
        MAXIMUM_STORED_MONEY_def MAXIMUM_PLAUSIBLE_QUANTITY_def)
  then show ?thesis using price_record_admissible [of demo_price] by simp
qed

text \<open>
  The store relationships persisted for a promotion are the listed stores and the store
  the record came from, when it names one, each exactly once.
\<close>
theorem effective_promotion_stores:
  "distinct (effective_promotion_store_ids e) \<and>
   set (effective_promotion_store_ids e) =
     set (pm_store_ids e) \<union> {s. pm_source_store_id e = Some s \<and> s \<noteq> []}"
  by (auto simp: effective_promotion_store_ids_def Let_def split: option.splits)

end
