(* ===== verification/Application_Models.thy ===== *)
theory Application_Models
  imports Domain_Models "HOL-Library.List_Lexorder"
begin

text \<open>
  The command and result values of \<^verbatim>\<open>application/models.py\<close> with the checks of their
  constructors, and the cumulative discovery budget. Times of \<^verbatim>\<open>time.monotonic()\<close> are exact
  rationals, read at the call (\<open>now\<close>). A Python \<^verbatim>\<open>str\<close> compares by code points, which is the
  lexicographic order of \<open>ustr\<close>.
\<close>

section \<open>Evidence charges\<close>

definition validation_issue_charge :: "ValidationIssue \<Rightarrow> exn + int" where
  "validation_issue_charge issue =
     rbind (utf8_encode (vi_code issue)) (\<lambda>a.
     rbind (utf8_encode (vi_message issue)) (\<lambda>b.
     rbind (case vi_field_name issue of None \<Rightarrow> Inr [] | Some s \<Rightarrow> utf8_encode s) (\<lambda>c.
     rbind (case vi_rejected_value issue of None \<Rightarrow> Inr [] | Some s \<Rightarrow> utf8_encode s) (\<lambda>d.
       Inr (64 + int (length a) + int (length b) + int (length c) + int (length d))))))"

section \<open>Discovery\<close>

record DiscoveryPage =
  dp_files :: "RemoteFile list"
  dp_next_cursor :: "ustr option option"  \<comment> \<open>no cursor, or a cursor with its optional value\<close>
  dp_complete :: bool

record DiscoveryRunBudget =
  maximum_requests :: int
  maximum_bytes :: int
  maximum_elapsed_seconds :: rat
  request_count :: int
  consumed_bytes :: int
  started_at :: rat

definition DiscoveryRunBudget_init :: "int \<Rightarrow> int \<Rightarrow> rat \<Rightarrow> rat \<Rightarrow> exn + DiscoveryRunBudget" where
  "DiscoveryRunBudget_init requests nbytes elapsed now =
     (if \<not> (1 \<le> requests \<and> requests \<le> 1000000) then err ValueError
      else if \<not> (1 \<le> nbytes \<and> nbytes \<le> 1024 * 1024 * 1024) then err ValueError
      else if \<not> (0 < elapsed \<and> elapsed \<le> 86400) then err ValueError
      else Inr \<lparr>maximum_requests = requests, maximum_bytes = nbytes, maximum_elapsed_seconds = elapsed,
                request_count = 0, consumed_bytes = 0, started_at = now\<rparr>)"

definition remaining_bytes :: "DiscoveryRunBudget \<Rightarrow> int" where
  "remaining_bytes b = maximum_bytes b - consumed_bytes b"

definition remaining_elapsed_seconds :: "rat \<Rightarrow> DiscoveryRunBudget \<Rightarrow> rat" where
  "remaining_elapsed_seconds now b = max 0 (maximum_elapsed_seconds b - (now - started_at b))"

definition elapsed_exhausted :: "rat \<Rightarrow> DiscoveryRunBudget \<Rightarrow> bool" where
  "elapsed_exhausted now b \<longleftrightarrow> remaining_elapsed_seconds now b \<le> 0"

definition budget_exceeded :: "string \<Rightarrow> exn + 'a" where
  "budget_exceeded why = rbind (DiscoveryBudgetExceededError_init why) Inl"

definition listing_checkpoint :: "rat \<Rightarrow> DiscoveryRunBudget \<Rightarrow> exn + unit" where
  "listing_checkpoint now b =
     (if elapsed_exhausted now b then budget_exceeded ''listing_elapsed_limit'' else Inr ())"

definition begin_request :: "rat \<Rightarrow> int \<Rightarrow> DiscoveryRunBudget \<Rightarrow> exn + DiscoveryRunBudget" where
  "begin_request now minimum_bytes b =
     (if minimum_bytes < 0 then err ValueError
      else rbind (listing_checkpoint now b) (\<lambda>_.
        if request_count b \<ge> maximum_requests b then budget_exceeded ''listing_request_limit''
        else if minimum_bytes > remaining_bytes b \<or> remaining_bytes b \<le> 0
        then budget_exceeded ''listing_byte_limit''
        else Inr (b\<lparr>request_count := request_count b + 1\<rparr>)))"

definition consume_bytes :: "rat \<Rightarrow> int \<Rightarrow> DiscoveryRunBudget \<Rightarrow> exn + DiscoveryRunBudget" where
  "consume_bytes now byte_count b =
     (if byte_count < 0 then err ValueError
      else rbind (listing_checkpoint now b) (\<lambda>_.
        if byte_count > remaining_bytes b then budget_exceeded ''listing_byte_limit''
        else Inr (b\<lparr>consumed_bytes := consumed_bytes b + byte_count\<rparr>)))"

datatype listing_op = BeginRequest rat int | ConsumeBytes rat int

fun listing_step :: "listing_op \<Rightarrow> DiscoveryRunBudget \<Rightarrow> exn + DiscoveryRunBudget" where
  "listing_step (BeginRequest now n) b = begin_request now n b"
| "listing_step (ConsumeBytes now n) b = consume_bytes now n b"

definition listing_within :: "DiscoveryRunBudget \<Rightarrow> bool" where
  "listing_within b \<longleftrightarrow>
     0 \<le> request_count b \<and> request_count b \<le> maximum_requests b \<and> maximum_requests b \<le> 1000000 \<and>
     0 \<le> consumed_bytes b \<and> consumed_bytes b \<le> maximum_bytes b \<and> maximum_bytes b \<le> 1024 * 1024 * 1024"

lemma budget_exceeded_Inr [simp]: "budget_exceeded why \<noteq> Inr x"
  by (auto simp: budget_exceeded_def DiscoveryBudgetExceededError_init_def)

lemma listing_checkpoint_cases:
  "listing_checkpoint now b = Inr () \<or>
   listing_checkpoint now b =
     Inl ((exn_of DiscoveryBudgetExceededError)\<lparr>reason := Some ''listing_elapsed_limit''\<rparr>)"
  by (simp add: listing_checkpoint_def budget_exceeded_def DiscoveryBudgetExceededError_init_def)

lemma listing_step_within: "listing_within b \<Longrightarrow> listing_step x b = Inr b' \<Longrightarrow> listing_within b'"
  by (cases x)
    (auto simp: listing_within_def begin_request_def consume_bytes_def rbind_Inr_iff remaining_bytes_def
      split: if_splits)

interpretation listing_budget: guarded_ops listing_step listing_within
  by unfold_locales (rule listing_step_within)

text \<open>What one operation stands for; the counters read what was accepted.\<close>

fun listing_requests :: "listing_op \<Rightarrow> int" where
  "listing_requests (BeginRequest now n) = 1"
| "listing_requests (ConsumeBytes now n) = 0"

fun listing_bytes :: "listing_op \<Rightarrow> int" where
  "listing_bytes (BeginRequest now n) = 0"
| "listing_bytes (ConsumeBytes now n) = n"

fun listing_time :: "listing_op \<Rightarrow> rat" where
  "listing_time (BeginRequest now n) = now"
| "listing_time (ConsumeBytes now n) = now"

lemma listing_checkpoint_Inr: "listing_checkpoint now b = Inr () \<longleftrightarrow> now < started_at b + maximum_elapsed_seconds b"
  by (auto simp: listing_checkpoint_def elapsed_exhausted_def remaining_elapsed_seconds_def)

lemmas listing_ops = begin_request_def consume_bytes_def rbind_Inr_iff listing_checkpoint_Inr remaining_bytes_def

interpretation requests_meter: metered_ops listing_step request_count "\<lambda>x n. n + listing_requests x"
  by unfold_locales (case_tac x; auto simp: listing_ops split: if_splits)

interpretation bytes_meter: metered_ops listing_step consumed_bytes "\<lambda>x n. n + listing_bytes x"
  by unfold_locales (case_tac x; auto simp: listing_ops split: if_splits)

definition listing_limits :: "DiscoveryRunBudget \<Rightarrow> int \<times> int \<times> rat" where
  "listing_limits b = (maximum_requests b, maximum_bytes b, started_at b + maximum_elapsed_seconds b)"

lemma listing_step_limits: "listing_step x b = Inr b' \<Longrightarrow> listing_limits b' = listing_limits b"
  by (cases x) (auto simp: listing_limits_def listing_ops split: if_splits)

lemma listing_step_in_time: "listing_step x b = Inr b' \<Longrightarrow> listing_time x < snd (snd (listing_limits b))"
  by (cases x) (auto simp: listing_limits_def listing_ops split: if_splits)

interpretation fixed_limits: guarded_ops listing_step "\<lambda>b. listing_limits b = l" for l
  by unfold_locales (simp add: listing_step_limits)

lemma listing_accepted:
  "(\<exists>b'. begin_request now n b = Inr b') \<longleftrightarrow> now < started_at b + maximum_elapsed_seconds b \<and> 0 \<le> n \<and> request_count b < maximum_requests b \<and>
     consumed_bytes b + n \<le> maximum_bytes b \<and> consumed_bytes b < maximum_bytes b"
  "(\<exists>b'. consume_bytes now n b = Inr b') \<longleftrightarrow> now < started_at b + maximum_elapsed_seconds b \<and> 0 \<le> n \<and> consumed_bytes b + n \<le> maximum_bytes b"
  by (auto simp: listing_ops)

section \<open>Collection values\<close>

record CollectionScope =
  cs_source_id :: ustr
  cs_portal_ids :: "ustr list"
  cs_operation :: string
  cs_since :: "datetime option"
  cs_until :: "datetime option"
  cs_archive_only :: bool

definition CollectionScope_post_init :: "CollectionScope \<Rightarrow> exn + unit" where
  "CollectionScope_post_init s =
     (if cs_source_id s = [] \<or> length (cs_source_id s) > 128 then err ValueError
      else if cs_portal_ids s = [] \<or> sort (remdups (cs_portal_ids s)) \<noteq> cs_portal_ids s
           \<or> list_ex (\<lambda>p. p = [] \<or> length p > 256) (cs_portal_ids s) then err ValueError
      else if cs_operation s \<notin> {''ordinary'', ''backfill''} then err ValueError
      else if (cs_since s = None) \<noteq> (cs_until s = None) then err ValueError
      else if \<not> opt_all is_aware (cs_since s) then err ValueError
      else if \<not> opt_all is_aware (cs_until s) then err ValueError
      else if (case (cs_since s, cs_until s) of (Some a, Some b) \<Rightarrow> \<not> instant_le a b | _ \<Rightarrow> False)
      then err ValueError
      else if cs_operation s = ''ordinary''
           \<and> (cs_since s \<noteq> None \<or> cs_until s \<noteq> None \<or> cs_archive_only s) then err ValueError
      else Inr ())"

record CollectionAttempt =
  attempt_id :: nat
  ca_checkpoint_id :: nat
  ca_generation :: int
  ca_cursor :: "ustr option"
  ca_page_offset :: nat
  ca_recognized_count :: int
  ca_unknown_count :: int
  ca_retry_boundary :: bool

record CollectionChargeBudget =
  run_charged_bytes :: int
  day_charged_bytes :: int
  day_source_identities :: int
  day_transfer_attempts :: int
  day_successes :: int

definition CollectionChargeBudget_init :: "int \<Rightarrow> int \<Rightarrow> int \<Rightarrow> int \<Rightarrow> int \<Rightarrow> exn + CollectionChargeBudget" where
  "CollectionChargeBudget_init run day identities attempts successes =
     (if Min {run, day, identities, attempts, successes} < 0 then err ValueError
      else Inr \<lparr>run_charged_bytes = run, day_charged_bytes = day, day_source_identities = identities,
                day_transfer_attempts = attempts, day_successes = successes\<rparr>)"

section \<open>Ingestion values\<close>

record RegisteredSourceFile =
  rs_source_file_id :: nat
  rs_remote_file :: RemoteFile
  rs_status :: IngestionStatus
  rs_already_registered :: bool
  rs_completed_content_sha256 :: "ustr option"
  rs_archive_object_key :: "ustr option"
  rs_content_sha256 :: "ustr option"
  rs_archive_content_length :: "int option"

record StageSummary =
  metadata_records :: int
  store_records :: int
  price_records :: int
  promotion_records :: int
  warnings :: int
  rejected_records :: int
  file_quarantines :: int
  validation_issue_bytes :: int
  sampled_validation_issues :: int

definition accepted_records :: "StageSummary \<Rightarrow> int" where
  "accepted_records s = store_records s + price_records s + promotion_records s"

record ApplySummary =
  inserted :: int
  updated :: int
  unchanged :: int
  unavailable :: int
  history_events :: int

record IngestionResult =
  ir_source_file_id :: nat
  ir_status :: IngestionStatus
  ir_content_sha256 :: "ustr option"
  ir_stage :: "StageSummary option"
  ir_apply :: "ApplySummary option"
  ir_duplicate :: bool
  ir_replayed :: bool
  ir_transferred_bytes :: int

definition IngestionResult_post_init :: "IngestionResult \<Rightarrow> exn + IngestionResult" where
  "IngestionResult_post_init r = (if ir_transferred_bytes r < 0 then err ValueError else Inr r)"

section \<open>Properties\<close>

text \<open>
  C35. One collection run stays within its discovery budget: whatever requests and byte charges
  the source adapter makes, the requests that are accepted are at most the configured number, their bytes
  together at most the configured sum, and none is accepted at or after the time limit. Nothing else is refused: the next request is accepted exactly when it is in
  time and there is a request and its minimum of bytes, and at least one byte, left; and bytes exactly when they are in time and left.
\<close>
theorem discovery_budget_never_exceeded:
  assumes init: "DiscoveryRunBudget_init requests nbytes elapsed started = Inr b0"
    and acc: "acc = accepted_ops listing_step b0 ops" and b: "b = run_ops listing_step b0 ops"
  shows "sum_list (map listing_requests acc) \<le> requests \<and> sum_list (map listing_bytes acc) \<le> nbytes \<and>
     (\<forall>x\<in>set acc. listing_time x < started + elapsed) \<and>
     (\<forall>now n. (\<exists>b'. begin_request now n b = Inr b') \<longleftrightarrow> now < started + elapsed \<and> 0 \<le> n \<and> sum_list (map listing_requests acc) < requests \<and>
        sum_list (map listing_bytes acc) + n \<le> nbytes \<and> sum_list (map listing_bytes acc) < nbytes) \<and>
     (\<forall>now n. (\<exists>b'. consume_bytes now n b = Inr b') \<longleftrightarrow> now < started + elapsed \<and> 0 \<le> n \<and> sum_list (map listing_bytes acc) + n \<le> nbytes)"
proof -
  have b0: "listing_within b0" "listing_limits b0 = (requests, nbytes, started + elapsed)" "request_count b0 = 0" "consumed_bytes b0 = 0"
    using init by (auto simp: DiscoveryRunBudget_init_def listing_within_def listing_limits_def split: if_splits)
  have within: "listing_within b" unfolding b by (rule listing_budget.run_invar [OF b0(1)])
  have limits: "listing_limits b = (requests, nbytes, started + elapsed)" unfolding b by (rule fixed_limits.run_invar [OF b0(2)])
  have meters: "request_count b = sum_list (map listing_requests acc)" "consumed_bytes b = sum_list (map listing_bytes acc)"
    unfolding b acc requests_meter.run_meter bytes_meter.run_meter fold_plus b0(3,4) by simp_all
  have "\<forall>x\<in>set acc. listing_time x < started + elapsed" unfolding acc
    by (rule fixed_limits.accepted_all [OF _ b0(2)]) (use listing_step_in_time in fastforce)
  with within limits show ?thesis unfolding listing_accepted meters by (simp add: listing_within_def listing_limits_def meters)
qed

theorem discovery_budget_never_exceeded_witness:
  "\<exists>b. DiscoveryRunBudget_init 1 100 10 0 = Inr b \<and>
     accepted_ops listing_step b [BeginRequest 1 0, ConsumeBytes 2 90, BeginRequest 2 0, ConsumeBytes 3 11] = [BeginRequest 1 0, ConsumeBytes 2 90] \<and>
     \<not> (\<exists>b'. consume_bytes 4 11 (run_ops listing_step b [BeginRequest 1 0, ConsumeBytes 2 90, BeginRequest 2 0, ConsumeBytes 3 11]) = Inr b')"
proof -
  let ?b = "\<lparr>maximum_requests = 1, maximum_bytes = 100, maximum_elapsed_seconds = 10,
    request_count = 0, consumed_bytes = 0, started_at = 0\<rparr>"
  let ?ops = "[BeginRequest 1 0, ConsumeBytes 2 90, BeginRequest 2 0, ConsumeBytes 3 11]"
  have b: "DiscoveryRunBudget_init 1 100 10 0 = Inr ?b"
    by (simp add: DiscoveryRunBudget_init_def)
  have acc: "accepted_ops listing_step ?b ?ops = [BeginRequest 1 0, ConsumeBytes 2 90]"
    by (simp add: begin_request_def consume_bytes_def listing_checkpoint_def elapsed_exhausted_def
        remaining_elapsed_seconds_def remaining_bytes_def budget_exceeded_def DiscoveryBudgetExceededError_init_def)
  from discovery_budget_never_exceeded [OF b refl refl, of ?ops] b acc show ?thesis by (intro exI [of _ ?b]) simp
qed

end
