(* ===== verification/Collection_Memory.thy ===== *)
theory Collection_Memory
  imports Application_Models
begin

text \<open>
  The process-local collection repository of \<^verbatim>\<open>application/collection.py\<close>
  (\<^verbatim>\<open>_MemoryCollectionRepository\<close>): checkpoints with compare-and-set, attempts, terminal marks and
  the two-phase byte charges. A dict whose order matters is an association list, the others
  are maps; \<^verbatim>\<open>uuid4()\<close> draws the next unused number.
\<close>

section \<open>State\<close>

record MemoryCheckpoint =
  mc_id :: nat
  mc_generation :: int
  mc_cursor :: "ustr option"
  mc_page_offset :: nat
  mc_recognized_count :: int
  mc_unknown_count :: int
  mc_complete :: bool
  mc_retry_boundary :: bool

record MemoryCollectionRepository =
  mr_checkpoints :: "(CollectionScope \<times> MemoryCheckpoint) list"
  mr_attempts :: "nat \<Rightarrow> CollectionAttempt option"
  mr_running :: "nat set"
  mr_terminal :: "(ustr \<times> ustr \<times> ustr \<times> bool) set"
  mr_attempt_sources :: "nat \<Rightarrow> ustr option"
  mr_attempt_charged_bytes :: "nat \<Rightarrow> int option"
  mr_source_charged_bytes :: "ustr \<Rightarrow> int option"
  mr_charged_sources :: "(ustr \<times> ustr \<times> ustr) set"
  mr_charged_transfers :: "nat \<times> nat \<Rightarrow> (int \<times> bool) option"
  mr_source_identity_files :: "ustr \<Rightarrow> nat set option"
  mr_source_attempt_counts :: "ustr \<Rightarrow> int option"
  mr_source_success_counts :: "ustr \<Rightarrow> int option"
  mr_next_uuid :: nat

definition new_memory_repository :: MemoryCollectionRepository where
  "new_memory_repository =
     \<lparr>mr_checkpoints = [], mr_attempts = (\<lambda>_. None), mr_running = {}, mr_terminal = {},
      mr_attempt_sources = (\<lambda>_. None), mr_attempt_charged_bytes = (\<lambda>_. None),
      mr_source_charged_bytes = (\<lambda>_. None), mr_charged_sources = {}, mr_charged_transfers = (\<lambda>_. None),
      mr_source_identity_files = (\<lambda>_. None), mr_source_attempt_counts = (\<lambda>_. None),
      mr_source_success_counts = (\<lambda>_. None), mr_next_uuid = 0\<rparr>"

type_synonym 'a mem = "(MemoryCollectionRepository, exn, 'a) action"

definition uuid4 :: "nat mem" where
  "uuid4 s = (Inr (mr_next_uuid s), s\<lparr>mr_next_uuid := Suc (mr_next_uuid s)\<rparr>)"

text \<open>\<^verbatim>\<open>d[k]\<close>, \<^verbatim>\<open>d.get(k, default)\<close>, and the mutation of the first checkpoint with an id.\<close>

definition dict_item :: "'v option \<Rightarrow> ('s, exn, 'v) action" where
  "dict_item v = (case v of None \<Rightarrow> araise (exn_of KeyError) | Some x \<Rightarrow> areturn x)"

definition get_or :: "'v option \<Rightarrow> 'v \<Rightarrow> 'v" where
  "get_or v d = (case v of None \<Rightarrow> d | Some x \<Rightarrow> x)"

fun mutate_first :: "('v \<Rightarrow> bool) \<Rightarrow> ('v \<Rightarrow> 'v) \<Rightarrow> ('k \<times> 'v) list \<Rightarrow> ('k \<times> 'v) list" where
  "mutate_first p f [] = []"
| "mutate_first p f ((k, v) # kvs) = (if p v then (k, f v) # kvs else (k, v) # mutate_first p f kvs)"

definition find_checkpoint :: "nat \<Rightarrow> MemoryCollectionRepository \<Rightarrow> MemoryCheckpoint option" where
  "find_checkpoint cid s = map_option snd (find (\<lambda>(k, v). mc_id v = cid) (mr_checkpoints s))"

definition mutate_checkpoint :: "nat \<Rightarrow> (MemoryCheckpoint \<Rightarrow> MemoryCheckpoint) \<Rightarrow> unit mem" where
  "mutate_checkpoint cid f =
     amodify (\<lambda>s. s\<lparr>mr_checkpoints := mutate_first (\<lambda>v. mc_id v = cid) f (mr_checkpoints s)\<rparr>)"

section \<open>Operations\<close>

definition fresh_generation :: "MemoryCheckpoint \<Rightarrow> MemoryCheckpoint" where
  "fresh_generation c =
     c\<lparr>mc_generation := mc_generation c + 1, mc_cursor := None, mc_page_offset := 0,
       mc_recognized_count := 0, mc_unknown_count := 0, mc_complete := False,
       mc_retry_boundary := False\<rparr>"

definition mem_begin_attempt :: "CollectionScope \<Rightarrow> CollectionAttempt mem" where
  "mem_begin_attempt scope =
     abind uuid4 (\<lambda>new_id.
     abind (amodify (\<lambda>s. case map_of (mr_checkpoints s) scope of
         Some _ \<Rightarrow> s
       | None \<Rightarrow> s\<lparr>mr_checkpoints := mr_checkpoints s @
           [(scope, \<lparr>mc_id = new_id, mc_generation = 1, mc_cursor = None, mc_page_offset = 0,
             mc_recognized_count = 0, mc_unknown_count = 0, mc_complete = False,
             mc_retry_boundary = False\<rparr>)]\<rparr>)) (\<lambda>_.
     abind (aget (\<lambda>s. the (map_of (mr_checkpoints s) scope))) (\<lambda>found.
     abind (if mc_complete found then mutate_checkpoint (mc_id found) fresh_generation else areturn ()) (\<lambda>_.
       let checkpoint = (if mc_complete found then fresh_generation found else found) in
     abind uuid4 (\<lambda>aid.
       let attempt = \<lparr>attempt_id = aid, ca_checkpoint_id = mc_id checkpoint,
             ca_generation = mc_generation checkpoint, ca_cursor = mc_cursor checkpoint,
             ca_page_offset = mc_page_offset checkpoint,
             ca_recognized_count = mc_recognized_count checkpoint,
             ca_unknown_count = mc_unknown_count checkpoint,
             ca_retry_boundary = mc_retry_boundary checkpoint\<rparr> in
     abind (amodify (\<lambda>s. s\<lparr>mr_attempts := (mr_attempts s)(aid \<mapsto> attempt),
         mr_running := insert aid (mr_running s),
         mr_attempt_sources := (mr_attempt_sources s)(aid \<mapsto> cs_source_id scope),
         mr_attempt_charged_bytes := (mr_attempt_charged_bytes s)(aid \<mapsto> 0)\<rparr>)) (\<lambda>_.
       areturn attempt))))))"

record deltas =
  discovered_delta :: int
  recognized_delta :: int
  unknown_delta :: int
  processed_delta :: int
  duplicate_delta :: int

definition no_deltas :: deltas where
  "no_deltas = \<lparr>discovered_delta = 0, recognized_delta = 0, unknown_delta = 0, processed_delta = 0,
     duplicate_delta = 0\<rparr>"

definition mem_advance_attempt ::
    "nat \<Rightarrow> ustr option \<Rightarrow> nat \<Rightarrow> ustr option \<Rightarrow> nat \<Rightarrow> deltas \<Rightarrow> CollectionAttempt mem" where
  "mem_advance_attempt aid expected_cursor expected_page_offset cursor page_offset d =
     abind (aget id) (\<lambda>s.
       if aid \<notin> mr_running s then araise (exn_of RuntimeError)
       else abind (dict_item (mr_attempts s aid)) (\<lambda>attempt.
         case find_checkpoint (ca_checkpoint_id attempt) s of
           None \<Rightarrow> araise (exn_of RuntimeError)
         | Some checkpoint \<Rightarrow>
             if mc_cursor checkpoint \<noteq> expected_cursor \<or> mc_page_offset checkpoint \<noteq> expected_page_offset
             then araise (exn_of RuntimeError)
             else
               let checkpoint' = checkpoint\<lparr>mc_cursor := cursor, mc_page_offset := page_offset,
                     mc_recognized_count := mc_recognized_count checkpoint + recognized_delta d,
                     mc_unknown_count := mc_unknown_count checkpoint + unknown_delta d,
                     mc_retry_boundary := False\<rparr>;
                   updated = attempt\<lparr>ca_cursor := cursor, ca_page_offset := page_offset,
                     ca_recognized_count := mc_recognized_count checkpoint',
                     ca_unknown_count := mc_unknown_count checkpoint'\<rparr> in
               abind (mutate_checkpoint (ca_checkpoint_id attempt) (\<lambda>_. checkpoint')) (\<lambda>_.
               abind (amodify (\<lambda>s. s\<lparr>mr_attempts := (mr_attempts s)(aid \<mapsto> updated)\<rparr>)) (\<lambda>_.
                 areturn updated))))"

definition mem_finish_attempt :: "nat \<Rightarrow> string \<Rightarrow> bool \<Rightarrow> bool \<Rightarrow> string option \<Rightarrow> string option \<Rightarrow> unit mem" where
  "mem_finish_attempt aid status truncated traversal_complete truncation_reason error_code =
     abind (amodify (\<lambda>s. s\<lparr>mr_running := mr_running s - {aid}\<rparr>)) (\<lambda>_.
     abind (aget id) (\<lambda>s.
     abind (dict_item (mr_attempts s aid)) (\<lambda>attempt.
       case find_checkpoint (ca_checkpoint_id attempt) s of
         None \<Rightarrow> araise (exn_of RuntimeError)
       | Some _ \<Rightarrow> mutate_checkpoint (ca_checkpoint_id attempt) (\<lambda>c.
           c\<lparr>mc_complete := traversal_complete,
             mc_retry_boundary := status = ''failed'' \<and> \<not> traversal_complete\<rparr>))))"

definition mem_observe_attempt :: "nat \<Rightarrow> int \<Rightarrow> unit mem" where
  "mem_observe_attempt aid n =
     abind (aget id) (\<lambda>s. if n < 0 \<or> aid \<notin> mr_running s then araise (exn_of RuntimeError) else areturn ())"

definition file_identity :: "RemoteFile \<Rightarrow> ustr \<times> ustr \<times> ustr" where
  "file_identity f = (rf_retailer_id f, rf_portal_id f, rf_remote_id f)"

definition terminal_key :: "RemoteFile \<Rightarrow> bool \<Rightarrow> ustr \<times> ustr \<times> ustr \<times> bool" where
  "terminal_key f b = (rf_retailer_id f, rf_portal_id f, rf_remote_id f, b)"

definition mem_is_terminal :: "RemoteFile \<Rightarrow> bool \<Rightarrow> bool mem" where
  "mem_is_terminal f archive_only =
     aget (\<lambda>s. terminal_key f False \<in> mr_terminal s \<or> (archive_only \<and> terminal_key f True \<in> mr_terminal s))"

definition mem_note_terminal :: "RemoteFile \<Rightarrow> bool \<Rightarrow> unit mem" where
  "mem_note_terminal f archive_only =
     amodify (\<lambda>s. s\<lparr>mr_terminal := insert (terminal_key f archive_only) (mr_terminal s)\<rparr>)"

definition mem_charge_budget :: "nat \<Rightarrow> CollectionChargeBudget mem" where
  "mem_charge_budget aid =
     abind (aget id) (\<lambda>s.
       if aid \<notin> mr_running s then araise (exn_of RuntimeError)
       else abind (dict_item (mr_attempt_sources s aid)) (\<lambda>source_id.
            abind (dict_item (mr_attempt_charged_bytes s aid)) (\<lambda>charged.
              case CollectionChargeBudget_init charged
                     (get_or (mr_source_charged_bytes s source_id) 0)
                     (int (card (get_or (mr_source_identity_files s source_id) {})))
                     (get_or (mr_source_attempt_counts s source_id) 0)
                     (get_or (mr_source_success_counts s source_id) 0) of
                Inl e \<Rightarrow> araise e | Inr b \<Rightarrow> areturn b)))"

definition mem_reserve_transfer :: "nat \<Rightarrow> nat \<Rightarrow> RemoteFile \<Rightarrow> int \<Rightarrow> CollectionChargeBudget mem" where
  "mem_reserve_transfer aid source_file_id f content_length =
     abind (mem_charge_budget aid) (\<lambda>budget.
       if content_length < 0 then araise (exn_of ValueError)
       else abind (aget id) (\<lambda>s.
         if mr_charged_transfers s (aid, source_file_id) \<noteq> None then areturn budget
         else
           let source_id = the (mr_attempt_sources s aid) in
           abind (amodify (\<lambda>s. s\<lparr>
             mr_charged_transfers := (mr_charged_transfers s)((aid, source_file_id) \<mapsto> (content_length, False)),
             mr_source_identity_files := (mr_source_identity_files s)
               (source_id \<mapsto> insert source_file_id (get_or (mr_source_identity_files s source_id) {})),
             mr_source_attempt_counts := (mr_source_attempt_counts s)
               (source_id \<mapsto> get_or (mr_source_attempt_counts s source_id) 0 + 1),
             mr_attempt_charged_bytes := (mr_attempt_charged_bytes s)
               (aid \<mapsto> the (mr_attempt_charged_bytes s aid) + content_length),
             mr_source_charged_bytes := (mr_source_charged_bytes s)
               (source_id \<mapsto> get_or (mr_source_charged_bytes s source_id) 0 + content_length)\<rparr>)) (\<lambda>_.
           mem_charge_budget aid)))"

definition archive_attached :: "MemoryCollectionRepository \<Rightarrow> RemoteFile \<Rightarrow> int \<Rightarrow> bool" where
  "archive_attached s f transferred \<longleftrightarrow>
     terminal_key f False \<in> mr_terminal s \<or> terminal_key f True \<in> mr_terminal s \<or>
     (case rf_content_length f of None \<Rightarrow> False | Some n \<Rightarrow> transferred \<ge> n)"

definition archive_bytes :: "MemoryCollectionRepository \<Rightarrow> RemoteFile \<Rightarrow> int \<Rightarrow> int" where
  "archive_bytes s f transferred =
     (if archive_attached s f transferred
      then (case rf_content_length f of Some n \<Rightarrow> if n \<noteq> 0 then n else transferred | None \<Rightarrow> transferred)
      else 0)"

definition new_archive_charge :: "MemoryCollectionRepository \<Rightarrow> RemoteFile \<Rightarrow> int \<Rightarrow> bool" where
  "new_archive_charge s f transferred \<longleftrightarrow>
     archive_attached s f transferred \<and> file_identity f \<notin> mr_charged_sources s"

definition transfer_bytes :: "MemoryCollectionRepository \<Rightarrow> RemoteFile \<Rightarrow> int \<Rightarrow> int" where
  "transfer_bytes s f transferred =
     (if archive_attached s f transferred then max 0 (transferred - archive_bytes s f transferred)
      else transferred)"

definition exact_attempt_charge :: "MemoryCollectionRepository \<Rightarrow> RemoteFile \<Rightarrow> int \<Rightarrow> int" where
  "exact_attempt_charge s f transferred =
     transfer_bytes s f transferred + (if new_archive_charge s f transferred then archive_bytes s f transferred else 0)"

definition mem_settle_transfer :: "nat \<Rightarrow> nat \<Rightarrow> RemoteFile \<Rightarrow> int \<Rightarrow> CollectionChargeBudget mem" where
  "mem_settle_transfer aid source_file_id f transferred =
     abind (mem_charge_budget aid) (\<lambda>budget.
       if transferred < 0 then araise (exn_of ValueError)
       else abind (aget id) (\<lambda>s.
         abind (dict_item (mr_charged_transfers s (aid, source_file_id))) (\<lambda>(reserved_bytes, settled).
           if settled then areturn budget
           else
             let source_id = the (mr_attempt_sources s aid);
                 delta = exact_attempt_charge s f transferred - reserved_bytes in
             if exact_attempt_charge s f transferred > reserved_bytes then araise (exn_of RuntimeError)
             else
               abind (amodify (\<lambda>s. if new_archive_charge s f transferred then s\<lparr>
                   mr_charged_sources := insert (file_identity f) (mr_charged_sources s),
                   mr_source_success_counts := (mr_source_success_counts s)
                     (source_id \<mapsto> get_or (mr_source_success_counts s source_id) 0 + 1)\<rparr> else s)) (\<lambda>_.
               abind (amodify (\<lambda>s'. s'\<lparr>
                 mr_charged_transfers := (mr_charged_transfers s')
                   ((aid, source_file_id) \<mapsto> (transfer_bytes s f transferred, True)),
                 mr_attempt_charged_bytes := (mr_attempt_charged_bytes s')
                   (aid \<mapsto> the (mr_attempt_charged_bytes s' aid) + delta),
                 mr_source_charged_bytes := (mr_source_charged_bytes s')
                   (source_id \<mapsto> get_or (mr_source_charged_bytes s' source_id) 0 + delta)\<rparr>)) (\<lambda>_.
               mem_charge_budget aid)))))"

end
