(* ===== verification/Collection.thy ===== *)
theory Collection
  imports Collection_Memory
begin

text \<open>
  The bounded collection of \<^verbatim>\<open>application/collection.py\<close>: \<^verbatim>\<open>CollectionPolicy\<close> and the traversal
  \<^verbatim>\<open>_collect_with_context\<close> with its helpers. The repository protocol and the other ports
  (source adapter, file ingestion, catalog bootstrap, leases, the monotonic clock) are
  records of stateful calls on a common state \<open>'s\<close>, arguments of the definitions. The local
  variables of the traversal, nonlocal ones included, are the record \<open>crun\<close>. Log events and
  the freshness gauge are not modelled.
\<close>

section \<open>Policy\<close>

definition MAXIMUM_SUPPORTED_ARCHIVE_OBJECT_BYTES :: int where
  "MAXIMUM_SUPPORTED_ARCHIVE_OBJECT_BYTES = 16 * 1024 * 1024 * 1024"

definition MAXIMUM_TRANSFER_CHUNK_BYTES :: int where
  "MAXIMUM_TRANSFER_CHUNK_BYTES = 64 * 1024"

record CollectionPolicy =
  discovery_page_size :: int
  maximum_listing_requests :: int
  maximum_listing_bytes :: int
  maximum_listing_elapsed_seconds :: rat
  maximum_files :: int
  maximum_discovery_records :: int
  maximum_reported_files :: int
  maximum_archive_object_bytes :: int
  maximum_transfer_chunk_bytes :: int
  maximum_ftp_overhead_bytes :: int
  maximum_http_overhead_bytes :: int
  maximum_charged_bytes_run :: int
  maximum_charged_bytes_day :: int
  maximum_source_identities_day :: int
  maximum_transfer_attempts_day :: int
  maximum_successes_day :: int
  source_lease_ttl :: rat  \<comment> \<open>seconds\<close>

text \<open>
  The maxima of the two protocol overheads, \<^verbatim>\<open>MAXIMUM_FTP_TRANSFER_PROTOCOL_OVERHEAD_BYTES\<close> and
  \<^verbatim>\<open>MAXIMUM_HTTP_TRANSFER_PROTOCOL_OVERHEAD_BYTES\<close> of \<^verbatim>\<open>application/ports.py\<close>, are \<open>ftp_max\<close> and
  \<open>http_max\<close>.
\<close>

definition CollectionPolicy_post_init :: "int \<Rightarrow> int \<Rightarrow> CollectionPolicy \<Rightarrow> exn + unit" where
  "CollectionPolicy_post_init ftp_max http_max p =
     (if \<not> (1 \<le> discovery_page_size p \<and> discovery_page_size p \<le> 500) then err ValueError
      else rbind (DiscoveryRunBudget_init (maximum_listing_requests p) (maximum_listing_bytes p)
             (maximum_listing_elapsed_seconds p) 0) (\<lambda>_.
        if \<not> (1 \<le> maximum_files p \<and> maximum_files p \<le> 10000) then err ValueError
        else if \<not> (maximum_files p \<le> maximum_discovery_records p \<and> maximum_discovery_records p \<le> 1000000)
        then err ValueError
        else if \<not> (1 \<le> maximum_reported_files p \<and> maximum_reported_files p \<le> maximum_files p)
        then err ValueError
        else if \<not> (1 \<le> maximum_archive_object_bytes p
               \<and> maximum_archive_object_bytes p \<le> MAXIMUM_SUPPORTED_ARCHIVE_OBJECT_BYTES
               \<and> 1 \<le> maximum_transfer_chunk_bytes p
               \<and> maximum_transfer_chunk_bytes p \<le> MAXIMUM_TRANSFER_CHUNK_BYTES
               \<and> 0 \<le> maximum_ftp_overhead_bytes p \<and> maximum_ftp_overhead_bytes p \<le> ftp_max
               \<and> 0 \<le> maximum_http_overhead_bytes p \<and> maximum_http_overhead_bytes p \<le> http_max
               \<and> maximum_archive_object_bytes p + maximum_transfer_chunk_bytes p
                   + max (maximum_ftp_overhead_bytes p) (maximum_http_overhead_bytes p)
                   \<le> maximum_charged_bytes_run p
               \<and> maximum_charged_bytes_run p \<le> maximum_charged_bytes_day p
               \<and> maximum_charged_bytes_day p \<le> 16 * 1024 * 1024 * 1024 * 1024)
        then err ValueError
        else if \<not> (0 < source_lease_ttl p \<and> source_lease_ttl p \<le> 86400) then err ValueError
        else if \<not> (1 \<le> maximum_source_identities_day p
               \<and> maximum_source_identities_day p \<le> maximum_transfer_attempts_day p
               \<and> maximum_transfer_attempts_day p \<le> 100000) then err ValueError
        else if \<not> (1 \<le> maximum_successes_day p \<and> maximum_successes_day p \<le> 100000) then err ValueError
        else Inr ()))"

section \<open>Ports\<close>

record 's CollectionRepository =
  r_begin_attempt :: "CollectionScope \<Rightarrow> ('s, exn, CollectionAttempt) action"
  r_advance_attempt :: "nat \<Rightarrow> ustr option \<Rightarrow> nat \<Rightarrow> ustr option \<Rightarrow> nat \<Rightarrow> deltas \<Rightarrow> ('s, exn, CollectionAttempt) action"
  r_finish_attempt :: "nat \<Rightarrow> string \<Rightarrow> bool \<Rightarrow> bool \<Rightarrow> string option \<Rightarrow> string option \<Rightarrow> ('s, exn, unit) action"
  r_observe_attempt :: "nat \<Rightarrow> int \<Rightarrow> ('s, exn, unit) action"
  r_is_terminal :: "RemoteFile \<Rightarrow> bool \<Rightarrow> ('s, exn, bool) action"
  r_note_terminal :: "RemoteFile \<Rightarrow> bool \<Rightarrow> ('s, exn, unit) action"
  r_charge_budget :: "nat \<Rightarrow> ('s, exn, CollectionChargeBudget) action"
  r_reserve_transfer :: "nat \<Rightarrow> nat \<Rightarrow> RemoteFile \<Rightarrow> int \<Rightarrow> ('s, exn, CollectionChargeBudget) action"
  r_settle_transfer :: "nat \<Rightarrow> nat \<Rightarrow> RemoteFile \<Rightarrow> int \<Rightarrow> ('s, exn, CollectionChargeBudget) action"

text \<open>
  \<open>p_discover\<close> runs the adapter under the timeout and may charge the listing budget, also
  when it raises; \<open>p_timeout_expired\<close> tells whether a \<^verbatim>\<open>TimeoutError\<close> came from the timeout scope.
\<close>

record 's CollectionPorts =
  p_discover :: "ustr option \<Rightarrow> int \<Rightarrow> (DiscoveryRunBudget \<times> 's, exn, DiscoveryPage) action"
  p_timeout_expired :: "'s \<Rightarrow> bool"
  p_monotonic :: "'s \<Rightarrow> rat \<times> 's"
  p_register :: "RemoteFile \<Rightarrow> ('s, exn, RegisteredSourceFile) action"
  p_ingest :: "RemoteFile \<Rightarrow> int option \<Rightarrow> ('s, exn, IngestionResult) action"
  p_archive_only :: "RemoteFile \<Rightarrow> int option \<Rightarrow> ('s, exn, IngestionResult) action"
  p_bootstrap :: "(nat \<Rightarrow> ('s, exn, unit) action) option"
  p_acquire_lease :: "ustr \<Rightarrow> ('s, exn, bool) action"
  p_release_lease :: "ustr \<Rightarrow> ('s, exn, unit) action"

section \<open>Local state\<close>

record 's crun =
  attempt :: CollectionAttempt
  cursor :: "ustr option"
  page_offset :: nat
  seen_cursors :: "ustr set"
  discovered :: int
  ingested :: int
  duplicates :: int
  skipped_unknown :: int
  reported :: "(ustr \<times> IngestionResult) list"
  run_truncated :: bool
  truncation_reason :: "string option"
  traversal_complete :: bool
  retry_boundary :: bool
  postprocess_pending :: bool
  listing_budget :: DiscoveryRunBudget
  charged_bytes :: int
  world :: 's

definition call :: "('s, exn, 'a) action \<Rightarrow> ('s crun, exn, 'a) action" where
  "call m c = (case m (world c) of (r, w) \<Rightarrow> (r, c\<lparr>world := w\<rparr>))"

datatype flow = Next | Stop

definition truncate_run :: "string option \<Rightarrow> ('s crun, exn, flow) action" where
  "truncate_run why =
     abind (amodify (\<lambda>c. c\<lparr>run_truncated := True, truncation_reason := why\<rparr>)) (\<lambda>_. areturn Stop)"

text \<open>\<^verbatim>\<open>listing_budget.checkpoint()\<close> at the current time.\<close>

definition checkpoint_now :: "'s CollectionPorts \<Rightarrow> ('s crun, exn, unit) action" where
  "checkpoint_now p c =
     (case p_monotonic p (world c) of (now, w) \<Rightarrow>
        (case listing_checkpoint now (listing_budget c) of Inl e \<Rightarrow> Inl e | Inr u \<Rightarrow> Inr u, c\<lparr>world := w\<rparr>))"

section \<open>Helpers\<close>

definition charge_budget_reason :: "CollectionPolicy \<Rightarrow> CollectionChargeBudget \<Rightarrow> string option" where
  "charge_budget_reason p b =
     (if run_charged_bytes b \<ge> maximum_charged_bytes_run p then Some ''charged_byte_run_limit''
      else if day_charged_bytes b \<ge> maximum_charged_bytes_day p then Some ''charged_byte_day_limit''
      else if day_source_identities b \<ge> maximum_source_identities_day p then Some ''identity_day_limit''
      else if day_transfer_attempts b \<ge> maximum_transfer_attempts_day p then Some ''attempt_day_limit''
      else if day_successes b \<ge> maximum_successes_day p then Some ''success_day_limit''
      else None)"

definition within_range :: "RemoteFile \<Rightarrow> datetime option \<Rightarrow> datetime option \<Rightarrow> bool" where
  "within_range f since until =
     (if since = None \<and> until = None then True
      else case rf_source_timestamp f of
        None \<Rightarrow> False
      | Some t \<Rightarrow> opt_all (\<lambda>a. instant_le a t) since \<and> opt_all (\<lambda>b. instant_le t b) until)"

definition durable_truncation_reason :: "string option \<Rightarrow> string option" where
  "durable_truncation_reason why =
     (if why \<in> {Some ''listing_request_limit'', Some ''listing_byte_limit'', Some ''listing_elapsed_limit''}
      then Some ''discovery_limit'' else why)"

definition portal_ids :: "ustr list \<Rightarrow> exn + ustr list" where
  "portal_ids values =
     (let selected = sort (remdups values) in
      if selected = [] \<or> length selected \<noteq> length values then err ValueError
      else if list_ex (\<lambda>v. v = [] \<or> length v > 256) selected then err ValueError
      else Inr selected)"

definition publisher_cursor :: "ustr \<Rightarrow> exn + ustr" where
  "publisher_cursor value =
     rbind (utf8_encode value) (\<lambda>encoded.
       if \<not> (1 \<le> length encoded \<and> length encoded \<le> 8192) then err SourceResponseError else Inr value)"

definition validate_remote_scope :: "RemoteFile \<Rightarrow> CollectionScope \<Rightarrow> exn + unit" where
  "validate_remote_scope f scope =
     (if rf_retailer_id f \<noteq> cs_source_id scope \<or> rf_portal_id f \<notin> set (cs_portal_ids scope)
      then err SourceResponseError else Inr ())"

definition collection_error_code :: "exn \<Rightarrow> string" where
  "collection_error_code e =
     (if exn_class e = CancelledError then ''operation_cancelled''
      else case error_class_code (exn_class e) of
        Some code \<Rightarrow> if 0 < length code \<and> length code \<le> 128 then code else ''unexpected_error''
      | None \<Rightarrow> ''unexpected_error'')"

section \<open>One file\<close>

definition advance ::
    "'s CollectionRepository \<Rightarrow> ustr option \<Rightarrow> nat \<Rightarrow> ustr option \<Rightarrow> nat \<Rightarrow> deltas \<Rightarrow> ('s crun, exn, unit) action" where
  "advance repo expected_cursor expected_offset cur offset d =
     abind (aget attempt) (\<lambda>a.
     abind (call (r_advance_attempt repo (attempt_id a) expected_cursor expected_offset cur offset d)) (\<lambda>a'.
       amodify (\<lambda>c. c\<lparr>attempt := a'\<rparr>)))"

definition bootstrap_catalog :: "'s CollectionPorts \<Rightarrow> IngestionResult \<Rightarrow> ('s crun, exn, unit) action" where
  "bootstrap_catalog ports result =
     (case p_bootstrap ports of
        None \<Rightarrow> areturn ()
      | Some boot \<Rightarrow> if ir_status result = COMPLETED then call (boot (ir_source_file_id result)) else areturn ())"

definition process_file ::
    "CollectionPolicy \<Rightarrow> 's CollectionRepository \<Rightarrow> 's CollectionPorts \<Rightarrow> CollectionScope \<Rightarrow> RemoteFile \<Rightarrow> nat \<Rightarrow>
     int option \<Rightarrow> ('s crun, exn, IngestionResult \<times> CollectionChargeBudget) action" where
  "process_file p repo ports scope f source_file_id limit =
     abind (call (if cs_archive_only scope then p_archive_only ports f limit else p_ingest ports f limit)) (\<lambda>result.
     abind (aget attempt) (\<lambda>a.
     abind (call (r_settle_transfer repo (attempt_id a) source_file_id f (ir_transferred_bytes result))) (\<lambda>budget.
     abind (if cs_archive_only scope then areturn ()
            else abind (amodify (\<lambda>c. c\<lparr>postprocess_pending := True\<rparr>)) (\<lambda>_.
                 abind (bootstrap_catalog ports result) (\<lambda>_.
                   amodify (\<lambda>c. c\<lparr>postprocess_pending := False\<rparr>)))) (\<lambda>_.
     abind (amodify (\<lambda>c. c\<lparr>ingested := ingested c + 1,
              duplicates := duplicates c + (if ir_duplicate result then 1 else 0),
              reported := (if int (length (reported c)) < maximum_reported_files p
                           then reported c @ [(rf_original_filename f, result)] else reported c)\<rparr>)) (\<lambda>_.
       areturn (result, budget))))))"

definition charge_limit_reason :: "CollectionPolicy \<Rightarrow> CollectionChargeBudget \<Rightarrow> string" where
  "charge_limit_reason p b =
     (if maximum_charged_bytes_run p - run_charged_bytes b \<le> maximum_charged_bytes_day p - day_charged_bytes b
      then ''charged_byte_run_limit'' else ''charged_byte_day_limit'')"

definition file_deltas :: "int \<Rightarrow> int \<Rightarrow> int \<Rightarrow> int \<Rightarrow> deltas" where
  "file_deltas recognized unknown processed duplicate =
     \<lparr>discovered_delta = 1, recognized_delta = recognized, unknown_delta = unknown,
      processed_delta = processed, duplicate_delta = duplicate\<rparr>"

text \<open>
  The \<^verbatim>\<open>try\<close> block around one transfer: the result and the budget, or \<open>None\<close> when the charge limit
  ended the run. Every other exception settles what was transferred, moves the checkpoint
  past the file when it is terminal, and is raised again.
\<close>

definition transfer_failed ::
    "CollectionPolicy \<Rightarrow> 's CollectionRepository \<Rightarrow> CollectionScope \<Rightarrow> RemoteFile \<Rightarrow> nat \<Rightarrow> ustr option \<Rightarrow> nat \<Rightarrow>
     CollectionChargeBudget \<Rightarrow> exn \<Rightarrow> ('s crun, exn, (IngestionResult \<times> CollectionChargeBudget) option) action" where
  "transfer_failed p repo scope f source_file_id page_start index budget e =
     (if exn_class e = ChargeBudgetExceededError then
        abind (amodify (\<lambda>c. c\<lparr>discovered := discovered c + 1\<rparr>)) (\<lambda>_.
        abind (aget attempt) (\<lambda>a.
        abind (call (r_settle_transfer repo (attempt_id a) source_file_id f (transferred_bytes e))) (\<lambda>budget.
        abind (amodify (\<lambda>c. c\<lparr>charged_bytes := run_charged_bytes budget\<rparr>)) (\<lambda>_.
        abind (call (r_observe_attempt repo (attempt_id a) 1)) (\<lambda>_.
        abind (truncate_run (Some (charge_limit_reason p budget))) (\<lambda>_. areturn None))))))
      else
        abind (aget postprocess_pending) (\<lambda>boundary_was_pending.
        abind (amodify (\<lambda>c. c\<lparr>postprocess_pending := True\<rparr>)) (\<lambda>_.
        abind (aget attempt) (\<lambda>a.
        abind (if is_makolet_class (exn_class e) \<and> transferred_bytes e \<ge> 0
               then call (r_settle_transfer repo (attempt_id a) source_file_id f (transferred_bytes e))
               else areturn budget) (\<lambda>budget.
        abind (amodify (\<lambda>c. c\<lparr>charged_bytes := run_charged_bytes budget,
                 postprocess_pending := boundary_was_pending\<rparr>)) (\<lambda>_.
        abind (if \<not> boundary_was_pending then call (r_is_terminal repo f (cs_archive_only scope))
               else areturn False) (\<lambda>done.
        abind (amodify (\<lambda>c. c\<lparr>discovered := discovered c + 1\<rparr>)) (\<lambda>_.
        abind (if done then advance repo page_start index page_start (Suc index) (file_deltas 1 0 1 0)
               else call (r_observe_attempt repo (attempt_id a) 1)) (\<lambda>_.
          araise e)))))))))"

definition transfer_file ::
    "CollectionPolicy \<Rightarrow> 's CollectionRepository \<Rightarrow> 's CollectionPorts \<Rightarrow> CollectionScope \<Rightarrow> RemoteFile \<Rightarrow> nat \<Rightarrow> ustr option \<Rightarrow>
     nat \<Rightarrow> CollectionChargeBudget \<Rightarrow> int option \<Rightarrow>
     ('s crun, exn, (IngestionResult \<times> CollectionChargeBudget) option) action" where
  "transfer_file p repo ports scope f source_file_id page_start index budget limit =
     acatch
       (abind (process_file p repo ports scope f source_file_id limit) (\<lambda>(result, budget).
        abind (call (r_note_terminal repo f (cs_archive_only scope))) (\<lambda>_.
        abind (amodify (\<lambda>c. c\<lparr>charged_bytes := run_charged_bytes budget, postprocess_pending := False\<rparr>)) (\<lambda>_.
          areturn (Some (result, budget))))))
       (transfer_failed p repo scope f source_file_id page_start index budget)"

definition protocol_overhead :: "CollectionPolicy \<Rightarrow> RemoteFile \<Rightarrow> int" where
  "protocol_overhead p f =
     (if rf_protocol f \<in> {FTP, FTPS} then maximum_ftp_overhead_bytes p
      else if rf_protocol f \<in> {HTTP, HTTPS} then maximum_http_overhead_bytes p else 0)"

text \<open>After the transfer: the file counts, the checkpoint moves past it, and the charges may end the run.\<close>

definition file_transferred ::
    "CollectionPolicy \<Rightarrow> 's CollectionRepository \<Rightarrow> ustr option \<Rightarrow> nat \<Rightarrow>
     (IngestionResult \<times> CollectionChargeBudget) option \<Rightarrow> ('s crun, exn, flow) action" where
  "file_transferred p repo page_start index outcome =
     (case outcome of
        None \<Rightarrow> areturn Stop
      | Some (result, budget) \<Rightarrow>
          abind (amodify (\<lambda>c. c\<lparr>discovered := discovered c + 1\<rparr>)) (\<lambda>_.
          abind (advance repo page_start index page_start (Suc index)
                   (file_deltas 1 0 1 (if ir_duplicate result then 1 else 0))) (\<lambda>_.
          abind (amodify (\<lambda>c. c\<lparr>retry_boundary := False\<rparr>)) (\<lambda>_.
            if charge_budget_reason p budget \<noteq> None then truncate_run (charge_budget_reason p budget)
            else areturn Next))))"

text \<open>A recognized file in range that is to be transferred, from the file limit on.\<close>

definition collect_file ::
    "CollectionPolicy \<Rightarrow> 's CollectionRepository \<Rightarrow> 's CollectionPorts \<Rightarrow> CollectionScope \<Rightarrow> ustr option \<Rightarrow> nat \<Rightarrow>
     RemoteFile \<Rightarrow> bool \<Rightarrow> ('s crun, exn, flow) action" where
  "collect_file p repo ports scope page_start index f already_terminal =
     abind (aget id) (\<lambda>c.
     if ingested c \<ge> maximum_files p then truncate_run (Some ''file_limit'')
     else
       abind (call (r_charge_budget repo (attempt_id (attempt c)))) (\<lambda>budget.
       abind (amodify (\<lambda>c. c\<lparr>charged_bytes := run_charged_bytes budget\<rparr>)) (\<lambda>_.
         let retrying_terminal = already_terminal \<and> retry_boundary c;
             remaining = min (maximum_charged_bytes_run p - run_charged_bytes budget)
                             (maximum_charged_bytes_day p - day_charged_bytes budget);
             headroom = maximum_transfer_chunk_bytes p;
             full_reservation = maximum_archive_object_bytes p + protocol_overhead p f + headroom;
             reserved = (if retrying_terminal then 0 else min remaining full_reservation) in
         if charge_budget_reason p budget \<noteq> None \<and> \<not> retrying_terminal
         then truncate_run (charge_budget_reason p budget)
         else if remaining \<le> headroom \<and> \<not> retrying_terminal
         then truncate_run (Some (charge_limit_reason p budget))
         else
           abind (call (p_register ports f)) (\<lambda>registered.
           abind (call (r_reserve_transfer repo (attempt_id (attempt c)) (rs_source_file_id registered) f reserved)) (\<lambda>budget.
           abind (amodify (\<lambda>c. c\<lparr>charged_bytes := run_charged_bytes budget\<rparr>)) (\<lambda>_.
           abind (transfer_file p repo ports scope f (rs_source_file_id registered) page_start index budget
                    (if retrying_terminal then None else Some (reserved - headroom))) (\<lambda>outcome.
             file_transferred p repo page_start index outcome)))))))"

definition file_unknown :: "RemoteFile \<Rightarrow> bool" where
  "file_unknown f \<longleftrightarrow> rf_document_type f = UNKNOWN_DOCUMENT \<or> rf_compression f = UNKNOWN_COMPRESSION"

text \<open>A file that is passed over: the checkpoint moves, nothing is transferred.\<close>

definition pass_over ::
    "'s CollectionRepository \<Rightarrow> ustr option \<Rightarrow> nat \<Rightarrow> deltas \<Rightarrow> ('s crun, exn, flow) action" where
  "pass_over repo page_start index d =
     abind (amodify (\<lambda>c. c\<lparr>discovered := discovered c + 1, skipped_unknown := skipped_unknown c + unknown_delta d\<rparr>)) (\<lambda>_.
     abind (advance repo page_start index page_start (Suc index) d) (\<lambda>_.
     abind (amodify (\<lambda>c. c\<lparr>retry_boundary := False\<rparr>)) (\<lambda>_. areturn Next)))"

definition file_step ::
    "CollectionPolicy \<Rightarrow> bool \<Rightarrow> 's CollectionRepository \<Rightarrow> 's CollectionPorts \<Rightarrow> CollectionScope \<Rightarrow> ustr option \<Rightarrow> nat \<Rightarrow>
     RemoteFile \<Rightarrow> ('s crun, exn, flow) action" where
  "file_step p strict repo ports scope page_start index f =
     abind (acatch (abind (checkpoint_now ports) (\<lambda>_. areturn None))
              (\<lambda>e. if exn_class e = DiscoveryBudgetExceededError then areturn (Some (reason e)) else araise e)) (\<lambda>stopped.
     case stopped of
       Some why \<Rightarrow> truncate_run why
     | None \<Rightarrow>
         abind (aget discovered) (\<lambda>n.
         if n \<ge> maximum_discovery_records p then truncate_run (Some ''discovery_limit'')
         else
           abind (if strict then of_result (validate_remote_scope f scope) else areturn ()) (\<lambda>_.
           if file_unknown f then pass_over repo page_start index (file_deltas 0 1 0 0)
           else
             abind (call (r_is_terminal repo f (cs_archive_only scope))) (\<lambda>already_terminal.
             abind (aget retry_boundary) (\<lambda>retry.
             if \<not> within_range f (cs_since scope) (cs_until scope) \<or> (already_terminal \<and> \<not> retry)
             then pass_over repo page_start index (file_deltas 1 0 0 0)
             else collect_file p repo ports scope page_start index f already_terminal)))))"

fun file_loop ::
    "CollectionPolicy \<Rightarrow> bool \<Rightarrow> 's CollectionRepository \<Rightarrow> 's CollectionPorts \<Rightarrow> CollectionScope \<Rightarrow> ustr option \<Rightarrow> nat \<Rightarrow>
     RemoteFile list \<Rightarrow> ('s crun, exn, unit) action" where
  "file_loop p strict repo ports scope page_start index [] = areturn ()"
| "file_loop p strict repo ports scope page_start index (f # fs) =
     abind (file_step p strict repo ports scope page_start index f) (\<lambda>r.
       case r of Stop \<Rightarrow> areturn ()
       | Next \<Rightarrow> file_loop p strict repo ports scope page_start (Suc index) fs)"

section \<open>Pages\<close>

definition call_discover :: "'s CollectionPorts \<Rightarrow> ustr option \<Rightarrow> int \<Rightarrow> ('s crun, exn, DiscoveryPage) action" where
  "call_discover ports cur limit c =
     (case p_discover ports cur limit (listing_budget c, world c) of
        (r, (b, w)) \<Rightarrow> (r, c\<lparr>listing_budget := b, world := w\<rparr>))"

definition discover_page :: "'s CollectionPorts \<Rightarrow> ustr option \<Rightarrow> int \<Rightarrow> ('s crun, exn, DiscoveryPage) action" where
  "discover_page ports cur limit =
     abind (checkpoint_now ports) (\<lambda>_.
     abind (acatch (call_discover ports cur limit) (\<lambda>e.
        abind (aget world) (\<lambda>w.
        if exn_class e = TimeoutError \<and> p_timeout_expired ports w
        then of_result (budget_exceeded ''listing_elapsed_limit'') else araise e))) (\<lambda>page.
     abind (checkpoint_now ports) (\<lambda>_. areturn page)))"

definition next_page ::
    "CollectionPolicy \<Rightarrow> 's CollectionRepository \<Rightarrow> DiscoveryPage \<Rightarrow> ustr option \<Rightarrow> ('s crun, exn, flow) action" where
  "next_page p repo page page_start =
     (case dp_next_cursor page of
        None \<Rightarrow>
          if \<not> dp_complete page then araise (exn_of SourceResponseError)
          else abind (advance repo page_start (length (dp_files page)) None 0 no_deltas) (\<lambda>_.
               abind (amodify (\<lambda>c. c\<lparr>traversal_complete := True\<rparr>)) (\<lambda>_. areturn Stop))
      | Some value \<Rightarrow>
          abind (aget id) (\<lambda>c.
          case value of
            None \<Rightarrow> araise (exn_of SourceResponseError)
          | Some v \<Rightarrow>
              if Some v = page_start \<or> v \<in> seen_cursors c then araise (exn_of SourceResponseError)
              else
                abind (of_result (publisher_cursor v)) (\<lambda>selected.
                abind (amodify (\<lambda>c. c\<lparr>seen_cursors := insert selected (seen_cursors c)\<rparr>)) (\<lambda>_.
                abind (advance repo page_start (length (dp_files page)) (Some selected) 0 no_deltas) (\<lambda>_.
                abind (amodify (\<lambda>c. c\<lparr>cursor := Some selected, page_offset := 0\<rparr>)) (\<lambda>_.
                abind (aget id) (\<lambda>c.
                  if ingested c \<ge> maximum_files p \<or> discovered c \<ge> maximum_discovery_records p
                  then truncate_run (Some (if ingested c \<ge> maximum_files p then ''file_limit'' else ''discovery_limit''))
                  else areturn Next)))))))"

definition page_step ::
    "CollectionPolicy \<Rightarrow> bool \<Rightarrow> 's CollectionRepository \<Rightarrow> 's CollectionPorts \<Rightarrow> CollectionScope \<Rightarrow> ('s crun, exn, flow) action" where
  "page_step p strict repo ports scope =
     abind (aget cursor) (\<lambda>page_start.
     abind (acatch (abind (discover_page ports page_start (discovery_page_size p)) (\<lambda>page. areturn (Inr page)))
              (\<lambda>e. if exn_class e = DiscoveryBudgetExceededError then areturn (Inl (reason e)) else araise e)) (\<lambda>found.
     case found of
       Inl why \<Rightarrow> truncate_run why
     | Inr page \<Rightarrow>
         abind (aget page_offset) (\<lambda>offset.
         if offset > length (dp_files page) then araise (exn_of SourceResponseError)
         else if dp_files page = [] \<and> dp_next_cursor page \<noteq> None then araise (exn_of SourceResponseError)
         else
           abind (file_loop p strict repo ports scope page_start offset (drop offset (dp_files page))) (\<lambda>_.
           abind (aget run_truncated) (\<lambda>stopped.
           if stopped then areturn Stop else next_page p repo page page_start)))))"

text \<open>
  The \<^verbatim>\<open>while True\<close> loop over pages with fuel: \<open>False\<close> is running out of fuel. The fuel
  \<open>maximum_discovery_records + 2\<close> that \<open>collect_with_context\<close> gives it is always enough.
\<close>

fun page_loop ::
    "nat \<Rightarrow> CollectionPolicy \<Rightarrow> bool \<Rightarrow> 's CollectionRepository \<Rightarrow> 's CollectionPorts \<Rightarrow> CollectionScope \<Rightarrow>
     ('s crun, exn, bool) action" where
  "page_loop 0 p strict repo ports scope = areturn False"
| "page_loop (Suc fuel) p strict repo ports scope =
     abind (page_step p strict repo ports scope) (\<lambda>r.
       case r of Stop \<Rightarrow> areturn True | Next \<Rightarrow> page_loop fuel p strict repo ports scope)"

section \<open>A whole run\<close>

record CollectionResult =
  cr_status :: string
  cr_file_count :: int
  cr_discovered_count :: int
  cr_duplicate_count :: int
  cr_skipped_unknown_count :: int
  cr_reported_files :: "(ustr \<times> IngestionResult) list"
  cr_report_truncated :: bool
  cr_run_truncated :: bool
  cr_truncation_reason :: "string option"
  cr_listing_request_count :: int
  cr_listing_bytes :: int
  cr_charged_bytes :: int
  cr_attempt_id :: nat
  cr_generation :: int

definition run_of :: "CollectionAttempt \<Rightarrow> DiscoveryRunBudget \<Rightarrow> 's \<Rightarrow> 's crun" where
  "run_of a b s =
     \<lparr>attempt = a, cursor = ca_cursor a, page_offset = ca_page_offset a, seen_cursors = {},
      discovered = 0, ingested = 0, duplicates = 0, skipped_unknown = 0, reported = [],
      run_truncated = False, truncation_reason = None, traversal_complete = False,
      retry_boundary = ca_retry_boundary a, postprocess_pending = False, listing_budget = b,
      charged_bytes = 0, world = s\<rparr>"

definition result_of :: "'s crun \<Rightarrow> CollectionResult" where
  "result_of c =
     \<lparr>cr_status = (if run_truncated c then ''bounded'' else ''completed''), cr_file_count = ingested c,
      cr_discovered_count = discovered c, cr_duplicate_count = duplicates c,
      cr_skipped_unknown_count = skipped_unknown c, cr_reported_files = reported c,
      cr_report_truncated = ingested c > int (length (reported c)), cr_run_truncated = run_truncated c,
      cr_truncation_reason = truncation_reason c,
      cr_listing_request_count = request_count (listing_budget c),
      cr_listing_bytes = consumed_bytes (listing_budget c), cr_charged_bytes = charged_bytes c,
      cr_attempt_id = attempt_id (attempt c), cr_generation = ca_generation (attempt c)\<rparr>"

definition page_fuel :: "CollectionPolicy \<Rightarrow> nat" where
  "page_fuel p = nat (maximum_discovery_records p) + 2"

definition traverse ::
    "CollectionPolicy \<Rightarrow> bool \<Rightarrow> 's CollectionRepository \<Rightarrow> 's CollectionPorts \<Rightarrow> CollectionScope \<Rightarrow> ('s crun, exn, bool) action" where
  "traverse p strict repo ports scope =
     abind (page_loop (page_fuel p) p strict repo ports scope) (\<lambda>ended.
     abind (aget id) (\<lambda>c.
       if traversal_complete c \<and> ca_recognized_count (attempt c) = 0 \<and> ca_unknown_count (attempt c) > 0
       then araise (exn_of SourceResponseError) else areturn ended))"

text \<open>
  \<^verbatim>\<open>_collect_with_context\<close>: \<open>None\<close> would be a traversal that does not end.
\<close>

definition collect_with_context ::
    "CollectionPolicy \<Rightarrow> bool \<Rightarrow> 's CollectionRepository \<Rightarrow> 's CollectionPorts \<Rightarrow> CollectionScope \<Rightarrow>
     ('s crun, exn, CollectionResult option) action" where
  "collect_with_context p strict repo ports scope =
     abind (acatch (traverse p strict repo ports scope) (\<lambda>e.
        abind (aget id) (\<lambda>c.
        abind (call (r_finish_attempt repo (attempt_id (attempt c)) ''failed'' False (traversal_complete c) None
                 (Some (collection_error_code e)))) (\<lambda>_. araise e)))) (\<lambda>ended.
     abind (aget id) (\<lambda>c.
     abind (call (r_finish_attempt repo (attempt_id (attempt c))
              (if run_truncated c then ''bounded'' else ''completed'') (run_truncated c) (traversal_complete c)
              (durable_truncation_reason (truncation_reason c)) None)) (\<lambda>_.
     abind (aget result_of) (\<lambda>r. areturn (if ended then Some r else None)))))"

text \<open>The budget of a run starts with the run; the local variables live as long as the call.\<close>

definition start_run ::
    "CollectionPolicy \<Rightarrow> bool \<Rightarrow> 's CollectionRepository \<Rightarrow> 's CollectionPorts \<Rightarrow> CollectionScope \<Rightarrow> CollectionAttempt \<Rightarrow>
     ('s, exn, CollectionResult option) action" where
  "start_run p strict repo ports scope a s =
     (case p_monotonic ports s of (now, s') \<Rightarrow>
        (case DiscoveryRunBudget_init (maximum_listing_requests p) (maximum_listing_bytes p)
                (maximum_listing_elapsed_seconds p) now of
           Inl e \<Rightarrow> (Inl e, s')
         | Inr b \<Rightarrow>
             (case collect_with_context p strict repo ports scope (run_of a b s') of (r, c) \<Rightarrow> (r, world c))))"

text \<open>\<^verbatim>\<open>_collect\<close> for a validated scope: the lease is released however the run ends.\<close>

definition collect ::
    "CollectionPolicy \<Rightarrow> bool \<Rightarrow> 's CollectionRepository \<Rightarrow> 's CollectionPorts \<Rightarrow> CollectionScope \<Rightarrow>
     ('s, exn, CollectionResult option) action" where
  "collect p strict repo ports scope =
     abind (p_acquire_lease ports (cs_source_id scope)) (\<lambda>acquired.
       afinally
         (if \<not> acquired then araise (exn_of LeaseUnavailableError)
          else abind (r_begin_attempt repo scope) (start_run p strict repo ports scope))
         (p_release_lease ports (cs_source_id scope)))"

end
