(* ===== verification/Collection_Bounds.thy ===== *)
theory Collection_Bounds
  imports Collection
begin

text \<open>
  What the traversal guarantees whatever its ports do: it ends, because every page after the
  first moves the count of discovered records, and the counts stay within the policy. The
  ports act on the world only, so the local variables change by the code of the traversal
  alone.
\<close>

section \<open>Weakest preconditions of the local calls\<close>

lemma wp_call:
  "wp (call m) Q E c \<longleftrightarrow> wp m (\<lambda>x w. Q x (c\<lparr>world := w\<rparr>)) (\<lambda>e w. E e (c\<lparr>world := w\<rparr>)) (world c)"
  by (auto simp: wp_def call_def split: prod.splits sum.splits)

lemma wp_call_any:
  "(\<And>x w. Q x (c\<lparr>world := w\<rparr>)) \<Longrightarrow> (\<And>e w. E e (c\<lparr>world := w\<rparr>)) \<Longrightarrow> wp (call m) Q E c"
  unfolding wp_call by (rule wp_any)

lemma wp_case_flow [action_simps]:
  "wp (case r of Next \<Rightarrow> m | Stop \<Rightarrow> n) Q E c \<longleftrightarrow> (case r of Next \<Rightarrow> wp m Q E c | Stop \<Rightarrow> wp n Q E c)"
  by (cases r) simp_all

lemma wp_truncate_run [action_simps]:
  "wp (truncate_run why) Q E c \<longleftrightarrow> Q Stop (c\<lparr>run_truncated := True, truncation_reason := why\<rparr>)"
  by (simp add: truncate_run_def action_simps)

lemma wp_checkpoint_now:
  "(\<And>w. Q () (c\<lparr>world := w\<rparr>)) \<Longrightarrow>
   (\<And>w. E ((exn_of DiscoveryBudgetExceededError)\<lparr>reason := Some ''listing_elapsed_limit''\<rparr>) (c\<lparr>world := w\<rparr>)) \<Longrightarrow>
   wp (checkpoint_now ports) Q E c"
proof -
  assume Q: "\<And>w. Q () (c\<lparr>world := w\<rparr>)"
    and E: "\<And>w. E ((exn_of DiscoveryBudgetExceededError)\<lparr>reason := Some ''listing_elapsed_limit''\<rparr>) (c\<lparr>world := w\<rparr>)"
  obtain now w where m: "p_monotonic ports (world c) = (now, w)" by (cases "p_monotonic ports (world c)")
  show ?thesis using listing_checkpoint_cases [of now "listing_budget c"] Q E
    by (auto simp: wp_def checkpoint_now_def m)
qed

lemma wp_call_discover:
  "(\<And>x b w. Q x (c\<lparr>listing_budget := b, world := w\<rparr>)) \<Longrightarrow>
   (\<And>e b w. E e (c\<lparr>listing_budget := b, world := w\<rparr>)) \<Longrightarrow> wp (call_discover ports cur n) Q E c"
  by (auto simp: wp_def call_discover_def split: prod.splits sum.splits)

section \<open>Counts\<close>

text \<open>\<open>within_policy\<close>: the counts of a run; \<open>stepped\<close>: one more file has been looked at.\<close>

definition within_policy :: "CollectionPolicy \<Rightarrow> 's crun \<Rightarrow> bool" where
  "within_policy p c \<longleftrightarrow>
     0 \<le> discovered c \<and> discovered c \<le> maximum_discovery_records p \<and>
     0 \<le> ingested c \<and> ingested c \<le> maximum_files p \<and>
     int (length (reported c)) \<le> maximum_reported_files p"

definition same_page :: "'s crun \<Rightarrow> 's crun \<Rightarrow> bool" where
  "same_page c c' \<longleftrightarrow> cursor c' = cursor c \<and> page_offset c' = page_offset c \<and> seen_cursors c' = seen_cursors c \<and>
     traversal_complete c' = traversal_complete c"

lemma within_policy_frame [simp]:
  "within_policy p (c\<lparr>world := w\<rparr>) = within_policy p c"
  "within_policy p (c\<lparr>attempt := a\<rparr>) = within_policy p c"
  "within_policy p (c\<lparr>charged_bytes := n\<rparr>) = within_policy p c"
  "within_policy p (c\<lparr>postprocess_pending := b\<rparr>) = within_policy p c"
  "within_policy p (c\<lparr>retry_boundary := b\<rparr>) = within_policy p c"
  "within_policy p (c\<lparr>run_truncated := b\<rparr>) = within_policy p c"
  "within_policy p (c\<lparr>truncation_reason := y\<rparr>) = within_policy p c"
  "within_policy p (c\<lparr>listing_budget := z\<rparr>) = within_policy p c"
  "within_policy p (c\<lparr>cursor := u\<rparr>) = within_policy p c"
  "within_policy p (c\<lparr>page_offset := k\<rparr>) = within_policy p c"
  "within_policy p (c\<lparr>seen_cursors := v\<rparr>) = within_policy p c"
  "within_policy p (c\<lparr>traversal_complete := b\<rparr>) = within_policy p c"
  "within_policy p (c\<lparr>skipped_unknown := n\<rparr>) = within_policy p c"
  by (simp_all add: within_policy_def)

lemma within_policy_discovered:
  "within_policy p c \<Longrightarrow> discovered c = n \<Longrightarrow> n < maximum_discovery_records p \<Longrightarrow>
   within_policy p (c\<lparr>discovered := n + 1\<rparr>)"
  by (auto simp: within_policy_def)

lemma same_page_refl [simp]: "same_page c c"
  by (simp add: same_page_def)

lemma same_page_frame [simp]:
  "same_page c (c'\<lparr>world := w\<rparr>) = same_page c c'"
  "same_page c (c'\<lparr>attempt := a\<rparr>) = same_page c c'"
  "same_page c (c'\<lparr>charged_bytes := n\<rparr>) = same_page c c'"
  "same_page c (c'\<lparr>postprocess_pending := b\<rparr>) = same_page c c'"
  "same_page c (c'\<lparr>retry_boundary := b\<rparr>) = same_page c c'"
  "same_page c (c'\<lparr>run_truncated := b\<rparr>) = same_page c c'"
  "same_page c (c'\<lparr>truncation_reason := y\<rparr>) = same_page c c'"
  "same_page c (c'\<lparr>listing_budget := z\<rparr>) = same_page c c'"
  "same_page c (c'\<lparr>discovered := n\<rparr>) = same_page c c'"
  "same_page c (c'\<lparr>skipped_unknown := n\<rparr>) = same_page c c'"
  "same_page (c\<lparr>world := w\<rparr>) c' = same_page c c'"
  "same_page (c\<lparr>charged_bytes := n\<rparr>) c' = same_page c c'"
  by (simp_all add: same_page_def)

lemma same_page_trans [trans]: "same_page a b \<Longrightarrow> same_page b c \<Longrightarrow> same_page a c"
  by (simp add: same_page_def)

definition file_post :: "CollectionPolicy \<Rightarrow> 's crun \<Rightarrow> flow \<Rightarrow> 's crun \<Rightarrow> bool" where
  "file_post p c r c' \<longleftrightarrow> within_policy p c' \<and> same_page c c' \<and> discovered c \<le> discovered c' \<and>
     (case r of Next \<Rightarrow> discovered c' = discovered c + 1 \<and> run_truncated c' = run_truncated c
      | Stop \<Rightarrow> run_truncated c')"

lemma advance_local:
  "(\<And>a w. Q () (c\<lparr>world := w, attempt := a\<rparr>)) \<Longrightarrow> (\<And>e w. E e (c\<lparr>world := w\<rparr>)) \<Longrightarrow>
   wp (advance repo ec eo cur off d) Q E c"
  by (auto simp: advance_def action_simps intro!: wp_call_any)

lemma pass_over_local:
  assumes "within_policy p c" "discovered c < maximum_discovery_records p"
  shows "wp (pass_over repo ps i d) (file_post p c) (\<lambda>e. within_policy p) c"
  using assms
  by (auto simp: pass_over_def action_simps file_post_def within_policy_def same_page_def intro!: advance_local)

text \<open>A transfer changes the counts of ingested and reported files only, a failed one also the discovered.\<close>

lemma process_file_local:
  assumes "within_policy p c" "ingested c < maximum_files p"
    and "\<And>r c'. within_policy p c' \<Longrightarrow> same_page c c' \<Longrightarrow> discovered c' = discovered c \<Longrightarrow>
           run_truncated c' = run_truncated c \<Longrightarrow> Q r c'"
    and "\<And>e c'. within_policy p c' \<Longrightarrow> same_page c c' \<Longrightarrow> discovered c' = discovered c \<Longrightarrow>
           run_truncated c' = run_truncated c \<Longrightarrow> E e c'"
  shows "wp (process_file p repo ports scope f sid limit) Q E c"
  using assms(1,2)
  by (auto simp: process_file_def bootstrap_catalog_def action_simps within_policy_def same_page_def
      intro!: wp_call_any assms(3,4) split: option.splits)


lemma transfer_failed_local:
  assumes "within_policy p c" "discovered c < maximum_discovery_records p"
    and "\<And>c'. within_policy p c' \<Longrightarrow> same_page c c' \<Longrightarrow> discovered c' = discovered c + 1 \<Longrightarrow> run_truncated c' \<Longrightarrow> Q None c'"
    and "\<And>e c'. within_policy p c' \<Longrightarrow> E e c'"
  shows "wp (transfer_failed p repo scope f sid ps i budget e) Q E c"
  using assms(1,2)
  by (auto simp: transfer_failed_def action_simps within_policy_def same_page_def
      intro!: wp_call_any advance_local assms(3,4))

definition transfer_post ::
    "CollectionPolicy \<Rightarrow> 's crun \<Rightarrow> (IngestionResult \<times> CollectionChargeBudget) option \<Rightarrow> 's crun \<Rightarrow> bool" where
  "transfer_post p c r c' \<longleftrightarrow> within_policy p c' \<and> same_page c c' \<and>
     (case r of None \<Rightarrow> run_truncated c' \<and> discovered c' = discovered c + 1
      | Some _ \<Rightarrow> discovered c' = discovered c \<and> run_truncated c' = run_truncated c)"

lemma transfer_file_local:
  assumes "within_policy p c" "ingested c < maximum_files p" "discovered c < maximum_discovery_records p"
  shows "wp (transfer_file p repo ports scope f sid ps i budget limit) (transfer_post p c) (\<lambda>e. within_policy p) c"
proof -
  have failed: "wp (transfer_failed p repo scope f sid ps i budget e) (transfer_post p c) (\<lambda>e. within_policy p) c'"
    if "within_policy p c'" "same_page c c'" "discovered c' = discovered c" for e c'
    using that assms(3) by (intro transfer_failed_local) (auto simp: transfer_post_def intro: same_page_trans)
  show ?thesis unfolding transfer_file_def wp_acatch wp_abind wp_case_prod
    by (rule process_file_local [OF assms(1,2)])
      (auto simp: action_simps transfer_post_def [of p c "Some _"] intro!: wp_call_any failed)
qed

lemma file_post_frame [simp]:
  "file_post p (c\<lparr>world := w\<rparr>) = file_post p c" "file_post p (c\<lparr>charged_bytes := n\<rparr>) = file_post p c"
  by (simp_all add: file_post_def fun_eq_iff split: flow.split)

lemma file_transferred_local:
  assumes "transfer_post p c r c'" "discovered c < maximum_discovery_records p"
  shows "wp (file_transferred p repo ps i r) (file_post p c) (\<lambda>e. within_policy p) c'"
  using assms
  by (auto simp: file_transferred_def action_simps transfer_post_def file_post_def within_policy_discovered
      split: option.split_asm intro!: advance_local)

lemma collect_file_local:
  assumes c: "within_policy p c" "discovered c < maximum_discovery_records p"
  shows "wp (collect_file p repo ports scope ps i f b) (file_post p c) (\<lambda>e. within_policy p) c"
proof (cases "ingested c < maximum_files p")
  case True
  have transfer: "wp (transfer_file p repo ports scope f sid ps i budget limit)
      (\<lambda>r. wp (file_transferred p repo ps i r) (file_post p c) (\<lambda>e. within_policy p))
      (\<lambda>e. within_policy p) (c\<lparr>world := w, charged_bytes := n\<rparr>)" for sid budget limit w n
  proof (rule wp_mono [OF transfer_file_local])
    fix r c' assume "transfer_post p (c\<lparr>world := w, charged_bytes := n\<rparr>) r c'"
    from file_transferred_local [OF this]
    show "wp (file_transferred p repo ps i r) (file_post p c) (\<lambda>e. within_policy p) c'" using c by simp
  qed (use c True in simp_all)
  show ?thesis unfolding collect_file_def
    using c True by (auto simp: action_simps Let_def file_post_def [of p c Stop] intro!: wp_call_any transfer)
next
  case False
  then show ?thesis using c by (simp add: collect_file_def action_simps file_post_def)
qed

lemma file_step_local:
  assumes c: "within_policy p c"
  shows "wp (file_step p strict repo ports scope ps i f) (file_post p c) (\<lambda>e. within_policy p) c"
proof -
  have 1: "wp (pass_over repo ps i d) (file_post p c) (\<lambda>e. within_policy p) (c\<lparr>world := w\<rparr>)"
    if "discovered c < maximum_discovery_records p" for d w
    using pass_over_local [of p "c\<lparr>world := w\<rparr>"] c that by simp
  have 2: "wp (collect_file p repo ports scope ps i f b) (file_post p c) (\<lambda>e. within_policy p) (c\<lparr>world := w\<rparr>)"
    if "discovered c < maximum_discovery_records p" for b w
    using collect_file_local [of p "c\<lparr>world := w\<rparr>"] c that by simp
  show ?thesis unfolding file_step_def
    using c by (auto simp: action_simps validate_remote_scope_def err_def file_post_def [of p c Stop]
        intro!: wp_checkpoint_now wp_call_any 1 2)
qed

section \<open>Pages\<close>

lemma same_page_update [simp]:
  "same_page (c\<lparr>listing_budget := b\<rparr>) c' = same_page c c'"
  by (simp add: same_page_def)

definition loop_post :: "CollectionPolicy \<Rightarrow> 's crun \<Rightarrow> nat \<Rightarrow> unit \<Rightarrow> 's crun \<Rightarrow> bool" where
  "loop_post p c n u c' \<longleftrightarrow> within_policy p c' \<and> same_page c c' \<and> discovered c \<le> discovered c' \<and>
     (run_truncated c' \<or> discovered c' = discovered c + int n)"

lemma file_loop_local:
  "within_policy p c \<Longrightarrow>
   wp (file_loop p strict repo ports scope ps i fs) (loop_post p c (length fs)) (\<lambda>e. within_policy p) c"
proof (induction fs arbitrary: i c)
  case Nil
  then show ?case by (simp add: action_simps loop_post_def)
next
  case (Cons f fs)
  show ?case unfolding file_loop.simps wp_abind
  proof (rule wp_mono [OF file_step_local [OF Cons.prems]])
    fix r c' assume r: "file_post p c r c'"
    then have c': "within_policy p c'" by (simp add: file_post_def)
    show "wp (case r of Next \<Rightarrow> file_loop p strict repo ports scope ps (Suc i) fs | Stop \<Rightarrow> areturn ())
        (loop_post p c (length (f # fs))) (\<lambda>e. within_policy p) c'"
    proof (cases r)
      case Next
      have "loop_post p c (length (f # fs)) u c''" if "loop_post p c' (length fs) u c''" for u c''
        using that r Next by (auto simp: loop_post_def file_post_def intro: same_page_trans)
      then show ?thesis using wp_mono [OF Cons.IH [OF c']] Next by simp
    next
      case Stop
      then show ?thesis using r by (simp add: action_simps loop_post_def file_post_def)
    qed
  qed
qed

text \<open>A page step that goes on has discovered the rest of its page and stands at the next page's start.\<close>

definition page_post :: "CollectionPolicy \<Rightarrow> 's crun \<Rightarrow> flow \<Rightarrow> 's crun \<Rightarrow> bool" where
  "page_post p c r c' \<longleftrightarrow> within_policy p c' \<and>
     (case r of Stop \<Rightarrow> True
      | Next \<Rightarrow> \<not> run_truncated c' \<and> page_offset c' = 0 \<and> discovered c' < maximum_discovery_records p \<and>
                discovered c \<le> discovered c' \<and> (page_offset c = 0 \<longrightarrow> discovered c < discovered c'))"

lemma next_page_local:
  assumes "within_policy p c'" "\<not> run_truncated c'" "discovered c \<le> discovered c'"
    and "dp_next_cursor page \<noteq> None \<Longrightarrow> page_offset c = 0 \<Longrightarrow> discovered c < discovered c'"
  shows "wp (next_page p repo page ps) (page_post p c) (\<lambda>e. within_policy p) c'"
  using assms
  by (cases "dp_next_cursor page")
    (auto simp: next_page_def action_simps page_post_def publisher_cursor_def err_def
      split: option.split sum.split intro!: advance_local)

lemma discover_page_local:
  assumes "within_policy p c"
    and "\<And>x c'. within_policy p c' \<Longrightarrow> same_page c c' \<Longrightarrow> discovered c' = discovered c \<Longrightarrow>
           run_truncated c' = run_truncated c \<Longrightarrow> Q x c'"
    and "\<And>e c'. within_policy p c' \<Longrightarrow> E e c'"
  shows "wp (discover_page ports cur n) Q E c"
  using assms(1)
  by (auto simp: discover_page_def action_simps budget_exceeded_def DiscoveryBudgetExceededError_init_def
      intro!: wp_checkpoint_now wp_call_discover assms(2,3))

lemma page_step_local:
  assumes c: "within_policy p c" "\<not> run_truncated c"
  shows "wp (page_step p strict repo ports scope) (page_post p c) (\<lambda>e. within_policy p) c"
proof -
  have rest: "wp (file_loop p strict repo ports scope ps (page_offset c1) (drop (page_offset c1) (dp_files page)))
      (\<lambda>_. wp (abind (aget run_truncated) (\<lambda>stopped. if stopped then areturn Stop else next_page p repo page ps))
         (page_post p c) (\<lambda>e. within_policy p))
      (\<lambda>e. within_policy p) c1"
    if c1: "within_policy p c1" "same_page c c1" "discovered c1 = discovered c" "run_truncated c1 = run_truncated c"
      and page: "dp_files page \<noteq> [] \<or> dp_next_cursor page = None" for c1 page ps
  proof (rule wp_mono [OF file_loop_local [OF c1(1)]])
    fix u c2 assume post: "loop_post p c1 (length (drop (page_offset c1) (dp_files page))) u c2"
    show "wp (abind (aget run_truncated) (\<lambda>stopped. if stopped then areturn Stop else next_page p repo page ps))
        (page_post p c) (\<lambda>e. within_policy p) c2"
    proof (cases "run_truncated c2")
      case False
      have "page_offset c1 = page_offset c" using c1(2) by (simp add: same_page_def)
      then show ?thesis using post False page c1(3)
        by (auto simp: action_simps loop_post_def intro!: next_page_local)
    qed (use post in \<open>simp add: action_simps loop_post_def page_post_def\<close>)
  qed simp
  show ?thesis unfolding page_step_def wp_abind wp_aget wp_acatch wp_areturn
    by (rule discover_page_local [OF c(1)])
      (use c(2) in \<open>auto simp: action_simps page_post_def [of p c Stop] intro!: rest\<close>)
qed

lemma page_post_trans:
  "page_post p c Next c1 \<Longrightarrow> page_offset c1 = 0 \<and> \<not> run_truncated c1 \<and> within_policy p c1"
  by (simp add: page_post_def)

text \<open>The traversal ends: every page after the first discovers at least one record.\<close>

lemma page_loop_local:
  assumes "within_policy p c" "\<not> run_truncated c"
  shows "wp (page_loop fuel p strict repo ports scope)
     (\<lambda>ended c'. within_policy p c' \<and>
        (page_offset c = 0 \<longrightarrow> maximum_discovery_records p - discovered c < int fuel \<longrightarrow> ended))
     (\<lambda>e. within_policy p) c"
  using assms
proof (induction fuel arbitrary: c)
  case 0
  then show ?case by (auto simp: action_simps within_policy_def)
next
  case (Suc fuel)
  show ?case unfolding page_loop.simps wp_abind
  proof (rule wp_mono [OF page_step_local [OF Suc.prems]])
    fix r c1 assume post: "page_post p c r c1"
    show "wp (case r of Next \<Rightarrow> page_loop fuel p strict repo ports scope | Stop \<Rightarrow> areturn True)
       (\<lambda>ended c'. within_policy p c' \<and>
          (page_offset c = 0 \<longrightarrow> maximum_discovery_records p - discovered c < int (Suc fuel) \<longrightarrow> ended))
       (\<lambda>e. within_policy p) c1"
    proof (cases r)
      case Next
      have "within_policy p c1" "\<not> run_truncated c1" "page_offset c1 = 0"
        "page_offset c = 0 \<longrightarrow> discovered c < discovered c1"
        using post Next by (auto simp: page_post_def)
      then show ?thesis using Next by (auto intro!: wp_mono [OF Suc.IH])
    qed (use post in \<open>simp add: action_simps page_post_def\<close>)
  qed
qed

lemma page_loop_ends:
  assumes "within_policy p c" "\<not> run_truncated c" "maximum_discovery_records p - discovered c + 1 < int fuel"
  shows "wp (page_loop fuel p strict repo ports scope) (\<lambda>ended c'. within_policy p c' \<and> ended)
     (\<lambda>e. within_policy p) c"
proof -
  obtain k where fuel: "fuel = Suc k" using assms by (cases fuel) (auto simp: within_policy_def)
  show ?thesis unfolding fuel page_loop.simps wp_abind
  proof (rule wp_mono [OF page_step_local [OF assms(1,2)]])
    fix r c1 assume post: "page_post p c r c1"
    show "wp (case r of Next \<Rightarrow> page_loop k p strict repo ports scope | Stop \<Rightarrow> areturn True)
       (\<lambda>ended c'. within_policy p c' \<and> ended) (\<lambda>e. within_policy p) c1"
    proof (cases r)
      case Next
      then show ?thesis using post assms(3) fuel
        by (auto simp: page_post_def intro!: wp_mono [OF page_loop_local])
    qed (use post in \<open>simp add: action_simps page_post_def\<close>)
  qed
qed

end
