(* ===== verification/Collection_Safety.thy ===== *)
theory Collection_Safety
  imports Collection_Bounds
begin

text \<open>
  What the traversal guarantees on top of a repository that keeps its contract. The locale
  \<open>collection_repository\<close> states the contract of the protocol \<^verbatim>\<open>CollectionRepository\<close> (a checkpoint
  moves by compare-and-set only, terminal marks stay, a reservation charges at most its
  size, a settlement never charges more) and that the other ports do not touch what the
  repository keeps. Inside it: the checkpoint passes a file only when the file needs no
  further work, and the charges never exceed the policy. The in-memory repository is shown
  to keep the contract.
\<close>

section \<open>The contract\<close>

text \<open>
  What is observed: where the checkpoint of an attempt stands, which files are terminal, the
  bytes charged to an attempt and to the day of its source, and which files the source
  adapter has listed, in order (a ghost: no code reads it).
\<close>

locale repository_view =
  fixes invar :: "'s \<Rightarrow> bool"
    and position :: "'s \<Rightarrow> nat \<Rightarrow> (ustr option \<times> nat) option"
    and finished :: "'s \<Rightarrow> RemoteFile \<Rightarrow> bool \<Rightarrow> bool"
    and run_charge :: "'s \<Rightarrow> nat \<Rightarrow> int" and source_of :: "'s \<Rightarrow> nat \<Rightarrow> ustr" and day_charge :: "'s \<Rightarrow> ustr \<Rightarrow> int"
    and offered :: "'s \<Rightarrow> RemoteFile list"
begin

definition remembers :: "'s \<Rightarrow> 's \<Rightarrow> bool" where
  "remembers s t \<longleftrightarrow> (\<forall>f b. finished s f b \<longrightarrow> finished t f b)"

lemma remembers_refl [simp]: "remembers s s"
  by (simp add: remembers_def)

lemma remembers_trans: "remembers s t \<Longrightarrow> remembers t u \<Longrightarrow> remembers s u"
  by (simp add: remembers_def)

lemma remembersD: "remembers s t \<Longrightarrow> finished s f b \<Longrightarrow> finished t f b"
  by (simp add: remembers_def)

definition settles :: "'s \<Rightarrow> 's \<Rightarrow> bool" where
  "settles s t \<longleftrightarrow> (invar s \<longrightarrow> invar t \<and> position t = position s \<and> remembers s t \<and> offered t = offered s \<and>
      (\<forall>a. run_charge t a \<le> run_charge s a) \<and> (\<forall>src. day_charge t src \<le> day_charge s src))"

definition keeps :: "'s \<Rightarrow> 's \<Rightarrow> bool" where
  "keeps s t \<longleftrightarrow> settles s t \<and> (invar s \<longrightarrow>
     run_charge t = run_charge s \<and> source_of t = source_of s \<and> day_charge t = day_charge s)"

lemma settles_refl [simp]: "settles s s"
  by (simp add: settles_def)

lemma keeps_refl [simp]: "keeps s s"
  by (simp add: keeps_def)

lemma keeps_settles: "keeps s t \<Longrightarrow> settles s t"
  by (simp add: keeps_def)

lemma settles_trans: "settles s t \<Longrightarrow> settles t u \<Longrightarrow> settles s u"
  unfolding settles_def by (auto intro: order_trans remembers_trans)

end

locale collection_repository = repository_view invar position finished run_charge source_of day_charge offered
  for invar :: "'s \<Rightarrow> bool"
    and position :: "'s \<Rightarrow> nat \<Rightarrow> (ustr option \<times> nat) option"
    and finished :: "'s \<Rightarrow> RemoteFile \<Rightarrow> bool \<Rightarrow> bool"
    and run_charge :: "'s \<Rightarrow> nat \<Rightarrow> int" and source_of :: "'s \<Rightarrow> nat \<Rightarrow> ustr" and day_charge :: "'s \<Rightarrow> ustr \<Rightarrow> int"
    and offered :: "'s \<Rightarrow> RemoteFile list" +
  fixes repo :: "'s CollectionRepository" and ports :: "'s CollectionPorts"
  assumes advance_returns: "r_advance_attempt repo a ec eo c off d s = (Inr x, t) \<Longrightarrow> invar s \<Longrightarrow>
      attempt_id x = a \<and> position s a = Some (ec, eo) \<and> invar t \<and>
      position t a = Some (c, off) \<and> remembers s t \<and> offered t = offered s \<and>
      run_charge t = run_charge s \<and> day_charge t = day_charge s"
    and advance_raises: "r_advance_attempt repo a ec eo c off d s = (Inl e, t) \<Longrightarrow> keeps s t"
    and finish_keeps: "r_finish_attempt repo a st tr tc why code s = (r, t) \<Longrightarrow> keeps s t"
    and observe_keeps: "r_observe_attempt repo a n s = (r', t) \<Longrightarrow> keeps s t"
    and is_terminal_keeps: "r_is_terminal repo f ao s = (rb, t) \<Longrightarrow> keeps s t"
    and is_terminal_sound: "r_is_terminal repo f ao s = (Inr True, t) \<Longrightarrow> invar s \<Longrightarrow> finished t f ao"
    and note_terminal_keeps: "r_note_terminal repo f ao s = (r', t) \<Longrightarrow> keeps s t"
    and note_terminal_marks: "r_note_terminal repo f ao s = (Inr u, t) \<Longrightarrow> invar s \<Longrightarrow> finished t f ao"
    and charge_budget_keeps: "r_charge_budget repo a s = (rc, t) \<Longrightarrow> keeps s t"
    and charge_budget_exact: "r_charge_budget repo a s = (Inr b, t) \<Longrightarrow> invar s \<Longrightarrow>
      run_charged_bytes b = run_charge t a \<and> day_charged_bytes b = day_charge t (source_of t a)"
    and reserve_raises: "r_reserve_transfer repo a i f n s = (Inl e, t) \<Longrightarrow> keeps s t"
    and reserve_returns: "r_reserve_transfer repo a i f n s = (Inr b, t) \<Longrightarrow> invar s \<Longrightarrow> 0 \<le> n \<Longrightarrow>
      invar t \<and> position t = position s \<and> remembers s t \<and> offered t = offered s \<and>
      (\<forall>b. run_charge t b \<le> max (run_charge s b) (run_charge s a + n)) \<and>
      (\<forall>src. day_charge t src \<le> max (day_charge s src) (day_charge s (source_of s a) + n))"
    and settle_settles: "r_settle_transfer repo a i f m s = (rc, t) \<Longrightarrow> settles s t"
    and register_keeps: "p_register ports f s = (rr, t) \<Longrightarrow> keeps s t"
    and ingest_keeps: "p_ingest ports f limit s = (ri, t) \<Longrightarrow> keeps s t"
    and archive_only_keeps: "p_archive_only ports f limit s = (ri, t) \<Longrightarrow> keeps s t"
    and bootstrap_keeps: "p_bootstrap ports = Some boot \<Longrightarrow> boot i s = (r', t) \<Longrightarrow> keeps s t"
    and discover_raises: "p_discover ports cur limit' (bud, s) = (Inl e, (bud', t)) \<Longrightarrow> keeps s t"
    and discover_returns: "p_discover ports cur limit' (bud, s) = (Inr page, (bud', t)) \<Longrightarrow> invar s \<Longrightarrow>
      invar t \<and> position t = position s \<and> remembers s t \<and> offered t = offered s @ dp_files page \<and>
      run_charge t = run_charge s \<and> day_charge t = day_charge s"
    and monotonic_keeps: "p_monotonic ports s = (now, t) \<Longrightarrow> keeps s t"
begin

section \<open>Calls\<close>

abbreviation pos :: "'s crun \<Rightarrow> (ustr option \<times> nat) option" where
  "pos c \<equiv> position (world c) (attempt_id (attempt c))"

text \<open>
  \<open>ok p c0 c\<close>: the run \<open>c\<close> that started as \<open>c0\<close> is about the same attempt, has lost no terminal
  mark and has charged no more than the policy allows.
\<close>

definition good :: "CollectionPolicy \<Rightarrow> 's \<Rightarrow> nat \<Rightarrow> 's \<Rightarrow> nat \<Rightarrow> bool" where
  "good p w0 a0 w a \<longleftrightarrow> a = a0 \<and> invar w \<and> remembers w0 w \<and> offered w = offered w0 \<and>
     (\<forall>b. run_charge w b \<le> maximum_charged_bytes_run p) \<and> (\<forall>src. day_charge w src \<le> maximum_charged_bytes_day p)"

abbreviation ok :: "CollectionPolicy \<Rightarrow> 's crun \<Rightarrow> 's crun \<Rightarrow> bool" where
  "ok p c0 c \<equiv> good p (world c0) (attempt_id (attempt c0)) (world c) (attempt_id (attempt c))"

lemma ok_settles:
  "ok p c0 c \<Longrightarrow> settles (world c) w \<Longrightarrow>
   ok p c0 (c\<lparr>world := w\<rparr>) \<and> pos (c\<lparr>world := w\<rparr>) = pos c \<and> remembers (world c) w"
  unfolding good_def settles_def by (auto intro: order_trans remembers_trans)

definition settling :: "('s, exn, 'a) action \<Rightarrow> bool" where
  "settling m \<longleftrightarrow> (\<forall>s r t. m s = (r, t) \<longrightarrow> settles s t)"

lemma settling_calls [simp]:
  "settling (r_settle_transfer repo a i f n)" "settling (r_finish_attempt repo a st tr tc why code)"
  "settling (r_observe_attempt repo a n)" "settling (r_is_terminal repo f ao)"
  "settling (r_note_terminal repo f ao)" "settling (r_charge_budget repo a)"
  "settling (p_register ports f)" "settling (p_ingest ports f limit)" "settling (p_archive_only ports f limit)"
  "p_bootstrap ports = Some boot \<Longrightarrow> settling (boot i)"
  using settle_settles finish_keeps observe_keeps is_terminal_keeps note_terminal_keeps charge_budget_keeps
    register_keeps ingest_keeps archive_only_keeps bootstrap_keeps
  by (auto simp: settling_def intro: keeps_settles)

lemma wp_settles:
  assumes "ok p c0 c" "settling m"
    and "\<And>x w. ok p c0 (c\<lparr>world := w\<rparr>) \<Longrightarrow> pos (c\<lparr>world := w\<rparr>) = pos c \<Longrightarrow>
       remembers (world c) w \<Longrightarrow> m (world c) = (Inr x, w) \<Longrightarrow> Q x (c\<lparr>world := w\<rparr>)"
    and "\<And>e w. ok p c0 (c\<lparr>world := w\<rparr>) \<Longrightarrow> pos (c\<lparr>world := w\<rparr>) = pos c \<Longrightarrow>
       remembers (world c) w \<Longrightarrow> E e (c\<lparr>world := w\<rparr>)"
  shows "wp (call m) Q E c"
  unfolding wp_call
proof (rule wpI)
  fix x w assume r: "m (world c) = (Inr x, w)"
  then have "settles (world c) w" using assms(2) by (simp add: settling_def)
  from ok_settles [OF assms(1) this] r show "Q x (c\<lparr>world := w\<rparr>)" by (intro assms(3)) blast+
next
  fix e w assume "m (world c) = (Inl e, w)"
  then have "settles (world c) w" using assms(2) by (simp add: settling_def)
  from ok_settles [OF assms(1) this] show "E e (c\<lparr>world := w\<rparr>)" by (intro assms(4)) blast+
qed

lemma advance_safe:
  assumes "ok p c0 c"
    and "\<And>x w. ok p c0 (c\<lparr>world := w, attempt := x\<rparr>) \<Longrightarrow> pos (c\<lparr>world := w, attempt := x\<rparr>) = Some (cur, off) \<Longrightarrow>
       pos c = Some (ec, eo) \<Longrightarrow> remembers (world c) w \<Longrightarrow>
       Q () (c\<lparr>world := w, attempt := x\<rparr>)"
    and "\<And>e w. ok p c0 (c\<lparr>world := w\<rparr>) \<Longrightarrow> pos (c\<lparr>world := w\<rparr>) = pos c \<Longrightarrow>
       remembers (world c) w \<Longrightarrow> E e (c\<lparr>world := w\<rparr>)"
  shows "wp (advance repo ec eo cur off d) Q E c"
  unfolding advance_def action_simps wp_call
proof (rule wpI)
  fix x w assume r: "r_advance_attempt repo (attempt_id (attempt c)) ec eo cur off d (world c) = (Inr x, w)"
  have "invar (world c)" using assms(1) by (simp add: good_def)
  note adv = advance_returns [OF r this]
  show "Q () (c\<lparr>world := w, attempt := x\<rparr>)"
    using adv assms(1) by (intro assms(2)) (auto simp: good_def intro: remembers_trans)
next
  fix e w assume "r_advance_attempt repo (attempt_id (attempt c)) ec eo cur off d (world c) = (Inl e, w)"
  then have "settles (world c) w" by (intro keeps_settles advance_raises)
  from ok_settles [OF assms(1) this] show "E e (c\<lparr>world := w\<rparr>)" by (intro assms(3)) blast+
qed

section \<open>One file\<close>

text \<open>A file that needs no further work in this scope.\<close>

definition handled :: "CollectionScope \<Rightarrow> 's \<Rightarrow> RemoteFile \<Rightarrow> bool" where
  "handled scope w f \<longleftrightarrow> file_unknown f \<or> \<not> within_range f (cs_since scope) (cs_until scope) \<or>
     finished w f (cs_archive_only scope)"

abbreviation passed :: "CollectionScope \<Rightarrow> ustr option \<Rightarrow> nat \<Rightarrow> RemoteFile \<Rightarrow> 's crun \<Rightarrow> bool" where
  "passed scope ps i f c \<equiv> pos c = Some (ps, Suc i) \<and> handled scope (world c) f"

abbreviation stays ::
    "CollectionPolicy \<Rightarrow> CollectionScope \<Rightarrow> ustr option \<Rightarrow> nat \<Rightarrow> RemoteFile \<Rightarrow> 's crun \<Rightarrow> 's crun \<Rightarrow> bool" where
  "stays p scope ps i f c0 c \<equiv> ok p c0 c \<and> (pos c = Some (ps, i) \<or> passed scope ps i f c)"

lemma process_file_safe:
  assumes c: "ok p c0 c"
    and Q: "\<And>r c'. ok p c0 c' \<Longrightarrow> pos c' = pos c \<Longrightarrow> Q r c'"
    and E: "\<And>e c'. ok p c0 c' \<Longrightarrow> pos c' = pos c \<Longrightarrow> E e c'"
  shows "wp (process_file p repo ports scope f sid limit) Q E c"
proof -
  have boot: "wp (bootstrap_catalog ports r) Q' E c'"
    if c': "ok p c0 c'" "pos c' = pos c" and Q': "\<And>u c''. ok p c0 c'' \<Longrightarrow> pos c'' = pos c \<Longrightarrow> Q' u c''" for r c' Q'
  proof (cases "p_bootstrap ports")
    case None
    then show ?thesis using c' by (simp add: bootstrap_catalog_def action_simps Q')
  next
    case (Some boot)
    have "wp (call (boot i)) Q' E c'" for i
      by (rule wp_settles [OF c'(1)]) (use c' Some in \<open>simp_all add: Q' E\<close>)
    then show ?thesis using c' Some by (simp add: bootstrap_catalog_def action_simps Q')
  qed
  show ?thesis unfolding process_file_def wp_abind
    by (auto simp: action_simps intro!: wp_settles [OF c] wp_settles E Q boot split: if_splits)
qed

lemma transfer_failed_safe:
  assumes c: "ok p c0 c" "pos c = Some (ps, i)"
    and Q: "\<And>c'. ok p c0 c' \<Longrightarrow> pos c' = Some (ps, i) \<Longrightarrow> Q None c'"
    and E: "\<And>e c'. stays p scope ps i f c0 c' \<Longrightarrow> E e c'"
  shows "wp (transfer_failed p repo scope f sid ps i budget e) Q E c"
proof -
  have adv: "wp (advance repo ps i ps (Suc i) d) (\<lambda>u. wp (araise e) Q E) E c'"
    if c': "ok p c0 c'" "pos c' = Some (ps, i)" "finished (world c') f (cs_archive_only scope)" for c' d
    by (rule advance_safe [OF c'(1)])
      (use c' in \<open>simp_all add: E handled_def action_simps remembersD\<close>)
  have termcall: "wp (call (r_is_terminal repo f (cs_archive_only scope))) Q' E c'"
    if c': "ok p c0 c'" "pos c' = Some (ps, i)"
      and Q': "\<And>b w. ok p c0 (c'\<lparr>world := w\<rparr>) \<Longrightarrow> pos (c'\<lparr>world := w\<rparr>) = Some (ps, i) \<Longrightarrow>
         (b \<Longrightarrow> finished w f (cs_archive_only scope)) \<Longrightarrow> Q' b (c'\<lparr>world := w\<rparr>)" for c' Q'
  proof (rule wp_settles [OF c'(1)])
    fix b w assume "ok p c0 (c'\<lparr>world := w\<rparr>)" "pos (c'\<lparr>world := w\<rparr>) = pos c'"
      "r_is_terminal repo f (cs_archive_only scope) (world c') = (Inr b, w)"
    moreover have "invar (world c')" using c' by (simp add: good_def)
    ultimately show "Q' b (c'\<lparr>world := w\<rparr>)" using c' is_terminal_sound by (intro Q') auto
  qed (use c' in \<open>simp_all add: E\<close>)
  have observe: "wp (call (r_observe_attempt repo a n)) Q' E c'"
    if c': "ok p c0 c'" "pos c' = Some (ps, i)"
      and Q': "\<And>u c''. ok p c0 c'' \<Longrightarrow> pos c'' = Some (ps, i) \<Longrightarrow> Q' u c''" for c' Q' a n
    by (rule wp_settles [OF c'(1)]) (use c' in \<open>simp_all add: Q' E\<close>)
  have settle: "wp (call (r_settle_transfer repo a sid f n)) Q' E c'"
    if c': "ok p c0 c'" "pos c' = Some (ps, i)"
      and Q': "\<And>b w. ok p c0 (c'\<lparr>world := w\<rparr>) \<Longrightarrow> pos (c'\<lparr>world := w\<rparr>) = Some (ps, i) \<Longrightarrow> Q' b (c'\<lparr>world := w\<rparr>)"
    for c' Q' a n
    by (rule wp_settles [OF c'(1)]) (use c' in \<open>simp_all add: Q' E\<close>)
  show ?thesis unfolding transfer_failed_def
    using c by (auto simp: action_simps intro!: settle observe adv termcall Q E)
qed

lemma transfer_file_safe:
  assumes c: "ok p c0 c" "pos c = Some (ps, i)"
    and Q: "\<And>r c'. ok p c0 c' \<Longrightarrow> pos c' = Some (ps, i) \<Longrightarrow>
       (r \<noteq> None \<Longrightarrow> finished (world c') f (cs_archive_only scope)) \<Longrightarrow> Q r c'"
    and E: "\<And>e c'. stays p scope ps i f c0 c' \<Longrightarrow> E e c'"
  shows "wp (transfer_file p repo ports scope f sid ps i budget limit) Q E c"
proof -
  have failed: "wp (transfer_failed p repo scope f sid ps i budget e) Q E c'"
    if "ok p c0 c'" "pos c' = Some (ps, i)" for c' e
    by (rule transfer_failed_safe [OF that]) (auto intro: Q E)
  have noted: "wp (call (r_note_terminal repo f (cs_archive_only scope))) Q' E' c'"
    if c': "ok p c0 c'" "pos c' = Some (ps, i)"
      and Q': "\<And>u w. ok p c0 (c'\<lparr>world := w\<rparr>) \<Longrightarrow> pos (c'\<lparr>world := w\<rparr>) = Some (ps, i) \<Longrightarrow>
         finished w f (cs_archive_only scope) \<Longrightarrow> Q' u (c'\<lparr>world := w\<rparr>)"
      and E': "\<And>e w. ok p c0 (c'\<lparr>world := w\<rparr>) \<Longrightarrow> pos (c'\<lparr>world := w\<rparr>) = Some (ps, i) \<Longrightarrow> E' e (c'\<lparr>world := w\<rparr>)"
    for c' Q' E'
  proof (rule wp_settles [OF c'(1)])
    fix u w assume "ok p c0 (c'\<lparr>world := w\<rparr>)" "pos (c'\<lparr>world := w\<rparr>) = pos c'"
      "r_note_terminal repo f (cs_archive_only scope) (world c') = (Inr u, w)"
    moreover have "invar (world c')" using c' by (simp add: good_def)
    ultimately show "Q' u (c'\<lparr>world := w\<rparr>)" using c' note_terminal_marks by (intro Q') auto
  qed (use c' in \<open>simp_all add: E'\<close>)
  show ?thesis unfolding transfer_file_def wp_acatch wp_abind wp_case_prod
    by (rule process_file_safe [OF c(1)]) (use c in \<open>auto simp: action_simps intro!: noted Q failed\<close>)
qed

lemma file_transferred_safe:
  assumes c: "ok p c0 c" "pos c = Some (ps, i)" "r \<noteq> None \<Longrightarrow> finished (world c) f (cs_archive_only scope)"
    and Q: "\<And>fl c'. stays p scope ps i f c0 c' \<Longrightarrow> (fl = Next \<Longrightarrow> passed scope ps i f c') \<Longrightarrow> Q fl c'"
    and E: "\<And>e c'. stays p scope ps i f c0 c' \<Longrightarrow> E e c'"
  shows "wp (file_transferred p repo ps i r) Q E c"
proof (cases r)
  case None
  then show ?thesis using c by (auto simp: file_transferred_def action_simps intro!: Q)
next
  case (Some x)
  have "finished (world c) f (cs_archive_only scope)" using c(3) Some by simp
  then have adv: "wp (advance repo ps i ps (Suc i) d) Q' E (c\<lparr>discovered := n\<rparr>)"
    if "\<And>u c'. ok p c0 c' \<Longrightarrow> passed scope ps i f c' \<Longrightarrow> Q' u c'" for d n Q'
    by (intro advance_safe [where p = p and ?c0.0 = c0]) (use c in \<open>auto intro!: that E simp: handled_def remembersD\<close>)
  show ?thesis unfolding file_transferred_def Some
    by (auto simp: action_simps split: prod.split intro!: adv Q)
qed

lemma charge_budget_call:
  assumes c: "ok p c0 c"
    and Q: "\<And>b w. ok p c0 (c\<lparr>world := w\<rparr>) \<Longrightarrow> pos (c\<lparr>world := w\<rparr>) = pos c \<Longrightarrow>
       run_charged_bytes b = run_charge w (attempt_id (attempt c)) \<Longrightarrow>
       day_charged_bytes b = day_charge w (source_of w (attempt_id (attempt c))) \<Longrightarrow> Q b (c\<lparr>world := w\<rparr>)"
    and E: "\<And>e w. ok p c0 (c\<lparr>world := w\<rparr>) \<Longrightarrow> pos (c\<lparr>world := w\<rparr>) = pos c \<Longrightarrow> E e (c\<lparr>world := w\<rparr>)"
  shows "wp (call (r_charge_budget repo (attempt_id (attempt c)))) Q E c"
proof (rule wp_settles [OF c])
  fix b w assume "ok p c0 (c\<lparr>world := w\<rparr>)" "pos (c\<lparr>world := w\<rparr>) = pos c"
    "r_charge_budget repo (attempt_id (attempt c)) (world c) = (Inr b, w)"
  moreover have "invar (world c)" using c by (simp add: good_def)
  ultimately show "Q b (c\<lparr>world := w\<rparr>)" using charge_budget_exact by (intro Q) auto
qed (simp_all add: E)

lemma reserve_call:
  assumes c: "ok p c0 c" and n: "0 \<le> n" and a: "a = attempt_id (attempt c)"
    and fits: "run_charge (world c) a + n \<le> maximum_charged_bytes_run p"
      "day_charge (world c) (source_of (world c) a) + n \<le> maximum_charged_bytes_day p"
    and Q: "\<And>b w. ok p c0 (c\<lparr>world := w\<rparr>) \<Longrightarrow> pos (c\<lparr>world := w\<rparr>) = pos c \<Longrightarrow> Q b (c\<lparr>world := w\<rparr>)"
    and E: "\<And>e w. ok p c0 (c\<lparr>world := w\<rparr>) \<Longrightarrow> pos (c\<lparr>world := w\<rparr>) = pos c \<Longrightarrow> E e (c\<lparr>world := w\<rparr>)"
  shows "wp (call (r_reserve_transfer repo a i f n)) Q E c"
  unfolding wp_call
proof (rule wpI)
  fix b w assume r: "r_reserve_transfer repo a i f n (world c) = (Inr b, w)"
  have "invar (world c)" using c by (simp add: good_def)
  note t = reserve_returns [OF r this n]
  have "run_charge w k \<le> maximum_charged_bytes_run p" for k
  proof -
    have "run_charge w k \<le> max (run_charge (world c) k) (run_charge (world c) a + n)" using t by blast
    moreover have "run_charge (world c) k \<le> maximum_charged_bytes_run p" using c by (simp add: good_def)
    ultimately show ?thesis using fits(1) by linarith
  qed
  moreover have "day_charge w src \<le> maximum_charged_bytes_day p" for src
  proof -
    have "day_charge w src \<le> max (day_charge (world c) src) (day_charge (world c) (source_of (world c) a) + n)"
      using t by blast
    moreover have "day_charge (world c) src \<le> maximum_charged_bytes_day p" using c by (simp add: good_def)
    ultimately show ?thesis using fits(2) by linarith
  qed
  ultimately show "Q b (c\<lparr>world := w\<rparr>)"
    using t c by (intro Q) (auto simp: good_def intro: remembers_trans)
next
  fix e w assume "r_reserve_transfer repo a i f n (world c) = (Inl e, w)"
  then have "settles (world c) w" by (intro keeps_settles reserve_raises)
  from ok_settles [OF c this] show "E e (c\<lparr>world := w\<rparr>)" by (intro E) blast+
qed

text \<open>What the policy check gives the reservation: nothing is negative.\<close>

lemma policy_nonneg:
  assumes "CollectionPolicy_post_init ftp http p = Inr ()"
  shows "0 \<le> maximum_transfer_chunk_bytes p" "0 \<le> maximum_archive_object_bytes p + protocol_overhead p f"
  using assms by (auto simp: CollectionPolicy_post_init_def protocol_overhead_def rbind_Inr_iff split: if_splits)

lemma collect_file_safe:
  assumes pol: "CollectionPolicy_post_init ftp http p = Inr ()"
    and c: "ok p c0 c" "pos c = Some (ps, i)"
    and Q: "\<And>fl c'. stays p scope ps i f c0 c' \<Longrightarrow> (fl = Next \<Longrightarrow> passed scope ps i f c') \<Longrightarrow> Q fl c'"
    and E: "\<And>e c'. stays p scope ps i f c0 c' \<Longrightarrow> E e c'"
  shows "wp (collect_file p repo ports scope ps i f already) Q E c"
proof -
  have stopq: "Q Stop c'" if "ok p c0 c'" "pos c' = Some (ps, i)" for c' using that by (intro Q) auto
  have keepe: "E e c'" if "ok p c0 c'" "pos c' = Some (ps, i)" for e c' using that by (intro E) auto
  have transfer: "wp (transfer_file p repo ports scope f sid ps i budget limit)
      (\<lambda>r. wp (file_transferred p repo ps i r) Q E) E c'"
    if "ok p c0 c'" "pos c' = Some (ps, i)" for c' sid budget limit
    by (rule transfer_file_safe [OF that]) (auto intro!: file_transferred_safe Q E)
  have register: "wp (call (p_register ports f)) Q' E c'"
    if c': "ok p c0 c'" "pos c' = Some (ps, i)"
      and Q': "\<And>r w. ok p c0 (c'\<lparr>world := w\<rparr>) \<Longrightarrow> pos (c'\<lparr>world := w\<rparr>) = Some (ps, i) \<Longrightarrow>
         run_charge w (attempt_id (attempt c')) = run_charge (world c') (attempt_id (attempt c')) \<Longrightarrow>
         day_charge w (source_of w (attempt_id (attempt c'))) =
           day_charge (world c') (source_of (world c') (attempt_id (attempt c'))) \<Longrightarrow>
         Q' r (c'\<lparr>world := w\<rparr>)" for c' Q'
  proof (rule wp_settles [OF c'(1)])
    fix r w assume "ok p c0 (c'\<lparr>world := w\<rparr>)" "pos (c'\<lparr>world := w\<rparr>) = pos c'"
      "p_register ports f (world c') = (Inr r, w)"
    moreover have "invar (world c')" using c' by (simp add: good_def)
    ultimately show "Q' r (c'\<lparr>world := w\<rparr>)" using c' register_keeps [of f "world c'" "Inr r" w]
      by (intro Q') (auto simp: keeps_def)
  qed (use c' in \<open>simp_all add: keepe\<close>)
  have tail: "wp (abind (call (p_register ports f)) (\<lambda>registered.
      abind (call (r_reserve_transfer repo a (rs_source_file_id registered) f n)) (\<lambda>budget.
      abind (amodify (\<lambda>c. c\<lparr>charged_bytes := run_charged_bytes budget\<rparr>)) (\<lambda>_.
      abind (transfer_file p repo ports scope f (rs_source_file_id registered) ps i budget limit) (\<lambda>outcome.
        file_transferred p repo ps i outcome))))) Q E c'"
    if c': "ok p c0 c'" "pos c' = Some (ps, i)" "a = attempt_id (attempt c')" "0 \<le> n"
      "run_charge (world c') a + n \<le> maximum_charged_bytes_run p"
      "day_charge (world c') (source_of (world c') a) + n \<le> maximum_charged_bytes_day p" for c' a n limit
    unfolding wp_abind wp_amodify
  proof (intro register [OF c'(1,2)])
    fix r w
    assume w: "ok p c0 (c'\<lparr>world := w\<rparr>)" "pos (c'\<lparr>world := w\<rparr>) = Some (ps, i)"
      "run_charge w (attempt_id (attempt c')) = run_charge (world c') (attempt_id (attempt c'))"
      "day_charge w (source_of w (attempt_id (attempt c'))) =
         day_charge (world c') (source_of (world c') (attempt_id (attempt c')))"
    show "wp (call (r_reserve_transfer repo a (rs_source_file_id r) f n))
        (\<lambda>budget s. wp (transfer_file p repo ports scope f (rs_source_file_id r) ps i budget limit)
           (\<lambda>outcome. wp (file_transferred p repo ps i outcome) Q E) E (s\<lparr>charged_bytes := run_charged_bytes budget\<rparr>))
        E (c'\<lparr>world := w\<rparr>)"
      by (rule reserve_call [OF w(1)]) (use c' w in \<open>auto intro!: transfer keepe\<close>)
  qed
  note nonneg = policy_nonneg [OF pol]
  show ?thesis
  proof (cases "ingested c \<ge> maximum_files p")
    case True
    then show ?thesis using c by (simp add: collect_file_def action_simps stopq)
  next
    case False
    show ?thesis
      unfolding collect_file_def wp_abind wp_aget id_apply wp_if wp_amodify wp_truncate_run Let_def if_not_P [OF False]
    proof (rule charge_budget_call [OF c(1)], goal_cases)
      case (1 b w)
      then have w: "ok p c0 (c\<lparr>world := w, charged_bytes := run_charged_bytes b\<rparr>)"
        "pos (c\<lparr>world := w, charged_bytes := run_charged_bytes b\<rparr>) = Some (ps, i)" using c(2) by simp_all
      then have within: "run_charged_bytes b \<le> maximum_charged_bytes_run p" "day_charged_bytes b \<le> maximum_charged_bytes_day p"
        using 1 by (auto simp: good_def)
      have "0 \<le> maximum_archive_object_bytes p + protocol_overhead p f + maximum_transfer_chunk_bytes p"
        using nonneg(1) nonneg(2) [of f] by simp
      with 1 w within nonneg show ?case
        by (simp add: stopq, intro conjI impI tail [unfolded wp_abind wp_amodify]) simp_all
    next
      case (2 e w)
      then show ?case using c(2) by (simp add: keepe)
    qed
  qed
qed


lemma checkpoint_safe:
  assumes c: "ok p c0 c"
    and Q: "\<And>w. ok p c0 (c\<lparr>world := w\<rparr>) \<Longrightarrow> pos (c\<lparr>world := w\<rparr>) = pos c \<Longrightarrow> Q () (c\<lparr>world := w\<rparr>)"
    and E: "\<And>e w. ok p c0 (c\<lparr>world := w\<rparr>) \<Longrightarrow> pos (c\<lparr>world := w\<rparr>) = pos c \<Longrightarrow> E e (c\<lparr>world := w\<rparr>)"
  shows "wp (checkpoint_now ports) Q E c"
proof -
  obtain now w where m: "p_monotonic ports (world c) = (now, w)" by (cases "p_monotonic ports (world c)")
  then have "settles (world c) w" by (intro keeps_settles monotonic_keeps)
  from ok_settles [OF c this] show ?thesis
    by (auto simp: wp_def checkpoint_now_def m split: sum.split intro!: Q E)
qed

lemma pass_over_safe:
  assumes c: "ok p c0 c" "pos c = Some (ps, i)" "handled scope (world c) f"
    and Q: "\<And>fl c'. stays p scope ps i f c0 c' \<Longrightarrow> (fl = Next \<Longrightarrow> passed scope ps i f c') \<Longrightarrow> Q fl c'"
    and E: "\<And>e c'. stays p scope ps i f c0 c' \<Longrightarrow> E e c'"
  shows "wp (pass_over repo ps i d) Q E c"
proof -
  have adv: "wp (advance repo ps i ps (Suc i) d) Q' E (c\<lparr>discovered := n, skipped_unknown := k\<rparr>)"
    if "\<And>u c'. ok p c0 c' \<Longrightarrow> passed scope ps i f c' \<Longrightarrow> Q' u c'" for n k Q'
    by (rule advance_safe [where p = p and ?c0.0 = c0])
      (use c in \<open>auto intro!: that E simp: handled_def remembersD\<close>)
  show ?thesis unfolding pass_over_def by (auto simp: action_simps intro!: adv Q)
qed

lemma file_step_safe:
  assumes pol: "CollectionPolicy_post_init ftp http p = Inr ()"
    and c: "ok p c0 c" "pos c = Some (ps, i)"
    and Q: "\<And>fl c'. stays p scope ps i f c0 c' \<Longrightarrow> (fl = Next \<Longrightarrow> passed scope ps i f c') \<Longrightarrow> Q fl c'"
    and E: "\<And>e c'. stays p scope ps i f c0 c' \<Longrightarrow> E e c'"
  shows "wp (file_step p strict repo ports scope ps i f) Q E c"
proof -
  have stopq: "Q Stop c'" if "ok p c0 c'" "pos c' = Some (ps, i)" for c' using that by (intro Q) auto
  have keepe: "E e c'" if "ok p c0 c'" "pos c' = Some (ps, i)" for e c' using that by (intro E) auto
  have collecting: "wp (collect_file p repo ports scope ps i f b) Q E c'"
    if "ok p c0 c'" "pos c' = Some (ps, i)" for c' b
    by (rule collect_file_safe [OF pol that]) (fact Q, fact E)
  have passing: "wp (pass_over repo ps i d) Q E c'"
    if "ok p c0 c'" "pos c' = Some (ps, i)" "handled scope (world c') f" for c' d
    by (rule pass_over_safe [OF that]) (fact Q, fact E)
  have look: "wp (call (r_is_terminal repo f (cs_archive_only scope))) Q' E c'"
    if c': "ok p c0 c'" "pos c' = Some (ps, i)"
      and Q': "\<And>b w. ok p c0 (c'\<lparr>world := w\<rparr>) \<Longrightarrow> pos (c'\<lparr>world := w\<rparr>) = Some (ps, i) \<Longrightarrow>
         (b \<Longrightarrow> finished w f (cs_archive_only scope)) \<Longrightarrow> Q' b (c'\<lparr>world := w\<rparr>)" for c' Q'
  proof (rule wp_settles [OF c'(1)])
    fix b w assume "ok p c0 (c'\<lparr>world := w\<rparr>)" "pos (c'\<lparr>world := w\<rparr>) = pos c'"
      "r_is_terminal repo f (cs_archive_only scope) (world c') = (Inr b, w)"
    moreover have "invar (world c')" using c' by (simp add: good_def)
    ultimately show "Q' b (c'\<lparr>world := w\<rparr>)" using c' is_terminal_sound by (intro Q') auto
  qed (use c' in \<open>simp_all add: keepe\<close>)
  show ?thesis unfolding file_step_def
    using c by (auto simp: action_simps handled_def split: sum.split
        intro!: checkpoint_safe stopq keepe collecting passing look)
qed

section \<open>Pages\<close>

lemma ok_restart: "ok p c0 c \<Longrightarrow> ok p c c"
  by (auto simp: good_def)

lemma ok_trans: "ok p c0 c \<Longrightarrow> ok p c c' \<Longrightarrow> ok p c0 c'"
  by (auto simp: good_def intro: remembers_trans)

lemma handled_ok: "handled scope (world c) f \<Longrightarrow> ok p c c' \<Longrightarrow> handled scope (world c') f"
  by (auto simp: handled_def good_def remembersD)

definition upto :: "CollectionPolicy \<Rightarrow> CollectionScope \<Rightarrow> ustr option \<Rightarrow> nat \<Rightarrow> RemoteFile list \<Rightarrow> 's crun \<Rightarrow> 's crun \<Rightarrow> nat \<Rightarrow> bool" where
  "upto p scope ps i fs c c' j \<longleftrightarrow> ok p c c' \<and> j \<le> length fs \<and> pos c' = Some (ps, i + j) \<and>
     (\<forall>f\<in>set (take j fs). handled scope (world c') f)"

lemma upto_Suc:
  assumes "ok p c c1" "handled scope (world c1) f" "upto p scope ps (Suc i) fs c1 c' j"
  shows "upto p scope ps i (f # fs) c c' (Suc j)"
  using assms handled_ok [of scope c1 f p c'] ok_trans [of p c c1 c'] by (auto simp: upto_def)

lemma file_loop_safe:
  assumes pol: "CollectionPolicy_post_init ftp http p = Inr ()"
  shows "ok p c c \<Longrightarrow> pos c = Some (ps, i) \<Longrightarrow> within_policy p c \<Longrightarrow>
   wp (file_loop p strict repo ports scope ps i fs)
     (\<lambda>u c'. \<exists>j. upto p scope ps i fs c c' j \<and> (run_truncated c' \<or> j = length fs))
     (\<lambda>e c'. \<exists>j. upto p scope ps i fs c c' j) c"
proof (induction fs arbitrary: i c)
  case Nil
  then show ?case by (simp add: action_simps upto_def)
next
  case (Cons f fs)
  let ?E = "\<lambda>e c'. \<exists>j. upto p scope ps i (f # fs) c c' j"
  have "wp (file_step p strict repo ports scope ps i f)
      (\<lambda>fl c'. stays p scope ps i f c c' \<and> (fl = Next \<longrightarrow> passed scope ps i f c'))
      (\<lambda>e c'. stays p scope ps i f c c') c"
    by (rule file_step_safe [OF pol Cons.prems(1,2)]) auto
  note both = wp_conj [OF this file_step_local [OF Cons.prems(3), where strict = strict and repo = repo
      and ports = ports and scope = scope and ps = ps and i = i and f = f]]
  have upto0: "\<exists>j. upto p scope ps i (f # fs) c c1 j" if "stays p scope ps i f c c1" for c1
  proof (cases "pos c1 = Some (ps, i)")
    case True
    then have "upto p scope ps i (f # fs) c c1 0" using that by (simp add: upto_def)
    then show ?thesis ..
  next
    case False
    then have "upto p scope ps i (f # fs) c c1 1" using that by (simp add: upto_def)
    then show ?thesis ..
  qed
  show ?case unfolding file_loop.simps wp_abind
  proof (rule wp_mono [OF both])
    fix fl c1
    assume r: "(stays p scope ps i f c c1 \<and> (fl = Next \<longrightarrow> passed scope ps i f c1)) \<and> file_post p c fl c1"
    show "wp (case fl of Next \<Rightarrow> file_loop p strict repo ports scope ps (Suc i) fs | Stop \<Rightarrow> areturn ())
        (\<lambda>u c'. \<exists>j. upto p scope ps i (f # fs) c c' j \<and> (run_truncated c' \<or> j = length (f # fs))) ?E c1"
    proof (cases fl)
      case Next
      have c1: "ok p c c1" "pos c1 = Some (ps, Suc i)" "handled scope (world c1) f" "within_policy p c1"
        using r Next by (auto simp: file_post_def)
      have IH: "wp (file_loop p strict repo ports scope ps (Suc i) fs)
         (\<lambda>u c'. \<exists>j. upto p scope ps (Suc i) fs c1 c' j \<and> (run_truncated c' \<or> j = length fs))
         (\<lambda>e c'. \<exists>j. upto p scope ps (Suc i) fs c1 c' j) c1"
        by (rule Cons.IH) (use c1 ok_restart in auto)
      show ?thesis unfolding Next flow.case
        by (rule wp_mono [OF IH]) (use upto_Suc [OF c1(1,3)] in fastforce)+
    next
      case Stop
      then have "run_truncated c1" using r by (simp add: file_post_def)
      then show ?thesis using upto0 [of c1] r Stop by (simp add: action_simps)
    qed
  qed (use upto0 in blast)
qed

text \<open>
  Between pages: the run is within its charges, and every file listed so far is handled, but for the first \<open>k\<close>, which lie before the offset at
  which the run was resumed.
\<close>

definition funded :: "CollectionPolicy \<Rightarrow> nat \<Rightarrow> 's crun \<Rightarrow> bool" where
  "funded p a c \<longleftrightarrow> ok p c c \<and> attempt_id (attempt c) = a"

definition covered :: "CollectionScope \<Rightarrow> nat \<Rightarrow> 's crun \<Rightarrow> bool" where
  "covered scope k c \<longleftrightarrow> k \<le> length (offered (world c)) \<and> (\<forall>f\<in>set (drop k (offered (world c))). handled scope (world c) f)"

definition resumed :: "CollectionScope \<Rightarrow> nat \<Rightarrow> 's crun \<Rightarrow> bool" where
  "resumed scope k c \<longleftrightarrow> offered (world c) = [] \<and> page_offset c = k \<or> page_offset c = 0 \<and> covered scope k c"

lemma funded_frame [simp]:
  "funded p a (c\<lparr>run_truncated := b\<rparr>) = funded p a c" "funded p a (c\<lparr>truncation_reason := y\<rparr>) = funded p a c"
  by (simp_all add: funded_def)

lemma funded_ok: "funded p a c \<Longrightarrow> ok p c c' \<Longrightarrow> funded p a c'"
  by (auto simp: funded_def good_def)

definition page_safe :: "CollectionPolicy \<Rightarrow> CollectionScope \<Rightarrow> nat \<Rightarrow> bool \<Rightarrow> nat \<Rightarrow> flow \<Rightarrow> 's crun \<Rightarrow> bool" where
  "page_safe p scope a fresh k r c \<longleftrightarrow> funded p a c \<and>
     (case r of Stop \<Rightarrow> (run_truncated c \<or> traversal_complete c) \<and> (fresh \<and> traversal_complete c \<longrightarrow> covered scope k c)
      | Next \<Rightarrow> pos c = Some (cursor c, 0) \<and> page_offset c = 0 \<and> \<not> traversal_complete c \<and> (fresh \<longrightarrow> covered scope k c))"

lemma next_page_safe:
  assumes c: "funded p a c" "pos c = Some (ps, length (dp_files page))" "\<not> traversal_complete c"
    and fresh: "fresh \<Longrightarrow> covered scope k c"
  shows "wp (next_page p repo page ps) (page_safe p scope a fresh k) (\<lambda>e. funded p a) c"
proof -
  have cover: "covered scope k c'" if "covered scope k c" "ok p c c'" for c'
    using that handled_ok [of scope c _ p c'] by (auto simp: covered_def good_def)
  have adv: "wp (advance repo ps (length (dp_files page)) cur 0 no_deltas) Q (\<lambda>e. funded p a) (c\<lparr>seen_cursors := v\<rparr>)"
    if "\<And>x w. ok p c (c\<lparr>seen_cursors := v, world := w, attempt := x\<rparr>) \<Longrightarrow>
        pos (c\<lparr>seen_cursors := v, world := w, attempt := x\<rparr>) = Some (cur, 0) \<Longrightarrow>
        Q () (c\<lparr>seen_cursors := v, world := w, attempt := x\<rparr>)" for cur Q v
    by (rule advance_safe [where p = p and ?c0.0 = c])
      (use c that in \<open>auto simp: funded_def good_def\<close>)
  have adv0: "wp (advance repo ps (length (dp_files page)) cur 0 no_deltas) Q (\<lambda>e. funded p a) c"
    if "\<And>x w. ok p c (c\<lparr>world := w, attempt := x\<rparr>) \<Longrightarrow> Q () (c\<lparr>world := w, attempt := x\<rparr>)" for cur Q
    by (rule advance_safe [where p = p and ?c0.0 = c])
      (use c that in \<open>auto simp: funded_def good_def\<close>)
  have fc: "funded p a c'" if "ok p c c'" for c' using funded_ok [OF c(1) that] .
  show ?thesis
  proof (cases "dp_next_cursor page")
    case None
    then show ?thesis using c
      by (auto simp: next_page_def action_simps page_safe_def intro!: adv0 fc cover fresh)
  next
    case (Some v)
    then show ?thesis using c
      by (cases v) (auto simp: next_page_def action_simps page_safe_def publisher_cursor_def err_def
          split: sum.split intro!: adv fc cover fresh)
  qed
qed

lemma discover_page_safe:
  assumes c: "funded p a c"
    and Q: "\<And>page b w. funded p a (c\<lparr>listing_budget := b, world := w\<rparr>) \<Longrightarrow> pos (c\<lparr>world := w\<rparr>) = pos c \<Longrightarrow>
       remembers (world c) w \<Longrightarrow> offered w = offered (world c) @ dp_files page \<Longrightarrow>
       Q page (c\<lparr>listing_budget := b, world := w\<rparr>)"
    and E: "\<And>e c'. funded p a c' \<Longrightarrow> same_page c c' \<Longrightarrow> E e c'"
  shows "wp (discover_page ports cur n) Q E c"
proof -
  have ended: "wp (checkpoint_now ports) (\<lambda>u. Q page) E c1"
    if c1: "c1 = c\<lparr>listing_budget := b, world := w\<rparr>" "funded p a c1" "pos c1 = pos c" "remembers (world c) w"
      "offered w = offered (world c) @ dp_files page" for page c1 b w
    by (rule checkpoint_safe [where p = p and ?c0.0 = c1])
      (use c1 in \<open>auto simp: funded_def good_def intro: remembers_trans intro!: Q E\<close>)
  have call: "wp (acatch (call_discover ports cur n) (\<lambda>e. abind (aget world) (\<lambda>w.
        if exn_class e = TimeoutError \<and> p_timeout_expired ports w
        then of_result (budget_exceeded ''listing_elapsed_limit'') else araise e)))
      (\<lambda>page. wp (checkpoint_now ports) (\<lambda>u. Q page) E) E (c\<lparr>world := w0\<rparr>)"
    if w0: "ok p c (c\<lparr>world := w0\<rparr>)" "pos (c\<lparr>world := w0\<rparr>) = pos c" for w0
  proof -
    obtain r b w where d: "p_discover ports cur n (listing_budget c, w0) = (r, (b, w))"
      by (cases "p_discover ports cur n (listing_budget c, w0)") auto
    have inv: "invar w0" using w0 by (simp add: good_def)
    show ?thesis
    proof (cases r)
      case (Inl e)
      then have "keeps w0 w" using d discover_raises by blast
      then have "funded p a (c\<lparr>listing_budget := b, world := w\<rparr>)"
        using w0 c inv by (auto simp: funded_def good_def keeps_def settles_def)
      then show ?thesis using d Inl
        by (auto simp: action_simps wp_def [of "call_discover ports cur n"] call_discover_def
            budget_exceeded_def DiscoveryBudgetExceededError_init_def intro!: E)
    next
      case (Inr page)
      from discover_returns [OF d [unfolded Inr] inv]
      show ?thesis using d Inr w0 c
        by (auto simp: action_simps wp_def [of "call_discover ports cur n"] call_discover_def funded_def good_def
            intro!: ended intro: remembers_trans)
    qed
  qed
  show ?thesis unfolding discover_page_def wp_abind wp_areturn
    by (rule checkpoint_safe [where p = p and ?c0.0 = c])
      (use c in \<open>auto simp: funded_def good_def intro!: call [unfolded wp_abind] E\<close>)
qed

lemma page_step_safe:
  assumes pol: "CollectionPolicy_post_init ftp http p = Inr ()"
    and c: "funded p a c" "pos c = Some (cursor c, page_offset c)" "within_policy p c" "\<not> run_truncated c"
      "\<not> traversal_complete c"
    and fresh: "fresh \<Longrightarrow> resumed scope k c"
  shows "wp (page_step p strict repo ports scope) (page_safe p scope a fresh k) (\<lambda>e. funded p a) c"
proof -
  have rest: "wp (file_loop p strict repo ports scope (cursor c) (page_offset c) (drop (page_offset c) (dp_files page)))
      (\<lambda>_. wp (abind (aget run_truncated) (\<lambda>stopped. if stopped then areturn Stop else next_page p repo page (cursor c)))
         (page_safe p scope a fresh k) (\<lambda>e. funded p a)) (\<lambda>e. funded p a) c1"
    if c1: "funded p a c1" "pos c1 = pos c" "c1 = c\<lparr>listing_budget := b, world := w\<rparr>" "remembers (world c) w"
        "offered w = offered (world c) @ dp_files page"
      and off: "page_offset c \<le> length (dp_files page)" for c1 page b w
  proof -
    let ?fs = "drop (page_offset c) (dp_files page)"
    have "ok p c1 c1" "pos c1 = Some (cursor c, page_offset c)" "within_policy p c1"
      using c c1 by (auto simp: funded_def)
    note loop = wp_conj [OF file_loop_safe [OF pol this] file_loop_local [OF this(3)]]
    show ?thesis
    proof (rule wp_mono [OF loop], goal_cases)
      case (1 u c2)
      then obtain j where j: "upto p scope (cursor c) (page_offset c) ?fs c1 c2 j"
          "run_truncated c2 \<or> j = length ?fs" and local: "loop_post p c1 (length ?fs) u c2" by blast
      have f2: "funded p a c2" "ok p c1 c2" using j funded_ok [OF c1(1)] by (auto simp: upto_def)
      have tc: "\<not> traversal_complete c2" using local c(5) c1(3) by (simp add: loop_post_def same_page_def)
      show ?case
      proof (cases "run_truncated c2")
        case True
        then show ?thesis using f2 tc by (simp add: action_simps page_safe_def)
      next
        case False
        then have "upto p scope (cursor c) (page_offset c) ?fs c1 c2 (length ?fs)" using j by auto
        then have p2: "pos c2 = Some (cursor c, length (dp_files page))" "\<forall>f\<in>set ?fs. handled scope (world c2) f"
          using off by (auto simp: upto_def)
        have cov: "covered scope k c2" if fresh
        proof -
          have kept: "remembers (world c) (world c2)" "offered (world c2) = offered (world c) @ dp_files page"
            using f2(2) c1 by (auto simp: good_def intro: remembers_trans)
          from fresh [OF that] consider "offered (world c) = []" "page_offset c = k" | "page_offset c = 0" "covered scope k c" by (auto simp: resumed_def)
          then show ?thesis
          proof cases
            case 1
            then show ?thesis using p2(2) kept off by (simp add: covered_def)
          next
            case 2
            then show ?thesis using p2(2) kept by (auto simp: covered_def handled_def remembersD)
          qed
        qed
        show ?thesis using False next_page_safe [OF f2(1) p2(1) tc cov] by (simp add: action_simps)
      qed
    next
      case (2 e c2)
      then show ?case using funded_ok [OF c1(1)] by (auto simp: upto_def)
    qed
  qed
  have stopped: "page_safe p scope a fresh k Stop c'" if "funded p a c'" "\<not> traversal_complete c'" "run_truncated c'" for c'
    using that by (simp add: page_safe_def)
  show ?thesis unfolding page_step_def wp_abind wp_aget wp_acatch wp_areturn
    by (rule discover_page_safe [OF c(1)])
      (use c in \<open>auto simp: action_simps same_page_def intro!: stopped rest\<close>)
qed

section \<open>The run\<close>

definition between_pages :: "CollectionPolicy \<Rightarrow> CollectionScope \<Rightarrow> nat \<Rightarrow> bool \<Rightarrow> nat \<Rightarrow> 's crun \<Rightarrow> bool" where
  "between_pages p scope a fresh k c \<longleftrightarrow> funded p a c \<and> pos c = Some (cursor c, page_offset c) \<and> within_policy p c \<and>
     \<not> run_truncated c \<and> \<not> traversal_complete c \<and> (fresh \<longrightarrow> resumed scope k c)"

definition run_safe :: "CollectionPolicy \<Rightarrow> CollectionScope \<Rightarrow> nat \<Rightarrow> bool \<Rightarrow> nat \<Rightarrow> bool \<Rightarrow> 's crun \<Rightarrow> bool" where
  "run_safe p scope a fresh k ended c \<longleftrightarrow> funded p a c \<and>
     (ended \<longrightarrow> (run_truncated c \<or> traversal_complete c) \<and> (fresh \<and> traversal_complete c \<longrightarrow> covered scope k c))"

lemma page_loop_safe:
  assumes pol: "CollectionPolicy_post_init ftp http p = Inr ()" and c: "between_pages p scope a fresh k c"
  shows "wp (page_loop fuel p strict repo ports scope) (run_safe p scope a fresh k) (\<lambda>e. funded p a) c"
  using c
proof (induction fuel arbitrary: c)
  case 0
  then show ?case by (simp add: action_simps run_safe_def between_pages_def)
next
  case (Suc fuel)
  have c: "funded p a c" "pos c = Some (cursor c, page_offset c)" "within_policy p c" "\<not> run_truncated c"
      "\<not> traversal_complete c" "fresh \<Longrightarrow> resumed scope k c"
    using Suc.prems by (auto simp: between_pages_def)
  have "wp (page_step p strict repo ports scope) (page_safe p scope a fresh k) (\<lambda>e. funded p a) c"
    by (rule page_step_safe [OF pol c(1-5)]) (use c(6) in simp_all)
  note step = wp_conj [OF this page_step_local [OF c(3,4)]]
  show ?case unfolding page_loop.simps wp_abind
  proof (rule wp_mono [OF step], goal_cases)
    case (1 r c1)
    show ?case
    proof (cases r)
      case Next
      then have "between_pages p scope a fresh k c1" using 1 by (auto simp: page_safe_def page_post_def between_pages_def resumed_def)
      from Suc.IH [OF this] show ?thesis using Next by simp
    next
      case Stop
      then show ?thesis using 1 by (simp add: action_simps page_safe_def run_safe_def)
    qed
  qed simp
qed

lemma finish_safe:
  assumes "funded p a c" "\<And>u w. funded p a (c\<lparr>world := w\<rparr>) \<Longrightarrow> ok p c (c\<lparr>world := w\<rparr>) \<Longrightarrow> Q u (c\<lparr>world := w\<rparr>)"
    and "\<And>e w. funded p a (c\<lparr>world := w\<rparr>) \<Longrightarrow> E e (c\<lparr>world := w\<rparr>)"
  shows "wp (call (r_finish_attempt repo b st tr tc why code)) Q E c"
proof (rule wp_settles [where p = p and ?c0.0 = c])
  show "ok p c c" using assms(1) by (auto simp: funded_def)
qed (use assms(1) in \<open>auto intro!: assms(2,3) intro: funded_ok\<close>)

lemma collect_with_context_safe:
  assumes pol: "CollectionPolicy_post_init ftp http p = Inr ()" and c: "between_pages p scope a fresh k c"
  shows "wp (collect_with_context p strict repo ports scope)
     (\<lambda>r c'. funded p a c' \<and> (\<forall>res. fresh \<and> r = Some res \<and> \<not> cr_run_truncated res \<longrightarrow> covered scope k c'))
     (\<lambda>e. funded p a) c"
proof -
  have cover: "covered scope k c2" if "covered scope k c1" "ok p c1 c2" for c1 c2
    using that handled_ok [of scope c1 _ p c2] by (auto simp: covered_def good_def)
  have fin: "wp (call (r_finish_attempt repo b st tr tc why None))
     (\<lambda>_ c'. funded p a c' \<and> (\<forall>res. fresh \<and> (if ended then Some (result_of c') else None) = Some res \<and>
         \<not> cr_run_truncated res \<longrightarrow> covered scope k c')) (\<lambda>e. funded p a) c1"
    if "run_safe p scope a fresh k ended c1" for c1 ended b st tr tc why
    by (rule finish_safe [of p a])
      (use that cover in \<open>auto simp: run_safe_def result_of_def split: if_splits\<close>)
  have handler: "wp (call (r_finish_attempt repo b st tr tc why code)) (\<lambda>_. wp (araise e) Q (\<lambda>e. funded p a)) (\<lambda>e. funded p a) c1"
    if "funded p a c1" for c1 e b st tr tc why code Q
    by (rule finish_safe [OF that]) (auto simp: action_simps)
  show ?thesis unfolding collect_with_context_def traverse_def wp_abind wp_acatch wp_aget wp_areturn wp_if
  proof (rule wp_mono [OF page_loop_safe [OF pol c]], goal_cases)
    case (1 ended c1)
    then have "funded p a c1" by (simp add: run_safe_def)
    then show ?case unfolding id_apply if_bool_eq_conj [of "_ \<and> _"]
      by (intro conjI impI wp_araise [THEN iffD2] handler fin 1)
  next
    case (2 e c1)
    then show ?case by (intro handler)
  qed
qed

end

end
