(* ===== verification/Collection_Run.thy ===== *)
theory Collection_Run
  imports Collection_Safety
begin

text \<open>
  The in-memory repository keeps the contract of \<open>collection_repository\<close>, whatever the other
  ports do, and with it the guarantees of whole runs of \<^verbatim>\<open>CollectionService\<close>: a run ends, its
  counts and charges stay within the policy, the checkpoint passes handled files only, and
  a completed run leaves no listed file unhandled.

  The state of a run is the repository, the set of files listed so far (a ghost) and the
  state \<open>'w\<close> of the other ports.
\<close>

section \<open>The in-memory repository as a port\<close>

type_synonym 'w run_world = "MemoryCollectionRepository \<times> RemoteFile list \<times> 'w"

definition on_repo :: "'a mem \<Rightarrow> ('w run_world, exn, 'a) action" where
  "on_repo m s = (case m (fst s) of (r, t) \<Rightarrow> (r, (t, snd s)))"

definition on_world :: "('w, exn, 'a) action \<Rightarrow> ('w run_world, exn, 'a) action" where
  "on_world m s = (case m (snd (snd s)) of (r, t) \<Rightarrow> (r, (fst s, fst (snd s), t)))"

definition memory_repository :: "'w run_world CollectionRepository" where
  "memory_repository =
     \<lparr>r_begin_attempt = (\<lambda>scope. on_repo (mem_begin_attempt scope)),
      r_advance_attempt = (\<lambda>a ec eo c off d. on_repo (mem_advance_attempt a ec eo c off d)),
      r_finish_attempt = (\<lambda>a st tr tc why code. on_repo (mem_finish_attempt a st tr tc why code)),
      r_observe_attempt = (\<lambda>a n. on_repo (mem_observe_attempt a n)),
      r_is_terminal = (\<lambda>f ao. on_repo (mem_is_terminal f ao)),
      r_note_terminal = (\<lambda>f ao. on_repo (mem_note_terminal f ao)),
      r_charge_budget = (\<lambda>a. on_repo (mem_charge_budget a)),
      r_reserve_transfer = (\<lambda>a i f n. on_repo (mem_reserve_transfer a i f n)),
      r_settle_transfer = (\<lambda>a i f n. on_repo (mem_settle_transfer a i f n))\<rparr>"

definition listed_files :: "exn + DiscoveryPage \<Rightarrow> RemoteFile list" where
  "listed_files r = (case r of Inl _ \<Rightarrow> [] | Inr page \<Rightarrow> dp_files page)"

definition run_ports :: "'w CollectionPorts \<Rightarrow> 'w run_world CollectionPorts" where
  "run_ports p =
     \<lparr>p_discover = (\<lambda>cur limit (b, s).
        case p_discover p cur limit (b, snd (snd s)) of
          (r, (b', t)) \<Rightarrow> (r, (b', (fst s, fst (snd s) @ listed_files r, t)))),
      p_timeout_expired = (\<lambda>s. p_timeout_expired p (snd (snd s))),
      p_monotonic = (\<lambda>s. case p_monotonic p (snd (snd s)) of (now, t) \<Rightarrow> (now, (fst s, fst (snd s), t))),
      p_register = (\<lambda>f. on_world (p_register p f)),
      p_ingest = (\<lambda>f limit. on_world (p_ingest p f limit)),
      p_archive_only = (\<lambda>f limit. on_world (p_archive_only p f limit)),
      p_bootstrap = map_option (\<lambda>boot i. on_world (boot i)) (p_bootstrap p),
      p_acquire_lease = (\<lambda>i. on_world (p_acquire_lease p i)),
      p_release_lease = (\<lambda>i. on_world (p_release_lease p i))\<rparr>"

section \<open>What is observed of it\<close>

definition checkpoint_ids :: "MemoryCollectionRepository \<Rightarrow> nat list" where
  "checkpoint_ids s = map (mc_id \<circ> snd) (mr_checkpoints s)"

definition ids_below :: "nat \<Rightarrow> nat list \<Rightarrow> bool" where
  "ids_below n xs \<longleftrightarrow> distinct xs \<and> (\<forall>i\<in>set xs. i < n)"

definition mem_invar :: "MemoryCollectionRepository \<Rightarrow> bool" where
  "mem_invar s \<longleftrightarrow> (\<forall>a x. mr_attempts s a = Some x \<longrightarrow> attempt_id x = a) \<and>
     ids_below (mr_next_uuid s) (checkpoint_ids s)"

definition checkpoint_place :: "nat \<Rightarrow> MemoryCollectionRepository \<Rightarrow> (ustr option \<times> nat) option" where
  "checkpoint_place cid s = map_option (\<lambda>c. (mc_cursor c, mc_page_offset c)) (find_checkpoint cid s)"

definition mem_position :: "MemoryCollectionRepository \<Rightarrow> nat \<Rightarrow> (ustr option \<times> nat) option" where
  "mem_position s a = Option.bind (mr_attempts s a) (\<lambda>x. checkpoint_place (ca_checkpoint_id x) s)"

definition mem_finished :: "MemoryCollectionRepository \<Rightarrow> RemoteFile \<Rightarrow> bool \<Rightarrow> bool" where
  "mem_finished s f b \<longleftrightarrow> terminal_key f False \<in> mr_terminal s \<or> (b \<and> terminal_key f True \<in> mr_terminal s)"

definition mem_run_charge :: "MemoryCollectionRepository \<Rightarrow> nat \<Rightarrow> int" where
  "mem_run_charge s a = get_or (mr_attempt_charged_bytes s a) 0"

definition mem_source_of :: "MemoryCollectionRepository \<Rightarrow> nat \<Rightarrow> ustr" where
  "mem_source_of s a = get_or (mr_attempt_sources s a) []"

definition mem_day_charge :: "MemoryCollectionRepository \<Rightarrow> ustr \<Rightarrow> int" where
  "mem_day_charge s src = get_or (mr_source_charged_bytes s src) 0"

lemmas mem_view_defs = mem_invar_def checkpoint_ids_def mem_position_def checkpoint_place_def mem_finished_def mem_run_charge_def
  mem_source_of_def mem_day_charge_def

lemma get_or_simps [simp]: "get_or (Some x) d = x" "get_or None d = d"
  by (simp_all add: get_or_def)

text \<open>The mutation of the first checkpoint with an id, as \<open>find\<close> sees it.\<close>

lemma find_mutate:
  "find (\<lambda>(k, v). mc_id v = cid) kvs = Some (k, v) \<Longrightarrow> mc_id w = mc_id v \<Longrightarrow>
   find (\<lambda>(k, v). mc_id v = cid) (mutate_first (\<lambda>v. mc_id v = cid) (\<lambda>_. w) kvs) = Some (k, w)"
  by (induction kvs) (auto split: if_splits)

lemma ids_mutate:
  "(\<And>v. P v \<Longrightarrow> mc_id (g v) = mc_id v) \<Longrightarrow> map (mc_id \<circ> snd) (mutate_first P g kvs) = map (mc_id \<circ> snd) kvs"
  by (induction kvs) auto

lemma find_id: "find (\<lambda>(k, v). mc_id v = cid) kvs = Some (k, v) \<Longrightarrow> mc_id v = cid"
  by (induction kvs) (auto split: if_splits)

lemma ids_mutate_found:
  "find (\<lambda>(k, v). mc_id v = cid) kvs = Some (k, v) \<Longrightarrow> mc_id w = mc_id v \<Longrightarrow>
   map (mc_id \<circ> snd) (mutate_first (\<lambda>v. mc_id v = cid) (\<lambda>_. w) kvs) = map (mc_id \<circ> snd) kvs"
  by (rule ids_mutate) (auto dest: find_id)

lemma place_mutate:
  assumes "\<And>v. mc_id (g v) = mc_id v" "\<And>v. mc_cursor (g v) = mc_cursor v" "\<And>v. mc_page_offset (g v) = mc_page_offset v"
  shows "map_option (\<lambda>c. (mc_cursor c, mc_page_offset c)) (map_option snd
     (find (\<lambda>(k, v). mc_id v = cid) (mutate_first P g kvs))) =
   map_option (\<lambda>c. (mc_cursor c, mc_page_offset c)) (map_option snd (find (\<lambda>(k, v). mc_id v = cid) kvs))"
  using assms by (induction kvs) (auto split: if_splits)

definition mem_settles :: "MemoryCollectionRepository \<Rightarrow> MemoryCollectionRepository \<Rightarrow> bool" where
  "mem_settles s t \<longleftrightarrow> (mem_invar s \<longrightarrow> mem_invar t) \<and> mem_position t = mem_position s \<and>
     (\<forall>f b. mem_finished s f b \<longrightarrow> mem_finished t f b) \<and>
     (\<forall>a. mem_run_charge t a \<le> mem_run_charge s a) \<and> (\<forall>src. mem_day_charge t src \<le> mem_day_charge s src)"

definition mem_keeps :: "MemoryCollectionRepository \<Rightarrow> MemoryCollectionRepository \<Rightarrow> bool" where
  "mem_keeps s t \<longleftrightarrow> mem_settles s t \<and> mem_run_charge t = mem_run_charge s \<and>
     mem_source_of t = mem_source_of s \<and> mem_day_charge t = mem_day_charge s"

lemma mem_keeps_refl [simp]: "mem_keeps s s"
  by (simp add: mem_keeps_def mem_settles_def)

lemma mem_settles_refl [simp]: "mem_settles s s"
  by (simp add: mem_settles_def)

lemmas mem_op_defs = action_defs dict_item_def mutate_checkpoint_def

lemma mem_finish_keeps: "mem_finish_attempt a st tr tc why code s = (r, t) \<Longrightarrow> mem_keeps s t"
  by (auto simp: mem_finish_attempt_def mem_op_defs mem_keeps_def mem_settles_def mem_view_defs
      find_checkpoint_def fun_eq_iff place_mutate ids_mutate split: option.splits prod.splits sum.splits)

lemma mem_observe_keeps: "mem_observe_attempt a n s = (r, t) \<Longrightarrow> mem_keeps s t"
  by (auto simp: mem_observe_attempt_def mem_op_defs split: if_splits)

lemma mem_is_terminal_exact: "mem_is_terminal f ao s = (Inr (mem_finished s f ao), s)"
  by (simp add: mem_is_terminal_def mem_op_defs mem_finished_def)

lemma mem_note_terminal_marks:
  "mem_note_terminal f ao s = (r, t) \<Longrightarrow> mem_keeps s t \<and> mem_finished t f ao"
  by (cases ao) (auto simp: mem_note_terminal_def mem_op_defs mem_keeps_def mem_settles_def mem_view_defs find_checkpoint_def)

lemma mem_charge_budget_exact:
  "mem_charge_budget a s = (r, t) \<Longrightarrow> t = s \<and>
   (\<forall>b. r = Inr b \<longrightarrow> run_charged_bytes b = mem_run_charge s a \<and> day_charged_bytes b = mem_day_charge s (mem_source_of s a))"
  by (auto simp: mem_charge_budget_def mem_op_defs mem_view_defs CollectionChargeBudget_init_def err_def
      split: if_splits option.splits sum.splits)

lemma mem_advance_returns:
  assumes "mem_advance_attempt a ec eo c off d s = (Inr x, t)" "mem_invar s"
  shows "attempt_id x = a \<and> mem_position s a = Some (ec, eo) \<and> mem_invar t \<and> mem_position t a = Some (c, off) \<and>
    (\<forall>f b. mem_finished s f b \<longrightarrow> mem_finished t f b) \<and>
    mem_run_charge t = mem_run_charge s \<and> mem_day_charge t = mem_day_charge s"
  using assms
  by (auto simp: mem_advance_attempt_def mem_op_defs mem_view_defs find_checkpoint_def Let_def fun_eq_iff find_mutate ids_mutate_found
      split: if_splits option.splits)

lemma mem_advance_raises: "mem_advance_attempt a ec eo c off d s = (Inl e, t) \<Longrightarrow> t = s"
  by (auto simp: mem_advance_attempt_def mem_op_defs Let_def split: if_splits option.splits)

lemma mem_charge_budget_returns:
  "mem_charge_budget a s = (Inr b, t) \<longleftrightarrow> t = s \<and> a \<in> mr_running s \<and>
     (\<exists>src n. mr_attempt_sources s a = Some src \<and> mr_attempt_charged_bytes s a = Some n \<and>
        CollectionChargeBudget_init n (mem_day_charge s src)
          (int (card (get_or (mr_source_identity_files s src) {}))) (get_or (mr_source_attempt_counts s src) 0)
          (get_or (mr_source_success_counts s src) 0) = Inr b)"
  by (auto simp: mem_charge_budget_def mem_op_defs mem_day_charge_def split: option.splits sum.splits)

lemma charge_budget_init_Inr:
  "CollectionChargeBudget_init r d i a n = Inr b \<longleftrightarrow> 0 \<le> r \<and> 0 \<le> d \<and> 0 \<le> i \<and> 0 \<le> a \<and> 0 \<le> n \<and>
     b = \<lparr>run_charged_bytes = r, day_charged_bytes = d, day_source_identities = i, day_transfer_attempts = a,
          day_successes = n\<rparr>"
  by (auto simp: CollectionChargeBudget_init_def err_def)

lemma mem_charge_budget_total:
  "(\<exists>b. mem_charge_budget a s = (Inr b, s)) \<longleftrightarrow> a \<in> mr_running s \<and>
     (\<exists>src n. mr_attempt_sources s a = Some src \<and> mr_attempt_charged_bytes s a = Some n \<and> 0 \<le> n \<and>
        0 \<le> mem_day_charge s src \<and> 0 \<le> get_or (mr_source_attempt_counts s src) 0 \<and>
        0 \<le> get_or (mr_source_success_counts s src) 0)"
  unfolding mem_charge_budget_returns charge_budget_init_Inr by auto

definition reserved :: "nat \<Rightarrow> nat \<Rightarrow> ustr \<Rightarrow> int \<Rightarrow> MemoryCollectionRepository \<Rightarrow> MemoryCollectionRepository" where
  "reserved a i src n s = s\<lparr>
     mr_charged_transfers := (mr_charged_transfers s)((a, i) \<mapsto> (n, False)),
     mr_source_identity_files := (mr_source_identity_files s)
       (src \<mapsto> insert i (get_or (mr_source_identity_files s src) {})),
     mr_source_attempt_counts := (mr_source_attempt_counts s)(src \<mapsto> get_or (mr_source_attempt_counts s src) 0 + 1),
     mr_attempt_charged_bytes := (mr_attempt_charged_bytes s)(a \<mapsto> mem_run_charge s a + n),
     mr_source_charged_bytes := (mr_source_charged_bytes s)(src \<mapsto> mem_day_charge s src + n)\<rparr>"

text \<open>A reservation leaves the repository as it is, or charges its size and returns.\<close>

lemma mem_reserve_cases:
  assumes "mem_reserve_transfer a i f n s = (r, t)"
  shows "t = s \<or> 0 \<le> n \<and> t = reserved a i (mem_source_of s a) n s \<and> (\<exists>b. r = Inr b)"
proof -
  obtain r0 where b0: "mem_charge_budget a s = (r0, s)"
    using mem_charge_budget_exact by (cases "mem_charge_budget a s") blast
  show ?thesis
  proof (cases r0)
    case (Inl e)
    then show ?thesis using assms b0 by (simp add: mem_reserve_transfer_def abind_def)
  next
    case (Inr b)
    have total: "\<exists>b. mem_charge_budget a s = (Inr b, s)" using b0 Inr by blast
    then obtain src c where sc: "mr_attempt_sources s a = Some src" "mr_attempt_charged_bytes s a = Some c"
      unfolding mem_charge_budget_total by blast
    show ?thesis
    proof (cases "n < 0 \<or> mr_charged_transfers s (a, i) \<noteq> None")
      case True
      then show ?thesis using assms b0 Inr by (auto simp: mem_reserve_transfer_def mem_op_defs split: if_splits)
    next
      case False
      let ?t = "reserved a i src n s"
      have "\<exists>b. mem_charge_budget a ?t = (Inr b, ?t)"
        using total False sc unfolding mem_charge_budget_total
        by (auto simp: reserved_def mem_run_charge_def mem_day_charge_def)
      moreover have "mem_reserve_transfer a i f n s = mem_charge_budget a ?t"
        using False b0 Inr sc
        by (simp add: mem_reserve_transfer_def mem_op_defs Let_def reserved_def mem_run_charge_def mem_day_charge_def)
      ultimately show ?thesis using assms False sc by (auto simp: mem_source_of_def)
    qed
  qed
qed

lemma reserved_frame [simp]:
  "mr_attempts (reserved a i src n s) = mr_attempts s" "mr_checkpoints (reserved a i src n s) = mr_checkpoints s"
  "mr_terminal (reserved a i src n s) = mr_terminal s" "mr_next_uuid (reserved a i src n s) = mr_next_uuid s"
  "mr_attempt_sources (reserved a i src n s) = mr_attempt_sources s"
  "mem_run_charge (reserved a i src n s) b = (if b = a then mem_run_charge s a + n else mem_run_charge s b)"
  "mem_day_charge (reserved a i src n s) x = (if x = src then mem_day_charge s src + n else mem_day_charge s x)"
  by (simp_all add: reserved_def mem_run_charge_def mem_day_charge_def)

lemma mem_reserve_raises: "mem_reserve_transfer a i f n s = (Inl e, t) \<Longrightarrow> mem_keeps s t"
  using mem_reserve_cases by fastforce

lemma mem_reserve_returns:
  assumes "mem_reserve_transfer a i f n s = (Inr b, t)" "mem_invar s" "0 \<le> n"
  shows "mem_invar t \<and> mem_position t = mem_position s \<and>
    (\<forall>f b. mem_finished s f b \<longrightarrow> mem_finished t f b) \<and>
    (\<forall>k. mem_run_charge t k \<le> max (mem_run_charge s k) (mem_run_charge s a + n)) \<and>
    (\<forall>src. mem_day_charge t src \<le> max (mem_day_charge s src) (mem_day_charge s (mem_source_of s a) + n))"
  using mem_reserve_cases [OF assms(1)] assms(2)
  by (auto simp: mem_invar_def checkpoint_ids_def mem_position_def checkpoint_place_def find_checkpoint_def mem_finished_def fun_eq_iff)

definition settled ::
    "nat \<Rightarrow> nat \<Rightarrow> ustr \<Rightarrow> RemoteFile \<Rightarrow> int \<Rightarrow> int \<Rightarrow> MemoryCollectionRepository \<Rightarrow> MemoryCollectionRepository" where
  "settled a i src f n delta s =
     (let s1 = (if new_archive_charge s f n then s\<lparr>
            mr_charged_sources := insert (file_identity f) (mr_charged_sources s),
            mr_source_success_counts := (mr_source_success_counts s)
              (src \<mapsto> get_or (mr_source_success_counts s src) 0 + 1)\<rparr> else s) in
      s1\<lparr>mr_charged_transfers := (mr_charged_transfers s1)((a, i) \<mapsto> (transfer_bytes s f n, True)),
         mr_attempt_charged_bytes := (mr_attempt_charged_bytes s1)(a \<mapsto> the (mr_attempt_charged_bytes s1 a) + delta),
         mr_source_charged_bytes := (mr_source_charged_bytes s1)(src \<mapsto> get_or (mr_source_charged_bytes s1 src) 0 + delta)\<rparr>)"

lemma mem_charge_budget_state: "mem_charge_budget a s = (r, t) \<Longrightarrow> t = s"
  using mem_charge_budget_exact by blast

lemma mem_settle_cases:
  assumes "mem_settle_transfer a i f n s = (r, t)"
  shows "t = s \<or> (\<exists>delta \<le> 0. mr_attempt_charged_bytes s a \<noteq> None \<and> t = settled a i (mem_source_of s a) f n delta s)"
proof -
  obtain r0 where b0: "mem_charge_budget a s = (r0, s)"
    using mem_charge_budget_exact by (cases "mem_charge_budget a s") blast
  show ?thesis
  proof (cases r0)
    case (Inl e)
    then show ?thesis using assms b0 by (simp add: mem_settle_transfer_def abind_def)
  next
    case (Inr b)
    then obtain src c where sc: "mr_attempt_sources s a = Some src" "mr_attempt_charged_bytes s a = Some c"
      using b0 mem_charge_budget_returns by blast
    show ?thesis
    proof (cases "mr_charged_transfers s (a, i)")
      case None
      then show ?thesis using assms b0 Inr by (auto simp: mem_settle_transfer_def mem_op_defs split: if_splits)
    next
      case (Some rb)
      obtain held fin where rb: "rb = (held, fin)" by (cases rb)
      let ?delta = "exact_attempt_charge s f n - held"
      show ?thesis
      proof (cases "n < 0 \<or> fin \<or> held < exact_attempt_charge s f n")
        case True
        then show ?thesis using assms b0 Inr Some rb by (auto simp: mem_settle_transfer_def mem_op_defs Let_def split: if_splits)
      next
        case False
        then have "mem_settle_transfer a i f n s = mem_charge_budget a (settled a i src f n ?delta s)"
          using b0 Inr Some rb sc by (simp add: mem_settle_transfer_def mem_op_defs Let_def settled_def)
        then have "t = settled a i src f n ?delta s" using assms by (intro mem_charge_budget_state [of a _ r]) simp
        then show ?thesis using False sc by (auto simp: mem_source_of_def intro!: exI [of _ ?delta])
      qed
    qed
  qed
qed

lemma settled_frame [simp]:
  "mr_attempts (settled a i src f n d s) = mr_attempts s" "mr_checkpoints (settled a i src f n d s) = mr_checkpoints s"
  "mr_terminal (settled a i src f n d s) = mr_terminal s" "mr_next_uuid (settled a i src f n d s) = mr_next_uuid s"
  "mr_attempt_charged_bytes s a \<noteq> None \<Longrightarrow>
     mem_run_charge (settled a i src f n d s) b = (if b = a then mem_run_charge s a + d else mem_run_charge s b)"
  "mem_day_charge (settled a i src f n d s) x = (if x = src then mem_day_charge s src + d else mem_day_charge s x)"
  by (auto simp: settled_def Let_def mem_run_charge_def mem_day_charge_def)

lemma mem_settle_settles: "mem_settle_transfer a i f m s = (r, t) \<Longrightarrow> mem_settles s t"
  by (drule mem_settle_cases)
    (auto simp: mem_settles_def mem_invar_def checkpoint_ids_def mem_position_def checkpoint_place_def find_checkpoint_def mem_finished_def fun_eq_iff)

section \<open>The contract holds\<close>

lemma on_repo_result: "on_repo m s = (r, t) \<Longrightarrow> m (fst s) = (r, fst t) \<and> snd t = snd s"
  by (auto simp: on_repo_def split: prod.splits)

lemma on_world_result: "on_world m s = (r, t) \<Longrightarrow> fst t = fst s \<and> fst (snd t) = fst (snd s)"
  by (auto simp: on_world_def split: prod.splits)

interpretation mem_view: repository_view "\<lambda>s. mem_invar (fst s)" "\<lambda>s. mem_position (fst s)" "\<lambda>s. mem_finished (fst s)"
  "\<lambda>s. mem_run_charge (fst s)" "\<lambda>s. mem_source_of (fst s)" "\<lambda>s. mem_day_charge (fst s)" "\<lambda>s. fst (snd s)" .

lemma lifted_settles: "mem_settles (fst s) (fst t) \<Longrightarrow> snd t = snd s \<Longrightarrow> mem_view.settles s t"
  by (auto simp: mem_settles_def mem_view.settles_def mem_view.remembers_def)

lemma lifted_keeps: "mem_keeps (fst s) (fst t) \<Longrightarrow> snd t = snd s \<Longrightarrow> mem_view.keeps s t"
  by (auto simp: mem_keeps_def mem_view.keeps_def lifted_settles)

lemma world_keeps: "fst t = fst s \<Longrightarrow> fst (snd t) = fst (snd s) \<Longrightarrow> mem_view.keeps s t"
  by (auto simp: mem_view.keeps_def mem_view.settles_def mem_view.remembers_def)

interpretation mem: collection_repository "\<lambda>s. mem_invar (fst s)" "\<lambda>s. mem_position (fst s)" "\<lambda>s. mem_finished (fst s)"
  "\<lambda>s. mem_run_charge (fst s)" "\<lambda>s. mem_source_of (fst s)" "\<lambda>s. mem_day_charge (fst s)" "\<lambda>s. fst (snd s)"
  memory_repository "run_ports ports"
  for ports :: "'w CollectionPorts"
proof (unfold_locales, goal_cases)
  case (1 a ec eo c off d s x t)
  then show ?case using mem_advance_returns [of a ec eo c off d "fst s" x "fst t"]
    by (auto simp: memory_repository_def mem_view.remembers_def dest!: on_repo_result)
next
  case (9 a s rc t)
  then show ?case using mem_charge_budget_state [of a "fst s" rc "fst t"]
    by (auto simp: memory_repository_def dest!: on_repo_result intro!: lifted_keeps)
next
  case (10 a s b t)
  then show ?case using mem_charge_budget_exact [of a "fst s" "Inr b" "fst t"]
    by (auto simp: memory_repository_def dest!: on_repo_result)
next
  case (12 a i f n s b t)
  then show ?case using mem_reserve_returns [of a i f n "fst s" b "fst t"]
    by (auto simp: memory_repository_def mem_view.remembers_def dest!: on_repo_result)
next
  case (17 boot i s r t)
  then show ?case by (auto simp: run_ports_def dest!: on_world_result intro!: world_keeps)
qed (auto simp: memory_repository_def run_ports_def mem_is_terminal_exact mem_view.remembers_def listed_files_def
    dest!: on_repo_result on_world_result mem_advance_raises mem_finish_keeps mem_observe_keeps mem_note_terminal_marks
      mem_reserve_raises mem_settle_settles
    intro!: lifted_settles intro: lifted_keeps world_keeps split: prod.splits)

section \<open>The start of a run\<close>

definition resume_offset :: "CollectionScope \<Rightarrow> MemoryCollectionRepository \<Rightarrow> nat" where
  "resume_offset scope s =
     (case map_of (mr_checkpoints s) scope of None \<Rightarrow> 0
      | Some c \<Rightarrow> if mc_complete c then 0 else mc_page_offset c)"

lemma find_distinct:
  "distinct (map (mc_id \<circ> snd) kvs) \<Longrightarrow> (k, c) \<in> set kvs \<Longrightarrow>
   find (\<lambda>(k, v). mc_id v = mc_id c) kvs = Some (k, c)"
  by (induction kvs) (auto simp: rev_image_eqI)

lemma find_mutated:
  "find (\<lambda>(k, v). mc_id v = cid) kvs = Some (k, v) \<Longrightarrow> mc_id (g v) = cid \<Longrightarrow>
   find (\<lambda>(k, v). mc_id v = cid) (mutate_first (\<lambda>v. mc_id v = cid) g kvs) = Some (k, g v)"
  by (induction kvs) (auto split: if_splits)

lemma find_fresh:
  "ids_below n (map (mc_id \<circ> snd) kvs) \<Longrightarrow> mc_id c = n \<Longrightarrow>
   find (\<lambda>(k, v). mc_id v = n) (kvs @ [(k, c)]) = Some (k, c)"
  by (induction kvs) (auto simp: ids_below_def)

lemma ids_below_append: "ids_below n xs \<Longrightarrow> ids_below (Suc n) (xs @ [n])"
  by (auto simp: ids_below_def)

lemma ids_below_mono: "ids_below n xs \<Longrightarrow> n \<le> m \<Longrightarrow> ids_below m xs"
  by (auto simp: ids_below_def)

lemma fresh_generation_simps [simp]:
  "mc_id (fresh_generation c) = mc_id c" "mc_cursor (fresh_generation c) = None"
  "mc_page_offset (fresh_generation c) = 0"
  by (simp_all add: fresh_generation_def)

definition begun ::
    "CollectionScope \<Rightarrow> MemoryCollectionRepository \<Rightarrow> CollectionAttempt \<Rightarrow> MemoryCollectionRepository \<Rightarrow> bool" where
  "begun scope s x t \<longleftrightarrow> mem_invar t \<and>
    mem_position t (attempt_id x) = Some (ca_cursor x, ca_page_offset x) \<and> ca_page_offset x = resume_offset scope s \<and>
    mem_finished t = mem_finished s \<and>
    (\<forall>a. mem_run_charge t a = (if a = attempt_id x then 0 else mem_run_charge s a)) \<and>
    mem_day_charge t = mem_day_charge s"

definition attempt_of :: "nat \<Rightarrow> MemoryCheckpoint \<Rightarrow> CollectionAttempt" where
  "attempt_of a c = \<lparr>attempt_id = a, ca_checkpoint_id = mc_id c, ca_generation = mc_generation c,
     ca_cursor = mc_cursor c, ca_page_offset = mc_page_offset c, ca_recognized_count = mc_recognized_count c,
     ca_unknown_count = mc_unknown_count c, ca_retry_boundary = mc_retry_boundary c\<rparr>"

definition opened ::
    "CollectionScope \<Rightarrow> MemoryCheckpoint \<Rightarrow> (CollectionScope \<times> MemoryCheckpoint) list \<Rightarrow>
     MemoryCollectionRepository \<Rightarrow> MemoryCollectionRepository" where
  "opened scope c kvs s =
     s\<lparr>mr_next_uuid := Suc (Suc (mr_next_uuid s)), mr_checkpoints := kvs,
       mr_attempts := (mr_attempts s)(Suc (mr_next_uuid s) \<mapsto> attempt_of (Suc (mr_next_uuid s)) c),
       mr_running := insert (Suc (mr_next_uuid s)) (mr_running s),
       mr_attempt_sources := (mr_attempt_sources s)(Suc (mr_next_uuid s) \<mapsto> cs_source_id scope),
       mr_attempt_charged_bytes := (mr_attempt_charged_bytes s)(Suc (mr_next_uuid s) \<mapsto> 0)\<rparr>"

lemma opened_begun:
  assumes "mem_invar s" "find (\<lambda>(k, v). mc_id v = mc_id c) kvs = Some (k, c)"
    "ids_below (Suc (Suc (mr_next_uuid s))) (map (mc_id \<circ> snd) kvs)" "mc_page_offset c = resume_offset scope s"
  shows "begun scope s (attempt_of (Suc (mr_next_uuid s)) c) (opened scope c kvs s)"
  using assms unfolding begun_def
  by (simp add: mem_view_defs find_checkpoint_def opened_def attempt_of_def fun_eq_iff)

lemma mem_begin_returns:
  assumes "mem_invar s"
  shows "\<exists>x t. mem_begin_attempt scope s = (Inr x, t) \<and> begun scope s x t"
proof (cases "map_of (mr_checkpoints s) scope")
  case None
  let ?c = "\<lparr>mc_id = mr_next_uuid s, mc_generation = 1, mc_cursor = None, mc_page_offset = 0,
             mc_recognized_count = 0, mc_unknown_count = 0, mc_complete = False, mc_retry_boundary = False\<rparr>"
  have ids: "ids_below (mr_next_uuid s) (map (mc_id \<circ> snd) (mr_checkpoints s))"
    using assms by (simp add: mem_invar_def checkpoint_ids_def)
  have "mem_begin_attempt scope s =
      (Inr (attempt_of (Suc (mr_next_uuid s)) ?c), opened scope ?c (mr_checkpoints s @ [(scope, ?c)]) s)"
    using None by (simp add: mem_begin_attempt_def mem_op_defs uuid4_def Let_def map_add_def attempt_of_def opened_def)
  moreover have "begun scope s (attempt_of (Suc (mr_next_uuid s)) ?c) (opened scope ?c (mr_checkpoints s @ [(scope, ?c)]) s)"
    by (rule opened_begun [OF assms, of _ _ scope])
      (use ids find_fresh [OF ids, of ?c scope] None ids_below_mono [OF ids_below_append [OF ids]]
        in \<open>simp_all add: resume_offset_def\<close>)
  ultimately show ?thesis by blast
next
  case (Some c)
  have find: "find (\<lambda>(k, v). mc_id v = mc_id c) (mr_checkpoints s) = Some (scope, c)"
    using assms map_of_SomeD [OF Some]
    by (intro find_distinct) (simp_all add: mem_invar_def checkpoint_ids_def ids_below_def)
  have ids: "ids_below (Suc (Suc (mr_next_uuid s))) (map (mc_id \<circ> snd) (mr_checkpoints s))"
    by (rule ids_below_mono [of "mr_next_uuid s"]) (use assms in \<open>simp_all add: mem_invar_def checkpoint_ids_def\<close>)
  let ?c = "if mc_complete c then fresh_generation c else c"
  let ?kvs = "if mc_complete c then mutate_first (\<lambda>v. mc_id v = mc_id c) fresh_generation (mr_checkpoints s)
              else mr_checkpoints s"
  have "mem_begin_attempt scope s = (Inr (attempt_of (Suc (mr_next_uuid s)) ?c), opened scope ?c ?kvs s)"
    using Some by (simp add: mem_begin_attempt_def mem_op_defs uuid4_def Let_def attempt_of_def opened_def)
  moreover have "begun scope s (attempt_of (Suc (mr_next_uuid s)) ?c) (opened scope ?c ?kvs s)"
    by (rule opened_begun [OF assms, of _ _ scope])
      (use Some find find_mutated [OF find, of fresh_generation] ids in \<open>simp_all add: resume_offset_def ids_mutate\<close>)
  ultimately show ?thesis by blast
qed

section \<open>Whole runs\<close>

definition mem_budget :: "CollectionPolicy \<Rightarrow> MemoryCollectionRepository \<Rightarrow> bool" where
  "mem_budget p s \<longleftrightarrow> mem_invar s \<and> (\<forall>a. mem_run_charge s a \<le> maximum_charged_bytes_run p) \<and>
     (\<forall>src. mem_day_charge s src \<le> maximum_charged_bytes_day p)"

definition run_covered :: "CollectionScope \<Rightarrow> nat \<Rightarrow> 'w run_world \<Rightarrow> bool" where
  "run_covered scope k t \<longleftrightarrow> (\<forall>f\<in>set (drop k (fst (snd t))). file_unknown f \<or> \<not> within_range f (cs_since scope) (cs_until scope) \<or>
     mem_finished (fst t) f (cs_archive_only scope))"

lemma policy_limits:
  assumes "CollectionPolicy_post_init ftp http p = Inr ()"
  shows "0 \<le> maximum_charged_bytes_run p" "0 \<le> maximum_files p" "0 \<le> maximum_discovery_records p"
    "0 \<le> maximum_reported_files p"
  using assms by (auto simp: CollectionPolicy_post_init_def rbind_Inr_iff split: if_splits)

lemma run_of_within: "CollectionPolicy_post_init ftp http p = Inr () \<Longrightarrow> within_policy p (run_of a b w)"
  using policy_limits [of ftp http p] by (simp add: within_policy_def run_of_def)

lemma run_of_between:
  assumes pol: "CollectionPolicy_post_init ftp http p = Inr ()" and "mem_budget p s"
    and begun: "begun scope s x (fst w)" and fresh: "fresh \<Longrightarrow> fst (snd w) = []"
  shows "mem.between_pages p scope (attempt_id x) fresh (resume_offset scope s) (run_of x b w)"
  unfolding mem.between_pages_def mem.funded_def mem.good_def mem.resumed_def
  using assms policy_limits [OF pol] run_of_within [OF pol, of x b w]
  by (auto simp: run_of_def begun_def mem_budget_def)

lemma traversal_run:
  assumes pol: "CollectionPolicy_post_init ftp http p = Inr ()" and budget: "mem_budget p s"
    and begun: "begun scope s x (fst w)"
  shows "wp (collect_with_context p strict memory_repository (run_ports ports) scope)
     (\<lambda>r c. mem_budget p (fst (world c)) \<and> (\<forall>res. r = Some res \<and> \<not> cr_run_truncated res \<and>
         fst (snd w) = [] \<longrightarrow> run_covered scope (resume_offset scope s) (world c)))
     (\<lambda>e c. mem_budget p (fst (world c))) (run_of x b w)"
proof (rule wp_mono [OF mem.collect_with_context_safe [OF pol run_of_between [OF pol budget begun,
        of "fst (snd w) = []"]]])
qed (auto simp: mem.funded_def mem.good_def mem_budget_def mem.covered_def run_covered_def mem.handled_def)

lemma wp_on_world:
  "(\<And>x w. Q x (fst s, fst (snd s), w)) \<Longrightarrow> (\<And>e w. E e (fst s, fst (snd s), w)) \<Longrightarrow> wp (on_world m) Q E s"
  by (auto simp: wp_def on_world_def split: prod.splits sum.splits)

lemma port_selectors:
  "p_acquire_lease (run_ports ports) i = on_world (p_acquire_lease ports i)"
  "p_release_lease (run_ports ports) i = on_world (p_release_lease ports i)"
  "r_begin_attempt memory_repository scope = on_repo (mem_begin_attempt scope)"
  by (simp_all add: run_ports_def memory_repository_def)

lemma wp_run:
  assumes "wp m (\<lambda>r c. Q r (world c)) (\<lambda>e c. E e (world c)) c0"
  shows "wp (\<lambda>s. case m c0 of (r, c) \<Rightarrow> (r, world c)) Q E s"
  using assms by (simp add: wp_def split: prod.splits sum.splits)

definition run_post ::
    "CollectionPolicy \<Rightarrow> CollectionScope \<Rightarrow> 'w run_world \<Rightarrow> CollectionResult option \<Rightarrow> 'w run_world \<Rightarrow> bool" where
  "run_post p scope s r t \<longleftrightarrow> mem_budget p (fst t) \<and> (\<forall>res. r = Some res \<and> \<not> cr_run_truncated res \<and>
     fst (snd s) = [] \<longrightarrow> run_covered scope (resume_offset scope (fst s)) t)"

lemma run_post_world: "run_post p scope s r t \<Longrightarrow> run_post p scope s r (fst t, fst (snd t), w)"
  by (simp add: run_post_def run_covered_def)

lemma collect_run:
  assumes pol: "CollectionPolicy_post_init ftp http p = Inr ()" and budget: "mem_budget p (fst s)"
  shows "wp (collect p strict memory_repository (run_ports ports) scope)
     (run_post p scope s) (\<lambda>e t. mem_budget p (fst t)) s"
proof -
  let ?Q = "run_post p scope s" and ?E = "\<lambda>e t. mem_budget p (fst t)"
  obtain x t where start: "mem_begin_attempt scope (fst s) = (Inr x, t)" "begun scope (fst s) x t"
    using mem_begin_returns [of "fst s" scope] budget unfolding mem_budget_def by blast
  have kept: "mem_budget p t" using start(2) budget policy_limits [OF pol] by (auto simp: begun_def mem_budget_def)
  have started: "wp (start_run p strict memory_repository (run_ports ports) scope x) ?Q ?E u"
    if u: "fst u = t" "fst (snd u) = fst (snd s)" for u
  proof -
    obtain now w where m: "p_monotonic (run_ports ports) u = (now, w)" by (cases "p_monotonic (run_ports ports) u")
    then have "fst w = fst u \<and> fst (snd w) = fst (snd u)"
      by (cases "p_monotonic ports (snd (snd u))") (auto simp: run_ports_def)
    with u have w: "fst w = t" "fst (snd w) = fst (snd s)" by simp_all
    have "wp (collect_with_context p strict memory_repository (run_ports ports) scope)
       (\<lambda>r c. ?Q r (world c)) (\<lambda>e c. ?E e (world c)) (run_of x b w)" for b
      using traversal_run [OF pol budget start(2) [folded w(1)]] w(2) by (simp add: run_post_def)
    from this [THEN wp_run] show ?thesis using m w(1) kept
      by (auto simp: start_run_def wp_def split: sum.split)
  qed
  have body: "wp (start_run p strict memory_repository (run_ports ports) scope x)
      (\<lambda>r. wp (on_world m) (\<lambda>_. ?Q r) ?E) (\<lambda>e. wp (on_world m) (\<lambda>_. ?E e) ?E) u"
    if u: "fst u = t" "fst (snd u) = fst (snd s)" for u m
  proof (rule wp_mono [OF started [OF u]])
    fix r v assume "?Q r v"
    then show "wp (on_world m) (\<lambda>_. ?Q r) ?E v"
      by (intro wp_on_world run_post_world) (simp_all add: run_post_def)
  qed (auto intro!: wp_on_world)
  show ?thesis unfolding collect_def wp_abind wp_afinally port_selectors
    using budget start(1) kept
    by (auto simp: wp_if wp_araise wp_abind wp_def [of "on_repo _"] on_repo_def intro!: wp_on_world body)
qed

section \<open>Properties\<close>

text \<open>A policy, ports and a scope for the witnesses: one listed price file that is ingested.\<close>

definition demo_policy :: CollectionPolicy where
  "demo_policy = \<lparr>discovery_page_size = 10, maximum_listing_requests = 5, maximum_listing_bytes = 1000,
     maximum_listing_elapsed_seconds = 60, maximum_files = 2, maximum_discovery_records = 4,
     maximum_reported_files = 1, maximum_archive_object_bytes = 100, maximum_transfer_chunk_bytes = 10,
     maximum_ftp_overhead_bytes = 0, maximum_http_overhead_bytes = 0, maximum_charged_bytes_run = 200,
     maximum_charged_bytes_day = 300, maximum_source_identities_day = 5, maximum_transfer_attempts_day = 6,
     maximum_successes_day = 7, source_lease_ttl = 60\<rparr>"

definition demo_scope :: CollectionScope where
  "demo_scope = \<lparr>cs_source_id = lit ''shop'', cs_portal_ids = [lit ''p''], cs_operation = ''ordinary'',
     cs_since = None, cs_until = None, cs_archive_only = False\<rparr>"

definition demo_file :: "datetime \<Rightarrow> RemoteFile" where
  "demo_file t = \<lparr>rf_retailer_id = lit ''shop'', rf_portal_id = lit ''p'', rf_protocol = HTTPS, rf_remote_id = lit ''f'',
     rf_download_url = lit ''u'', rf_original_filename = lit ''n'', rf_document_type = PRICE_FULL, rf_compression = GZIP,
     rf_discovered_at = t, rf_source_timestamp = None, rf_content_length = Some 50, rf_media_type = None,
     rf_etag = None, rf_last_modified = None, rf_response_metadata = []\<rparr>"

definition demo_ports :: "datetime \<Rightarrow> unit CollectionPorts" where
  "demo_ports t =
     \<lparr>p_discover = (\<lambda>cur n s. (Inr \<lparr>dp_files = [demo_file t], dp_next_cursor = None, dp_complete = True\<rparr>, s)),
      p_timeout_expired = (\<lambda>s. False), p_monotonic = (\<lambda>s. (0, s)),
      p_register = (\<lambda>f. areturn \<lparr>rs_source_file_id = 7, rs_remote_file = f, rs_status = DISCOVERED,
         rs_already_registered = False, rs_completed_content_sha256 = None, rs_archive_object_key = None,
         rs_content_sha256 = None, rs_archive_content_length = None\<rparr>),
      p_ingest = (\<lambda>f n. areturn \<lparr>ir_source_file_id = 7, ir_status = COMPLETED, ir_content_sha256 = None,
         ir_stage = None, ir_apply = None, ir_duplicate = False, ir_replayed = False, ir_transferred_bytes = 50\<rparr>),
      p_archive_only = (\<lambda>f n. araise (exn_of RuntimeError)), p_bootstrap = None,
      p_acquire_lease = (\<lambda>i. areturn True), p_release_lease = (\<lambda>i. areturn ())\<rparr>"

lemma demo_policy_ok: "CollectionPolicy_post_init 0 0 demo_policy = Inr ()"
  by (simp add: CollectionPolicy_post_init_def demo_policy_def DiscoveryRunBudget_init_def
      MAXIMUM_SUPPORTED_ARCHIVE_OBJECT_BYTES_def MAXIMUM_TRANSFER_CHUNK_BYTES_def)

lemma new_memory_budget: "mem_budget demo_policy new_memory_repository"
  by (simp add: mem_budget_def new_memory_repository_def mem_view_defs ids_below_def demo_policy_def)

definition result_within :: "CollectionPolicy \<Rightarrow> CollectionResult \<Rightarrow> bool" where
  "result_within p r \<longleftrightarrow> cr_file_count r \<le> maximum_files p \<and> cr_discovered_count r \<le> maximum_discovery_records p \<and>
     int (length (cr_reported_files r)) \<le> maximum_reported_files p"

lemma collect_returns:
  assumes pol: "CollectionPolicy_post_init ftp http p = Inr ()"
  shows "wp (collect p strict repo ports scope) (\<lambda>r t. \<exists>res. r = Some res \<and> result_within p res) (\<lambda>e t. True) s"
proof -
  let ?Q = "\<lambda>r t. \<exists>res. r = Some res \<and> result_within p res"
  have "wp (collect_with_context p strict repo ports scope) (\<lambda>r c. \<exists>res. r = Some res \<and> result_within p res)
      (\<lambda>e c. True) (run_of a b s)" for a b s
  proof -
    have "wp (page_loop (page_fuel p) p strict repo ports scope) (\<lambda>ended c. within_policy p c \<and> ended)
        (\<lambda>e. within_policy p) (run_of a b s)"
      by (rule page_loop_ends [OF run_of_within [OF pol]])
        (use policy_limits [OF pol] in \<open>simp_all add: run_of_def page_fuel_def\<close>)
    then show ?thesis unfolding collect_with_context_def traverse_def wp_abind wp_acatch
      by (rule wp_mono) (auto simp: action_simps result_within_def result_of_def within_policy_def intro!: wp_call_any)
  qed
  from this [THEN wp_run [where Q = ?Q and E = "\<lambda>e t. True"]]
  have started: "wp (start_run p strict repo ports scope a) ?Q (\<lambda>e t. True) s" for a s
    by (cases "p_monotonic ports s") (simp add: start_run_def wp_def split: sum.split)
  have body: "wp (start_run p strict repo ports scope a) (\<lambda>x. wp m (\<lambda>_. ?Q x) (\<lambda>e t. True))
      (\<lambda>e. wp m (\<lambda>_ t. True) (\<lambda>e t. True)) s" for a s and m :: "('a, exn, unit) action"
    by (rule wp_mono [OF started]) (auto intro: wp_any)
  show ?thesis unfolding collect_def wp_abind wp_afinally wp_if wp_araise
    by (rule wp_any) (auto intro!: wp_any [where m = "p_release_lease _ _"] wp_any [where m = "r_begin_attempt _ _"] body)
qed

lemmas demo_defs = demo_policy_def demo_scope_def demo_file_def demo_ports_def new_memory_repository_def

lemmas run_eval = collect_def start_run_def collect_with_context_def traverse_def page_fuel_def page_step_def
  discover_page_def call_discover_def checkpoint_now_def listing_checkpoint_def elapsed_exhausted_def
  remaining_elapsed_seconds_def run_of_def file_step_def validate_remote_scope_def file_unknown_def call_def of_result_def
  within_range_def collect_file_def charge_budget_reason_def protocol_overhead_def transfer_file_def process_file_def
  bootstrap_catalog_def file_transferred_def advance_def next_page_def result_of_def truncate_run_def
  DiscoveryRunBudget_init_def action_defs

lemmas mem_eval = run_ports_def memory_repository_def on_repo_def on_world_def listed_files_def mem_op_defs
  mem_begin_attempt_def mem_advance_attempt_def mem_finish_attempt_def mem_observe_attempt_def mem_is_terminal_def
  mem_note_terminal_def mem_charge_budget_def mem_reserve_transfer_def mem_settle_transfer_def uuid4_def
  find_checkpoint_def terminal_key_def file_identity_def CollectionChargeBudget_init_def
  exact_attempt_charge_def transfer_bytes_def archive_bytes_def archive_attached_def new_archive_charge_def

lemma demo_run:
  "\<exists>res r'. collect demo_policy True memory_repository (run_ports (demo_ports (Aware 0))) demo_scope
     (new_memory_repository, [], ()) = (Inr (Some res), (r', [demo_file (Aware 0)], ())) \<and> \<not> cr_run_truncated res"
  by (simp add: demo_defs run_eval mem_eval file_deltas_def no_deltas_def Let_def eval_nat_numeral)

text \<open>
  C32. A collection run ends: whatever the repository and the other ports do, under a valid
  policy the page loop stops within \<open>maximum_discovery_records + 2\<close> pages (\<open>None\<close> would be a
  run that used them all up).
\<close>

theorem collection_run_ends:
  assumes "CollectionPolicy_post_init ftp http p = Inr ()"
  shows "fst (collect p strict repo ports scope s) \<noteq> Inr None"
  using collect_returns [OF assms, of strict repo ports scope s] by (auto simp: wp_def split: prod.splits)

theorem collection_run_ends_witness:
  "CollectionPolicy_post_init 0 0 demo_policy = Inr () \<and>
   fst (collect demo_policy True memory_repository (run_ports (demo_ports (Aware 0))) demo_scope
     (new_memory_repository, [], ())) \<noteq> Inr None"
  using collection_run_ends [OF demo_policy_ok] demo_policy_ok by simp

text \<open>
  The numbers a run reports respect the policy: at most \<open>maximum_files\<close> files ingested,
  \<open>maximum_discovery_records\<close> records discovered and \<open>maximum_reported_files\<close> reported in detail,
  whatever the repository and the other ports do.
\<close>

theorem collection_counts_within_policy:
  assumes "CollectionPolicy_post_init ftp http p = Inr ()" "collect p strict repo ports scope s = (Inr (Some r), t)"
  shows "cr_file_count r \<le> maximum_files p \<and> cr_discovered_count r \<le> maximum_discovery_records p \<and>
    int (length (cr_reported_files r)) \<le> maximum_reported_files p"
  using wp_ret [OF collect_returns [OF assms(1)] assms(2)] by (simp add: result_within_def)

theorem collection_counts_within_policy_witness:
  "\<exists>r t. collect demo_policy True memory_repository (run_ports (demo_ports (Aware 0))) demo_scope
     (new_memory_repository, [], ()) = (Inr (Some r), t) \<and> cr_file_count r \<le> 2 \<and> cr_discovered_count r \<le> 4 \<and>
     length (cr_reported_files r) \<le> 1"
proof -
  obtain r t where run: "collect demo_policy True memory_repository (run_ports (demo_ports (Aware 0))) demo_scope
     (new_memory_repository, [], ()) = (Inr (Some r), t)" using demo_run by blast
  have "cr_file_count r \<le> 2 \<and> cr_discovered_count r \<le> 4 \<and> length (cr_reported_files r) \<le> 1"
    using collection_counts_within_policy [OF demo_policy_ok run] by (simp add: demo_policy_def)
  with run show ?thesis by blast
qed

text \<open>
  C30. Charges never exceed the policy: over the in-memory repository and for arbitrary other
  ports, if no attempt has charged more than the run limit and no source more than the day
  limit, this still holds after a run, however the run ends.
\<close>

theorem charges_stay_within_policy:
  assumes "CollectionPolicy_post_init ftp http p = Inr ()" "mem_budget p (fst s)"
  shows "mem_budget p (fst (snd (collect p strict memory_repository (run_ports ports) scope s)))"
  using collect_run [OF assms, of strict ports scope]
  by (auto simp: wp_def run_post_def split: prod.splits sum.splits)

theorem charges_stay_within_policy_witness:
  "mem_budget demo_policy (fst (snd (collect demo_policy True memory_repository (run_ports (demo_ports (Aware 0)))
     demo_scope (new_memory_repository, [], ()))))"
  by (rule charges_stay_within_policy [OF demo_policy_ok]) (simp add: new_memory_budget)

text \<open>
  C29. A run that reports completion has left nothing behind from where it was resumed: every file that its pages
  listed, but for those before the offset at which it entered its first page, is of an unknown kind, out of the
  requested range, or terminal in the repository. A run that starts without a checkpoint, or at the beginning of a page, leaves out none.
\<close>

theorem completed_run_covers_listing:
  assumes "CollectionPolicy_post_init ftp http p = Inr ()" "mem_budget p r"
    and "collect p strict memory_repository (run_ports ports) scope (r, [], w) = (Inr (Some res), (r', listed, w'))"
    and "\<not> cr_run_truncated res" "f \<in> set (drop (resume_offset scope r) listed)"
  shows "file_unknown f \<or> \<not> within_range f (cs_since scope) (cs_until scope) \<or>
    mem_finished r' f (cs_archive_only scope)"
proof -
  have "run_post p scope (r, [], w) (Some res) (r', listed, w')"
    using wp_ret [OF collect_run [OF assms(1)] assms(3)] assms(2) by simp
  then show ?thesis using assms(4,5) by (simp add: run_post_def run_covered_def)
qed

theorem completed_run_covers_listing_witness:
  "\<exists>res r'. collect demo_policy True memory_repository (run_ports (demo_ports (Aware 0))) demo_scope
     (new_memory_repository, [], ()) = (Inr (Some res), (r', [demo_file (Aware 0)], ())) \<and>
   mem_finished r' (demo_file (Aware 0)) False"
proof -
  obtain res r' where run: "collect demo_policy True memory_repository (run_ports (demo_ports (Aware 0))) demo_scope
     (new_memory_repository, [], ()) = (Inr (Some res), (r', [demo_file (Aware 0)], ()))" "\<not> cr_run_truncated res"
    using demo_run by blast
  have "resume_offset demo_scope new_memory_repository = 0" by (simp add: resume_offset_def new_memory_repository_def)
  with completed_run_covers_listing [OF demo_policy_ok new_memory_budget run, of "demo_file (Aware 0)"]
  have "mem_finished r' (demo_file (Aware 0)) (cs_archive_only demo_scope)"
    by (simp add: file_unknown_def within_range_def demo_file_def demo_scope_def)
  with run show ?thesis by (auto simp: demo_scope_def)
qed

text \<open>
  C31. The checkpoint passes a file only when the file needs no further work: while the files
  of a page are looked at, wherever the run stops (also by an exception), the checkpoint
  stands at some offset of that page and every file between the old and the new offset is of
  an unknown kind, out of range, or terminal.
\<close>

theorem checkpoint_passes_handled_files:
  assumes "CollectionPolicy_post_init ftp http p = Inr ()" "mem_budget p (fst (world c))" "within_policy p c"
    and "mem_position (fst (world c)) (attempt_id (attempt c)) = Some (ps, i)"
    and "file_loop p strict memory_repository (run_ports ports) scope ps i fs c = (r, c')"
  shows "\<exists>j\<le>length fs. mem_position (fst (world c')) (attempt_id (attempt c')) = Some (ps, i + j) \<and>
    (\<forall>f\<in>set (take j fs). file_unknown f \<or> \<not> within_range f (cs_since scope) (cs_until scope) \<or>
       mem_finished (fst (world c')) f (cs_archive_only scope))"
proof -
  have "mem.ok p c c" using assms(2) by (simp add: mem.good_def mem_budget_def)
  from mem.file_loop_safe [OF assms(1) this assms(4,3), of strict ports scope fs] assms(5)
  have "\<exists>j. mem.upto p scope ps i fs c c' j" by (cases r) (auto simp: wp_def)
  then show ?thesis by (auto simp: mem.upto_def mem.handled_def)
qed

theorem checkpoint_passes_handled_files_witness:
  "\<exists>ps c r c'. file_loop demo_policy True memory_repository (run_ports (demo_ports (Aware 0))) demo_scope ps 0
      [demo_file (Aware 0)] c = (r, c') \<and>
    (\<exists>j\<le>1. mem_position (fst (world c')) (attempt_id (attempt c')) = Some (ps, j))"
proof -
  obtain x t where start: "begun demo_scope new_memory_repository x t"
    using mem_begin_returns [of new_memory_repository demo_scope] new_memory_budget by (auto simp: mem_budget_def)
  let ?c = "run_of x undefined (t, [], ())"
  have "resume_offset demo_scope new_memory_repository = 0" by (simp add: resume_offset_def new_memory_repository_def)
  then have pos: "mem_position (fst (world ?c)) (attempt_id (attempt ?c)) = Some (ca_cursor x, 0)"
    using start by (simp add: run_of_def begun_def)
  have "mem_budget demo_policy (fst (world ?c))"
    using start new_memory_budget by (auto simp: run_of_def begun_def mem_budget_def demo_policy_def)
  moreover obtain r c' where loop: "file_loop demo_policy True memory_repository (run_ports (demo_ports (Aware 0)))
      demo_scope (ca_cursor x) 0 [demo_file (Aware 0)] ?c = (r, c')"
    by (cases "file_loop demo_policy True memory_repository (run_ports (demo_ports (Aware 0)))
      demo_scope (ca_cursor x) 0 [demo_file (Aware 0)] ?c")
  ultimately have "\<exists>j\<le>length [demo_file (Aware 0)]. mem_position (fst (world c')) (attempt_id (attempt c')) = Some (ca_cursor x, 0 + j)"
    using checkpoint_passes_handled_files [OF demo_policy_ok _ run_of_within [OF demo_policy_ok] pos] by blast
  then have "\<exists>j\<le>1. mem_position (fst (world c')) (attempt_id (attempt c')) = Some (ca_cursor x, j)" by simp
  with loop show ?thesis by blast
qed

end
