(* ===== verification/Ingestion.thy ===== *)
theory Ingestion
  imports Application_Models
begin

text \<open>
  The ingestion of one source file, \<^verbatim>\<open>application/ingestion.py\<close>: the policy, the retained-memory
  charge, the bounded staging batches, the download retries with their cumulative byte
  charge, and the whole of \<^verbatim>\<open>ingest\<close>, \<^verbatim>\<open>archive_only\<close> and \<^verbatim>\<open>replay\<close> with their failure handling.
  The ports (repository, downloader, archive, parser, leases) are records of stateful calls,
  arguments of the definitions. Log events and metrics are not modelled; fractions are exact
  rationals.
\<close>

section \<open>Policy\<close>

record IngestionPolicy =
  stage_batch_size :: int
  maximum_stage_batch_bytes :: int
  lease_ttl :: rat  \<comment> \<open>seconds\<close>
  download_attempts :: int
  minimum_full_records :: "int option"
  minimum_full_store_records :: int
  minimum_full_price_records :: int
  minimum_full_promotion_records :: int
  maximum_full_snapshot_drop_fraction :: rat
  maximum_record_rejection_fraction :: rat
  maximum_validation_issues :: int
  maximum_validation_issue_bytes :: int

definition IngestionPolicy_post_init :: "IngestionPolicy \<Rightarrow> exn + unit" where
  "IngestionPolicy_post_init p =
     (if stage_batch_size p \<le> 0 \<or> maximum_stage_batch_bytes p \<le> 0 \<or> download_attempts p \<le> 0
         \<or> maximum_validation_issues p \<le> 0 \<or> maximum_validation_issue_bytes p \<le> 0 then err ValueError
      else if lease_ttl p \<le> 0 then err ValueError
      else if (case minimum_full_records p of None \<Rightarrow> False | Some n \<Rightarrow> n < 0) then err ValueError
      else if minimum_full_store_records p < 0 \<or> minimum_full_price_records p < 0
              \<or> minimum_full_promotion_records p < 0 then err ValueError
      else if \<not> (0 \<le> maximum_full_snapshot_drop_fraction p \<and> maximum_full_snapshot_drop_fraction p < 1)
      then err ValueError
      else if \<not> (0 \<le> maximum_record_rejection_fraction p \<and> maximum_record_rejection_fraction p < 1)
      then err ValueError
      else Inr ())"

definition minimum_full_records_for :: "IngestionPolicy \<Rightarrow> DocumentType \<Rightarrow> int" where
  "minimum_full_records_for p d =
     (case minimum_full_records p of
        Some n \<Rightarrow> n
      | None \<Rightarrow> if d = STORES then minimum_full_store_records p
                else if is_price d then minimum_full_price_records p
                else minimum_full_promotion_records p)"

section \<open>Retained memory of a parsed event\<close>

text \<open>
  A Python value as \<^verbatim>\<open>_retained_value_charge\<close> distinguishes it: an enum member is a \<^verbatim>\<open>str\<close>, a \<^verbatim>\<open>bool\<close>
  is an \<^verbatim>\<open>int\<close>; \<^verbatim>\<open>None\<close>, dates and UUIDs are \<open>PvOther\<close>.
\<close>

datatype pyval =
    PvStr ustr | PvTuple "pyval list" | PvDecimal decimal | PvInt int | PvData "pyval list" | PvOther

fun bit_length :: "nat \<Rightarrow> nat" where
  "bit_length n = (if n = 0 then 0 else Suc (bit_length (n div 2)))"

declare bit_length.simps [simp del]

fun digit_count :: "decimal \<Rightarrow> nat" where
  "digit_count (Dec _ coefficient _) = length (dec_digits coefficient)"
| "digit_count (DInfinity _) = 1"
| "digit_count DNaN = 0"

fun retained_value_charge :: "pyval \<Rightarrow> int" where
  "retained_value_charge (PvStr s) = 128 + 4 * int (length s)"
| "retained_value_charge (PvTuple vs) = 256 + sum_list (map retained_value_charge vs)"
| "retained_value_charge (PvDecimal d) = 128 + 4 * int (digit_count d)"
| "retained_value_charge (PvInt i) = 128 + (int (bit_length (nat \<bar>i\<bar>)) + 7) div 8"
| "retained_value_charge (PvData vs) = 256 + sum_list (map retained_value_charge vs)"
| "retained_value_charge PvOther = 128"

definition pv_opt :: "('a \<Rightarrow> pyval) \<Rightarrow> 'a option \<Rightarrow> pyval" where
  "pv_opt f x = (case x of None \<Rightarrow> PvOther | Some y \<Rightarrow> f y)"

definition pv_bool :: "bool \<Rightarrow> pyval" where
  "pv_bool b = PvInt (if b then 1 else 0)"

fun document_type_value :: "DocumentType \<Rightarrow> ustr" where
  "document_type_value STORES = lit ''stores''"
| "document_type_value PRICE_FULL = lit ''price_full''"
| "document_type_value PRICE_DELTA = lit ''price_delta''"
| "document_type_value PROMOTION_FULL = lit ''promotion_full''"
| "document_type_value PROMOTION_DELTA = lit ''promotion_delta''"
| "document_type_value UNKNOWN_DOCUMENT = lit ''unknown''"

fun issue_category_value :: "IssueCategory \<Rightarrow> ustr" where
  "issue_category_value WARNING = lit ''warning''"
| "issue_category_value RECORD_REJECTION = lit ''record_rejection''"
| "issue_category_value FILE_QUARANTINE = lit ''file_quarantine''"
| "issue_category_value SOURCE_FAILURE = lit ''source_failure''"
| "issue_category_value SYSTEM_FAILURE = lit ''system_failure''"

fun discount_kind_value :: "DiscountKind \<Rightarrow> ustr" where
  "discount_kind_value FIXED_PRICE = lit ''fixed_price''"
| "discount_kind_value PERCENTAGE = lit ''percentage''"
| "discount_kind_value AMOUNT = lit ''amount''"
| "discount_kind_value QUANTITY = lit ''quantity''"
| "discount_kind_value SECOND_ITEM = lit ''second_item''"
| "discount_kind_value MIX_AND_MATCH = lit ''mix_and_match''"
| "discount_kind_value CONDITIONAL = lit ''conditional''"
| "discount_kind_value UNKNOWN_DISCOUNT = lit ''unknown''"

definition promotion_item_value :: "PromotionItem \<Rightarrow> pyval" where
  "promotion_item_value i =
     PvData [PvStr (pi_item_code i), pv_opt PvInt (pi_item_type i), pv_bool (pi_is_gift i)]"

text \<open>The fields of a parsed event in the order of its dataclass.\<close>

fun event_value :: "ParsedEvent \<Rightarrow> pyval" where
  "event_value (EMetadata d) = PvData
     [PvOther, PvStr (document_type_value (dm_document_type d)), pv_opt PvStr (dm_chain_id d),
      pv_opt PvStr (dm_subchain_id d), pv_opt PvStr (dm_store_id d), pv_opt PvStr (dm_audit_number d), PvOther]"
| "event_value (EStore r) = PvData
     [PvOther, PvInt (sr_record_index r), PvStr (sr_chain_id r), PvStr (sr_subchain_id r), PvStr (sr_store_id r),
      pv_opt PvStr (sr_audit_number r), pv_opt PvStr (sr_store_type r), pv_opt PvStr (sr_chain_name r),
      pv_opt PvStr (sr_subchain_name r), PvStr (sr_store_name r), pv_opt PvStr (sr_address r),
      pv_opt PvStr (sr_city r), pv_opt PvStr (sr_postal_code r)]"
| "event_value (EPrice r) = PvData
     [PvOther, PvInt (pr_record_index r), PvStr (pr_chain_id r), PvStr (pr_subchain_id r), PvStr (pr_store_id r),
      PvStr (pr_item_code r), pv_opt PvInt (pr_item_type r), PvStr (pr_item_name r),
      pv_opt PvStr (pr_manufacturer_name r), pv_opt PvStr (pr_manufacturer_country r),
      pv_opt PvStr (pr_manufacturer_description r), pv_opt PvStr (pr_unit_quantity r),
      pv_opt PvDecimal (pr_quantity r), pv_opt PvStr (pr_unit_of_measure r), pv_opt pv_bool (pr_is_weighted r),
      pv_opt PvDecimal (pr_quantity_in_package r), PvDecimal (pr_item_price r),
      pv_opt PvDecimal (pr_unit_of_measure_price r), pv_opt pv_bool (pr_allow_discount r),
      pv_opt PvInt (pr_item_status r), PvOther, PvOther, pv_opt PvStr (pr_audit_number r)]"
| "event_value (EPromotion r) = PvData
     [PvOther, PvInt (pm_record_index r), PvStr (pm_chain_id r), PvStr (pm_subchain_id r),
      pv_opt PvStr (pm_source_store_id r), PvStr (pm_promotion_id r), pv_opt PvStr (pm_description r),
      PvStr (discount_kind_value (pm_discount_kind r)), PvOther, PvOther,
      PvTuple (map promotion_item_value (pm_items r)), PvTuple (map PvStr (pm_store_ids r)),
      PvTuple (map PvStr (pm_club_ids r)), pv_opt PvInt (pm_reward_type r),
      pv_opt pv_bool (pm_allows_multiple_discounts r), pv_opt PvDecimal (pm_minimum_quantity r),
      pv_opt PvDecimal (pm_maximum_quantity r), pv_opt PvDecimal (pm_discount_rate r),
      pv_opt PvDecimal (pm_minimum_purchase r), pv_opt PvDecimal (pm_discounted_price r),
      pv_opt PvDecimal (pm_discounted_unit_price r), pv_opt PvInt (pm_minimum_items_offered r),
      pv_opt PvStr (pm_additional_restrictions r), pv_opt PvStr (pm_remarks r), pv_opt pv_bool (pm_is_active r)]"
| "event_value (EIssue i) = PvData
     [PvOther, PvStr (issue_category_value (vi_severity i)), PvStr (vi_code i), PvStr (vi_message i),
      pv_opt PvInt (vi_record_index i), pv_opt PvStr (vi_field_name i), pv_opt PvStr (vi_rejected_value i)]"

fun stage_units :: "ParsedEvent \<Rightarrow> int" where
  "stage_units (EPromotion r) =
     1 + int (length (pm_items r)) + int (length (effective_promotion_store_ids r)) + int (length (pm_club_ids r))"
| "stage_units _ = 1"

definition stage_memory_charge :: "ParsedEvent \<Rightarrow> int \<Rightarrow> int" where
  "stage_memory_charge e units = retained_value_charge (event_value e) + units * 512"

section \<open>Counting\<close>

definition no_stage :: StageSummary where
  "no_stage = \<lparr>metadata_records = 0, store_records = 0, price_records = 0, promotion_records = 0, warnings = 0,
     rejected_records = 0, file_quarantines = 0, validation_issue_bytes = 0, sampled_validation_issues = 0\<rparr>"

definition combine_stage :: "StageSummary \<Rightarrow> StageSummary \<Rightarrow> StageSummary" where
  "combine_stage a b =
     \<lparr>metadata_records = metadata_records a + metadata_records b, store_records = store_records a + store_records b,
      price_records = price_records a + price_records b,
      promotion_records = promotion_records a + promotion_records b, warnings = warnings a + warnings b,
      rejected_records = rejected_records a + rejected_records b,
      file_quarantines = file_quarantines a + file_quarantines b,
      validation_issue_bytes = validation_issue_bytes a + validation_issue_bytes b,
      sampled_validation_issues = sampled_validation_issues a + sampled_validation_issues b\<rparr>"

text \<open>One turn of the loop of \<^verbatim>\<open>stage_events\<close>; the issue count is formed after the loop.\<close>

fun count_event :: "ParsedEvent \<Rightarrow> StageSummary \<Rightarrow> exn + StageSummary" where
  "count_event (EMetadata _) s = Inr (s\<lparr>metadata_records := metadata_records s + 1\<rparr>)"
| "count_event (EStore _) s = Inr (s\<lparr>store_records := store_records s + 1\<rparr>)"
| "count_event (EPrice _) s = Inr (s\<lparr>price_records := price_records s + 1\<rparr>)"
| "count_event (EPromotion _) s = Inr (s\<lparr>promotion_records := promotion_records s + 1\<rparr>)"
| "count_event (EIssue i) s =
     rbind (validation_issue_charge i) (\<lambda>n.
       let s' = s\<lparr>validation_issue_bytes := validation_issue_bytes s + n\<rparr> in
       Inr (case vi_severity i of
              WARNING \<Rightarrow> s'\<lparr>warnings := warnings s' + 1\<rparr>
            | RECORD_REJECTION \<Rightarrow> s'\<lparr>rejected_records := rejected_records s' + 1\<rparr>
            | FILE_QUARANTINE \<Rightarrow> s'\<lparr>file_quarantines := file_quarantines s' + 1\<rparr>
            | _ \<Rightarrow> s'))"

fun count_events :: "ParsedEvent list \<Rightarrow> StageSummary \<Rightarrow> exn + StageSummary" where
  "count_events [] s = Inr s"
| "count_events (e # es) s = rbind (count_event e s) (count_events es)"

definition stage_events :: "ParsedEvent list \<Rightarrow> exn + StageSummary" where
  "stage_events es =
     rbind (count_events es no_stage) (\<lambda>s.
       Inr (s\<lparr>sampled_validation_issues := warnings s + rejected_records s + file_quarantines s\<rparr>))"

section \<open>Ports\<close>

record DownloadEvidence =
  de_started_at :: datetime
  de_finished_at :: datetime
  de_status_code :: "int option"
  de_content_length :: int
  de_media_type :: "ustr option"
  de_etag :: "ustr option"
  de_last_modified :: "datetime option"
  de_response_metadata :: "(ustr \<times> ustr) list"

record ArchivedDownload =
  ad_archive :: ArchiveReceipt
  ad_evidence :: DownloadEvidence
  ad_transferred_bytes :: int

definition ArchivedDownload_post_init :: "ArchivedDownload \<Rightarrow> exn + ArchivedDownload" where
  "ArchivedDownload_post_init a = (if ad_transferred_bytes a < 0 then err ValueError else Inr a)"

text \<open>The protocol \<^verbatim>\<open>IngestionRepository\<close>; error messages are not modelled.\<close>

record 's IngestionRepository =
  i_assert_allowed :: "nat option \<Rightarrow> ('s, exn, unit) action"
  i_register_discovery :: "RemoteFile \<Rightarrow> bool \<Rightarrow> ('s, exn, RegisteredSourceFile) action"
  i_get :: "nat \<Rightarrow> ('s, exn, RegisteredSourceFile) action"
  i_transition :: "nat \<Rightarrow> IngestionStatus list \<Rightarrow> IngestionStatus \<Rightarrow> string option \<Rightarrow> ('s, exn, unit) action"
  i_record_archive :: "nat \<Rightarrow> ArchivedDownload \<Rightarrow> ustr \<Rightarrow> ('s, exn, bool) action"
  i_archive_sha256 :: "nat \<Rightarrow> ('s, exn, ustr) action"
  i_reuse_validated_staging ::
    "nat \<Rightarrow> ustr \<Rightarrow> DocumentType \<Rightarrow> CompressionFormat \<Rightarrow> ('s, exn, StageSummary option) action"
  i_stage :: "nat \<Rightarrow> ParsedEvent list \<Rightarrow> ('s, exn, StageSummary) action"
  i_finalize_staging :: "nat \<Rightarrow> DocumentType \<Rightarrow> ('s, exn, StageSummary) action"
  i_has_file_quarantine_issue :: "nat \<Rightarrow> ('s, exn, bool) action"
  i_apply :: "nat \<Rightarrow> DocumentType \<Rightarrow> int \<Rightarrow> rat \<Rightarrow> ('s, exn, ApplySummary) action"
  i_begin_replay :: "nat \<Rightarrow> ustr \<Rightarrow> nat option \<Rightarrow> ('s, exn, nat) action"
  i_finish_replay :: "nat \<Rightarrow> bool \<Rightarrow> string option \<Rightarrow> ('s, exn, unit) action"

text \<open>
  The other ports. A download session is a handle; \<open>d_transferred\<close> reads its byte counter.
  The parser's generator is the finite list of its steps, each of which yields an event or
  raises; it is created by \<open>a_parse\<close> in the state in which parsing starts.
\<close>

record 's IngestionPorts =
  d_open :: "RemoteFile \<Rightarrow> int option \<Rightarrow> ('s, exn, nat) action"
  d_transferred :: "nat \<Rightarrow> 's \<Rightarrow> int"
  d_finish :: "nat \<Rightarrow> int \<Rightarrow> ('s, exn, DownloadEvidence) action"
  d_close :: "nat \<Rightarrow> ('s, exn, unit) action"
  a_put :: "nat \<Rightarrow> ustr \<Rightarrow> ('s, exn, ustr \<times> int \<times> bool) action"
  a_verify :: "ustr \<Rightarrow> ustr \<Rightarrow> ('s, exn, int) action"
  a_open :: "ustr \<Rightarrow> ('s, exn, unit) action"
  a_close :: "ustr \<Rightarrow> ('s, exn, unit) action"
  a_parse :: "nat \<Rightarrow> RemoteFile \<Rightarrow> 's \<Rightarrow> ('s, exn, ParsedEvent) action list"
  parser_version :: ustr
  l_acquire :: "nat \<Rightarrow> ('s, exn, bool) action"
  l_release :: "nat \<Rightarrow> ('s, exn, unit) action"

section \<open>Helpers\<close>

definition ensure_archive_length :: "RegisteredSourceFile \<Rightarrow> int \<Rightarrow> exn + unit" where
  "ensure_archive_length r verified_length =
     (case rs_archive_content_length r of
        None \<Rightarrow> Inr ()
      | Some expected \<Rightarrow> if verified_length \<noteq> expected then err ArchiveIntegrityError else Inr ())"

definition validate_archive_byte_limit :: "int option \<Rightarrow> exn + unit" where
  "validate_archive_byte_limit m =
     (case m of None \<Rightarrow> Inr () | Some n \<Rightarrow> if n \<le> 0 then err ValueError else Inr ())"

definition ensure_validation_issue_attempt_within_limits :: "int \<Rightarrow> int \<Rightarrow> IngestionPolicy \<Rightarrow> exn + unit" where
  "ensure_validation_issue_attempt_within_limits issue_count issue_bytes p =
     (if issue_count > maximum_validation_issues p \<or> issue_bytes > maximum_validation_issue_bytes p
      then err QuarantinedFileError else Inr ())"

definition ensure_stage_event_within_limits :: "int \<Rightarrow> int \<Rightarrow> IngestionPolicy \<Rightarrow> exn + unit" where
  "ensure_stage_event_within_limits units nbytes p =
     (if units > stage_batch_size p then err QuarantinedFileError
      else if nbytes > maximum_stage_batch_bytes p then err QuarantinedFileError
      else Inr ())"

definition duplicate_result :: "nat \<Rightarrow> ustr option \<Rightarrow> IngestionResult" where
  "duplicate_result sid sha = \<lparr>ir_source_file_id = sid, ir_status = COMPLETED, ir_content_sha256 = sha,
     ir_stage = None, ir_apply = None, ir_duplicate = True, ir_replayed = False, ir_transferred_bytes = 0\<rparr>"

definition retryable :: "exn \<Rightarrow> bool" where
  "retryable e \<longleftrightarrow> is_makolet_class (exn_class e) \<and> class_retryable (exn_class e)"

definition is_retryable :: "exn \<Rightarrow> bool" where
  "is_retryable e \<longleftrightarrow> retryable e \<and> exn_class e \<notin> {ChargeBudgetExceededError, ArchiveCapacityError}"

definition error_code :: "exn \<Rightarrow> string" where
  "error_code e = (case error_class_code (exn_class e) of Some c \<Rightarrow> c | None \<Rightarrow> ''unexpected_error'')"

text \<open>\<^verbatim>\<open>except Exception\<close> does not see a cancellation.\<close>

definition catch_exception :: "('s, exn, 'a) action \<Rightarrow> (exn \<Rightarrow> ('s, exn, 'a) action) \<Rightarrow> ('s, exn, 'a) action" where
  "catch_exception m h = acatch m (\<lambda>e. if exn_class e = CancelledError then araise e else h e)"

text \<open>\<^verbatim>\<open>text.rsplit("/", 1)[-1]\<close>.\<close>

definition after_last_slash :: "ustr \<Rightarrow> ustr" where
  "after_last_slash s = rev (takeWhile (\<lambda>c. c \<noteq> 47) (rev s))"

section \<open>Download and archive\<close>

text \<open>
  The local variables of the retry loop: the bytes of all attempts, and for the current
  attempt its bytes and its session.
\<close>

record 's drun =
  d_total :: int
  d_attempt :: int
  d_session :: "nat option"
  d_world :: 's

definition dcall :: "('s, exn, 'a) action \<Rightarrow> ('s drun, exn, 'a) action" where
  "dcall m c = (case m (d_world c) of (r, w) \<Rightarrow> (r, c\<lparr>d_world := w\<rparr>))"

definition attempt_bytes :: "'s IngestionPorts \<Rightarrow> int \<Rightarrow> 's drun \<Rightarrow> int" where
  "attempt_bytes ports error_bytes c =
     max (d_attempt c) (max error_bytes
       (case d_session c of None \<Rightarrow> 0 | Some h \<Rightarrow> d_transferred ports h (d_world c)))"

text \<open>The \<^verbatim>\<open>try\<close> block of one attempt.\<close>

definition download_once ::
    "'s IngestionRepository \<Rightarrow> 's IngestionPorts \<Rightarrow> RegisteredSourceFile \<Rightarrow> int option \<Rightarrow>
     ('s drun, exn, ArchivedDownload \<times> bool) action" where
  "download_once repo ports registered maximum_charged_bytes =
     abind (aget d_total) (\<lambda>total.
     let remaining = map_option (\<lambda>m. m - total) maximum_charged_bytes in
     if (case remaining of None \<Rightarrow> False | Some n \<Rightarrow> n \<le> 0) then araise (exn_of ChargeBudgetExceededError)
     else
       abind (dcall (d_open ports (rs_remote_file registered) remaining)) (\<lambda>session.
       abind (amodify (\<lambda>c. c\<lparr>d_session := Some session\<rparr>)) (\<lambda>_.
       afinally
         (abind (dcall (a_put ports session (rf_original_filename (rs_remote_file registered))))
            (\<lambda>(object_key, content_length, created).
          abind (amodify (\<lambda>c. c\<lparr>d_attempt := max content_length (d_transferred ports session (d_world c))\<rparr>)) (\<lambda>_.
          abind (dcall (d_finish ports session content_length)) (\<lambda>evidence.
            let receipt = \<lparr>ar_content_sha256 = after_last_slash object_key, ar_object_key = object_key,
                  ar_content_length = content_length, ar_archived_at = de_finished_at evidence,
                  ar_created = created\<rparr>;
                archived = \<lparr>ad_archive = receipt, ad_evidence = evidence, ad_transferred_bytes = 0\<rparr> in
          abind (of_result (ArchiveReceipt_post_init receipt)) (\<lambda>_.
          abind (dcall (i_record_archive repo (rs_source_file_id registered) archived (parser_version ports))) (\<lambda>duplicate.
          abind (amodify (\<lambda>c. c\<lparr>d_total := d_total c + d_attempt c\<rparr>)) (\<lambda>_.
          abind (aget d_total) (\<lambda>total.
          abind (of_result (ArchivedDownload_post_init (archived\<lparr>ad_transferred_bytes := total\<rparr>))) (\<lambda>done.
            areturn (done, duplicate))))))))))
         (dcall (d_close ports session)))))"

text \<open>The two \<^verbatim>\<open>except\<close> clauses of an attempt: the bytes of the attempt are added to the total.\<close>

definition download_failed ::
    "'s IngestionPorts \<Rightarrow> exn \<Rightarrow> ('s drun, exn, ArchivedDownload \<times> bool) action" where
  "download_failed ports e =
     abind (amodify (\<lambda>c. c\<lparr>d_total := d_total c +
       attempt_bytes ports (if is_makolet_class (exn_class e) then transferred_bytes e else 0) c\<rparr>)) (\<lambda>_.
     abind (aget d_total) (\<lambda>total.
       if exn_class e = DownloadLimitError \<and> budget_limited e
       then abind (of_result (MakoletError_init ChargeBudgetExceededError total)) araise
       else if is_makolet_class (exn_class e) then araise (e\<lparr>transferred_bytes := total\<rparr>)
       else if total \<noteq> 0 then abind (of_result (MakoletError_init RepositoryError total)) araise
       else araise e))"

definition download_attempt ::
    "'s IngestionRepository \<Rightarrow> 's IngestionPorts \<Rightarrow> RegisteredSourceFile \<Rightarrow> int option \<Rightarrow>
     ('s drun, exn, ArchivedDownload \<times> bool) action" where
  "download_attempt repo ports registered maximum_charged_bytes =
     abind (amodify (\<lambda>c. c\<lparr>d_attempt := 0, d_session := None\<rparr>)) (\<lambda>_.
       catch_exception (download_once repo ports registered maximum_charged_bytes) (download_failed ports))"

text \<open>
  \<^verbatim>\<open>AsyncRetrying\<close> with \<^verbatim>\<open>stop_after_attempt\<close>, \<^verbatim>\<open>retry_if_exception(_is_retryable)\<close> and \<^verbatim>\<open>reraise\<close>: a retryable
  error starts the next attempt while one is left, every other outcome is final.
\<close>

fun download_loop ::
    "nat \<Rightarrow> 's IngestionRepository \<Rightarrow> 's IngestionPorts \<Rightarrow> RegisteredSourceFile \<Rightarrow> int option \<Rightarrow>
     ('s drun, exn, ArchivedDownload \<times> bool) action" where
  "download_loop 0 repo ports registered m = araise (exn_of AssertionError)"
| "download_loop (Suc attempts) repo ports registered m =
     acatch (download_attempt repo ports registered m)
       (\<lambda>e. if is_retryable e \<and> 0 < attempts then download_loop attempts repo ports registered m else araise e)"

definition download_and_archive ::
    "IngestionPolicy \<Rightarrow> 's IngestionRepository \<Rightarrow> 's IngestionPorts \<Rightarrow> RegisteredSourceFile \<Rightarrow> int option \<Rightarrow>
     ('s, exn, ArchivedDownload \<times> bool) action" where
  "download_and_archive p repo ports registered m =
     abind (i_transition repo (rs_source_file_id registered) [DISCOVERED, FAILED_RETRYABLE] DOWNLOADING None) (\<lambda>_ s.
       case download_loop (nat (download_attempts p)) repo ports registered m
              \<lparr>d_total = 0, d_attempt = 0, d_session = None, d_world = s\<rparr> of
         (r, c) \<Rightarrow> (r, d_world c))"

definition ensure_archived ::
    "IngestionPolicy \<Rightarrow> 's IngestionRepository \<Rightarrow> 's IngestionPorts \<Rightarrow> RegisteredSourceFile \<Rightarrow> int option \<Rightarrow>
     ('s, exn, ustr \<times> ustr \<times> bool \<times> int) action" where
  "ensure_archived p repo ports registered m =
     (case rs_archive_object_key registered of
        Some object_key \<Rightarrow>
          abind (case rs_content_sha256 registered of
                   Some d \<Rightarrow> if d \<noteq> [] then areturn d else i_archive_sha256 repo (rs_source_file_id registered)
                 | None \<Rightarrow> i_archive_sha256 repo (rs_source_file_id registered)) (\<lambda>digest.
          abind (a_verify ports object_key digest) (\<lambda>verified_length.
          abind (of_result (ensure_archive_length registered verified_length)) (\<lambda>_.
            areturn (object_key, digest, False, 0))))
      | None \<Rightarrow>
          abind (download_and_archive p repo ports registered m) (\<lambda>(archived, duplicate).
            areturn (ar_object_key (ad_archive archived), ar_content_sha256 (ad_archive archived), duplicate,
              ad_transferred_bytes archived)))"

section \<open>Parse, stage, validate and apply\<close>

text \<open>The local variables of the staging loop; none of them outlives an exception.\<close>

record batch_state =
  b_batch :: "ParsedEvent list"
  b_units :: int
  b_bytes :: int
  b_issue_count :: int
  b_issue_bytes :: int
  b_summary :: StageSummary

definition no_batch :: batch_state where
  "no_batch = \<lparr>b_batch = [], b_units = 0, b_bytes = 0, b_issue_count = 0, b_issue_bytes = 0, b_summary = no_stage\<rparr>"

definition flush_batch :: "'s IngestionRepository \<Rightarrow> nat \<Rightarrow> batch_state \<Rightarrow> ('s, exn, batch_state) action" where
  "flush_batch repo sid b =
     abind (i_stage repo sid (b_batch b)) (\<lambda>staged.
       areturn (b\<lparr>b_summary := combine_stage (b_summary b) staged, b_batch := [], b_units := 0, b_bytes := 0\<rparr>))"

definition charge_issue :: "IngestionPolicy \<Rightarrow> ParsedEvent \<Rightarrow> batch_state \<Rightarrow> exn + batch_state" where
  "charge_issue p e b =
     (case e of
        EIssue i \<Rightarrow>
          rbind (validation_issue_charge i) (\<lambda>n.
            let b' = b\<lparr>b_issue_count := b_issue_count b + 1, b_issue_bytes := b_issue_bytes b + n\<rparr> in
            rbind (ensure_validation_issue_attempt_within_limits (b_issue_count b') (b_issue_bytes b') p) (\<lambda>_. Inr b'))
      | _ \<Rightarrow> Inr b)"

definition add_event ::
    "IngestionPolicy \<Rightarrow> 's IngestionRepository \<Rightarrow> nat \<Rightarrow> ParsedEvent \<Rightarrow> int \<Rightarrow> int \<Rightarrow> batch_state \<Rightarrow>
     ('s, exn, batch_state) action" where
  "add_event p repo sid e units nbytes b =
     (let b' = b\<lparr>b_batch := b_batch b @ [e], b_units := b_units b + units, b_bytes := b_bytes b + nbytes\<rparr> in
      if b_units b' \<ge> stage_batch_size p \<or> b_bytes b' \<ge> maximum_stage_batch_bytes p
      then flush_batch repo sid b' else areturn b')"

definition stage_event ::
    "IngestionPolicy \<Rightarrow> 's IngestionRepository \<Rightarrow> nat \<Rightarrow> ParsedEvent \<Rightarrow> batch_state \<Rightarrow> ('s, exn, batch_state) action" where
  "stage_event p repo sid e b =
     abind (of_result (charge_issue p e b)) (\<lambda>b.
     let units = stage_units e; nbytes = stage_memory_charge e units in
     abind (of_result (ensure_stage_event_within_limits units nbytes p)) (\<lambda>_.
     abind (if b_batch b \<noteq> [] \<and> (b_units b + units > stage_batch_size p \<or>
                b_bytes b + nbytes > maximum_stage_batch_bytes p)
            then flush_batch repo sid b else areturn b) (\<lambda>b.
       add_event p repo sid e units nbytes b)))"

fun stage_loop ::
    "IngestionPolicy \<Rightarrow> 's IngestionRepository \<Rightarrow> nat \<Rightarrow> ('s, exn, ParsedEvent) action list \<Rightarrow> batch_state \<Rightarrow>
     ('s, exn, batch_state) action" where
  "stage_loop p repo sid [] b = areturn b"
| "stage_loop p repo sid (next_event # steps) b =
     abind next_event (\<lambda>e. abind (stage_event p repo sid e b) (stage_loop p repo sid steps))"

definition parse_and_stage ::
    "IngestionPolicy \<Rightarrow> 's IngestionRepository \<Rightarrow> 's IngestionPorts \<Rightarrow> nat \<Rightarrow> RemoteFile \<Rightarrow> ustr \<Rightarrow>
     ('s, exn, StageSummary) action" where
  "parse_and_stage p repo ports sid f object_key =
     abind (i_reuse_validated_staging repo sid (parser_version ports) (rf_document_type f) (rf_compression f)) (\<lambda>reused.
     abind (case reused of
              Some summary \<Rightarrow> areturn summary
            | None \<Rightarrow>
                abind (a_open ports object_key) (\<lambda>_.
                abind (afinally (abind (aget (a_parse ports sid f)) (\<lambda>steps. stage_loop p repo sid steps no_batch))
                         (a_close ports object_key)) (\<lambda>b.
                abind (if b_batch b \<noteq> [] then flush_batch repo sid b else areturn b) (\<lambda>b.
                  areturn (b_summary b))))) (\<lambda>_.
       i_finalize_staging repo sid (rf_document_type f)))"

definition rejection_exceeded :: "IngestionPolicy \<Rightarrow> StageSummary \<Rightarrow> bool" where
  "rejection_exceeded p s \<longleftrightarrow> rejected_records s \<noteq> 0 \<and>
     (accepted_records s = 0 \<or>
      rat_of_int (rejected_records s) / rat_of_int (accepted_records s + rejected_records s)
        > maximum_record_rejection_fraction p)"

definition transition_if ::
    "bool \<Rightarrow> 's IngestionRepository \<Rightarrow> nat \<Rightarrow> IngestionStatus list \<Rightarrow> IngestionStatus \<Rightarrow> ('s, exn, unit) action" where
  "transition_if transition_states repo sid expected target =
     (if transition_states then i_transition repo sid expected target None else areturn ())"

definition parse_validate_apply ::
    "IngestionPolicy \<Rightarrow> 's IngestionRepository \<Rightarrow> 's IngestionPorts \<Rightarrow> nat \<Rightarrow> RemoteFile \<Rightarrow> ustr \<Rightarrow> bool \<Rightarrow>
     ('s, exn, StageSummary \<times> ApplySummary) action" where
  "parse_validate_apply p repo ports sid f object_key ts =
     abind (transition_if ts repo sid [ARCHIVED, FAILED_RETRYABLE] PARSING) (\<lambda>_.
     abind (parse_and_stage p repo ports sid f object_key) (\<lambda>summary.
     abind (transition_if ts repo sid [PARSING] STAGED) (\<lambda>_.
     abind (transition_if ts repo sid [STAGED] VALIDATING) (\<lambda>_.
     abind (i_has_file_quarantine_issue repo sid) (\<lambda>quarantined.
     if quarantined then araise (exn_of QuarantinedFileError)
     else if rejection_exceeded p summary then araise (exn_of QuarantinedFileError)
     else
       abind (transition_if ts repo sid [VALIDATING] APPLYING) (\<lambda>_.
       abind (i_apply repo sid (rf_document_type f) (minimum_full_records_for p (rf_document_type f))
                (maximum_full_snapshot_drop_fraction p)) (\<lambda>applied.
       abind (transition_if ts repo sid [APPLYING] COMPLETED) (\<lambda>_.
         areturn (summary, applied)))))))))"

section \<open>Failure\<close>

definition failure_target :: "exn \<Rightarrow> IngestionStatus \<Rightarrow> IngestionStatus" where
  "failure_target e current =
     (if exn_class e \<in> {MalformedDocumentError, UnsafeArchiveError, QuarantinedFileError} \<and>
         current \<in> {ARCHIVED, PARSING, STAGED, VALIDATING, APPLYING} then QUARANTINED
      else if retryable e then FAILED_RETRYABLE else FAILED_TERMINAL)"

definition record_failure :: "'s IngestionRepository \<Rightarrow> nat \<Rightarrow> exn \<Rightarrow> ('s, exn, unit) action" where
  "record_failure repo sid e =
     abind (i_get repo sid) (\<lambda>current.
     if rs_status current \<in> {COMPLETED, QUARANTINED, FAILED_TERMINAL} then areturn ()
     else i_transition repo sid [rs_status current] (failure_target e (rs_status current)) (Some (error_code e)))"

text \<open>The \<^verbatim>\<open>except Exception\<close> clause of \<^verbatim>\<open>_ingest\<close> and \<^verbatim>\<open>_archive_only\<close>.\<close>

definition ingest_failed :: "'s IngestionRepository \<Rightarrow> nat \<Rightarrow> int \<Rightarrow> exn \<Rightarrow> ('s, exn, 'a) action" where
  "ingest_failed repo sid transferred e =
     abind (of_result
         (if transferred \<noteq> 0 \<and> is_makolet_class (exn_class e)
          then Inr (e\<lparr>transferred_bytes := max (transferred_bytes e) transferred\<rparr>)
          else if transferred \<noteq> 0 then MakoletError_init RepositoryError transferred
          else Inr e)) (\<lambda>propagated.
     abind (record_failure repo sid propagated) (\<lambda>_. araise propagated))"

section \<open>The service\<close>

definition under_lease ::
    "'s IngestionPorts \<Rightarrow> nat \<Rightarrow> ('s, exn, 'a) action \<Rightarrow> ('s, exn, 'a) action" where
  "under_lease ports sid m =
     abind (l_acquire ports sid) (\<lambda>acquired.
       afinally (if \<not> acquired then araise (exn_of LeaseUnavailableError) else m) (l_release ports sid))"

definition first_text :: "ustr option \<Rightarrow> ustr option \<Rightarrow> ustr option" where
  "first_text a b = (case a of Some x \<Rightarrow> if x \<noteq> [] then a else b | None \<Rightarrow> b)"  \<comment> \<open>\<^verbatim>\<open>a or b\<close>\<close>

definition ingested_result ::
    "nat \<Rightarrow> IngestionStatus \<Rightarrow> ustr \<Rightarrow> StageSummary option \<Rightarrow> ApplySummary option \<Rightarrow> bool \<Rightarrow> bool \<Rightarrow> int \<Rightarrow> exn + IngestionResult" where
  "ingested_result sid status sha stage applied duplicate replayed transferred =
     IngestionResult_post_init \<lparr>ir_source_file_id = sid, ir_status = status, ir_content_sha256 = Some sha,
       ir_stage = stage, ir_apply = applied, ir_duplicate = duplicate, ir_replayed = replayed,
       ir_transferred_bytes = transferred\<rparr>"

definition ingest_owned ::
    "IngestionPolicy \<Rightarrow> 's IngestionRepository \<Rightarrow> 's IngestionPorts \<Rightarrow> RemoteFile \<Rightarrow> int option \<Rightarrow>
     ('s, exn, IngestionResult) action" where
  "ingest_owned p repo ports f m =
     abind (i_register_discovery repo f True) (\<lambda>current.
     if rs_status current = COMPLETED
     then areturn (duplicate_result (rs_source_file_id current) (rs_content_sha256 current))
     else
       let sid = rs_source_file_id current in
       abind (catch_exception (ensure_archived p repo ports current m) (ingest_failed repo sid 0))
         (\<lambda>(object_key, sha, duplicate, transferred).
           catch_exception
             (abind (parse_validate_apply p repo ports sid (rs_remote_file current) object_key True) (\<lambda>(stage, applied).
                of_result (ingested_result sid COMPLETED sha (Some stage) (Some applied) duplicate False transferred)))
             (ingest_failed repo sid transferred)))"

definition ingest ::
    "IngestionPolicy \<Rightarrow> 's IngestionRepository \<Rightarrow> 's IngestionPorts \<Rightarrow> RemoteFile \<Rightarrow> int option \<Rightarrow>
     ('s, exn, IngestionResult) action" where
  "ingest p repo ports f m =
     abind (of_result (validate_archive_byte_limit m)) (\<lambda>_.
     abind (i_assert_allowed repo None) (\<lambda>_.
     abind (i_register_discovery repo f False) (\<lambda>registered.
     if rs_status registered = COMPLETED
     then areturn (duplicate_result (rs_source_file_id registered)
            (first_text (rs_content_sha256 registered) (rs_completed_content_sha256 registered)))
     else under_lease ports (rs_source_file_id registered) (ingest_owned p repo ports f m))))"

definition archive_owned ::
    "IngestionPolicy \<Rightarrow> 's IngestionRepository \<Rightarrow> 's IngestionPorts \<Rightarrow> RemoteFile \<Rightarrow> int option \<Rightarrow>
     ('s, exn, IngestionResult) action" where
  "archive_owned p repo ports f m =
     abind (i_register_discovery repo f True) (\<lambda>current.
       let sid = rs_source_file_id current in
       abind (catch_exception (ensure_archived p repo ports current m) (ingest_failed repo sid 0))
         (\<lambda>(object_key, sha, duplicate, transferred).
           catch_exception
             (abind (transition_if (rs_archive_object_key current \<noteq> None \<and> rs_status current \<noteq> ARCHIVED)
                       repo sid [FAILED_RETRYABLE] ARCHIVED) (\<lambda>_.
                of_result (ingested_result sid ARCHIVED sha None None duplicate False transferred)))
             (ingest_failed repo sid transferred)))"

definition archive_only ::
    "IngestionPolicy \<Rightarrow> 's IngestionRepository \<Rightarrow> 's IngestionPorts \<Rightarrow> RemoteFile \<Rightarrow> int option \<Rightarrow>
     ('s, exn, IngestionResult) action" where
  "archive_only p repo ports f m =
     abind (of_result (validate_archive_byte_limit m)) (\<lambda>_.
     abind (i_assert_allowed repo None) (\<lambda>_.
     abind (i_register_discovery repo f False) (\<lambda>registered.
     if rs_status registered = COMPLETED
     then areturn (duplicate_result (rs_source_file_id registered)
            (first_text (rs_content_sha256 registered) (rs_completed_content_sha256 registered)))
     else under_lease ports (rs_source_file_id registered) (archive_owned p repo ports f m))))"

definition replay_owned ::
    "IngestionPolicy \<Rightarrow> 's IngestionRepository \<Rightarrow> 's IngestionPorts \<Rightarrow> nat \<Rightarrow> nat option \<Rightarrow>
     ('s, exn, IngestionResult) action" where
  "replay_owned p repo ports sid rebuild_run_id =
     abind (i_get repo sid) (\<lambda>current.
     case (rs_archive_object_key current, rs_content_sha256 current) of
       (Some object_key, Some sha) \<Rightarrow>
         abind (a_verify ports object_key sha) (\<lambda>verified_length.
         abind (of_result (ensure_archive_length current verified_length)) (\<lambda>_.
         abind (i_begin_replay repo sid (parser_version ports) rebuild_run_id) (\<lambda>replay_id.
         abind (catch_exception
                  (parse_validate_apply p repo ports sid (rs_remote_file current) object_key False)
                  (\<lambda>e. abind (i_finish_replay repo replay_id False (Some (error_code e))) (\<lambda>_. araise e)))
           (\<lambda>(stage, applied).
         abind (i_finish_replay repo replay_id True None) (\<lambda>_.
           of_result (ingested_result sid COMPLETED sha (Some stage) (Some applied) False True 0))))))
     | _ \<Rightarrow> araise (exn_of MalformedDocumentError))"

definition replay ::
    "IngestionPolicy \<Rightarrow> 's IngestionRepository \<Rightarrow> 's IngestionPorts \<Rightarrow> nat \<Rightarrow> nat option \<Rightarrow>
     ('s, exn, IngestionResult) action" where
  "replay p repo ports sid rebuild_run_id =
     abind (i_assert_allowed repo rebuild_run_id) (\<lambda>_.
     abind (i_get repo sid) (\<lambda>registered.
       under_lease ports (rs_source_file_id registered)
         (replay_owned p repo ports (rs_source_file_id registered) rebuild_run_id)))"

end
