(* ===== verification/Tables.thy ===== *)
theory Tables
  imports Lifecycle
begin

text \<open>
  Database tables as lists of rows in the order of their insertion, and the statements the SQL of
  \<^verbatim>\<open>adapters/persistence\<close> is made of: updates under a condition, \<^verbatim>\<open>DISTINCT ON\<close>, inserts with a
  conflict clause, generated keys. A violated constraint of \<^verbatim>\<open>schema.py\<close> is an \<open>OtherError\<close>
  (SQLAlchemy's \<^verbatim>\<open>IntegrityError\<close>).
\<close>

section \<open>Statements\<close>

text \<open>\<^verbatim>\<open>UPDATE ... SET f WHERE p\<close>.\<close>

definition update_where :: "('r \<Rightarrow> bool) \<Rightarrow> ('r \<Rightarrow> 'r) \<Rightarrow> 'r list \<Rightarrow> 'r list" where
  "update_where p f rows = map (\<lambda>r. if p r then f r else r) rows"

definition constraint :: "bool \<Rightarrow> 's \<Rightarrow> (exn + unit) \<times> 's" where
  "constraint b = (if b then areturn () else araise (exn_of OtherError))"

text \<open>\<^verbatim>\<open>SELECT DISTINCT ON (k)\<close> of sorted rows: the first row of every key.\<close>

fun distinct_on :: "('r \<Rightarrow> 'k) \<Rightarrow> 'r list \<Rightarrow> 'r list" where
  "distinct_on k [] = []"
| "distinct_on k (r # rs) = r # distinct_on k (filter (\<lambda>x. k x \<noteq> k r) rs)"

text \<open>
  \<^verbatim>\<open>INSERT ... ON CONFLICT (k) DO UPDATE\<close> of rows with different keys: \<open>merge old new\<close> replaces a row
  whose key is there already. With \<^verbatim>\<open>DO NOTHING\<close> the row that is there stays.
\<close>

definition upsert :: "('r \<Rightarrow> 'k) \<Rightarrow> ('r \<Rightarrow> 'r \<Rightarrow> 'r) \<Rightarrow> 'r list \<Rightarrow> 'r list \<Rightarrow> 'r list" where
  "upsert k merge news rows =
     map (\<lambda>r. case find (\<lambda>n. k n = k r) news of None \<Rightarrow> r | Some n \<Rightarrow> merge r n) rows @
     filter (\<lambda>n. k n \<notin> set (map k rows)) news"

definition insert_missing :: "('r \<Rightarrow> 'k) \<Rightarrow> 'r list \<Rightarrow> 'r list \<Rightarrow> 'r list" where
  "insert_missing k news rows = rows @ distinct_on k (filter (\<lambda>n. k n \<notin> set (map k rows)) news)"

text \<open>Every row of an insert gets the next unused key.\<close>

fun numbered :: "nat \<Rightarrow> (nat \<Rightarrow> 'a \<Rightarrow> 'b) \<Rightarrow> 'a list \<Rightarrow> 'b list" where
  "numbered n f [] = []"
| "numbered n f (x # xs) = f n x # numbered (Suc n) f xs"

text \<open>Evaluation of a sequence of statements from the left, without looking at the rest.\<close>

lemma abind_eval: "m s = (Inr x, t) \<Longrightarrow> abind m k s = k x t"
  by (simp add: abind_def)

lemma abind_weak_cong: "m = m' \<Longrightarrow> s = s' \<Longrightarrow> abind m k s = abind m' k s'"
  by simp

section \<open>Lookups\<close>

lemma wp_constraint [action_simps]: "wp (constraint b) Q E s \<longleftrightarrow> (if b then Q () s else E (exn_of OtherError) s)"
  by (simp add: constraint_def action_simps)

lemma find_in: "find p xs = Some x \<Longrightarrow> x \<in> set xs \<and> p x"
  by (auto simp: find_Some_iff)

lemma map_update_where: "(\<And>x. g (f x) = g x) \<Longrightarrow> map g (update_where p f xs) = map g xs"
  by (simp add: update_where_def)

lemma set_update_where: "set (update_where p f xs) = (\<lambda>x. if p x then f x else x) ` set xs"
  by (simp add: update_where_def)

lemma ids_update_where: "(\<And>x. k (f x) = k x) \<Longrightarrow> k ` set (update_where p f xs) = k ` set xs"
  by (metis list.set_map map_update_where)

lemma filter_update_where:
  "(\<And>x. q (f x) = q x) \<Longrightarrow> filter q (update_where p f xs) = update_where p f (filter q xs)"
  by (induction xs) (simp_all add: update_where_def)

lemma update_where_none: "(\<And>x. x \<in> set xs \<Longrightarrow> \<not> p x) \<Longrightarrow> update_where p f xs = xs"
  by (induction xs) (simp_all add: update_where_def)

lemma update_where_last:
  assumes "distinct (map k xs)" "xs \<noteq> []"
  shows "update_where (\<lambda>x. k x = k (last xs)) f xs = butlast xs @ [f (last xs)]"
proof -
  obtain ys y where xs: "xs = ys @ [y]" using assms(2) by (metis append_butlast_last_id)
  with assms(1) have "\<And>x. x \<in> set ys \<Longrightarrow> k x \<noteq> k y" by (force simp: image_iff)
  then have "update_where (\<lambda>x. k x = k y) f ys = ys" by (rule update_where_none)
  then show ?thesis by (simp add: xs update_where_def)
qed

lemma find_update_where:
  assumes "\<And>x. k (f x) = k x"
  shows "find (\<lambda>x. k x = i) (update_where p f xs) =
     map_option (\<lambda>x. if p x then f x else x) (find (\<lambda>x. k x = i) xs)"
  using assms by (induction xs) (auto simp: update_where_def)

lemma find_key:
  "distinct (map k xs) \<Longrightarrow> x \<in> set xs \<Longrightarrow> find (\<lambda>y. k y = k x) xs = Some x"
  by (induction xs) auto

lemma find_append: "find p (xs @ ys) = (case find p xs of None \<Rightarrow> find p ys | Some x \<Rightarrow> Some x)"
  by (induction xs) auto

section \<open>Generated keys\<close>

lemma map_numbered: "(\<And>i x. g (f i x) = h x) \<Longrightarrow> map g (numbered n f xs) = map h xs"
  by (induction xs arbitrary: n) simp_all

lemma length_numbered [simp]: "length (numbered n f xs) = length xs"
  by (induction xs arbitrary: n) simp_all

lemma set_numbered: "r \<in> set (numbered n f xs) \<Longrightarrow> \<exists>i x. n \<le> i \<and> i < n + length xs \<and> x \<in> set xs \<and> r = f i x"
proof (induction xs arbitrary: n)
  case (Cons y ys)
  show ?case
  proof (cases "r = f n y")
    case False
    then have "r \<in> set (numbered (Suc n) f ys)" using Cons.prems by simp
    from Cons.IH [OF this] obtain i x where "Suc n \<le> i" "i < Suc n + length ys" "x \<in> set ys" "r = f i x" by blast
    then show ?thesis by (intro exI [of _ i] exI [of _ x]) simp
  qed (intro exI [of _ n] exI [of _ y], simp)
qed simp

lemma in_numbered: "x \<in> set xs \<Longrightarrow> \<exists>i. f i x \<in> set (numbered n f xs)"
  by (induction xs arbitrary: n) auto

lemma filter_numbered:
  "(\<And>i x. q (f i x) = p x) \<Longrightarrow> (\<And>i x. g (f i x) = h x) \<Longrightarrow> map g (filter q (numbered n f xs)) = map h (filter p xs)"
  by (induction xs arbitrary: n) simp_all

lemma ids_numbered: "(\<And>i x. g (f i x) = i) \<Longrightarrow> map g (numbered n f xs) = [n..<n + length xs]"
  by (induction xs arbitrary: n) (simp_all add: upt_conv_Cons del: upt_Suc)

lemma find_numbered:
  "(\<And>i x. k (f i x) = kx x) \<Longrightarrow> (\<And>i x. g (f i x) = gx x) \<Longrightarrow>
     map_option g (find (\<lambda>r. k r = y) (numbered n f xs)) = map_of (map (\<lambda>x. (kx x, gx x)) xs) y"
  by (induction xs arbitrary: n) auto

lemma find_numbered_distinct:
  "(\<And>i x. k (f i x) = kx x) \<Longrightarrow> distinct (map kx xs) \<Longrightarrow> x \<in> set xs \<Longrightarrow>
     \<exists>i. find (\<lambda>r. k r = kx x) (numbered n f xs) = Some (f i x)"
  by (induction xs arbitrary: n) auto

lemma find_numbered_none:
  "(\<And>i x. k (f i x) = kx x) \<Longrightarrow> find (\<lambda>r. k r = y) (numbered n f xs) = None \<longleftrightarrow> y \<notin> kx ` set xs"
  by (induction xs arbitrary: n) auto

section \<open>Distinct rows\<close>

lemma set_distinct_on: "set (distinct_on k rs) \<subseteq> set rs"
  by (induction k rs rule: distinct_on.induct) auto

lemma keys_distinct_on: "k ` set (distinct_on k rs) = k ` set rs"
proof (induction k rs rule: distinct_on.induct)
  case (2 k r rs)
  have "insert (k r) (k ` set (filter (\<lambda>x. k x \<noteq> k r) rs)) = insert (k r) (k ` set rs)" by auto
  with 2 show ?case by simp
qed simp

lemma distinct_distinct_on: "distinct (map k (distinct_on k rs))"
proof (induction k rs rule: distinct_on.induct)
  case (2 k r rs)
  have "k r \<notin> k ` set (distinct_on k (filter (\<lambda>x. k x \<noteq> k r) rs))" by (auto simp: keys_distinct_on)
  with 2 show ?case by simp
qed simp

lemma distinct_on_id: "distinct (map k rs) \<Longrightarrow> distinct_on k rs = rs"
proof (induction rs)
  case (Cons r rs)
  then have "filter (\<lambda>x. k x \<noteq> k r) rs = rs" by (metis (mono_tags, lifting) distinct.simps(2) filter_True image_eqI list.set_map list.simps(9))
  with Cons show ?case by simp
qed simp

section \<open>Inserts with a conflict clause\<close>

lemma keys_upsert: "(\<And>r n. k (merge r n) = k r) \<Longrightarrow> map k (upsert k merge news rows) = map k rows @ filter (\<lambda>x. x \<notin> set (map k rows)) (map k news)"
  by (auto simp: upsert_def filter_map comp_def split: option.splits)

lemma distinct_upsert:
  "(\<And>r n. k (merge r n) = k r) \<Longrightarrow> distinct (map k rows) \<Longrightarrow> distinct (map k news) \<Longrightarrow> distinct (map k (upsert k merge news rows))"
  by (auto simp: keys_upsert)

lemma set_upsert:
  assumes "\<And>r n. k (merge r n) = k r" "r \<in> set (upsert k merge news rows)"
  obtains (old) "r \<in> set rows" "find (\<lambda>n. k n = k r) news = None"
    | (merged) r0 n where "r0 \<in> set rows" "r = merge r0 n" "find (\<lambda>n. k n = k r) news = Some n"
    | (new) "r \<in> set news" "k r \<notin> k ` set rows"
proof -
  from assms(2) consider r0 where "r0 \<in> set rows" "r = (case find (\<lambda>n. k n = k r0) news of None \<Rightarrow> r0 | Some n \<Rightarrow> merge r0 n)"
    | "r \<in> set news" "k r \<notin> k ` set rows" by (auto simp: upsert_def)
  then show thesis
  proof cases
    case (1 r0)
    then have "k r = k r0" using assms(1) by (simp split: option.splits)
    with 1 show ?thesis using old merged by (auto split: option.splits)
  qed (rule new)
qed

lemma find_upsert:
  assumes "\<And>r n. k (merge r n) = k r"
  shows "find (\<lambda>r. k r = x) (upsert k merge news rows) =
     (case find (\<lambda>r. k r = x) rows of
        None \<Rightarrow> find (\<lambda>n. k n = x) news
      | Some r \<Rightarrow> Some (case find (\<lambda>n. k n = x) news of None \<Rightarrow> r | Some n \<Rightarrow> merge r n))"
proof -
  have "find (\<lambda>r. k r = x) (map (\<lambda>r. case find (\<lambda>n. k n = k r) news of None \<Rightarrow> r | Some n \<Rightarrow> merge r n) rows) =
      map_option (\<lambda>r. case find (\<lambda>n. k n = x) news of None \<Rightarrow> r | Some n \<Rightarrow> merge r n) (find (\<lambda>r. k r = x) rows)" for rows
    by (induction rows) (auto simp: assms split: option.splits)
  moreover have "find (\<lambda>n. k n = x) (filter (\<lambda>n. k n \<notin> set (map k rows)) news) = find (\<lambda>n. k n = x) news"
    if "x \<notin> set (map k rows)" using that by (induction news) auto
  moreover have "x \<notin> set (map k rows) \<longleftrightarrow> find (\<lambda>r. k r = x) rows = None" by (auto simp: find_None_iff)
  ultimately show ?thesis by (cases "find (\<lambda>r. k r = x) rows") (simp_all add: upsert_def find_append)
qed

text \<open>A condition that no inserted key satisfies selects the same rows before and after.\<close>

lemma filter_upsert:
  assumes "\<And>r n. k (merge r n) = k r" "\<And>r n. n \<in> set news \<Longrightarrow> k n = k r \<Longrightarrow> \<not> p r"
  shows "filter p (upsert k merge news rows) = filter p rows"
proof -
  have "p r \<Longrightarrow> find (\<lambda>n. k n = k r) news = None" for r using assms(2) by (auto simp: find_None_iff)
  moreover have "find (\<lambda>n. k n = k r) news = Some n \<Longrightarrow> \<not> p (merge r n)" for r n
    using assms(2) [of n "merge r n"] find_in [of "\<lambda>n. k n = k r" news n] by (simp add: assms(1))
  ultimately have "filter p (map (\<lambda>r. case find (\<lambda>n. k n = k r) news of None \<Rightarrow> r | Some n \<Rightarrow> merge r n) rows) = filter p rows"
    by (induction rows) (auto split: option.splits)
  moreover have "filter p (filter (\<lambda>n. k n \<notin> set (map k rows)) news) = []" using assms(2) by (auto simp: filter_empty_conv)
  ultimately show ?thesis by (simp add: upsert_def)
qed

end
