(* ===== verification/Source_Store.thy ===== *)
theory Source_Store
  imports Ingestion Tables "HOL-Library.Multiset"
begin

text \<open>
  The durable lifecycle of source files: the part of \<^verbatim>\<open>adapters/persistence/ingestion.py\<close> that
  keeps the tables \<^verbatim>\<open>source_files\<close>, \<^verbatim>\<open>ingestion_runs\<close>, \<^verbatim>\<open>source_file_events\<close>,
  \<^verbatim>\<open>raw_archive_objects\<close> and \<^verbatim>\<open>replay_runs\<close>, with the guard of a normalized rebuild
  (\<^verbatim>\<open>maintenance.py\<close>), the per-file lock of the calling task (\<^verbatim>\<open>leases.py\<close>) and the recovery of
  abandoned files (\<^verbatim>\<open>operations.py\<close>).

  A table is the list of its rows in the order of their insertion; a generated key is the next
  unused number. A transaction either commits or leaves the database as it was; a violated
  constraint of \<^verbatim>\<open>schema.py\<close> is an \<open>OtherError\<close> (SQLAlchemy's \<^verbatim>\<open>IntegrityError\<close>). Statements of
  one transaction see no other transaction, which the row locks of the source ensure for the
  rows it writes. Error messages and the record counters of a run are not modelled.
\<close>

section \<open>Tables\<close>

record Retailer =
  re_id :: nat
  re_source_key :: ustr

record Portal =
  po_id :: nat
  po_retailer_id :: nat
  po_source_key :: ustr
  po_protocol :: SourceProtocol

record ArchiveObject =
  ao_id :: nat
  ao_content_sha256 :: ustr
  ao_object_key :: ustr
  ao_content_length :: int
  ao_archived_at :: datetime

record SourceFile =
  f_id :: nat
  f_retailer_id :: nat
  f_portal_id :: nat
  f_remote_id :: ustr
  f_download_url :: ustr
  f_original_filename :: ustr
  f_document_type :: DocumentType
  f_compression :: CompressionFormat
  f_protocol :: SourceProtocol
  f_status :: IngestionStatus
  f_discovered_at :: datetime
  f_source_timestamp :: "datetime option"
  f_declared_content_length :: "int option"
  f_media_type :: "ustr option"
  f_etag :: "ustr option"
  f_last_modified :: "datetime option"
  f_response_metadata :: "(ustr \<times> ustr) list"
  f_archive_object_id :: "nat option"
  f_parser_version :: "ustr option"
  f_download_started_at :: "datetime option"
  f_download_finished_at :: "datetime option"
  f_download_status_code :: "int option"
  f_download_content_length :: "int option"
  f_download_response_metadata :: "(ustr \<times> ustr) list option"
  f_error_code :: "string option"
  f_updated_at :: int

record IngestionRun =
  run_id :: nat
  run_source_file_id :: nat
  run_attempt :: int
  run_status :: IngestionStatus
  run_error_code :: "string option"
  run_finished_at :: "int option"

record SourceFileEvent =
  ev_source_file_id :: nat
  ev_run_id :: nat
  ev_from :: "IngestionStatus option"
  ev_to :: IngestionStatus
  ev_error_code :: "string option"

record ReplayRun =
  rp_id :: nat
  rp_source_file_id :: nat
  rp_rebuild_run_id :: "nat option"
  rp_requested_parser_version :: ustr
  rp_previous_parser_version :: "ustr option"
  rp_status :: IngestionStatus
  rp_finished_at :: "int option"
  rp_succeeded :: "bool option"
  rp_error_code :: "string option"

text \<open>
  \<open>db_lock\<close> is the source file whose ingestion lock the calling task holds
  (\<^verbatim>\<open>current_ingestion_lock\<close>), \<open>db_now\<close> what \<^verbatim>\<open>clock_timestamp()\<close> returns.
\<close>

record database =
  db_next_id :: nat
  db_now :: int
  db_lock :: "nat option"
  db_retailers :: "Retailer list"
  db_portals :: "Portal list"
  db_archive_objects :: "ArchiveObject list"
  db_source_files :: "SourceFile list"
  db_runs :: "IngestionRun list"
  db_events :: "SourceFileEvent list"
  db_replays :: "ReplayRun list"
  db_active_rebuild :: "nat option"
  db_rebuild_runs :: "(nat \<times> string) list"

type_synonym 'a statement = "(database, exn, 'a) action"

definition fresh_id :: "nat statement" where
  "fresh_id d = (Inr (db_next_id d), d\<lparr>db_next_id := db_next_id d + 1\<rparr>)"

definition source_file :: "database \<Rightarrow> nat \<Rightarrow> SourceFile option" where
  "source_file d sid = find (\<lambda>f. f_id f = sid) (db_source_files d)"

definition runs_of :: "database \<Rightarrow> nat \<Rightarrow> IngestionRun list" where
  "runs_of d sid = filter (\<lambda>r. run_source_file_id r = sid) (db_runs d)"

section \<open>Transactions\<close>

definition transaction :: "nat option \<Rightarrow> bool \<Rightarrow> 'a statement \<Rightarrow> 'a statement" where
  "transaction sid require_owned m d =
     (if require_owned \<and> db_lock d = None then (Inl (exn_of PersistenceConflictError), d)
      else if db_lock d \<noteq> None \<and> sid \<noteq> None \<and> db_lock d \<noteq> sid
      then (Inl (exn_of PersistenceConflictError), d)
      else case m d of (Inl e, _) \<Rightarrow> (Inl e, d) | (Inr x, t) \<Rightarrow> (Inr x, t))"

definition maintenance_allows :: "nat option \<Rightarrow> unit statement" where
  "maintenance_allows rebuild_run_id =
     abind (aget db_active_rebuild) (\<lambda>active.
     case active of
       None \<Rightarrow> if rebuild_run_id \<noteq> None then araise (exn_of MaintenanceModeError) else areturn ()
     | Some a \<Rightarrow>
         if rebuild_run_id \<noteq> Some a then araise (exn_of MaintenanceModeError)
         else abind (aget (\<lambda>d. map_of (db_rebuild_runs d) a)) (\<lambda>status.
           if status \<noteq> Some ''running'' then araise (exn_of MaintenanceModeError) else areturn ()))"

definition assert_ingestion_allowed :: "nat option \<Rightarrow> unit statement" where
  "assert_ingestion_allowed rebuild_run_id = transaction None False (maintenance_allows rebuild_run_id)"

section \<open>Signed URLs\<close>

text \<open>
  \<^verbatim>\<open>urlsplit\<close>, \<^verbatim>\<open>parse_qsl\<close> and \<^verbatim>\<open>str.casefold\<close> are parameters: the split of a URL, the decoded
  pairs of a query.
\<close>

record split_url =
  u_scheme :: ustr
  u_hostname :: "ustr option"
  u_port :: "int option"
  u_path :: ustr
  u_query :: ustr
  u_fragment :: ustr

record url_library =
  urlsplit :: "ustr \<Rightarrow> split_url"
  parse_qsl :: "ustr \<Rightarrow> (ustr \<times> ustr) list"
  casefold :: "ustr \<Rightarrow> ustr"

definition SIGNED_QUERY_KEYS :: "string list" where
  "SIGNED_QUERY_KEYS = [''access_token'', ''expires'', ''expiry'', ''se'', ''sig'', ''signature'', ''ske'',
     ''skoid'', ''sks'', ''skt'', ''sktid'', ''skv'', ''sp'', ''sr'', ''st'', ''sv'', ''token'']"

definition is_signed_query_key :: "ustr \<Rightarrow> bool" where
  "is_signed_query_key key \<longleftrightarrow> key \<in> set (map lit SIGNED_QUERY_KEYS) \<or>
     take 6 key = lit ''x-amz-'' \<or> take 7 key = lit ''x-goog-''"

definition url_identity :: "url_library \<Rightarrow> split_url \<Rightarrow> ustr option \<times> int option \<times> ustr \<times> ustr" where
  "url_identity L u = (map_option (casefold L) (u_hostname u), u_port u, u_path u, u_fragment u)"

definition query_pairs :: "url_library \<Rightarrow> split_url \<Rightarrow> (ustr \<times> ustr) list" where
  "query_pairs L u = map (\<lambda>(key, v). (casefold L key, v)) (parse_qsl L (u_query u))"

text \<open>\<^verbatim>\<open>sorted(a) == sorted(b)\<close> on tuples of strings is equality as multisets.\<close>

definition is_signed_url_rotation :: "url_library \<Rightarrow> ustr \<Rightarrow> ustr \<Rightarrow> bool" where
  "is_signed_url_rotation L existing candidate =
     (let e = urlsplit L existing; c = urlsplit L candidate;
          stable = (\<lambda>u. filter (\<lambda>p. \<not> is_signed_query_key (fst p)) (query_pairs L u));
          signed = (\<lambda>u. filter (\<lambda>p. is_signed_query_key (fst p)) (query_pairs L u)) in
      if casefold L (u_scheme e) \<noteq> lit ''https'' \<or> casefold L (u_scheme c) \<noteq> lit ''https'' then False
      else if url_identity L e \<noteq> url_identity L c then False
      else mset (stable e) = mset (stable c) \<and> signed e \<noteq> [] \<and> signed c \<noteq> [] \<and>
        mset (signed e) \<noteq> mset (signed c))"

section \<open>Registration\<close>

definition ensure_retailer :: "ustr \<Rightarrow> nat statement" where
  "ensure_retailer key =
     abind (constraint (key \<noteq> [] \<and> length key \<le> 128)) (\<lambda>_.
     abind (aget (\<lambda>d. find (\<lambda>r. re_source_key r = key) (db_retailers d))) (\<lambda>found.
     case found of
       Some r \<Rightarrow> areturn (re_id r)
     | None \<Rightarrow>
         abind fresh_id (\<lambda>i.
         abind (amodify (\<lambda>d. d\<lparr>db_retailers := db_retailers d @ [\<lparr>re_id = i, re_source_key = key\<rparr>]\<rparr>)) (\<lambda>_.
           areturn i))))"

definition ensure_portal :: "nat \<Rightarrow> RemoteFile \<Rightarrow> nat statement" where
  "ensure_portal retailer_id rf =
     abind (constraint (rf_portal_id rf \<noteq> [] \<and> length (rf_portal_id rf) \<le> 128)) (\<lambda>_.
     abind (aget (\<lambda>d. find (\<lambda>p. po_retailer_id p = retailer_id \<and> po_source_key p = rf_portal_id rf) (db_portals d))) (\<lambda>found.
     case found of
       Some p \<Rightarrow>
         abind (amodify (\<lambda>d. d\<lparr>db_portals :=
             update_where (\<lambda>q. po_id q = po_id p) (\<lambda>q. q\<lparr>po_protocol := rf_protocol rf\<rparr>) (db_portals d)\<rparr>)) (\<lambda>_.
           areturn (po_id p))
     | None \<Rightarrow>
         abind fresh_id (\<lambda>i.
         abind (amodify (\<lambda>d. d\<lparr>db_portals := db_portals d @ [\<lparr>po_id = i, po_retailer_id = retailer_id,
             po_source_key = rf_portal_id rf, po_protocol = rf_protocol rf\<rparr>]\<rparr>)) (\<lambda>_.
           areturn i))))"

definition new_source_file :: "database \<Rightarrow> nat \<Rightarrow> nat \<Rightarrow> nat \<Rightarrow> RemoteFile \<Rightarrow> SourceFile" where
  "new_source_file d i retailer_id portal_id rf =
     \<lparr>f_id = i, f_retailer_id = retailer_id, f_portal_id = portal_id, f_remote_id = rf_remote_id rf,
      f_download_url = rf_download_url rf, f_original_filename = rf_original_filename rf,
      f_document_type = rf_document_type rf, f_compression = rf_compression rf, f_protocol = rf_protocol rf,
      f_status = DISCOVERED, f_discovered_at = rf_discovered_at rf, f_source_timestamp = rf_source_timestamp rf,
      f_declared_content_length = rf_content_length rf, f_media_type = rf_media_type rf, f_etag = rf_etag rf,
      f_last_modified = rf_last_modified rf, f_response_metadata = rf_response_metadata rf,
      f_archive_object_id = None, f_parser_version = None, f_download_started_at = None,
      f_download_finished_at = None, f_download_status_code = None, f_download_content_length = None,
      f_download_response_metadata = None, f_error_code = None, f_updated_at = db_now d\<rparr>"

text \<open>
  \<^verbatim>\<open>_rediscovery_updates\<close>: a value that is already known must not change; an unknown one is filled in
  by the owner of the file before the archive is attached. The updates are applied to the row.
\<close>

definition fill_in :: "bool \<Rightarrow> 'a option \<Rightarrow> 'a option \<Rightarrow> exn + 'a option" where
  "fill_in may_update existing candidate =
     (if existing \<noteq> None \<and> candidate \<noteq> None \<and> existing \<noteq> candidate then err PersistenceConflictError
      else Inr (if may_update \<and> existing = None then candidate else existing))"

definition identity_conflict :: "SourceFile \<Rightarrow> RemoteFile \<Rightarrow> bool" where
  "identity_conflict row rf \<longleftrightarrow>
     f_original_filename row \<noteq> rf_original_filename rf \<or> f_document_type row \<noteq> rf_document_type rf \<or>
     f_compression row \<noteq> rf_compression rf \<or> f_protocol row \<noteq> rf_protocol rf"

definition url_conflict :: "url_library \<Rightarrow> SourceFile \<Rightarrow> RemoteFile \<Rightarrow> bool" where
  "url_conflict L row rf \<longleftrightarrow> f_download_url row \<noteq> rf_download_url rf \<and>
     (rf_protocol rf \<noteq> HTTPS \<or> \<not> is_signed_url_rotation L (f_download_url row) (rf_download_url rf))"

definition metadata_conflict :: "SourceFile \<Rightarrow> RemoteFile \<Rightarrow> bool" where
  "metadata_conflict row rf \<longleftrightarrow> f_response_metadata row \<noteq> [] \<and> rf_response_metadata rf \<noteq> [] \<and>
     f_response_metadata row \<noteq> rf_response_metadata rf"

definition update_url_and_metadata :: "bool \<Rightarrow> RemoteFile \<Rightarrow> SourceFile \<Rightarrow> SourceFile" where
  "update_url_and_metadata may_update rf row =
     (if may_update
      then row\<lparr>f_download_url := rf_download_url rf, f_response_metadata :=
             (if f_response_metadata row = [] then rf_response_metadata rf else f_response_metadata row)\<rparr>
      else row)"

definition rediscovery_updates :: "url_library \<Rightarrow> SourceFile \<Rightarrow> RemoteFile \<Rightarrow> bool \<Rightarrow> exn + SourceFile" where
  "rediscovery_updates L row rf owned_refresh =
     (let may_update = owned_refresh \<and> f_archive_object_id row = None in
      if identity_conflict row rf then err PersistenceConflictError
      else if url_conflict L row rf then err PersistenceConflictError
      else
        rbind (fill_in may_update (f_source_timestamp row) (rf_source_timestamp rf)) (\<lambda>timestamp.
        rbind (fill_in may_update (f_declared_content_length row) (rf_content_length rf)) (\<lambda>content_length.
        rbind (fill_in may_update (f_media_type row) (rf_media_type rf)) (\<lambda>media_type.
        rbind (fill_in may_update (f_etag row) (rf_etag rf)) (\<lambda>etag.
        rbind (fill_in may_update (f_last_modified row) (rf_last_modified rf)) (\<lambda>last_modified.
          if metadata_conflict row rf then err PersistenceConflictError
          else Inr (update_url_and_metadata may_update rf
            (row\<lparr>f_source_timestamp := timestamp, f_declared_content_length := content_length,
               f_media_type := media_type, f_etag := etag, f_last_modified := last_modified\<rparr>))))))))"

text \<open>\<^verbatim>\<open>updated_at\<close> changes only when there is something to update.\<close>

definition apply_rediscovery :: "database \<Rightarrow> SourceFile \<Rightarrow> SourceFile \<Rightarrow> SourceFile" where
  "apply_rediscovery d row row' = (if row' = row then row else row'\<lparr>f_updated_at := db_now d\<rparr>)"

definition source_row :: "nat \<Rightarrow> (SourceFile \<times> ustr \<times> ustr \<times> ArchiveObject option) statement" where
  "source_row sid =
     abind (aget (\<lambda>d. source_file d sid)) (\<lambda>found.
     case found of
       None \<Rightarrow> araise (exn_of PersistenceNotFoundError)
     | Some f \<Rightarrow>
         abind (aget (\<lambda>d. (find (\<lambda>r. re_id r = f_retailer_id f) (db_retailers d),
                          find (\<lambda>p. po_id p = f_portal_id f) (db_portals d),
                          Option.bind (f_archive_object_id f) (\<lambda>a. find (\<lambda>x. ao_id x = a) (db_archive_objects d)))))
           (\<lambda>joined. case joined of
              (Some r, Some p, a) \<Rightarrow> areturn (f, re_source_key r, po_source_key p, a)
            | _ \<Rightarrow> araise (exn_of PersistenceNotFoundError)))"

definition registered_source_file ::
    "bool \<Rightarrow> SourceFile \<times> ustr \<times> ustr \<times> ArchiveObject option \<Rightarrow> RegisteredSourceFile" where
  "registered_source_file already_registered = (\<lambda>(f, retailer_key, portal_key, a).
     \<lparr>rs_source_file_id = f_id f,
      rs_remote_file = \<lparr>rf_retailer_id = retailer_key, rf_portal_id = portal_key, rf_protocol = f_protocol f,
        rf_remote_id = f_remote_id f, rf_download_url = f_download_url f, rf_original_filename = f_original_filename f,
        rf_document_type = f_document_type f, rf_compression = f_compression f, rf_discovered_at = f_discovered_at f,
        rf_source_timestamp = f_source_timestamp f, rf_content_length = f_declared_content_length f,
        rf_media_type = f_media_type f, rf_etag = f_etag f, rf_last_modified = f_last_modified f,
        rf_response_metadata = f_response_metadata f\<rparr>,
      rs_status = f_status f, rs_already_registered = already_registered,
      rs_completed_content_sha256 =
        (if f_status f = COMPLETED then Option.bind a (\<lambda>x. if ao_content_sha256 x \<noteq> [] then Some (ao_content_sha256 x) else None)
         else None),
      rs_archive_object_key = map_option ao_object_key a,
      rs_content_sha256 = map_option ao_content_sha256 a,
      rs_archive_content_length = map_option ao_content_length a\<rparr>)"

definition insert_run :: "nat \<Rightarrow> int \<Rightarrow> IngestionStatus \<Rightarrow> nat statement" where
  "insert_run sid attempt status =
     abind fresh_id (\<lambda>i.
     abind (amodify (\<lambda>d. d\<lparr>db_runs := db_runs d @ [\<lparr>run_id = i, run_source_file_id = sid, run_attempt = attempt,
         run_status = status, run_error_code = None, run_finished_at = None\<rparr>]\<rparr>)) (\<lambda>_.
       areturn i))"

definition insert_event ::
    "nat \<Rightarrow> nat \<Rightarrow> IngestionStatus option \<Rightarrow> IngestionStatus \<Rightarrow> string option \<Rightarrow> unit statement" where
  "insert_event sid run from target ecode =
     amodify (\<lambda>d. d\<lparr>db_events := db_events d @ [\<lparr>ev_source_file_id = sid, ev_run_id = run, ev_from = from,
       ev_to = target, ev_error_code = ecode\<rparr>]\<rparr>)"

definition insert_source_file :: "nat \<Rightarrow> nat \<Rightarrow> RemoteFile \<Rightarrow> nat statement" where
  "insert_source_file retailer_id portal_id rf =
     abind (constraint (rf_remote_id rf \<noteq> [] \<and> length (rf_remote_id rf) \<le> 4096 \<and>
         rf_original_filename rf \<noteq> [] \<and> length (rf_original_filename rf) \<le> 2048 \<and>
         opt_all (\<lambda>n. 0 \<le> n) (rf_content_length rf))) (\<lambda>_.
     abind fresh_id (\<lambda>i.
     abind (amodify (\<lambda>d. d\<lparr>db_source_files := db_source_files d @ [new_source_file d i retailer_id portal_id rf]\<rparr>)) (\<lambda>_.
     abind (insert_run i 1 DISCOVERED) (\<lambda>run.
     abind (insert_event i run None DISCOVERED None) (\<lambda>_.
       areturn i)))))"

definition rediscover :: "url_library \<Rightarrow> SourceFile \<Rightarrow> RemoteFile \<Rightarrow> bool \<Rightarrow> nat statement" where
  "rediscover L existing rf owned_refresh =
     abind (if f_status existing \<noteq> COMPLETED
            then abind (of_result (rediscovery_updates L existing rf owned_refresh)) (\<lambda>row.
              amodify (\<lambda>d. d\<lparr>db_source_files := update_where (\<lambda>f. f_id f = f_id existing)
                (\<lambda>_. apply_rediscovery d existing row) (db_source_files d)\<rparr>))
            else areturn ()) (\<lambda>_.
       areturn (f_id existing))"

definition registration :: "bool \<Rightarrow> bool \<Rightarrow> nat \<Rightarrow> RegisteredSourceFile statement" where
  "registration owned_refresh already_registered sid =
     abind (aget db_lock) (\<lambda>owned.
     if owned_refresh \<and> owned \<noteq> Some sid then araise (exn_of PersistenceConflictError)
     else abind (source_row sid) (\<lambda>row. areturn (registered_source_file already_registered row)))"

definition register_in_portal ::
    "url_library \<Rightarrow> RemoteFile \<Rightarrow> bool \<Rightarrow> nat \<Rightarrow> nat \<Rightarrow> RegisteredSourceFile statement" where
  "register_in_portal L rf owned_refresh retailer_id portal_id =
     abind (aget (\<lambda>d. find (\<lambda>f. f_portal_id f = portal_id \<and> f_remote_id f = rf_remote_id rf) (db_source_files d))) (\<lambda>found.
     abind (case found of
              None \<Rightarrow> insert_source_file retailer_id portal_id rf
            | Some existing \<Rightarrow> rediscover L existing rf owned_refresh)
       (registration owned_refresh (found \<noteq> None)))"

definition register_discovery :: "url_library \<Rightarrow> RemoteFile \<Rightarrow> bool \<Rightarrow> RegisteredSourceFile statement" where
  "register_discovery L rf owned_refresh =
     transaction None owned_refresh
       (abind (ensure_retailer (rf_retailer_id rf)) (\<lambda>retailer_id.
        abind (ensure_portal retailer_id rf) (register_in_portal L rf owned_refresh retailer_id)))"

definition get_file :: "nat \<Rightarrow> RegisteredSourceFile statement" where
  "get_file sid = transaction (Some sid) False (abind (source_row sid) (\<lambda>row. areturn (registered_source_file True row)))"

section \<open>Transitions\<close>

definition code_too_long :: "string option \<Rightarrow> bool" where
  "code_too_long ecode \<longleftrightarrow> \<not> opt_all (\<lambda>c. length c \<le> 128) ecode"

definition current_run :: "database \<Rightarrow> nat \<Rightarrow> IngestionRun option" where
  "current_run d sid = fold (\<lambda>r best. case best of
     None \<Rightarrow> Some r | Some b \<Rightarrow> if run_attempt b < run_attempt r then Some r else best) (runs_of d sid) None"

definition current_run_id :: "nat \<Rightarrow> nat statement" where
  "current_run_id sid =
     abind (aget (\<lambda>d. current_run d sid)) (\<lambda>run.
     case run of None \<Rightarrow> araise (exn_of PersistenceNotFoundError) | Some r \<Rightarrow> areturn (run_id r))"

text \<open>\<^verbatim>\<open>int(max(attempt) or 0)\<close>; attempts are positive.\<close>

definition max_attempt :: "database \<Rightarrow> nat \<Rightarrow> int" where
  "max_attempt d sid = fold (\<lambda>r m. max (run_attempt r) m) (runs_of d sid) 0"

definition ends_run :: "IngestionStatus \<Rightarrow> bool" where
  "ends_run s \<longleftrightarrow> s \<in> {COMPLETED, QUARANTINED, FAILED_RETRYABLE, FAILED_TERMINAL}"

definition move_run :: "nat \<Rightarrow> IngestionStatus \<Rightarrow> IngestionStatus \<Rightarrow> string option \<Rightarrow> nat \<Rightarrow> nat statement" where
  "move_run sid current target ecode run =
     (if current = FAILED_RETRYABLE
      then abind (aget (\<lambda>d. max_attempt d sid)) (\<lambda>attempt. insert_run sid (attempt + 1) target)
      else abind (amodify (\<lambda>d. d\<lparr>db_runs := update_where (\<lambda>r. run_id r = run)
          (\<lambda>r. r\<lparr>run_status := target, run_error_code := ecode,
             run_finished_at := (if ends_run target then Some (db_now d) else None)\<rparr>) (db_runs d)\<rparr>)) (\<lambda>_.
        areturn run))"

definition move_file :: "nat \<Rightarrow> IngestionStatus \<Rightarrow> IngestionStatus \<Rightarrow> string option \<Rightarrow> unit statement" where
  "move_file sid current target ecode =
     abind (of_result (ensure_ingestion_transition current target)) (\<lambda>_.
     abind (current_run_id sid) (\<lambda>run.
     abind (move_run sid current target ecode run) (\<lambda>run.
     abind (amodify (\<lambda>d. d\<lparr>db_source_files := update_where (\<lambda>f. f_id f = sid)
         (\<lambda>f. f\<lparr>f_status := target, f_error_code := ecode, f_updated_at := db_now d\<rparr>) (db_source_files d)\<rparr>)) (\<lambda>_.
       insert_event sid run (Some current) target ecode))))"

definition transition ::
    "nat \<Rightarrow> IngestionStatus list \<Rightarrow> IngestionStatus \<Rightarrow> string option \<Rightarrow> unit statement" where
  "transition sid expected target ecode =
     (if expected = [] then araise (exn_of ValueError)
      else if code_too_long ecode then araise (exn_of ValueError)
      else transaction (Some sid) False
        (abind (aget (\<lambda>d. map_option f_status (source_file d sid))) (\<lambda>found.
         case found of
           None \<Rightarrow> araise (exn_of PersistenceNotFoundError)
         | Some current \<Rightarrow>
             if current \<notin> set expected then araise (exn_of PersistenceConflictError)
             else move_file sid current target ecode)))"

section \<open>Archive evidence\<close>

text \<open>\<^verbatim>\<open>a < b\<close> on datetimes raises \<^verbatim>\<open>TypeError\<close> between a naive and an aware value.\<close>

fun datetime_less :: "datetime \<Rightarrow> datetime \<Rightarrow> exn + bool" where
  "datetime_less (Naive a) (Naive b) = Inr (a < b)"
| "datetime_less (Aware a) (Aware b) = Inr (a < b)"
| "datetime_less _ _ = err OtherError"

definition validate_evidence :: "ArchivedDownload \<Rightarrow> ustr \<Rightarrow> exn + unit" where
  "validate_evidence archived version =
     (let e = ad_evidence archived in
      if version = [] \<or> length version > 128 then err ValueError
      else if de_content_length e \<noteq> ar_content_length (ad_archive archived) then err PersistenceConflictError
      else rbind (datetime_less (de_finished_at e) (de_started_at e)) (\<lambda>backwards.
        if backwards then err ValueError
        else if \<not> is_aware (de_started_at e) \<or> \<not> is_aware (de_finished_at e) then err ValueError
        else Inr ()))"

text \<open>The archived object: the identifier, and whether the object was already there.\<close>

definition archive_object :: "ArchiveReceipt \<Rightarrow> (nat \<times> bool) statement" where
  "archive_object a =
     abind (constraint (length (ar_content_sha256 a) = 64 \<and> list_all lower_hex (ar_content_sha256 a) \<and>
         0 \<le> ar_content_length a)) (\<lambda>_.
     abind (aget (\<lambda>d. find (\<lambda>x. ao_content_sha256 x = ar_content_sha256 a) (db_archive_objects d))) (\<lambda>found.
     case found of
       Some x \<Rightarrow>
         if ao_content_length x \<noteq> ar_content_length a then araise (exn_of PersistenceConflictError)
         else if ao_object_key x \<noteq> ar_object_key a then araise (exn_of PersistenceConflictError)
         else areturn (ao_id x, True)
     | None \<Rightarrow>
         abind (aget db_archive_objects) (\<lambda>objects.
         abind (constraint (ar_object_key a \<notin> ao_object_key ` set objects)) (\<lambda>_.
         abind fresh_id (\<lambda>i.
         abind (amodify (\<lambda>d. d\<lparr>db_archive_objects := db_archive_objects d @ [\<lparr>ao_id = i,
             ao_content_sha256 = ar_content_sha256 a, ao_object_key = ar_object_key a,
             ao_content_length = ar_content_length a, ao_archived_at = ar_archived_at a\<rparr>]\<rparr>)) (\<lambda>_.
           areturn (i, \<not> ar_created a)))))))"

definition attach_archive :: "database \<Rightarrow> nat \<Rightarrow> ArchivedDownload \<Rightarrow> ustr \<Rightarrow> SourceFile \<Rightarrow> SourceFile" where
  "attach_archive d archive_id archived version f =
     (let e = ad_evidence archived in
      f\<lparr>f_archive_object_id := Some archive_id, f_parser_version := Some version,
        f_download_started_at := Some (de_started_at e), f_download_finished_at := Some (de_finished_at e),
        f_download_status_code := de_status_code e, f_download_content_length := Some (de_content_length e),
        f_media_type := (case de_media_type e of None \<Rightarrow> f_media_type f | m \<Rightarrow> m),
        f_etag := (case de_etag e of None \<Rightarrow> f_etag f | m \<Rightarrow> m),
        f_last_modified := (case de_last_modified e of None \<Rightarrow> f_last_modified f | m \<Rightarrow> m),
        f_download_response_metadata := Some (de_response_metadata e),
        f_status := ARCHIVED, f_updated_at := db_now d\<rparr>)"

definition attach_evidence :: "nat \<Rightarrow> ArchivedDownload \<Rightarrow> ustr \<Rightarrow> nat \<Rightarrow> nat \<Rightarrow> unit statement" where
  "attach_evidence sid archived version run archive_id =
     abind (constraint (opt_all (\<lambda>c. 100 \<le> c \<and> c \<le> 599) (de_status_code (ad_evidence archived)))) (\<lambda>_.
     abind (amodify (\<lambda>d. d\<lparr>db_source_files := update_where (\<lambda>f. f_id f = sid)
         (attach_archive d archive_id archived version) (db_source_files d)\<rparr>)) (\<lambda>_.
     abind (amodify (\<lambda>d. d\<lparr>db_runs := update_where (\<lambda>r. run_id r = run)
         (\<lambda>r. r\<lparr>run_status := ARCHIVED\<rparr>) (db_runs d)\<rparr>)) (\<lambda>_.
       insert_event sid run (Some DOWNLOADING) ARCHIVED None)))"

definition record_archive :: "nat \<Rightarrow> ArchivedDownload \<Rightarrow> ustr \<Rightarrow> bool statement" where
  "record_archive sid archived version =
     abind (of_result (validate_evidence archived version)) (\<lambda>_.
     transaction (Some sid) False
       (abind (aget (\<lambda>d. map_option f_status (source_file d sid))) (\<lambda>found.
        case found of
          None \<Rightarrow> araise (exn_of PersistenceNotFoundError)
        | Some current \<Rightarrow>
            if current \<noteq> DOWNLOADING then araise (exn_of PersistenceConflictError)
            else
              abind (of_result (ensure_ingestion_transition current ARCHIVED)) (\<lambda>_.
              abind (current_run_id sid) (\<lambda>run.
              abind (archive_object (ad_archive archived)) (\<lambda>(archive_id, reused).
              abind (attach_evidence sid archived version run archive_id) (\<lambda>_.
                areturn reused)))))))"

definition archive_sha256 :: "nat \<Rightarrow> ustr statement" where
  "archive_sha256 sid =
     abind (transaction (Some sid) False (aget (\<lambda>d.
        Option.bind (Option.bind (source_file d sid) f_archive_object_id)
          (\<lambda>a. find (\<lambda>x. ao_id x = a) (db_archive_objects d))))) (\<lambda>found.
     case found of None \<Rightarrow> araise (exn_of PersistenceNotFoundError) | Some x \<Rightarrow> areturn (ao_content_sha256 x))"

section \<open>Replays\<close>

definition open_replay :: "nat \<Rightarrow> ReplayRun \<Rightarrow> bool" where
  "open_replay sid r \<longleftrightarrow> rp_source_file_id r = sid \<and> rp_finished_at r = None"

definition begin_replay :: "nat \<Rightarrow> ustr \<Rightarrow> nat option \<Rightarrow> nat statement" where
  "begin_replay sid version rebuild_run_id =
     (if version = [] \<or> length version > 128 then araise (exn_of ValueError)
      else transaction (Some sid) False
        (abind (maintenance_allows rebuild_run_id) (\<lambda>_.
         abind (aget (\<lambda>d. source_file d sid)) (\<lambda>found.
         case found of
           None \<Rightarrow> araise (exn_of PersistenceNotFoundError)
         | Some f \<Rightarrow>
             if f_archive_object_id f = None then araise (exn_of PersistenceConflictError)
             else
               abind (amodify (\<lambda>d. d\<lparr>db_replays := update_where (open_replay sid)
                   (\<lambda>r. r\<lparr>rp_status := FAILED_RETRYABLE, rp_finished_at := Some (db_now d), rp_succeeded := Some False,
                      rp_error_code := Some ''interrupted_replay_recovered''\<rparr>) (db_replays d)\<rparr>)) (\<lambda>_.
               abind fresh_id (\<lambda>i.
               abind (amodify (\<lambda>d. d\<lparr>db_replays := db_replays d @ [\<lparr>rp_id = i, rp_source_file_id = sid,
                   rp_rebuild_run_id = rebuild_run_id, rp_requested_parser_version = version,
                   rp_previous_parser_version = f_parser_version f, rp_status = PARSING, rp_finished_at = None,
                   rp_succeeded = None, rp_error_code = None\<rparr>]\<rparr>)) (\<lambda>_.
                 areturn i)))))))"

definition finish_replay :: "nat \<Rightarrow> bool \<Rightarrow> string option \<Rightarrow> unit statement" where
  "finish_replay replay_id succeeded ecode =
     (if code_too_long ecode then araise (exn_of ValueError)
      else if succeeded \<and> ecode \<noteq> None then araise (exn_of ValueError)
      else
        abind (transaction None False
          (abind (aget (\<lambda>d. (db_lock d, find (\<lambda>r. rp_id r = replay_id) (db_replays d)))) (\<lambda>(owned, replay).
           if owned \<noteq> None \<and> owned \<noteq> map_option rp_source_file_id replay
           then araise (exn_of PersistenceConflictError)
           else
             abind (aget (\<lambda>d. find (\<lambda>r. rp_id r = replay_id \<and> rp_finished_at r = None) (db_replays d))) (\<lambda>updated.
             abind (amodify (\<lambda>d. d\<lparr>db_replays := update_where (\<lambda>r. rp_id r = replay_id \<and> rp_finished_at r = None)
                 (\<lambda>r. r\<lparr>rp_status := (if succeeded then COMPLETED else FAILED_TERMINAL),
                    rp_finished_at := Some (db_now d), rp_succeeded := Some succeeded,
                    rp_error_code := (case ecode of None \<Rightarrow> rp_error_code r | c \<Rightarrow> c)\<rparr>) (db_replays d)\<rparr>)) (\<lambda>_.
               areturn (updated \<noteq> None)))))) (\<lambda>updated.
        if \<not> updated then araise (exn_of PersistenceConflictError) else areturn ()))"

section \<open>Abandoned files\<close>

text \<open>
  \<^verbatim>\<open>recover_stale_jobs\<close>; the lease is free for the files in \<open>free\<close>, and while it is held the
  repository works under the lock of that file.
\<close>

definition ACTIVE_STATUSES :: "IngestionStatus list" where
  "ACTIVE_STATUSES = [DOWNLOADING, ARCHIVED, PARSING, STAGED, VALIDATING, APPLYING]"

definition stale_files :: "int \<Rightarrow> database \<Rightarrow> (nat \<times> IngestionStatus) list" where
  "stale_files stale_after d = map (\<lambda>f. (f_id f, f_status f)) (take 1000
     (sort_key (\<lambda>f. f_updated_at f)
       (sort_key f_id (filter (\<lambda>f. f_status f \<in> set ACTIVE_STATUSES \<and> f_updated_at f < db_now d - stale_after)
         (db_source_files d)))))"

definition with_lock :: "nat \<Rightarrow> 'a statement \<Rightarrow> 'a statement" where
  "with_lock sid m d = (case m (d\<lparr>db_lock := Some sid\<rparr>) of (r, t) \<Rightarrow> (r, t\<lparr>db_lock := db_lock d\<rparr>))"

fun recover_loop :: "(nat \<Rightarrow> bool) \<Rightarrow> (nat \<times> IngestionStatus) list \<Rightarrow> int \<Rightarrow> int statement" where
  "recover_loop free [] recovered = areturn recovered"
| "recover_loop free ((sid, current) # rows) recovered =
     (if \<not> free sid then recover_loop free rows recovered
      else abind (acatch (abind (with_lock sid (transition sid [current] FAILED_RETRYABLE (Some ''stale_job_recovered'')))
                            (\<lambda>_. areturn 1))
                   (\<lambda>e. if exn_class e = PersistenceConflictError then areturn 0 else araise e))
             (\<lambda>n. recover_loop free rows (recovered + n)))"

definition recover_stale_jobs :: "(nat \<Rightarrow> bool) \<Rightarrow> int \<Rightarrow> int statement" where
  "recover_stale_jobs free stale_after =
     (if stale_after \<le> 0 \<or> stale_after > 7 * 86400 * 1000000 then araise (exn_of ValueError)
      else abind (aget (stale_files stale_after)) (\<lambda>rows. recover_loop free rows 0))"

end
