(* ===== verification/Source_Ledger.thy ===== *)
theory Source_Ledger
  imports Source_Store
begin

text \<open>
  The source store implements an audited ledger. The abstract ledger gives every registered
  file its trail, the sequence of statuses it has had; a file enters it as discovered and moves
  on only along the lifecycle. The store keeps the same information in three tables; its
  invariant says that they agree, and every operation of the store is a step of the ledger or
  leaves it alone.
\<close>

section \<open>The ledger\<close>

type_synonym ledger = "nat \<Rightarrow> IngestionStatus list option"

inductive ledger_step :: "ledger \<Rightarrow> ledger \<Rightarrow> bool" where
  enter: "l sid = None \<Longrightarrow> ledger_step l (l(sid \<mapsto> [DISCOVERED]))"
| move: "l sid = Some (s # ts) \<Longrightarrow> ensure_ingestion_transition (last (s # ts)) t = Inr () \<Longrightarrow>
     ledger_step l (l(sid \<mapsto> s # ts @ [t]))"

definition ledger_ok :: "ledger \<Rightarrow> bool" where
  "ledger_ok l \<longleftrightarrow> (\<forall>sid trail. l sid = Some trail \<longrightarrow>
     (\<exists>ts. trail = DISCOVERED # ts \<and> lifecycle DISCOVERED ts (last trail)))"

section \<open>The store as a ledger\<close>

definition events_of :: "database \<Rightarrow> nat \<Rightarrow> SourceFileEvent list" where
  "events_of d sid = filter (\<lambda>e. ev_source_file_id e = sid) (db_events d)"

definition trail :: "database \<Rightarrow> nat \<Rightarrow> IngestionStatus list" where
  "trail d sid = map ev_to (events_of d sid)"

definition ledger_of :: "database \<Rightarrow> ledger" where
  "ledger_of d sid = (if source_file d sid = None then None else Some (trail d sid))"

definition status_of :: "database \<Rightarrow> nat \<Rightarrow> IngestionStatus option" where
  "status_of d sid = map_option f_status (source_file d sid)"

text \<open>
  What the three tables say about one file: its events are a path of the lifecycle that ends in
  its status, each starting where the one before ended; its attempts are numbered from one, a
  new one for every retry, and the last one has the status of the file.
\<close>

definition file_ok :: "SourceFile \<Rightarrow> SourceFileEvent list \<Rightarrow> IngestionRun list \<Rightarrow> bool" where
  "file_ok f es rs \<longleftrightarrow>
     (\<exists>ts. map ev_to es = DISCOVERED # ts \<and> lifecycle DISCOVERED ts (f_status f)) \<and>
     map ev_from es = None # map Some (butlast (map ev_to es)) \<and>
     map run_attempt rs = map int [1..<Suc (length rs)] \<and>
     length rs = Suc (count_list (butlast (map ev_to es)) FAILED_RETRYABLE) \<and>
     run_status (last rs) = f_status f"

definition ids_ok :: "database \<Rightarrow> bool" where
  "ids_ok d \<longleftrightarrow>
     distinct (map f_id (db_source_files d)) \<and> distinct (map run_id (db_runs d)) \<and>
     distinct (map (\<lambda>f. (f_portal_id f, f_remote_id f)) (db_source_files d)) \<and>
     (\<forall>f\<in>set (db_source_files d). f_id f < db_next_id d) \<and>
     (\<forall>r\<in>set (db_runs d). run_id r < db_next_id d \<and> run_source_file_id r < db_next_id d) \<and>
     (\<forall>e\<in>set (db_events d). ev_source_file_id e < db_next_id d)"

text \<open>Foreign keys: the retailer and the portal of a file exist.\<close>

definition parents :: "database \<Rightarrow> (nat set \<times> nat set)" where
  "parents d = (re_id ` set (db_retailers d), po_id ` set (db_portals d))"

definition parents_kept :: "database \<Rightarrow> database \<Rightarrow> bool" where
  "parents_kept d d' \<longleftrightarrow> fst (parents d) \<subseteq> fst (parents d') \<and> snd (parents d) \<subseteq> snd (parents d')"

definition has_parents :: "database \<Rightarrow> SourceFile \<Rightarrow> bool" where
  "has_parents d f \<longleftrightarrow> f_retailer_id f \<in> fst (parents d) \<and> f_portal_id f \<in> snd (parents d)"

definition store_inv :: "database \<Rightarrow> bool" where
  "store_inv d \<longleftrightarrow> ids_ok d \<and> (\<forall>f\<in>set (db_source_files d). has_parents d f) \<and>
     (\<forall>f\<in>set (db_source_files d). file_ok f (events_of d (f_id f)) (runs_of d (f_id f)))"

section \<open>The current attempt\<close>

lemma consecutive_snoc:
  "map g (xs @ [x]) = map int [1..<Suc (length (xs @ [x]))] \<longleftrightarrow>
     map g xs = map int [1..<Suc (length xs)] \<and> g x = int (Suc (length xs))"
  by auto

lemma latest_is_last:
  assumes "map run_attempt rs = map int [1..<Suc (length rs)]" "rs \<noteq> []"
  shows "fold (\<lambda>r best. case best of None \<Rightarrow> Some r
     | Some b \<Rightarrow> if run_attempt b < run_attempt r then Some r else best) rs None = Some (last rs)"
  using assms
proof (induction rs rule: rev_induct)
  case (snoc r rs)
  then have c: "map run_attempt rs = map int [1..<Suc (length rs)]" "run_attempt r = int (Suc (length rs))"
    by (simp_all only: consecutive_snoc)
  show ?case
  proof (cases "rs = []")
    case False
    have "run_attempt (last rs) = last (map run_attempt rs)" using False by (simp add: last_map)
    also have "\<dots> = int (length rs)" using False by (simp add: c(1) last_map Suc_le_eq)
    finally show ?thesis using snoc.IH [OF c(1) False] c(2) by simp
  qed simp
qed simp

lemma most_is_length:
  assumes "map run_attempt rs = map int [1..<Suc (length rs)]"
  shows "fold (\<lambda>r m. max (run_attempt r) m) rs 0 = int (length rs)"
  using assms
proof (induction rs rule: rev_induct)
  case (snoc r rs)
  then have c: "map run_attempt rs = map int [1..<Suc (length rs)]" "run_attempt r = int (Suc (length rs))"
    by (simp_all only: consecutive_snoc)
  then show ?case using snoc.IH by simp
qed simp

lemma file_ok_current:
  assumes "file_ok f (events_of d sid) (runs_of d sid)"
  shows "current_run d sid = Some (last (runs_of d sid))" "max_attempt d sid = int (length (runs_of d sid))"
    "runs_of d sid \<noteq> []"
proof -
  have a: "map run_attempt (runs_of d sid) = map int [1..<Suc (length (runs_of d sid))]" "runs_of d sid \<noteq> []"
    using assms by (auto simp: file_ok_def)
  show "runs_of d sid \<noteq> []" by (fact a(2))
  show "current_run d sid = Some (last (runs_of d sid))"
    unfolding current_run_def by (rule latest_is_last [OF a])
  show "max_attempt d sid = int (length (runs_of d sid))"
    unfolding max_attempt_def by (rule most_is_length [OF a(1)])
qed

section \<open>What the operations do to the tables\<close>

text \<open>
  An operation of the store that returns is one of three changes: quiet (rows of files keep
  identity and status), the entry of a new file, or the move of one file to another status.
\<close>

definition same_file :: "SourceFile \<Rightarrow> SourceFile \<Rightarrow> bool" where
  "same_file f g \<longleftrightarrow> f_id g = f_id f \<and> f_portal_id g = f_portal_id f \<and> f_remote_id g = f_remote_id f \<and>
     f_retailer_id g = f_retailer_id f"

definition quiet :: "database \<Rightarrow> database \<Rightarrow> bool" where
  "quiet d d' \<longleftrightarrow> list_all2 (\<lambda>f g. same_file f g \<and> f_status g = f_status f) (db_source_files d) (db_source_files d') \<and>
     db_events d' = db_events d \<and> db_runs d' = db_runs d \<and> db_next_id d \<le> db_next_id d' \<and> db_lock d' = db_lock d \<and>
     parents_kept d d'"

definition entered :: "database \<Rightarrow> nat \<Rightarrow> database \<Rightarrow> bool" where
  "entered d sid d' \<longleftrightarrow> (\<exists>f run.
     db_next_id d \<le> sid \<and> sid < run \<and> run < db_next_id d' \<and>
     db_source_files d' = db_source_files d @ [f] \<and> f_id f = sid \<and> f_status f = DISCOVERED \<and>
     (f_portal_id f, f_remote_id f) \<notin> (\<lambda>g. (f_portal_id g, f_remote_id g)) ` set (db_source_files d) \<and>
     db_runs d' = db_runs d @ [\<lparr>run_id = run, run_source_file_id = sid, run_attempt = 1, run_status = DISCOVERED,
        run_error_code = None, run_finished_at = None\<rparr>] \<and>
     db_events d' = db_events d @ [\<lparr>ev_source_file_id = sid, ev_run_id = run, ev_from = None, ev_to = DISCOVERED,
        ev_error_code = None\<rparr>] \<and> db_lock d' = db_lock d \<and> parents_kept d d' \<and> has_parents d' f)"

definition run_moved :: "database \<Rightarrow> nat \<Rightarrow> IngestionStatus \<Rightarrow> IngestionStatus \<Rightarrow> database \<Rightarrow> bool" where
  "run_moved d sid s t d' \<longleftrightarrow>
     (if s = FAILED_RETRYABLE
      then \<exists>r. db_runs d' = db_runs d @ [r] \<and> db_next_id d \<le> run_id r \<and> run_id r < db_next_id d' \<and>
        run_source_file_id r = sid \<and> run_attempt r = max_attempt d sid + 1 \<and> run_status r = t \<and>
        run_error_code r = None \<and> run_finished_at r = None
      else \<exists>h run. current_run d sid = Some run \<and> db_runs d' = update_where (\<lambda>r. run_id r = run_id run) h (db_runs d) \<and>
        (\<forall>r. run_id (h r) = run_id r \<and> run_source_file_id (h r) = run_source_file_id r \<and>
             run_attempt (h r) = run_attempt r \<and> run_status (h r) = t))"

definition moved :: "database \<Rightarrow> nat \<Rightarrow> IngestionStatus \<Rightarrow> database \<Rightarrow> bool" where
  "moved d sid t d' \<longleftrightarrow> (\<exists>f g run ec.
     source_file d sid = Some f \<and> t \<in> ALLOWED_TRANSITIONS (f_status f) \<and>
     db_source_files d' = update_where (\<lambda>f. f_id f = sid) g (db_source_files d) \<and>
     (\<forall>f. same_file f (g f) \<and> f_status (g f) = t) \<and>
     db_events d' = db_events d @ [\<lparr>ev_source_file_id = sid, ev_run_id = run, ev_from = Some (f_status f), ev_to = t,
        ev_error_code = ec\<rparr>] \<and>
     run_moved d sid (f_status f) t d' \<and> db_next_id d \<le> db_next_id d' \<and> db_lock d' = db_lock d \<and> parents_kept d d')"

subsection \<open>Quiet changes\<close>

lemma same_file_map:
  assumes "list_all2 (\<lambda>f g. same_file f g \<and> f_status g = f_status f) fs gs"
  shows "map f_id gs = map f_id fs"
    "map (\<lambda>f. (f_portal_id f, f_remote_id f)) gs = map (\<lambda>f. (f_portal_id f, f_remote_id f)) fs"
    "map_option f_status (find (\<lambda>f. f_id f = sid) gs) = map_option f_status (find (\<lambda>f. f_id f = sid) fs)"
  using assms by (induction rule: list_all2_induct) (auto simp: same_file_def)

lemma parents_kept_trans: "parents_kept d e \<Longrightarrow> parents_kept e g \<Longrightarrow> parents_kept d g"
  by (auto simp: parents_kept_def)

lemma has_parents_kept: "has_parents d f \<Longrightarrow> same_file f g \<Longrightarrow> parents_kept d d' \<Longrightarrow> has_parents d' g"
  by (auto simp: has_parents_def same_file_def parents_kept_def)

lemma parents_kept_simps [simp]:
  "parents_kept d d" "parents_kept d (e\<lparr>db_source_files := x1\<rparr>) = parents_kept d e"
  "parents_kept d (e\<lparr>db_runs := x2\<rparr>) = parents_kept d e" "parents_kept d (e\<lparr>db_events := x3\<rparr>) = parents_kept d e"
  "parents_kept d (e\<lparr>db_next_id := x4\<rparr>) = parents_kept d e" "parents_kept d (e\<lparr>db_replays := x5\<rparr>) = parents_kept d e"
  "parents_kept d (e\<lparr>db_archive_objects := x6\<rparr>) = parents_kept d e"
  by (simp_all add: parents_kept_def parents_def)

lemma same_file_refl [simp]: "same_file f f"
  by (simp add: same_file_def)

lemma quiet_inv:
  assumes "store_inv d" "quiet d d'"
  shows "store_inv d'" "ledger_of d' = ledger_of d" "status_of d' = status_of d"
proof -
  have q: "list_all2 (\<lambda>f g. same_file f g \<and> f_status g = f_status f) (db_source_files d) (db_source_files d')"
    "db_events d' = db_events d" "db_runs d' = db_runs d" "db_next_id d \<le> db_next_id d'" "parents_kept d d'"
    using assms(2) by (simp_all add: quiet_def)
  have ids: "f_id ` set (db_source_files d') = f_id ` set (db_source_files d)"
    by (metis same_file_map(1) [OF q(1)] list.set_map)
  have lookup: "source_file d' sid = None \<longleftrightarrow> source_file d sid = None" for sid
    using same_file_map(3) [OF q(1), of sid] by (metis source_file_def option.map_disc_iff)
  have tables: "events_of d' = events_of d" "runs_of d' = runs_of d"
    by (rule ext, simp add: events_of_def runs_of_def q)+
  have next_id: "\<forall>f\<in>set (db_source_files d'). f_id f < db_next_id d'"
  proof
    fix f assume "f \<in> set (db_source_files d')"
    then obtain g where "g \<in> set (db_source_files d)" "f_id f = f_id g" using ids by (metis imageE imageI)
    then show "f_id f < db_next_id d'" using assms(1) q(4) by (fastforce simp: store_inv_def ids_ok_def)
  qed
  have "ids_ok d'"
    using assms(1) q(2,3,4) next_id same_file_map(1,2) [OF q(1)]
    by (fastforce simp: store_inv_def ids_ok_def)
  moreover have "has_parents d' g \<and> file_ok g (events_of d' (f_id g)) (runs_of d' (f_id g))" if g: "g \<in> set (db_source_files d')" for g
  proof -
    obtain i where i: "i < length (db_source_files d')" "g = db_source_files d' ! i"
      using g by (auto simp: in_set_conv_nth)
    define f where "f = db_source_files d ! i"
    have "same_file f g \<and> f_status g = f_status f" unfolding f_def i(2)
      by (rule list_all2_nthD2 [OF q(1) i(1)])
    moreover have "f \<in> set (db_source_files d)" unfolding f_def
      by (rule nth_mem) (use i(1) list_all2_lengthD [OF q(1)] in simp)
    ultimately have "f \<in> set (db_source_files d)" "same_file f g" "f_id g = f_id f" "f_status g = f_status f"
      by (simp_all add: same_file_def)
    then show ?thesis using assms(1) q(5) by (auto simp: store_inv_def tables file_ok_def intro: has_parents_kept)
  qed
  ultimately show "store_inv d'" by (simp add: store_inv_def)
  show "ledger_of d' = ledger_of d"
    by (rule ext) (simp add: ledger_of_def lookup trail_def tables)
  show "status_of d' = status_of d"
    using same_file_map(3) [OF q(1)] by (intro ext) (simp add: status_of_def source_file_def)
qed

subsection \<open>A new file\<close>

lemma fresh_tables:
  assumes "ids_ok d" "db_next_id d \<le> sid"
  shows "events_of d sid = []" "runs_of d sid = []" "source_file d sid = None"
  using assms by (fastforce simp: ids_ok_def events_of_def runs_of_def source_file_def find_None_iff filter_empty_conv)+

lemma entered_inv:
  assumes "store_inv d" "entered d sid d'"
  shows "store_inv d'" "ledger_of d' = (ledger_of d)(sid \<mapsto> [DISCOVERED])" "ledger_of d sid = None"
    "status_of d' = (status_of d)(sid \<mapsto> DISCOVERED)"
proof -
  have ok: "ids_ok d" using assms(1) by (simp add: store_inv_def)
  obtain f run where e: "db_next_id d \<le> sid" "sid < run" "run < db_next_id d'"
    "db_source_files d' = db_source_files d @ [f]" "f_id f = sid" "f_status f = DISCOVERED"
    "(f_portal_id f, f_remote_id f) \<notin> (\<lambda>g. (f_portal_id g, f_remote_id g)) ` set (db_source_files d)"
    "db_runs d' = db_runs d @ [\<lparr>run_id = run, run_source_file_id = sid, run_attempt = 1, run_status = DISCOVERED,
        run_error_code = None, run_finished_at = None\<rparr>]"
    "db_events d' = db_events d @ [\<lparr>ev_source_file_id = sid, ev_run_id = run, ev_from = None, ev_to = DISCOVERED,
        ev_error_code = None\<rparr>]" "parents_kept d d'" "has_parents d' f"
    using assms(2) by (auto simp: entered_def)
  note fresh = fresh_tables [OF ok e(1)]
  have events: "events_of d' k = (if k = sid then [last (db_events d')] else events_of d k)" for k
    using fresh by (simp add: events_of_def e)
  have runs: "runs_of d' k = (if k = sid then [last (db_runs d')] else runs_of d k)" for k
    using fresh by (simp add: runs_of_def e)
  have lookup: "source_file d' k = (if k = sid then Some f else source_file d k)" for k
    using fresh(3) by (auto simp: source_file_def e find_append split: option.split)
  have lim: "n < sid \<and> n < run \<and> n < db_next_id d'" if "n < db_next_id d" for n using that e(1-3) by linarith
  have below: "\<forall>g\<in>set (db_source_files d). f_id g < db_next_id d'"
    "\<forall>r\<in>set (db_runs d). run_id r < run \<and> run_id r < db_next_id d' \<and> run_source_file_id r < db_next_id d'"
    "\<forall>x\<in>set (db_events d). ev_source_file_id x < db_next_id d'" "\<forall>g\<in>set (db_source_files d). f_id g < sid"
    using ok lim unfolding ids_ok_def by simp_all
  have "sid \<notin> f_id ` set (db_source_files d)" "run \<notin> run_id ` set (db_runs d)" using below by force+
  moreover have "sid < db_next_id d'" using e(2,3) by linarith
  ultimately have "ids_ok d'" using ok e(3-9) below unfolding ids_ok_def by simp
  moreover have "has_parents d' g \<and> file_ok g (events_of d' (f_id g)) (runs_of d' (f_id g))"
    if "g \<in> set (db_source_files d')" for g
  proof (cases "g = f")
    case True then show ?thesis using e(11) by (simp add: e(4-9) events runs file_ok_def)
  next
    case False
    then have "g \<in> set (db_source_files d)" using that e(4) by simp
    moreover from this have "f_id g \<noteq> sid" using below(4) by auto
    ultimately show ?thesis using assms(1) has_parents_kept [OF _ same_file_refl e(10)]
      by (simp add: store_inv_def events runs)
  qed
  ultimately show "store_inv d'" by (simp add: store_inv_def)
  show "ledger_of d' = (ledger_of d)(sid \<mapsto> [DISCOVERED])"
    by (rule ext) (simp add: ledger_of_def lookup trail_def events e)
  show "ledger_of d sid = None" by (simp add: ledger_of_def fresh)
  show "status_of d' = (status_of d)(sid \<mapsto> DISCOVERED)"
    by (rule ext) (simp add: status_of_def lookup e)
qed

subsection \<open>A move\<close>

lemma file_ok_move:
  assumes "file_ok f es rs" "t \<in> ALLOWED_TRANSITIONS (f_status f)" "f_status g = t" "ev_to e = t"
    "ev_from e = Some (f_status f)"
    and "if f_status f = FAILED_RETRYABLE
      then \<exists>r. rs' = rs @ [r] \<and> run_attempt r = int (length rs) + 1 \<and> run_status r = t
      else \<exists>r. rs' = butlast rs @ [r] \<and> run_attempt r = run_attempt (last rs) \<and> run_status r = t"
  shows "file_ok g (es @ [e]) rs'"
proof -
  obtain ts where ts: "map ev_to es = DISCOVERED # ts" "lifecycle DISCOVERED ts (f_status f)"
    using assms(1) by (auto simp: file_ok_def)
  have "lifecycle DISCOVERED (ts @ [t]) t" using ts(2) assms(2) by (auto simp: lifecycle_append)
  then have path: "\<exists>us. map ev_to (es @ [e]) = DISCOVERED # us \<and> lifecycle DISCOVERED us t"
    using ts(1) assms(4) by auto
  have ne: "es \<noteq> []" "rs \<noteq> []" using assms(1) by (auto simp: file_ok_def)
  have end_of: "f_status f = last (map ev_to es)" using lifecycle_last [OF ts(2)] ts(1) by simp
  obtain bs where bs: "map ev_to es = bs @ [f_status f]"
    using end_of ne(1) by (metis append_butlast_last_id map_is_Nil_conv)
  have from_chain: "map ev_from (es @ [e]) = None # map Some (butlast (map ev_to (es @ [e])))"
    using assms(1,5) by (simp add: file_ok_def bs butlast_append)
  have retries: "count_list (butlast (map ev_to (es @ [e]))) FAILED_RETRYABLE =
      count_list (butlast (map ev_to es)) FAILED_RETRYABLE + (if f_status f = FAILED_RETRYABLE then 1 else 0)"
    by (simp add: bs butlast_append)
  have runs: "map run_attempt rs' = map int [1..<Suc (length rs')] \<and> run_status (last rs') = t \<and>
      length rs' = length rs + (if f_status f = FAILED_RETRYABLE then 1 else 0)"
  proof (cases "f_status f = FAILED_RETRYABLE")
    case True
    then show ?thesis using assms(1,6) by (auto simp: file_ok_def)
  next
    case False
    then obtain r where r: "rs' = butlast rs @ [r]" "run_attempt r = run_attempt (last rs)" "run_status r = t"
      using assms(6) by auto
    have "map run_attempt rs' = map run_attempt rs"
      using r(1,2) ne(2) by (metis append_butlast_last_id list.simps(8,9) map_append)
    moreover have "length rs' = length rs" using r(1) ne(2) by simp
    ultimately show ?thesis using assms(1) r False by (simp add: file_ok_def)
  qed
  then show ?thesis using path from_chain retries assms(1,3) by (simp add: file_ok_def)
qed

lemma source_file_ok:
  assumes "store_inv d" "source_file d sid = Some f"
  shows "f_id f = sid" "f \<in> set (db_source_files d)" "file_ok f (events_of d sid) (runs_of d sid)" "sid < db_next_id d"
  using assms by (auto simp: source_file_def store_inv_def ids_ok_def dest!: find_in)

lemma other_runs_untouched:
  assumes "distinct (map run_id rs)" "r \<in> set rs" "run_source_file_id r = sid" "k \<noteq> sid"
    and "\<And>r. run_source_file_id (h r) = run_source_file_id r"
  shows "filter (\<lambda>x. run_source_file_id x = k) (update_where (\<lambda>x. run_id x = run_id r) h rs) =
     filter (\<lambda>x. run_source_file_id x = k) rs"
proof -
  have "run_id x \<noteq> run_id r" if "x \<in> set (filter (\<lambda>x. run_source_file_id x = k) rs)" for x
    using assms(1-4) that by (auto simp: distinct_map inj_on_def)
  then have "update_where (\<lambda>x. run_id x = run_id r) h (filter (\<lambda>x. run_source_file_id x = k) rs) =
      filter (\<lambda>x. run_source_file_id x = k) rs" by (rule update_where_none)
  then show ?thesis using assms(5) by (simp add: filter_update_where)
qed

lemma run_moved_runs:
  assumes "store_inv d" "source_file d sid = Some f" "run_moved d sid (f_status f) t d'"
  shows "k \<noteq> sid \<Longrightarrow> runs_of d' k = runs_of d k"
    "if f_status f = FAILED_RETRYABLE
     then \<exists>r. runs_of d' sid = runs_of d sid @ [r] \<and> run_attempt r = int (length (runs_of d sid)) + 1 \<and> run_status r = t
     else \<exists>r. runs_of d' sid = butlast (runs_of d sid) @ [r] \<and> run_attempt r = run_attempt (last (runs_of d sid)) \<and>
       run_status r = t"
proof -
  note ok = source_file_ok [OF assms(1,2)] and cur = file_ok_current [OF source_file_ok(3) [OF assms(1,2)]]
  have ids: "distinct (map run_id (db_runs d))" using assms(1) by (simp add: store_inv_def ids_ok_def)
  let ?last = "last (runs_of d sid)"
  have last: "?last \<in> set (db_runs d)" "run_source_file_id ?last = sid"
    using last_in_set [OF cur(3)] by (auto simp: runs_of_def)
  show "k \<noteq> sid \<Longrightarrow> runs_of d' k = runs_of d k"
    using assms(3) cur(1) other_runs_untouched [OF ids last, of k]
    by (auto simp: run_moved_def runs_of_def split: if_splits)
  show "if f_status f = FAILED_RETRYABLE
     then \<exists>r. runs_of d' sid = runs_of d sid @ [r] \<and> run_attempt r = int (length (runs_of d sid)) + 1 \<and> run_status r = t
     else \<exists>r. runs_of d' sid = butlast (runs_of d sid) @ [r] \<and> run_attempt r = run_attempt ?last \<and> run_status r = t"
  proof (cases "f_status f = FAILED_RETRYABLE")
    case True
    then show ?thesis using assms(3) cur(2) by (auto simp: run_moved_def runs_of_def)
  next
    case False
    then obtain h where h: "db_runs d' = update_where (\<lambda>r. run_id r = run_id ?last) h (db_runs d)"
      "\<And>r. run_source_file_id (h r) = run_source_file_id r \<and> run_attempt (h r) = run_attempt r \<and> run_status (h r) = t"
      using assms(3) cur(1) by (auto simp: run_moved_def)
    have "runs_of d' sid = update_where (\<lambda>r. run_id r = run_id ?last) h (runs_of d sid)"
      unfolding runs_of_def h(1) by (rule filter_update_where) (simp add: h(2))
    also have "\<dots> = butlast (runs_of d sid) @ [h ?last]"
      by (rule update_where_last [OF _ cur(3)]) (simp add: runs_of_def ids distinct_map_filter)
    finally show ?thesis using False h(2) by auto
  qed
qed

lemma run_moved_ids:
  assumes "ids_ok d" "sid < db_next_id d" "run_moved d sid s t d'" "db_next_id d \<le> db_next_id d'"
  shows "distinct (map run_id (db_runs d'))"
    "\<forall>r\<in>set (db_runs d'). run_id r < db_next_id d' \<and> run_source_file_id r < db_next_id d'"
proof -
  have old: "\<forall>r\<in>set (db_runs d). run_id r < db_next_id d \<and> run_source_file_id r < db_next_id d"
    "distinct (map run_id (db_runs d))"
    using assms(1) by (simp_all add: ids_ok_def)
  have "\<not> db_next_id d \<le> run_id x" if "x \<in> set (db_runs d)" for x using old(1) that by force
  then show "distinct (map run_id (db_runs d'))"
    using assms(3) old(2) by (auto simp: run_moved_def map_update_where split: if_splits)
  show "\<forall>r\<in>set (db_runs d'). run_id r < db_next_id d' \<and> run_source_file_id r < db_next_id d'"
    using assms(2-4) old by (fastforce simp: run_moved_def set_update_where split: if_splits)
qed

lemma moved_inv:
  assumes "store_inv d" "moved d sid t d'"
  shows "store_inv d'" "ledger_of d' = (ledger_of d)(sid \<mapsto> trail d sid @ [t])"
    "status_of d' = (status_of d)(sid \<mapsto> t)"
proof -
  obtain f g run ec where m: "source_file d sid = Some f" "t \<in> ALLOWED_TRANSITIONS (f_status f)"
     "db_source_files d' = update_where (\<lambda>f. f_id f = sid) g (db_source_files d)"
     "\<And>f. same_file f (g f) \<and> f_status (g f) = t"
     "db_events d' = db_events d @ [\<lparr>ev_source_file_id = sid, ev_run_id = run, ev_from = Some (f_status f), ev_to = t,
        ev_error_code = ec\<rparr>]"
     "run_moved d sid (f_status f) t d'" "db_next_id d \<le> db_next_id d'" "parents_kept d d'"
    using assms(2) by (auto simp: moved_def)
  note ok = source_file_ok [OF assms(1) m(1)]
  have ids: "ids_ok d" using assms(1) by (simp add: store_inv_def)
  have keep: "f_id (g x) = f_id x" "(f_portal_id (g x), f_remote_id (g x)) = (f_portal_id x, f_remote_id x)" for x
    using m(4) [of x] by (simp_all add: same_file_def)
  have maps: "map f_id (db_source_files d') = map f_id (db_source_files d)"
    "map (\<lambda>f. (f_portal_id f, f_remote_id f)) (db_source_files d') =
     map (\<lambda>f. (f_portal_id f, f_remote_id f)) (db_source_files d)"
    unfolding m(3) by (rule map_update_where, simp add: keep)+
  have events: "events_of d' k = (if k = sid then events_of d sid @ [last (db_events d')] else events_of d k)" for k
    by (simp add: events_of_def m(5))
  have lookup: "source_file d' k = map_option (\<lambda>x. if f_id x = sid then g x else x) (source_file d k)" for k
    unfolding source_file_def m(3) by (rule find_update_where) (rule keep(1))
  have "\<forall>x\<in>set (db_source_files d'). f_id x < db_next_id d'"
    using ids m(7) keep(1) by (fastforce simp: ids_ok_def m(3) set_update_where)
  moreover have "\<forall>e\<in>set (db_events d'). ev_source_file_id e < db_next_id d'"
    using ids m(7) ok(4) by (fastforce simp: ids_ok_def m(5))
  ultimately have "ids_ok d'"
    using ids maps run_moved_ids [OF ids ok(4) m(6,7)] by (simp add: ids_ok_def)
  moreover have "has_parents d' x" if x: "x \<in> set (db_source_files d')" for x
    using assms(1) m(4) x by (auto simp: store_inv_def m(3) set_update_where intro: has_parents_kept [OF _ _ m(8)])
  moreover have "file_ok x (events_of d' (f_id x)) (runs_of d' (f_id x))" if x: "x \<in> set (db_source_files d')" for x
  proof -
    obtain y where y: "y \<in> set (db_source_files d)" "x = (if f_id y = sid then g y else y)"
      using x by (auto simp: m(3) set_update_where)
    show ?thesis
    proof (cases "f_id y = sid")
      case True
      then have "y = f" using find_key [of f_id "db_source_files d" y] y(1) m(1) ids
        by (auto simp: source_file_def ids_ok_def)
      have "file_ok (g f) (events_of d sid @ [last (db_events d')]) (runs_of d' sid)"
        by (rule file_ok_move [OF ok(3) m(2) _ _ _ run_moved_runs(2) [OF assms(1) m(1,6)]])
          (use m(4,5) in simp_all)
      then show ?thesis using True y(2) \<open>y = f\<close> keep(1) by (simp add: events)
    next
      case False
      then show ?thesis using assms(1) y run_moved_runs(1) [OF assms(1) m(1,6)] by (simp add: store_inv_def events)
    qed
  qed
  ultimately show "store_inv d'" by (simp add: store_inv_def)
  show "ledger_of d' = (ledger_of d)(sid \<mapsto> trail d sid @ [t])"
    by (rule ext) (auto simp: ledger_of_def lookup trail_def events m(1,5))
  show "status_of d' = (status_of d)(sid \<mapsto> t)"
  proof
    fix k
    have "f_id x = k" if "source_file d k = Some x" for x using source_file_ok(1) [OF assms(1) that] .
    then show "status_of d' k = ((status_of d)(sid \<mapsto> t)) k"
      using m(4) by (cases "source_file d k") (auto simp: status_of_def lookup m(1))
  qed
qed

section \<open>Every operation is a step of the ledger\<close>

lemma wp_transaction:
  "wp (transaction sid own m) Q E d \<longleftrightarrow>
     (if own \<and> db_lock d = None \<or> db_lock d \<noteq> None \<and> sid \<noteq> None \<and> db_lock d \<noteq> sid
      then E (exn_of PersistenceConflictError) d else wp m Q (\<lambda>e _. E e d) d)"
  by (auto simp: wp_def transaction_def split: prod.splits sum.splits)

lemma wp_areturn_eta: "wp (areturn x) Q E = Q x"
  by (rule ext) (simp add: action_simps)

lemma wp_fresh_id [action_simps]:
  "wp fresh_id Q E d \<longleftrightarrow> Q (db_next_id d) (d\<lparr>db_next_id := db_next_id d + 1\<rparr>)"
  by (simp add: wp_def fresh_id_def)

lemma quiet_refl [simp]: "quiet d d"
  by (simp add: quiet_def same_file_def list_all2_refl)

lemma quiet_trans:
  assumes "quiet d e" "quiet e g"
  shows "quiet d g"
proof -
  have "list_all2 (\<lambda>f g. same_file f g \<and> f_status g = f_status f) (db_source_files d) (db_source_files g)"
    by (rule list_all2_trans [of "\<lambda>f g. same_file f g \<and> f_status g = f_status f"
          "\<lambda>f g. same_file f g \<and> f_status g = f_status f" _ "db_source_files d" "db_source_files e" "db_source_files g"])
      (use assms in \<open>simp_all add: same_file_def quiet_def\<close>)
  then show ?thesis using assms by (auto simp: quiet_def intro: parents_kept_trans)
qed

lemma quiet_rows: "(\<And>f. f \<in> set fs \<Longrightarrow> p f \<Longrightarrow> same_file f (g f) \<and> f_status (g f) = f_status f) \<Longrightarrow>
   list_all2 (\<lambda>f g. same_file f g \<and> f_status g = f_status f) fs (update_where p g fs)"
  by (simp add: update_where_def list_all2_conv_all_nth same_file_def)

text \<open>The outcome of \<^verbatim>\<open>transition\<close>: a raise changes nothing, a return is a move.\<close>

lemma insert_run_wp:
  "wp (insert_run sid attempt status) Q E d \<longleftrightarrow>
     Q (db_next_id d) (d\<lparr>db_next_id := db_next_id d + 1, db_runs := db_runs d @ [\<lparr>run_id = db_next_id d,
        run_source_file_id = sid, run_attempt = attempt, run_status = status, run_error_code = None,
        run_finished_at = None\<rparr>]\<rparr>)"
  by (simp add: insert_run_def action_simps)

definition lock_admits :: "database \<Rightarrow> nat \<Rightarrow> bool" where
  "lock_admits d sid \<longleftrightarrow> db_lock d = None \<or> db_lock d = Some sid"

lemma updated_runs:
  "(\<And>r. run_id (h r) = run_id r \<and> run_source_file_id (h r) = run_source_file_id r \<and>
      run_attempt (h r) = run_attempt r \<and> run_status (h r) = t) \<Longrightarrow>
   \<exists>h'. update_where p h rs = update_where p h' rs \<and> (\<forall>r. run_id (h' r) = run_id r \<and>
      run_source_file_id (h' r) = run_source_file_id r \<and> run_attempt (h' r) = run_attempt r \<and> run_status (h' r) = t)"
  by (rule exI [of _ h]) simp

lemma move_run_moves:
  assumes "current_run d sid = Some run"
  shows "wp (move_run sid s t ec (run_id run)) (\<lambda>_ d'. run_moved d sid s t d' \<and> db_next_id d \<le> db_next_id d' \<and>
     db_lock d' = db_lock d \<and> db_source_files d' = db_source_files d \<and> db_events d' = db_events d \<and> parents_kept d d')
     (\<lambda>_ _. False) d"
proof (cases "s = FAILED_RETRYABLE")
  case True
  then show ?thesis by (simp add: move_run_def action_simps insert_run_wp run_moved_def)
next
  case False
  then show ?thesis using assms by (simp add: move_run_def action_simps run_moved_def updated_runs)
qed

lemma move_file_moves:
  assumes "source_file d sid = Some f"
  shows "wp (move_file sid (f_status f) t ec) (\<lambda>_ d'. moved d sid t d') (\<lambda>_ _. True) d"
proof (cases "t \<in> ALLOWED_TRANSITIONS (f_status f) \<and> current_run d sid \<noteq> None")
  case True
  then obtain run where run: "current_run d sid = Some run" by auto
  have allowed: "ensure_ingestion_transition (f_status f) t = Inr ()" using True by simp
  show ?thesis
    unfolding move_file_def current_run_id_def wp_abind wp_of_result allowed sum.case wp_aget run option.case wp_areturn
  proof (rule wp_mono [OF move_run_moves [OF run]], elim conjE)
    fix run and d1 :: database
    let ?g = "\<lambda>f. f\<lparr>f_status := t, f_error_code := ec, f_updated_at := db_now d1\<rparr>"
    assume "run_moved d sid (f_status f) t d1" "db_next_id d \<le> db_next_id d1" "db_lock d1 = db_lock d"
      "db_source_files d1 = db_source_files d" "db_events d1 = db_events d" "parents_kept d d1"
    then show "wp (amodify (\<lambda>d. d\<lparr>db_source_files := update_where (\<lambda>f. f_id f = sid)
        (\<lambda>f. f\<lparr>f_status := t, f_error_code := ec, f_updated_at := db_now d\<rparr>) (db_source_files d)\<rparr>))
      (\<lambda>x. wp (insert_event sid run (Some (f_status f)) t ec) (\<lambda>_. moved d sid t) (\<lambda>_ _. True)) (\<lambda>_ _. True) d1"
      using assms True by (simp add: insert_event_def action_simps moved_def run_moved_def)
        (rule exI [of _ ?g], simp add: same_file_def)
  qed simp
qed (auto simp: move_file_def current_run_id_def action_simps ensure_ingestion_transition_def)

lemma transition_moves:
  "wp (transition sid expected t ec)
     (\<lambda>_ d'. moved d sid t d' \<and> lock_admits d sid \<and> (\<exists>s\<in>set expected. status_of d sid = Some s))
     (\<lambda>e d'. d' = d) d"
  unfolding transition_def
  by (auto simp: action_simps wp_transaction status_of_def lock_admits_def
      intro: move_file_moves split: option.splits)

lemma quiet_next [simp]: "db_next_id d \<le> n \<Longrightarrow> quiet d (d\<lparr>db_next_id := n\<rparr>)"
  by (simp add: quiet_def same_file_def list_all2_refl)

lemma archive_object_quiet:
  "wp (archive_object a) (\<lambda>_ d'. quiet d d' \<and> db_source_files d' = db_source_files d \<and> current_run d' = current_run d)
     (\<lambda>_ _. True) d"
  unfolding archive_object_def
  by (auto simp: action_simps quiet_def same_file_def list_all2_refl current_run_def runs_of_def split: option.split)

lemma attach_evidence_moves:
  assumes "quiet d d1" "db_source_files d1 = db_source_files d" "source_file d sid = Some f" "f_status f = DOWNLOADING"
    "current_run d sid = Some run"
  shows "wp (attach_evidence sid archived version (run_id run) i) (\<lambda>_ d'. moved d sid ARCHIVED d') (\<lambda>_ _. True) d1"
proof -
  let ?g = "attach_archive d1 i archived version"
  have "\<forall>f. same_file f (?g f) \<and> f_status (?g f) = ARCHIVED" by (simp add: attach_archive_def same_file_def Let_def)
  then show ?thesis using assms
    by (simp add: attach_evidence_def action_simps insert_event_def moved_def run_moved_def quiet_def updated_runs)
      (intro impI exI [of _ ?g], simp)
qed

lemma record_archive_moves:
  "wp (record_archive sid archived version)
     (\<lambda>_ d'. moved d sid ARCHIVED d' \<and> lock_admits d sid \<and> status_of d sid = Some DOWNLOADING)
     (\<lambda>e d'. d' = d) d"
proof -
  have step: "wp (archive_object (ad_archive archived)) (\<lambda>x. wp (case x of (i, reused) \<Rightarrow>
      abind (attach_evidence sid archived version (run_id run) i) (\<lambda>_. areturn reused))
      (\<lambda>_ d'. moved d sid ARCHIVED d') (\<lambda>_ _. True)) (\<lambda>_ _. True) d"
    if "source_file d sid = Some f" "f_status f = DOWNLOADING" "current_run d sid = Some run" for f run
    by (rule wp_mono [OF archive_object_quiet])
      (auto simp: action_simps wp_areturn_eta intro: attach_evidence_moves [OF _ _ that])
  show ?thesis
    unfolding record_archive_def
    by (auto simp: action_simps wp_transaction status_of_def lock_admits_def current_run_id_def
        intro: step split: option.splits sum.splits)
qed

definition unseen :: "database \<Rightarrow> database \<Rightarrow> bool" where
  "unseen d d' \<longleftrightarrow> quiet d d' \<and> db_source_files d' = db_source_files d"

lemma ensure_retailer_unseen:
  "wp (ensure_retailer key) (\<lambda>i d'. unseen d d' \<and> i \<in> fst (parents d')) (\<lambda>_ _. True) d"
  unfolding ensure_retailer_def
  by (auto simp: action_simps unseen_def quiet_def list_all2_refl parents_def parents_kept_def split: option.split
      dest: find_in)

lemma ensure_portal_unseen:
  assumes "unseen d d1" "r \<in> fst (parents d1)"
  shows "wp (ensure_portal r rf) (\<lambda>i d'. unseen d d' \<and> r \<in> fst (parents d') \<and> i \<in> snd (parents d')) (\<lambda>_ _. True) d1"
  using assms unfolding ensure_portal_def
  by (auto simp: action_simps unseen_def quiet_def parents_def parents_kept_def ids_update_where split: option.split
      dest: find_in)

lemma insert_source_file_enters:
  assumes "unseen d d1" "find (\<lambda>f. f_portal_id f = portal \<and> f_remote_id f = rf_remote_id rf) (db_source_files d1) = None"
    "retailer \<in> fst (parents d1)" "portal \<in> snd (parents d1)"
  shows "wp (insert_source_file retailer portal rf) (\<lambda>sid d'. entered d sid d') (\<lambda>_ _. True) d1"
  using assms unfolding insert_source_file_def
  by (auto simp: action_simps insert_run_def insert_event_def entered_def new_source_file_def unseen_def quiet_def
      find_None_iff has_parents_def parents_def)

lemma rediscovery_same:
  "rediscovery_updates L row rf own = Inr row' \<Longrightarrow> same_file row row' \<and> f_status row' = f_status row"
  by (auto simp: rediscovery_updates_def Let_def err_def rbind_Inr_iff same_file_def update_url_and_metadata_def
      split: if_splits)

lemma rediscover_quiet:
  assumes "ids_ok d" "unseen d d1" "existing \<in> set (db_source_files d)"
  shows "wp (rediscover L existing rf own) (\<lambda>sid d'. quiet d d' \<and> sid = f_id existing) (\<lambda>_ _. True) d1"
proof -
  have key: "f = existing" if "f \<in> set (db_source_files d)" "f_id f = f_id existing" for f
    using assms(1,3) that by (auto simp: ids_ok_def distinct_map inj_on_def)
  have "quiet d (d1\<lparr>db_source_files := update_where (\<lambda>f. f_id f = f_id existing)
      (\<lambda>_. apply_rediscovery d1 existing row) (db_source_files d1)\<rparr>)"
    if "rediscovery_updates L existing rf own = Inr row" for row
  proof -
    have "same_file existing (apply_rediscovery d1 existing row)" "f_status (apply_rediscovery d1 existing row) = f_status existing"
      using rediscovery_same [OF that] by (simp_all add: apply_rediscovery_def same_file_def)
    then show ?thesis using assms(2) key by (auto simp: quiet_def unseen_def intro!: quiet_rows)
  qed
  then show ?thesis using assms(2)
    by (auto simp: rediscover_def action_simps unseen_def split: sum.split)
qed

definition registers :: "database \<Rightarrow> bool \<Rightarrow> RegisteredSourceFile \<Rightarrow> database \<Rightarrow> bool" where
  "registers d own r d' \<longleftrightarrow> (if rs_already_registered r then quiet d d' else entered d (rs_source_file_id r) d') \<and>
     status_of d' (rs_source_file_id r) = Some (rs_status r) \<and>
     (own \<longrightarrow> db_lock d = Some (rs_source_file_id r))"

lemma source_row_wp:
  "wp (source_row sid) (\<lambda>row d'. d' = d \<and> source_file d sid = Some (fst row)) (\<lambda>_ _. True) d"
  by (auto simp: source_row_def action_simps split: option.split)

lemma source_file_id: "source_file d sid = Some f \<Longrightarrow> f_id f = sid"
  by (auto simp: source_file_def dest: find_in)

lemma registered_status:
  "source_file d sid = Some (fst row) \<Longrightarrow>
     rs_source_file_id (registered_source_file b row) = sid \<and> rs_already_registered (registered_source_file b row) = b \<and> status_of d sid = Some (rs_status (registered_source_file b row))"
  by (auto simp: registered_source_file_def status_of_def source_file_id split: prod.split)

lemma registration_registers:
  assumes "if b then quiet d d1 else entered d sid d1"
  shows "wp (registration own b sid) (registers d own) (\<lambda>_ _. True) d1"
proof -
  have lock: "db_lock d1 = db_lock d" using assms by (auto simp: quiet_def entered_def split: if_splits)
  have "wp (source_row sid) (\<lambda>row d'. (own \<longrightarrow> db_lock d = Some sid) \<longrightarrow> registers d own (registered_source_file b row) d')
      (\<lambda>_ _. True) d1"
    by (rule wp_mono [OF source_row_wp])
      (use assms registered_status in \<open>auto simp: registers_def\<close>)
  then show ?thesis
    by (auto simp: registration_def action_simps wp_areturn_eta lock intro: wp_mono)
qed

lemma register_in_portal_registers:
  assumes "ids_ok d" "unseen d d1" "retailer \<in> fst (parents d1)" "portal \<in> snd (parents d1)"
  shows "wp (register_in_portal L rf own retailer portal) (registers d own) (\<lambda>_ _. True) d1"
proof (cases "find (\<lambda>f. f_portal_id f = portal \<and> f_remote_id f = rf_remote_id rf) (db_source_files d1)")
  case None
  show ?thesis unfolding register_in_portal_def wp_abind wp_aget None option.case
    by (rule wp_mono [OF insert_source_file_enters [OF assms(2) None assms(3,4)]]) (simp_all add: registration_registers)
next
  case (Some f)
  then have f: "f \<in> set (db_source_files d)" using assms(2) by (auto simp: unseen_def dest: find_in)
  show ?thesis unfolding register_in_portal_def wp_abind wp_aget Some option.case
    by (rule wp_mono [OF rediscover_quiet [OF assms(1,2) f]]) (simp_all add: registration_registers)
qed

lemma register_discovery_registers:
  assumes "ids_ok d"
  shows "wp (register_discovery L rf own) (registers d own) (\<lambda>e d'. d' = d) d"
proof -
  have "wp (ensure_portal retailer rf) (\<lambda>portal. wp (register_in_portal L rf own retailer portal) (registers d own) (\<lambda>_ _. True))
      (\<lambda>_ _. True) d1" if "unseen d d1" "retailer \<in> fst (parents d1)" for d1 retailer
    by (rule wp_mono [OF ensure_portal_unseen [OF that]]) (simp_all add: register_in_portal_registers [OF assms])
  then have "wp (abind (ensure_retailer (rf_retailer_id rf)) (\<lambda>retailer_id.
        abind (ensure_portal retailer_id rf) (register_in_portal L rf own retailer_id))) (registers d own) (\<lambda>_ _. True) d"
    unfolding wp_abind by (intro wp_mono [OF ensure_retailer_unseen]) simp_all
  then show ?thesis unfolding register_discovery_def wp_transaction
    by (auto intro: wp_mono)
qed

lemma begin_replay_quiet: "wp (begin_replay sid version rebuild) (\<lambda>_ d'. quiet d d') (\<lambda>_ d'. d' = d) d"
  unfolding begin_replay_def maintenance_allows_def
  by (auto simp: action_simps wp_transaction quiet_def same_file_def list_all2_refl split: option.splits)

lemma finish_replay_quiet: "wp (finish_replay i ok ec) (\<lambda>_ d'. quiet d d') (\<lambda>_ d'. quiet d d') d"
  unfolding finish_replay_def
  by (auto simp: action_simps wp_transaction wp_areturn_eta quiet_def same_file_def list_all2_refl)

lemma get_file_same: "wp (get_file sid) (\<lambda>r d'. d' = d \<and> rs_source_file_id r = sid \<and> status_of d sid = Some (rs_status r))
   (\<lambda>_ d'. d' = d) d"
proof -
  have "wp (source_row sid) (\<lambda>row. wp (areturn (registered_source_file True row))
      (\<lambda>r d'. d' = d \<and> rs_source_file_id r = sid \<and> status_of d sid = Some (rs_status r)) (\<lambda>_ _. True)) (\<lambda>_ _. True) d"
    by (rule wp_mono [OF source_row_wp]) (auto simp: action_simps registered_status)
  then show ?thesis unfolding get_file_def wp_transaction wp_abind by (auto intro: wp_mono)
qed

text \<open>Under the lock of a file (or without any lock) its status can be read, and an allowed transition succeeds.\<close>

lemma source_row_total:
  assumes "store_inv d" "source_file d sid = Some f"
  shows "wp (source_row sid) (\<lambda>_ _. True) (\<lambda>_ _. False) d"
proof -
  have "has_parents d f" using assms source_file_ok(2) [OF assms] by (auto simp: store_inv_def)
  then have "find (\<lambda>r. re_id r = f_retailer_id f) (db_retailers d) \<noteq> None"
    "find (\<lambda>p. po_id p = f_portal_id f) (db_portals d) \<noteq> None"
    by (auto simp: has_parents_def parents_def find_None_iff)
  then show ?thesis using assms(2) by (auto simp: source_row_def action_simps)
qed

lemma get_file_total:
  assumes "store_inv d" "source_file d sid = Some f" "lock_admits d sid"
  shows "wp (get_file sid) (\<lambda>_ _. True) (\<lambda>_ _. False) d"
  using source_row_total [OF assms(1,2)] assms(3)
  unfolding get_file_def wp_transaction wp_abind by (auto simp: lock_admits_def wp_areturn_eta elim: wp_mono)

lemma move_run_total: "wp (move_run sid s t ec run) (\<lambda>_ _. True) (\<lambda>_ _. False) d"
  by (simp add: move_run_def action_simps insert_run_def)

lemma transition_total:
  assumes "store_inv d" "status_of d sid = Some c" "lock_admits d sid" "c \<in> set expected" "t \<in> ALLOWED_TRANSITIONS c"
    "\<not> code_too_long ec"
  shows "wp (transition sid expected t ec) (\<lambda>_ _. True) (\<lambda>_ _. False) d"
proof -
  obtain f where f: "source_file d sid = Some f" "f_status f = c" using assms(2) by (auto simp: status_of_def)
  note run = file_ok_current(1) [OF source_file_ok(3) [OF assms(1) f(1)]]
  have allowed: "ensure_ingestion_transition c t = Inr ()" using assms(5) by simp
  have "wp (move_file sid c t ec) (\<lambda>_ _. True) (\<lambda>_ _. False) d"
    unfolding move_file_def current_run_id_def wp_abind wp_of_result allowed sum.case wp_aget run option.case wp_areturn
    by (rule wp_mono [OF move_run_total]) (simp_all add: insert_event_def action_simps)
  then show ?thesis using assms(3,4,6) f
    by (auto simp: transition_def wp_transaction wp_abind wp_aget lock_admits_def)
qed

section \<open>Sequences of operations\<close>

text \<open>
  The calls the program makes on the store, in any order, by tasks with and without the lock of
  a file, with time passing in between. A call that raises ends; the others go on.
\<close>

datatype store_op =
    Register RemoteFile bool
  | Get nat
  | Transition nat "IngestionStatus list" IngestionStatus "string option"
  | RecordArchive nat ArchivedDownload ustr
  | BeginReplay nat ustr "nat option"
  | FinishReplay nat bool "string option"
  | Recover "nat list" int
  | SetLock "nat option"
  | Tick int

fun run_store :: "url_library \<Rightarrow> store_op \<Rightarrow> database \<Rightarrow> database" where
  "run_store L (Register rf own) d = snd (register_discovery L rf own d)"
| "run_store L (Get sid) d = snd (get_file sid d)"
| "run_store L (Transition sid expected t ec) d = snd (transition sid expected t ec d)"
| "run_store L (RecordArchive sid archived version) d = snd (record_archive sid archived version d)"
| "run_store L (BeginReplay sid version rebuild) d = snd (begin_replay sid version rebuild d)"
| "run_store L (FinishReplay i ok ec) d = snd (finish_replay i ok ec d)"
| "run_store L (Recover free stale_after) d = snd (recover_stale_jobs (\<lambda>sid. sid \<in> set free) stale_after d)"
| "run_store L (SetLock l) d = d\<lparr>db_lock := l\<rparr>"
| "run_store L (Tick n) d = d\<lparr>db_now := db_now d + n\<rparr>"

definition empty_database :: database where
  "empty_database = \<lparr>db_next_id = 0, db_now = 0, db_lock = None, db_retailers = [], db_portals = [],
     db_archive_objects = [], db_source_files = [], db_runs = [], db_events = [], db_replays = [],
     db_active_rebuild = None, db_rebuild_runs = []\<rparr>"

text \<open>One call is a number of steps of the ledger and keeps the invariant.\<close>

definition refines :: "database \<Rightarrow> database \<Rightarrow> bool" where
  "refines d d' \<longleftrightarrow> store_inv d' \<and> ledger_step\<^sup>*\<^sup>* (ledger_of d) (ledger_of d')"

lemma wp_snd: "wp m (\<lambda>_. P) (\<lambda>_. P) s \<longleftrightarrow> P (snd (m s))"
  by (auto simp: wp_def split: prod.splits sum.splits)

lemma refines_refl: "store_inv d \<Longrightarrow> refines d d"
  by (simp add: refines_def)

lemma refines_trans: "refines d e \<Longrightarrow> refines e g \<Longrightarrow> refines d g"
  by (auto simp: refines_def)

lemma quiet_refines: "store_inv d \<Longrightarrow> quiet d d' \<Longrightarrow> refines d d'"
  using quiet_inv [of d d'] by (simp add: refines_def)

lemma entered_refines: "store_inv d \<Longrightarrow> entered d sid d' \<Longrightarrow> refines d d'"
  using entered_inv [of d sid d'] ledger_step.enter [of "ledger_of d" sid] by (simp add: refines_def r_into_rtranclp)

lemma trail_end:
  assumes "store_inv d" "source_file d sid = Some f"
  obtains ts where "trail d sid = DISCOVERED # ts" "lifecycle DISCOVERED ts (f_status f)"
    "last (DISCOVERED # ts) = f_status f"
  using source_file_ok(3) [OF assms] lifecycle_last by (auto simp: file_ok_def trail_def)

lemma moved_refines:
  assumes "store_inv d" "moved d sid t d'"
  shows "refines d d'"
proof -
  obtain f where f: "source_file d sid = Some f" "t \<in> ALLOWED_TRANSITIONS (f_status f)"
    using assms(2) by (auto simp: moved_def)
  obtain ts where ts: "trail d sid = DISCOVERED # ts" "last (DISCOVERED # ts) = f_status f"
    using trail_end [OF assms(1) f(1)] by blast
  have "ledger_step (ledger_of d) ((ledger_of d)(sid \<mapsto> DISCOVERED # ts @ [t]))"
    by (rule ledger_step.move) (use f ts in \<open>simp_all add: ledger_of_def\<close>)
  then show ?thesis using moved_inv(1,2) [OF assms] ts(1) by (auto simp: refines_def)
qed

lemma has_parents_simps [simp]: "has_parents (d\<lparr>db_lock := l\<rparr>) = has_parents d" "has_parents (d\<lparr>db_now := n\<rparr>) = has_parents d"
  by (simp_all add: has_parents_def parents_def fun_eq_iff)

lemma locked_inv: "store_inv (d\<lparr>db_lock := l\<rparr>) = store_inv d" "ledger_of (d\<lparr>db_lock := l\<rparr>) = ledger_of d"
  by (simp_all add: store_inv_def ids_ok_def events_of_def runs_of_def ledger_of_def source_file_def trail_def fun_eq_iff)

lemma ticked_inv: "store_inv (d\<lparr>db_now := n\<rparr>) = store_inv d" "ledger_of (d\<lparr>db_now := n\<rparr>) = ledger_of d"
  by (simp_all add: store_inv_def ids_ok_def events_of_def runs_of_def ledger_of_def source_file_def trail_def fun_eq_iff)

lemma transition_refines: "store_inv d \<Longrightarrow> wp (transition sid expected t ec) (\<lambda>_. refines d) (\<lambda>_. refines d) d"
  by (rule wp_mono [OF transition_moves]) (auto intro: moved_refines refines_refl)

lemma wp_with_lock:
  "wp (with_lock sid m) Q E d \<longleftrightarrow>
     wp m (\<lambda>x t. Q x (t\<lparr>db_lock := db_lock d\<rparr>)) (\<lambda>e t. E e (t\<lparr>db_lock := db_lock d\<rparr>)) (d\<lparr>db_lock := Some sid\<rparr>)"
  by (auto simp: wp_def with_lock_def split: prod.splits sum.splits)

lemma refines_locked: "refines (d\<lparr>db_lock := l\<rparr>) e \<Longrightarrow> refines d (e\<lparr>db_lock := k\<rparr>)"
  by (simp add: refines_def locked_inv)

lemma with_lock_refines:
  "store_inv d \<Longrightarrow> wp (with_lock sid (transition sid expected t ec)) (\<lambda>_. refines d) (\<lambda>_. refines d) d"
  unfolding wp_with_lock
  by (rule wp_mono [OF transition_refines]) (auto simp: locked_inv intro: refines_locked)

lemma recover_loop_refines:
  "refines d d1 \<Longrightarrow> wp (recover_loop free rows n) (\<lambda>_. refines d) (\<lambda>_. refines d) d1"
proof (induction free rows n arbitrary: d1 rule: recover_loop.induct)
  case (2 free sid current rows n)
  show ?case
  proof (cases "free sid")
    case True
    have "wp (with_lock sid (transition sid [current] FAILED_RETRYABLE (Some ''stale_job_recovered'')))
        (\<lambda>_. refines d) (\<lambda>_. refines d) d1"
      by (rule wp_mono [OF with_lock_refines]) (use "2.prems" in \<open>auto simp: refines_def intro: refines_trans\<close>)
    then show ?thesis using True "2.IH"(2) "2.IH"(2) [where x = 0]
      by (auto simp: wp_abind wp_acatch wp_areturn_eta wp_if wp_araise wp_areturn elim!: wp_mono)
  qed (use 2 in simp)
qed (simp add: action_simps)

lemma run_store_refines:
  assumes "store_inv d"
  shows "refines d (run_store L op d)"
proof (cases op)
  case (Register rf own)
  have "wp (register_discovery L rf own) (\<lambda>_. refines d) (\<lambda>_. refines d) d"
    by (rule wp_mono [OF register_discovery_registers])
      (use assms in \<open>auto simp: store_inv_def registers_def split: if_splits intro: quiet_refines entered_refines refines_refl\<close>)
  then show ?thesis by (simp add: Register wp_snd)
next
  case (Get sid)
  have "wp (get_file sid) (\<lambda>_. refines d) (\<lambda>_. refines d) d"
    by (rule wp_mono [OF get_file_same]) (use assms in \<open>auto intro: refines_refl\<close>)
  then show ?thesis by (simp add: Get wp_snd)
next
  case (Transition sid expected t ec)
  then show ?thesis using transition_refines [OF assms] by (simp add: wp_snd)
next
  case (RecordArchive sid archived version)
  have "wp (record_archive sid archived version) (\<lambda>_. refines d) (\<lambda>_. refines d) d"
    by (rule wp_mono [OF record_archive_moves]) (use assms in \<open>auto intro: moved_refines refines_refl\<close>)
  then show ?thesis by (simp add: RecordArchive wp_snd)
next
  case (BeginReplay sid version rebuild)
  have "wp (begin_replay sid version rebuild) (\<lambda>_. refines d) (\<lambda>_. refines d) d"
    by (rule wp_mono [OF begin_replay_quiet]) (use assms in \<open>auto intro: quiet_refines refines_refl\<close>)
  then show ?thesis by (simp add: BeginReplay wp_snd)
next
  case (FinishReplay i ok ec)
  have "wp (finish_replay i ok ec) (\<lambda>_. refines d) (\<lambda>_. refines d) d"
    by (rule wp_mono [OF finish_replay_quiet]) (use assms in \<open>auto intro: quiet_refines\<close>)
  then show ?thesis by (simp add: FinishReplay wp_snd)
next
  case (Recover free stale)
  have "wp (recover_stale_jobs (\<lambda>sid. sid \<in> set free) stale) (\<lambda>_. refines d) (\<lambda>_. refines d) d"
    using refines_refl [OF assms] by (simp add: recover_stale_jobs_def action_simps recover_loop_refines)
  then show ?thesis by (simp add: Recover wp_snd)
qed (simp_all add: refines_def locked_inv ticked_inv assms)

lemma store_sequence: "store_inv d \<Longrightarrow> refines d (fold (run_store L) ops d)"
proof (induction ops arbitrary: d)
  case (Cons op ops)
  then show ?case using run_store_refines [of d L op] refines_trans by (auto simp: refines_def)
qed (simp add: refines_refl)

lemma empty_inv: "store_inv empty_database" "ledger_of empty_database = Map.empty"
  by (simp_all add: store_inv_def ids_ok_def empty_database_def ledger_of_def source_file_def fun_eq_iff)

section \<open>Calls and their results\<close>

text \<open>
  What a call on the store answers, and what the ledger promises for it. The ledger sees the trails and the lock; \<open>ledger_spec\<close> says for
  every call and every answer how they change. A transition is promised exactly when the lock admits it, the last status of the trail is
  expected and the lifecycle allows it.
\<close>

datatype store_result = RaisedWith exn | RegisteredAs RegisteredSourceFile | Returned | RecoveredFiles int

definition answer :: "('a \<Rightarrow> store_result) \<Rightarrow> (exn + 'a) \<times> database \<Rightarrow> store_result \<times> database" where
  "answer f x = (case fst x of Inl e \<Rightarrow> RaisedWith e | Inr y \<Rightarrow> f y, snd x)"

fun call_store :: "url_library \<Rightarrow> store_op \<Rightarrow> database \<Rightarrow> store_result \<times> database" where
  "call_store L (Register rf own) d = answer RegisteredAs (register_discovery L rf own d)"
| "call_store L (Get sid) d = answer RegisteredAs (get_file sid d)"
| "call_store L (Transition sid expected t ec) d = answer (\<lambda>_. Returned) (transition sid expected t ec d)"
| "call_store L (RecordArchive sid archived version) d = answer (\<lambda>_. Returned) (record_archive sid archived version d)"
| "call_store L (BeginReplay sid version rebuild) d = answer (\<lambda>_. Returned) (begin_replay sid version rebuild d)"
| "call_store L (FinishReplay i ok ec) d = answer (\<lambda>_. Returned) (finish_replay i ok ec d)"
| "call_store L (Recover free stale_after) d = answer RecoveredFiles (recover_stale_jobs (\<lambda>sid. sid \<in> set free) stale_after d)"
| "call_store L (SetLock l) d = (Returned, d\<lparr>db_lock := l\<rparr>)"
| "call_store L (Tick n) d = (Returned, d\<lparr>db_now := db_now d + n\<rparr>)"

lemma snd_call_store: "snd (call_store L op d) = run_store L op d"
  by (cases op) (simp_all add: answer_def)

type_synonym ledger_view = "ledger \<times> nat option"

definition view_of :: "database \<Rightarrow> ledger_view" where
  "view_of d = (ledger_of d, db_lock d)"

definition admitted :: "nat option \<Rightarrow> nat \<Rightarrow> bool" where
  "admitted k sid \<longleftrightarrow> k = None \<or> k = Some sid"

definition retried :: "nat set \<Rightarrow> ledger \<Rightarrow> ledger" where
  "retried S l = (\<lambda>sid. if sid \<in> S then map_option (\<lambda>us. us @ [FAILED_RETRYABLE]) (l sid) else l sid)"

fun ledger_spec :: "store_op \<Rightarrow> store_result \<Rightarrow> ledger_view \<Rightarrow> ledger_view \<Rightarrow> bool" where
  "ledger_spec (Register rf own) (RegisteredAs r) (l, k) v \<longleftrightarrow>
     (if rs_already_registered r then l (rs_source_file_id r) \<noteq> None \<and> v = (l, k)
      else l (rs_source_file_id r) = None \<and> v = (l(rs_source_file_id r \<mapsto> [DISCOVERED]), k)) \<and>
     map_option last (fst v (rs_source_file_id r)) = Some (rs_status r) \<and> (own \<longrightarrow> k = Some (rs_source_file_id r))"
| "ledger_spec (Get sid) (RegisteredAs r) (l, k) v \<longleftrightarrow> v = (l, k) \<and> rs_source_file_id r = sid \<and> map_option last (l sid) = Some (rs_status r)"
| "ledger_spec (Transition sid expected t ec) Returned (l, k) v \<longleftrightarrow> admitted k sid \<and>
     (\<exists>us. l sid = Some us \<and> last us \<in> set expected \<and> t \<in> ALLOWED_TRANSITIONS (last us) \<and> v = (l(sid \<mapsto> us @ [t]), k))"
| "ledger_spec (Transition sid expected t ec) (RaisedWith e) (l, k) v \<longleftrightarrow> v = (l, k) \<and>
     \<not> (\<not> code_too_long ec \<and> admitted k sid \<and> (\<exists>us. l sid = Some us \<and> last us \<in> set expected \<and> t \<in> ALLOWED_TRANSITIONS (last us)))"
| "ledger_spec (RecordArchive sid archived version) Returned (l, k) v \<longleftrightarrow> admitted k sid \<and>
     (\<exists>us. l sid = Some us \<and> last us = DOWNLOADING \<and> v = (l(sid \<mapsto> us @ [ARCHIVED]), k))"
| "ledger_spec (BeginReplay sid version rebuild) Returned (l, k) v \<longleftrightarrow> v = (l, k)"
| "ledger_spec (FinishReplay i ok ec) Returned (l, k) v \<longleftrightarrow> v = (l, k)"
| "ledger_spec (Recover free stale_after) (RecoveredFiles n) (l, k) v \<longleftrightarrow>
     (\<exists>S\<subseteq>set free. n = int (card S) \<and> (\<forall>sid\<in>S. \<exists>us. l sid = Some us \<and> last us \<in> set ACTIVE_STATUSES) \<and> v = (retried S l, k))"
| "ledger_spec (SetLock k') Returned (l, k) v \<longleftrightarrow> v = (l, k')"
| "ledger_spec (Tick n) Returned (l, k) v \<longleftrightarrow> v = (l, k)"
| "ledger_spec _ (RaisedWith e) (l, k) v \<longleftrightarrow> v = (l, k)"
| "ledger_spec _ _ _ _ \<longleftrightarrow> False"

text \<open>Runs of the specification, and the calls of a run of the store with their answers.\<close>

inductive spec_run :: "ledger_view \<Rightarrow> (store_op \<times> store_result) list \<Rightarrow> ledger_view \<Rightarrow> bool" where
  Nil: "spec_run v [] v"
| Cons: "ledger_spec op r v v' \<Longrightarrow> spec_run v' calls v'' \<Longrightarrow> spec_run v ((op, r) # calls) v''"

fun store_trace :: "url_library \<Rightarrow> store_op list \<Rightarrow> database \<Rightarrow> (store_op \<times> store_result) list" where
  "store_trace L [] d = []"
| "store_trace L (op # ops) d = (op, fst (call_store L op d)) # store_trace L ops (run_store L op d)"

lemma last_status:
  assumes "store_inv d"
  shows "map_option last (ledger_of d sid) = status_of d sid"
proof (cases "source_file d sid")
  case (Some f)
  from trail_end [OF assms Some] show ?thesis by (metis Some ledger_of_def option.distinct(1) option.map(2) status_of_def)
qed (simp add: status_of_def ledger_of_def)

lemma status_trail: "store_inv d \<Longrightarrow> status_of d sid = Some c \<Longrightarrow> \<exists>us. ledger_of d sid = Some us \<and> last us = c"
  using last_status [of d sid] by auto

lemma answer_wp: "wp m (\<lambda>y. P (f y)) (\<lambda>e. P (RaisedWith e)) s \<Longrightarrow> answer f (m s) = (r, s') \<Longrightarrow> P r s'"
  by (auto simp: answer_def wp_def split: prod.splits sum.splits)

lemma trail_ledger: "ledger_of d sid = Some us \<Longrightarrow> trail d sid = us"
  by (auto simp: ledger_of_def split: if_splits)

lemma moved_view:
  assumes "store_inv d" "moved d sid t d'" "ledger_of d sid = Some us"
  shows "view_of d' = ((ledger_of d)(sid \<mapsto> us @ [t]), db_lock d)"
  using moved_inv(2) [OF assms(1,2)] assms(2) trail_ledger [OF assms(3)] by (auto simp: view_of_def moved_def)

lemma moved_allowed: "moved d sid t d' \<Longrightarrow> status_of d sid = Some c \<Longrightarrow> t \<in> ALLOWED_TRANSITIONS c"
  by (auto simp: moved_def status_of_def)

lemma transition_spec:
  assumes "store_inv d"
  shows "wp (transition sid expected t ec) (\<lambda>_ d'. ledger_spec (Transition sid expected t ec) Returned (view_of d) (view_of d'))
     (\<lambda>e d'. ledger_spec (Transition sid expected t ec) (RaisedWith e) (view_of d) (view_of d')) d"
proof (cases "\<not> code_too_long ec \<and> lock_admits d sid \<and> (\<exists>c\<in>set expected. status_of d sid = Some c \<and> t \<in> ALLOWED_TRANSITIONS c)")
  case True
  then obtain c where c: "c \<in> set expected" "status_of d sid = Some c" "t \<in> ALLOWED_TRANSITIONS c" by blast
  have total: "wp (transition sid expected t ec) (\<lambda>_ _. True) (\<lambda>_ _. False) d"
    by (rule transition_total [OF assms c(2) _ c(1,3)]) (use True in simp_all)
  obtain us where us: "ledger_of d sid = Some us" "last us = c" using status_trail [OF assms c(2)] by blast
  show ?thesis using wp_conj [OF total transition_moves] moved_view [OF assms _ us(1)] c us True
    by (auto elim!: wp_mono simp: view_of_def admitted_def lock_admits_def)
next
  case False
  have "\<not> (\<not> code_too_long ec \<and> admitted (db_lock d) sid \<and>
      (\<exists>us. ledger_of d sid = Some us \<and> last us \<in> set expected \<and> t \<in> ALLOWED_TRANSITIONS (last us)))"
    using False last_status [OF assms, of sid] by (auto simp: admitted_def lock_admits_def)
  moreover have "wp (transition sid expected t ec) (\<lambda>_ _. False) (\<lambda>_ d'. d' = d) d"
  proof (cases "code_too_long ec")
    case True
    then show ?thesis by (simp add: transition_def action_simps)
  next
    case ok: False
    show ?thesis by (rule wp_mono [OF transition_moves]) (use False ok moved_allowed in auto)
  qed
  ultimately show ?thesis by (auto elim!: wp_mono simp: view_of_def)
qed

lemma quiet_view: "store_inv d \<Longrightarrow> quiet d d' \<Longrightarrow> view_of d' = view_of d"
  using quiet_inv(2) [of d d'] by (simp add: view_of_def quiet_def)

lemma registersD: "registers d own r d' \<Longrightarrow> quiet d d' \<or> entered d (rs_source_file_id r) d'"
  by (simp add: registers_def split: if_splits)

lemma registers_spec:
  assumes "store_inv d" "registers d own r d'"
  shows "ledger_spec (Register rf own) (RegisteredAs r) (view_of d) (view_of d')"
proof -
  have st: "status_of d' (rs_source_file_id r) = Some (rs_status r)" "own \<longrightarrow> db_lock d = Some (rs_source_file_id r)"
    using assms(2) by (simp_all add: registers_def)
  show ?thesis
  proof (cases "rs_already_registered r")
    case True
    then have q: "quiet d d'" using assms(2) by (simp add: registers_def)
    have "status_of d (rs_source_file_id r) = Some (rs_status r)" using quiet_inv(3) [OF assms(1) q] st(1) by simp
    with status_trail [OF assms(1)] show ?thesis using True st(2) quiet_view [OF assms(1) q] by (auto simp: view_of_def)
  next
    case False
    then have e: "entered d (rs_source_file_id r) d'" using assms(2) by (simp add: registers_def)
    have "rs_status r = DISCOVERED" using entered_inv(4) [OF assms(1) e] st(1) by simp
    then show ?thesis using False st(2) entered_inv(2,3) [OF assms(1) e] e by (auto simp: view_of_def entered_def)
  qed
qed

lemma recover_step:
  assumes "store_inv d" "status_of d sid = Some c" "c \<in> set ACTIVE_STATUSES"
  shows "wp (with_lock sid (transition sid [c] FAILED_RETRYABLE (Some ''stale_job_recovered'')))
     (\<lambda>_ d'. store_inv d' \<and> view_of d' = (retried {sid} (ledger_of d), db_lock d) \<and> status_of d' = (status_of d)(sid \<mapsto> FAILED_RETRYABLE))
     (\<lambda>_ _. False) d"
proof -
  let ?d = "d\<lparr>db_lock := Some sid\<rparr>"
  have inv: "store_inv ?d" "status_of ?d = status_of d" using assms(1) by (simp_all add: locked_inv status_of_def source_file_def fun_eq_iff)
  have "FAILED_RETRYABLE \<in> ALLOWED_TRANSITIONS c" "\<not> code_too_long (Some ''stale_job_recovered'')"
    using assms(3) by (auto simp: ACTIVE_STATUSES_def code_too_long_def)
  then have total: "wp (transition sid [c] FAILED_RETRYABLE (Some ''stale_job_recovered'')) (\<lambda>_ _. True) (\<lambda>_ _. False) ?d"
    by (intro transition_total [OF inv(1)]) (use assms(2) inv(2) in \<open>simp_all add: lock_admits_def\<close>)
  obtain us where us: "ledger_of d sid = Some us" using status_trail [OF assms(1,2)] by blast
  then have us': "ledger_of ?d sid = Some us" by (simp add: locked_inv)
  have "store_inv (d'\<lparr>db_lock := db_lock d\<rparr>) \<and> view_of (d'\<lparr>db_lock := db_lock d\<rparr>) = (retried {sid} (ledger_of d), db_lock d) \<and>
      status_of (d'\<lparr>db_lock := db_lock d\<rparr>) = (status_of d)(sid \<mapsto> FAILED_RETRYABLE)" if "moved ?d sid FAILED_RETRYABLE d'" for d'
  proof (intro conjI)
    show "store_inv (d'\<lparr>db_lock := db_lock d\<rparr>)" using moved_inv(1) [OF inv(1) that] by (simp add: locked_inv)
    show "view_of (d'\<lparr>db_lock := db_lock d\<rparr>) = (retried {sid} (ledger_of d), db_lock d)"
      using moved_view [OF inv(1) that us'] us by (auto simp: view_of_def locked_inv retried_def fun_eq_iff)
    show "status_of (d'\<lparr>db_lock := db_lock d\<rparr>) = (status_of d)(sid \<mapsto> FAILED_RETRYABLE)"
      using moved_inv(3) [OF inv(1) that] inv(2) by (simp add: status_of_def source_file_def fun_eq_iff)
  qed
  then show ?thesis unfolding wp_with_lock using wp_conj [OF total transition_moves] by (auto elim!: wp_mono)
qed

lemma recover_loop_spec:
  assumes "store_inv d" "distinct (map fst rows)" "\<forall>(sid, c)\<in>set rows. status_of d sid = Some c \<and> c \<in> set ACTIVE_STATUSES"
  shows "wp (recover_loop free rows n) (\<lambda>m d'. m = n + int (card {sid \<in> fst ` set rows. free sid}) \<and>
      view_of d' = (retried {sid \<in> fst ` set rows. free sid} (ledger_of d), db_lock d)) (\<lambda>_ _. False) d"
  using assms
proof (induction free rows n arbitrary: d rule: recover_loop.induct)
  case (1 free n)
  then show ?case by (simp add: action_simps view_of_def retried_def)
next
  case (2 free sid c rows n)
  have rows: "distinct (map fst rows)" "sid \<notin> fst ` set rows" using "2.prems"(2) by simp_all
  show ?case
  proof (cases "free sid")
    case False
    have "{x \<in> fst ` set ((sid, c) # rows). free x} = {x \<in> fst ` set rows. free x}" using False by auto
    then show ?thesis using False "2.IH"(1) [OF _ "2.prems"(1) rows(1)] "2.prems"(3) by simp
  next
    case True
    let ?S = "{x \<in> fst ` set rows. free x}"
    have S: "{x \<in> fst ` set ((sid, c) # rows). free x} = insert sid ?S" "sid \<notin> ?S" "finite ?S" using True rows(2) by auto
    have rest: "wp (recover_loop free rows (n + 1)) (\<lambda>m d'. m = n + int (card (insert sid ?S)) \<and>
        view_of d' = (retried (insert sid ?S) (ledger_of d), db_lock d)) (\<lambda>_ _. False) d1"
      if d1: "store_inv d1" "view_of d1 = (retried {sid} (ledger_of d), db_lock d)" "status_of d1 = (status_of d)(sid \<mapsto> FAILED_RETRYABLE)" for d1
    proof -
      have st: "\<forall>(x, c)\<in>set rows. status_of d1 x = Some c \<and> c \<in> set ACTIVE_STATUSES" using "2.prems"(3) rows(2) d1(3) by force
      have "retried ?S (ledger_of d1) = retried (insert sid ?S) (ledger_of d)"
        using d1(2) S(2) by (auto simp: view_of_def retried_def fun_eq_iff)
      then show ?thesis using "2.IH"(2) [OF _ d1(1) rows(1) st, of 1] True d1(2) S(2,3)
        by (auto simp: view_of_def ac_simps)
    qed
    have "wp (with_lock sid (transition sid [c] FAILED_RETRYABLE (Some ''stale_job_recovered'')))
       (\<lambda>_ d'. store_inv d' \<and> view_of d' = (retried {sid} (ledger_of d), db_lock d) \<and> status_of d' = (status_of d)(sid \<mapsto> FAILED_RETRYABLE))
       (\<lambda>_ _. False) d"
      by (rule recover_step [OF "2.prems"(1)]) (use "2.prems"(3) in simp_all)
    then show ?thesis unfolding S(1) using True
      by (auto simp: wp_abind wp_acatch wp_areturn_eta intro: rest elim!: wp_mono)
  qed
qed

lemma stale_rows:
  assumes "store_inv d"
  shows "distinct (map fst (stale_files t d))" "\<forall>(sid, c)\<in>set (stale_files t d). status_of d sid = Some c \<and> c \<in> set ACTIVE_STATUSES"
proof -
  let ?p = "\<lambda>f. f_status f \<in> set ACTIVE_STATUSES \<and> f_updated_at f < db_now d - t"
  have ids: "distinct (map f_id (db_source_files d))" using assms by (simp add: store_inv_def ids_ok_def)
  then have "distinct (map f_id (sort_key f_updated_at (sort_key f_id (filter ?p (db_source_files d)))))"
    by (simp add: distinct_map distinct_map_filter inj_on_def)
  then show "distinct (map fst (stale_files t d))" by (simp add: stale_files_def comp_def flip: take_map)
  have "status_of d (f_id f) = Some (f_status f)" if "f \<in> set (db_source_files d)" for f
    using find_key [of f_id "db_source_files d" f] ids that by (simp add: status_of_def source_file_def)
  then show "\<forall>(sid, c)\<in>set (stale_files t d). status_of d sid = Some c \<and> c \<in> set ACTIVE_STATUSES"
    by (auto simp: stale_files_def dest!: in_set_takeD)
qed

lemma recover_spec:
  assumes "store_inv d"
  shows "wp (recover_stale_jobs (\<lambda>sid. sid \<in> set free) stale_after)
     (\<lambda>n d'. ledger_spec (Recover free stale_after) (RecoveredFiles n) (view_of d) (view_of d')) (\<lambda>_ d'. d' = d) d"
proof -
  let ?rows = "stale_files stale_after d" and ?free = "\<lambda>sid. sid \<in> set free"
  have active: "\<exists>us. ledger_of d sid = Some us \<and> last us \<in> set ACTIVE_STATUSES" if "sid \<in> fst ` set ?rows" for sid
    using stale_rows(2) [OF assms, of stale_after] status_trail [OF assms, of sid] that by fastforce
  have "wp (recover_loop ?free ?rows 0) (\<lambda>n d'. ledger_spec (Recover free stale_after) (RecoveredFiles n) (view_of d) (view_of d')) (\<lambda>_ _. False) d"
    by (rule wp_mono [OF recover_loop_spec [OF assms stale_rows(1) [OF assms] stale_rows(2) [OF assms]]])
      (use active in \<open>auto simp: view_of_def intro!: exI [of _ "{sid \<in> fst ` set ?rows. sid \<in> set free}"]\<close>)
  then show ?thesis unfolding recover_stale_jobs_def by (auto simp: action_simps elim!: wp_mono)
qed

lemma call_spec:
  assumes inv: "store_inv d" and call: "call_store L op d = (r, d')"
  shows "ledger_spec op r (view_of d) (view_of d')"
proof (cases op)
  case (Register rf own)
  have "wp (register_discovery L rf own) (\<lambda>y d'. ledger_spec op (RegisteredAs y) (view_of d) (view_of d'))
      (\<lambda>e d'. ledger_spec op (RaisedWith e) (view_of d) (view_of d')) d"
    by (rule wp_mono [OF register_discovery_registers])
      (use inv Register registers_spec [OF inv] in \<open>auto simp: store_inv_def view_of_def\<close>)
  from answer_wp [OF this] show ?thesis using call Register by simp
next
  case (Get sid)
  have "wp (get_file sid) (\<lambda>y d'. ledger_spec op (RegisteredAs y) (view_of d) (view_of d'))
      (\<lambda>e d'. ledger_spec op (RaisedWith e) (view_of d) (view_of d')) d"
    by (rule wp_mono [OF get_file_same]) (use last_status [OF inv] Get in \<open>auto simp: view_of_def\<close>)
  from answer_wp [OF this] show ?thesis using call Get by simp
next
  case (Transition sid expected t ec)
  have "wp (transition sid expected t ec) (\<lambda>_ d'. ledger_spec op Returned (view_of d) (view_of d'))
      (\<lambda>e d'. ledger_spec op (RaisedWith e) (view_of d) (view_of d')) d"
    using transition_spec [OF inv] Transition by simp
  from answer_wp [OF this] show ?thesis using call Transition by simp
next
  case (RecordArchive sid archived version)
  have "wp (record_archive sid archived version) (\<lambda>_ d'. ledger_spec op Returned (view_of d) (view_of d'))
      (\<lambda>e d'. ledger_spec op (RaisedWith e) (view_of d) (view_of d')) d"
  proof (rule wp_mono [OF record_archive_moves])
    fix y d' assume m: "moved d sid ARCHIVED d' \<and> lock_admits d sid \<and> status_of d sid = Some DOWNLOADING"
    then obtain us where us: "ledger_of d sid = Some us" "last us = DOWNLOADING" using status_trail [OF inv] by blast
    from m have "view_of d' = ((ledger_of d)(sid \<mapsto> us @ [ARCHIVED]), db_lock d)" using moved_view [OF inv _ us(1)] by blast
    then show "ledger_spec op Returned (view_of d) (view_of d')"
      using us m by (simp add: RecordArchive view_of_def [of d] admitted_def lock_admits_def)
  qed (simp add: RecordArchive view_of_def)
  from answer_wp [OF this] show ?thesis using call RecordArchive by simp
next
  case (BeginReplay sid version rebuild)
  have "wp (begin_replay sid version rebuild) (\<lambda>_ d'. ledger_spec op Returned (view_of d) (view_of d'))
      (\<lambda>e d'. ledger_spec op (RaisedWith e) (view_of d) (view_of d')) d"
    by (rule wp_mono [OF begin_replay_quiet]) (simp_all add: BeginReplay quiet_view [OF inv] view_of_def [of d])
  from answer_wp [OF this] show ?thesis using call BeginReplay by simp
next
  case (FinishReplay i ok ec)
  have "wp (finish_replay i ok ec) (\<lambda>_ d'. ledger_spec op Returned (view_of d) (view_of d'))
      (\<lambda>e d'. ledger_spec op (RaisedWith e) (view_of d) (view_of d')) d"
    by (rule wp_mono [OF finish_replay_quiet]) (simp_all add: FinishReplay quiet_view [OF inv] view_of_def [of d])
  from answer_wp [OF this] show ?thesis using call FinishReplay by simp
next
  case (Recover free stale)
  have "wp (recover_stale_jobs (\<lambda>sid. sid \<in> set free) stale) (\<lambda>n d'. ledger_spec op (RecoveredFiles n) (view_of d) (view_of d'))
      (\<lambda>e d'. ledger_spec op (RaisedWith e) (view_of d) (view_of d')) d"
    by (rule wp_mono [OF recover_spec [OF inv]]) (use Recover in \<open>auto simp: view_of_def\<close>)
  from answer_wp [OF this] show ?thesis using call Recover by simp
qed (use call in \<open>auto simp: view_of_def locked_inv ticked_inv\<close>)

lemma trace_spec: "store_inv d \<Longrightarrow> spec_run (view_of d) (store_trace L ops d) (view_of (fold (run_store L) ops d))"
proof (induction ops arbitrary: d)
  case (Cons op ops)
  have "ledger_spec op (fst (call_store L op d)) (view_of d) (view_of (run_store L op d))"
    by (rule call_spec [OF Cons.prems]) (simp flip: snd_call_store)
  moreover have "store_inv (run_store L op d)" using run_store_refines [OF Cons.prems] by (simp add: refines_def)
  ultimately show ?case using Cons.IH by (auto intro: spec_run.intros)
qed (simp add: spec_run.Nil)

lemma ledger_step_ok: "ledger_step l l' \<Longrightarrow> ledger_ok l \<Longrightarrow> ledger_ok l'"
proof (induction rule: ledger_step.induct)
  case (move l sid s ts t)
  then obtain us where us: "s # ts = DISCOVERED # us" "lifecycle DISCOVERED us (last (s # ts))"
    unfolding ledger_ok_def by blast
  have "lifecycle DISCOVERED (us @ [t]) t" using us(2) move(2) by (auto simp: lifecycle_append)
  then show ?case using move(3) us(1) by (auto simp: ledger_ok_def)
qed (simp add: ledger_ok_def)

lemma ledger_steps_ok: "ledger_step\<^sup>*\<^sup>* l l' \<Longrightarrow> ledger_ok l \<Longrightarrow> ledger_ok l'"
  by (induction rule: rtranclp_induct) (auto intro: ledger_step_ok)

end
