(* ===== verification/Ingestion_Lifecycle.thy ===== *)
theory Ingestion_Lifecycle
  imports Source_Ledger
begin

text \<open>
  The contract between the ingestion service and its repository, and what the service makes of
  it. The contract observes the repository as a ledger (the trail of every file) with an owner
  (the file whose lock the task holds): a transition or an attached archive is a step of the
  ledger, every other call leaves it alone, and under the lock of a file its status can be read
  and an allowed transition succeeds. From this the service's guarantees follow, whatever the
  downloads, the archive, the parser and the apply do.
\<close>

section \<open>Contract\<close>

definition observed :: "('s \<Rightarrow> bool) \<Rightarrow> ('s \<Rightarrow> ledger) \<Rightarrow> ('s \<Rightarrow> nat option) \<Rightarrow> ledger \<Rightarrow> nat option \<Rightarrow> 's \<Rightarrow> bool" where
  "observed ok ledger owner l w s \<longleftrightarrow> ok s \<and> ledger s = l \<and> owner s = w"

definition leaves_alone :: "('s \<Rightarrow> bool) \<Rightarrow> ('s \<Rightarrow> ledger) \<Rightarrow> ('s \<Rightarrow> nat option) \<Rightarrow> ('s, exn, 'a) action \<Rightarrow> bool" where
  "leaves_alone ok ledger owner m \<longleftrightarrow> (\<forall>l w s. observed ok ledger owner l w s \<longrightarrow>
     wp m (\<lambda>_. observed ok ledger owner l w) (\<lambda>_. observed ok ledger owner l w) s)"

definition steps_to ::
    "('s \<Rightarrow> bool) \<Rightarrow> ('s \<Rightarrow> ledger) \<Rightarrow> ('s \<Rightarrow> nat option) \<Rightarrow> nat \<Rightarrow> IngestionStatus list \<Rightarrow> IngestionStatus \<Rightarrow>
     ('s, exn, 'a) action \<Rightarrow> bool" where
  "steps_to ok ledger owner sid expected t m \<longleftrightarrow> (\<forall>l w s. observed ok ledger owner l w s \<longrightarrow>
     wp m (\<lambda>_ s'. \<exists>ts. l sid = Some ts \<and> last ts \<in> set expected \<and> t \<in> ALLOWED_TRANSITIONS (last ts) \<and>
            observed ok ledger owner (l(sid \<mapsto> ts @ [t])) w s')
          (\<lambda>_. observed ok ledger owner l w) s)"

locale audited_repository =
  fixes repo :: "'s IngestionRepository" and ports :: "'s IngestionPorts"
    and ok :: "'s \<Rightarrow> bool" and ledger :: "'s \<Rightarrow> ledger" and owner :: "'s \<Rightarrow> nat option"
  assumes transition_steps: "steps_to ok ledger owner sid expected t (i_transition repo sid expected t ec)"
    and transition_succeeds: "observed ok ledger owner l (Some sid) s \<Longrightarrow> l sid = Some ts \<Longrightarrow> last ts \<in> set expected \<Longrightarrow>
      t \<in> ALLOWED_TRANSITIONS (last ts) \<Longrightarrow> \<not> code_too_long ec \<Longrightarrow>
      wp (i_transition repo sid expected t ec) (\<lambda>_ _. True) (\<lambda>_ _. False) s"
    and archive_steps: "steps_to ok ledger owner sid [DOWNLOADING] ARCHIVED (i_record_archive repo sid a v)"
    and get_reads: "observed ok ledger owner l (Some sid) s \<Longrightarrow> l sid = Some ts \<Longrightarrow>
      wp (i_get repo sid) (\<lambda>r s'. observed ok ledger owner l (Some sid) s' \<and> rs_status r = last ts) (\<lambda>_ _. False) s"
    and register_finds: "observed ok ledger owner l w s \<Longrightarrow>
      wp (i_register_discovery repo f own)
        (\<lambda>r s'. \<exists>l' ts. observed ok ledger owner l' w s' \<and> l' (rs_source_file_id r) = Some ts \<and> rs_status r = last ts \<and>
           (own \<longrightarrow> w = Some (rs_source_file_id r)) \<and>
           (l' = l \<or> l (rs_source_file_id r) = None \<and> l' = l(rs_source_file_id r \<mapsto> [DISCOVERED])))
        (\<lambda>_. observed ok ledger owner l w) s"
    and repository_alone: "leaves_alone ok ledger owner (i_assert_allowed repo rebuild)"
      "leaves_alone ok ledger owner (i_archive_sha256 repo sid)"
      "leaves_alone ok ledger owner (i_reuse_validated_staging repo sid v dt cf)"
      "leaves_alone ok ledger owner (i_stage repo sid es)"
      "leaves_alone ok ledger owner (i_finalize_staging repo sid dt)"
      "leaves_alone ok ledger owner (i_has_file_quarantine_issue repo sid)"
      "leaves_alone ok ledger owner (i_apply repo sid dt n q)"
    and ports_alone: "leaves_alone ok ledger owner (d_open ports f cap)"
      "leaves_alone ok ledger owner (a_put ports h name)"
      "leaves_alone ok ledger owner (d_finish ports h n)"
      "leaves_alone ok ledger owner (d_close ports h)"
      "leaves_alone ok ledger owner (a_verify ports k sha)"
      "leaves_alone ok ledger owner (a_open ports k)"
      "leaves_alone ok ledger owner (a_close ports k)"
    and parse_alone: "m \<in> set (a_parse ports sid f s) \<Longrightarrow> leaves_alone ok ledger owner m"
    and acquire_owns: "observed ok ledger owner l None s \<Longrightarrow>
      wp (l_acquire ports sid) (\<lambda>b s'. observed ok ledger owner l (if b then Some sid else None) s')
        (\<lambda>_. observed ok ledger owner l None) s"
    and release_disowns: "observed ok ledger owner l w s \<Longrightarrow> w = None \<or> w = Some sid \<Longrightarrow>
      wp (l_release ports sid) (\<lambda>_. observed ok ledger owner l None) (\<lambda>_ _. False) s"
begin

text \<open>
  \<open>mine l sid\<close>: the task owns the file and has changed no other trail since \<open>l\<close>.
\<close>

definition mine :: "ledger \<Rightarrow> nat \<Rightarrow> 's \<Rightarrow> bool" where
  "mine l sid s \<longleftrightarrow> (\<exists>ts. observed ok ledger owner (l(sid \<mapsto> ts)) (Some sid) s)"

definition rests :: "nat \<Rightarrow> 's \<Rightarrow> bool" where
  "rests sid s \<longleftrightarrow> (\<exists>ts. ledger s sid = Some ts \<and> last ts \<in> {COMPLETED, QUARANTINED, FAILED_RETRYABLE, FAILED_TERMINAL})"

lemma mine_alone: "leaves_alone ok ledger owner m \<Longrightarrow> keeps (mine l sid) m"
  unfolding leaves_alone_def mine_def keeps_def by (blast intro: wp_mono)

lemma mine_steps:
  assumes "steps_to ok ledger owner sid expected t m"
  shows "keeps (mine l sid) m"
  unfolding keeps_def
proof (intro allI impI)
  fix s assume "mine l sid s"
  then obtain ts where ts: "observed ok ledger owner (l(sid \<mapsto> ts)) (Some sid) s" by (auto simp: mine_def)
  have "wp m (\<lambda>_ s'. \<exists>us. (l(sid \<mapsto> ts)) sid = Some us \<and> last us \<in> set expected \<and> t \<in> ALLOWED_TRANSITIONS (last us) \<and>
      observed ok ledger owner ((l(sid \<mapsto> ts))(sid \<mapsto> us @ [t])) (Some sid) s')
      (\<lambda>_. observed ok ledger owner (l(sid \<mapsto> ts)) (Some sid)) s"
    using assms ts unfolding steps_to_def by blast
  then show "wp m (\<lambda>_. mine l sid) (\<lambda>_. mine l sid) s" by (rule wp_mono) (use ts in \<open>auto simp: mine_def\<close>)
qed

lemmas mine_calls = repository_alone [THEN mine_alone] ports_alone [THEN mine_alone]
  transition_steps [THEN mine_steps] archive_steps [THEN mine_steps]

text \<open>The transition that follows a known one.\<close>

definition moved_on :: "ledger \<Rightarrow> nat \<Rightarrow> IngestionStatus list \<Rightarrow> 's \<Rightarrow> bool" where
  "moved_on l sid us s \<longleftrightarrow> (\<exists>ts. observed ok ledger owner (l(sid \<mapsto> ts @ us)) (Some sid) s)"

lemma moved_on_mine: "moved_on l sid us s \<Longrightarrow> mine l sid s"
  by (auto simp: moved_on_def mine_def)

lemma mine_moved_on: "mine l sid s \<longleftrightarrow> moved_on l sid [] s"
  by (simp add: moved_on_def mine_def)

lemma moved_on_alone: "leaves_alone ok ledger owner m \<Longrightarrow> keeps (moved_on l sid us) m"
  unfolding leaves_alone_def moved_on_def keeps_def by (blast intro: wp_mono)

lemmas moved_on_calls = repository_alone [THEN moved_on_alone] ports_alone [THEN moved_on_alone]

lemma moved_on_transition:
  assumes "moved_on l sid us s"
  shows "wp (transition_if True repo sid expected t) (\<lambda>_. moved_on l sid (us @ [t])) (\<lambda>_. mine l sid) s"
proof -
  obtain ts where ts: "observed ok ledger owner (l(sid \<mapsto> ts @ us)) (Some sid) s"
    using assms by (auto simp: moved_on_def)
  have "wp (i_transition repo sid expected t None) (\<lambda>_ s'. \<exists>vs. (l(sid \<mapsto> ts @ us)) sid = Some vs \<and> last vs \<in> set expected \<and>
      t \<in> ALLOWED_TRANSITIONS (last vs) \<and> observed ok ledger owner ((l(sid \<mapsto> ts @ us))(sid \<mapsto> vs @ [t])) (Some sid) s')
      (\<lambda>_. observed ok ledger owner (l(sid \<mapsto> ts @ us)) (Some sid)) s"
    using transition_steps ts unfolding steps_to_def by blast
  then show ?thesis unfolding transition_if_def if_True
    by (rule wp_mono) (use ts in \<open>auto simp: mine_def moved_on_def\<close>)
qed

subsection \<open>Download\<close>

lemma keeps_dcall: "keeps I m \<Longrightarrow> keeps (\<lambda>c. I (d_world c)) (dcall m)"
  by (auto simp: keeps_def wp_def dcall_def split: prod.splits sum.splits)

lemma download_once_mine:
  assumes "rs_source_file_id r = sid"
  shows "keeps (\<lambda>c. mine l sid (d_world c)) (download_once repo ports r m)"
  unfolding download_once_def Let_def assms
  by (intro keeps_intros keeps_dcall mine_calls) simp_all

lemma download_failed_mine: "keeps (\<lambda>c. mine l sid (d_world c)) (download_failed ports e)"
  unfolding download_failed_def by (intro keeps_intros) simp_all

lemma download_loop_mine:
  assumes "rs_source_file_id r = sid"
  shows "keeps (\<lambda>c. mine l sid (d_world c)) (download_loop n repo ports r m)"
proof (induction n)
  case (Suc n)
  show ?case unfolding download_loop.simps download_attempt_def catch_exception_def
    by (intro keeps_intros download_once_mine [OF assms] download_failed_mine Suc.IH) simp_all
qed (simp add: keeps_intros)

lemma download_and_archive_mine:
  assumes "rs_source_file_id r = sid"
  shows "keeps (mine l sid) (download_and_archive p repo ports r m)"
proof -
  have "keeps (mine l sid) (\<lambda>s. case download_loop n repo ports r m \<lparr>d_total = 0, d_attempt = 0, d_session = None, d_world = s\<rparr> of
      (x, c) \<Rightarrow> (x, d_world c))" for n
    using keeps_wp [OF download_loop_mine [OF assms, of l n m]]
    by (auto simp: keeps_def wp_def split: prod.splits sum.splits)
      (metis (mono_tags, lifting) drun.select_convs(4) old.prod.case old.sum.simps)+
  then show ?thesis unfolding download_and_archive_def assms by (intro keeps_intros mine_calls)
qed

lemma ensure_archived_mine:
  assumes "rs_source_file_id r = sid"
  shows "keeps (mine l sid) (ensure_archived p repo ports r m)"
  unfolding ensure_archived_def assms
  by (intro keeps_intros mine_calls download_and_archive_mine assms)

lemma yields_then: "yields P m \<Longrightarrow> (\<And>x. P x \<Longrightarrow> yields Q (k x)) \<Longrightarrow> yields Q (abind m k)"
  unfolding yields_def wp_abind by (auto intro: wp_mono)

lemma download_once_charge: "yields (\<lambda>x. 0 \<le> ad_transferred_bytes (fst x)) (download_once repo ports r m)"
proof -
  have charged: "yields (\<lambda>x. 0 \<le> ad_transferred_bytes (fst x))
      (abind (of_result (ArchivedDownload_post_init a)) (\<lambda>d. areturn (d, b)))" for a b
    by (rule yields_of_result) (auto simp: ArchivedDownload_post_init_def err_def yields_def action_simps split: if_splits)
  show ?thesis unfolding download_once_def Let_def
    by (intro yields_abind) (auto simp: yields_basic intro!: yields_abind yields_afinally charged)
qed

lemma download_loop_charge: "yields (\<lambda>x. 0 \<le> ad_transferred_bytes (fst x)) (download_loop n repo ports r m)"
proof (induction n)
  case (Suc n)
  have failed: "yields (\<lambda>x. 0 \<le> ad_transferred_bytes (fst x)) (download_failed ports e)" for e
    unfolding download_failed_def by (intro yields_abind) (auto simp: yields_def action_simps split: sum.split)
  show ?case unfolding download_loop.simps download_attempt_def catch_exception_def
    by (intro yields_acatch yields_abind download_once_charge) (auto simp: yields_basic failed Suc.IH)
qed (simp add: yields_basic)

lemma download_and_archive_charge:
  "yields (\<lambda>x. 0 \<le> ad_transferred_bytes (fst x)) (download_and_archive p repo ports r m)"
proof -
  have "yields (\<lambda>x. 0 \<le> ad_transferred_bytes (fst x)) (\<lambda>s. case download_loop n repo ports r m (c s) of
      (x, c) \<Rightarrow> (x, d_world c))" for n c
  proof (unfold yields_def wp_def, rule allI)
    fix s
    from download_loop_charge [of n r m, unfolded yields_def wp_def, THEN spec, of "c s"]
    show "case (case download_loop n repo ports r m (c s) of (x, c) \<Rightarrow> (x, d_world c)) of
        (Inl e, t) \<Rightarrow> True | (Inr x, t) \<Rightarrow> 0 \<le> ad_transferred_bytes (fst x)"
      by (cases "download_loop n repo ports r m (c s)") simp
  qed
  then show ?thesis unfolding download_and_archive_def by (intro yields_abind)
qed

lemma ensure_archived_charge: "yields (\<lambda>(_, _, _, n). 0 \<le> n) (ensure_archived p repo ports r m)"
  unfolding ensure_archived_def
  by (auto simp: yields_basic intro!: yields_abind yields_then [OF download_and_archive_charge] split: option.split)

subsection \<open>Staging and apply\<close>

lemma stage_event_moved_on: "keeps (moved_on l sid us) (stage_event p repo sid e b)"
  unfolding stage_event_def add_event_def flush_batch_def Let_def by (intro keeps_intros moved_on_calls)

lemma stage_loop_moved_on:
  "(\<And>m. m \<in> set steps \<Longrightarrow> leaves_alone ok ledger owner m) \<Longrightarrow> keeps (moved_on l sid us) (stage_loop p repo sid steps b)"
proof (induction steps arbitrary: b)
  case (Cons m steps)
  show ?case unfolding stage_loop.simps
    by (rule keeps_abind [OF moved_on_alone keeps_abind [OF stage_event_moved_on Cons.IH]]) (simp_all add: Cons.prems)
qed (simp add: keeps_intros)

lemma parse_moved_on:
  "keeps (moved_on l sid us) (abind (aget (a_parse ports sid f)) (\<lambda>steps. stage_loop p repo sid steps b))"
  unfolding keeps_def wp_abind wp_aget
  by (auto intro!: keeps_wp stage_loop_moved_on intro: parse_alone)

lemma parse_and_stage_moved_on: "keeps (moved_on l sid us) (parse_and_stage p repo ports sid f k)"
  unfolding parse_and_stage_def flush_batch_def by (intro keeps_intros moved_on_calls parse_moved_on)

text \<open>The steps of a file that goes through are exactly the rest of the lifecycle.\<close>

lemma parse_validate_apply_completes:
  assumes "mine l sid s"
  shows "wp (parse_validate_apply p repo ports sid f k True)
     (\<lambda>_. moved_on l sid [PARSING, STAGED, VALIDATING, APPLYING, COMPLETED]) (\<lambda>_. mine l sid) s"
proof -
  have step: "wp (abind (transition_if True repo sid expected t) g) Q (\<lambda>_. mine l sid) s"
    if "moved_on l sid us s" "\<And>s. moved_on l sid (us @ [t]) s \<Longrightarrow> wp (g ()) Q (\<lambda>_. mine l sid) s"
    for us t expected s Q and g :: "unit \<Rightarrow> ('s, exn, 'b) action"
    unfolding wp_abind by (rule wp_mono [OF moved_on_transition [OF that(1)]]) (use that(2) in auto)
  have quietly: "wp (abind m g) Q (\<lambda>_. mine l sid) s"
    if "keeps (moved_on l sid us) m" "moved_on l sid us s" "\<And>x s. moved_on l sid us s \<Longrightarrow> wp (g x) Q (\<lambda>_. mine l sid) s"
    for us s Q and m :: "('s, exn, 'c) action" and g :: "'c \<Rightarrow> ('s, exn, 'b) action"
    unfolding wp_abind by (rule wp_mono [OF keeps_wp [OF that(1,2)]]) (use that(3) moved_on_mine in auto)
  show ?thesis unfolding parse_validate_apply_def
    apply (rule step [of "[]"], use assms in \<open>simp add: mine_moved_on\<close>)
    apply (rule quietly [OF parse_and_stage_moved_on], assumption)
    apply (rule step, assumption)+
    apply (rule quietly [OF repository_alone(6) [THEN moved_on_alone]], assumption)
    apply (simp only: wp_if wp_araise split: if_split, intro conjI impI, (erule moved_on_mine)+)
    apply (rule step, assumption)
    apply (rule quietly [OF repository_alone(7) [THEN moved_on_alone]], assumption)
    apply (rule step, assumption)
    apply (simp add: wp_areturn)
    done
qed

subsection \<open>Failures\<close>

lemma error_code_short: "\<not> code_too_long (Some (error_code e))"
proof -
  have "length (error_code e) \<le> 128" by (cases "exn_class e") (simp_all add: error_code_def)
  then show ?thesis by (simp add: code_too_long_def)
qed

text \<open>The recorded status is always one the lifecycle allows, but for a retry that fails before it begins.\<close>

lemma failure_target_allowed:
  "c \<notin> {COMPLETED, QUARANTINED, FAILED_TERMINAL} \<Longrightarrow>
     failure_target e c \<in> ALLOWED_TRANSITIONS c \<or> c = FAILED_RETRYABLE \<and> failure_target e c = FAILED_RETRYABLE"
  by (cases c) (auto simp: failure_target_def)

lemma failure_target_rests: "failure_target e c \<in> {COMPLETED, QUARANTINED, FAILED_RETRYABLE, FAILED_TERMINAL}"
  by (simp add: failure_target_def)

definition settled :: "ledger \<Rightarrow> nat \<Rightarrow> 's \<Rightarrow> bool" where
  "settled l sid s \<longleftrightarrow> (\<exists>ts. observed ok ledger owner (l(sid \<mapsto> ts)) (Some sid) s \<and>
     last ts \<in> {COMPLETED, QUARANTINED, FAILED_RETRYABLE, FAILED_TERMINAL})"

lemma record_failure_settles:
  assumes "mine l sid s"
  shows "wp (record_failure repo sid e) (\<lambda>_. settled l sid) (\<lambda>_. settled l sid) s"
proof -
  obtain ts where ts: "observed ok ledger owner (l(sid \<mapsto> ts)) (Some sid) s" using assms by (auto simp: mine_def)
  have "wp (i_transition repo sid [last ts] (failure_target e (last ts)) (Some (error_code e)))
      (\<lambda>_. settled l sid) (\<lambda>_. settled l sid) s'"
    if s': "observed ok ledger owner (l(sid \<mapsto> ts)) (Some sid) s'" "last ts \<notin> {COMPLETED, QUARANTINED, FAILED_TERMINAL}" for s'
  proof -
    let ?t = "failure_target e (last ts)"
    have step: "wp (i_transition repo sid [last ts] ?t (Some (error_code e)))
        (\<lambda>_ s''. \<exists>us. (l(sid \<mapsto> ts)) sid = Some us \<and> last us \<in> set [last ts] \<and> ?t \<in> ALLOWED_TRANSITIONS (last us) \<and>
          observed ok ledger owner ((l(sid \<mapsto> ts))(sid \<mapsto> us @ [?t])) (Some sid) s'')
        (\<lambda>_. observed ok ledger owner (l(sid \<mapsto> ts)) (Some sid)) s'"
      using transition_steps s'(1) unfolding steps_to_def by blast
    show ?thesis
    proof (cases "?t \<in> ALLOWED_TRANSITIONS (last ts)")
      case True
      have "wp (i_transition repo sid [last ts] ?t (Some (error_code e))) (\<lambda>_ _. True) (\<lambda>_ _. False) s'"
        by (rule transition_succeeds [OF s'(1)]) (use True error_code_short in auto)
      from wp_conj [OF step this] show ?thesis
        by (rule wp_mono) (use failure_target_rests [of e "last ts"] in \<open>fastforce simp: settled_def\<close>)+
    next
      case False
      then have "last ts = FAILED_RETRYABLE" using failure_target_allowed [OF s'(2), of e] by blast
      then show ?thesis using False by (intro wp_mono [OF step]) (auto simp: settled_def)
    qed
  qed
  moreover have "settled l sid s'" if "observed ok ledger owner (l(sid \<mapsto> ts)) (Some sid) s'"
    "last ts \<in> {COMPLETED, QUARANTINED, FAILED_TERMINAL}" for s' using that by (auto simp: settled_def)
  ultimately show ?thesis unfolding record_failure_def wp_abind
    by (intro wp_mono [OF get_reads [OF ts]]) (auto simp: wp_if wp_areturn)
qed

lemma ingest_failed_settles:
  assumes "mine l sid s" "0 \<le> n"
  shows "wp (ingest_failed repo sid n e) (\<lambda>_ _. False) (\<lambda>_. settled l sid) s"
proof -
  have "wp (abind (record_failure repo sid e') (\<lambda>_. araise e')) (\<lambda>_ _. False) (\<lambda>_. settled l sid) s" for e'
    unfolding wp_abind by (rule wp_mono [OF record_failure_settles [OF assms(1)]]) (simp_all add: wp_araise)
  then show ?thesis using assms(2)
    by (auto simp: ingest_failed_def wp_abind [of "of_result _"] wp_of_result MakoletError_init_def)
qed

text \<open>A guarded block: an exception is recorded, a cancellation is not.\<close>

definition ended :: "ledger \<Rightarrow> nat \<Rightarrow> exn \<Rightarrow> 's \<Rightarrow> bool" where
  "ended l sid e s \<longleftrightarrow> (if exn_class e = CancelledError then mine l sid s \<or> settled l sid s else settled l sid s)"

lemma guarded_ends:
  assumes "wp m Q (\<lambda>_. mine l sid) s" "0 \<le> n"
  shows "wp (catch_exception m (ingest_failed repo sid n)) Q (ended l sid) s"
  unfolding catch_exception_def wp_acatch
  by (rule wp_mono [OF assms(1)])
    (auto simp: ended_def wp_if wp_araise intro!: wp_mono [OF ingest_failed_settles [OF _ assms(2)]])

subsection \<open>The service\<close>

text \<open>
  What a return promises: the file is completed, and when it was processed now its trail ends with the
  steps of the lifecycle from parsing on.
\<close>

definition ingested :: "ledger \<Rightarrow> nat \<Rightarrow> IngestionResult \<Rightarrow> ledger \<Rightarrow> bool" where
  "ingested l sid r l' \<longleftrightarrow> ir_source_file_id r = sid \<and> ir_status r = COMPLETED \<and>
     (\<exists>ts. l' = l(sid \<mapsto> ts) \<and> last ts = COMPLETED \<and>
       (ir_stage r \<noteq> None \<longrightarrow> (\<exists>us. ts = us @ [PARSING, STAGED, VALIDATING, APPLYING, COMPLETED])))"

definition raised :: "ledger \<Rightarrow> exn \<Rightarrow> ledger \<Rightarrow> bool" where
  "raised l e l' \<longleftrightarrow> (exn_class e \<noteq> CancelledError \<longrightarrow> (\<forall>k. l' k \<noteq> l k \<longrightarrow> (\<exists>ts. l' k = Some ts \<and>
     (l k = None \<and> ts = [DISCOVERED] \<or> last ts \<in> {COMPLETED, QUARANTINED, FAILED_RETRYABLE, FAILED_TERMINAL}))))"

definition owned_end :: "ledger \<Rightarrow> nat \<Rightarrow> IngestionResult \<Rightarrow> 's \<Rightarrow> bool" where
  "owned_end l sid r s \<longleftrightarrow> (\<exists>l'. observed ok ledger owner l' (Some sid) s \<and> ingested l sid r l')"

definition owned_raise :: "ledger \<Rightarrow> nat \<Rightarrow> exn \<Rightarrow> 's \<Rightarrow> bool" where
  "owned_raise l sid e s \<longleftrightarrow> (\<exists>l'. observed ok ledger owner l' (Some sid) s \<and> raised l e l')"

lemma ended_raise: "ended l sid e s \<Longrightarrow> owned_raise l sid e s"
  by (fastforce simp: ended_def mine_def settled_def owned_raise_def raised_def split: if_splits)

lemma raised_same: "raised l e l"
  by (simp add: raised_def)

lemma completed_end:
  assumes "moved_on l sid [PARSING, STAGED, VALIDATING, APPLYING, COMPLETED] s"
    and "ir_source_file_id r = sid" "ir_status r = COMPLETED"
  shows "owned_end l sid r s"
  using assms by (fastforce simp: moved_on_def owned_end_def ingested_def)

lemma register_owned:
  assumes "observed ok ledger owner l (Some sid) s"
  shows "wp (i_register_discovery repo f True)
     (\<lambda>r s'. rs_source_file_id r = sid \<and> mine l sid s' \<and> (rs_status r = COMPLETED \<longrightarrow> (\<exists>ts. last ts = COMPLETED \<and>
        observed ok ledger owner (l(sid \<mapsto> ts)) (Some sid) s')))
     (\<lambda>e. owned_raise l sid e) s"
proof (rule wp_mono [OF register_finds [OF assms]])
  fix r s' assume "\<exists>l' ts. observed ok ledger owner l' (Some sid) s' \<and> l' (rs_source_file_id r) = Some ts \<and> rs_status r = last ts \<and>
     (True \<longrightarrow> Some sid = Some (rs_source_file_id r)) \<and>
     (l' = l \<or> l (rs_source_file_id r) = None \<and> l' = l(rs_source_file_id r \<mapsto> [DISCOVERED]))"
  then obtain l' ts where r: "observed ok ledger owner l' (Some sid) s'" "l' sid = Some ts" "rs_status r = last ts"
    "rs_source_file_id r = sid" "l' = l \<or> l' = l(sid \<mapsto> [DISCOVERED])" by auto
  then have "l' = l(sid \<mapsto> ts)" by auto
  then show "rs_source_file_id r = sid \<and> mine l sid s' \<and> (rs_status r = COMPLETED \<longrightarrow> (\<exists>ts. last ts = COMPLETED \<and>
        observed ok ledger owner (l(sid \<mapsto> ts)) (Some sid) s'))"
    using r by (auto simp: mine_def)
qed (use assms raised_same in \<open>auto simp: owned_raise_def\<close>)

lemma ingested_result_Inr:
  "ingested_result sid st sha stage applied dup rep n = Inr r \<Longrightarrow>
     ir_source_file_id r = sid \<and> ir_status r = st \<and> ir_stage r = stage"
  by (auto simp: ingested_result_def IngestionResult_post_init_def err_def split: if_splits)

lemma guarded_archive:
  assumes "mine l sid s" "rs_source_file_id r = sid"
  shows "wp (catch_exception (ensure_archived p repo ports r m) (ingest_failed repo sid 0))
     (\<lambda>(_, _, _, n) s. mine l sid s \<and> 0 \<le> n) (owned_raise l sid) s"
proof -
  have "wp (ensure_archived p repo ports r m) (\<lambda>(_, _, _, n) s. mine l sid s \<and> 0 \<le> n) (\<lambda>_. mine l sid) s"
    using wp_conj [OF keeps_wp [OF ensure_archived_mine [OF assms(2)] assms(1)]
        ensure_archived_charge [of p r m, unfolded yields_def, THEN spec, of s]]
    by (rule wp_mono) auto
  from guarded_ends [OF this] show ?thesis by (auto intro: wp_mono ended_raise)
qed

lemma guarded_apply:
  assumes "mine l sid s" "0 \<le> n"
  shows "wp (catch_exception
        (abind (parse_validate_apply p repo ports sid f k True) (\<lambda>(stage, applied).
           of_result (ingested_result sid COMPLETED sha (Some stage) (Some applied) dup False n)))
        (ingest_failed repo sid n)) (owned_end l sid) (owned_raise l sid) s"
proof -
  have "wp (abind (parse_validate_apply p repo ports sid f k True) (\<lambda>(stage, applied).
      of_result (ingested_result sid COMPLETED sha (Some stage) (Some applied) dup False n)))
      (owned_end l sid) (\<lambda>_. mine l sid) s"
    unfolding wp_abind
    by (rule wp_mono [OF parse_validate_apply_completes [OF assms(1)]])
      (auto simp: wp_case_prod wp_of_result moved_on_mine intro!: completed_end dest!: ingested_result_Inr split: sum.split)
  from guarded_ends [OF this assms(2)] show ?thesis by (auto intro: wp_mono ended_raise)
qed

lemma ingest_owned_ends:
  assumes "observed ok ledger owner l (Some sid) s"
  shows "wp (ingest_owned p repo ports f m) (owned_end l sid) (owned_raise l sid) s"
  unfolding ingest_owned_def wp_abind [of "i_register_discovery _ _ _"]
proof (rule wp_mono [OF register_owned [OF assms]])
  fix r :: RegisteredSourceFile and s' assume r: "rs_source_file_id r = sid \<and> mine l sid s' \<and> (rs_status r = COMPLETED \<longrightarrow> (\<exists>ts. last ts = COMPLETED \<and>
        observed ok ledger owner (l(sid \<mapsto> ts)) (Some sid) s'))"
  have "wp (abind (catch_exception (ensure_archived p repo ports r m) (ingest_failed repo sid 0))
         (\<lambda>(object_key, sha, duplicate, transferred).
           catch_exception
             (abind (parse_validate_apply p repo ports sid (rs_remote_file r) object_key True) (\<lambda>(stage, applied).
                of_result (ingested_result sid COMPLETED sha (Some stage) (Some applied) duplicate False transferred)))
             (ingest_failed repo sid transferred))) (owned_end l sid) (owned_raise l sid) s'"
    unfolding wp_abind [of "catch_exception _ _"]
    by (rule wp_mono [OF guarded_archive]) (use r in \<open>auto intro: guarded_apply\<close>)
  moreover have "owned_end l sid (duplicate_result sid x) s'" if "rs_status r = COMPLETED" for x
    using r that by (fastforce simp: owned_end_def ingested_def duplicate_result_def)
  ultimately show "wp (if rs_status r = COMPLETED
       then areturn (duplicate_result (rs_source_file_id r) (rs_content_sha256 r))
       else let sid = rs_source_file_id r in
         abind (catch_exception (ensure_archived p repo ports r m) (ingest_failed repo sid 0))
         (\<lambda>(object_key, sha, duplicate, transferred).
           catch_exception
             (abind (parse_validate_apply p repo ports sid (rs_remote_file r) object_key True) (\<lambda>(stage, applied).
                of_result (ingested_result sid COMPLETED sha (Some stage) (Some applied) duplicate False transferred)))
             (ingest_failed repo sid transferred))) (owned_end l sid) (owned_raise l sid) s'"
    using r by (simp add: wp_if wp_areturn Let_def)
qed simp

definition free_end :: "ledger \<Rightarrow> nat \<Rightarrow> IngestionResult \<Rightarrow> 's \<Rightarrow> bool" where
  "free_end l sid r s \<longleftrightarrow> (\<exists>l'. observed ok ledger owner l' None s \<and> ingested l sid r l')"

definition free_raise :: "ledger \<Rightarrow> exn \<Rightarrow> 's \<Rightarrow> bool" where
  "free_raise l e s \<longleftrightarrow> (\<exists>l'. observed ok ledger owner l' None s \<and> raised l e l')"

lemma under_lease_ends:
  assumes "observed ok ledger owner l None s"
    and "\<And>s. observed ok ledger owner l (Some sid) s \<Longrightarrow> wp m (owned_end l sid) (owned_raise l sid) s"
  shows "wp (under_lease ports sid m) (free_end l sid) (free_raise l) s"
  unfolding under_lease_def wp_abind
proof (rule wp_mono [OF acquire_owns [OF assms(1)]])
  fix b s' assume s': "observed ok ledger owner l (if b then Some sid else None) s'"
  have release: "wp (l_release ports sid) (\<lambda>_. observed ok ledger owner l' None) (\<lambda>_ _. False) u"
    if "observed ok ledger owner l' w u" "w = None \<or> w = Some sid" for l' w u by (rule release_disowns [OF that])
  have owned: "wp (l_release ports sid) (\<lambda>_. free_end l sid r) (free_raise l) u" if "owned_end l sid r u" for r u
    using that unfolding owned_end_def free_end_def
    by (elim exE conjE) (rule wp_mono [OF release], auto simp: ingested_def)
  have raises: "wp (l_release ports sid) (\<lambda>_. free_raise l e) (free_raise l) u" if "owned_raise l sid e u" for e u
    using that unfolding owned_raise_def free_raise_def by (elim exE conjE) (rule wp_mono [OF release], auto)
  show "wp (afinally (if \<not> b then araise (exn_of LeaseUnavailableError) else m) (l_release ports sid))
      (free_end l sid) (free_raise l) s'"
  proof (cases b)
    case True
    then show ?thesis using s' unfolding wp_afinally
      by (simp) (rule wp_mono [OF assms(2)], auto intro: owned raises)
  next
    case False
    have "wp (l_release ports sid) (\<lambda>_. free_raise l e) (free_raise l) s'" for e
      by (rule wp_mono [OF release [OF s']]) (use False in \<open>auto simp: free_raise_def raised_same\<close>)
    then show ?thesis using False by (simp add: wp_afinally wp_araise)
  qed
qed (auto simp: free_raise_def raised_same)

lemma raised_after_entry:
  assumes "raised l' e l''" "l' = l \<or> l sid = None \<and> l' = l(sid \<mapsto> [DISCOVERED])"
  shows "raised l e l''"
  unfolding raised_def
proof (intro impI allI)
  fix k assume e: "exn_class e \<noteq> CancelledError" and k: "l'' k \<noteq> l k"
  have entry: "l' k = l k \<or> l k = None \<and> l' k = Some [DISCOVERED]"
    using assms(2) by (cases "k = sid") auto
  show "\<exists>ts. l'' k = Some ts \<and> (l k = None \<and> ts = [DISCOVERED] \<or>
      last ts \<in> {COMPLETED, QUARANTINED, FAILED_RETRYABLE, FAILED_TERMINAL})"
  proof (cases "l'' k = l' k")
    case True then show ?thesis using k entry by auto
  next
    case False
    then obtain ts where "l'' k = Some ts" "l' k = None \<and> ts = [DISCOVERED] \<or>
        last ts \<in> {COMPLETED, QUARANTINED, FAILED_RETRYABLE, FAILED_TERMINAL}"
      using assms(1) e unfolding raised_def by blast
    then show ?thesis using entry by auto
  qed
qed

lemma ingested_after_entry: "ingested l' sid r l'' \<Longrightarrow> l' = l \<or> l' = l(sid \<mapsto> us) \<Longrightarrow> ingested l sid r l''"
  by (auto simp: ingested_def)

lemma free_after_entry:
  assumes "l' = l \<or> l sid = None \<and> l' = l(sid \<mapsto> [DISCOVERED])"
  shows "free_end l' sid r s \<Longrightarrow> free_end l sid r s" "free_raise l' e s \<Longrightarrow> free_raise l e s"
  unfolding free_end_def free_raise_def
  using assms ingested_after_entry [of l' sid r _ l "[DISCOVERED]"] raised_after_entry [OF _ assms] by blast+

lemma free_end_id: "free_end l sid r s \<Longrightarrow> ir_source_file_id r = sid"
  by (auto simp: free_end_def ingested_def)

lemma registered_ends:
  assumes "\<And>l s sid. observed ok ledger owner l (Some sid) s \<Longrightarrow> wp body (owned_end l sid) (owned_raise l sid) s"
    and r: "observed ok ledger owner l' None s" "l' (rs_source_file_id r) = Some ts" "rs_status r = last ts"
      "l' = l \<or> l (rs_source_file_id r) = None \<and> l' = l(rs_source_file_id r \<mapsto> [DISCOVERED])"
  shows "wp (if rs_status r = COMPLETED then areturn (duplicate_result (rs_source_file_id r) x)
       else under_lease ports (rs_source_file_id r) body) (free_end l (rs_source_file_id r)) (free_raise l) s"
proof (cases "rs_status r = COMPLETED")
  case True
  then have l: "l' = l" "l = l(rs_source_file_id r \<mapsto> ts)" using r by auto
  then have "ingested l (rs_source_file_id r) (duplicate_result (rs_source_file_id r) x) l"
    using True r(3) unfolding ingested_def duplicate_result_def by auto
  then show ?thesis using True r(1) l(1) by (auto simp: free_end_def wp_areturn)
next
  case False
  have "wp (under_lease ports (rs_source_file_id r) body) (free_end l' (rs_source_file_id r)) (free_raise l') s"
    by (rule under_lease_ends [OF r(1) assms(1)])
  then have "wp (under_lease ports (rs_source_file_id r) body) (free_end l (rs_source_file_id r)) (free_raise l) s"
    by (rule wp_mono) (auto dest: free_after_entry [OF r(4)])
  then show ?thesis using False by simp
qed

lemma ingest_ends:
  assumes "observed ok ledger owner l None s"
  shows "wp (ingest p repo ports f m) (\<lambda>r. free_end l (ir_source_file_id r) r) (free_raise l) s"
proof -
  have raise: "free_raise l e s'" if "observed ok ledger owner l None s'" for e s'
    using that raised_same by (auto simp: free_raise_def)
  have "wp (abind (i_register_discovery repo f False) (\<lambda>r. if rs_status r = COMPLETED
       then areturn (duplicate_result (rs_source_file_id r) (first_text (rs_content_sha256 r) (rs_completed_content_sha256 r)))
       else under_lease ports (rs_source_file_id r) (ingest_owned p repo ports f m)))
      (\<lambda>r. free_end l (ir_source_file_id r) r) (free_raise l) s'" if s': "observed ok ledger owner l None s'" for s'
    unfolding wp_abind
  proof (rule wp_mono [OF register_finds [OF s']])
    fix r :: RegisteredSourceFile and u
    assume "\<exists>l' ts. observed ok ledger owner l' None u \<and> l' (rs_source_file_id r) = Some ts \<and> rs_status r = last ts \<and>
       (False \<longrightarrow> None = Some (rs_source_file_id r)) \<and>
       (l' = l \<or> l (rs_source_file_id r) = None \<and> l' = l(rs_source_file_id r \<mapsto> [DISCOVERED]))"
    then obtain l' ts where "observed ok ledger owner l' None u" "l' (rs_source_file_id r) = Some ts" "rs_status r = last ts"
      "l' = l \<or> l (rs_source_file_id r) = None \<and> l' = l(rs_source_file_id r \<mapsto> [DISCOVERED])" by auto
    from registered_ends [OF ingest_owned_ends this]
    show "wp (if rs_status r = COMPLETED
       then areturn (duplicate_result (rs_source_file_id r) (first_text (rs_content_sha256 r) (rs_completed_content_sha256 r)))
       else under_lease ports (rs_source_file_id r) (ingest_owned p repo ports f m))
      (\<lambda>r. free_end l (ir_source_file_id r) r) (free_raise l) u"
      by (rule wp_mono) (simp_all add: free_end_id)
  qed (rule raise)
  then show ?thesis unfolding ingest_def
    apply (simp only: wp_abind [of "of_result _"] wp_of_result wp_abind [of "i_assert_allowed _ _"])
    apply (split sum.split, intro conjI allI impI)
     apply (rule raise [OF assms])
    apply (rule wp_mono [OF repository_alone(1) [unfolded leaves_alone_def, rule_format, OF assms]])
     apply simp
    apply (rule raise, assumption)
    done
qed

end

end
