(* ===== verification/Source_Audit.thy ===== *)
theory Source_Audit
  imports Source_Ledger
begin

text \<open>
  What the source store guarantees to its users: the audit trail of every file, the evidence a
  rediscovery may not overwrite, and what a retry that fails at once leaves behind.
\<close>

section \<open>What a rediscovery changes\<close>

lemma fill_in_keeps: "fill_in may x c = Inr y \<Longrightarrow> (x \<noteq> None \<longrightarrow> y = x) \<and> (\<not> may \<longrightarrow> y = x)"
  by (auto simp: fill_in_def err_def split: if_splits)

text \<open>\<open>evidence_kept\<close>: identity and status stay, a known value stays, and nothing changes unless \<open>may\<close>.\<close>

definition evidence_kept :: "url_library \<Rightarrow> bool \<Rightarrow> SourceFile \<Rightarrow> SourceFile \<Rightarrow> bool" where
  "evidence_kept L may f g \<longleftrightarrow> same_file f g \<and> f_status g = f_status f \<and>
     f_original_filename g = f_original_filename f \<and> f_document_type g = f_document_type f \<and>
     f_compression g = f_compression f \<and> f_protocol g = f_protocol f \<and>
     f_archive_object_id g = f_archive_object_id f \<and> (\<not> may \<longrightarrow> g = f) \<and>
     (f_download_url g \<noteq> f_download_url f \<longrightarrow> is_signed_url_rotation L (f_download_url f) (f_download_url g)) \<and>
     (f_source_timestamp f \<noteq> None \<longrightarrow> f_source_timestamp g = f_source_timestamp f) \<and>
     (f_declared_content_length f \<noteq> None \<longrightarrow> f_declared_content_length g = f_declared_content_length f) \<and>
     (f_media_type f \<noteq> None \<longrightarrow> f_media_type g = f_media_type f) \<and> (f_etag f \<noteq> None \<longrightarrow> f_etag g = f_etag f) \<and>
     (f_last_modified f \<noteq> None \<longrightarrow> f_last_modified g = f_last_modified f) \<and>
     (f_response_metadata f \<noteq> [] \<longrightarrow> f_response_metadata g = f_response_metadata f)"

lemma evidence_kept_refl: "evidence_kept L may f f"
  by (simp add: evidence_kept_def same_file_def)

lemma rediscovery_keeps:
  assumes "rediscovery_updates L row rf own = Inr row'"
  shows "evidence_kept L (own \<and> f_archive_object_id row = None) row (apply_rediscovery d row row')"
proof (cases "row' = row")
  case False
  define may where "may \<longleftrightarrow> own \<and> f_archive_object_id row = None"
  have u: "rediscovery_updates L row rf own =
      (if identity_conflict row rf then err PersistenceConflictError
       else if url_conflict L row rf then err PersistenceConflictError
       else
        rbind (fill_in may (f_source_timestamp row) (rf_source_timestamp rf)) (\<lambda>ts.
        rbind (fill_in may (f_declared_content_length row) (rf_content_length rf)) (\<lambda>cl.
        rbind (fill_in may (f_media_type row) (rf_media_type rf)) (\<lambda>mt.
        rbind (fill_in may (f_etag row) (rf_etag rf)) (\<lambda>et.
        rbind (fill_in may (f_last_modified row) (rf_last_modified rf)) (\<lambda>lm.
          if metadata_conflict row rf then err PersistenceConflictError
          else Inr (update_url_and_metadata may rf (row\<lparr>f_source_timestamp := ts, f_declared_content_length := cl,
             f_media_type := mt, f_etag := et, f_last_modified := lm\<rparr>))))))))"
    unfolding rediscovery_updates_def Let_def may_def by (rule refl)
  have url: "\<not> url_conflict L row rf" using assms by (auto simp: u err_def split: if_split_asm)
  obtain ts cl mt et lm where
    fills: "fill_in may (f_source_timestamp row) (rf_source_timestamp rf) = Inr ts"
      "fill_in may (f_declared_content_length row) (rf_content_length rf) = Inr cl"
      "fill_in may (f_media_type row) (rf_media_type rf) = Inr mt" "fill_in may (f_etag row) (rf_etag rf) = Inr et"
      "fill_in may (f_last_modified row) (rf_last_modified rf) = Inr lm" and
    row': "row' = update_url_and_metadata may rf (row\<lparr>f_source_timestamp := ts, f_declared_content_length := cl,
       f_media_type := mt, f_etag := et, f_last_modified := lm\<rparr>)"
    using assms unfolding u err_def by (auto simp: rbind_Inr_iff split: if_split_asm)
  note kept = fills [THEN fill_in_keeps]
  from url have url': "rf_download_url rf \<noteq> f_download_url row \<longrightarrow>
      is_signed_url_rotation L (f_download_url row) (rf_download_url rf)" by (auto simp: url_conflict_def)
  have may using False kept by (cases may) (simp_all add: row' update_url_and_metadata_def)
  then show ?thesis unfolding may_def [symmetric] using False kept url'
    by (simp add: apply_rediscovery_def row' update_url_and_metadata_def evidence_kept_def same_file_def)
qed (simp add: apply_rediscovery_def evidence_kept_refl)

text \<open>Of the rows present before, only the one of \<open>sid\<close> may have changed, and it keeps its evidence.\<close>

definition rows_kept :: "url_library \<Rightarrow> bool \<Rightarrow> database \<Rightarrow> nat \<Rightarrow> database \<Rightarrow> bool" where
  "rows_kept L own d sid d' \<longleftrightarrow> (\<forall>k f. source_file d k = Some f \<longrightarrow> (\<exists>g. source_file d' k = Some g \<and>
     (if k = sid then evidence_kept L (own \<and> f_archive_object_id f = None) f g else g = f)))"

lemma insert_source_file_keeps:
  "db_source_files d1 = db_source_files d \<Longrightarrow>
   wp (insert_source_file retailer portal rf) (\<lambda>sid d'. rows_kept L own d sid d' \<and> db_lock d' = db_lock d1) (\<lambda>_ _. True) d1"
  unfolding insert_source_file_def
  by (auto simp: action_simps insert_run_def insert_event_def rows_kept_def source_file_def find_append evidence_kept_refl)

lemma rediscover_keeps:
  assumes "ids_ok d" "db_source_files d1 = db_source_files d" "existing \<in> set (db_source_files d)"
  shows "wp (rediscover L existing rf own) (\<lambda>sid d'. rows_kept L own d sid d' \<and> db_lock d' = db_lock d1) (\<lambda>_ _. True) d1"
proof -
  have key: "source_file d (f_id existing) = Some existing"
    using find_key [of f_id "db_source_files d" existing] assms(1,3) by (simp add: source_file_def ids_ok_def)
  have "rows_kept L own d (f_id existing) (d1\<lparr>db_source_files := update_where (\<lambda>f. f_id f = f_id existing)
      (\<lambda>_. apply_rediscovery d1 existing row) (db_source_files d1)\<rparr>)"
    if "rediscovery_updates L existing rf own = Inr row" for row
  proof -
    note kept = rediscovery_keeps [OF that, of d1]
    have same: "f_id (apply_rediscovery d1 existing row) = f_id existing" using kept by (simp add: evidence_kept_def same_file_def)
    have "find (\<lambda>x. f_id x = k) (update_where (\<lambda>f. f_id f = f_id existing) (\<lambda>_. apply_rediscovery d1 existing row) fs) =
        (if k = f_id existing then map_option (\<lambda>_. apply_rediscovery d1 existing row) (find (\<lambda>x. f_id x = k) fs)
         else find (\<lambda>x. f_id x = k) fs)" for k fs
      using same by (induction fs) (auto simp: update_where_def)
    then show ?thesis using assms(2) key kept by (auto simp: rows_kept_def source_file_def)
  qed
  moreover have "rows_kept L own d (f_id existing) d1"
    using assms(2) by (simp add: rows_kept_def source_file_def evidence_kept_refl)
  ultimately show ?thesis by (auto simp: rediscover_def action_simps split: sum.split)
qed

definition registered_keeps :: "url_library \<Rightarrow> bool \<Rightarrow> database \<Rightarrow> database \<Rightarrow> bool" where
  "registered_keeps L own d d' \<longleftrightarrow> (\<forall>k f. source_file d k = Some f \<longrightarrow> (\<exists>g. source_file d' k = Some g \<and>
     evidence_kept L (own \<and> db_lock d = Some k \<and> f_archive_object_id f = None) f g))"

lemma registration_keeps:
  assumes "rows_kept L own d sid d1" "db_lock d1 = db_lock d"
  shows "wp (registration own b sid) (\<lambda>_. registered_keeps L own d) (\<lambda>_ _. True) d1"
proof -
  have "registered_keeps L own d d1" if "own \<longrightarrow> db_lock d = Some sid"
    unfolding registered_keeps_def
  proof (intro allI impI)
    fix k f assume "source_file d k = Some f"
    then obtain g where g: "source_file d1 k = Some g"
      "if k = sid then evidence_kept L (own \<and> f_archive_object_id f = None) f g else g = f"
      using assms(1) unfolding rows_kept_def by blast
    show "\<exists>g. source_file d1 k = Some g \<and> evidence_kept L (own \<and> db_lock d = Some k \<and> f_archive_object_id f = None) f g"
    proof (cases "k = sid")
      case True
      then have "(own \<and> db_lock d = Some k \<and> f_archive_object_id f = None) = (own \<and> f_archive_object_id f = None)"
        using that by auto
      then show ?thesis using g True by simp
    qed (use g evidence_kept_refl in auto)
  qed
  then have "wp (source_row sid) (\<lambda>_ d'. (own \<longrightarrow> db_lock d = Some sid) \<longrightarrow> registered_keeps L own d d') (\<lambda>_ _. True) d1"
    by (intro wp_mono [OF source_row_wp]) auto
  then show ?thesis by (auto simp: registration_def action_simps wp_areturn_eta assms(2) intro: wp_mono)
qed

lemma register_in_portal_keeps:
  assumes "ids_ok d" "unseen d d1"
  shows "wp (register_in_portal L rf own retailer portal) (\<lambda>_. registered_keeps L own d) (\<lambda>_ _. True) d1"
proof -
  have d1: "db_source_files d1 = db_source_files d" "db_lock d1 = db_lock d"
    using assms(2) by (simp_all add: unseen_def quiet_def)
  show ?thesis
  proof (cases "find (\<lambda>f. f_portal_id f = portal \<and> f_remote_id f = rf_remote_id rf) (db_source_files d1)")
    case None
    show ?thesis unfolding register_in_portal_def wp_abind wp_aget None option.case
      by (rule wp_mono [OF insert_source_file_keeps [OF d1(1), of _ _ _ L own]]) (auto simp: registration_keeps d1(2))
  next
    case (Some f)
    then have f: "f \<in> set (db_source_files d)" using d1(1) by (auto dest: find_in)
    show ?thesis unfolding register_in_portal_def wp_abind wp_aget Some option.case
      by (rule wp_mono [OF rediscover_keeps [OF assms(1) d1(1) f]]) (auto simp: registration_keeps d1(2))
  qed
qed

lemma registered_keeps_refl: "registered_keeps L own d d"
  by (auto simp: registered_keeps_def evidence_kept_refl)

lemma register_discovery_keeps:
  assumes "ids_ok d"
  shows "wp (register_discovery L rf own) (\<lambda>_. registered_keeps L own d) (\<lambda>_. registered_keeps L own d) d"
proof -
  have "wp (ensure_portal retailer rf) (\<lambda>portal. wp (register_in_portal L rf own retailer portal)
      (\<lambda>_. registered_keeps L own d) (\<lambda>_ _. True)) (\<lambda>_ _. True) d1"
    if "unseen d d1" "retailer \<in> fst (parents d1)" for d1 retailer
    by (rule wp_mono [OF ensure_portal_unseen [OF that]]) (simp_all add: register_in_portal_keeps [OF assms])
  then have "wp (abind (ensure_retailer (rf_retailer_id rf)) (\<lambda>retailer_id.
        abind (ensure_portal retailer_id rf) (register_in_portal L rf own retailer_id)))
      (\<lambda>_. registered_keeps L own d) (\<lambda>_ _. True) d"
    unfolding wp_abind by (intro wp_mono [OF ensure_retailer_unseen]) simp_all
  then show ?thesis unfolding register_discovery_def wp_transaction
    by (auto intro: wp_mono simp: registered_keeps_refl)
qed

section \<open>Properties\<close>

text \<open>
  C3. The store implements the ledger, call by call. The calls that are made on an empty store, in any order and with and without the lock of
  a file, together with what each of them answers, are a run of the specification, and it ends in the trails and the lock of the store: a registration enters the file as
  discovered or finds it, and answers its status; a read answers the last status of the trail and changes nothing; a transition returns exactly when the lock admits it, the last status
  is expected, the lifecycle allows the move and the error code is not too long, and then extends the trail by the one new status; an archive is recorded only for a file that is downloading; the recovery
  of stale jobs moves as many active files to the retryable failure as it counts and no other file; replays leave the trails alone; and a call that raises changes
  no trail.
\<close>
theorem store_refines_ledger:
  "spec_run (Map.empty, None) (store_trace L ops empty_database) (view_of (fold (run_store L) ops empty_database))"
proof -
  have "view_of empty_database = (Map.empty, None)" using empty_inv(2) by (simp add: view_of_def empty_database_def)
  with trace_spec [OF empty_inv(1), of L ops] show ?thesis by simp
qed

text \<open>
  C17. The audit record of every file is complete and consistent after any calls: its events are a
  path of the lifecycle from its discovery to its status, each starting where the one before
  ended; its attempts are numbered from one without a gap, one more than the failures it was
  retried after, and the last attempt has the status of the file.
\<close>
theorem audit_trail_consistent:
  assumes "d = fold (run_store L) ops empty_database" "f \<in> set (db_source_files d)"
  shows "(\<exists>ts. map ev_to (events_of d (f_id f)) = DISCOVERED # ts \<and> lifecycle DISCOVERED ts (f_status f)) \<and>
     map ev_from (events_of d (f_id f)) = None # map Some (butlast (map ev_to (events_of d (f_id f)))) \<and>
     map run_attempt (runs_of d (f_id f)) = map int [1..<Suc (length (runs_of d (f_id f)))] \<and>
     length (runs_of d (f_id f)) = Suc (count_list (butlast (map ev_to (events_of d (f_id f)))) FAILED_RETRYABLE) \<and>
     run_status (last (runs_of d (f_id f))) = f_status f"
proof -
  have "store_inv d" using store_sequence [OF empty_inv(1), of L ops] by (simp add: refines_def assms(1))
  then show ?thesis using assms(2) unfolding store_inv_def file_ok_def by blast
qed

definition demo_urls :: url_library where
  "demo_urls = \<lparr>urlsplit = (\<lambda>u. \<lparr>u_scheme = [], u_hostname = None, u_port = None, u_path = u, u_query = [], u_fragment = []\<rparr>),
     parse_qsl = (\<lambda>_. []), casefold = (\<lambda>s. s)\<rparr>"

definition demo_remote :: RemoteFile where
  "demo_remote = \<lparr>rf_retailer_id = [97], rf_portal_id = [98], rf_protocol = HTTPS, rf_remote_id = [99],
     rf_download_url = [100], rf_original_filename = [101], rf_document_type = STORES, rf_compression = NONE,
     rf_discovered_at = Aware 0, rf_source_timestamp = None, rf_content_length = None, rf_media_type = None,
     rf_etag = None, rf_last_modified = None, rf_response_metadata = []\<rparr>"

definition demo_ops :: "store_op list" where
  "demo_ops = [Register demo_remote False, SetLock (Some 2), Transition 2 [DISCOVERED] DOWNLOADING None,
     Transition 2 [DOWNLOADING] FAILED_RETRYABLE (Some ''source_access_error''), Register demo_remote True]"

definition demo_store :: database where
  "demo_store = fold (run_store demo_urls) demo_ops empty_database"

lemmas demo_store_eval = demo_store_def demo_ops_def demo_remote_def empty_database_def register_discovery_def
  transaction_def ensure_retailer_def ensure_portal_def register_in_portal_def registration_def insert_source_file_def
  rediscover_def insert_run_def insert_event_def fresh_id_def constraint_def action_defs of_result_def source_row_def
  source_file_def new_source_file_def registered_source_file_def transition_def move_file_def move_run_def
  current_run_id_def current_run_def runs_of_def update_where_def ensure_ingestion_transition_def code_too_long_def
  ends_run_def rediscovery_updates_def identity_conflict_def url_conflict_def metadata_conflict_def fill_in_def
  update_url_and_metadata_def apply_rediscovery_def

lemma demo_store_value:
  "map f_id (db_source_files demo_store) = [2]" "map f_status (db_source_files demo_store) = [FAILED_RETRYABLE]"
  "db_lock demo_store = Some 2" "length (runs_of demo_store 2) = 1"
  by (simp_all add: demo_store_eval)

theorem audit_trail_consistent_witness:
  "map run_attempt (runs_of demo_store 2) = [1]"
proof -
  obtain f where f: "f \<in> set (db_source_files demo_store)" "f_id f = 2" using demo_store_value(1) by auto
  show ?thesis
    using audit_trail_consistent [OF demo_store_def f(1)] demo_store_value(4) f(2) by simp
qed

text \<open>
  C18. Rediscovery never overwrites evidence. Registering a listed file again, in any reachable state,
  keeps the identity, the status and every known attribute of all files; an unknown attribute is
  filled in, and a signed URL is replaced by another signature of the same URL, only for the
  task that owns the file and only before its archive is attached. A registration that raises
  changes nothing.
\<close>
theorem rediscovery_keeps_evidence:
  "registered_keeps L own (fold (run_store L') ops empty_database)
     (snd (register_discovery L rf own (fold (run_store L') ops empty_database)))"
proof -
  have "ids_ok (fold (run_store L') ops empty_database)"
    using store_sequence [OF empty_inv(1), of L' ops] by (simp add: refines_def store_inv_def)
  from register_discovery_keeps [OF this] show ?thesis by (simp add: wp_snd)
qed

text \<open>
  A transition out of a failure that may be retried opens a new attempt without an end and without an
  error code, also when the attempt ends at once: after a failure while the archive is verified
  the attempt is terminal, but its record says it is still running and does not name the error.
\<close>
theorem failed_retry_leaves_run_open:
  assumes "store_inv d" "status_of d sid = Some FAILED_RETRYABLE"
    and "transition sid expected FAILED_TERMINAL ec d = (Inr (), d')"
  shows "\<exists>r. current_run d' sid = Some r \<and> run_status r = FAILED_TERMINAL \<and> run_finished_at r = None \<and>
     run_error_code r = None"
proof -
  have m: "moved d sid FAILED_TERMINAL d'" using wp_ret [OF transition_moves assms(3)] by simp
  obtain f where f: "source_file d sid = Some f" "f_status f = FAILED_RETRYABLE"
    using assms(2) by (auto simp: status_of_def)
  then obtain r where r: "db_runs d' = db_runs d @ [r]" "run_source_file_id r = sid" "run_status r = FAILED_TERMINAL"
    "run_error_code r = None" "run_finished_at r = None"
    using m by (auto simp: moved_def run_moved_def)
  have "status_of d' sid = Some FAILED_TERMINAL" using moved_inv(3) [OF assms(1) m] by simp
  then obtain g where "source_file d' sid = Some g" by (auto simp: status_of_def)
  then have "current_run d' sid = Some (last (runs_of d' sid))"
    using file_ok_current(1) source_file_ok(3) moved_inv(1) [OF assms(1) m] by blast
  moreover have "last (runs_of d' sid) = r" using r(1,2) by (simp add: runs_of_def)
  ultimately show ?thesis using r by simp
qed

lemma demo_store_inv: "store_inv demo_store"
  using store_sequence [OF empty_inv(1), of demo_urls demo_ops] by (simp add: refines_def demo_store_def)

theorem failed_retry_leaves_run_open_witness:
  "\<exists>d' r. transition 2 [FAILED_RETRYABLE] FAILED_TERMINAL (Some ''archive_integrity_error'') demo_store = (Inr (), d') \<and>
     current_run d' 2 = Some r \<and> run_finished_at r = None"
proof -
  have s: "status_of demo_store 2 = Some FAILED_RETRYABLE" by (simp add: status_of_def demo_store_eval)
  obtain d' where t: "transition 2 [FAILED_RETRYABLE] FAILED_TERMINAL (Some ''archive_integrity_error'') demo_store = (Inr (), d')"
    by (simp add: demo_store_eval)
  from failed_retry_leaves_run_open [OF demo_store_inv s t] t show ?thesis by blast
qed

end
