(* ===== verification/Ingestion_Staging.thy ===== *)
theory Ingestion_Staging
  imports Ingestion "HOL-Library.Sublist"
begin

text \<open>
  What the staging loop guarantees for every repository and every parser: the batches handed
  to the repository are the parsed events in order, none lost and none repeated, and each
  batch is within the row and memory limits of the policy. The counts of a split stream add
  up to the counts of the stream.

  The state of the ports is extended by two ghosts, the batches the repository accepted and
  the events the parser yielded.
\<close>

section \<open>Logging ports\<close>

type_synonym 'w staged_world = "'w \<times> ParsedEvent list list \<times> ParsedEvent list"

definition below :: "('w, exn, 'a) action \<Rightarrow> ('w staged_world, exn, 'a) action" where
  "below m s = (case m (fst s) of (r, t) \<Rightarrow> (r, (t, snd s)))"

definition log_batch :: "ParsedEvent list \<Rightarrow> ('w, exn, StageSummary) action \<Rightarrow> ('w staged_world, exn, StageSummary) action" where
  "log_batch b m =
     abind (below m) (\<lambda>r. abind (amodify (\<lambda>(w, bs, es). (w, bs @ [b], es))) (\<lambda>_. areturn r))"

definition log_event :: "('w, exn, ParsedEvent) action \<Rightarrow> ('w staged_world, exn, ParsedEvent) action" where
  "log_event m =
     abind (below m) (\<lambda>e. abind (amodify (\<lambda>(w, bs, es). (w, bs, es @ [e]))) (\<lambda>_. areturn e))"

definition logging_repository :: "'w IngestionRepository \<Rightarrow> 'w staged_world IngestionRepository" where
  "logging_repository r =
     \<lparr>i_assert_allowed = (\<lambda>a. below (i_assert_allowed r a)),
      i_register_discovery = (\<lambda>a b. below (i_register_discovery r a b)), i_get = (\<lambda>a. below (i_get r a)),
      i_transition = (\<lambda>a b c d. below (i_transition r a b c d)),
      i_record_archive = (\<lambda>a b c. below (i_record_archive r a b c)), i_archive_sha256 = (\<lambda>a. below (i_archive_sha256 r a)),
      i_reuse_validated_staging = (\<lambda>a b c d. below (i_reuse_validated_staging r a b c d)),
      i_stage = (\<lambda>a b. log_batch b (i_stage r a b)), i_finalize_staging = (\<lambda>a b. below (i_finalize_staging r a b)),
      i_has_file_quarantine_issue = (\<lambda>a. below (i_has_file_quarantine_issue r a)),
      i_apply = (\<lambda>a b c d. below (i_apply r a b c d)), i_begin_replay = (\<lambda>a b c. below (i_begin_replay r a b c)),
      i_finish_replay = (\<lambda>a b c. below (i_finish_replay r a b c))\<rparr>"

definition logging_ports :: "'w IngestionPorts \<Rightarrow> 'w staged_world IngestionPorts" where
  "logging_ports p =
     \<lparr>d_open = (\<lambda>a b. below (d_open p a b)), d_transferred = (\<lambda>a s. d_transferred p a (fst s)),
      d_finish = (\<lambda>a b. below (d_finish p a b)), d_close = (\<lambda>a. below (d_close p a)),
      a_put = (\<lambda>a b. below (a_put p a b)), a_verify = (\<lambda>a b. below (a_verify p a b)), a_open = (\<lambda>a. below (a_open p a)),
      a_close = (\<lambda>a. below (a_close p a)), a_parse = (\<lambda>a b s. map log_event (a_parse p a b (fst s))),
      parser_version = parser_version p, l_acquire = (\<lambda>a. below (l_acquire p a)), l_release = (\<lambda>a. below (l_release p a))\<rparr>"

lemma logging_selectors:
  "i_reuse_validated_staging (logging_repository r) a b c d = below (i_reuse_validated_staging r a b c d)"
  "i_finalize_staging (logging_repository r) a t = below (i_finalize_staging r a t)"
  "a_open (logging_ports p) k = below (a_open p k)" "a_close (logging_ports p) k = below (a_close p k)"
  "a_parse (logging_ports p) a f = (\<lambda>s. map log_event (a_parse p a f (fst s)))"
  by (simp_all add: logging_repository_def logging_ports_def)

lemma wp_below: "(\<And>x w. Q x (w, snd s)) \<Longrightarrow> (\<And>e w. E e (w, snd s)) \<Longrightarrow> wp (below m) Q E s"
  by (auto simp: wp_def below_def split: prod.splits sum.splits)

lemma wp_log_batch:
  "(\<And>x w. Q x (w, fst (snd s) @ [b], snd (snd s))) \<Longrightarrow> (\<And>e w. E e (w, snd s)) \<Longrightarrow> wp (log_batch b m) Q E s"
  by (auto simp: log_batch_def action_simps split: prod.split intro!: wp_below)

lemma wp_log_event:
  "(\<And>x w. Q x (w, fst (snd s), snd (snd s) @ [x])) \<Longrightarrow> (\<And>e w. E e (w, snd s)) \<Longrightarrow> wp (log_event m) Q E s"
  by (auto simp: log_event_def action_simps split: prod.split intro!: wp_below)

section \<open>The batches\<close>

definition event_bytes :: "ParsedEvent \<Rightarrow> int" where
  "event_bytes e = stage_memory_charge e (stage_units e)"

definition batch_units :: "ParsedEvent list \<Rightarrow> int" where
  "batch_units b = sum_list (map stage_units b)"

definition batch_bytes :: "ParsedEvent list \<Rightarrow> int" where
  "batch_bytes b = sum_list (map event_bytes b)"

definition batch_within :: "IngestionPolicy \<Rightarrow> ParsedEvent list \<Rightarrow> bool" where
  "batch_within p b \<longleftrightarrow> b \<noteq> [] \<and> batch_units b \<le> stage_batch_size p \<and> batch_bytes b \<le> maximum_stage_batch_bytes p"

text \<open>\<open>staged p b s\<close>: the accepted batches and the open batch are the events so far.\<close>

definition staged :: "IngestionPolicy \<Rightarrow> batch_state \<Rightarrow> 'w staged_world \<Rightarrow> bool" where
  "staged p b s \<longleftrightarrow> snd (snd s) = concat (fst (snd s)) @ b_batch b \<and> (\<forall>x\<in>set (fst (snd s)). batch_within p x) \<and>
     b_units b = batch_units (b_batch b) \<and> b_bytes b = batch_bytes (b_batch b) \<and>
     (b_batch b \<noteq> [] \<longrightarrow> batch_within p (b_batch b))"

definition cut_short :: "IngestionPolicy \<Rightarrow> 'w staged_world \<Rightarrow> bool" where
  "cut_short p s \<longleftrightarrow> prefix (concat (fst (snd s))) (snd (snd s)) \<and> (\<forall>x\<in>set (fst (snd s)). batch_within p x)"

lemma staged_cut_short: "staged p b s \<Longrightarrow> cut_short p s"
  by (auto simp: staged_def cut_short_def prefix_def)

lemma staged_world: "staged p b (w, x) = staged p b (w', x)" "cut_short p (w, x) = cut_short p (w', x)"
  by (simp_all add: staged_def cut_short_def)

lemma flush_wp:
  "(\<And>x w. Q (b\<lparr>b_summary := x, b_batch := [], b_units := 0, b_bytes := 0\<rparr>) (w, fst (snd s) @ [b_batch b], snd (snd s))) \<Longrightarrow>
   (\<And>e w. E e (w, snd s)) \<Longrightarrow> wp (flush_batch (logging_repository r) sid b) Q E s"
  by (auto simp: flush_batch_def action_simps logging_repository_def intro!: wp_log_batch)

lemma flush_staged:
  assumes "staged p b s" "b_batch b \<noteq> []"
    and "\<And>b' s'. staged p b' s' \<Longrightarrow> b_batch b' = [] \<Longrightarrow> Q b' s'" "\<And>e s'. cut_short p s' \<Longrightarrow> E e s'"
  shows "wp (flush_batch (logging_repository r) sid b) Q E s"
  by (rule flush_wp) (use assms(1,2) staged_cut_short [OF assms(1)] in
    \<open>auto simp: staged_def cut_short_def batch_units_def batch_bytes_def intro!: assms(3,4)\<close>)

lemma batch_snoc:
  "batch_units (b @ [e]) = batch_units b + stage_units e" "batch_bytes (b @ [e]) = batch_bytes b + event_bytes e"
  by (simp_all add: batch_units_def batch_bytes_def)

lemma charge_issue_batch:
  "charge_issue p e b = Inr b' \<Longrightarrow> b_batch b' = b_batch b \<and> b_units b' = b_units b \<and> b_bytes b' = b_bytes b"
  by (auto simp: charge_issue_def Let_def rbind_Inr_iff split: ParsedEvent.splits)

text \<open>One event: \<open>yielded\<close> says that the parser has yielded it and it is not yet in the open batch.\<close>

definition yielded :: "IngestionPolicy \<Rightarrow> batch_state \<Rightarrow> ParsedEvent \<Rightarrow> 'w staged_world \<Rightarrow> bool" where
  "yielded p b e s \<longleftrightarrow> (\<exists>es. snd (snd s) = es @ [e] \<and> staged p b (fst s, fst (snd s), es))"

lemma yielded_cut_short: "yielded p b e s \<Longrightarrow> cut_short p s"
  by (auto simp: yielded_def staged_def cut_short_def prefix_def)

lemma flush_yielded:
  assumes "yielded p b e s" "b_batch b \<noteq> []"
    and "\<And>b' s'. yielded p b' e s' \<Longrightarrow> b_batch b' = [] \<Longrightarrow> Q b' s'" "\<And>e s'. cut_short p s' \<Longrightarrow> E e s'"
  shows "wp (flush_batch (logging_repository r) sid b) Q E s"
  by (rule flush_wp) (use assms(1,2) yielded_cut_short [OF assms(1)] in
    \<open>auto simp: yielded_def staged_def cut_short_def batch_units_def batch_bytes_def intro!: assms(3,4)\<close>)

lemma append_event:
  assumes "yielded p b e s" "stage_units e \<le> stage_batch_size p" "event_bytes e \<le> maximum_stage_batch_bytes p"
    and "b_batch b \<noteq> [] \<Longrightarrow> b_units b + stage_units e \<le> stage_batch_size p \<and>
      b_bytes b + event_bytes e \<le> maximum_stage_batch_bytes p"
  shows "staged p (b\<lparr>b_batch := b_batch b @ [e], b_units := b_units b + stage_units e,
    b_bytes := b_bytes b + event_bytes e\<rparr>) s"
  using assms by (cases "b_batch b = []")
    (auto simp: yielded_def staged_def batch_within_def batch_snoc batch_units_def batch_bytes_def)

lemma add_event_staged:
  assumes "yielded p b e s" "stage_units e \<le> stage_batch_size p" "event_bytes e \<le> maximum_stage_batch_bytes p"
    and "b_batch b \<noteq> [] \<Longrightarrow> b_units b + stage_units e \<le> stage_batch_size p \<and>
      b_bytes b + event_bytes e \<le> maximum_stage_batch_bytes p"
  shows "wp (add_event p (logging_repository r) sid e (stage_units e) (event_bytes e) b) (staged p) (\<lambda>_. cut_short p) s"
  using append_event [OF assms] by (auto simp: add_event_def Let_def action_simps intro!: flush_staged)

lemma stage_event_staged:
  assumes s: "yielded p b e s"
  shows "wp (stage_event p (logging_repository r) sid e b) (staged p) (\<lambda>_. cut_short p) s"
proof (cases "charge_issue p e b")
  case (Inl x)
  then show ?thesis using yielded_cut_short [OF s] by (simp add: stage_event_def action_simps)
next
  case (Inr b1)
  have b1: "yielded p b1 e s"
    using s charge_issue_batch [OF Inr] by (simp add: yielded_def staged_def)
  show ?thesis
  proof (cases "stage_units e \<le> stage_batch_size p \<and> event_bytes e \<le> maximum_stage_batch_bytes p")
    case True
    then have "wp (flush_batch (logging_repository r) sid b1)
       (\<lambda>b. wp (add_event p (logging_repository r) sid e (stage_units e) (event_bytes e) b) (staged p) (\<lambda>_. cut_short p))
       (\<lambda>_. cut_short p) s" if "b_batch b1 \<noteq> []"
      using that by (intro flush_yielded [OF b1] add_event_staged) auto
    then show ?thesis using Inr True add_event_staged [OF b1]
      by (simp add: stage_event_def action_simps Let_def event_bytes_def [symmetric] ensure_stage_event_within_limits_def)
  next
    case False
    then show ?thesis using Inr yielded_cut_short [OF s]
      by (auto simp: stage_event_def action_simps Let_def event_bytes_def ensure_stage_event_within_limits_def err_def)
  qed
qed

lemma stage_loop_staged:
  "staged p b s \<Longrightarrow>
   wp (stage_loop p (logging_repository r) sid (map log_event steps) b) (staged p) (\<lambda>_. cut_short p) s"
proof (induction steps arbitrary: b s)
  case Nil
  then show ?case by (simp add: action_simps)
next
  case (Cons m steps)
  have "wp (stage_event p (logging_repository r) sid e b)
      (\<lambda>b. wp (stage_loop p (logging_repository r) sid (map log_event steps) b) (staged p) (\<lambda>_. cut_short p))
      (\<lambda>_. cut_short p) (w, fst (snd s), snd (snd s) @ [e])" for e w
  proof -
    have "yielded p b e (w, fst (snd s), snd (snd s) @ [e])"
      using Cons.prems by (auto simp: yielded_def staged_def)
    from stage_event_staged [OF this] show ?thesis by (rule wp_mono) (auto intro: Cons.IH)
  qed
  moreover have "cut_short p (w, snd s)" for w using staged_cut_short [OF Cons.prems] by (simp add: cut_short_def)
  ultimately show ?case by (auto simp: action_simps intro!: wp_log_event)
qed

lemma parse_and_stage_staged:
  "wp (parse_and_stage p (logging_repository r) (logging_ports ports) sid f key)
     (\<lambda>_ s. staged p no_batch s) (\<lambda>_. cut_short p) (w, [], [])"
proof -
  have start: "staged p no_batch (w, [], [])" "cut_short p (w, [], [])" for w
    by (simp_all add: staged_def cut_short_def no_batch_def batch_units_def batch_bytes_def)
  have empty: "staged p b s \<Longrightarrow> b_batch b = [] \<Longrightarrow> staged p no_batch (w, snd s)" for b s w
    by (auto simp: staged_def no_batch_def batch_units_def batch_bytes_def)
  have cut: "cut_short p s \<Longrightarrow> cut_short p (w, snd s)" for s w by (auto simp: cut_short_def)
  have carry: "staged p b s \<Longrightarrow> staged p b (w, snd s)" for b s w by (auto simp: staged_def)
  have finished: "wp (below m) (\<lambda>_. staged p no_batch) (\<lambda>_. cut_short p) s"
    if "staged p b s" "b_batch b = []" for b s and m :: "('a, exn, StageSummary) action"
    using empty [OF that] cut [OF staged_cut_short [OF that(1)]] by (intro wp_below) auto
  have flushed: "wp (if b_batch b \<noteq> [] then flush_batch (logging_repository r) sid b else areturn b)
      (\<lambda>b. wp (below m) (\<lambda>_. staged p no_batch) (\<lambda>_. cut_short p)) (\<lambda>_. cut_short p) s"
    if "staged p b s" for b s and m :: "('a, exn, StageSummary) action"
    using that finished by (auto simp: action_simps intro!: flush_staged)
  have parsed: "wp (stage_loop p (logging_repository r) sid (map log_event steps) no_batch)
      (\<lambda>b. wp (below c) (\<lambda>_. wp (if b_batch b \<noteq> [] then flush_batch (logging_repository r) sid b else areturn b)
          (\<lambda>b. wp (below m) (\<lambda>_. staged p no_batch) (\<lambda>_. cut_short p)) (\<lambda>_. cut_short p)) (\<lambda>_. cut_short p))
      (\<lambda>e. wp (below c) (\<lambda>_. cut_short p) (\<lambda>_. cut_short p)) (w, [], [])"
    for steps w and m :: "('a, exn, StageSummary) action" and c :: "('a, exn, unit) action"
  proof (rule wp_mono [OF stage_loop_staged [OF start(1)]])
    fix b and s :: "'a staged_world" assume "staged p b s"
    then show "wp (below c) (\<lambda>_. wp (if b_batch b \<noteq> [] then flush_batch (logging_repository r) sid b else areturn b)
          (\<lambda>b. wp (below m) (\<lambda>_. staged p no_batch) (\<lambda>_. cut_short p)) (\<lambda>_. cut_short p)) (\<lambda>_. cut_short p) s"
      by (intro wp_below flushed carry cut [OF staged_cut_short])
  qed (auto intro!: wp_below cut)
  show ?thesis unfolding parse_and_stage_def wp_abind wp_case_option wp_afinally wp_areturn logging_selectors
    using start by (auto simp: wp_aget split: option.split intro!: wp_below parsed finished [of no_batch] simp: no_batch_def [THEN arg_cong [of _ _ b_batch], simplified])
qed

section \<open>Counts\<close>

lemma combine_no_stage [simp]: "combine_stage no_stage s = s" "combine_stage s no_stage = s"
  by (simp_all add: combine_stage_def no_stage_def)

lemma combine_assoc: "combine_stage (combine_stage a b) c = combine_stage a (combine_stage b c)"
  by (simp add: combine_stage_def)

lemma count_event_combine:
  "count_event e (combine_stage a b) = (case count_event e b of Inl x \<Rightarrow> Inl x | Inr b' \<Rightarrow> Inr (combine_stage a b'))"
proof (cases e)
  case (EIssue i)
  then show ?thesis
    by (cases "validation_issue_charge i"; cases "vi_severity i") (auto simp: combine_stage_def Let_def)
qed (auto simp: combine_stage_def)

lemma count_events_combine:
  "count_events es (combine_stage a b) = (case count_events es b of Inl x \<Rightarrow> Inl x | Inr b' \<Rightarrow> Inr (combine_stage a b'))"
proof (induction es arbitrary: b)
  case (Cons e es)
  then show ?case by (cases "count_event e b") (simp_all add: count_event_combine)
qed simp

lemma count_events_append: "count_events (xs @ ys) s = rbind (count_events xs s) (count_events ys)"
proof (induction xs arbitrary: s)
  case (Cons x xs)
  then show ?case by (cases "count_event x s") simp_all
qed simp

section \<open>Properties\<close>

text \<open>
  C33. Staging hands the repository the parsed events in order and in bounded batches: for every
  repository and parser, each accepted batch is non-empty and within the row and memory
  limits, the accepted batches together are an initial part of what the parser yielded, also
  when a call raises, and when staging returns they are all of it.
\<close>

theorem staging_batches_cover_events:
  assumes "parse_and_stage p (logging_repository repo) (logging_ports ports) sid f key (w, [], []) = (r, (w', batches, events))"
  shows "(\<forall>b\<in>set batches. b \<noteq> [] \<and> sum_list (map stage_units b) \<le> stage_batch_size p \<and>
        sum_list (map (\<lambda>e. stage_memory_charge e (stage_units e)) b) \<le> maximum_stage_batch_bytes p) \<and>
     prefix (concat batches) events \<and> (\<forall>summary. r = Inr summary \<longrightarrow> concat batches = events)"
proof (cases r)
  case (Inl e)
  then have "cut_short p (w', batches, events)" using wp_exn [OF parse_and_stage_staged] assms by simp
  then show ?thesis using Inl
    by (auto simp: cut_short_def batch_within_def batch_units_def batch_bytes_def event_bytes_def [abs_def])
next
  case (Inr x)
  then have "staged p no_batch (w', batches, events)" using wp_ret [OF parse_and_stage_staged] assms by simp
  then show ?thesis using Inr
    by (auto simp: staged_def no_batch_def batch_within_def batch_units_def batch_bytes_def event_bytes_def [abs_def])
qed

text \<open>Three header events under a limit of two rows per batch.\<close>

definition demo_ingestion_policy :: IngestionPolicy where
  "demo_ingestion_policy = \<lparr>stage_batch_size = 2, maximum_stage_batch_bytes = 10000, lease_ttl = 60, download_attempts = 2,
     minimum_full_records = None, minimum_full_store_records = 1, minimum_full_price_records = 1,
     minimum_full_promotion_records = 1, maximum_full_snapshot_drop_fraction = 1 / 2,
     maximum_record_rejection_fraction = 1 / 10, maximum_validation_issues = 5, maximum_validation_issue_bytes = 500\<rparr>"

definition demo_event :: "nat \<Rightarrow> ParsedEvent" where
  "demo_event n = EMetadata \<lparr>dm_source_file_id = n, dm_document_type = STORES, dm_chain_id = None, dm_subchain_id = None,
     dm_store_id = None, dm_audit_number = None, dm_source_updated_at = None\<rparr>"

abbreviation refuse :: "('s, exn, 'a) action" where
  "refuse \<equiv> araise (exn_of RuntimeError)"

definition demo_staging_repository :: "unit IngestionRepository" where
  "demo_staging_repository =
     \<lparr>i_assert_allowed = (\<lambda>_. refuse), i_register_discovery = (\<lambda>_ _. refuse), i_get = (\<lambda>_. refuse),
      i_transition = (\<lambda>_ _ _ _. refuse), i_record_archive = (\<lambda>_ _ _. refuse), i_archive_sha256 = (\<lambda>_. refuse),
      i_reuse_validated_staging = (\<lambda>_ _ _ _. areturn None), i_stage = (\<lambda>_ _. areturn no_stage),
      i_finalize_staging = (\<lambda>_ _. areturn no_stage), i_has_file_quarantine_issue = (\<lambda>_. refuse),
      i_apply = (\<lambda>_ _ _ _. refuse), i_begin_replay = (\<lambda>_ _ _. refuse), i_finish_replay = (\<lambda>_ _ _. refuse)\<rparr>"

definition demo_staging_ports :: "unit IngestionPorts" where
  "demo_staging_ports =
     \<lparr>d_open = (\<lambda>_ _. refuse), d_transferred = (\<lambda>_ _. 0), d_finish = (\<lambda>_ _. refuse), d_close = (\<lambda>_. refuse),
      a_put = (\<lambda>_ _. refuse), a_verify = (\<lambda>_ _. refuse), a_open = (\<lambda>_. areturn ()), a_close = (\<lambda>_. areturn ()),
      a_parse = (\<lambda>_ _ _. map (areturn \<circ> demo_event) [1, 2, 3]), parser_version = lit ''1'',
      l_acquire = (\<lambda>_. refuse), l_release = (\<lambda>_. refuse)\<rparr>"

lemma demo_batches:
  "parse_and_stage demo_ingestion_policy (logging_repository demo_staging_repository) (logging_ports demo_staging_ports)
     7 f [] ((), [], []) =
   (Inr no_stage, ((), [[demo_event 1, demo_event 2], [demo_event 3]], [demo_event 1, demo_event 2, demo_event 3]))"
  by (simp add: action_defs of_result_def log_event_def log_batch_def below_def parse_and_stage_def stage_event_def
      add_event_def flush_batch_def charge_issue_def demo_event_def demo_ingestion_policy_def demo_staging_repository_def
      demo_staging_ports_def logging_repository_def logging_ports_def no_batch_def stage_memory_charge_def
      ensure_stage_event_within_limits_def pv_opt_def)

theorem staging_batches_cover_events_witness:
  "list_all (\<lambda>b. sum_list (map stage_units b) \<le> 2) [[demo_event 1, demo_event 2], [demo_event 3]]"
  using staging_batches_cover_events [OF demo_batches [of undefined]] by (simp add: demo_ingestion_policy_def)

text \<open>
  Counting is compositional: the summary of a stream split at any point is the sum of the
  summaries of its parts, and it fails exactly when one of the parts fails.
\<close>

theorem stage_events_append:
  "stage_events (xs @ ys) =
     rbind (stage_events xs) (\<lambda>a. rbind (stage_events ys) (\<lambda>b. Inr (combine_stage a b)))"
proof (cases "count_events xs no_stage")
  case (Inl e)
  then show ?thesis by (simp add: stage_events_def count_events_append)
next
  case (Inr a)
  have "count_events ys a = (case count_events ys no_stage of Inl x \<Rightarrow> Inl x | Inr b \<Rightarrow> Inr (combine_stage a b))"
    using count_events_combine [of ys a no_stage] by simp
  then show ?thesis using Inr
    by (cases "count_events ys no_stage") (simp_all add: stage_events_def count_events_append combine_stage_def)
qed

end
