(* ===== verification/Ingestion_Run.thy ===== *)
theory Ingestion_Run
  imports Ingestion_Lifecycle Source_Audit Ingestion_Staging
begin

text \<open>
  The ingestion service on the source store: the repository of \<open>Source_Store\<close> and everything
  else (downloads, object storage, parser, staging and apply tables, advisory locks of the
  server) as an arbitrary outside world. The operations of the repository that this
  development does not model read the store and change only the outside world; in the code
  they write the staging and catalogue tables and the record counters of the attempt.
\<close>

record 'w service_state =
  sv_db :: database
  sv_world :: 'w

text \<open>
  The outside world. \<open>o_try_lock\<close> is \<^verbatim>\<open>pg_try_advisory_lock\<close>, \<open>o_unlock\<close> the release of the lock
  or of its session, which does not fail.
\<close>

record 'w outside =
  o_reuse :: "database \<Rightarrow> nat \<Rightarrow> ustr \<Rightarrow> DocumentType \<Rightarrow> CompressionFormat \<Rightarrow> ('w, exn, StageSummary option) action"
  o_stage :: "database \<Rightarrow> nat \<Rightarrow> ParsedEvent list \<Rightarrow> ('w, exn, StageSummary) action"
  o_finalize :: "database \<Rightarrow> nat \<Rightarrow> DocumentType \<Rightarrow> ('w, exn, StageSummary) action"
  o_quarantined :: "database \<Rightarrow> nat \<Rightarrow> ('w, exn, bool) action"
  o_apply :: "database \<Rightarrow> nat \<Rightarrow> DocumentType \<Rightarrow> int \<Rightarrow> rat \<Rightarrow> ('w, exn, ApplySummary) action"
  o_open :: "RemoteFile \<Rightarrow> int option \<Rightarrow> ('w, exn, nat) action"
  o_transferred :: "nat \<Rightarrow> 'w \<Rightarrow> int"
  o_finish :: "nat \<Rightarrow> int \<Rightarrow> ('w, exn, DownloadEvidence) action"
  o_close :: "nat \<Rightarrow> ('w, exn, unit) action"
  o_put :: "nat \<Rightarrow> ustr \<Rightarrow> ('w, exn, ustr \<times> int \<times> bool) action"
  o_verify :: "ustr \<Rightarrow> ustr \<Rightarrow> ('w, exn, int) action"
  o_read :: "ustr \<Rightarrow> ('w, exn, unit) action"
  o_read_close :: "ustr \<Rightarrow> ('w, exn, unit) action"
  o_parse :: "nat \<Rightarrow> RemoteFile \<Rightarrow> 'w \<Rightarrow> ('w, exn, ParsedEvent) action list"
  o_parser_version :: ustr
  o_try_lock :: "nat \<Rightarrow> ('w, exn, bool) action"
  o_unlock :: "nat \<Rightarrow> 'w \<Rightarrow> 'w"

definition on_db :: "'a statement \<Rightarrow> ('w service_state, exn, 'a) action" where
  "on_db m s = (case m (sv_db s) of (r, d) \<Rightarrow> (r, s\<lparr>sv_db := d\<rparr>))"

definition on_outside :: "(database \<Rightarrow> ('w, exn, 'a) action) \<Rightarrow> ('w service_state, exn, 'a) action" where
  "on_outside m s = (case m (sv_db s) (sv_world s) of (r, w) \<Rightarrow> (r, s\<lparr>sv_world := w\<rparr>))"

text \<open>\<^verbatim>\<open>PostgresLeaseManager.acquire\<close>: entering sets the lock of the task when the server grants it, leaving resets it.\<close>

definition lease_acquire :: "'w outside \<Rightarrow> nat \<Rightarrow> ('w service_state, exn, bool) action" where
  "lease_acquire out sid =
     abind (on_outside (\<lambda>_. o_try_lock out sid)) (\<lambda>acquired.
     abind (if acquired then amodify (\<lambda>s. s\<lparr>sv_db := (sv_db s)\<lparr>db_lock := Some sid\<rparr>\<rparr>) else areturn ()) (\<lambda>_.
       areturn acquired))"

definition lease_release :: "'w outside \<Rightarrow> nat \<Rightarrow> ('w service_state, exn, unit) action" where
  "lease_release out sid = amodify (\<lambda>s.
     if db_lock (sv_db s) = Some sid
     then s\<lparr>sv_db := (sv_db s)\<lparr>db_lock := None\<rparr>, sv_world := o_unlock out sid (sv_world s)\<rparr> else s)"

definition store_repository :: "url_library \<Rightarrow> 'w outside \<Rightarrow> 'w service_state IngestionRepository" where
  "store_repository L out =
     \<lparr>i_assert_allowed = (\<lambda>rebuild. on_db (assert_ingestion_allowed rebuild)),
      i_register_discovery = (\<lambda>rf own. on_db (register_discovery L rf own)),
      i_get = (\<lambda>sid. on_db (get_file sid)),
      i_transition = (\<lambda>sid expected t ec. on_db (transition sid expected t ec)),
      i_record_archive = (\<lambda>sid archived version. on_db (record_archive sid archived version)),
      i_archive_sha256 = (\<lambda>sid. on_db (archive_sha256 sid)),
      i_reuse_validated_staging = (\<lambda>sid version dt cf. on_outside (\<lambda>d. o_reuse out d sid version dt cf)),
      i_stage = (\<lambda>sid es. on_outside (\<lambda>d. o_stage out d sid es)),
      i_finalize_staging = (\<lambda>sid dt. on_outside (\<lambda>d. o_finalize out d sid dt)),
      i_has_file_quarantine_issue = (\<lambda>sid. on_outside (\<lambda>d. o_quarantined out d sid)),
      i_apply = (\<lambda>sid dt n q. on_outside (\<lambda>d. o_apply out d sid dt n q)),
      i_begin_replay = (\<lambda>sid version rebuild. on_db (begin_replay sid version rebuild)),
      i_finish_replay = (\<lambda>i succeeded ec. on_db (finish_replay i succeeded ec))\<rparr>"

definition store_ports :: "'w outside \<Rightarrow> 'w service_state IngestionPorts" where
  "store_ports out =
     \<lparr>d_open = (\<lambda>rf cap. on_outside (\<lambda>_. o_open out rf cap)),
      d_transferred = (\<lambda>h s. o_transferred out h (sv_world s)),
      d_finish = (\<lambda>h n. on_outside (\<lambda>_. o_finish out h n)),
      d_close = (\<lambda>h. on_outside (\<lambda>_. o_close out h)),
      a_put = (\<lambda>h name. on_outside (\<lambda>_. o_put out h name)),
      a_verify = (\<lambda>k sha. on_outside (\<lambda>_. o_verify out k sha)),
      a_open = (\<lambda>k. on_outside (\<lambda>_. o_read out k)),
      a_close = (\<lambda>k. on_outside (\<lambda>_. o_read_close out k)),
      a_parse = (\<lambda>sid rf s. map (\<lambda>m. on_outside (\<lambda>_. m)) (o_parse out sid rf (sv_world s))),
      parser_version = o_parser_version out,
      l_acquire = lease_acquire out,
      l_release = lease_release out\<rparr>"

section \<open>The store keeps the contract\<close>

lemma wp_on_db:
  "wp (on_db m) Q E s \<longleftrightarrow> wp m (\<lambda>x d. Q x (s\<lparr>sv_db := d\<rparr>)) (\<lambda>e d. E e (s\<lparr>sv_db := d\<rparr>)) (sv_db s)"
  by (auto simp: wp_def on_db_def split: prod.splits sum.splits)

abbreviation store_ok :: "'w service_state \<Rightarrow> bool" where
  "store_ok s \<equiv> store_inv (sv_db s)"

abbreviation store_ledger :: "'w service_state \<Rightarrow> ledger" where
  "store_ledger s \<equiv> ledger_of (sv_db s)"

abbreviation store_owner :: "'w service_state \<Rightarrow> nat option" where
  "store_owner s \<equiv> db_lock (sv_db s)"

lemmas store_selectors = store_repository_def store_ports_def IngestionRepository.select_convs IngestionPorts.select_convs

lemma outside_alone: "leaves_alone store_ok store_ledger store_owner (on_outside m)"
  by (auto simp: leaves_alone_def observed_def wp_def on_outside_def split: prod.splits sum.splits)

lemma status_last:
  assumes "store_inv d"
  shows "status_of d sid = map_option last (ledger_of d sid)"
proof (cases "source_file d sid")
  case (Some f)
  from trail_end [OF assms Some] show ?thesis by (metis Some ledger_of_def option.distinct(1) option.map(2) status_of_def)
qed (simp add: status_of_def ledger_of_def)

lemma moved_ledger:
  assumes "store_inv d" "moved d sid t d'"
  shows "\<exists>ts. ledger_of d sid = Some ts \<and> last ts = the (status_of d sid) \<and> t \<in> ALLOWED_TRANSITIONS (last ts) \<and>
     store_inv d' \<and> ledger_of d' = (ledger_of d)(sid \<mapsto> ts @ [t]) \<and> db_lock d' = db_lock d"
proof -
  obtain f where f: "source_file d sid = Some f" "t \<in> ALLOWED_TRANSITIONS (f_status f)" "db_lock d' = db_lock d"
    using assms(2) by (auto simp: moved_def)
  have l: "ledger_of d sid = Some (trail d sid)" using f(1) by (simp add: ledger_of_def)
  then have "f_status f = last (trail d sid)" using status_last [OF assms(1), of sid] f(1) by (simp add: status_of_def)
  then show ?thesis using l f moved_inv(1,2) [OF assms] by (simp add: status_of_def)
qed

lemma quiet_observed:
  "store_inv d \<Longrightarrow> quiet d d' \<Longrightarrow> store_inv d' \<and> ledger_of d' = ledger_of d \<and> db_lock d' = db_lock d"
  using quiet_inv [of d d'] by (simp add: quiet_def)

lemma db_alone:
  assumes "\<And>d. store_inv d \<Longrightarrow> wp m (\<lambda>_. quiet d) (\<lambda>_. quiet d) d"
  shows "leaves_alone store_ok store_ledger store_owner (on_db m)"
  unfolding leaves_alone_def wp_on_db observed_def
  by (auto intro!: wp_mono [OF assms] dest: quiet_observed)

lemma assert_allowed_quiet: "wp (assert_ingestion_allowed r) (\<lambda>_. quiet d) (\<lambda>_. quiet d) d"
  by (auto simp: assert_ingestion_allowed_def maintenance_allows_def wp_transaction action_simps split: option.split)

lemma archive_sha256_quiet: "wp (archive_sha256 sid) (\<lambda>_. quiet d) (\<lambda>_. quiet d) d"
  by (auto simp: archive_sha256_def wp_transaction action_simps split: option.split)

lemma db_steps:
  assumes "\<And>d. wp m (\<lambda>_ d'. moved d sid t d' \<and> (\<exists>s\<in>set expected. status_of d sid = Some s)) (\<lambda>_ d'. d' = d) d"
  shows "steps_to (store_ok :: 'w service_state \<Rightarrow> bool) store_ledger store_owner sid expected t (on_db m)"
  unfolding steps_to_def wp_on_db observed_def
proof (intro allI impI, rule wp_mono [OF assms])
  fix l w x d' and s :: "'w service_state"
  assume s: "store_ok s \<and> store_ledger s = l \<and> store_owner s = w"
    and m: "moved (sv_db s) sid t d' \<and> (\<exists>c\<in>set expected. status_of (sv_db s) sid = Some c)"
  from s have inv: "store_inv (sv_db s)" by simp
  from moved_ledger [OF inv] m obtain ts where "ledger_of (sv_db s) sid = Some ts" "last ts \<in> set expected"
    "t \<in> ALLOWED_TRANSITIONS (last ts)" "store_inv d'" "ledger_of d' = (ledger_of (sv_db s))(sid \<mapsto> ts @ [t])"
    "db_lock d' = store_owner s" by force
  then show "\<exists>ts. l sid = Some ts \<and> last ts \<in> set expected \<and> t \<in> ALLOWED_TRANSITIONS (last ts) \<and>
      store_ok (s\<lparr>sv_db := d'\<rparr>) \<and> store_ledger (s\<lparr>sv_db := d'\<rparr>) = l(sid \<mapsto> ts @ [t]) \<and> store_owner (s\<lparr>sv_db := d'\<rparr>) = w"
    using s by simp
qed simp

lemma registers_observed:
  assumes "store_inv d" "registers d own r d'"
  shows "\<exists>l' ts. (store_inv d' \<and> ledger_of d' = l' \<and> db_lock d' = db_lock d) \<and> l' (rs_source_file_id r) = Some ts \<and>
     rs_status r = last ts \<and> (own \<longrightarrow> db_lock d = Some (rs_source_file_id r)) \<and>
     (l' = ledger_of d \<or> ledger_of d (rs_source_file_id r) = None \<and> l' = (ledger_of d)(rs_source_file_id r \<mapsto> [DISCOVERED]))"
proof -
  let ?sid = "rs_source_file_id r"
  have lock: "db_lock d' = db_lock d" using registersD [OF assms(2)] by (auto simp: quiet_def entered_def)
  have inv: "store_inv d'" "ledger_of d' = ledger_of d \<or> ledger_of d ?sid = None \<and> ledger_of d' = (ledger_of d)(?sid \<mapsto> [DISCOVERED])"
    using assms(1) registersD [OF assms(2)] quiet_inv [of d d'] entered_inv [of d ?sid d'] by blast+
  obtain ts where "ledger_of d' ?sid = Some ts" "last ts = rs_status r"
    using assms(2) status_last [OF inv(1), of ?sid] by (auto simp: registers_def)
  then show ?thesis using inv lock assms(2) unfolding registers_def by auto
qed

interpretation service: audited_repository "store_repository L out" "store_ports out" store_ok store_ledger store_owner
  for L out
proof (unfold_locales, unfold store_selectors)
  fix sid expected t ec
  show "steps_to store_ok store_ledger store_owner sid expected t (on_db (transition sid expected t ec))"
    by (rule db_steps) (rule wp_mono [OF transition_moves], auto)
next
  fix l sid ts expected t ec and s :: "'a service_state"
  assume "observed store_ok store_ledger store_owner l (Some sid) s" "l sid = Some ts" "last ts \<in> set expected"
    "t \<in> ALLOWED_TRANSITIONS (last ts)" "\<not> code_too_long ec"
  then show "wp (on_db (transition sid expected t ec)) (\<lambda>_ _. True) (\<lambda>_ _. False) s"
    unfolding wp_on_db by (intro transition_total) (auto simp: observed_def status_last lock_admits_def)
next
  fix sid a v
  show "steps_to store_ok store_ledger store_owner sid [DOWNLOADING] ARCHIVED (on_db (record_archive sid a v))"
    by (rule db_steps) (rule wp_mono [OF record_archive_moves], auto)
next
  fix l sid ts and s :: "'a service_state"
  assume s: "observed store_ok store_ledger store_owner l (Some sid) s" "l sid = Some ts"
  then obtain f where "source_file (sv_db s) sid = Some f" by (auto simp: observed_def ledger_of_def split: if_splits)
  then have "wp (get_file sid) (\<lambda>_ _. True) (\<lambda>_ _. False) (sv_db s)"
    using s by (intro get_file_total) (auto simp: observed_def lock_admits_def)
  from wp_conj [OF this get_file_same]
  show "wp (on_db (get_file sid)) (\<lambda>r s'. observed store_ok store_ledger store_owner l (Some sid) s' \<and> rs_status r = last ts)
      (\<lambda>_ _. False) s"
    unfolding wp_on_db by (rule wp_mono) (use s in \<open>auto simp: observed_def status_last\<close>)
next
  fix l w f own and s :: "'a service_state"
  assume s: "observed store_ok store_ledger store_owner l w s"
  have "wp (register_discovery L f own) (registers (sv_db s) own) (\<lambda>_ d'. d' = sv_db s) (sv_db s)"
    by (rule register_discovery_registers) (use s in \<open>simp add: observed_def store_inv_def\<close>)
  then show "wp (on_db (register_discovery L f own))
      (\<lambda>r s'. \<exists>l' ts. observed store_ok store_ledger store_owner l' w s' \<and> l' (rs_source_file_id r) = Some ts \<and> rs_status r = last ts \<and>
         (own \<longrightarrow> w = Some (rs_source_file_id r)) \<and>
         (l' = l \<or> l (rs_source_file_id r) = None \<and> l' = l(rs_source_file_id r \<mapsto> [DISCOVERED])))
      (\<lambda>_. observed store_ok store_ledger store_owner l w) s"
    unfolding wp_on_db by (rule wp_mono) (use s registers_observed in \<open>auto simp: observed_def\<close>)
next
  fix l sid and s :: "'a service_state"
  assume "observed store_ok store_ledger store_owner l None s"
  then show "wp (lease_acquire out sid) (\<lambda>b s'. observed store_ok store_ledger store_owner l (if b then Some sid else None) s')
      (\<lambda>_. observed store_ok store_ledger store_owner l None) s"
    by (auto simp: lease_acquire_def wp_def action_defs on_outside_def observed_def locked_inv split: prod.splits sum.splits)
next
  fix l w sid and s :: "'a service_state"
  assume "observed store_ok store_ledger store_owner l w s" "w = None \<or> w = Some sid"
  then show "wp (lease_release out sid) (\<lambda>_. observed store_ok store_ledger store_owner l None) (\<lambda>_ _. False) s"
    by (auto simp: lease_release_def wp_amodify observed_def locked_inv)
qed (auto intro!: outside_alone db_alone assert_allowed_quiet archive_sha256_quiet)

section \<open>Failures under the lock, computed\<close>

lemma wp_eqI: "wp m (\<lambda>x t. Q x t) (\<lambda>_ _. False) s \<Longrightarrow> \<exists>x t. m s = (Inr x, t) \<and> Q x t"
  by (auto simp: wp_def split: prod.splits sum.splits)

lemma transition_refused:
  assumes "status_of d sid = Some c" "lock_admits d sid" "expected \<noteq> []" "\<not> code_too_long ec"
  shows "c \<notin> set expected \<Longrightarrow> transition sid expected t ec d = (Inl (exn_of PersistenceConflictError), d)"
    "c \<in> set expected \<Longrightarrow> t \<notin> ALLOWED_TRANSITIONS c \<Longrightarrow>
       transition sid expected t ec d = (Inl (exn_of InvalidStateTransitionError), d)"
  using assms
  by (auto simp: transition_def transaction_def action_defs of_result_def status_of_def lock_admits_def move_file_def
      ensure_ingestion_transition_def)

lemma get_file_value:
  assumes "store_inv d" "status_of d sid = Some c" "lock_admits d sid"
  obtains r where "get_file sid d = (Inr r, d)" "rs_status r = c"
proof -
  obtain f where "source_file d sid = Some f" using assms(2) by (auto simp: status_of_def)
  from wp_eqI [of "get_file sid" "\<lambda>r d'. d' = d \<and> rs_status r = c" d]
    wp_mono [OF wp_conj [OF get_file_total [OF assms(1) this assms(3)] get_file_same], of "\<lambda>r d'. d' = d \<and> rs_status r = c" "\<lambda>_ _. False"]
  show ?thesis using that assms(2) by auto
qed

lemma transition_value:
  assumes "store_inv d" "status_of d sid = Some c" "lock_admits d sid" "t \<in> ALLOWED_TRANSITIONS c" "\<not> code_too_long ec"
  obtains d' where "transition sid [c] t ec d = (Inr (), d')" "status_of d' sid = Some t"
proof -
  have "wp (transition sid [c] t ec) (\<lambda>_ d'. status_of d' sid = Some t) (\<lambda>_ _. False) d"
    by (rule wp_mono [OF wp_conj [OF transition_total [OF assms(1-3) _ assms(4,5)] transition_moves]])
      (auto dest: moved_inv(3) [OF assms(1)])
  from wp_eqI [OF this] show ?thesis using that by auto
qed

lemma record_failure_value:
  assumes "store_inv (sv_db s)" "status_of (sv_db s) sid = Some c" "db_lock (sv_db s) = Some sid"
    "c \<notin> {COMPLETED, QUARANTINED, FAILED_TERMINAL}"
  shows "failure_target e c \<in> ALLOWED_TRANSITIONS c \<Longrightarrow>
      \<exists>d'. record_failure (store_repository L out) sid e s = (Inr (), s\<lparr>sv_db := d'\<rparr>) \<and>
        status_of d' sid = Some (failure_target e c)"
    "failure_target e c \<notin> ALLOWED_TRANSITIONS c \<Longrightarrow>
      record_failure (store_repository L out) sid e s = (Inl (exn_of InvalidStateTransitionError), s)"
proof -
  have adm: "lock_admits (sv_db s) sid" using assms(3) by (simp add: lock_admits_def)
  obtain r where get: "get_file sid (sv_db s) = (Inr r, sv_db s)" "rs_status r = c"
    using get_file_value [OF assms(1,2) adm] .
  note code = service.error_code_short [of e]
  show "\<exists>d'. record_failure (store_repository L out) sid e s = (Inr (), s\<lparr>sv_db := d'\<rparr>) \<and>
        status_of d' sid = Some (failure_target e c)" if allowed: "failure_target e c \<in> ALLOWED_TRANSITIONS c"
  proof -
    obtain d' where "transition sid [c] (failure_target e c) (Some (error_code e)) (sv_db s) = (Inr (), d')"
      "status_of d' sid = Some (failure_target e c)"
      using transition_value [OF assms(1,2) adm allowed code] .
    then show ?thesis using assms(4) get
      by (intro exI [of _ d']) (simp add: record_failure_def store_repository_def on_db_def action_defs)
  qed
  show "failure_target e c \<notin> ALLOWED_TRANSITIONS c \<Longrightarrow>
      record_failure (store_repository L out) sid e s = (Inl (exn_of InvalidStateTransitionError), s)"
    using assms(4) get transition_refused(2) [OF assms(2) adm _ code, of "[c]" "failure_target e c"]
    by (simp add: record_failure_def store_repository_def on_db_def action_defs)
qed

text \<open>Both findings start from an owned registration that did not find the file completed.\<close>

lemma owned_registration:
  assumes "store_inv (sv_db s)" "register_discovery L f True (sv_db s) = (Inr r, d1)"
  shows "store_inv d1" "status_of d1 (rs_source_file_id r) = Some (rs_status r)" "db_lock d1 = Some (rs_source_file_id r)"
proof -
  have "ids_ok (sv_db s)" using assms(1) by (simp add: store_inv_def)
  from wp_ret [OF register_discovery_registers [OF this] assms(2)] have "registers (sv_db s) True r d1" .
  from registers_observed [OF assms(1) this] this
  show "store_inv d1" "status_of d1 (rs_source_file_id r) = Some (rs_status r)" "db_lock d1 = Some (rs_source_file_id r)"
    by (auto simp: registers_def)
qed

section \<open>Properties\<close>

text \<open>
  C1. A file that an ingestion returns is completed, whatever the publisher, the object storage, the
  parser and the apply did: its status is completed, no other file was touched and the lock is
  free again. When the file was processed by this call, so that the result has a summary of its staging (a duplicate has none), its trail ends with parsing,
  staging, validation, apply and completion, in this order and with nothing in between. This includes files whose validated staging is
  reused: they pass through the status parsing as well, other than in the diagram of \<^verbatim>\<open>docs/ingestion-lifecycle.md\<close>.
\<close>
theorem ingest_completes_lifecycle:
  assumes "store_inv (sv_db s)" "db_lock (sv_db s) = None"
    and "ingest p (store_repository L out) (store_ports out) f m s = (Inr r, s')"
  shows "ir_status r = COMPLETED \<and> status_of (sv_db s') (ir_source_file_id r) = Some COMPLETED \<and>
     db_lock (sv_db s') = None \<and> (\<forall>k. k \<noteq> ir_source_file_id r \<longrightarrow> ledger_of (sv_db s') k = ledger_of (sv_db s) k) \<and>
     (ir_stage r \<noteq> None \<longrightarrow> (\<exists>us. ledger_of (sv_db s') (ir_source_file_id r) =
        Some (us @ [PARSING, STAGED, VALIDATING, APPLYING, COMPLETED])))"
proof -
  have o: "observed store_ok store_ledger store_owner (ledger_of (sv_db s)) None s" using assms(1,2) by (simp add: observed_def)
  from wp_ret [OF service.ingest_ends [OF o] assms(3)] obtain l' where
    e: "store_inv (sv_db s')" "ledger_of (sv_db s') = l'" "db_lock (sv_db s') = None"
      "service.ingested (ledger_of (sv_db s)) (ir_source_file_id r) r l'"
    by (auto simp: service.free_end_def observed_def)
  then show ?thesis using status_last [OF e(1), of "ir_source_file_id r"] by (auto simp: service.ingested_def)
qed

text \<open>
  C2. An ingestion that raises an exception leaves nothing half done that it began: every file whose
  trail it changed is either newly discovered or rests in a final status or one that may be
  retried; no file is left in an active status. (A cancellation is not an exception and is not
  recorded.)
\<close>
theorem ingest_failure_settles:
  assumes "store_inv (sv_db s)" "db_lock (sv_db s) = None"
    and "ingest p (store_repository L out) (store_ports out) f m s = (Inl e, s')" "exn_class e \<noteq> CancelledError"
  shows "db_lock (sv_db s') = None \<and> (\<forall>k. ledger_of (sv_db s') k \<noteq> ledger_of (sv_db s) k \<longrightarrow>
     (\<exists>c. status_of (sv_db s') k = Some c \<and>
       (ledger_of (sv_db s) k = None \<and> c = DISCOVERED \<or> c \<in> {COMPLETED, QUARANTINED, FAILED_RETRYABLE, FAILED_TERMINAL})))"
proof -
  have o: "observed store_ok store_ledger store_owner (ledger_of (sv_db s)) None s" using assms(1,2) by (simp add: observed_def)
  from wp_exn [OF service.ingest_ends [OF o] assms(3)] obtain l' where
    e: "store_inv (sv_db s')" "ledger_of (sv_db s') = l'" "db_lock (sv_db s') = None"
      "service.raised (ledger_of (sv_db s)) e l'"
    by (auto simp: service.free_raise_def observed_def)
  then show ?thesis using status_last [OF e(1)] assms(4) by (fastforce simp: service.raised_def)
qed

text \<open>
  C36. A file that a stopped worker left in the status downloading is not downloaded again but failed
  for good by the next ingestion, unless the recovery of stale files ran before: the download
  expects a discovered or retryable file, the conflict is not an error that may be retried, and
  the file ends in the terminal failure status.
\<close>
theorem abandoned_download_fails_terminally:
  assumes "store_inv (sv_db s)" "register_discovery L f True (sv_db s) = (Inr r, d1)"
    and "rs_status r = DOWNLOADING" "rs_archive_object_key r = None"
  shows "\<exists>e s'. ingest_owned p (store_repository L out) (store_ports out) f m s = (Inl e, s') \<and>
     exn_class e = PersistenceConflictError \<and> status_of (sv_db s') (rs_source_file_id r) = Some FAILED_TERMINAL"
proof -
  let ?sid = "rs_source_file_id r" and ?e = "exn_of PersistenceConflictError" and ?s1 = "s\<lparr>sv_db := d1\<rparr>"
  note reg = owned_registration [OF assms(1,2)]
  have "lock_admits d1 ?sid" using reg(3) by (simp add: lock_admits_def)
  then have t: "transition ?sid [DISCOVERED, FAILED_RETRYABLE] DOWNLOADING None d1 = (Inl ?e, d1)"
    using reg(2) assms(3) by (intro transition_refused(1)) (auto simp: code_too_long_def)
  have ft: "failure_target ?e DOWNLOADING = FAILED_TERMINAL"
    by (simp add: failure_target_def retryable_def exn_of_def)
  obtain d' where d': "record_failure (store_repository L out) ?sid ?e ?s1 = (Inr (), ?s1\<lparr>sv_db := d'\<rparr>)"
    "status_of d' ?sid = Some FAILED_TERMINAL"
    using record_failure_value(1) [of ?s1 ?sid DOWNLOADING ?e L out] reg assms(3) ft by auto
  have "ingest_owned p (store_repository L out) (store_ports out) f m s = (Inl ?e, s\<lparr>sv_db := d'\<rparr>)"
    using assms(2-4) t d'(1)
    by (simp add: ingest_owned_def ensure_archived_def download_and_archive_def catch_exception_def ingest_failed_def
        store_repository_def on_db_def action_defs of_result_def Let_def) (simp add: exn_of_def)
  then show ?thesis using d'(2) by (auto simp: exn_of_def)
qed

text \<open>
  When the archived bytes of a file that may be retried cannot be verified for a temporary reason, the
  caller does not see that reason: recording the failure asks for a transition the lifecycle
  does not have, and the error of the transition, which may not be retried, replaces the
  original one.
\<close>
theorem temporary_verification_failure_is_masked:
  assumes "store_inv (sv_db s)" "register_discovery L f True (sv_db s) = (Inr r, d1)"
    and "rs_status r = FAILED_RETRYABLE" "rs_archive_object_key r = Some k" "rs_content_sha256 r = Some sha" "sha \<noteq> []"
    and "o_verify out k sha (sv_world s) = (Inl e, w)" "retryable e"
  shows "\<exists>e'. fst (ingest_owned p (store_repository L out) (store_ports out) f m s) = Inl e' \<and>
     exn_class e' = InvalidStateTransitionError \<and> \<not> retryable e'"
proof -
  let ?sid = "rs_source_file_id r" and ?s1 = "s\<lparr>sv_db := d1, sv_world := w\<rparr>"
  note reg = owned_registration [OF assms(1,2)]
  have e: "exn_class e \<noteq> CancelledError" "exn_class e \<notin> {MalformedDocumentError, UnsafeArchiveError, QuarantinedFileError}"
    using assms(8) by (auto simp: retryable_def)
  then have "failure_target e FAILED_RETRYABLE = FAILED_RETRYABLE" using assms(8) by (simp add: failure_target_def)
  then have "record_failure (store_repository L out) ?sid e ?s1 = (Inl (exn_of InvalidStateTransitionError), ?s1)"
    using record_failure_value(2) [of ?s1 ?sid FAILED_RETRYABLE e L out] reg assms(3) by simp
  then have "fst (ingest_owned p (store_repository L out) (store_ports out) f m s) = Inl (exn_of InvalidStateTransitionError)"
    using assms(2-7) e(1)
    by (simp add: ingest_owned_def ensure_archived_def catch_exception_def ingest_failed_def store_ports_def
        store_repository_def on_db_def on_outside_def action_defs of_result_def Let_def)
  then show ?thesis by (auto simp: exn_of_def retryable_def)
qed

section \<open>Witnesses\<close>

definition demo_digest :: ustr where
  "demo_digest = replicate 64 48"

definition demo_evidence :: "int \<Rightarrow> DownloadEvidence" where
  "demo_evidence n = \<lparr>de_started_at = Aware 0, de_finished_at = Aware 1, de_status_code = Some 200,
     de_content_length = n, de_media_type = None, de_etag = None, de_last_modified = None, de_response_metadata = []\<rparr>"

definition demo_outside :: "unit outside" where
  "demo_outside =
     \<lparr>o_reuse = (\<lambda>_ _ _ _ _. areturn (Some no_stage)), o_stage = (\<lambda>_ _ _. areturn no_stage),
      o_finalize = (\<lambda>_ _ _. areturn no_stage), o_quarantined = (\<lambda>_ _. areturn False),
      o_apply = (\<lambda>_ _ _ _ _. areturn \<lparr>inserted = 0, updated = 0, unchanged = 0, unavailable = 0, history_events = 0\<rparr>),
      o_open = (\<lambda>_ _. areturn 0), o_transferred = (\<lambda>_ _. 7), o_finish = (\<lambda>_ n. areturn (demo_evidence n)),
      o_close = (\<lambda>_. areturn ()), o_put = (\<lambda>_ _. areturn (demo_digest, 5, True)),
      o_verify = (\<lambda>_ _. araise (exn_of ArchiveCapacityError)), o_read = (\<lambda>_. areturn ()), o_read_close = (\<lambda>_. areturn ()),
      o_parse = (\<lambda>_ _ _. []), o_parser_version = [49], o_try_lock = (\<lambda>_. areturn True), o_unlock = (\<lambda>_ w. w)\<rparr>"

definition demo_offline :: "unit outside" where
  "demo_offline = demo_outside\<lparr>o_open := (\<lambda>_ _. araise (exn_of SourceAccessError))\<rparr>"

definition demo_at :: "store_op list \<Rightarrow> unit service_state" where
  "demo_at ops = \<lparr>sv_db = fold (run_store demo_urls) ops empty_database, sv_world = ()\<rparr>"

lemma demo_at_inv: "store_inv (sv_db (demo_at ops))"
  using store_sequence [OF empty_inv(1), of demo_urls ops] by (simp add: refines_def demo_at_def)

definition demo_ingest :: "unit outside \<Rightarrow> (exn + IngestionResult) \<times> unit service_state" where
  "demo_ingest out = ingest demo_ingestion_policy (store_repository demo_urls out) (store_ports out) demo_remote None (demo_at [])"

lemma demo_ingested: "fst (demo_ingest demo_outside) =
   Inr \<lparr>ir_source_file_id = 2, ir_status = COMPLETED, ir_content_sha256 = Some demo_digest, ir_stage = Some no_stage,
     ir_apply = Some \<lparr>inserted = 0, updated = 0, unchanged = 0, unavailable = 0, history_events = 0\<rparr>,
     ir_duplicate = False, ir_replayed = False, ir_transferred_bytes = 7\<rparr>"
  by code_simp

lemma demo_not_ingested: "map_sum exn_class ir_status (fst (demo_ingest demo_offline)) = Inl SourceAccessError"
  by code_simp

theorem ingest_completes_lifecycle_witness:
  "\<exists>us. ledger_of (sv_db (snd (demo_ingest demo_outside))) 2 = Some (us @ [PARSING, STAGED, VALIDATING, APPLYING, COMPLETED])"
proof -
  let ?r = "\<lparr>ir_source_file_id = 2, ir_status = COMPLETED, ir_content_sha256 = Some demo_digest, ir_stage = Some no_stage,
     ir_apply = Some \<lparr>inserted = 0, updated = 0, unchanged = 0, unavailable = 0, history_events = 0\<rparr>,
     ir_duplicate = False, ir_replayed = False, ir_transferred_bytes = 7\<rparr>"
  have "ingest demo_ingestion_policy (store_repository demo_urls demo_outside) (store_ports demo_outside) demo_remote None
      (demo_at []) = (Inr ?r, snd (demo_ingest demo_outside))"
    using demo_ingested by (metis demo_ingest_def prod.collapse)
  from ingest_completes_lifecycle [OF demo_at_inv _ this] show ?thesis by (simp add: demo_at_def empty_database_def)
qed

theorem ingest_failure_settles_witness:
  "db_lock (sv_db (snd (demo_ingest demo_offline))) = None"
proof -
  obtain e where e: "fst (demo_ingest demo_offline) = Inl e" "exn_class e = SourceAccessError"
    using demo_not_ingested by (cases "fst (demo_ingest demo_offline)") auto
  have "ingest demo_ingestion_policy (store_repository demo_urls demo_offline) (store_ports demo_offline) demo_remote None
      (demo_at []) = (Inl e, snd (demo_ingest demo_offline))"
    using e(1) by (metis demo_ingest_def prod.collapse)
  from ingest_failure_settles [OF demo_at_inv _ this] e(2) show ?thesis by (simp add: demo_at_def empty_database_def)
qed

definition demo_abandoned :: "store_op list" where
  "demo_abandoned = [Register demo_remote False, SetLock (Some 2), Transition 2 [DISCOVERED] DOWNLOADING None]"

definition demo_archived :: ArchivedDownload where
  "demo_archived = \<lparr>ad_archive = \<lparr>ar_content_sha256 = demo_digest, ar_object_key = demo_digest, ar_content_length = 5,
     ar_archived_at = Aware 1, ar_created = True\<rparr>, ad_evidence = demo_evidence 5, ad_transferred_bytes = 0\<rparr>"

definition demo_retryable :: "store_op list" where
  "demo_retryable = demo_abandoned @ [RecordArchive 2 demo_archived [49], Transition 2 [ARCHIVED] FAILED_RETRYABLE None]"

definition demo_registered :: "store_op list \<Rightarrow> (exn + RegisteredSourceFile) \<times> database" where
  "demo_registered ops = register_discovery demo_urls demo_remote True (sv_db (demo_at ops))"

lemma demo_registrations:
  "map_sum exn_class (\<lambda>r. (rs_source_file_id r, rs_status r, rs_archive_object_key r, rs_content_sha256 r)) (fst (demo_registered demo_abandoned)) =
     Inr (2, DOWNLOADING, None, None)"
  "map_sum exn_class (\<lambda>r. (rs_source_file_id r, rs_status r, rs_archive_object_key r, rs_content_sha256 r)) (fst (demo_registered demo_retryable)) =
     Inr (2, FAILED_RETRYABLE, Some demo_digest, Some demo_digest)"
  by code_simp+

lemma registered_value:
  assumes "map_sum exn_class (\<lambda>r. (rs_source_file_id r, rs_status r, rs_archive_object_key r, rs_content_sha256 r)) (fst x) = Inr (i, st, k, sha)"
  obtains r d where "x = (Inr r, d)" "rs_source_file_id r = i" "rs_status r = st" "rs_archive_object_key r = k" "rs_content_sha256 r = sha"
  using assms by (cases x, cases "fst x") auto

theorem abandoned_download_fails_terminally_witness:
  "\<exists>e s'. ingest_owned demo_ingestion_policy (store_repository demo_urls demo_outside) (store_ports demo_outside) demo_remote None
     (demo_at demo_abandoned) = (Inl e, s') \<and> status_of (sv_db s') 2 = Some FAILED_TERMINAL"
proof -
  obtain r d where r: "demo_registered demo_abandoned = (Inr r, d)" "rs_source_file_id r = 2" "rs_status r = DOWNLOADING"
    "rs_archive_object_key r = None" by (rule registered_value [OF demo_registrations(1)])
  from abandoned_download_fails_terminally [OF demo_at_inv r(1) [unfolded demo_registered_def] r(3,4)] r(2)
  show ?thesis by metis
qed

theorem temporary_verification_failure_is_masked_witness:
  "\<exists>e'. fst (ingest_owned demo_ingestion_policy (store_repository demo_urls demo_outside) (store_ports demo_outside) demo_remote None
     (demo_at demo_retryable)) = Inl e' \<and> exn_class e' = InvalidStateTransitionError"
proof -
  obtain r d where r: "demo_registered demo_retryable = (Inr r, d)" "rs_status r = FAILED_RETRYABLE"
    "rs_archive_object_key r = Some demo_digest" "rs_content_sha256 r = Some demo_digest"
    by (rule registered_value [OF demo_registrations(2)])
  have "o_verify demo_outside demo_digest demo_digest (sv_world (demo_at demo_retryable)) = (Inl (exn_of ArchiveCapacityError), ())"
    by (simp add: demo_outside_def araise_def demo_at_def)
  from temporary_verification_failure_is_masked [OF demo_at_inv r(1) [unfolded demo_registered_def] r(2-4) _ this,
      of demo_ingestion_policy None]
  show ?thesis by (auto simp: demo_digest_def retryable_def exn_of_def)
qed

end
