(* ===== verification/Worker.thy ===== *)
theory Worker
  imports Domain_Models "HOL-Library.Multiset"
begin

text \<open>
  The scheduler of \<^verbatim>\<open>application/worker.py\<close>: schedules, the policy, source health, the watchdog and
  the run of one source. The worker is cooperative: between two \<^verbatim>\<open>await\<close>s a task runs without
  interference, so a task is modelled by the segments between its awaits, and what an awaited call
  of the backend or the telemetry does is an \<open>io\<close> value that the step is given. Seconds on the
  monotonic clock are rationals.
\<close>

section \<open>Schedules and policy\<close>

definition is_ascii_alnum :: "nat \<Rightarrow> bool" where
  "is_ascii_alnum c \<longleftrightarrow> 65 \<le> c \<and> c \<le> 90 \<or> 97 \<le> c \<and> c \<le> 122 \<or> 48 \<le> c \<and> c \<le> 57"

text \<open>The pattern \<^verbatim>\<open>[A-Za-z0-9][A-Za-z0-9._:-]{0,199}\<close> on the whole text.\<close>

fun SOURCE_ID :: "ustr \<Rightarrow> bool" where
  "SOURCE_ID [] = False"
| "SOURCE_ID (c # cs) =
     (is_ascii_alnum c \<and> length cs \<le> 199 \<and> list_all (\<lambda>d. is_ascii_alnum d \<or> d \<in> {46, 95, 58, 45}) cs)"

record SourceSchedule =
  sc_source_id :: ustr
  sc_interval :: rat
  sc_jitter_ratio :: rat
  sc_run_immediately :: bool

definition SourceSchedule_post_init :: "SourceSchedule \<Rightarrow> exn + unit" where
  "SourceSchedule_post_init sc =
     (if \<not> SOURCE_ID (sc_source_id sc) then Inl (exn_of ValueError)
      else if sc_interval sc \<le> 0 then Inl (exn_of ValueError)
      else if \<not> (0 \<le> sc_jitter_ratio sc \<and> sc_jitter_ratio sc \<le> 1) then Inl (exn_of ValueError)
      else Inr ())"

record WorkerPolicy =
  wp_concurrency :: int
  wp_queue_capacity :: int
  wp_maximum_sources :: int
  wp_heartbeat_interval :: rat
  wp_scheduler_resolution :: rat
  wp_stale_after :: rat
  wp_stale_recovery_interval :: rat
  wp_shutdown_grace :: rat

definition WorkerPolicy_post_init :: "WorkerPolicy \<Rightarrow> exn + unit" where
  "WorkerPolicy_post_init p =
     (if wp_concurrency p \<le> 0 \<or> wp_queue_capacity p \<le> 0 \<or> wp_maximum_sources p \<le> 0
      then Inl (exn_of ValueError)
      else if list_ex (\<lambda>d. d \<le> 0) [wp_heartbeat_interval p, wp_scheduler_resolution p, wp_stale_after p,
                wp_stale_recovery_interval p, wp_shutdown_grace p]
      then Inl (exn_of ValueError)
      else Inr ())"

record SourceHealth =
  sh_source_id :: ustr
  sh_in_flight :: bool
  sh_successful_runs :: int
  sh_failed_runs :: int
  sh_consecutive_failures :: int
  sh_last_started_at :: "datetime option"
  sh_last_succeeded_at :: "datetime option"
  sh_last_failed_at :: "datetime option"
  sh_last_error_code :: "string option"

record SourceRunOutcome =
  so_source_id :: ustr
  so_succeeded :: bool
  so_started_at :: datetime
  so_finished_at :: datetime
  so_error_code :: "string option"

record WorkerRunSummary =
  ws_outcomes :: "SourceRunOutcome list"
  ws_stale_jobs_recovered :: int

definition no_health :: "ustr \<Rightarrow> SourceHealth" where
  "no_health sid = \<lparr>sh_source_id = sid, sh_in_flight = False, sh_successful_runs = 0, sh_failed_runs = 0,
     sh_consecutive_failures = 0, sh_last_started_at = None, sh_last_succeeded_at = None,
     sh_last_failed_at = None, sh_last_error_code = None\<rparr>"

text \<open>The checks of \<^verbatim>\<open>Worker.__init__\<close>.\<close>

definition Worker_init :: "ustr \<Rightarrow> exn + unit" where
  "Worker_init worker_id =
     (if worker_id = [] \<or> length worker_id > 200 \<or> list_ex (\<lambda>c. c < 32) worker_id
      then Inl (exn_of ValueError) else Inr ())"

section \<open>Source lists\<close>

text \<open>The loop of \<^verbatim>\<open>_source_ids\<close>, with the keys of the dictionary in insertion order.\<close>

fun source_ids_loop :: "int \<Rightarrow> ustr list \<Rightarrow> ustr list \<Rightarrow> exn + ustr list" where
  "source_ids_loop limit selected [] = Inr selected"
| "source_ids_loop limit selected (v # vs) =
     (let sid = py_strip v in
      if \<not> SOURCE_ID sid then Inl (exn_of ValueError)
      else let selected' = (if sid \<in> set selected then selected else selected @ [sid]) in
        if int (length selected') > limit then Inl (exn_of ValueError)
        else source_ids_loop limit selected' vs)"

definition source_ids :: "ustr list \<Rightarrow> int \<Rightarrow> exn + ustr list" where
  "source_ids vs limit = source_ids_loop limit [] vs"

fun schedules_loop :: "SourceSchedule list \<Rightarrow> SourceSchedule list \<Rightarrow> exn + SourceSchedule list" where
  "schedules_loop selected [] = Inr selected"
| "schedules_loop selected (sc # scs) =
     (if sc_source_id sc \<in> set (map sc_source_id selected) then Inl (exn_of ValueError)
      else schedules_loop (selected @ [sc]) scs)"

definition schedules :: "SourceSchedule list \<Rightarrow> int \<Rightarrow> exn + SourceSchedule list" where
  "schedules scs limit =
     (if int (length scs) > limit then Inl (exn_of ValueError) else schedules_loop [] scs)"

definition worker_error_code :: "exn \<Rightarrow> string" where
  "worker_error_code e =
     (if exn_class e = CancelledError then ''worker_shutdown''
      else case error_class_code (exn_class e) of Some c \<Rightarrow> c | None \<Rightarrow> ''unexpected_error'')"

section \<open>The run of one source\<close>

type_synonym health = "ustr \<Rightarrow> SourceHealth option"

text \<open>What an awaited call does: it returns or it raises. A task that is cancelled sees \<^verbatim>\<open>CancelledError\<close>.\<close>

datatype io = Returns | Raises exn

text \<open>
  Where \<^verbatim>\<open>_run_source\<close> waits: for the telemetry at the start, for the backend, for the telemetry at
  the end, or for the telemetry after a cancellation.
\<close>

datatype run_phase = Recording | Ingesting | Reporting SourceRunOutcome | Stopping

record source_run =
  sr_started_at :: datetime
  sr_started :: SourceHealth
  sr_phase :: run_phase

datatype run_result = Continues source_run | Finishes SourceRunOutcome | Fails exn

definition run_source_start :: "ustr \<Rightarrow> datetime \<Rightarrow> health \<Rightarrow> source_run \<times> health" where
  "run_source_start sid now h =
     (let current = (case h sid of Some x \<Rightarrow> x | None \<Rightarrow> no_health sid);
          started = current\<lparr>sh_in_flight := True, sh_last_started_at := Some now\<rparr>
      in (\<lparr>sr_started_at = now, sr_started = started, sr_phase = Recording\<rparr>, h(sid \<mapsto> started)))"

definition run_stopped :: "source_run \<Rightarrow> SourceHealth" where
  "run_stopped r = (sr_started r)\<lparr>sh_in_flight := False, sh_last_error_code := Some ''worker_shutdown''\<rparr>"

definition run_failed :: "datetime \<Rightarrow> exn \<Rightarrow> source_run \<Rightarrow> SourceHealth" where
  "run_failed now e r = (sr_started r)\<lparr>sh_in_flight := False,
     sh_failed_runs := sh_failed_runs (sr_started r) + 1,
     sh_consecutive_failures := sh_consecutive_failures (sr_started r) + 1,
     sh_last_failed_at := Some now, sh_last_error_code := Some (worker_error_code e)\<rparr>"

definition run_succeeded :: "datetime \<Rightarrow> source_run \<Rightarrow> SourceHealth" where
  "run_succeeded now r = (sr_started r)\<lparr>sh_in_flight := False,
     sh_successful_runs := sh_successful_runs (sr_started r) + 1, sh_consecutive_failures := 0,
     sh_last_succeeded_at := Some now, sh_last_error_code := None\<rparr>"

definition run_outcome :: "ustr \<Rightarrow> datetime \<Rightarrow> string option \<Rightarrow> source_run \<Rightarrow> SourceRunOutcome" where
  "run_outcome sid now ecode r = \<lparr>so_source_id = sid, so_succeeded = (ecode = None), so_started_at = sr_started_at r,
     so_finished_at = now, so_error_code = ecode\<rparr>"

definition run_source_step :: "ustr \<Rightarrow> datetime \<Rightarrow> io \<Rightarrow> source_run \<Rightarrow> health \<Rightarrow> run_result \<times> health" where
  "run_source_step sid now what r h =
     (case sr_phase r of
        Recording \<Rightarrow>
          (case what of Returns \<Rightarrow> (Continues (r\<lparr>sr_phase := Ingesting\<rparr>), h) | Raises e \<Rightarrow> (Fails e, h))
      | Ingesting \<Rightarrow>
          (case what of
             Returns \<Rightarrow> (Continues (r\<lparr>sr_phase := Reporting (run_outcome sid now None r)\<rparr>), h(sid \<mapsto> run_succeeded now r))
           | Raises e \<Rightarrow>
               if exn_class e = CancelledError
               then (Continues (r\<lparr>sr_phase := Stopping\<rparr>), h(sid \<mapsto> run_stopped r))
               else (Continues (r\<lparr>sr_phase := Reporting (run_outcome sid now (Some (worker_error_code e)) r)\<rparr>),
                     h(sid \<mapsto> run_failed now e r)))
      | Reporting outcome \<Rightarrow>
          (case what of Returns \<Rightarrow> (Finishes outcome, h) | Raises e \<Rightarrow> (Fails e, h))
      | Stopping \<Rightarrow>
          (case what of
             Returns \<Rightarrow> (Fails (exn_of CancelledError), h)
           | Raises e \<Rightarrow> (Fails (if exn_class e = CancelledError then exn_of CancelledError else e), h)))"

text \<open>
  A consumer task waits in \<^verbatim>\<open>queue.get()\<close>, runs a source, or has ended, with an exception or without.
\<close>

datatype consumer = Getting | Running ustr source_run | Ended "exn option"

fun running_source :: "consumer \<Rightarrow> ustr list" where
  "running_source (Running sid r) = [sid]"
| "running_source _ = []"

definition running_sources :: "consumer list \<Rightarrow> ustr list" where
  "running_sources cs = concat (map running_source cs)"

section \<open>Cadence\<close>

definition delay :: "(rat \<Rightarrow> rat) \<Rightarrow> SourceSchedule \<Rightarrow> rat" where
  "delay jitter sc = sc_interval sc + jitter (sc_interval sc * sc_jitter_ratio sc)"

text \<open>\<^verbatim>\<open>due\<close> are the values of \<^verbatim>\<open>next_due\<close>; there is at least one schedule.\<close>

definition next_sleep :: "WorkerPolicy \<Rightarrow> rat \<Rightarrow> rat list \<Rightarrow> rat \<Rightarrow> rat \<Rightarrow> rat" where
  "next_sleep p now due next_heartbeat next_recovery =
     (let next_action = fold min due (min next_heartbeat next_recovery)
      in max (1 / 1000) (min (wp_scheduler_resolution p) (next_action - now)))"

section \<open>The shutdown watchdog\<close>

text \<open>
  \<open>Armed d\<close>: a thread waits for the event, which is set when \<open>d\<close>. \<open>wd_exits\<close> are the calls of the
  terminator.
\<close>

datatype watchdog_state = Unarmed | Armed bool

record ProcessShutdownWatchdog =
  wd_exit_code :: int
  wd_state :: watchdog_state
  wd_exits :: "int list"

definition watchdog_init :: "int \<Rightarrow> exn + ProcessShutdownWatchdog" where
  "watchdog_init code =
     (if \<not> (0 \<le> code \<and> code \<le> 255) then Inl (exn_of ValueError)
      else Inr \<lparr>wd_exit_code = code, wd_state = Unarmed, wd_exits = []\<rparr>)"

text \<open>A timeout that is not finite is \<open>None\<close>. Arming twice starts one thread only.\<close>

definition watchdog_arm :: "rat option \<Rightarrow> ProcessShutdownWatchdog \<Rightarrow> exn + ProcessShutdownWatchdog" where
  "watchdog_arm timeout w =
     (case timeout of
        None \<Rightarrow> Inl (exn_of ValueError)
      | Some t \<Rightarrow> if t \<le> 0 then Inl (exn_of ValueError)
                  else Inr (if wd_state w = Unarmed then w\<lparr>wd_state := Armed False\<rparr> else w))"

definition watchdog_disarm :: "ProcessShutdownWatchdog \<Rightarrow> ProcessShutdownWatchdog" where
  "watchdog_disarm w = (if wd_state w = Unarmed then w else w\<lparr>wd_state := Armed True\<rparr>)"

text \<open>The waiting thread wakes when its timeout has passed.\<close>

definition terminate_unless_disarmed :: "ProcessShutdownWatchdog \<Rightarrow> ProcessShutdownWatchdog" where
  "terminate_unless_disarmed w =
     (if wd_state w = Armed False then w\<lparr>wd_exits := wd_exits w @ [wd_exit_code w]\<rparr> else w)"

section \<open>Lemmas\<close>

lemma running_sources_simps [simp]:
  "running_sources [] = []"
  "running_sources (c # cs) = running_source c @ running_sources cs"
  by (simp_all add: running_sources_def)

lemma running_sources_append: "running_sources (cs @ ds) = running_sources cs @ running_sources ds"
  by (simp add: running_sources_def)

text \<open>Replacing one consumer takes its source out of the running ones and puts the new one in.\<close>

lemma running_sources_update:
  "i < length cs \<Longrightarrow> mset (running_sources (cs[i := c])) + mset (running_source (cs ! i)) =
     mset (running_sources cs) + mset (running_source c)"
  by (induction cs arbitrary: i) (auto split: nat.split simp: union_ac)

text \<open>A run only touches the health of its own source.\<close>

lemma run_source_other:
  "sid' \<noteq> sid \<Longrightarrow> snd (run_source_start sid now h) sid' = h sid'"
  "sid' \<noteq> sid \<Longrightarrow> snd (run_source_step sid now what r h) sid' = h sid'"
  by (auto simp: run_source_start_def run_source_step_def Let_def split: run_phase.splits io.splits)

end
