(* ===== verification/Worker_Once.thy ===== *)
theory Worker_Once
  imports Worker
begin

text \<open>
  \<^verbatim>\<open>Worker.run_once\<close>: the calling task fills a bounded queue with the selected sources and one
  sentinel per consumer, waits until the queue is worked off and collects the consumers; the
  consumers run the sources. A state holds the queue, the number of unfinished items that
  \<^verbatim>\<open>queue.join()\<close> waits for, the consumer tasks and the place where the calling task waits. An
  event is one segment of one task. A wakened \<^verbatim>\<open>queue.get()\<close> may be overtaken by another consumer,
  so any waiting consumer may take the next item. The theorems hold for every order of the
  segments.
\<close>

section \<open>States and events\<close>

text \<open>
  The calling task: in \<^verbatim>\<open>_recover_stale_jobs\<close>, putting the remaining sources and sentinels, in
  \<^verbatim>\<open>queue.join()\<close>, in \<^verbatim>\<open>gather\<close>, in the \<^verbatim>\<open>finally\<close> clause with the exception that is on its way, or
  done.
\<close>

datatype once_main =
    Recovering | Filling "ustr list" nat | Joining | Gathering | Draining exn
  | Finished "exn + WorkerRunSummary"

record once_state =
  on_main :: once_main
  on_recovered :: int
  on_queue :: "ustr option list"
  on_unfinished :: nat
  on_consumers :: "consumer list"
  on_outcomes :: "ustr \<Rightarrow> SourceRunOutcome option"
  on_health :: health

datatype once_event =
    Recovered "exn + int" | Put | Joined | Gathered | GatherRaised nat | Drained | CallerCancelled
  | Take nat datetime | Resume nat io datetime | GetCancelled nat

definition once_init :: "health \<Rightarrow> once_state" where
  "once_init h = \<lparr>on_main = Recovering, on_recovered = 0, on_queue = [], on_unfinished = 0, on_consumers = [],
     on_outcomes = Map.empty, on_health = h\<rparr>"

text \<open>\<^verbatim>\<open>min(self._policy.concurrency, len(selected))\<close>\<close>

definition consumer_count :: "WorkerPolicy \<Rightarrow> ustr list \<Rightarrow> nat" where
  "consumer_count p selected = min (nat (wp_concurrency p)) (length selected)"

section \<open>The calling task\<close>

definition queue_full :: "WorkerPolicy \<Rightarrow> 'a list \<Rightarrow> bool" where
  "queue_full p q \<longleftrightarrow> int (length q) \<ge> wp_queue_capacity p"

definition put_item :: "ustr option \<Rightarrow> once_main \<Rightarrow> once_state \<Rightarrow> once_state" where
  "put_item x m s = s\<lparr>on_main := m, on_queue := on_queue s @ [x], on_unfinished := on_unfinished s + 1\<rparr>"

definition once_recovered :: "WorkerPolicy \<Rightarrow> ustr list \<Rightarrow> exn + int \<Rightarrow> once_state \<Rightarrow> once_state" where
  "once_recovered p selected r s =
     (case r of
        Inl e \<Rightarrow> s\<lparr>on_main := Finished (Inl e)\<rparr>
      | Inr n \<Rightarrow> s\<lparr>on_main := Filling selected (consumer_count p selected), on_recovered := n,
                   on_consumers := replicate (consumer_count p selected) Getting\<rparr>)"

text \<open>One \<^verbatim>\<open>queue.put\<close>, or the end of both loops.\<close>

definition once_put :: "WorkerPolicy \<Rightarrow> once_state \<Rightarrow> once_state option" where
  "once_put p s =
     (case on_main s of
        Filling [] 0 \<Rightarrow> Some (s\<lparr>on_main := Joining\<rparr>)
      | Filling [] (Suc k) \<Rightarrow> if queue_full p (on_queue s) then None else Some (put_item None (Filling [] k) s)
      | Filling (x # xs) k \<Rightarrow> if queue_full p (on_queue s) then None else Some (put_item (Some x) (Filling xs k) s)
      | _ \<Rightarrow> None)"

text \<open>\<^verbatim>\<open>outcomes[source_id]\<close> of a source without outcome is a \<^verbatim>\<open>KeyError\<close>.\<close>

definition once_summary :: "ustr list \<Rightarrow> once_state \<Rightarrow> exn + WorkerRunSummary" where
  "once_summary selected s =
     (case those (map (on_outcomes s) selected) of
        None \<Rightarrow> Inl (exn_of KeyError)
      | Some os \<Rightarrow> Inr \<lparr>ws_outcomes = os, ws_stale_jobs_recovered = on_recovered s\<rparr>)"

definition is_ended :: "consumer \<Rightarrow> bool" where
  "is_ended c \<longleftrightarrow> (case c of Ended _ \<Rightarrow> True | _ \<Rightarrow> False)"

section \<open>The consumers\<close>

text \<open>\<^verbatim>\<open>queue.task_done()\<close>\<close>

definition task_done :: "once_state \<Rightarrow> once_state" where
  "task_done s = s\<lparr>on_unfinished := on_unfinished s - 1\<rparr>"

definition set_consumer :: "nat \<Rightarrow> consumer \<Rightarrow> once_state \<Rightarrow> once_state" where
  "set_consumer i c s = s\<lparr>on_consumers := (on_consumers s)[i := c]\<rparr>"

definition consumer_take :: "nat \<Rightarrow> datetime \<Rightarrow> once_state \<Rightarrow> once_state option" where
  "consumer_take i now s =
     (case (on_consumers s ! i, on_queue s) of
        (Getting, None # q) \<Rightarrow> Some (task_done (set_consumer i (Ended None) (s\<lparr>on_queue := q\<rparr>)))
      | (Getting, Some sid # q) \<Rightarrow>
          (case run_source_start sid now (on_health s) of
             (r, h) \<Rightarrow> Some (set_consumer i (Running sid r) (s\<lparr>on_queue := q, on_health := h\<rparr>)))
      | _ \<Rightarrow> None)"

definition consumer_resume :: "nat \<Rightarrow> io \<Rightarrow> datetime \<Rightarrow> once_state \<Rightarrow> once_state option" where
  "consumer_resume i what now s =
     (case on_consumers s ! i of
        Running sid r \<Rightarrow>
          (case run_source_step sid now what r (on_health s) of
             (Continues r', h) \<Rightarrow> Some (set_consumer i (Running sid r') (s\<lparr>on_health := h\<rparr>))
           | (Finishes out, h) \<Rightarrow> Some (task_done (set_consumer i Getting
                (s\<lparr>on_health := h, on_outcomes := (on_outcomes s)(sid \<mapsto> out)\<rparr>)))
           | (Fails e, h) \<Rightarrow> Some (task_done (set_consumer i (Ended (Some e)) (s\<lparr>on_health := h\<rparr>))))
      | _ \<Rightarrow> None)"

section \<open>Steps\<close>

text \<open>
  \<^verbatim>\<open>gather\<close> returns when every consumer has returned and raises as soon as one has raised; a
  cancelled \<^verbatim>\<open>queue.get()\<close> only happens after the \<^verbatim>\<open>finally\<close> clause has cancelled the consumers.
\<close>

fun once_step :: "WorkerPolicy \<Rightarrow> ustr list \<Rightarrow> once_event \<Rightarrow> once_state \<Rightarrow> once_state option" where
  "once_step p selected (Recovered r) s =
     (if on_main s = Recovering then Some (once_recovered p selected r s) else None)"
| "once_step p selected Put s = once_put p s"
| "once_step p selected Joined s =
     (if on_main s = Joining \<and> on_unfinished s = 0 then Some (s\<lparr>on_main := Gathering\<rparr>) else None)"
| "once_step p selected Gathered s =
     (if on_main s = Gathering \<and> list_all (\<lambda>c. c = Ended None) (on_consumers s)
      then Some (s\<lparr>on_main := Finished (once_summary selected s)\<rparr>) else None)"
| "once_step p selected (GatherRaised i) s =
     (if on_main s = Gathering \<and> i < length (on_consumers s)
      then (case on_consumers s ! i of Ended (Some e) \<Rightarrow> Some (s\<lparr>on_main := Draining e\<rparr>) | _ \<Rightarrow> None)
      else None)"
| "once_step p selected Drained s =
     (case on_main s of
        Draining e \<Rightarrow> if list_all is_ended (on_consumers s) then Some (s\<lparr>on_main := Finished (Inl e)\<rparr>) else None
      | _ \<Rightarrow> None)"
| "once_step p selected CallerCancelled s =
     (case on_main s of
        Recovering \<Rightarrow> None
      | Finished _ \<Rightarrow> None
      | Draining _ \<Rightarrow> Some (s\<lparr>on_main := Finished (Inl (exn_of CancelledError))\<rparr>)
      | _ \<Rightarrow> Some (s\<lparr>on_main := Draining (exn_of CancelledError)\<rparr>))"
| "once_step p selected (Take i now) s = (if i < length (on_consumers s) then consumer_take i now s else None)"
| "once_step p selected (Resume i what now) s =
     (if i < length (on_consumers s) then consumer_resume i what now s else None)"
| "once_step p selected (GetCancelled i) s =
     (case on_main s of
        Draining _ \<Rightarrow>
          if i < length (on_consumers s) \<and> on_consumers s ! i = Getting
          then Some (set_consumer i (Ended (Some (exn_of CancelledError))) s) else None
      | _ \<Rightarrow> None)"

text \<open>
  \<open>run_once\<close> up to a sequence of events: the checks at the start, then the machine.
\<close>

definition run_once_selected :: "WorkerPolicy \<Rightarrow> ustr list \<Rightarrow> exn + ustr list" where
  "run_once_selected p vs =
     rbind (source_ids vs (wp_maximum_sources p)) (\<lambda>selected.
       if selected = [] then Inl (exn_of ValueError) else Inr selected)"

section \<open>Orderly runs\<close>

text \<open>
  In an orderly run the recovery and the telemetry return, the backend returns or raises an
  \<^verbatim>\<open>Exception\<close>, and nobody cancels the run.
\<close>

definition orderly_io :: "consumer \<Rightarrow> io \<Rightarrow> bool" where
  "orderly_io c what \<longleftrightarrow> (case (c, what) of
     (Running sid r, Raises e) \<Rightarrow> sr_phase r = Ingesting \<and> exn_class e \<noteq> CancelledError | _ \<Rightarrow> True)"

fun orderly :: "once_event \<Rightarrow> once_state \<Rightarrow> bool" where
  "orderly (Recovered r) s = (case r of Inl _ \<Rightarrow> False | Inr _ \<Rightarrow> True)"
| "orderly CallerCancelled s = False"
| "orderly (Resume i what now) s = orderly_io (on_consumers s ! i) what"
| "orderly _ s = True"

definition orderly_step :: "WorkerPolicy \<Rightarrow> ustr list \<Rightarrow> once_event \<Rightarrow> once_state \<Rightarrow> once_state option" where
  "orderly_step p selected ev s = (if orderly ev s then once_step p selected ev s else None)"

subsection \<open>The invariant\<close>

text \<open>
  \<open>pool sel xs k ys m s\<close>: the caller has still to put the sources \<open>xs\<close> and \<open>k\<close> sentinels, the queue
  holds the sources \<open>ys\<close> and behind them \<open>m\<close> sentinels. Every selected source is in one of these
  places, runs or has its outcome; a consumer ends only when no source is left to take.
\<close>

definition fine_consumer :: "consumer \<Rightarrow> bool" where
  "fine_consumer c = (case c of
     Getting \<Rightarrow> True
   | Running sid r \<Rightarrow> (case sr_phase r of Reporting out \<Rightarrow> so_source_id out = sid | Stopping \<Rightarrow> False | _ \<Rightarrow> True)
   | Ended e \<Rightarrow> e = None)"

definition pool :: "ustr list \<Rightarrow> ustr list \<Rightarrow> nat \<Rightarrow> ustr list \<Rightarrow> nat \<Rightarrow> once_state \<Rightarrow> bool" where
  "pool sel xs k ys m s \<longleftrightarrow>
     on_queue s = map Some ys @ replicate m None \<and> (xs \<noteq> [] \<longrightarrow> m = 0) \<and>
     k + m + count_list (on_consumers s) (Ended None) = length (on_consumers s) \<and>
     (Ended None \<in> set (on_consumers s) \<longrightarrow> xs = [] \<and> ys = []) \<and>
     on_unfinished s = length ys + m + length (running_sources (on_consumers s)) \<and>
     set sel = set xs \<union> set ys \<union> set (running_sources (on_consumers s)) \<union> dom (on_outcomes s) \<and>
     list_all fine_consumer (on_consumers s) \<and>
     (\<forall>sid out. on_outcomes s sid = Some out \<longrightarrow> so_source_id out = sid)"

definition once_inv :: "ustr list \<Rightarrow> nat \<Rightarrow> once_state \<Rightarrow> bool" where
  "once_inv sel n s \<longleftrightarrow> (case on_main s of
     Recovering \<Rightarrow> on_queue s = [] \<and> on_unfinished s = 0 \<and> on_consumers s = [] \<and> on_outcomes s = Map.empty
   | Filling xs k \<Rightarrow> length (on_consumers s) = n \<and> (\<exists>ys m. pool sel xs k ys m s)
   | Joining \<Rightarrow> length (on_consumers s) = n \<and> (\<exists>ys m. pool sel [] 0 ys m s)
   | Gathering \<Rightarrow> length (on_consumers s) = n \<and> on_unfinished s = 0 \<and> (\<exists>ys m. pool sel [] 0 ys m s)
   | Draining _ \<Rightarrow> False
   | Finished r \<Rightarrow> list_all (\<lambda>c. c = Ended None) (on_consumers s) \<and> (\<exists>summary. r = Inr summary \<and> map so_source_id (ws_outcomes summary) = sel))"

lemma count_list_update:
  "i < length xs \<Longrightarrow> count_list (xs[i := y]) x + (if xs ! i = x then 1 else 0) =
     count_list xs x + (if y = x then 1 else 0)"
proof (induction xs arbitrary: i)
  case (Cons a xs)
  then show ?case using Cons.IH [of "i - 1"] by (cases i; cases "y = x") auto
qed simp

lemma length_running_update:
  assumes "i < length cs"
  shows "length (running_sources (cs[i := c])) + length (running_source (cs ! i)) =
     length (running_sources cs) + length (running_source c)"
  using arg_cong [OF running_sources_update [OF assms, of c], of size] by simp

lemma set_running_update:
  assumes "i < length cs"
  shows "set (running_sources (cs[i := c])) \<union> set (running_source (cs ! i)) =
     set (running_sources cs) \<union> set (running_source c)"
  using arg_cong [OF running_sources_update [OF assms, of c], of set_mset] by simp

lemma list_all_update: "list_all P xs \<Longrightarrow> P x \<Longrightarrow> list_all P (xs[i := x])"
  by (auto simp: list_all_iff dest: set_update_subset_insert [THEN subsetD])

lemma running_subset: "c \<in> set cs \<Longrightarrow> set (running_source c) \<subseteq> set (running_sources cs)"
  by (auto simp: running_sources_def)

lemmas consumer_update = count_list_update [where x = "Ended None"] length_running_update set_running_update

text \<open>The caller puts a source or a sentinel.\<close>

lemma pool_put_source: "pool sel (x # xs) k ys m s \<Longrightarrow> pool sel xs k (ys @ [x]) m (put_item (Some x) mn s)"
  by (auto simp: pool_def put_item_def)

lemma pool_put_sentinel: "pool sel [] (Suc k) ys m s \<Longrightarrow> pool sel [] k ys (Suc m) (put_item None mn s)"
  by (auto simp: pool_def put_item_def replicate_append_same)

text \<open>A consumer takes a source or a sentinel, goes on with its source, or finishes it.\<close>

lemma shift_sets:
  assumes "R' \<union> Old = R \<union> New" "Y \<union> Old \<union> D = Y' \<union> New \<union> D'" "New \<subseteq> R'" "Old \<subseteq> R"
  shows "X \<union> Y \<union> R \<union> D = X \<union> Y' \<union> R' \<union> D'"
proof (rule set_eqI)
  fix x
  have "(x \<in> R' \<or> x \<in> Old) = (x \<in> R \<or> x \<in> New)"
    "(x \<in> Y \<or> x \<in> Old \<or> x \<in> D) = (x \<in> Y' \<or> x \<in> New \<or> x \<in> D')"
    using arg_cong [OF assms(1), of "(\<in>) x"] arg_cong [OF assms(2), of "(\<in>) x"] by simp_all
  with assms(3,4) show "x \<in> X \<union> Y \<union> R \<union> D \<longleftrightarrow> x \<in> X \<union> Y' \<union> R' \<union> D'" by auto
qed

lemma pool_set_consumer:
  assumes "pool sel xs k ys m s" "i < length (on_consumers s)" "fine_consumer c"
    and "on_consumers s' = (on_consumers s)[i := c]"
    and "on_queue s' = map Some ys' @ replicate m' None" "xs \<noteq> [] \<longrightarrow> m' = 0"
    and "m' + (if c = Ended None then 1 else 0) = m + (if on_consumers s ! i = Ended None then 1 else 0)"
    and "Ended None \<in> set (on_consumers s) \<or> c = Ended None \<Longrightarrow> xs = [] \<and> ys' = []"
    and "on_unfinished s' + length ys + m + length (running_source (on_consumers s ! i)) =
      on_unfinished s + length ys' + m' + length (running_source c)"
    and "set ys \<union> set (running_source (on_consumers s ! i)) \<union> dom (on_outcomes s) =
      set ys' \<union> set (running_source c) \<union> dom (on_outcomes s')"
    and "\<forall>sid out. on_outcomes s' sid = Some out \<longrightarrow> so_source_id out = sid"
  shows "pool sel xs k ys' m' s'"
proof -
  note u = consumer_update [OF assms(2), of c]
  have r: "set (running_source c) \<subseteq> set (running_sources ((on_consumers s)[i := c]))"
    "set (running_source (on_consumers s ! i)) \<subseteq> set (running_sources (on_consumers s))"
    using assms(2) by (auto intro!: running_subset set_update_memI)
  have "set sel = set xs \<union> set ys' \<union> set (running_sources (on_consumers s')) \<union> dom (on_outcomes s')"
    using assms(1) shift_sets [OF u(3) assms(10) r] unfolding assms(4) by (simp add: pool_def)
  moreover have "Ended None \<in> set (on_consumers s') \<Longrightarrow> xs = [] \<and> ys' = []"
    using assms(4,8) set_update_subset_insert [of "on_consumers s" i c] by auto
  moreover have "list_all fine_consumer (on_consumers s')"
    using assms(1,3,4) by (simp add: pool_def list_all_update)
  moreover have "k + m' + count_list (on_consumers s') (Ended None) = length (on_consumers s')"
    using assms(1,4,7) u(1) by (auto simp: pool_def split: if_splits)
  moreover have "on_unfinished s' = length ys' + m' + length (running_sources (on_consumers s'))"
    using assms(1,4,9) u(2) by (simp add: pool_def)
  ultimately show ?thesis using assms(5,6,11) by (simp add: pool_def)
qed

subsection \<open>The potential\<close>

text \<open>The number of events that are still to come: five per source and two per consumer, and four of the caller.\<close>

fun run_cost :: "run_phase \<Rightarrow> nat" where
  "run_cost Recording = 3"
| "run_cost Ingesting = 2"
| "run_cost _ = 1"

fun consumer_cost :: "consumer \<Rightarrow> nat" where
  "consumer_cost (Running sid r) = run_cost (sr_phase r)"
| "consumer_cost _ = 0"

fun item_cost :: "ustr option \<Rightarrow> nat" where
  "item_cost (Some sid) = 4"
| "item_cost None = 1"

definition pool_cost :: "once_state \<Rightarrow> nat" where
  "pool_cost s = sum_list (map item_cost (on_queue s)) + sum_list (map consumer_cost (on_consumers s))"

fun main_cost :: "ustr list \<Rightarrow> nat \<Rightarrow> once_main \<Rightarrow> nat" where
  "main_cost sel n Recovering = 5 * length sel + 2 * n + 4"
| "main_cost sel n (Filling xs k) = 5 * length xs + 2 * k + 3"
| "main_cost sel n Joining = 2"
| "main_cost sel n Gathering = 1"
| "main_cost sel n _ = 0"

definition once_potential :: "ustr list \<Rightarrow> nat \<Rightarrow> once_state \<Rightarrow> nat" where
  "once_potential sel n s = (case on_main s of Finished _ \<Rightarrow> 0 | m \<Rightarrow> main_cost sel n m + pool_cost s)"

lemma cost_update:
  "i < length cs \<Longrightarrow> sum_list (map f (cs[i := c])) + f (cs ! i) = sum_list (map f cs) + (f c :: nat)"
proof (induction cs arbitrary: i)
  case (Cons a cs)
  then show ?case using Cons.IH [of "i - 1"] by (cases i) auto
qed simp

text \<open>What a consumer step keeps: the place of the caller and the number of consumers; it costs one.\<close>

definition pool_step :: "ustr list \<Rightarrow> ustr list \<Rightarrow> nat \<Rightarrow> once_state \<Rightarrow> once_state \<Rightarrow> bool" where
  "pool_step sel xs k s s' \<longleftrightarrow> 0 < on_unfinished s \<and> (\<exists>ys m. pool sel xs k ys m s') \<and> on_main s' = on_main s \<and>
     length (on_consumers s') = length (on_consumers s) \<and> pool_cost s = Suc (pool_cost s')"

lemma pool_take:
  assumes "pool sel xs k ys m s" "i < length (on_consumers s)" "consumer_take i now s = Some s'"
  shows "pool_step sel xs k s s'"
proof -
  have get: "on_consumers s ! i = Getting" using assms(3) by (auto simp: consumer_take_def split: consumer.splits)
  have q: "on_queue s = map Some ys @ replicate m None" using assms(1) by (simp add: pool_def)
  have "on_queue s \<noteq> []" using assms(3) get by (auto simp: consumer_take_def)
  then have busy: "0 < on_unfinished s" using assms(1) q by (auto simp: pool_def)
  show ?thesis
  proof (cases ys)
    case (Cons y ys')
    let ?r = "fst (run_source_start y now (on_health s))"
    have s': "s' = set_consumer i (Running y ?r)
        (s\<lparr>on_queue := map Some ys' @ replicate m None, on_health := snd (run_source_start y now (on_health s))\<rparr>)"
      using assms(3) get q Cons by (simp add: consumer_take_def split: prod.splits)
    have r: "sr_phase ?r = Recording" by (simp add: run_source_start_def Let_def)
    have "pool sel xs k ys' m s'"
      by (rule pool_set_consumer [OF assms(1,2), where c = "Running y ?r"])
        (use assms(1) r in \<open>auto simp: s' set_consumer_def get Cons pool_def fine_consumer_def\<close>)
    moreover have "pool_cost s = Suc (pool_cost s')"
      using cost_update [OF assms(2), of consumer_cost "Running y ?r"]
      by (simp add: pool_cost_def s' set_consumer_def q Cons get r)
    ultimately show ?thesis using busy by (auto simp: pool_step_def s' set_consumer_def)
  next
    case Nil
    then obtain m' where m: "m = Suc m'" using assms(3) get q by (cases m) (auto simp: consumer_take_def)
    have s': "s' = task_done (set_consumer i (Ended None) (s\<lparr>on_queue := replicate m' None\<rparr>))"
      using assms(3) get q Nil m by (simp add: consumer_take_def)
    have "pool sel xs k [] m' s'"
      by (rule pool_set_consumer [OF assms(1,2), where c = "Ended None"])
        (use assms(1) in \<open>auto simp: s' set_consumer_def task_done_def get Nil m pool_def fine_consumer_def\<close>)
    moreover have "pool_cost s = Suc (pool_cost s')"
      using cost_update [OF assms(2), of consumer_cost "Ended None"]
      by (simp add: pool_cost_def s' set_consumer_def task_done_def q Nil m get)
    ultimately show ?thesis using busy by (auto simp: pool_step_def s' set_consumer_def task_done_def)
  qed
qed

text \<open>In an orderly run a source goes on or finishes with its own outcome.\<close>

lemma run_step_orderly:
  assumes "orderly_io (Running sid r) what" "fine_consumer (Running sid r)"
  obtains r' h' where "run_source_step sid now what r h = (Continues r', h')" "fine_consumer (Running sid r')"
      "run_cost (sr_phase r) = Suc (run_cost (sr_phase r'))"
    | out h' where "run_source_step sid now what r h = (Finishes out, h')" "so_source_id out = sid" "run_cost (sr_phase r) = 1"
  using assms
  by (cases "sr_phase r"; cases what)
    (auto simp: run_source_step_def orderly_io_def fine_consumer_def run_outcome_def)

lemma pool_resume:
  assumes "pool sel xs k ys m s" "i < length (on_consumers s)" "consumer_resume i what now s = Some s'"
    and "orderly_io (on_consumers s ! i) what"
  shows "pool_step sel xs k s s'"
proof -
  obtain sid r where run: "on_consumers s ! i = Running sid r"
    using assms(3) by (auto simp: consumer_resume_def split: consumer.splits)
  have fine: "fine_consumer (Running sid r)" using assms(1,2) run by (metis pool_def list_all_length)
  have io: "orderly_io (Running sid r) what" using assms(4) run by simp
  have one: "0 < length (running_sources (on_consumers s))"
    using running_subset [OF nth_mem [OF assms(2)]] run by (auto simp: length_pos_if_in_set)
  then have busy: "0 < on_unfinished s" using assms(1) by (simp add: pool_def)
  from io fine show ?thesis
  proof (rule run_step_orderly [where now = now and h = "on_health s"])
    fix r' h' assume c: "run_source_step sid now what r (on_health s) = (Continues r', h')" "fine_consumer (Running sid r')"
      "run_cost (sr_phase r) = Suc (run_cost (sr_phase r'))"
    have s': "s' = set_consumer i (Running sid r') (s\<lparr>on_health := h'\<rparr>)"
      using assms(3) run c(1) by (simp add: consumer_resume_def)
    have "pool sel xs k ys m s'"
      by (rule pool_set_consumer [OF assms(1,2) c(2)])
        (use assms(1) in \<open>auto simp: s' set_consumer_def run pool_def\<close>)
    moreover have "pool_cost s = Suc (pool_cost s')"
      using cost_update [OF assms(2), of consumer_cost "Running sid r'"] c(3)
      by (simp add: pool_cost_def s' set_consumer_def run)
    ultimately show ?thesis using busy by (auto simp: pool_step_def s' set_consumer_def)
  next
    fix out h' assume c: "run_source_step sid now what r (on_health s) = (Finishes out, h')" "so_source_id out = sid"
      "run_cost (sr_phase r) = 1"
    have s': "s' = task_done (set_consumer i Getting
        (s\<lparr>on_health := h', on_outcomes := (on_outcomes s)(sid \<mapsto> out)\<rparr>))"
      using assms(3) run c(1) by (simp add: consumer_resume_def)
    have "pool sel xs k ys m s'"
      by (rule pool_set_consumer [OF assms(1,2), where c = Getting])
        (use assms(1) one c(2) in \<open>auto simp: s' set_consumer_def task_done_def run pool_def fine_consumer_def\<close>)
    moreover have "pool_cost s = Suc (pool_cost s')"
      using cost_update [OF assms(2), of consumer_cost Getting] c(3)
      by (simp add: pool_cost_def s' set_consumer_def task_done_def run)
    ultimately show ?thesis using busy by (auto simp: pool_step_def s' set_consumer_def task_done_def)
  qed
qed

subsection \<open>The machine\<close>

definition once_ok :: "ustr list \<Rightarrow> nat \<Rightarrow> once_state \<Rightarrow> once_state \<Rightarrow> bool" where
  "once_ok sel n s s' \<longleftrightarrow> once_inv sel n s' \<and> once_potential sel n s = Suc (once_potential sel n s')"

text \<open>The consumers only move while the caller fills the queue or joins it.\<close>

lemma once_consumer_ok:
  assumes "once_inv sel n s" "i < length (on_consumers s)" "\<not> is_ended (on_consumers s ! i)"
    and "\<And>xs k ys m. pool sel xs k ys m s \<Longrightarrow> pool_step sel xs k s s'"
  shows "once_ok sel n s s'"
proof (cases "on_main s")
  case (Filling xs k)
  then obtain ys m where "pool sel xs k ys m s" using assms(1) by (auto simp: once_inv_def)
  from assms(4) [OF this] show ?thesis
    using assms(1) Filling by (auto simp: once_ok_def once_inv_def once_potential_def pool_step_def)
next
  case Joining
  then obtain ys m where "pool sel [] 0 ys m s" using assms(1) by (auto simp: once_inv_def)
  from assms(4) [OF this] show ?thesis
    using assms(1) Joining by (auto simp: once_ok_def once_inv_def once_potential_def pool_step_def)
next
  case Gathering
  then obtain ys m where "pool sel [] 0 ys m s" "on_unfinished s = 0" using assms(1) by (auto simp: once_inv_def)
  with assms(4) show ?thesis by (fastforce simp: pool_step_def)
next
  case (Finished r)
  with assms(1-3) show ?thesis by (auto simp: once_inv_def list_all_length is_ended_def)
qed (use assms(1,2) in \<open>auto simp: once_inv_def\<close>)

lemma once_take_ok:
  assumes "once_inv sel n s" "i < length (on_consumers s)" "consumer_take i now s = Some s'"
  shows "once_ok sel n s s'"
  by (rule once_consumer_ok [OF assms(1,2)])
    (use assms in \<open>auto simp: is_ended_def consumer_take_def split: consumer.splits intro: pool_take\<close>)

lemma once_resume_ok:
  assumes "once_inv sel n s" "i < length (on_consumers s)" "consumer_resume i what now s = Some s'"
    and "orderly_io (on_consumers s ! i) what"
  shows "once_ok sel n s s'"
  by (rule once_consumer_ok [OF assms(1,2)])
    (use assms in \<open>auto simp: is_ended_def consumer_resume_def split: consumer.splits intro: pool_resume\<close>)

lemma once_recovered_ok:
  assumes "once_inv sel (consumer_count p sel) s" "on_main s = Recovering"
  shows "once_ok sel (consumer_count p sel) s (once_recovered p sel (Inr k) s)"
proof -
  have "pool sel sel (consumer_count p sel) [] 0 (once_recovered p sel (Inr k) s)"
    using assms by (simp add: once_inv_def once_recovered_def pool_def fine_consumer_def list_all_iff
      running_sources_def)
  then show ?thesis using assms
    by (auto simp: once_ok_def once_inv_def once_potential_def once_recovered_def pool_cost_def)
qed

lemma once_put_ok:
  assumes "once_inv sel n s" "once_put p s = Some s'"
  shows "once_ok sel n s s'"
proof -
  obtain xs k where main: "on_main s = Filling xs k"
    using assms(2) by (auto simp: once_put_def split: once_main.splits)
  then obtain ys m where pool: "pool sel xs k ys m s" using assms(1) by (auto simp: once_inv_def)
  show ?thesis
  proof (cases xs)
    case (Cons x xs')
    then have s': "s' = put_item (Some x) (Filling xs' k) s"
      using assms(2) main by (auto simp: once_put_def split: if_splits)
    from pool_put_source [of sel x xs' k ys m s] pool Cons
    have "pool sel xs' k (ys @ [x]) m s'" unfolding s' by simp
    then show ?thesis using assms(1) main Cons
      by (auto simp: once_ok_def once_inv_def once_potential_def pool_cost_def s' put_item_def)
  next
    case Nil
    show ?thesis
    proof (cases k)
      case (Suc k')
      then have s': "s' = put_item None (Filling [] k') s"
        using assms(2) main Nil by (auto simp: once_put_def split: if_splits)
      from pool_put_sentinel [of sel k' ys m s] pool Nil Suc
      have "pool sel [] k' ys (Suc m) s'" unfolding s' by simp
      then show ?thesis using assms(1) main Nil Suc
        by (auto simp: once_ok_def once_inv_def once_potential_def pool_cost_def s' put_item_def)
    next
      case 0
      then have s': "s' = s\<lparr>on_main := Joining\<rparr>" using assms(2) main Nil by (simp add: once_put_def)
      have "pool sel [] 0 ys m s'" using pool Nil 0 by (simp add: pool_def s')
      then show ?thesis using assms(1) main Nil 0
        by (auto simp: once_ok_def once_inv_def once_potential_def pool_cost_def s')
    qed
  qed
qed

lemma those_map_dom: "set xs \<subseteq> dom f \<Longrightarrow> those (map f xs) = Some (map (the \<circ> f) xs)"
  by (induction xs) auto

lemma count_list_all: "count_list xs x = length xs \<longleftrightarrow> list_all (\<lambda>y. y = x) xs"
proof (induction xs)
  case (Cons y xs)
  then show ?case using count_le_length [of xs x] by auto
qed simp

lemma running_index: "sid \<in> set (running_sources cs) \<Longrightarrow> \<exists>i<length cs. \<exists>r. cs ! i = Running sid r"
proof (induction cs)
  case (Cons c cs)
  then show ?case by (cases c) (force simp: nth_Cons')+
qed simp

text \<open>When the queue is worked off, every consumer has ended and every source has its outcome.\<close>

lemma pool_drained:
  assumes "pool sel [] 0 ys m s" "on_unfinished s = 0"
  shows "list_all (\<lambda>c. c = Ended None) (on_consumers s)" "set sel = dom (on_outcomes s)"
proof -
  have "count_list (on_consumers s) (Ended None) = length (on_consumers s)" using assms by (simp add: pool_def)
  then show "list_all (\<lambda>c. c = Ended None) (on_consumers s)"
    by (simp add: count_list_all)
  show "set sel = dom (on_outcomes s)" using assms by (simp add: pool_def)
qed

lemma once_gathered_ok:
  assumes "once_inv sel n s" "on_main s = Gathering"
  shows "once_ok sel n s (s\<lparr>on_main := Finished (once_summary sel s)\<rparr>)"
proof -
  obtain ys m where pool: "pool sel [] 0 ys m s" "on_unfinished s = 0" using assms by (auto simp: once_inv_def)
  note d = pool_drained [OF pool]
  have ids: "so_source_id (the (on_outcomes s sid)) = sid" if "sid \<in> set sel" for sid
    using that pool(1) d(2) by (auto simp: pool_def)
  have "map (so_source_id \<circ> (the \<circ> on_outcomes s)) sel = map id sel" using ids by (intro map_cong) simp_all
  moreover have "pool_cost s = 0" using pool d(1) by (auto simp: pool_cost_def pool_def list_all_iff)
  ultimately show ?thesis using d assms(2)
    by (simp add: once_ok_def once_inv_def once_potential_def once_summary_def those_map_dom)
qed

lemma once_step_ok:
  assumes "once_inv sel (consumer_count p sel) s" "orderly_step p sel ev s = Some s'"
  shows "once_ok sel (consumer_count p sel) s s'"
proof (cases ev)
  case (Recovered r)
  then show ?thesis using assms once_recovered_ok by (cases r) (auto simp: orderly_step_def split: if_splits)
next
  case Joined
  then show ?thesis using assms
    by (auto simp: orderly_step_def once_ok_def once_inv_def once_potential_def pool_cost_def pool_def split: if_splits)
next
  case (GatherRaised i)
  then obtain e where "on_main s = Gathering" "i < length (on_consumers s)" "on_consumers s ! i = Ended (Some e)"
    using assms(2) by (auto simp: orderly_step_def split: if_splits consumer.splits option.splits)
  then show ?thesis using assms(1) by (auto simp: once_inv_def pool_def list_all_length fine_consumer_def)
next
  case Drained
  then show ?thesis using assms by (auto simp: orderly_step_def once_inv_def split: once_main.splits)
next
  case (GetCancelled i)
  then show ?thesis using assms by (auto simp: orderly_step_def once_inv_def split: once_main.splits)
qed (use assms in \<open>auto simp: orderly_step_def split: if_splits
      intro: once_put_ok once_gathered_ok once_take_ok once_resume_ok\<close>)

text \<open>Progress: while the caller waits, a consumer can move.\<close>

lemma consumer_can_move:
  assumes "pool sel xs k ys m s" "on_unfinished s \<noteq> 0" "on_consumers s \<noteq> []"
  shows "\<exists>ev s'. orderly_step p sel ev s = Some s'"
proof (cases "running_sources (on_consumers s)")
  case (Cons sid rs)
  then obtain i r where i: "i < length (on_consumers s)" "on_consumers s ! i = Running sid r"
    using running_index [of sid "on_consumers s"] by auto
  then have "consumer_resume i Returns (Naive 0) s \<noteq> None"
    by (simp add: consumer_resume_def split: prod.split run_result.split)
  then obtain s' where "consumer_resume i Returns (Naive 0) s = Some s'" by blast
  then have "orderly_step p sel (Resume i Returns (Naive 0)) s = Some s'"
    using i by (simp add: orderly_step_def orderly_io_def)
  then show ?thesis by blast
next
  case Nil
  then have q: "on_queue s \<noteq> []" using assms(1,2) by (auto simp: pool_def)
  have "\<exists>i<length (on_consumers s). on_consumers s ! i = Getting"
  proof (rule ccontr)
    assume no: "\<not> ?thesis"
    have "list_all (\<lambda>c. c = Ended None) (on_consumers s)"
      unfolding list_all_length
    proof (intro allI impI)
      fix i assume i: "i < length (on_consumers s)"
      then have "fine_consumer (on_consumers s ! i)" using assms(1) by (metis pool_def list_all_length)
      with no i Nil running_subset [OF nth_mem [OF i]] show "on_consumers s ! i = Ended None"
        by (cases "on_consumers s ! i") (auto simp: fine_consumer_def)
    qed
    moreover then have "Ended None \<in> set (on_consumers s)" using assms(3) by (cases "on_consumers s") auto
    ultimately show False using assms(1) q by (auto simp: pool_def count_list_all [symmetric])
  qed
  then obtain i where i: "i < length (on_consumers s)" "on_consumers s ! i = Getting" by blast
  then have "consumer_take i (Naive 0) s \<noteq> None"
    using q by (cases "on_queue s"; cases "hd (on_queue s)") (auto simp: consumer_take_def split: prod.split)
  then obtain s' where "consumer_take i (Naive 0) s = Some s'" by blast
  then have "orderly_step p sel (Take i (Naive 0)) s = Some s'" using i by (simp add: orderly_step_def)
  then show ?thesis by blast
qed

lemma once_progress:
  assumes "once_inv sel n s" "0 < n" "0 < wp_queue_capacity p" "\<nexists>r. on_main s = Finished r"
  shows "\<exists>ev s'. orderly_step p sel ev s = Some s'"
proof (cases "on_main s")
  case Recovering
  then have "orderly_step p sel (Recovered (Inr 0)) s = Some (once_recovered p sel (Inr 0) s)"
    by (simp add: orderly_step_def)
  then show ?thesis by blast
next
  case (Filling xs k)
  then obtain ys m where pool: "pool sel xs k ys m s" "on_consumers s \<noteq> []"
    using assms(1,2) by (auto simp: once_inv_def)
  show ?thesis
  proof (cases "queue_full p (on_queue s)")
    case True
    then have "on_queue s \<noteq> []" using assms(3) by (auto simp: queue_full_def)
    then have "on_unfinished s \<noteq> 0" using pool(1) by (auto simp: pool_def)
    from consumer_can_move [OF pool(1) this pool(2)] show ?thesis .
  next
    case False
    then have "once_put p s \<noteq> None" using Filling by (auto simp: once_put_def split: list.split nat.split)
    then obtain s' where "orderly_step p sel Put s = Some s'" by (auto simp: orderly_step_def)
    then show ?thesis by blast
  qed
next
  case Joining
  then obtain ys m where pool: "pool sel [] 0 ys m s" "on_consumers s \<noteq> []"
    using assms(1,2) by (auto simp: once_inv_def)
  show ?thesis
  proof (cases "on_unfinished s = 0")
    case True
    then have "orderly_step p sel Joined s = Some (s\<lparr>on_main := Gathering\<rparr>)"
      using Joining by (simp add: orderly_step_def)
    then show ?thesis by blast
  qed (use consumer_can_move [OF pool(1) _ pool(2)] in blast)
next
  case Gathering
  then obtain ys m where pool: "pool sel [] 0 ys m s" "on_unfinished s = 0"
    using assms(1) by (auto simp: once_inv_def)
  from pool_drained(1) [OF this] Gathering
  have "orderly_step p sel Gathered s = Some (s\<lparr>on_main := Finished (once_summary sel s)\<rparr>)"
    by (simp add: orderly_step_def)
  then show ?thesis by blast
qed (use assms in \<open>auto simp: once_inv_def\<close>)

text \<open>The contract of a progressing machine, for every valid policy and selection.\<close>

definition valid_worker :: "WorkerPolicy \<Rightarrow> ustr list \<Rightarrow> bool" where
  "valid_worker p sel \<longleftrightarrow> WorkerPolicy_post_init p = Inr () \<and> sel \<noteq> []"

definition once_final :: "once_state \<Rightarrow> bool" where
  "once_final s \<longleftrightarrow> (case on_main s of Finished _ \<Rightarrow> True | _ \<Rightarrow> False)"

lemma valid_worker_counts: "valid_worker p sel \<Longrightarrow> 0 < consumer_count p sel \<and> 0 < wp_queue_capacity p"
  by (auto simp: valid_worker_def WorkerPolicy_post_init_def consumer_count_def split: if_splits)

interpretation once: progressing_machine "orderly_step p sel"
    "\<lambda>s. valid_worker p sel \<and> once_inv sel (consumer_count p sel) s"
    "once_potential sel (consumer_count p sel)" once_final
  for p sel
proof unfold_locales
  fix s ev s'
  assume "valid_worker p sel \<and> once_inv sel (consumer_count p sel) s" "orderly_step p sel ev s = Some s'"
  then show "valid_worker p sel \<and> once_inv sel (consumer_count p sel) s'"
    "once_potential sel (consumer_count p sel) s = Suc (once_potential sel (consumer_count p sel) s')"
    using once_step_ok [of sel p s ev s'] by (simp_all add: once_ok_def)
next
  fix s assume "valid_worker p sel \<and> once_inv sel (consumer_count p sel) s" "\<not> once_final s"
  then show "\<exists>ev s'. orderly_step p sel ev s = Some s'"
    using once_progress [of sel "consumer_count p sel" s p] valid_worker_counts
    by (auto simp: once_final_def split: once_main.splits)
qed

lemma once_init_inv: "once_inv sel n (once_init h)"
  by (simp add: once_init_def once_inv_def)

section \<open>Properties\<close>

text \<open>
  C19. An orderly run over selected sources ends. Orderly means that the stale job recovery and every call of the telemetry return, that the backend returns
  or raises an exception other than a cancellation, and that the caller is not cancelled; a run that loses a consumer otherwise may hang. Under a valid policy an
  orderly run takes at most five events per source, two per consumer and four of the caller, in
  whatever order the tasks are scheduled. As long as it has not ended some task can move,
  and when it has ended its summary holds exactly one outcome for every selected source, in
  the order of the selection.
\<close>
theorem run_once_ends:
  assumes "WorkerPolicy_post_init p = Inr ()" "run_once_selected p vs = Inr sel"
    and "run_events (orderly_step p sel) (once_init h) es = Some s"
  shows "length es \<le> 5 * length sel + 2 * consumer_count p sel + 4 \<and>
    ((\<exists>ev s'. orderly_step p sel ev s = Some s') \<or>
     (\<exists>summary. on_main s = Finished (Inr summary) \<and> map so_source_id (ws_outcomes summary) = sel))"
proof -
  have v: "valid_worker p sel" using assms(1,2)
    by (auto simp: valid_worker_def run_once_selected_def rbind_Inr_iff split: if_splits)
  with once_init_inv have i: "valid_worker p sel \<and> once_inv sel (consumer_count p sel) (once_init h)" by blast
  from once.run_invar [OF i assms(3)] have j: "valid_worker p sel \<and> once_inv sel (consumer_count p sel) s" .
  have "length es \<le> 5 * length sel + 2 * consumer_count p sel + 4"
    using once.run_length [OF i assms(3)] by (simp add: once_potential_def once_init_def pool_cost_def)
  moreover have "\<exists>summary. on_main s = Finished (Inr summary) \<and> map so_source_id (ws_outcomes summary) = sel"
    if "\<nexists>ev s'. orderly_step p sel ev s = Some s'"
  proof -
    have "once_final s" using once.progress [OF j] that by blast
    then show ?thesis using j by (auto simp: once_final_def once_inv_def split: once_main.splits)
  qed
  ultimately show ?thesis by blast
qed

text \<open>A run of two sources by one consumer; the backend refuses the first one.\<close>

definition demo_policy :: WorkerPolicy where
  "demo_policy = \<lparr>wp_concurrency = 1, wp_queue_capacity = 2, wp_maximum_sources = 10, wp_heartbeat_interval = 30,
     wp_scheduler_resolution = 1, wp_stale_after = 7200, wp_stale_recovery_interval = 900, wp_shutdown_grace = 30\<rparr>"

definition demo_orders :: "once_event list" where
  "demo_orders = [Recovered (Inr 2), Put, Put, Take 0 (Aware 1), Resume 0 Returns (Aware 2), Put,
     Resume 0 (Raises (exn_of SourceAccessError)) (Aware 3), Resume 0 Returns (Aware 4), Put, Take 0 (Aware 5),
     Resume 0 Returns (Aware 6), Resume 0 Returns (Aware 7), Resume 0 Returns (Aware 8), Take 0 (Aware 9), Joined, Gathered]"

definition demo_outcomes :: "once_state \<Rightarrow> (ustr \<times> bool) list" where
  "demo_outcomes s = (case on_main s of
     Finished (Inr summary) \<Rightarrow> map (\<lambda>out. (so_source_id out, so_succeeded out)) (ws_outcomes summary) | _ \<Rightarrow> [])"

theorem run_once_ends_witness:
  "\<exists>s. run_events (orderly_step demo_policy [lit ''a'', lit ''b'']) (once_init Map.empty) demo_orders = Some s \<and>
     demo_outcomes s = [(lit ''a'', False), (lit ''b'', True)] \<and> length demo_orders \<le> 16 \<and>
     ((\<exists>ev s'. orderly_step demo_policy [lit ''a'', lit ''b''] ev s = Some s') \<or>
      (\<exists>summary. on_main s = Finished (Inr summary) \<and> map so_source_id (ws_outcomes summary) = [lit ''a'', lit ''b'']))"
proof -
  let ?sel = "[lit ''a'', lit ''b'']"
  let ?r = "run_events (orderly_step demo_policy ?sel) (once_init Map.empty) demo_orders"
  have p: "WorkerPolicy_post_init demo_policy = Inr ()" by code_simp
  have v: "run_once_selected demo_policy [lit ''a'', lit '' b ''] = Inr ?sel"
    by (simp add: run_once_selected_def source_ids_def py_strip_def is_py_space_def is_ascii_alnum_def demo_policy_def Let_def)
  have "map_option demo_outcomes ?r = Some [(lit ''a'', False), (lit ''b'', True)]"
    by code_simp
  then obtain s where s: "?r = Some s" "demo_outcomes s = [(lit ''a'', False), (lit ''b'', True)]"
    by (auto simp: map_option_eq_Some)
  have "consumer_count demo_policy ?sel = 1" by code_simp
  with run_once_ends [OF p v s(1)] s show ?thesis by simp
qed

section \<open>A lost consumer\<close>

text \<open>
  What every run keeps, orderly or not: the sentinels are with the caller, in the queue or taken,
  and \<^verbatim>\<open>join\<close> waits for what is queued or running.
\<close>

definition counted :: "nat \<Rightarrow> once_state \<Rightarrow> bool" where
  "counted k s \<longleftrightarrow>
     k + count_list (on_queue s) None + count_list (on_consumers s) (Ended None) = length (on_consumers s) \<and>
     on_unfinished s = length (on_queue s) + length (running_sources (on_consumers s))"

definition once_counted :: "once_state \<Rightarrow> bool" where
  "once_counted s \<longleftrightarrow> (case on_main s of
     Recovering \<Rightarrow> on_queue s = [] \<and> on_unfinished s = 0
   | Filling xs k \<Rightarrow> counted k s | Joining \<Rightarrow> counted 0 s | _ \<Rightarrow> True)"

text \<open>Every consumer has ended, but a sentinel is left that nobody will take.\<close>

definition lost :: "once_state \<Rightarrow> bool" where
  "lost s \<longleftrightarrow> list_all is_ended (on_consumers s) \<and>
     (case on_main s of Filling xs k \<Rightarrow> 0 < k \<or> 0 < on_unfinished s | Joining \<Rightarrow> 0 < on_unfinished s | _ \<Rightarrow> False)"

lemma counted_take:
  assumes "counted k s" "i < length (on_consumers s)" "consumer_take i now s = Some s'"
  shows "counted k s'" "on_main s' = on_main s"
proof -
  have get: "on_consumers s ! i = Getting" using assms(3) by (auto simp: consumer_take_def split: consumer.splits)
  show "counted k s'" "on_main s' = on_main s"
    using assms get consumer_update(1,2) [OF assms(2), of "Ended None"]
      consumer_update(1,2) [OF assms(2), of "Running sid r" for sid r]
    by (auto simp: consumer_take_def counted_def task_done_def set_consumer_def split: list.splits option.splits prod.splits)
qed

lemma counted_resume:
  assumes "counted k s" "i < length (on_consumers s)" "consumer_resume i what now s = Some s'"
  shows "counted k s'" "on_main s' = on_main s"
proof -
  obtain sid r where run: "on_consumers s ! i = Running sid r"
    using assms(3) by (auto simp: consumer_resume_def split: consumer.splits)
  note u = consumer_update(1,2) [OF assms(2)]
  have one: "0 < length (running_sources (on_consumers s))"
    using running_subset [OF nth_mem [OF assms(2)]] run by (auto simp: length_pos_if_in_set)
  obtain c where c: "on_consumers s' = (on_consumers s)[i := c]" "on_queue s' = on_queue s" "on_main s' = on_main s"
      "c \<noteq> Ended None" "on_unfinished s' = on_unfinished s - 1 + length (running_source c)"
  proof (cases "run_source_step sid now what r (on_health s)")
    case (Pair res h)
    have "0 < on_unfinished s" using one assms(1) by (simp add: counted_def)
    with Pair assms(3) run that show thesis
      by (cases res) (auto simp: consumer_resume_def task_done_def set_consumer_def)
  qed
  then show "on_main s' = on_main s" by simp
  show "counted k s'" using assms(1) c u [of c] run one by (auto simp: counted_def)
qed

lemma counted_put: "once_put p s = Some s' \<Longrightarrow> once_counted s \<Longrightarrow> once_counted s'"
  by (auto simp: once_put_def once_counted_def counted_def put_item_def split: once_main.splits list.splits nat.splits if_splits)

lemma counted_consumer_step:
  assumes "once_counted s" "i < length (on_consumers s)" "on_main s' = on_main s" "on_main s \<noteq> Recovering \<or> on_consumers s = []"
    and "\<And>k. counted k s \<Longrightarrow> counted k s'"
  shows "once_counted s'"
  using assms by (auto simp: once_counted_def split: once_main.splits)

lemma consumer_step_main:
  "consumer_take i now s = Some s' \<Longrightarrow> on_main s' = on_main s"
  "consumer_resume i what now s = Some s' \<Longrightarrow> on_main s' = on_main s"
  by (auto simp: consumer_take_def consumer_resume_def task_done_def set_consumer_def
    split: consumer.splits list.splits option.splits prod.splits run_result.splits)

definition once_reach :: "once_state \<Rightarrow> bool" where
  "once_reach s \<longleftrightarrow> once_counted s \<and> (on_main s = Recovering \<longrightarrow> on_consumers s = [])"

interpretation any_once: event_machine "once_step p sel" once_reach for p sel
proof unfold_locales
  fix s ev s' assume s: "once_reach s" "once_step p sel ev s = Some s'"
  show "once_reach s'"
  proof (cases ev)
    case (Recovered r)
    then show ?thesis using s by (cases r)
        (auto simp: once_reach_def once_counted_def counted_def once_recovered_def running_sources_def split: if_splits)
  next
    case Put
    then show ?thesis using s counted_put [of p s s']
      by (auto simp: once_reach_def once_put_def put_item_def split: once_main.splits list.splits nat.splits if_splits)
  next
    case (Take i now)
    then have t: "i < length (on_consumers s)" "consumer_take i now s = Some s'" using s(2) by (auto split: if_splits)
    show ?thesis using s(1) counted_consumer_step [of s i s'] counted_take [OF _ t] t consumer_step_main(1) [OF t(2)]
      by (auto simp: once_reach_def)
  next
    case (Resume i what now)
    then have t: "i < length (on_consumers s)" "consumer_resume i what now s = Some s'" using s(2) by (auto split: if_splits)
    show ?thesis using s(1) counted_consumer_step [of s i s'] counted_resume [OF _ t] t consumer_step_main(2) [OF t(2)]
      by (auto simp: once_reach_def)
  qed (use s in \<open>auto simp: once_reach_def once_counted_def counted_def set_consumer_def
      split: if_splits once_main.splits consumer.splits option.splits\<close>)
qed

text \<open>A lost run stays lost until somebody cancels it.\<close>

definition uncancelled_step :: "WorkerPolicy \<Rightarrow> ustr list \<Rightarrow> once_event \<Rightarrow> once_state \<Rightarrow> once_state option" where
  "uncancelled_step p selected ev s = (if ev = CallerCancelled then None else once_step p selected ev s)"

interpretation lost_once: event_machine "uncancelled_step p sel" lost for p sel
proof unfold_locales
  fix s ev s' assume s: "lost s" "uncancelled_step p sel ev s = Some s'"
  have ended: "\<not> is_ended (on_consumers s ! i) \<Longrightarrow> \<not> i < length (on_consumers s)" for i
    using s(1) by (auto simp: lost_def list_all_length)
  show "lost s'"
  proof (cases ev)
    case Put
    then show ?thesis using s
      by (auto simp: uncancelled_step_def lost_def once_put_def put_item_def split: once_main.splits list.splits nat.splits if_splits)
  next
    case (Take i now)
    then show ?thesis using s ended [of i]
      by (auto simp: uncancelled_step_def consumer_take_def is_ended_def split: if_splits consumer.splits)
  next
    case (Resume i what now)
    then show ?thesis using s ended [of i]
      by (auto simp: uncancelled_step_def consumer_resume_def is_ended_def split: if_splits consumer.splits)
  qed (use s in \<open>auto simp: uncancelled_step_def lost_def split: if_splits once_main.splits\<close>)
qed

lemma ended_with_exception:
  "Ended (Some e) \<in> set cs \<Longrightarrow> count_list cs (Ended None) < length cs"
proof (induction cs)
  case (Cons c cs)
  then show ?case using count_le_length [of cs "Ended None"] by auto
qed simp

text \<open>
  C37. A consumer that dies stops the run for good. The consumers do not survive an exception of the
  telemetry or a cancellation raised by the backend; in every state in which the last of them
  is gone while the caller still fills or joins the queue, however it was reached, the run
  never ends by itself, whatever happens next: it takes a cancellation from outside. With one consumer a
  single failed health report is enough.
\<close>
theorem run_once_hangs:
  assumes "run_events (once_step p sel) (once_init h) es = Some s" "list_all is_ended (on_consumers s)"
    and "Ended (Some e) \<in> set (on_consumers s)"
    and "(case on_main s of Filling xs k \<Rightarrow> True | Joining \<Rightarrow> True | _ \<Rightarrow> False)"
    and "run_events (uncancelled_step p sel) s fs = Some s'"
  shows "\<not> once_final s'"
proof -
  have "once_reach (once_init h)" by (simp add: once_reach_def once_counted_def once_init_def)
  from any_once.run_invar [OF this assms(1)] have "once_counted s" by (simp add: once_reach_def)
  then have "lost s" using assms(2,4) ended_with_exception [OF assms(3)] count_le_length [of "on_queue s" None]
    by (auto simp: lost_def once_counted_def counted_def split: once_main.splits)
  from lost_once.run_invar [OF this assms(5)] show ?thesis
    by (auto simp: lost_def once_final_def split: once_main.splits)
qed

definition demo_lost :: "once_event list" where
  "demo_lost = [Recovered (Inr 0), Put, Take 0 (Aware 1), Resume 0 (Raises (exn_of RepositoryError)) (Aware 2)]"

theorem run_once_hangs_witness:
  "\<exists>s. run_events (once_step demo_policy [lit ''a'']) (once_init Map.empty) demo_lost = Some s \<and>
     (\<exists>s'. run_events (uncancelled_step demo_policy [lit ''a'']) s [Put, Put] = Some s' \<and> on_main s' = Joining \<and> \<not> once_final s')"
proof -
  let ?r = "run_events (once_step demo_policy [lit ''a'']) (once_init Map.empty) demo_lost"
  have "map_option (\<lambda>s. (on_main s, on_consumers s, map_option on_main (run_events (uncancelled_step demo_policy [lit ''a'']) s [Put, Put]))) ?r
      = Some (Filling [] 1, [Ended (Some (exn_of RepositoryError))], Some Joining)"
    by (simp add: demo_lost_def once_init_def once_recovered_def once_put_def put_item_def uncancelled_step_def
      queue_full_def consumer_count_def demo_policy_def consumer_take_def consumer_resume_def run_source_start_def
      run_source_step_def set_consumer_def task_done_def Let_def)
  then obtain s s' where s: "?r = Some s" "on_main s = Filling [] 1" "on_consumers s = [Ended (Some (exn_of RepositoryError))]"
      "run_events (uncancelled_step demo_policy [lit ''a'']) s [Put, Put] = Some s'" "on_main s' = Joining"
    by (auto simp: map_option_eq_Some)
  have "\<not> once_final s'"
    by (rule run_once_hangs [OF s(1) _ _ _ s(4)]) (simp_all add: s is_ended_def)
  with s show ?thesis by auto
qed

end
