(* ===== verification/Worker_Schedule.thy ===== *)
theory Worker_Schedule
  imports Worker_Once
begin

text \<open>
  \<^verbatim>\<open>Worker.run_forever\<close>: a scheduling loop that queues every source that is due and not pending, recovers stale
  jobs and sends heartbeats, a fixed number of consumers that run the queued sources, and the
  shutdown that drains the queue within the grace period. Time passes between the segments: every
  segment that reads the clock is given the reading, and the readings are arbitrary. The signal
  handlers are the event that sets the stop flag.
\<close>

section \<open>States and events\<close>

text \<open>
  The scheduling task: in the recovery at the start, at the head of its loop, in the recovery or
  the heartbeat of a round (with the time of the round), asleep, in the three waits of the shutdown (or in the second one after it was cancelled), or done.
\<close>

datatype forever_main =
    Beginning | Looping | Recovering_at rat | Beating_at rat | Sleeping rat
  | Shutdown_join | Shutdown_wait | Shutdown_abort | Shutdown_beat | Over "exn + unit"

record forever_state =
  fv_main :: forever_main
  fv_stop :: bool
  fv_error :: "exn option"
  fv_queue :: "ustr list"
  fv_unfinished :: nat
  fv_pending :: "ustr set"
  fv_next_due :: "ustr \<Rightarrow> rat"
  fv_next_heartbeat :: rat
  fv_next_recovery :: rat
  fv_consumers :: "consumer list"
  fv_health :: health

datatype forever_event =
    Stop | Begun "exn + int" | Round rat "ustr \<Rightarrow> rat \<Rightarrow> rat" | Round_recovered "exn + int" | Beat io | Wake
  | Loop_cancelled | Shutdown_cancelled | Join_done | Join_timeout | Wait_over | Last_beat io
  | Pool_take nat datetime | Pool_resume nat io datetime | Pool_get_cancelled nat

text \<open>\<open>jitter sid\<close> is the jitter function as it answers for the source \<open>sid\<close> in this segment.\<close>

definition first_due :: "rat \<Rightarrow> (ustr \<Rightarrow> rat \<Rightarrow> rat) \<Rightarrow> SourceSchedule list \<Rightarrow> ustr \<Rightarrow> rat" where
  "first_due now jitter selected =
     (\<lambda>sid. case List.find (\<lambda>sc. sc_source_id sc = sid) selected of
        Some sc \<Rightarrow> now + (if sc_run_immediately sc then 0 else delay (jitter sid) sc) | None \<Rightarrow> 0)"

definition forever_init ::
    "WorkerPolicy \<Rightarrow> rat \<Rightarrow> (ustr \<Rightarrow> rat \<Rightarrow> rat) \<Rightarrow> SourceSchedule list \<Rightarrow> bool \<Rightarrow> health \<Rightarrow> forever_state" where
  "forever_init p now jitter selected stopped h =
     \<lparr>fv_main = Beginning, fv_stop = stopped, fv_error = None, fv_queue = [], fv_unfinished = 0, fv_pending = {},
      fv_next_due = first_due now jitter selected, fv_next_heartbeat = now,
      fv_next_recovery = now + wp_stale_recovery_interval p, fv_consumers = [], fv_health = h\<rparr>"

text \<open>The checks at the start.\<close>

definition run_forever_selected :: "WorkerPolicy \<Rightarrow> SourceSchedule list \<Rightarrow> exn + SourceSchedule list" where
  "run_forever_selected p scs =
     rbind (schedules scs (wp_maximum_sources p)) (\<lambda>selected.
       if selected = [] then Inl (exn_of ValueError) else Inr selected)"

section \<open>The scheduling loop\<close>

text \<open>The loop over the schedules; a full queue ends it.\<close>

fun enqueue_due ::
    "WorkerPolicy \<Rightarrow> rat \<Rightarrow> (ustr \<Rightarrow> rat \<Rightarrow> rat) \<Rightarrow> SourceSchedule list \<Rightarrow> forever_state \<Rightarrow> forever_state" where
  "enqueue_due p now jitter [] s = s"
| "enqueue_due p now jitter (sc # scs) s =
     (let sid = sc_source_id sc in
      if now < fv_next_due s sid \<or> sid \<in> fv_pending s then enqueue_due p now jitter scs s
      else if queue_full p (fv_queue s) then s
      else enqueue_due p now jitter scs
        (s\<lparr>fv_queue := fv_queue s @ [sid], fv_unfinished := fv_unfinished s + 1,
           fv_pending := insert sid (fv_pending s),
           fv_next_due := (fv_next_due s)(sid := now + delay (jitter sid) sc)\<rparr>))"

definition go_to_sleep :: "WorkerPolicy \<Rightarrow> SourceSchedule list \<Rightarrow> rat \<Rightarrow> forever_state \<Rightarrow> forever_state" where
  "go_to_sleep p selected now s =
     s\<lparr>fv_main := Sleeping (next_sleep p now (map (fv_next_due s \<circ> sc_source_id) selected)
         (fv_next_heartbeat s) (fv_next_recovery s))\<rparr>"

text \<open>After the recovery of a round, and after its heartbeat.\<close>

definition after_recovery :: "WorkerPolicy \<Rightarrow> SourceSchedule list \<Rightarrow> rat \<Rightarrow> forever_state \<Rightarrow> forever_state" where
  "after_recovery p selected now s =
     (if now \<ge> fv_next_heartbeat s then s\<lparr>fv_main := Beating_at now\<rparr> else go_to_sleep p selected now s)"

definition loop_round ::
    "WorkerPolicy \<Rightarrow> SourceSchedule list \<Rightarrow> rat \<Rightarrow> (ustr \<Rightarrow> rat \<Rightarrow> rat) \<Rightarrow> forever_state \<Rightarrow> forever_state" where
  "loop_round p selected now jitter s =
     (if fv_stop s then s\<lparr>fv_main := Shutdown_join\<rparr>
      else let s = enqueue_due p now jitter selected s in
        if now \<ge> fv_next_recovery s then s\<lparr>fv_main := Recovering_at now\<rparr>
        else after_recovery p selected now s)"

text \<open>An exception in the loop passes through the shutdown.\<close>

definition loop_raised :: "exn \<Rightarrow> forever_state \<Rightarrow> forever_state" where
  "loop_raised e s = s\<lparr>fv_main := Shutdown_join, fv_error := Some e\<rparr>"

definition shut_down :: "forever_state \<Rightarrow> forever_state" where
  "shut_down s = s\<lparr>fv_main := Over (case fv_error s of Some e \<Rightarrow> Inl e | None \<Rightarrow> Inr ())\<rparr>"

section \<open>The consumers\<close>

definition pool_consumer :: "nat \<Rightarrow> consumer \<Rightarrow> forever_state \<Rightarrow> forever_state" where
  "pool_consumer i c s = s\<lparr>fv_consumers := (fv_consumers s)[i := c]\<rparr>"

definition pool_take_source :: "nat \<Rightarrow> datetime \<Rightarrow> forever_state \<Rightarrow> forever_state option" where
  "pool_take_source i now s =
     (case (fv_consumers s ! i, fv_queue s) of
        (Getting, sid # q) \<Rightarrow>
          (case run_source_start sid now (fv_health s) of
             (r, h) \<Rightarrow> Some (pool_consumer i (Running sid r) (s\<lparr>fv_queue := q, fv_health := h\<rparr>)))
      | _ \<Rightarrow> None)"

text \<open>The \<^verbatim>\<open>finally\<close> clause of \<^verbatim>\<open>_consume_continuously\<close>.\<close>

definition source_done :: "ustr \<Rightarrow> forever_state \<Rightarrow> forever_state" where
  "source_done sid s = s\<lparr>fv_pending := fv_pending s - {sid}, fv_unfinished := fv_unfinished s - 1\<rparr>"

definition pool_resume_source :: "nat \<Rightarrow> io \<Rightarrow> datetime \<Rightarrow> forever_state \<Rightarrow> forever_state option" where
  "pool_resume_source i what now s =
     (case fv_consumers s ! i of
        Running sid r \<Rightarrow>
          (case run_source_step sid now what r (fv_health s) of
             (Continues r', h) \<Rightarrow> Some (pool_consumer i (Running sid r') (s\<lparr>fv_health := h\<rparr>))
           | (Finishes out, h) \<Rightarrow> Some (source_done sid (pool_consumer i Getting (s\<lparr>fv_health := h\<rparr>)))
           | (Fails e, h) \<Rightarrow> Some (source_done sid (pool_consumer i (Ended (Some e)) (s\<lparr>fv_health := h\<rparr>))))
      | _ \<Rightarrow> None)"

section \<open>Steps\<close>

text \<open>
  A cancelled \<^verbatim>\<open>queue.get()\<close> only happens once the shutdown has cancelled the consumers. The wait for
  the cancelled consumers may end by its timeout.
\<close>

fun consumers_cancelled :: "forever_main \<Rightarrow> bool" where
  "consumers_cancelled Shutdown_wait = True"
| "consumers_cancelled Shutdown_abort = True"
| "consumers_cancelled Shutdown_beat = True"
| "consumers_cancelled (Over _) = True"
| "consumers_cancelled _ = False"

fun forever_step :: "WorkerPolicy \<Rightarrow> SourceSchedule list \<Rightarrow> forever_event \<Rightarrow> forever_state \<Rightarrow> forever_state option" where
  "forever_step p selected Stop s = Some (s\<lparr>fv_stop := True\<rparr>)"
| "forever_step p selected (Begun r) s =
     (if fv_main s = Beginning
      then Some (case r of
          Inl e \<Rightarrow> s\<lparr>fv_main := Over (Inl e)\<rparr>
        | Inr n \<Rightarrow> s\<lparr>fv_main := Looping, fv_consumers := replicate (nat (wp_concurrency p)) Getting\<rparr>)
      else None)"
| "forever_step p selected (Round now jitter) s =
     (if fv_main s = Looping then Some (loop_round p selected now jitter s) else None)"
| "forever_step p selected (Round_recovered r) s =
     (case fv_main s of
        Recovering_at now \<Rightarrow> Some (case r of
            Inl e \<Rightarrow> loop_raised e s
          | Inr n \<Rightarrow> after_recovery p selected now (s\<lparr>fv_next_recovery := now + wp_stale_recovery_interval p\<rparr>))
      | _ \<Rightarrow> None)"
| "forever_step p selected (Beat what) s =
     (case fv_main s of
        Beating_at now \<Rightarrow> Some (case what of
            Raises e \<Rightarrow> loop_raised e s
          | Returns \<Rightarrow> go_to_sleep p selected now (s\<lparr>fv_next_heartbeat := now + wp_heartbeat_interval p\<rparr>))
      | _ \<Rightarrow> None)"
| "forever_step p selected Wake s =
     (case fv_main s of Sleeping timeout \<Rightarrow> Some (s\<lparr>fv_main := Looping\<rparr>) | _ \<Rightarrow> None)"
| "forever_step p selected Loop_cancelled s =
     (case fv_main s of
        Sleeping timeout \<Rightarrow> Some (loop_raised (exn_of CancelledError) s) | _ \<Rightarrow> None)"
| "forever_step p selected Shutdown_cancelled s =
     (case fv_main s of
        Shutdown_join \<Rightarrow> Some (s\<lparr>fv_main := Shutdown_abort\<rparr>)
      | Shutdown_wait \<Rightarrow> Some (s\<lparr>fv_main := Over (Inl (exn_of CancelledError))\<rparr>)
      | Shutdown_abort \<Rightarrow> Some (s\<lparr>fv_main := Over (Inl (exn_of CancelledError))\<rparr>)
      | _ \<Rightarrow> None)"
| "forever_step p selected Join_done s =
     (if fv_main s = Shutdown_join \<and> fv_unfinished s = 0 then Some (s\<lparr>fv_main := Shutdown_wait\<rparr>) else None)"
| "forever_step p selected Join_timeout s =
     (if fv_main s = Shutdown_join then Some (s\<lparr>fv_main := Shutdown_wait\<rparr>) else None)"
| "forever_step p selected Wait_over s =
     (case fv_main s of
        Shutdown_wait \<Rightarrow> Some (s\<lparr>fv_main := Shutdown_beat\<rparr>)
      | Shutdown_abort \<Rightarrow> Some (s\<lparr>fv_main := Over (Inl (exn_of CancelledError))\<rparr>)
      | _ \<Rightarrow> None)"
| "forever_step p selected (Last_beat what) s =
     (if fv_main s = Shutdown_beat
      then Some (case what of Returns \<Rightarrow> shut_down s | Raises e \<Rightarrow> s\<lparr>fv_main := Over (Inl e)\<rparr>) else None)"
| "forever_step p selected (Pool_take i now) s =
     (if i < length (fv_consumers s) then pool_take_source i now s else None)"
| "forever_step p selected (Pool_resume i what now) s =
     (if i < length (fv_consumers s) then pool_resume_source i what now s else None)"
| "forever_step p selected (Pool_get_cancelled i) s =
     (if consumers_cancelled (fv_main s) \<and> i < length (fv_consumers s) \<and> fv_consumers s ! i = Getting
      then Some (pool_consumer i (Ended (Some (exn_of CancelledError))) s) else None)"

section \<open>The invariant\<close>

definition all_sources :: "forever_state \<Rightarrow> ustr list" where
  "all_sources s = fv_queue s @ running_sources (fv_consumers s)"

text \<open>A run that is not over builds on the health that is stored for its source.\<close>

definition run_current :: "health \<Rightarrow> consumer \<Rightarrow> bool" where
  "run_current h c = (case c of
     Running sid r \<Rightarrow> sr_phase r \<in> {Recording, Ingesting} \<longrightarrow> h sid = Some (sr_started r) | _ \<Rightarrow> True)"

definition forever_inv :: "WorkerPolicy \<Rightarrow> SourceSchedule list \<Rightarrow> forever_state \<Rightarrow> bool" where
  "forever_inv p selected s \<longleftrightarrow>
     distinct (all_sources s) \<and> fv_pending s = set (all_sources s) \<and> fv_unfinished s = length (all_sources s) \<and>
     set (all_sources s) \<subseteq> set (map sc_source_id selected) \<and> int (length (fv_queue s)) \<le> max 0 (wp_queue_capacity p) \<and>
     length (fv_consumers s) \<le> nat (wp_concurrency p) \<and> (fv_main s = Beginning \<longrightarrow> fv_consumers s = []) \<and>
     list_all (run_current (fv_health s)) (fv_consumers s)"

lemma running_bound: "length (running_sources cs) \<le> length cs"
proof (induction cs)
  case (Cons c cs)
  then show ?case by (cases c) auto
qed simp

lemma enqueue_due_inv:
  "forever_inv p selected s \<Longrightarrow> set scs \<subseteq> set selected \<Longrightarrow> forever_inv p selected (enqueue_due p now jitter scs s)"
proof (induction p now jitter scs s rule: enqueue_due.induct)
  case (2 p now jitter sc scs s)
  let ?sid = "sc_source_id sc"
  have "forever_inv p selected (s\<lparr>fv_queue := fv_queue s @ [?sid], fv_unfinished := fv_unfinished s + 1,
      fv_pending := insert ?sid (fv_pending s), fv_next_due := (fv_next_due s)(?sid := now + delay (jitter ?sid) sc)\<rparr>)"
    if "?sid \<notin> fv_pending s" "\<not> queue_full p (fv_queue s)"
    using 2(3,4) that by (auto simp: forever_inv_def all_sources_def queue_full_def)
  with 2 show ?case by (auto simp: Let_def)
qed simp

lemma enqueue_due_main [simp]: "fv_main (enqueue_due p now jitter scs s) = fv_main s"
  by (induction p now jitter scs s rule: enqueue_due.induct) (auto simp: Let_def)

text \<open>Moving the scheduling task keeps the invariant.\<close>

lemma forever_inv_main:
  "forever_inv p selected s \<Longrightarrow> m \<noteq> Beginning \<Longrightarrow> forever_inv p selected (s\<lparr>fv_main := m\<rparr>)"
  "forever_inv p selected s \<Longrightarrow> forever_inv p selected (s\<lparr>fv_stop := b\<rparr>)"
  "forever_inv p selected s \<Longrightarrow> forever_inv p selected (s\<lparr>fv_error := e\<rparr>)"
  "forever_inv p selected s \<Longrightarrow> forever_inv p selected (s\<lparr>fv_next_heartbeat := t\<rparr>)"
  "forever_inv p selected s \<Longrightarrow> forever_inv p selected (s\<lparr>fv_next_recovery := t\<rparr>)"
  by (auto simp: forever_inv_def all_sources_def)

lemma loop_inv:
  "forever_inv p selected s \<Longrightarrow> forever_inv p selected (go_to_sleep p selected now s)"
  "forever_inv p selected s \<Longrightarrow> forever_inv p selected (after_recovery p selected now s)"
  "forever_inv p selected s \<Longrightarrow> forever_inv p selected (loop_round p selected now jitter s)"
  "forever_inv p selected s \<Longrightarrow> forever_inv p selected (loop_raised e s)"
  "forever_inv p selected s \<Longrightarrow> forever_inv p selected (shut_down s)"
  by (auto simp: go_to_sleep_def after_recovery_def loop_round_def loop_raised_def shut_down_def Let_def
    intro!: forever_inv_main enqueue_due_inv forever_inv_main(3) [THEN forever_inv_main(1), simplified])

text \<open>Only the consumer that runs a source changes its health.\<close>

lemma run_current_update:
  assumes "list_all (run_current h) cs" "i < length cs" "run_current h' c"
    and "\<And>sid'. sid' \<noteq> sid \<Longrightarrow> h' sid' = h sid'" "sid \<notin> set (running_sources (cs[i := Getting]))"
  shows "list_all (run_current h') (cs[i := c])"
  unfolding list_all_length
proof (intro allI impI)
  fix j assume j: "j < length (cs[i := c])"
  show "run_current h' (cs[i := c] ! j)"
  proof (cases "j = i")
    case False
    then have "cs ! j \<in> set (cs[i := Getting])" using j by (metis length_list_update nth_list_update_neq nth_mem)
    then have "set (running_source (cs ! j)) \<subseteq> set (running_sources (cs[i := Getting]))" by (rule running_subset)
    then have "h' sid' = h sid'" if "sid' \<in> set (running_source (cs ! j))" for sid'
      using that assms(4) [of sid'] assms(5) by blast
    moreover have "run_current h (cs ! j)" using assms(1) j by (simp add: list_all_length)
    ultimately show ?thesis using False by (cases "cs ! j") (auto simp: run_current_def)
  qed (use j assms(2,3) in simp)
qed

text \<open>Replacing a running consumer frees its source.\<close>

lemma running_release:
  assumes "i < length cs" "cs ! i = Running sid r" "running_source c = []"
  shows "mset (running_sources cs) = add_mset sid (mset (running_sources (cs[i := c])))"
  using running_sources_update [OF assms(1), of c] assms(2,3) by simp

lemma running_enter:
  assumes "i < length cs" "running_source (cs ! i) = []"
  shows "mset (running_sources (cs[i := Running sid r])) = add_mset sid (mset (running_sources cs))"
  using running_sources_update [OF assms(1), of "Running sid r"] assms(2) by simp

lemma distinct_add_mset: "mset xs = add_mset x (mset ys) \<Longrightarrow> distinct xs \<longleftrightarrow> distinct ys \<and> x \<notin> set ys"
  using mset_eq_imp_distinct_iff [of xs "x # ys"] by auto

lemma set_add_mset: "mset xs = add_mset x (mset ys) \<Longrightarrow> set xs = insert x (set ys) \<and> length xs = Suc (length ys)"
  using mset_eq_setD [of xs "x # ys"] mset_eq_length [of xs "x # ys"] by simp

lemma pool_take_inv:
  assumes "forever_inv p selected s" "i < length (fv_consumers s)" "pool_take_source i now s = Some s'"
  shows "forever_inv p selected s'"
proof -
  obtain sid q where get: "fv_consumers s ! i = Getting" "fv_queue s = sid # q"
    using assms(3) by (auto simp: pool_take_source_def split: consumer.splits list.splits)
  obtain r h where rh: "run_source_start sid now (fv_health s) = (r, h)" by fastforce
  have s': "s' = pool_consumer i (Running sid r) (s\<lparr>fv_queue := q, fv_health := h\<rparr>)"
    using assms(3) get rh by (simp add: pool_take_source_def)
  have m: "mset (all_sources s') = mset (all_sources s)"
    using running_enter [OF assms(2), of sid r] get by (simp add: all_sources_def s' pool_consumer_def)
  have same: "(fv_consumers s)[i := Getting] = fv_consumers s" using get(1) by (metis list_update_id)
  have "list_all (run_current h) ((fv_consumers s)[i := Running sid r])"
    by (rule run_current_update [where h = "fv_health s" and sid = sid])
      (use assms(1,2) get rh run_source_other(1) [of _ sid now "fv_health s"] in
        \<open>auto simp: forever_inv_def all_sources_def run_current_def run_source_start_def Let_def same\<close>)
  then show ?thesis using assms(1,2) m mset_eq_imp_distinct_iff [OF m] mset_eq_setD [OF m] mset_eq_length [OF m] get
    by (auto simp: forever_inv_def s' pool_consumer_def)
qed

lemma pool_resume_inv:
  assumes "forever_inv p selected s" "i < length (fv_consumers s)" "pool_resume_source i what now s = Some s'"
  shows "forever_inv p selected s'"
proof -
  obtain sid r where run: "fv_consumers s ! i = Running sid r"
    using assms(3) by (auto simp: pool_resume_source_def split: consumer.splits)
  obtain res h where rh: "run_source_step sid now what r (fv_health s) = (res, h)" by fastforce
  have h: "h sid' = fv_health s sid'" if "sid' \<noteq> sid" for sid'
    using run_source_other(2) [OF that, of now what r "fv_health s"] rh by simp
  have idle: "mset (all_sources s) = add_mset sid (mset (fv_queue s @ running_sources ((fv_consumers s)[i := c])))"
    if "running_source c = []" for c
    using running_release [OF assms(2) run that] by (simp add: all_sources_def)
  have free: "sid \<notin> set (running_sources ((fv_consumers s)[i := Getting]))"
    using distinct_add_mset [OF idle [of Getting]] assms(1) by (auto simp: forever_inv_def)
  have current: "run_current (fv_health s) (Running sid r)"
    using assms(1,2) run by (metis forever_inv_def list_all_length)
  show ?thesis
  proof (cases res)
    case (Continues r')
    then have s': "s' = pool_consumer i (Running sid r') (s\<lparr>fv_health := h\<rparr>)"
      using assms(3) run rh by (simp add: pool_resume_source_def)
    have c: "run_current h (Running sid r')" using rh Continues current
      by (auto simp: run_current_def run_source_step_def split: run_phase.splits io.splits if_splits)
    have m: "mset (all_sources s') = mset (all_sources s)"
      using running_sources_update [OF assms(2), of "Running sid r'"] run
      by (simp add: all_sources_def s' pool_consumer_def)
    then show ?thesis
      using assms(1,2) run_current_update [OF _ assms(2) c h free] mset_eq_imp_distinct_iff [OF m] mset_eq_setD [OF m] mset_eq_length [OF m]
      by (auto simp: forever_inv_def s' pool_consumer_def)
  next
    case (Finishes out)
    then have s': "s' = source_done sid (pool_consumer i Getting (s\<lparr>fv_health := h\<rparr>))"
      using assms(3) run rh by (simp add: pool_resume_source_def)
    have m: "mset (all_sources s) = add_mset sid (mset (all_sources s'))"
      using idle [of Getting] by (simp add: all_sources_def s' pool_consumer_def source_done_def)
    show ?thesis using assms(1,2) run_current_update [OF _ assms(2) _ h free, where c = Getting] distinct_add_mset [OF m] set_add_mset [OF m]
      by (auto simp: forever_inv_def s' pool_consumer_def source_done_def run_current_def)
  next
    case (Fails e)
    then have s': "s' = source_done sid (pool_consumer i (Ended (Some e)) (s\<lparr>fv_health := h\<rparr>))"
      using assms(3) run rh by (simp add: pool_resume_source_def)
    have m: "mset (all_sources s) = add_mset sid (mset (all_sources s'))"
      using idle [of "Ended (Some e)"] by (simp add: all_sources_def s' pool_consumer_def source_done_def)
    show ?thesis using assms(1,2) run_current_update [OF _ assms(2) _ h free, where c = "Ended (Some e)"]
        distinct_add_mset [OF m] set_add_mset [OF m]
      by (auto simp: forever_inv_def s' pool_consumer_def source_done_def run_current_def)
  qed
qed

lemma pool_cancelled_inv:
  assumes "forever_inv p selected s" "i < length (fv_consumers s)" "fv_consumers s ! i = Getting"
  shows "forever_inv p selected (pool_consumer i (Ended e) s)"
proof -
  have m: "mset (all_sources (pool_consumer i (Ended e) s)) = mset (all_sources s)"
    using running_sources_update [OF assms(2), of "Ended e"] assms(3) by (simp add: all_sources_def pool_consumer_def)
  have "list_all (run_current (fv_health s)) ((fv_consumers s)[i := Ended e])"
    using assms(1) by (auto simp: forever_inv_def run_current_def intro: list_all_update)
  then show ?thesis using assms(1,2) mset_eq_imp_distinct_iff [OF m] mset_eq_setD [OF m] mset_eq_length [OF m]
    by (auto simp: forever_inv_def pool_consumer_def)
qed

lemma forever_begin_inv:
  assumes "forever_inv p selected s" "fv_main s = Beginning" "m \<noteq> Beginning"
  shows "forever_inv p selected (s\<lparr>fv_main := m, fv_consumers := replicate (nat (wp_concurrency p)) Getting\<rparr>)"
  using assms by (auto simp: forever_inv_def all_sources_def running_sources_def run_current_def list_all_iff)

lemma forever_step_inv:
  assumes "forever_inv p selected s" "forever_step p selected ev s = Some s'"
  shows "forever_inv p selected s'"
  using assms forever_begin_inv [OF assms(1)]
  by (cases ev)
    (auto intro!: forever_inv_main loop_inv pool_cancelled_inv intro: pool_take_inv pool_resume_inv
      split: if_splits sum.splits io.splits forever_main.splits)

interpretation scheduler: event_machine "forever_step p selected" "forever_inv p selected" for p selected
  by unfold_locales (rule forever_step_inv)

lemma forever_init_inv: "forever_inv p selected (forever_init p now jitter selected stopped h)"
  by (simp add: forever_inv_def forever_init_def all_sources_def running_sources_def)

section \<open>Cadence\<close>

text \<open>What one round does to the due time of a source: nothing, or it queues the source.\<close>

definition queued_in :: "rat \<Rightarrow> (ustr \<Rightarrow> rat \<Rightarrow> rat) \<Rightarrow> SourceSchedule list \<Rightarrow> ustr \<Rightarrow> forever_state \<Rightarrow> forever_state \<Rightarrow> bool" where
  "queued_in now jitter scs sid s s' \<longleftrightarrow> sid \<notin> fv_pending s \<and> sid \<in> fv_pending s' \<and> fv_next_due s sid \<le> now \<and>
     (\<exists>sc\<in>set scs. sc_source_id sc = sid \<and> fv_next_due s' sid = now + delay (jitter sid) sc)"

definition left_alone :: "ustr \<Rightarrow> forever_state \<Rightarrow> forever_state \<Rightarrow> bool" where
  "left_alone sid s s' \<longleftrightarrow> fv_next_due s' sid = fv_next_due s sid \<and> (sid \<in> fv_pending s' \<longleftrightarrow> sid \<in> fv_pending s)"

lemma enqueue_due_effect:
  "left_alone sid s (enqueue_due p now jitter scs s) \<or> queued_in now jitter scs sid s (enqueue_due p now jitter scs s)"
proof (induction p now jitter scs s rule: enqueue_due.induct)
  case (2 p now jitter sc scs s)
  then show ?case by (cases "sid = sc_source_id sc") (auto simp: Let_def left_alone_def queued_in_def)
qed (simp add: left_alone_def)

lemma round_effect:
  assumes "forever_step p selected (Round now jitter) s = Some s'"
  shows "left_alone sid s s' \<or> queued_in now jitter selected sid s s'"
  using assms enqueue_due_effect [of sid s p now jitter selected]
  by (auto simp: loop_round_def after_recovery_def go_to_sleep_def left_alone_def queued_in_def Let_def split: if_splits)

text \<open>Every other event leaves the due times alone.\<close>

lemma other_effect:
  assumes "forever_step p selected ev s = Some s'" "\<nexists>now jitter. ev = Round now jitter"
  shows "fv_next_due s' = fv_next_due s"
  using assms
  by (cases ev) (auto simp: after_recovery_def go_to_sleep_def loop_raised_def shut_down_def pool_take_source_def
      pool_resume_source_def pool_consumer_def source_done_def
      split: if_splits sum.splits io.splits forever_main.splits consumer.splits list.splits prod.splits run_result.splits)

definition valid_schedules :: "SourceSchedule list \<Rightarrow> bool" where
  "valid_schedules selected \<longleftrightarrow> distinct (map sc_source_id selected) \<and> list_all (\<lambda>sc. SourceSchedule_post_init sc = Inr ()) selected"

text \<open>A jitter function answers between zero and the given maximum.\<close>

fun fair :: "forever_event \<Rightarrow> bool" where
  "fair (Round now jitter) = (\<forall>sid m. 0 \<le> m \<longrightarrow> 0 \<le> jitter sid m \<and> jitter sid m \<le> m)"
| "fair _ = True"

lemma delay_bounds:
  assumes "SourceSchedule_post_init sc = Inr ()" "\<forall>m. 0 \<le> m \<longrightarrow> 0 \<le> jitter m \<and> jitter m \<le> m"
  shows "0 < sc_interval sc" "sc_interval sc \<le> delay jitter sc" "delay jitter sc \<le> sc_interval sc * (1 + sc_jitter_ratio sc)"
proof -
  have v: "0 < sc_interval sc" "0 \<le> sc_jitter_ratio sc" using assms(1) by (auto simp: SourceSchedule_post_init_def split: if_splits)
  then have "0 \<le> sc_interval sc * sc_jitter_ratio sc" by simp
  with assms(2) have "0 \<le> jitter (sc_interval sc * sc_jitter_ratio sc)"
    "jitter (sc_interval sc * sc_jitter_ratio sc) \<le> sc_interval sc * sc_jitter_ratio sc" by blast+
  with v show "0 < sc_interval sc" "sc_interval sc \<le> delay jitter sc" "delay jitter sc \<le> sc_interval sc * (1 + sc_jitter_ratio sc)"
    by (simp_all add: delay_def algebra_simps)
qed

text \<open>A source is due again no earlier than one interval after it was queued, and due times never go back.\<close>

lemma queued_due:
  assumes "valid_schedules selected" "sc \<in> set selected" "fair (Round now jitter)"
    and "queued_in now jitter selected (sc_source_id sc) s s'"
  shows "now + sc_interval sc \<le> fv_next_due s' (sc_source_id sc)"
proof -
  obtain sc' where sc': "sc' \<in> set selected" "sc_source_id sc' = sc_source_id sc"
      "fv_next_due s' (sc_source_id sc) = now + delay (jitter (sc_source_id sc)) sc'"
    using assms(4) by (auto simp: queued_in_def)
  have "sc' = sc" using assms(1,2) sc'(1,2) by (auto simp: valid_schedules_def distinct_map inj_on_def)
  moreover have "SourceSchedule_post_init sc = Inr ()" using assms(1,2) by (simp add: valid_schedules_def list_all_iff)
  ultimately show ?thesis using sc'(3) delay_bounds(2) [of sc "jitter (sc_source_id sc)"] assms(3) by simp
qed

lemma due_monotone:
  assumes "valid_schedules selected" "sc \<in> set selected" "fair ev" "forever_step p selected ev s = Some s'"
  shows "fv_next_due s (sc_source_id sc) \<le> fv_next_due s' (sc_source_id sc)"
proof (cases "\<exists>now jitter. ev = Round now jitter")
  case True
  then obtain now jitter where ev: "ev = Round now jitter" by blast
  have "0 < sc_interval sc" using assms(1,2)
    by (auto simp: valid_schedules_def list_all_iff SourceSchedule_post_init_def split: if_splits)
  from round_effect [of p selected now jitter s s' "sc_source_id sc"] assms(4) ev
  have "left_alone (sc_source_id sc) s s' \<or> queued_in now jitter selected (sc_source_id sc) s s'" by simp
  then show ?thesis
  proof
    assume q: "queued_in now jitter selected (sc_source_id sc) s s'"
    then have "fv_next_due s (sc_source_id sc) \<le> now" by (simp add: queued_in_def)
    also have "now \<le> fv_next_due s' (sc_source_id sc)"
      using queued_due [OF assms(1,2) _ q] assms(3) ev \<open>0 < sc_interval sc\<close> by simp
    finally show ?thesis .
  qed (simp add: left_alone_def)
next
  case False
  then show ?thesis using other_effect [OF assms(4)] by simp
qed

lemma due_monotone_run:
  assumes "valid_schedules selected" "sc \<in> set selected" "list_all fair es" "run_events (forever_step p selected) s es = Some s'"
  shows "fv_next_due s (sc_source_id sc) \<le> fv_next_due s' (sc_source_id sc)"
  using assms(3,4)
proof (induction es arbitrary: s)
  case (Cons ev es)
  then obtain s1 where s1: "forever_step p selected ev s = Some s1" "run_events (forever_step p selected) s1 es = Some s'"
    by (auto split: option.splits)
  have "fv_next_due s (sc_source_id sc) \<le> fv_next_due s1 (sc_source_id sc)"
    using due_monotone [OF assms(1,2) _ s1(1)] Cons.prems(1) by simp
  also have "\<dots> \<le> fv_next_due s' (sc_source_id sc)" using Cons.IH [OF _ s1(2)] Cons.prems(1) by simp
  finally show ?case .
qed simp

section \<open>A pool without consumers\<close>

definition abandoned :: "forever_state \<Rightarrow> forever_state \<Rightarrow> bool" where
  "abandoned s0 s \<longleftrightarrow> fv_main s \<noteq> Beginning \<and> list_all is_ended (fv_consumers s) \<and> fv_health s = fv_health s0 \<and>
     (\<exists>q. fv_queue s = fv_queue s0 @ q)"

lemma enqueue_due_abandoned: "abandoned s0 s \<Longrightarrow> abandoned s0 (enqueue_due p now jitter scs s)"
  by (induction p now jitter scs s rule: enqueue_due.induct) (auto simp: Let_def abandoned_def)

lemma abandoned_main: "abandoned s0 s \<Longrightarrow> m \<noteq> Beginning \<Longrightarrow> abandoned s0 (s\<lparr>fv_main := m\<rparr>)"
  by (simp add: abandoned_def)

lemma abandoned_loop:
  "abandoned s0 s \<Longrightarrow> abandoned s0 (go_to_sleep p selected now s)"
  "abandoned s0 s \<Longrightarrow> abandoned s0 (after_recovery p selected now s)"
  "abandoned s0 s \<Longrightarrow> abandoned s0 (loop_raised e s)"
  "abandoned s0 s \<Longrightarrow> abandoned s0 (shut_down s)"
  by (auto simp: go_to_sleep_def after_recovery_def loop_raised_def shut_down_def abandoned_def)

lemma abandoned_round: "abandoned s0 s \<Longrightarrow> abandoned s0 (loop_round p selected now jitter s)"
  by (auto simp: loop_round_def Let_def intro!: abandoned_main abandoned_loop enqueue_due_abandoned)

interpretation idle_pool: event_machine "forever_step p selected" "abandoned s0" for s0 p selected
proof unfold_locales
  fix s ev s' assume s: "abandoned s0 s" "forever_step p selected ev s = Some s'"
  have ended: "is_ended (fv_consumers s ! i)" if "i < length (fv_consumers s)" for i
    using s(1) that by (simp add: abandoned_def list_all_length)
  have frame: "abandoned s0 (s\<lparr>fv_next_recovery := t\<rparr>)" "abandoned s0 (s\<lparr>fv_next_heartbeat := t\<rparr>)"
    "abandoned s0 (s\<lparr>fv_stop := b\<rparr>)" for t b using s(1) by (simp_all add: abandoned_def)
  have begun: "fv_main s \<noteq> Beginning" using s(1) by (simp add: abandoned_def)
  show "abandoned s0 s'"
  proof (cases ev)
    case (Pool_take i now)
    then show ?thesis using s(2) ended [of i]
      by (auto simp: pool_take_source_def is_ended_def split: if_splits consumer.splits)
  next
    case (Pool_resume i what now)
    then show ?thesis using s(2) ended [of i]
      by (auto simp: pool_resume_source_def is_ended_def split: if_splits consumer.splits)
  next
    case (Pool_get_cancelled i)
    then show ?thesis using s(2) ended [of i] by (auto simp: is_ended_def split: if_splits)
  qed (use s frame begun in \<open>auto intro!: abandoned_main abandoned_loop abandoned_round
      split: if_splits sum.splits io.splits forever_main.splits\<close>)
qed

section \<open>Properties\<close>

text \<open>
  C20. The scheduler never collects a source twice at the same time. After any events of the loop, the
  consumers, the shutdown, the backend and the telemetry, in any order: no source is queued or
  running twice; the pending set holds exactly the queued and the running sources, all of them
  configured; the queue stays within its capacity and the runs within the concurrency; the
  count that the shutdown waits for is the number of queued and running sources; and a run
  that is in flight builds on the health that is stored for its source, so no count is lost.
\<close>
theorem scheduler_exclusive:
  assumes "WorkerPolicy_post_init p = Inr ()"
    and "run_events (forever_step p selected) (forever_init p now jitter selected stopped h) es = Some s"
  shows "distinct (fv_queue s @ running_sources (fv_consumers s)) \<and>
     fv_pending s = set (fv_queue s) \<union> set (running_sources (fv_consumers s)) \<and>
     fv_pending s \<subseteq> set (map sc_source_id selected) \<and>
     int (length (fv_queue s)) \<le> wp_queue_capacity p \<and>
     int (length (running_sources (fv_consumers s))) \<le> wp_concurrency p \<and>
     fv_unfinished s = length (fv_queue s) + length (running_sources (fv_consumers s)) \<and>
     (\<forall>sid r. Running sid r \<in> set (fv_consumers s) \<and> sr_phase r \<in> {Recording, Ingesting} \<longrightarrow>
        fv_health s sid = Some (sr_started r))"
proof -
  have i: "forever_inv p selected s" using scheduler.run_invar [OF forever_init_inv assms(2)] .
  have "0 < wp_queue_capacity p" "0 < wp_concurrency p"
    using assms(1) by (auto simp: WorkerPolicy_post_init_def split: if_splits)
  then show ?thesis using i running_bound [of "fv_consumers s"]
    by (auto simp: forever_inv_def all_sources_def list_all_iff run_current_def split: consumer.splits)
qed

text \<open>One source every ten seconds without jitter, one consumer.\<close>

definition demo_schedule :: SourceSchedule where
  "demo_schedule = \<lparr>sc_source_id = lit ''a'', sc_interval = 10, sc_jitter_ratio = 0, sc_run_immediately = True\<rparr>"

definition no_jitter :: "ustr \<Rightarrow> rat \<Rightarrow> rat" where
  "no_jitter sid m = 0"

definition demo_start :: forever_state where
  "demo_start = forever_init demo_policy 0 no_jitter [demo_schedule] False Map.empty"

text \<open>The start, a first round, and a run of the queued source to its end.\<close>

definition demo_first :: "forever_event list" where
  "demo_first = [Begun (Inr 0), Round 0 no_jitter]"

definition demo_run :: "forever_event list" where
  "demo_run = [Beat Returns, Pool_take 0 (Aware 1), Pool_resume 0 Returns (Aware 2), Wake, Round 2 no_jitter,
     Pool_resume 0 Returns (Aware 3), Pool_resume 0 Returns (Aware 4), Wake]"

lemmas demo_simps = demo_start_def demo_first_def demo_run_def demo_policy_def demo_schedule_def no_jitter_def forever_init_def
  first_due_def loop_round_def after_recovery_def go_to_sleep_def next_sleep_def delay_def queue_full_def pool_take_source_def
  pool_resume_source_def pool_consumer_def source_done_def run_source_start_def run_source_step_def loop_raised_def Let_def

theorem scheduler_exclusive_witness:
  "\<exists>s. run_events (forever_step demo_policy [demo_schedule]) demo_start demo_first = Some s \<and>
     fv_queue s = [lit ''a''] \<and> fv_pending s = set (fv_queue s) \<union> set (running_sources (fv_consumers s))"
proof -
  have p: "WorkerPolicy_post_init demo_policy = Inr ()" by code_simp
  have "map_option fv_queue (run_events (forever_step demo_policy [demo_schedule]) demo_start demo_first) = Some [lit ''a'']"
    by (simp add: demo_simps)
  then obtain s where s: "run_events (forever_step demo_policy [demo_schedule]) demo_start demo_first = Some s"
      "fv_queue s = [lit ''a'']" by (auto simp: map_option_eq_Some)
  from scheduler_exclusive [OF p s(1) [unfolded demo_start_def]] s show ?thesis by blast
qed

text \<open>
  C21. A source is never queued more often than its interval: between two rounds that queue it lies at
  least its interval on the clock, whatever happened in between, when the jitter function stays within its range.
\<close>
theorem source_cadence:
  assumes "valid_schedules selected" "sc \<in> set selected" "list_all fair (Round now jitter # es)"
    and "forever_step p selected (Round now jitter) s0 = Some s1"
    and "sc_source_id sc \<notin> fv_pending s0" "sc_source_id sc \<in> fv_pending s1"
    and "run_events (forever_step p selected) s1 es = Some s2"
    and "forever_step p selected (Round now' jitter') s2 = Some s3"
    and "sc_source_id sc \<notin> fv_pending s2" "sc_source_id sc \<in> fv_pending s3"
  shows "now + sc_interval sc \<le> now'"
proof -
  have "queued_in now jitter selected (sc_source_id sc) s0 s1" "queued_in now' jitter' selected (sc_source_id sc) s2 s3"
    using round_effect [OF assms(4)] round_effect [OF assms(8)] assms(5,6,9,10) by (auto simp: left_alone_def)
  then have "now + sc_interval sc \<le> fv_next_due s1 (sc_source_id sc)" "fv_next_due s2 (sc_source_id sc) \<le> now'"
    using queued_due [OF assms(1,2), of now jitter s0 s1] assms(3) by (auto simp: queued_in_def)
  moreover have "fv_next_due s1 (sc_source_id sc) \<le> fv_next_due s2 (sc_source_id sc)"
    using due_monotone_run [OF assms(1,2) _ assms(7)] assms(3) by simp
  ultimately show ?thesis by linarith
qed

theorem source_cadence_witness:
  "\<exists>s0 s1 s2 s3. forever_step demo_policy [demo_schedule] (Round 0 no_jitter) s0 = Some s1 \<and>
     run_events (forever_step demo_policy [demo_schedule]) s1 demo_run = Some s2 \<and>
     forever_step demo_policy [demo_schedule] (Round 12 no_jitter) s2 = Some s3 \<and>
     lit ''a'' \<in> fv_pending s3 \<and> 0 + sc_interval demo_schedule \<le> 12"
proof -
  let ?step = "forever_step demo_policy [demo_schedule]"
  let ?see = "map_option (\<lambda>s. fv_pending s)"
  define s0 where "s0 = the (run_events ?step demo_start [Begun (Inr 0)])"
  define s1 where "s1 = the (?step (Round 0 no_jitter) s0)"
  define s2 where "s2 = the (run_events ?step s1 demo_run)"
  define s3 where "s3 = the (?step (Round 12 no_jitter) s2)"
  have steps: "?step (Round 0 no_jitter) s0 = Some s1" "run_events ?step s1 demo_run = Some s2"
    "?step (Round 12 no_jitter) s2 = Some s3"
    by (simp_all add: s0_def s1_def s2_def s3_def demo_simps)
  have pend: "lit ''a'' \<notin> fv_pending s0" "lit ''a'' \<in> fv_pending s1" "lit ''a'' \<notin> fv_pending s2" "lit ''a'' \<in> fv_pending s3"
    by (simp_all add: s0_def s1_def s2_def s3_def demo_simps)
  have v: "valid_schedules [demo_schedule]"
    by (simp add: valid_schedules_def SourceSchedule_post_init_def demo_schedule_def is_ascii_alnum_def)
  have fair: "list_all fair (Round 0 no_jitter # demo_run)" by (simp add: demo_run_def no_jitter_def)
  have id: "sc_source_id demo_schedule = lit ''a''" by (simp add: demo_schedule_def)
  have "0 + sc_interval demo_schedule \<le> 12"
    by (rule source_cadence [OF v _ fair steps(1) _ _ steps(2,3)]) (use pend in \<open>simp_all add: id\<close>)
  with steps pend show ?thesis by blast
qed

text \<open>
  A continuous worker whose consumers have all died goes on as if nothing had happened: whatever
  follows, no source is ever started again, the health of every source stays as it was and the
  queue only grows, while the scheduling loop still runs its rounds and its heartbeats.
\<close>
theorem lost_consumers_go_unnoticed:
  assumes "run_events (forever_step p selected) s es = Some s'"
    and "fv_main s \<noteq> Beginning" "list_all is_ended (fv_consumers s)"
  shows "list_all is_ended (fv_consumers s') \<and> fv_health s' = fv_health s \<and> (\<exists>q. fv_queue s' = fv_queue s @ q)"
  using idle_pool.run_invar [of s s p selected es s'] assms by (simp add: abandoned_def)

text \<open>The telemetry fails while the only consumer reports; the loop goes on with its rounds and heartbeats.\<close>

definition demo_death :: "forever_event list" where
  "demo_death = [Beat Returns, Pool_take 0 (Aware 1), Pool_resume 0 (Raises (exn_of RepositoryError)) (Aware 2)]"

theorem lost_consumers_go_unnoticed_witness:
  "\<exists>s s'. run_events (forever_step demo_policy [demo_schedule]) demo_start (demo_first @ demo_death) = Some s \<and>
     run_events (forever_step demo_policy [demo_schedule]) s [Wake, Round 40 no_jitter, Beat Returns, Wake] = Some s' \<and>
     fv_main s' = Looping \<and> fv_queue s' = [lit ''a''] \<and> fv_health s' = fv_health s"
proof -
  let ?step = "forever_step demo_policy [demo_schedule]"
  define s where "s = the (run_events ?step demo_start (demo_first @ demo_death))"
  define s' where "s' = the (run_events ?step s [Wake, Round 40 no_jitter, Beat Returns, Wake])"
  have steps: "run_events ?step demo_start (demo_first @ demo_death) = Some s"
    "run_events ?step s [Wake, Round 40 no_jitter, Beat Returns, Wake] = Some s'"
    by (simp_all add: s_def s'_def demo_simps demo_death_def)
  have "fv_main s \<noteq> Beginning" "list_all is_ended (fv_consumers s)" "fv_main s' = Looping" "fv_queue s' = [lit ''a'']"
    by (simp_all add: s_def s'_def demo_simps demo_death_def is_ended_def)
  with lost_consumers_go_unnoticed [OF steps(2)] steps show ?thesis by blast
qed

end
