(* ===== verification/Normalization.thy ===== *)
theory Normalization
  imports Py_Values Complex_Main
begin

text \<open>
  Text normalisation of \<^verbatim>\<open>domain/normalization.py\<close>: source text, search text, identifiers, the GTIN
  check digit, decimals, booleans and amounts with units. The tables of the Unicode database
  (NFKC, case folding, general categories, values of decimal digits) are an argument, the record
  \<open>text_library\<close>. The parsing of dates is left out.
\<close>

section \<open>The Unicode database\<close>

record text_library =
  nfkc :: "ustr \<Rightarrow> ustr"
  str_casefold :: "ustr \<Rightarrow> ustr"
  category :: "nat \<Rightarrow> string"
  digit_value :: "nat \<Rightarrow> nat"

definition in_category :: "text_library \<Rightarrow> char list \<Rightarrow> nat \<Rightarrow> bool" where
  "in_category L cs c \<longleftrightarrow> (case category L c of [] \<Rightarrow> False | x # _ \<Rightarrow> x \<in> set cs)"

definition is_decimal_digit :: "text_library \<Rightarrow> nat \<Rightarrow> bool" where
  "is_decimal_digit L c \<longleftrightarrow> category L c = ''Nd''"

text \<open>\<^verbatim>\<open>re.sub(r"\s+", " ", s)\<close>\<close>

function collapse_spaces :: "ustr \<Rightarrow> ustr" where
  "collapse_spaces [] = []"
| "collapse_spaces (c # cs) =
     (if is_py_space c then 32 # collapse_spaces (dropWhile is_py_space cs) else c # collapse_spaces cs)"
  by pat_completeness auto
termination
  by (relation "measure length") (auto simp: le_imp_less_Suc length_dropWhile_le)

section \<open>Texts\<close>

definition clean_source_text :: "text_library \<Rightarrow> ustr option \<Rightarrow> nat \<Rightarrow> exn + ustr option" where
  "clean_source_text L v max_length =
     (case v of
        None \<Rightarrow> Inr None
      | Some value \<Rightarrow>
          let normalized = py_strip (nfkc L value);
              normalized = filter (\<lambda>c. c \<in> {9, 10, 13} \<or> \<not> in_category L ''C'' c) normalized;
              normalized = py_strip (collapse_spaces normalized)
          in if normalized = [] then Inr None
             else if length normalized > max_length then Inl (exn_of DomainValidationError)
             else Inr (Some normalized))"

text \<open>One character of a search text: letters and numbers stay, punctuation, symbols and space become a space.\<close>

definition search_character :: "text_library \<Rightarrow> nat \<Rightarrow> ustr" where
  "search_character L c =
     (if in_category L ''LN'' c then [c]
      else if in_category L ''PSZ'' c \<or> is_py_space c then [32]
      else [])"

definition normalize_search_text :: "text_library \<Rightarrow> ustr \<Rightarrow> ustr" where
  "normalize_search_text L v =
     py_strip (collapse_spaces (concat (map (search_character L) (str_casefold L (nfkc L v)))))"

definition normalize_identifier :: "text_library \<Rightarrow> ustr \<Rightarrow> exn + ustr" where
  "normalize_identifier L v =
     (let normalized = filter (\<lambda>c. \<not> is_py_space c) (py_strip (nfkc L v)) in
      if normalized = [] \<or> length normalized > 128 then Inl (exn_of DomainValidationError)
      else if list_ex (in_category L ''C'') normalized then Inl (exn_of DomainValidationError)
      else Inr normalized)"

definition digits_only :: "text_library \<Rightarrow> ustr \<Rightarrow> ustr" where
  "digits_only L v = filter (is_decimal_digit L) (nfkc L v)"

section \<open>GTIN\<close>

text \<open>The loop over \<^verbatim>\<open>enumerate(reversed(value[:-1]))\<close>.\<close>

fun checksum_loop :: "nat \<Rightarrow> nat \<Rightarrow> ustr \<Rightarrow> nat" where
  "checksum_loop offset checksum_sum [] = checksum_sum"
| "checksum_loop offset checksum_sum (c # cs) =
     checksum_loop (Suc offset) (checksum_sum + (c - 48) * (if offset mod 2 = 0 then 3 else 1)) cs"

definition is_ascii_digit :: "nat \<Rightarrow> bool" where
  "is_ascii_digit c \<longleftrightarrow> 48 \<le> c \<and> c \<le> 57"

definition is_valid_gtin :: "ustr \<Rightarrow> bool" where
  "is_valid_gtin v =
     (if length v \<notin> {8, 12, 13, 14} \<or> \<not> list_all is_ascii_digit v then False
      else let expected = last v - 48;
               checksum_sum = checksum_loop 0 0 (rev (butlast v));
               calculated = (10 - checksum_sum mod 10) mod 10
           in calculated = expected)"

definition classify_identifier :: "text_library \<Rightarrow> ustr \<Rightarrow> exn + IdentifierKind" where
  "classify_identifier L v =
     rbind (normalize_identifier L v) (\<lambda>normalized.
       Inr (if is_valid_gtin normalized then GTIN else RETAILER_ITEM))"

section \<open>Decimals and booleans\<close>

text \<open>
  The grammar of \<^verbatim>\<open>decimal.Decimal(text)\<close>: white space around the number and underscores in it are
  ignored; digits are those of the Unicode database.
\<close>

definition digits_value :: "text_library \<Rightarrow> ustr \<Rightarrow> nat" where
  "digits_value L ds = fold (\<lambda>d n. 10 * n + digit_value L d) ds 0"

definition split_sign :: "ustr \<Rightarrow> bool \<times> ustr" where
  "split_sign s = (case s of [] \<Rightarrow> (False, []) | c # cs \<Rightarrow>
     if c = 45 then (True, cs) else if c = 43 then (False, cs) else (False, s))"

definition exponent_of :: "text_library \<Rightarrow> ustr \<Rightarrow> int option" where
  "exponent_of L s =
     (case s of
        [] \<Rightarrow> Some 0
      | c # cs \<Rightarrow>
          if c \<in> {69, 101}
          then (case split_sign cs of (neg, ds) \<Rightarrow>
            if ds \<noteq> [] \<and> list_all (is_decimal_digit L) ds
            then Some (if neg then - int (digits_value L ds) else int (digits_value L ds)) else None)
          else None)"

definition decimal_number :: "text_library \<Rightarrow> bool \<Rightarrow> ustr \<Rightarrow> decimal option" where
  "decimal_number L sign s =
     (let whole = takeWhile (is_decimal_digit L) s;
          rest = dropWhile (is_decimal_digit L) s;
          (frac, rest') = (case rest of
             c # cs \<Rightarrow> if c = 46 then (takeWhile (is_decimal_digit L) cs, dropWhile (is_decimal_digit L) cs) else ([], rest)
           | [] \<Rightarrow> ([], rest))
      in if whole = [] \<and> frac = [] then None
         else map_option (\<lambda>e. Dec sign (digits_value L (whole @ frac)) (e - int (length frac))) (exponent_of L rest'))"

definition special_number :: "text_library \<Rightarrow> bool \<Rightarrow> ustr \<Rightarrow> decimal option" where
  "special_number L sign s =
     (let low = map (\<lambda>c. if 65 \<le> c \<and> c \<le> 90 then c + 32 else c) s;
          nan = (if take 1 low = lit ''s'' then drop 1 low else low)
      in if low = lit ''inf'' \<or> low = lit ''infinity'' then Some (DInfinity sign)
         else if take 3 nan = lit ''nan'' \<and> list_all (is_decimal_digit L) (drop 3 nan) then Some DNaN
         else None)"

definition decimal_of_text :: "text_library \<Rightarrow> ustr \<Rightarrow> decimal option" where
  "decimal_of_text L text =
     (case split_sign (filter (\<lambda>c. c \<noteq> 95) (py_strip text)) of (sign, s) \<Rightarrow>
        (case decimal_number L sign s of Some d \<Rightarrow> Some d | None \<Rightarrow> special_number L sign s))"

text \<open>The value of a finite decimal.\<close>

fun dec_value :: "decimal \<Rightarrow> rat" where
  "dec_value (Dec sign coeff e) =
     (let m = (if e \<ge> 0 then of_nat coeff * 10 ^ nat e else of_nat coeff / 10 ^ nat (- e)) in if sign then - m else m)"
| "dec_value _ = 0"

definition MAX_MONEY :: rat where
  "MAX_MONEY = 99999999999999 / 10000"

text \<open>\<^verbatim>\<open>parse_decimal\<close> of a text; an integer or a decimal is parsed as its text.\<close>

definition parse_decimal :: "text_library \<Rightarrow> ustr option \<Rightarrow> bool \<Rightarrow> bool \<Rightarrow> rat \<Rightarrow> exn + decimal option" where
  "parse_decimal L v required allow_negative maximum =
     (case v of
        None \<Rightarrow> if required then Inl (exn_of DomainValidationError) else Inr None
      | Some text \<Rightarrow>
          if py_strip text = [] then (if required then Inl (exn_of DomainValidationError) else Inr None)
          else let source = filter (\<lambda>c. c \<noteq> 160) (py_strip text);
                   source = (if count_list source 44 = 1 \<and> 46 \<notin> set source
                             then map (\<lambda>c. if c = 44 then 46 else c) source
                             else filter (\<lambda>c. c \<noteq> 44) source)
               in case decimal_of_text L source of
                    None \<Rightarrow> Inl (exn_of DomainValidationError)
                  | Some d \<Rightarrow>
                      if \<not> dec_finite d then Inl (exn_of DomainValidationError)
                      else if \<not> allow_negative \<and> dec_value d < 0 then Inl (exn_of DomainValidationError)
                      else if \<bar>dec_value d\<bar> > maximum then Inl (exn_of DomainValidationError)
                      else Inr (Some d))"

definition parse_bool :: "text_library \<Rightarrow> ustr option \<Rightarrow> exn + bool option" where
  "parse_bool L v =
     (case v of
        None \<Rightarrow> Inr None
      | Some text \<Rightarrow>
          if py_strip text = [] then Inr None
          else let normalized = str_casefold L (py_strip text) in
            if normalized \<in> {lit ''1'', lit ''true'', lit ''yes'', lit ''y'', [1499, 1503]} then Inr (Some True)
            else if normalized \<in> {lit ''0'', lit ''false'', lit ''no'', lit ''n'', [1500, 1488]} then Inr (Some False)
            else Inl (exn_of DomainValidationError))"

section \<open>Amounts with units\<close>

text \<open>The alternatives of the pattern \<^verbatim>\<open>_NUMBER_WITH_UNIT\<close> in their order, each optional part written out, greedy first.\<close>

definition UNITS :: "ustr list" where
  "UNITS =
     [[1511, 34, 1490], [1511, 1524, 1490], [1511, 39, 1490], [1511, 1490],
      [1511, 1497, 1500, 1493, 1490, 1512, 1501], [1511, 1497, 1500, 1493, 1490, 1512, 1502, 1497, 1501], lit ''kg'',
      [1490, 1512, 1501], [1490, 1512, 1502, 1497, 1501], lit ''g'',
      [1502, 34, 1500], [1502, 1524, 1500], [1502, 39, 1500], [1502, 1500],
      [1502, 1497, 1500, 1497, 1500, 1497, 1496, 1512, 1497, 1501], [1502, 1497, 1500, 1497, 1500, 1497, 1496, 1512], lit ''ml'',
      [1500, 1497, 1496, 1512, 1497, 1501], [1500, 1497, 1496, 1512], lit ''l'',
      [1497, 1495, 1497, 1491, 1492], [1497, 1495, 1497, 1491, 1493, 1514], [1497, 1495, 39], lit ''ea'', lit ''each'',
      [1502, 1496, 1512, 1497, 1501], [1502, 1496, 1512], lit ''m'']"

text \<open>Case is ignored for the ASCII letters; the Hebrew letters have none.\<close>

definition ascii_lower :: "nat \<Rightarrow> nat" where
  "ascii_lower c = (if 65 \<le> c \<and> c \<le> 90 then c + 32 else c)"

definition is_word :: "text_library \<Rightarrow> nat \<Rightarrow> bool" where
  "is_word L c \<longleftrightarrow> in_category L ''LN'' c \<or> c = 95"

text \<open>\<open>\b\<close> between the unit and the rest.\<close>

definition word_boundary :: "text_library \<Rightarrow> ustr \<Rightarrow> ustr \<Rightarrow> bool" where
  "word_boundary L unit rest \<longleftrightarrow> is_word L (last unit) \<noteq> (case rest of [] \<Rightarrow> False | c # _ \<Rightarrow> is_word L c)"

definition match_unit :: "text_library \<Rightarrow> ustr \<Rightarrow> ustr option" where
  "match_unit L s =
     map_option (\<lambda>u. take (length u) s)
       (List.find (\<lambda>u. map ascii_lower (take (length u) s) = u \<and> word_boundary L u (drop (length u) s)) UNITS)"

text \<open>A number at the start of the text, then white space and a unit.\<close>

definition match_number :: "text_library \<Rightarrow> ustr \<Rightarrow> (ustr \<times> ustr) option" where
  "match_number L s =
     (let whole = takeWhile (is_decimal_digit L) s;
          rest = dropWhile (is_decimal_digit L) s;
          (number, rest') = (case rest of
             c # cs \<Rightarrow> if c \<in> {46, 44} \<and> takeWhile (is_decimal_digit L) cs \<noteq> []
                       then (whole @ c # takeWhile (is_decimal_digit L) cs, dropWhile (is_decimal_digit L) cs)
                       else (whole, rest)
           | [] \<Rightarrow> (whole, rest))
      in if whole = [] then None
         else map_option (\<lambda>u. (number, u)) (match_unit L (dropWhile is_py_space rest')))"

fun search_number :: "text_library \<Rightarrow> ustr \<Rightarrow> (ustr \<times> ustr) option" where
  "search_number L [] = None"
| "search_number L (c # cs) = (case match_number L (c # cs) of Some m \<Rightarrow> Some m | None \<Rightarrow> search_number L cs)"

record NormalizedQuantity =
  nq_amount :: rat
  nq_unit :: ustr

text \<open>The branches of \<^verbatim>\<open>parse_quantity_text\<close>, after the replacement of the two kinds of apostrophe.\<close>

definition quantity_of_unit :: "rat \<Rightarrow> ustr \<Rightarrow> NormalizedQuantity option" where
  "quantity_of_unit amount raw_unit =
     (if raw_unit \<in> {[1511, 34, 1490], [1511, 1497, 1500, 1493, 1490, 1512, 1501],
                     [1511, 1497, 1500, 1493, 1490, 1512, 1502, 1497, 1501], lit ''kg''}
      then Some \<lparr>nq_amount = amount * 1000, nq_unit = lit ''g''\<rparr>
      else if raw_unit \<in> {[1490, 1512, 1501], [1490, 1512, 1502, 1497, 1501], lit ''g''}
      then Some \<lparr>nq_amount = amount, nq_unit = lit ''g''\<rparr>
      else if raw_unit \<in> {[1502, 34, 1500], [1502, 1497, 1500, 1497, 1500, 1497, 1496, 1512],
                          [1502, 1497, 1500, 1497, 1500, 1497, 1496, 1512, 1497, 1501], lit ''ml''}
      then Some \<lparr>nq_amount = amount, nq_unit = lit ''ml''\<rparr>
      else if raw_unit \<in> {[1500, 1497, 1496, 1512], [1500, 1497, 1496, 1512, 1497, 1501], lit ''l''}
      then Some \<lparr>nq_amount = amount * 1000, nq_unit = lit ''ml''\<rparr>
      else if raw_unit \<in> {[1497, 1495, 1497, 1491, 1492], [1497, 1495, 1497, 1491, 1493, 1514], [1497, 1495, 39],
                          lit ''ea'', lit ''each''}
      then Some \<lparr>nq_amount = amount, nq_unit = lit ''each''\<rparr>
      else if raw_unit \<in> {[1502, 1496, 1512], [1502, 1496, 1512, 1497, 1501], lit ''m''}
      then Some \<lparr>nq_amount = amount, nq_unit = lit ''m''\<rparr>
      else None)"

definition raw_unit :: "text_library \<Rightarrow> ustr \<Rightarrow> ustr" where
  "raw_unit L u = map (\<lambda>c. if c = 39 \<or> c = 1524 then 34 else c) (str_casefold L u)"

definition parse_quantity_text :: "text_library \<Rightarrow> ustr \<Rightarrow> exn + NormalizedQuantity option" where
  "parse_quantity_text L v =
     (case search_number L (nfkc L v) of
        None \<Rightarrow> Inr None
      | Some (number, u) \<Rightarrow>
          rbind (parse_decimal L (Some number) True False MAX_MONEY) (\<lambda>d.
            case d of
              None \<Rightarrow> Inl (exn_of DomainValidationError)
            | Some amount \<Rightarrow> Inr (quantity_of_unit (dec_value amount) (raw_unit L u))))"

section \<open>The check digit\<close>

text \<open>
  The weighted digit sum over all positions from the right, the check digit first: a number is valid
  when it is a multiple of ten.
\<close>

definition position_weight :: "nat \<Rightarrow> int" where
  "position_weight k = (if even k then 1 else 3)"

definition weighted_sum :: "ustr \<Rightarrow> int" where
  "weighted_sum ds = (\<Sum>k<length ds. position_weight k * (int (ds ! k) - 48))"

lemma checksum_loop_sum:
  "list_all is_ascii_digit cs \<Longrightarrow> int (checksum_loop k n cs) =
     int n + (\<Sum>i<length cs. position_weight (Suc (k + i)) * (int (cs ! i) - 48))"
proof (induction cs arbitrary: k n)
  case (Cons c cs)
  have c: "48 \<le> c" using Cons.prems by (simp add: is_ascii_digit_def)
  have "(\<Sum>i<length (c # cs). position_weight (Suc (k + i)) * (int ((c # cs) ! i) - 48)) =
      position_weight (Suc k) * (int c - 48) + (\<Sum>i<length cs. position_weight (Suc (Suc k + i)) * (int (cs ! i) - 48))"
    by (simp add: sum.lessThan_Suc_shift del: sum.lessThan_Suc)
  moreover have "int ((c - 48) * (if k mod 2 = 0 then 3 else 1)) = position_weight (Suc k) * (int c - 48)"
    using c by (auto simp: position_weight_def of_nat_diff)
  ultimately show ?case using Cons.IH [of "Suc k" "n + (c - 48) * (if k mod 2 = 0 then 3 else 1)"] Cons.prems
    by (simp only: checksum_loop.simps of_nat_add list.pred_inject(2))
qed simp

lemma check_digit_iff:
  assumes "e < 10"
  shows "(e + c) mod 10 = 0 \<longleftrightarrow> (10 - c mod 10) mod 10 = (e :: nat)"
proof -
  define r where "r = c mod 10"
  then have r: "r < 10" "(e + c) mod 10 = (e + r) mod 10" by (simp_all add: mod_simps)
  have "x < 20 \<Longrightarrow> x mod 10 = 0 \<longleftrightarrow> x = 0 \<or> x = 10" for x :: nat by presburger
  from this [of "e + r"] have "(e + r) mod 10 = 0 \<longleftrightarrow> e + r = 0 \<or> e + r = 10" using assms r(1) by simp
  then show ?thesis using assms r by (cases "r = 0") (auto simp flip: r_def)
qed

text \<open>Ten does not divide a digit times a weight, and it divides twice a number when five divides the number.\<close>

lemma weighted_difference:
  assumes "\<bar>x\<bar> < (10 :: int)" "x \<noteq> 0" "t mod 10 = 0"
  shows "(t + position_weight k * x) mod 10 \<noteq> 0"
proof
  assume "(t + position_weight k * x) mod 10 = 0"
  with assms(3) have "10 dvd position_weight k * x" by presburger
  moreover have "10 dvd 3 * x \<Longrightarrow> 10 dvd x" by presburger
  ultimately have "10 dvd x" by (auto simp: position_weight_def split: if_splits)
  with assms(1,2) show False using dvd_imp_le_int [of x 10] by simp
qed

lemma doubled_difference: "t mod 10 = 0 \<Longrightarrow> c = 2 \<or> c = - 2 \<Longrightarrow> (t + c * x) mod 10 = 0 \<longleftrightarrow> (- x) mod 5 = (0 :: int)"
  by (elim disjE) (simp_all, presburger+)

lemma valid_gtin_iff:
  "is_valid_gtin v \<longleftrightarrow> length v \<in> {8, 12, 13, 14} \<and> list_all is_ascii_digit v \<and> weighted_sum (rev v) mod 10 = 0"
proof (cases "length v \<in> {8, 12, 13, 14} \<and> list_all is_ascii_digit v")
  case True
  then obtain u d where v: "v = u @ [d]" by (cases v rule: rev_cases) auto
  have d: "48 \<le> d" "d \<le> 57" "list_all is_ascii_digit (rev u)"
    using True v by (auto simp: is_ascii_digit_def list_all_iff)
  have "weighted_sum (rev v) = int (d - 48 + checksum_loop 0 0 (rev u))"
    using checksum_loop_sum [OF d(3), of 0 0] d(1) unfolding v
    by (simp add: weighted_sum_def sum.lessThan_Suc_shift position_weight_def of_nat_diff del: sum.lessThan_Suc)
  then have "weighted_sum (rev v) mod 10 = 0 \<longleftrightarrow> (d - 48 + checksum_loop 0 0 (rev u)) mod 10 = 0"
    by presburger
  also have "\<dots> \<longleftrightarrow> (10 - checksum_loop 0 0 (rev u) mod 10) mod 10 = d - 48"
    using d(1,2) by (intro check_digit_iff) simp
  finally show ?thesis using True v by (simp add: is_valid_gtin_def Let_def)
qed (auto simp: is_valid_gtin_def)

text \<open>Changing positions changes the sum by what they contribute.\<close>

lemma weighted_sum_update:
  assumes "i < length ds"
  shows "weighted_sum (ds[i := d]) = weighted_sum ds + position_weight i * (int d - int (ds ! i))"
proof -
  have *: "{..<length ds} = insert i ({..<length ds} - {i})" using assms by auto
  have "weighted_sum (ds[i := d]) = position_weight i * (int d - 48) +
      (\<Sum>k\<in>{..<length ds} - {i}. position_weight k * (int (ds ! k) - 48))"
    unfolding weighted_sum_def length_list_update using assms by (subst *) (simp add: sum.insert_remove)
  moreover have "weighted_sum ds = position_weight i * (int (ds ! i) - 48) +
      (\<Sum>k\<in>{..<length ds} - {i}. position_weight k * (int (ds ! k) - 48))"
    unfolding weighted_sum_def using assms by (subst *) (simp add: sum.insert_remove)
  ultimately show ?thesis by (simp add: algebra_simps)
qed

text \<open>
  C23. The check digit finds typing errors: a valid GTIN in which one digit is replaced by another digit
  is not valid; and when two neighbouring digits are exchanged the result is valid only if the
  two digits are equal or differ by five.
\<close>
theorem gtin_detects_errors:
  assumes "is_valid_gtin v"
  shows "(\<forall>i<length v. \<forall>d. is_ascii_digit d \<and> d \<noteq> v ! i \<longrightarrow> \<not> is_valid_gtin (v[i := d])) \<and>
     (\<forall>i. Suc i < length v \<longrightarrow> (is_valid_gtin (v[i := v ! Suc i, Suc i := v ! i]) \<longleftrightarrow>
        (int (v ! i) - int (v ! Suc i)) mod 5 = 0))"
proof (intro conjI allI impI)
  have v: "list_all is_ascii_digit v" "weighted_sum (rev v) mod 10 = 0" using assms by (auto simp: valid_gtin_iff)
  {
    fix i d assume i: "i < length v" and d: "is_ascii_digit d \<and> d \<noteq> v ! i"
    let ?k = "length v - Suc i"
    have "weighted_sum (rev (v[i := d])) = weighted_sum (rev v) + position_weight ?k * (int d - int (v ! i))"
      using weighted_sum_update [of ?k "rev v" d] i by (simp add: rev_update rev_nth)
    moreover have "is_ascii_digit (v ! i)" using v(1) i by (simp add: list_all_length)
    with d have "\<bar>int d - int (v ! i)\<bar> < 10" by (auto simp: is_ascii_digit_def)
    ultimately show "\<not> is_valid_gtin (v[i := d])"
      using weighted_difference [of "int d - int (v ! i)" "weighted_sum (rev v)" ?k] v(2) d
      by (simp add: valid_gtin_iff)
  }
  {
    fix i assume i: "Suc i < length v"
    let ?k = "length v - Suc i"
    have k: "length v - Suc (Suc i) = ?k - 1" "0 < ?k" using i by auto
    let ?a = "int (v ! i)" let ?b = "int (v ! Suc i)"
    let ?r = "(rev v)[?k := v ! Suc i]"
    have "rev (v[i := v ! Suc i, Suc i := v ! i]) = ?r[?k - 1 := v ! i]" using i k by (simp add: rev_update)
    moreover have "weighted_sum (?r[?k - 1 := v ! i]) = weighted_sum ?r + position_weight (?k - 1) * (?a - ?b)"
      using weighted_sum_update [of "?k - 1" ?r "v ! i"] i k(2) by (simp add: rev_nth)
    moreover have "weighted_sum ?r = weighted_sum (rev v) + position_weight ?k * (?b - ?a)"
      using weighted_sum_update [of ?k "rev v" "v ! Suc i"] i by (simp add: rev_nth)
    ultimately have "weighted_sum (rev (v[i := v ! Suc i, Suc i := v ! i])) =
        weighted_sum (rev v) + (position_weight ?k - position_weight (?k - 1)) * (?b - ?a)"
      by (simp only: left_diff_distrib right_diff_distrib)
    moreover have "position_weight ?k - position_weight (?k - 1) = 2 \<or> position_weight ?k - position_weight (?k - 1) = - 2"
      using k(2) by (cases ?k) (auto simp: position_weight_def)
    moreover have "list_all is_ascii_digit (v[i := v ! Suc i, Suc i := v ! i])"
      using v(1) i by (auto simp: list_all_length nth_list_update)
    ultimately show "is_valid_gtin (v[i := v ! Suc i, Suc i := v ! i]) \<longleftrightarrow> (?a - ?b) mod 5 = 0"
      using doubled_difference [OF v(2), of "position_weight ?k - position_weight (?k - 1)" "?b - ?a"] assms
      by (simp add: valid_gtin_iff)
  }
qed

theorem gtin_detects_errors_witness:
  "is_valid_gtin (lit ''4006381333931'') \<and> \<not> is_valid_gtin ((lit ''4006381333931'')[4 := 52])"
proof -
  have v: "is_valid_gtin (lit ''4006381333931'')" by code_simp
  have "\<not> is_valid_gtin ((lit ''4006381333931'')[4 := 52])"
    by (rule gtin_detects_errors [OF v, THEN conjunct1, rule_format]) (simp_all add: is_ascii_digit_def)
  with v show ?thesis by blast
qed

section \<open>Search texts\<close>

definition no_double_space :: "ustr \<Rightarrow> bool" where
  "no_double_space s \<longleftrightarrow> successively (\<lambda>c d. \<not> (is_py_space c \<and> is_py_space d)) s"

lemma collapse_spaces_hd: "s \<noteq> [] \<Longrightarrow> \<not> is_py_space (hd s) \<Longrightarrow> collapse_spaces s \<noteq> [] \<and> hd (collapse_spaces s) = hd s"
  by (cases s) auto

lemma collapse_no_double: "no_double_space (collapse_spaces s)"
proof (induction s rule: collapse_spaces.induct)
  case (2 c cs)
  let ?cs = "dropWhile is_py_space cs"
  show ?case
  proof (cases "is_py_space c")
    case True
    have "no_double_space (32 # collapse_spaces ?cs)"
    proof (cases "?cs = []")
      case False
      with hd_dropWhile [OF False] collapse_spaces_hd [OF False] 2(1) [OF True] show ?thesis
        by (simp add: no_double_space_def successively_Cons del: dropWhile_eq_Nil_conv)
    qed (simp add: no_double_space_def del: dropWhile_eq_Nil_conv)
    then show ?thesis using True by simp
  qed (use 2 in \<open>auto simp: no_double_space_def successively_Cons\<close>)
qed (simp add: no_double_space_def)

lemma set_collapse: "set (collapse_spaces s) \<subseteq> insert 32 {c \<in> set s. \<not> is_py_space c}"
  by (induction s rule: collapse_spaces.induct) (auto dest: set_dropWhileD)

lemma no_double_dropWhile: "no_double_space s \<Longrightarrow> no_double_space (dropWhile P s)"
  by (metis no_double_space_def successively_append_iff takeWhile_dropWhile_id)

lemma no_double_rev: "no_double_space (rev s) \<longleftrightarrow> no_double_space s"
  unfolding no_double_space_def successively_rev by (rule successively_cong) auto

lemma no_double_strip: "no_double_space s \<Longrightarrow> no_double_space (py_strip s)"
  by (simp add: py_strip_def no_double_dropWhile no_double_rev)

lemma set_strip: "set (py_strip s) \<subseteq> set s"
  unfolding py_strip_def by (metis set_dropWhileD set_rev subsetI)

lemma strip_ends:
  assumes "py_strip s \<noteq> []"
  shows "\<not> is_py_space (hd (py_strip s))" "\<not> is_py_space (last (py_strip s))"
proof -
  let ?t = "dropWhile is_py_space s"
  have "?t \<noteq> []" using assms unfolding py_strip_def by force
  note t = hd_dropWhile [OF this]
  have "dropWhile is_py_space (rev ?t) \<noteq> []" using assms by (simp add: py_strip_def del: dropWhile_eq_Nil_conv)
  from hd_dropWhile [OF this] show "\<not> is_py_space (last (py_strip s))" by (simp add: py_strip_def last_rev del: dropWhile_eq_Nil_conv)
  obtain u where u: "?t = py_strip s @ u"
    using takeWhile_dropWhile_id [of is_py_space "rev ?t"] by (metis py_strip_def rev_append rev_rev_ident)
  show "\<not> is_py_space (hd (py_strip s))" using t u assms by simp
qed

text \<open>
  A search text consists of words: every character is a letter, a number or a space, and a
  space stands only between two other characters, never next to another space. This needs only
  that white space characters are not letters or numbers.
\<close>
theorem search_text_words:
  assumes "\<And>c. in_category L ''LN'' c \<Longrightarrow> \<not> is_py_space c"
  shows "list_all (\<lambda>c. in_category L ''LN'' c \<or> c = 32) (normalize_search_text L v) \<and>
     no_double_space (normalize_search_text L v) \<and>
     (normalize_search_text L v = [] \<or>
      hd (normalize_search_text L v) \<noteq> 32 \<and> last (normalize_search_text L v) \<noteq> 32)"
proof -
  let ?cs = "concat (map (search_character L) (str_casefold L (nfkc L v)))"
  have "set ?cs \<subseteq> insert 32 {c. in_category L ''LN'' c}" by (auto simp: search_character_def split: if_splits)
  then have "set (normalize_search_text L v) \<subseteq> insert 32 {c. in_category L ''LN'' c}"
    unfolding normalize_search_text_def using set_strip [of "collapse_spaces ?cs"] set_collapse [of ?cs] by blast
  moreover have "no_double_space (normalize_search_text L v)"
    by (simp add: normalize_search_text_def no_double_strip collapse_no_double)
  moreover have "is_py_space 32" by (simp add: is_py_space_def)
  then have "hd (normalize_search_text L v) \<noteq> 32 \<and> last (normalize_search_text L v) \<noteq> 32"
    if "normalize_search_text L v \<noteq> []"
    using strip_ends [of "collapse_spaces ?cs"] that unfolding normalize_search_text_def by metis
  ultimately show ?thesis by (auto simp: list_all_iff)
qed

text \<open>The rows of the Unicode database for ASCII and the Hebrew letters.\<close>

definition small_library :: text_library where
  "small_library = \<lparr>nfkc = (\<lambda>s. s), str_casefold = map ascii_lower,
     category = (\<lambda>c. if 48 \<le> c \<and> c \<le> 57 then ''Nd'' else if 65 \<le> c \<and> c \<le> 90 then ''Lu'' else if 97 \<le> c \<and> c \<le> 122 then ''Ll''
       else if 1488 \<le> c \<and> c \<le> 1514 then ''Lo'' else if c = 32 then ''Zs'' else if c < 32 then ''Cc'' else ''Po''),
     digit_value = (\<lambda>c. c - 48)\<rparr>"

theorem search_text_words_witness:
  "normalize_search_text small_library (lit '' Milk,  3% '') = lit ''milk 3'' \<and>
   no_double_space (normalize_search_text small_library (lit '' Milk,  3% ''))"
proof -
  have "\<not> is_py_space c" if "in_category small_library ''LN'' c" for c
    using that by (auto simp: in_category_def small_library_def is_py_space_def split: if_splits)
  note search_text_words [of small_library, OF this]
  moreover have "normalize_search_text small_library (lit '' Milk,  3% '') = lit ''milk 3''"
    by (simp add: normalize_search_text_def small_library_def search_character_def in_category_def ascii_lower_def
      is_py_space_def py_strip_def)
  ultimately show ?thesis by blast
qed

text \<open>
  Three spellings of units are found by the pattern and then dropped: the abbreviations of kilogram
  and millilitre without a quotation mark and the one of unit with an apostrophe. A text whose
  first amount carries one of them has no quantity.
\<close>
theorem dropped_unit_spellings:
  assumes "search_number L (nfkc L v) = Some (number, u)" "u \<in> {[1511, 1490], [1502, 1500], [1497, 1495, 39]}"
    and "str_casefold L u = u"
  shows "u \<in> set UNITS \<and> parse_quantity_text L v \<noteq> Inr (Some q)"
proof -
  have "quantity_of_unit a (raw_unit L u) = None" for a
    using assms(2,3) by (auto simp: raw_unit_def quantity_of_unit_def)
  then show ?thesis using assms(1,2)
    by (auto simp: parse_quantity_text_def UNITS_def rbind_Inr_iff split: option.splits)
qed

theorem dropped_unit_spellings_witness:
  "search_number small_library [53, 32, 1511, 1490] = Some ([53], [1511, 1490]) \<and>
   parse_quantity_text small_library [53, 32, 1511, 1490] \<noteq> Inr (Some \<lparr>nq_amount = 5000, nq_unit = lit ''g''\<rparr>) \<and>
   parse_quantity_text small_library [53, 32, 1511, 34, 1490] = Inr (Some \<lparr>nq_amount = 5000, nq_unit = lit ''g''\<rparr>)"
proof -
  have s: "search_number small_library (nfkc small_library [53, 32, 1511, 1490]) = Some ([53], [1511, 1490])"
    by (simp add: match_number_def match_unit_def small_library_def is_decimal_digit_def UNITS_def ascii_lower_def
      word_boundary_def is_word_def in_category_def is_py_space_def)
  have "parse_quantity_text small_library [53, 32, 1511, 34, 1490] = Inr (Some \<lparr>nq_amount = 5000, nq_unit = lit ''g''\<rparr>)"
    by (simp add: parse_quantity_text_def parse_decimal_def decimal_of_text_def decimal_number_def exponent_of_def digits_value_def
      split_sign_def quantity_of_unit_def raw_unit_def MAX_MONEY_def py_strip_def
      match_number_def match_unit_def small_library_def is_decimal_digit_def UNITS_def ascii_lower_def
      word_boundary_def is_word_def in_category_def is_py_space_def)
  with dropped_unit_spellings [OF s, of "\<lparr>nq_amount = 5000, nq_unit = lit ''g''\<rparr>"] s show ?thesis
    by (simp add: small_library_def ascii_lower_def)
qed

end
