(* ===== verification/Catalog.thy ===== *)
theory Catalog
  imports Normalization "HOL-Library.List_Lexorder" "HOL-Library.Product_Lexorder"
begin

text \<open>
  Product matching of \<^verbatim>\<open>domain/catalog.py\<close>: identifiers, descriptors, the structured score and the two
  matching functions. Decimals are their rational values; the arithmetic of the default decimal
  context (28 significant digits, half to even) is applied after every operation, as Python does. A UUID is a
  number, ordered as its text is. An explanation is a constructor that stands for its text.
\<close>

section \<open>Decimal arithmetic\<close>

definition round_half_even :: "rat \<Rightarrow> int" where
  "round_half_even x =
     (let f = \<lfloor>x\<rfloor>; r = x - of_int f in
      if r < 1 / 2 then f else if r > 1 / 2 then f + 1 else if even f then f else f + 1)"

definition scale10 :: "int \<Rightarrow> rat" where
  "scale10 k = 10 powi k"

text \<open>The number of decimal digits of a positive integer.\<close>

definition digit_count :: "int \<Rightarrow> int" where
  "digit_count n = int (length (dec_digits (nat n)))"

text \<open>A non-negative number rounded to 28 significant digits.\<close>

definition dec_round :: "rat \<Rightarrow> rat" where
  "dec_round x =
     (if x = 0 then 0
      else let (n, d) = quotient_of x;
               k = 28 + digit_count d - digit_count n;
               k' = (if x * scale10 k \<ge> 10 ^ 28 then k - 1 else k)
           in of_int (round_half_even (x * scale10 k')) / scale10 k')"

definition quantize3 :: "rat \<Rightarrow> rat" where
  "quantize3 x = of_int (round_half_even (x * 1000)) / 1000"

section \<open>Values\<close>

datatype MatchRule = EXACT_GTIN | EXACT_NORMALIZED_IDENTIFIER | STRUCTURED_CANDIDATE

datatype MatchDisposition = AUTO_CONFIRM | REVIEW

record ProductIdentifier =
  pi_kind :: IdentifierKind
  pi_value :: ustr
  pi_issuer_retailer_id :: "nat option"
  pi_is_validated :: bool
  pi_validation_method :: "ustr option"

definition ProductIdentifier_post_init :: "text_library \<Rightarrow> ProductIdentifier \<Rightarrow> exn + ProductIdentifier" where
  "ProductIdentifier_post_init L i =
     rbind (normalize_identifier L (pi_value i)) (\<lambda>normalized.
       if pi_kind i = GTIN \<and> \<not> is_valid_gtin normalized then Inl (exn_of DomainValidationError)
       else Inr (i\<lparr>pi_value := normalized\<rparr>))"

text \<open>What the two kinds of descriptor have in common.\<close>

record product_facts =
  pf_name :: ustr
  pf_normalized_name :: ustr
  pf_identifiers :: "ProductIdentifier list"
  pf_brand :: "ustr option"
  pf_manufacturer :: "ustr option"
  pf_quantity :: "rat option"
  pf_unit :: "ustr option"
  pf_packaging :: "ustr option"

record ProductDescriptor = product_facts +
  pd_retailer_item_id :: nat
  pd_retailer_id :: nat

record CanonicalProductDescriptor = product_facts +
  cp_canonical_product_id :: nat

datatype explanation =
    Globally_validated_gtin ustr | Retailer_scoped_gtin ustr | Independent_gtin ustr | One_retailer_gtin ustr
  | Identifier_needs_review IdentifierKind | Identifier_identical IdentifierKind
  | Name_similarity rat | Brand_matches | Manufacturer_matches | Quantity_matches | Packaging_matches | Conflicting_gtins

record MatchCandidate =
  mc_subject_retailer_item_id :: nat
  mc_candidate_retailer_item_id :: nat
  mc_rule :: MatchRule
  mc_disposition :: MatchDisposition
  mc_confidence :: rat
  mc_explanations :: "explanation list"

record CanonicalMatchCandidate =
  cm_subject_retailer_item_id :: nat
  cm_canonical_product_id :: nat
  cm_rule :: MatchRule
  cm_disposition :: MatchDisposition
  cm_confidence :: rat
  cm_explanations :: "explanation list"

section \<open>Descriptors\<close>

definition optional_search_text :: "text_library \<Rightarrow> ustr option \<Rightarrow> ustr option" where
  "optional_search_text L v =
     (case v of None \<Rightarrow> None | Some t \<Rightarrow>
        let normalized = normalize_search_text L t in if normalized = [] then None else Some normalized)"

text \<open>An empty \<^verbatim>\<open>quantity_text\<close> is present for the second check but not parsed.\<close>

definition product_descriptor ::
    "text_library \<Rightarrow> nat \<Rightarrow> nat \<Rightarrow> ustr \<Rightarrow> ProductIdentifier list \<Rightarrow> ustr option \<Rightarrow> ustr option \<Rightarrow> ustr option \<Rightarrow>
     rat option \<Rightarrow> ustr option \<Rightarrow> ustr option \<Rightarrow> exn + ProductDescriptor" where
  "product_descriptor L retailer_item_id retailer_id name identifiers brand manufacturer quantity_text quantity unit packaging =
     (let normalized_name = normalize_search_text L name in
      if normalized_name = [] then Inl (exn_of DomainValidationError)
      else if quantity_text \<noteq> None \<and> (quantity \<noteq> None \<or> unit \<noteq> None) then Inl (exn_of DomainValidationError)
      else if (case quantity of Some q \<Rightarrow> q < 0 | None \<Rightarrow> False) then Inl (exn_of DomainValidationError)
      else rbind (case quantity_text of
            Some t \<Rightarrow> if t \<noteq> [] then parse_quantity_text L t else Inr None | None \<Rightarrow> Inr None) (\<lambda>normalized_quantity.
        Inr \<lparr>pf_name = name, pf_normalized_name = normalized_name, pf_identifiers = identifiers,
             pf_brand = optional_search_text L brand, pf_manufacturer = optional_search_text L manufacturer,
             pf_quantity = (case normalized_quantity of Some q \<Rightarrow> Some (nq_amount q) | None \<Rightarrow> quantity),
             pf_unit = (case normalized_quantity of Some q \<Rightarrow> Some (nq_unit q) | None \<Rightarrow> optional_search_text L unit),
             pf_packaging = optional_search_text L packaging,
             pd_retailer_item_id = retailer_item_id, pd_retailer_id = retailer_id\<rparr>))"

definition canonical_product_descriptor ::
    "text_library \<Rightarrow> nat \<Rightarrow> ustr \<Rightarrow> ProductIdentifier list \<Rightarrow> ustr option \<Rightarrow> ustr option \<Rightarrow> rat option \<Rightarrow> ustr option \<Rightarrow>
     ustr option \<Rightarrow> exn + CanonicalProductDescriptor" where
  "canonical_product_descriptor L canonical_product_id name identifiers brand manufacturer quantity unit packaging =
     (let normalized_name = normalize_search_text L name in
      if normalized_name = [] then Inl (exn_of DomainValidationError)
      else if (case quantity of Some q \<Rightarrow> q < 0 | None \<Rightarrow> False) then Inl (exn_of DomainValidationError)
      else Inr \<lparr>pf_name = name, pf_normalized_name = normalized_name, pf_identifiers = identifiers,
             pf_brand = optional_search_text L brand, pf_manufacturer = optional_search_text L manufacturer,
             pf_quantity = quantity, pf_unit = optional_search_text L unit, pf_packaging = optional_search_text L packaging,
             cp_canonical_product_id = canonical_product_id\<rparr>)"

section \<open>Shared identifiers\<close>

definition identifier_values :: "IdentifierKind \<Rightarrow> 'a product_facts_scheme \<Rightarrow> ustr list" where
  "identifier_values kind d = map pi_value (filter (\<lambda>i. pi_kind i = kind) (pf_identifiers d))"

text \<open>\<^verbatim>\<open>min(left_values & right_values, default=None)\<close>\<close>

definition shared_identifier :: "'a product_facts_scheme \<Rightarrow> 'b product_facts_scheme \<Rightarrow> IdentifierKind \<Rightarrow> ustr option" where
  "shared_identifier left right kind =
     (let common = filter (\<lambda>v. v \<in> set (identifier_values kind right)) (identifier_values kind left)
      in if common = [] then None else Some (Min (set common)))"

definition shared_non_gtin_identifier ::
    "'a product_facts_scheme \<Rightarrow> 'b product_facts_scheme \<Rightarrow> ProductIdentifier option" where
  "shared_non_gtin_identifier left right =
     (let right_keys = map (\<lambda>i. (pi_kind i, pi_value i))
            (filter (\<lambda>i. pi_kind i \<notin> {GTIN, UNKNOWN_IDENTIFIER}) (pf_identifiers right))
      in List.find (\<lambda>i. (pi_kind i, pi_value i) \<in> set right_keys) (pf_identifiers left))"

definition conflicting_gtins :: "'a product_facts_scheme \<Rightarrow> 'b product_facts_scheme \<Rightarrow> bool" where
  "conflicting_gtins left right \<longleftrightarrow>
     identifier_values GTIN left \<noteq> [] \<and> identifier_values GTIN right \<noteq> [] \<and>
     set (identifier_values GTIN left) \<inter> set (identifier_values GTIN right) = {}"

section \<open>The structured score\<close>

text \<open>\<^verbatim>\<open>str.split()\<close>\<close>

function py_split :: "ustr \<Rightarrow> ustr list" where
  "py_split s =
     (let t = dropWhile is_py_space s in
      if t = [] then [] else takeWhile (\<lambda>c. \<not> is_py_space c) t # py_split (dropWhile (\<lambda>c. \<not> is_py_space c) t))"
  by pat_completeness auto
termination
proof (relation "measure length", simp)
  fix s t :: ustr assume t: "t = dropWhile is_py_space s" "t \<noteq> []"
  then have "\<not> is_py_space (hd t)" using hd_dropWhile by blast
  then have "length (dropWhile (\<lambda>c. \<not> is_py_space c) t) < length t"
    using t(2) by (cases t) (simp_all add: le_imp_less_Suc length_dropWhile_le)
  also have "length t \<le> length s" using t(1) by (simp add: length_dropWhile_le)
  finally show "(dropWhile (\<lambda>c. \<not> is_py_space c) t, s) \<in> measure length" by simp
qed

declare py_split.simps [simp del]

definition token_similarity :: "ustr \<Rightarrow> ustr \<Rightarrow> rat" where
  "token_similarity left right =
     (let left_tokens = set (py_split left); right_tokens = set (py_split right) in
      if left_tokens \<union> right_tokens = {} then 0
      else dec_round (of_nat (card (left_tokens \<inter> right_tokens)) / of_nat (card (left_tokens \<union> right_tokens))))"

definition same_quantity :: "'a product_facts_scheme \<Rightarrow> 'b product_facts_scheme \<Rightarrow> bool" where
  "same_quantity left right \<longleftrightarrow>
     pf_quantity left \<noteq> None \<and> pf_quantity right \<noteq> None \<and> pf_unit left \<noteq> None \<and>
     pf_quantity left = pf_quantity right \<and> pf_unit left = pf_unit right"

definition equal_present :: "ustr option \<Rightarrow> ustr option \<Rightarrow> bool" where
  "equal_present left right \<longleftrightarrow> left \<noteq> None \<and> right \<noteq> None \<and> left = right"

text \<open>One \<^verbatim>\<open>if\<close> of \<^verbatim>\<open>_structured_score\<close>: a bonus and its explanation.\<close>

definition bonus :: "bool \<Rightarrow> rat \<Rightarrow> explanation \<Rightarrow> rat \<times> explanation list \<Rightarrow> rat \<times> explanation list" where
  "bonus b points why se = (if b then (dec_round (fst se + points), snd se @ [why]) else se)"

definition structured_score ::
    "'a product_facts_scheme \<Rightarrow> 'b product_facts_scheme \<Rightarrow> rat \<times> explanation list" where
  "structured_score subject candidate =
     (let name_score = dec_round (token_similarity (pf_normalized_name subject) (pf_normalized_name candidate) * (2 / 5));
          se = (name_score, [Name_similarity name_score]);
          se = bonus (equal_present (pf_brand subject) (pf_brand candidate)) (1 / 5) Brand_matches se;
          se = bonus (equal_present (pf_manufacturer subject) (pf_manufacturer candidate)) (3 / 20) Manufacturer_matches se;
          se = bonus (same_quantity subject candidate) (1 / 5) Quantity_matches se;
          se = bonus (equal_present (pf_packaging subject) (pf_packaging candidate)) (1 / 20) Packaging_matches se
      in if conflicting_gtins subject candidate
         then (if fst se \<le> 1 / 4 then 0 else dec_round (fst se - 1 / 4), snd se @ [Conflicting_gtins]) else se)"

definition structured_confidence :: "rat \<Rightarrow> rat" where
  "structured_confidence score = min (99 / 100) (quantize3 score)"

section \<open>Matching\<close>

definition compare :: "ProductDescriptor \<Rightarrow> ProductDescriptor \<Rightarrow> rat \<Rightarrow> MatchCandidate option" where
  "compare subject candidate review_threshold =
     (let result = (\<lambda>rule disposition confidence why.
            \<lparr>mc_subject_retailer_item_id = pd_retailer_item_id subject,
             mc_candidate_retailer_item_id = pd_retailer_item_id candidate, mc_rule = rule,
             mc_disposition = disposition, mc_confidence = confidence, mc_explanations = why\<rparr>)
      in case shared_identifier subject candidate GTIN of
           Some g \<Rightarrow>
             if pd_retailer_id subject \<noteq> pd_retailer_id candidate
             then Some (result EXACT_GTIN AUTO_CONFIRM 1 [Independent_gtin g])
             else Some (result EXACT_GTIN REVIEW (98 / 100) [One_retailer_gtin g])
         | None \<Rightarrow>
             (case shared_non_gtin_identifier subject candidate of
                Some i \<Rightarrow> Some (result EXACT_NORMALIZED_IDENTIFIER REVIEW (95 / 100) [Identifier_identical (pi_kind i)])
              | None \<Rightarrow>
                  (case structured_score subject candidate of (score, why) \<Rightarrow>
                     if structured_confidence score < review_threshold then None
                     else Some (result STRUCTURED_CANDIDATE REVIEW (structured_confidence score) why))))"

definition globally_validated :: "ustr \<Rightarrow> CanonicalProductDescriptor \<Rightarrow> bool" where
  "globally_validated g candidate \<longleftrightarrow>
     list_ex (\<lambda>i. pi_kind i = GTIN \<and> pi_value i = g \<and> pi_issuer_retailer_id i = None \<and> pi_is_validated i) (pf_identifiers candidate)"

definition score_catalog_candidate ::
    "ProductDescriptor \<Rightarrow> CanonicalProductDescriptor \<Rightarrow> rat \<Rightarrow> exn + CanonicalMatchCandidate option" where
  "score_catalog_candidate subject candidate review_threshold =
     (let result = (\<lambda>rule confidence why.
            \<lparr>cm_subject_retailer_item_id = pd_retailer_item_id subject,
             cm_canonical_product_id = cp_canonical_product_id candidate, cm_rule = rule,
             cm_disposition = REVIEW, cm_confidence = confidence, cm_explanations = why\<rparr>)
      in if \<not> (0 \<le> review_threshold \<and> review_threshold \<le> 1) then Inl (exn_of DomainValidationError)
         else case shared_identifier subject candidate GTIN of
           Some g \<Rightarrow>
             if globally_validated g candidate
             then Inr (Some (result EXACT_GTIN 1 [Globally_validated_gtin g]))
             else Inr (Some (result EXACT_GTIN (98 / 100) [Retailer_scoped_gtin g]))
         | None \<Rightarrow>
             (case shared_non_gtin_identifier subject candidate of
                Some i \<Rightarrow> Inr (Some (result EXACT_NORMALIZED_IDENTIFIER (95 / 100) [Identifier_needs_review (pi_kind i)]))
              | None \<Rightarrow>
                  (case structured_score subject candidate of (score, why) \<Rightarrow>
                     if structured_confidence score < review_threshold then Inr None
                     else Inr (Some (result STRUCTURED_CANDIDATE (structured_confidence score) why)))))"

text \<open>The loop over the block and the final sort.\<close>

definition match_block :: "ProductDescriptor \<Rightarrow> ProductDescriptor list \<Rightarrow> rat \<Rightarrow> MatchCandidate list" where
  "match_block subject blocked_candidates review_threshold =
     List.map_filter (\<lambda>c. if pd_retailer_item_id c = pd_retailer_item_id subject then None
        else compare subject c review_threshold) blocked_candidates"

definition generate_match_candidates ::
    "ProductDescriptor \<Rightarrow> ProductDescriptor list \<Rightarrow> int \<Rightarrow> rat \<Rightarrow> exn + MatchCandidate list" where
  "generate_match_candidates subject blocked_candidates maximum_candidates review_threshold =
     (if maximum_candidates \<le> 0 then Inl (exn_of QueryLimitError)
      else if int (length blocked_candidates) > maximum_candidates then Inl (exn_of QueryLimitError)
      else if \<not> (0 \<le> review_threshold \<and> review_threshold \<le> 1) then Inl (exn_of DomainValidationError)
      else Inr (sort_key (\<lambda>m. (- mc_confidence m, mc_candidate_retailer_item_id m))
                 (match_block subject blocked_candidates review_threshold)))"

section \<open>Rounding stays within bounds\<close>

lemma round_half_even_bounds:
  "x \<le> of_int m \<Longrightarrow> round_half_even x \<le> m"
  "of_int m \<le> x \<Longrightarrow> m \<le> round_half_even x"
proof -
  have f: "of_int \<lfloor>x\<rfloor> \<le> x" "x < of_int \<lfloor>x\<rfloor> + 1" by linarith+
  have r: "round_half_even x \<in> {\<lfloor>x\<rfloor>, \<lfloor>x\<rfloor> + 1}" "round_half_even x = \<lfloor>x\<rfloor> + 1 \<Longrightarrow> of_int \<lfloor>x\<rfloor> < x"
    by (auto simp: round_half_even_def Let_def split: if_splits)
  show "round_half_even x \<le> m" if "x \<le> of_int m"
  proof (cases "round_half_even x = \<lfloor>x\<rfloor>")
    case True
    then show ?thesis using f(1) that by (metis of_int_le_iff order_trans)
  next
    case False
    then have "of_int \<lfloor>x\<rfloor> < (of_int m :: rat)" using r that by force
    then show ?thesis using False r(1) by simp
  qed
  show "m \<le> round_half_even x" if "of_int m \<le> x"
  proof -
    have "m \<le> \<lfloor>x\<rfloor>" using that by (simp add: le_floor_iff)
    then show ?thesis using r(1) by auto
  qed
qed

lemma dec_digits_bounds: "0 < n \<Longrightarrow> 10 ^ (length (dec_digits n) - 1) \<le> n \<and> n < 10 ^ length (dec_digits n)"
proof (induction n rule: dec_digits.induct)
  case (1 n)
  show ?case
  proof (cases "n < 10")
    case True
    then have "dec_digits n = [48 + n]" by (subst dec_digits.simps) simp
    then show ?thesis using 1 True by simp
  next
    case False
    then have e: "dec_digits n = dec_digits (n div 10) @ [48 + n mod 10]" by (subst dec_digits.simps) simp
    have IH: "10 ^ (length (dec_digits (n div 10)) - 1) \<le> n div 10" "n div 10 < 10 ^ length (dec_digits (n div 10))"
      using 1(1) False by auto
    obtain l where l: "length (dec_digits (n div 10)) = Suc l" using length_dec_digits_pos [of "n div 10"] by (cases "length (dec_digits (n div 10))") auto
    then have "10 ^ Suc l \<le> n" "n < 10 ^ Suc (Suc l)" using IH by auto
    then show ?thesis by (simp add: e l)
  qed
qed

text \<open>The exponent of \<open>dec_round\<close> leaves at least 28 digits before the point.\<close>

lemma scaled_lower:
  assumes "0 < x" "quotient_of x = (n, d)" "k = 28 + digit_count d - digit_count n"
  shows "10 ^ 27 \<le> x * scale10 k"
proof -
  have nd: "x = of_int n / of_int d" "0 < d" using assms(2) quotient_of_div quotient_of_denom_pos by blast+
  then have n: "0 < n" using assms(1) by (simp add: zero_less_divide_iff)
  let ?ln = "length (dec_digits (nat n))" let ?ld = "length (dec_digits (nat d))"
  have "10 ^ (?ln - 1) \<le> nat n" "nat d \<le> 10 ^ ?ld"
    using dec_digits_bounds [of "nat n"] dec_digits_bounds [of "nat d"] n nd(2) by simp_all
  then have "of_nat (10 ^ (?ln - 1)) \<le> (of_nat (nat n) :: rat)" "of_nat (nat d) \<le> (of_nat (10 ^ ?ld) :: rat)"
    by (simp_all only: of_nat_le_iff)
  then have b: "(10 :: rat) ^ (?ln - 1) \<le> of_int n" "of_int d \<le> (10 :: rat) ^ ?ld" using n nd(2) by simp_all
  have "(10 :: rat) ^ 27 * of_int d \<le> 10 ^ 27 * 10 ^ ?ld" using b(2) by simp
  also have "\<dots> = 10 powi (int (?ln - 1) + k)"
  proof -
    have "0 < ?ln" by (rule length_dec_digits_pos)
    then have "int (?ln - 1) + k = int (27 + ?ld)" using assms(3) by (simp add: digit_count_def of_nat_diff Suc_leI del: length_greater_0_conv)
    then show ?thesis by (simp only: power_int_of_nat power_add)
  qed
  also have "\<dots> = 10 ^ (?ln - 1) * scale10 k" by (simp add: scale10_def power_int_add)
  also have "\<dots> \<le> of_int n * scale10 k" using b(1) by (simp add: scale10_def mult_right_mono)
  finally have "10 ^ 27 \<le> of_int n * scale10 k / of_int d" using nd(2) by (simp only: pos_le_divide_eq of_int_0_less_iff)
  then show ?thesis by (simp add: nd(1))
qed

text \<open>Rounding does not leave a bound with at most three decimals.\<close>

lemma dec_round_bounds:
  assumes "0 \<le> x" "x \<le> b" "b \<le> 1" "b * 1000 = of_int c"
  shows "0 \<le> dec_round x" "dec_round x \<le> b"
proof -
  have "0 \<le> dec_round x \<and> dec_round x \<le> b"
  proof (cases "x = 0")
    case False
    obtain n d where q: "quotient_of x = (n, d)" by fastforce
    define k where "k = 28 + digit_count d - digit_count n"
    define k' where "k' = (if x * scale10 k \<ge> 10 ^ 28 then k - 1 else k)"
    have "10 ^ 27 \<le> x * scale10 k" using scaled_lower [OF _ q k_def] assms(1) False by simp
    then have low: "10 ^ 27 \<le> x * scale10 k'" by (auto simp: k'_def scale10_def power_int_diff)
    have pos: "0 < scale10 k'" by (simp add: scale10_def)
    have "x * scale10 k' \<le> 1 * scale10 k'" using assms(2,3) pos by (intro mult_right_mono) simp_all
    with low have big: "10 ^ 27 \<le> scale10 k'" by simp
    have "3 \<le> k'"
    proof (rule ccontr)
      assume "\<not> 3 \<le> k'"
      then have "(10 :: rat) powi k' \<le> 10 powi 2" by (intro power_int_increasing) simp_all
      with big show False by (simp add: scale10_def)
    qed
    then have k3: "scale10 k' = 1000 * of_int (10 ^ nat (k' - 3))"
      using power_int_add [of "10 :: rat" 3 "k' - 3"] by (simp add: scale10_def power_int_def)
    let ?r = "round_half_even (x * scale10 k')"
    have "x * scale10 k' \<le> b * scale10 k'" using assms(2) pos by (simp add: mult_right_mono)
    also have "b * scale10 k' = of_int (c * 10 ^ nat (k' - 3))" using assms(4) k3 by (simp add: mult.assoc [symmetric])
    finally have "?r \<le> c * 10 ^ nat (k' - 3)" by (rule round_half_even_bounds(1))
    then have "(of_int ?r :: rat) \<le> of_int (c * 10 ^ nat (k' - 3))" by (simp only: of_int_le_iff)
    also have "\<dots> = b * scale10 k'" using assms(4) k3 by (simp add: mult.assoc [symmetric])
    finally have "of_int ?r / scale10 k' \<le> b" using pos by (simp add: pos_divide_le_eq)
    moreover have "0 \<le> ?r" using round_half_even_bounds(2) [of 0 "x * scale10 k'"] assms(1) pos by simp
    moreover have "dec_round x = of_int ?r / scale10 k'"
      unfolding dec_round_def k_def k'_def using False q by (simp add: Let_def)
    ultimately show ?thesis using pos by simp
  qed (use assms in \<open>simp add: dec_round_def\<close>)
  then show "0 \<le> dec_round x" "dec_round x \<le> b" by simp_all
qed

lemma quantize3_bounds: "0 \<le> x \<Longrightarrow> 0 \<le> quantize3 x"
  using round_half_even_bounds(2) [of 0 "x * 1000"] by (simp add: quantize3_def)

section \<open>The score\<close>

lemma token_similarity_bounds: "0 \<le> token_similarity l r" "token_similarity l r \<le> 1"
proof -
  let ?I = "set (py_split l) \<inter> set (py_split r)" let ?U = "set (py_split l) \<union> set (py_split r)"
  have "card ?I \<le> card ?U" by (intro card_mono) auto
  then have "of_nat (card ?I) / of_nat (card ?U) \<le> (1 :: rat)" by (cases "card ?U = 0") (auto simp: divide_le_eq)
  then have "0 \<le> dec_round (of_nat (card ?I) / of_nat (card ?U)) \<and> dec_round (of_nat (card ?I) / of_nat (card ?U)) \<le> 1"
    using dec_round_bounds [of "of_nat (card ?I) / of_nat (card ?U)" 1 1000] by simp
  then show "0 \<le> token_similarity l r" "token_similarity l r \<le> 1" by (auto simp: token_similarity_def Let_def)
qed

lemma bonus_bounds:
  assumes "0 \<le> fst se" "fst se \<le> b" "0 \<le> points" "b + points \<le> 1" "(b + points) * 1000 = of_int c"
  shows "0 \<le> fst (bonus cond points why se) \<and> fst (bonus cond points why se) \<le> b + points"
  using dec_round_bounds [of "fst se + points" "b + points" c] assms by (simp add: bonus_def)

lemma structured_score_bounds: "0 \<le> fst (structured_score subject candidate) \<and> fst (structured_score subject candidate) \<le> 1"
proof -
  let ?t = "token_similarity (pf_normalized_name subject) (pf_normalized_name candidate)"
  have n: "0 \<le> dec_round (?t * (2 / 5))" "dec_round (?t * (2 / 5)) \<le> 2 / 5"
    using dec_round_bounds [of "?t * (2 / 5)" "2 / 5" 400] token_similarity_bounds
      [of "pf_normalized_name subject" "pf_normalized_name candidate"] by simp_all
  define s1 where "s1 = bonus (equal_present (pf_brand subject) (pf_brand candidate)) (1 / 5) Brand_matches
    (dec_round (?t * (2 / 5)), [Name_similarity (dec_round (?t * (2 / 5)))])"
  have b1: "0 \<le> fst s1 \<and> fst s1 \<le> 3 / 5" using n bonus_bounds [of _ "2 / 5" "1 / 5" 600] by (simp add: s1_def)
  define s2 where "s2 = bonus (equal_present (pf_manufacturer subject) (pf_manufacturer candidate)) (3 / 20) Manufacturer_matches s1"
  have b2: "0 \<le> fst s2 \<and> fst s2 \<le> 3 / 4" using b1 bonus_bounds [of s1 "3 / 5" "3 / 20" 750] by (simp add: s2_def)
  define s3 where "s3 = bonus (same_quantity subject candidate) (1 / 5) Quantity_matches s2"
  have b3: "0 \<le> fst s3 \<and> fst s3 \<le> 19 / 20" using b2 bonus_bounds [of s2 "3 / 4" "1 / 5" 950] by (simp add: s3_def)
  define s4 where "s4 = bonus (equal_present (pf_packaging subject) (pf_packaging candidate)) (1 / 20) Packaging_matches s3"
  have b4: "0 \<le> fst s4 \<and> fst s4 \<le> 1" using b3 bonus_bounds [of s3 "19 / 20" "1 / 20" 1000] by (simp add: s4_def)
  have "structured_score subject candidate = (if conflicting_gtins subject candidate
      then (if fst s4 \<le> 1 / 4 then 0 else dec_round (fst s4 - 1 / 4), snd s4 @ [Conflicting_gtins]) else s4)"
    by (simp add: structured_score_def s1_def s2_def s3_def s4_def Let_def)
  moreover have "0 \<le> dec_round (fst s4 - 1 / 4) \<and> dec_round (fst s4 - 1 / 4) \<le> 1" if "\<not> fst s4 \<le> 1 / 4"
    using dec_round_bounds [of "fst s4 - 1 / 4" 1 1000] b4 that by simp
  ultimately show ?thesis using b4 by auto
qed

lemma structured_confidence_bounds:
  "0 \<le> structured_confidence (fst (structured_score s c))" "structured_confidence (fst (structured_score s c)) \<le> 99 / 100"
  using quantize3_bounds [of "fst (structured_score s c)"] structured_score_bounds [of s c]
  by (auto simp: structured_confidence_def)

section \<open>Symmetry\<close>

lemma structured_score_sym: "fst (structured_score s c) = fst (structured_score c s)"
proof -
  have "token_similarity l r = token_similarity r l" for l r
    by (simp add: token_similarity_def Let_def Int_commute [of "set (py_split l)"] Un_commute [of "set (py_split l)"] conj_commute)
  moreover have "equal_present l r = equal_present r l" for l r by (auto simp: equal_present_def)
  moreover have "same_quantity s c = same_quantity c s" by (auto simp: same_quantity_def)
  moreover have "conflicting_gtins s c = conflicting_gtins c s" by (auto simp: conflicting_gtins_def)
  moreover have f: "fst (bonus b p w se) = (if b then dec_round (fst se + p) else fst se)" for b p w se by (simp add: bonus_def)
  ultimately show ?thesis unfolding structured_score_def Let_def by (simp add: f)
qed

lemma shared_identifier_sym: "shared_identifier l r k = shared_identifier r l k"
proof -
  have "set (filter (\<lambda>v. v \<in> set (identifier_values k r)) (identifier_values k l)) =
      set (filter (\<lambda>v. v \<in> set (identifier_values k l)) (identifier_values k r))" by auto
  then show ?thesis unfolding shared_identifier_def Let_def by (metis set_empty)
qed

lemma shared_non_gtin_iff:
  "shared_non_gtin_identifier l r = None \<longleftrightarrow>
     (\<forall>i\<in>set (pf_identifiers l). \<forall>j\<in>set (pf_identifiers r).
        pi_kind j \<notin> {GTIN, UNKNOWN_IDENTIFIER} \<longrightarrow> (pi_kind i, pi_value i) \<noteq> (pi_kind j, pi_value j))"
  by (auto simp: shared_non_gtin_identifier_def find_None_iff Let_def)

lemma shared_non_gtin_sym: "shared_non_gtin_identifier l r = None \<longleftrightarrow> shared_non_gtin_identifier r l = None"
  unfolding shared_non_gtin_iff by (metis prod.inject)

section \<open>Properties\<close>

text \<open>What a match says, without the two sides and the explanations.\<close>

definition verdict :: "MatchCandidate \<Rightarrow> MatchRule \<times> MatchDisposition \<times> rat" where
  "verdict m = (mc_rule m, mc_disposition m, mc_confidence m)"

text \<open>
  Matching does not depend on the direction: two items match exactly when they match the other
  way round, by the same rule, with the same disposition and the same confidence to the last digit.
\<close>
theorem matching_symmetric:
  "map_option verdict (compare a b threshold) = map_option verdict (compare b a threshold)"
proof (cases "shared_identifier a b GTIN")
  case (Some g)
  then show ?thesis using shared_identifier_sym [of a b GTIN] by (auto simp: compare_def verdict_def Let_def)
next
  case None
  note sym = shared_identifier_sym [of a b GTIN] shared_non_gtin_sym [of a b] structured_score_sym [of a b]
  show ?thesis
  proof (cases "shared_non_gtin_identifier a b")
    case (Some i)
    then obtain j where "shared_non_gtin_identifier b a = Some j" using sym(2) by auto
    then show ?thesis using Some None sym(1) by (simp add: compare_def verdict_def Let_def)
  next
    case n: None
    then have "shared_non_gtin_identifier b a = None" using sym(2) by simp
    then show ?thesis using n None sym(1,3)
      by (cases "structured_score a b"; cases "structured_score b a") (simp add: compare_def verdict_def Let_def)
  qed
qed

text \<open>
  What the rules promise about a match \<open>m\<close> of \<open>subject\<close> with \<open>candidate\<close>: it may be confirmed without
  review only when the two share a GTIN and come from different retailers.
\<close>

definition shares_gtin :: "'a product_facts_scheme \<Rightarrow> 'b product_facts_scheme \<Rightarrow> ustr \<Rightarrow> bool" where
  "shares_gtin a b g \<longleftrightarrow> g \<in> set (identifier_values GTIN a) \<and> g \<in> set (identifier_values GTIN b)"

definition justified :: "rat \<Rightarrow> ProductDescriptor \<Rightarrow> ProductDescriptor \<Rightarrow> MatchCandidate \<Rightarrow> bool" where
  "justified threshold subject candidate m \<longleftrightarrow>
     mc_subject_retailer_item_id m = pd_retailer_item_id subject \<and>
     mc_candidate_retailer_item_id m = pd_retailer_item_id candidate \<and>
     pd_retailer_item_id candidate \<noteq> pd_retailer_item_id subject \<and>
     (case mc_rule m of
        EXACT_GTIN \<Rightarrow> (\<exists>g. shares_gtin subject candidate g \<and> is_valid_gtin g) \<and>
          (if pd_retailer_id subject \<noteq> pd_retailer_id candidate
           then mc_disposition m = AUTO_CONFIRM \<and> mc_confidence m = 1
           else mc_disposition m = REVIEW \<and> mc_confidence m = 98 / 100)
      | EXACT_NORMALIZED_IDENTIFIER \<Rightarrow> mc_disposition m = REVIEW \<and> mc_confidence m = 95 / 100
      | STRUCTURED_CANDIDATE \<Rightarrow> mc_disposition m = REVIEW \<and>
          max 0 threshold \<le> mc_confidence m \<and> mc_confidence m \<le> 99 / 100 \<and> (\<nexists>g. shares_gtin subject candidate g))"

text \<open>Descriptors are made of identifiers that went through their constructor.\<close>

definition checked_identifiers :: "'a product_facts_scheme \<Rightarrow> bool" where
  "checked_identifiers d \<longleftrightarrow> list_all (\<lambda>i. pi_kind i = GTIN \<longrightarrow> is_valid_gtin (pi_value i)) (pf_identifiers d)"

lemma ProductIdentifier_checked:
  "ProductIdentifier_post_init L i = Inr j \<Longrightarrow> pi_kind j = GTIN \<longrightarrow> is_valid_gtin (pi_value j)"
  by (auto simp: ProductIdentifier_post_init_def rbind_Inr_iff split: if_splits)

lemma shared_identifier_Some:
  assumes "shared_identifier a b GTIN = Some g"
  shows "shares_gtin a b g"
proof -
  let ?c = "filter (\<lambda>v. v \<in> set (identifier_values GTIN b)) (identifier_values GTIN a)"
  have "?c \<noteq> []" "g = Min (set ?c)" using assms by (auto simp: shared_identifier_def Let_def split: if_splits)
  then have "g \<in> set ?c" by (metis List.finite_set Min_in set_empty)
  then show ?thesis by (simp add: shares_gtin_def)
qed

lemma shared_identifier_None: "shared_identifier a b GTIN = None \<Longrightarrow> \<not> shares_gtin a b g"
  by (auto simp: shared_identifier_def shares_gtin_def filter_empty_conv Let_def split: if_splits)

lemma shares_valid: "checked_identifiers a \<Longrightarrow> shares_gtin a b g \<Longrightarrow> is_valid_gtin g"
  by (auto simp: checked_identifiers_def shares_gtin_def identifier_values_def list_all_iff)

lemma compare_justified:
  assumes "checked_identifiers subject" "pd_retailer_item_id candidate \<noteq> pd_retailer_item_id subject"
    and "compare subject candidate threshold = Some m"
  shows "justified threshold subject candidate m"
proof (cases "shared_identifier subject candidate GTIN")
  case (Some g)
  then have "\<exists>g. shares_gtin subject candidate g \<and> is_valid_gtin g"
    using shared_identifier_Some [OF Some] shares_valid [OF assms(1)] by blast
  then show ?thesis using assms Some by (auto simp: compare_def justified_def Let_def split: if_splits)
next
  case None
  then show ?thesis using assms structured_confidence_bounds [of subject candidate] shared_identifier_None [OF None]
    by (auto simp: compare_def justified_def Let_def split: option.splits prod.splits if_splits)
qed

text \<open>
  C22. Matching is conservative. Every proposal for an item comes from the given block and not from the
  item itself; it may be confirmed without review only when the two items share a GTIN with a
  valid check digit and belong to different retailers; a proposal from the score is for review, reaches the
  threshold and stays below 0.99, and is only made when no GTIN is shared. There are at
  most as many proposals as candidates and they are ordered by falling confidence and then by item.
\<close>
theorem matching_is_conservative:
  assumes "checked_identifiers subject" "generate_match_candidates subject block n threshold = Inr ms"
  shows "list_all (\<lambda>m. \<exists>c\<in>set block. justified threshold subject c m) ms \<and> length ms \<le> length block \<and> int (length ms) \<le> n \<and>
     sorted (map (\<lambda>m. (- mc_confidence m, mc_candidate_retailer_item_id m)) ms)"
proof -
  have ms: "ms = sort_key (\<lambda>m. (- mc_confidence m, mc_candidate_retailer_item_id m)) (match_block subject block threshold)"
    and n: "int (length block) \<le> n" using assms(2) by (auto simp: generate_match_candidates_def split: if_splits)
  have "\<exists>c\<in>set block. justified threshold subject c m" if "m \<in> set (match_block subject block threshold)" for m
    using that compare_justified [OF assms(1)]
    by (fastforce simp: match_block_def List.map_filter_def split: if_splits)
  moreover have "length (match_block subject block threshold) \<le> length block"
    by (simp add: match_block_def List.map_filter_def)
  ultimately show ?thesis using n by (simp add: ms list_all_iff)
qed

text \<open>Two retailers sell the same coffee under one GTIN.\<close>

definition demo_gtin :: ProductIdentifier where
  "demo_gtin = \<lparr>pi_kind = GTIN, pi_value = lit ''4006381333931'', pi_issuer_retailer_id = None, pi_is_validated = True,
     pi_validation_method = None\<rparr>"

definition demo_item :: "nat \<Rightarrow> nat \<Rightarrow> ProductIdentifier list \<Rightarrow> ProductDescriptor" where
  "demo_item item retailer ids = \<lparr>pf_name = lit ''coffee'', pf_normalized_name = lit ''coffee'', pf_identifiers = ids,
     pf_brand = Some (lit ''b''), pf_manufacturer = None, pf_quantity = Some 250, pf_unit = Some (lit ''g''),
     pf_packaging = None, pd_retailer_item_id = item, pd_retailer_id = retailer\<rparr>"

theorem matching_is_conservative_witness:
  "\<exists>m. generate_match_candidates (demo_item 1 10 [demo_gtin]) [demo_item 1 10 [], demo_item 2 20 [demo_gtin]] 5 (13 / 20) = Inr [m] \<and>
     mc_disposition m = AUTO_CONFIRM \<and>
     list_ex (\<lambda>c. justified (13 / 20) (demo_item 1 10 [demo_gtin]) c m) [demo_item 1 10 [], demo_item 2 20 [demo_gtin]]"
proof -
  let ?s = "demo_item 1 10 [demo_gtin]" let ?b = "[demo_item 1 10 [], demo_item 2 20 [demo_gtin]]"
  have v: "is_valid_gtin (lit ''4006381333931'')" by code_simp
  then have c: "checked_identifiers ?s" by (simp add: checked_identifiers_def demo_item_def demo_gtin_def)
  have "\<exists>m. generate_match_candidates ?s ?b 5 (13 / 20) = Inr [m] \<and> mc_disposition m = AUTO_CONFIRM"
    by (simp add: generate_match_candidates_def match_block_def List.map_filter_def compare_def shared_identifier_def
      identifier_values_def demo_item_def demo_gtin_def Let_def)
  then obtain m where m: "generate_match_candidates ?s ?b 5 (13 / 20) = Inr [m]" "mc_disposition m = AUTO_CONFIRM" by blast
  from matching_is_conservative [OF c m(1)] m show ?thesis by simp
qed

end
