(* ===== verification/Catalogue.thy ===== *)
theory Catalogue
  imports Tables Catalog Application_Models
begin

text \<open>
  The tables of the catalogue (\<^verbatim>\<open>adapters/persistence/schema.py\<close>): stores, items of retailers, products
  with their identifiers, matches and match candidates, current prices and availability with
  their histories, and the staging tables from which a file is applied. Columns that only keep evidence
  for people (\<^verbatim>\<open>evidence\<close>, \<^verbatim>\<open>validation_evidence\<close>), generated columns and columns that triggers of the
  migrations fill in are left out. Instants are microseconds, numbers are exact, texts are compared by code points.
\<close>

section \<open>Stores and items\<close>

record StoreRow =
  st_id :: nat
  st_retailer_id :: nat
  st_portal_id :: nat
  st_chain_code :: ustr
  st_subchain_code :: ustr
  st_source_store_code :: ustr
  st_audit_number :: "ustr option"
  st_store_type :: "ustr option"
  st_chain_name :: "ustr option"
  st_subchain_name :: "ustr option"
  st_name :: ustr
  st_address :: "ustr option"
  st_city :: "ustr option"
  st_postal_code :: "ustr option"
  st_is_active :: bool
  st_first_seen_at :: int
  st_last_seen_at :: int
  st_last_source_file_id :: "nat option"

record StoreAlias =
  sa_id :: nat
  sa_store_id :: nat
  sa_retailer_id :: nat
  sa_portal_id :: nat
  sa_alias_kind :: string
  sa_alias_value :: ustr

record ItemRow =
  it_id :: nat
  it_retailer_id :: nat
  it_portal_id :: nat
  it_source_item_code :: ustr
  it_gtin :: "ustr option"
  it_item_type :: "int option"
  it_name :: ustr
  it_manufacturer_name :: "ustr option"
  it_manufacturer_country :: "ustr option"
  it_manufacturer_description :: "ustr option"
  it_unit_quantity :: "ustr option"
  it_quantity :: "rat option"
  it_unit_of_measure :: "ustr option"
  it_is_weighted :: "bool option"
  it_quantity_in_package :: "rat option"
  it_first_seen_at :: int
  it_last_seen_at :: int
  it_last_source_file_id :: nat

section \<open>Products, identifiers and matches\<close>

record ProductRow =
  pr_id :: nat
  pr_name :: ustr
  pr_brand :: "ustr option"
  pr_manufacturer :: "ustr option"
  pr_quantity :: "rat option"
  pr_unit_of_measure :: "ustr option"
  pr_status :: string

record IdentifierRow =
  id_id :: nat
  id_product_id :: nat
  id_kind :: IdentifierKind
  id_value :: ustr
  id_normalized_value :: ustr
  id_issuer_retailer_id :: "nat option"
  id_issuer_portal_id :: "nat option"
  id_is_validated :: bool
  id_validation_method :: "string option"

record MatchGroup =
  mg_id :: nat
  mg_kind :: IdentifierKind
  mg_normalized_value :: ustr
  mg_canonical_product_id :: nat

record AssertionRow =
  as_id :: nat
  as_retailer_item_id :: nat
  as_kind :: IdentifierKind
  as_normalized_value :: ustr
  as_source_file_id :: nat
  as_asserted_at :: int
  as_superseded_at :: "int option"

record CandidateRow =
  ca_id :: nat
  ca_retailer_item_id :: nat
  ca_canonical_product_id :: nat
  ca_method :: string
  ca_score :: rat
  ca_status :: string
  ca_reviewed_at :: "int option"
  ca_reviewed_by :: "ustr option"

record MatchRow =
  ma_id :: nat
  ma_retailer_item_id :: nat
  ma_canonical_product_id :: nat
  ma_method :: string
  ma_confirmed_at :: int
  ma_confirmed_by :: ustr

section \<open>Prices and availability\<close>

record CurrentPrice =
  cp_id :: nat
  cp_retailer_item_id :: nat
  cp_store_id :: nat
  cp_item_price :: rat
  cp_unit_of_measure_price :: "rat option"
  cp_allow_discount :: "bool option"
  cp_source_updated_at :: "int option"
  cp_last_sale_at :: "int option"
  cp_audit_number :: "ustr option"
  cp_source_file_id :: nat
  cp_first_observed_at :: int
  cp_last_observed_at :: int

record PriceHistory =
  ph_id :: nat
  ph_retailer_item_id :: nat
  ph_store_id :: nat
  ph_item_price :: rat
  ph_unit_of_measure_price :: "rat option"
  ph_allow_discount :: "bool option"
  ph_source_updated_at :: "int option"
  ph_last_sale_at :: "int option"
  ph_audit_number :: "ustr option"
  ph_source_file_id :: nat
  ph_valid_from :: int
  ph_valid_to :: "int option"

record CurrentAvailability =
  av_id :: nat
  av_retailer_item_id :: nat
  av_store_id :: nat
  av_is_available :: bool
  av_item_status :: "int option"
  av_source_file_id :: nat
  av_first_observed_at :: int
  av_last_observed_at :: int

record AvailabilityHistory =
  ah_id :: nat
  ah_retailer_item_id :: nat
  ah_store_id :: nat
  ah_is_available :: bool
  ah_item_status :: "int option"
  ah_source_file_id :: nat
  ah_valid_from :: int
  ah_valid_to :: "int option"

section \<open>Staging\<close>

record StagedDocument =
  sd_source_file_id :: nat
  sd_metadata_index :: int
  sd_subchain_id :: "ustr option"
  sd_store_id :: "ustr option"
  sd_source_updated_at :: "int option"

record StagedStore =
  ss_source_file_id :: nat
  ss_record_index :: int
  ss_chain_id :: ustr
  ss_subchain_id :: ustr
  ss_source_store_id :: ustr
  ss_audit_number :: "ustr option"
  ss_store_type :: "ustr option"
  ss_chain_name :: "ustr option"
  ss_subchain_name :: "ustr option"
  ss_store_name :: ustr
  ss_address :: "ustr option"
  ss_city :: "ustr option"
  ss_postal_code :: "ustr option"

record StagedPrice =
  sp_source_file_id :: nat
  sp_record_index :: int
  sp_chain_id :: ustr
  sp_subchain_id :: ustr
  sp_source_store_id :: ustr
  sp_source_item_code :: ustr
  sp_gtin :: "ustr option"
  sp_item_type :: "int option"
  sp_item_name :: ustr
  sp_manufacturer_name :: "ustr option"
  sp_manufacturer_country :: "ustr option"
  sp_manufacturer_description :: "ustr option"
  sp_unit_quantity :: "ustr option"
  sp_quantity :: "rat option"
  sp_unit_of_measure :: "ustr option"
  sp_is_weighted :: "bool option"
  sp_quantity_in_package :: "rat option"
  sp_item_price :: rat
  sp_unit_of_measure_price :: "rat option"
  sp_allow_discount :: "bool option"
  sp_item_status :: "int option"
  sp_price_updated_at :: "int option"
  sp_last_sale_at :: "int option"
  sp_audit_number :: "ustr option"

section \<open>The database\<close>

record catalogue =
  c_next_id :: nat
  c_now :: int
  c_stores :: "StoreRow list"
  c_store_aliases :: "StoreAlias list"
  c_items :: "ItemRow list"
  c_products :: "ProductRow list"
  c_identifiers :: "IdentifierRow list"
  c_groups :: "MatchGroup list"
  c_assertions :: "AssertionRow list"
  c_candidates :: "CandidateRow list"
  c_matches :: "MatchRow list"
  c_prices :: "CurrentPrice list"
  c_price_history :: "PriceHistory list"
  c_availability :: "CurrentAvailability list"
  c_availability_history :: "AvailabilityHistory list"
  c_staged_documents :: "StagedDocument list"
  c_staged_stores :: "StagedStore list"
  c_staged_prices :: "StagedPrice list"

type_synonym 'a query = "(catalogue, exn, 'a) action"

text \<open>\<^verbatim>\<open>async with self._engine.begin()\<close>: a transaction that raises leaves the database as it was.\<close>

definition atomically :: "('s, 'e, 'a) action \<Rightarrow> ('s, 'e, 'a) action" where
  "atomically m s = (case m s of (Inl e, _) \<Rightarrow> (Inl e, s) | r \<Rightarrow> r)"

text \<open>\<open>n\<close> calls of \<^verbatim>\<open>uuidv7()\<close>: the first of the generated keys.\<close>

definition fresh_ids :: "nat \<Rightarrow> nat query" where
  "fresh_ids n c = (Inr (c_next_id c), c\<lparr>c_next_id := c_next_id c + n\<rparr>)"

lemma wp_fresh_ids [action_simps]:
  "wp (fresh_ids n) Q E c \<longleftrightarrow> Q (c_next_id c) (c\<lparr>c_next_id := c_next_id c + n\<rparr>)"
  by (simp add: fresh_ids_def wp_def)

lemma wp_atomically [action_simps]: "wp (atomically m) Q E s \<longleftrightarrow> wp m Q (\<lambda>e _. E e s) s"
  by (auto simp: wp_def atomically_def split: prod.splits sum.splits)

section \<open>Keys\<close>

definition store_key :: "StoreRow \<Rightarrow> nat \<times> nat \<times> ustr \<times> ustr" where
  "store_key s = (st_retailer_id s, st_portal_id s, st_subchain_code s, st_source_store_code s)"

definition item_key :: "ItemRow \<Rightarrow> nat \<times> nat \<times> ustr" where
  "item_key i = (it_retailer_id i, it_portal_id i, it_source_item_code i)"

definition identifier_key :: "IdentifierRow \<Rightarrow> IdentifierKind \<times> ustr \<times> nat option \<times> nat option" where
  "identifier_key i = (id_kind i, id_normalized_value i, id_issuer_retailer_id i, id_issuer_portal_id i)"

definition candidate_key :: "CandidateRow \<Rightarrow> nat \<times> nat \<times> string" where
  "candidate_key k = (ca_retailer_item_id k, ca_canonical_product_id k, ca_method k)"

end
