(* ===== verification/Gtin_Matching.thy ===== *)
theory Gtin_Matching
  imports Catalogue
begin

text \<open>
  The automatic matching of items by GTIN when a price file is applied: \<^verbatim>\<open>_match_exact_gtins\<close> of
  \<^verbatim>\<open>adapters/persistence/ingestion.py\<close>, one definition per statement. Items assert GTINs; a group gives every
  asserted GTIN one product; an identifier of the product is scoped to the asserting portal until two
  retailers assert it, which validates it globally.
\<close>

section \<open>The items of a file\<close>

definition exact_gtin_items :: "nat \<Rightarrow> nat \<Rightarrow> nat \<Rightarrow> catalogue \<Rightarrow> ItemRow list" where
  "exact_gtin_items sid rid pid c =
     (let codes = map sp_source_item_code (filter (\<lambda>p. sp_source_file_id p = sid) (c_staged_prices c)) in
      filter (\<lambda>i. it_source_item_code i \<in> set codes \<and> it_retailer_id i = rid \<and> it_portal_id i = pid) (c_items c))"

definition live_gtin :: "AssertionRow \<Rightarrow> bool" where
  "live_gtin a \<longleftrightarrow> as_kind a = GTIN \<and> as_superseded_at a = None"

definition affected_gtins :: "ItemRow list \<Rightarrow> catalogue \<Rightarrow> ustr list" where
  "affected_gtins items c =
     remdups (List.map_filter it_gtin items @
       map as_normalized_value (filter (\<lambda>a. as_retailer_item_id a \<in> set (map it_id items) \<and> live_gtin a) (c_assertions c)))"

section \<open>Assertions\<close>

definition assertion_key :: "AssertionRow \<Rightarrow> nat \<times> IdentifierKind \<times> nat" where
  "assertion_key a = (as_retailer_item_id a, as_kind a, as_source_file_id a)"

definition supersede_assertions :: "nat \<Rightarrow> int \<Rightarrow> ItemRow list \<Rightarrow> unit query" where
  "supersede_assertions sid applied_at items =
     (let prior = (\<lambda>a. as_retailer_item_id a \<in> set (map it_id items) \<and> live_gtin a \<and> as_source_file_id a \<noteq> sid) in
      abind (aget (\<lambda>c. list_all (\<lambda>a. prior a \<longrightarrow> as_asserted_at a \<le> applied_at) (c_assertions c))) (\<lambda>ordered.
      abind (constraint ordered) (\<lambda>_.
      amodify (\<lambda>c. c\<lparr>c_assertions := update_where prior (\<lambda>a. a\<lparr>as_superseded_at := Some applied_at\<rparr>) (c_assertions c)\<rparr>))))"

text \<open>An index makes the live assertion of an item and a kind unique.\<close>

definition one_live_assertion :: "AssertionRow list \<Rightarrow> bool" where
  "one_live_assertion rows \<longleftrightarrow>
     distinct (map (\<lambda>a. (as_retailer_item_id a, as_kind a)) (filter (\<lambda>a. as_superseded_at a = None) rows))"

definition asserted :: "nat \<Rightarrow> int \<Rightarrow> nat \<Rightarrow> ItemRow \<times> ustr \<Rightarrow> AssertionRow" where
  "asserted sid applied_at n ig =
     \<lparr>as_id = n, as_retailer_item_id = it_id (fst ig), as_kind = GTIN, as_normalized_value = snd ig,
      as_source_file_id = sid, as_asserted_at = applied_at, as_superseded_at = None\<rparr>"

definition with_gtin :: "ItemRow list \<Rightarrow> (ItemRow \<times> ustr) list" where
  "with_gtin items = List.map_filter (\<lambda>i. map_option (\<lambda>g. (i, g)) (it_gtin i)) items"

definition insert_assertions :: "nat \<Rightarrow> int \<Rightarrow> ItemRow list \<Rightarrow> unit query" where
  "insert_assertions sid applied_at items =
     abind (fresh_ids (length (with_gtin items))) (\<lambda>n.
     abind (amodify (\<lambda>c. c\<lparr>c_assertions :=
       insert_missing assertion_key (numbered n (asserted sid applied_at) (with_gtin items)) (c_assertions c)\<rparr>)) (\<lambda>_.
     abind (aget (\<lambda>c. one_live_assertion (c_assertions c))) constraint))"

section \<open>Groups and products\<close>

text \<open>Decisions that were made from GTINs alone and may be replaced.\<close>

definition automatic_match :: "MatchRow \<Rightarrow> bool" where
  "automatic_match m \<longleftrightarrow>
     ma_method m \<in> {''exact_gtin'', ''exact_provisional_gtin'', ''exact_validated_gtin''} \<and>
     ma_confirmed_by m \<in> {lit ''system:exact-gtin'', lit ''system:exact-gtin-evidence''}"

definition delete_automatic_matches :: "ItemRow list \<Rightarrow> unit query" where
  "delete_automatic_matches items =
     amodify (\<lambda>c. c\<lparr>c_matches := filter (\<lambda>m. \<not> (ma_retailer_item_id m \<in> set (map it_id items) \<and> automatic_match m)) (c_matches c)\<rparr>)"

definition group_of :: "catalogue \<Rightarrow> ustr \<Rightarrow> MatchGroup option" where
  "group_of c g = find (\<lambda>r. mg_kind r = GTIN \<and> mg_normalized_value r = g) (c_groups c)"

definition global_gtin :: "ustr \<Rightarrow> IdentifierRow \<Rightarrow> bool" where
  "global_gtin g i \<longleftrightarrow> id_kind i = GTIN \<and> id_normalized_value i = g \<and> id_issuer_retailer_id i = None \<and> id_is_validated i"

definition validated_product :: "catalogue \<Rightarrow> ustr \<Rightarrow> nat option" where
  "validated_product c g = map_option id_product_id (find (global_gtin g) (c_identifiers c))"

record group_candidate =
  gc_group_id :: nat
  gc_product_id :: nat
  gc_creates_product :: bool
  gc_gtin :: ustr
  gc_item :: ItemRow

definition ungrouped :: "ItemRow list \<Rightarrow> catalogue \<Rightarrow> (ItemRow \<times> ustr) list" where
  "ungrouped items c =
     distinct_on snd (sort_key (\<lambda>(i, g). (g, it_source_item_code i))
       (filter (\<lambda>(i, g). group_of c g = None) (with_gtin items)))"

definition group_candidates :: "nat \<Rightarrow> nat \<Rightarrow> ItemRow list \<Rightarrow> catalogue \<Rightarrow> group_candidate list" where
  "group_candidates n m items c =
     numbered 0 (\<lambda>k (i, g). \<lparr>gc_group_id = n + k,
       gc_product_id = (case validated_product c g of Some p \<Rightarrow> p | None \<Rightarrow> m + k),
       gc_creates_product = (validated_product c g = None), gc_gtin = g, gc_item = i\<rparr>) (ungrouped items c)"

definition new_product :: "group_candidate \<Rightarrow> ProductRow" where
  "new_product k =
     \<lparr>pr_id = gc_product_id k, pr_name = it_name (gc_item k), pr_brand = it_manufacturer_name (gc_item k),
      pr_manufacturer = it_manufacturer_name (gc_item k), pr_quantity = it_quantity (gc_item k),
      pr_unit_of_measure = it_unit_of_measure (gc_item k), pr_status = ''active''\<rparr>"

definition new_group :: "group_candidate \<Rightarrow> MatchGroup" where
  "new_group k = \<lparr>mg_id = gc_group_id k, mg_kind = GTIN, mg_normalized_value = gc_gtin k, mg_canonical_product_id = gc_product_id k\<rparr>"

definition create_groups :: "ItemRow list \<Rightarrow> unit query" where
  "create_groups items =
     abind (aget (\<lambda>c. length (ungrouped items c))) (\<lambda>count.
     abind (fresh_ids count) (\<lambda>n. abind (fresh_ids count) (\<lambda>m.
     abind (aget (group_candidates n m items)) (\<lambda>ks.
     abind (amodify (\<lambda>c. c\<lparr>c_products := c_products c @ map new_product (filter gc_creates_product ks)\<rparr>)) (\<lambda>_.
     abind (amodify (\<lambda>c. c\<lparr>c_groups :=
       insert_missing (\<lambda>r. (mg_kind r, mg_normalized_value r)) (map new_group ks) (c_groups c)\<rparr>)) (\<lambda>_.
     amodify (\<lambda>c. c\<lparr>c_products := filter (\<lambda>p. \<not> (pr_id p \<in> set (map gc_product_id (filter gc_creates_product ks)) \<and>
       pr_id p \<notin> set (map mg_canonical_product_id (c_groups c)))) (c_products c)\<rparr>)))))))"

section \<open>Identifiers\<close>

definition scoped_identifiers :: "ItemRow list \<Rightarrow> catalogue \<Rightarrow> (nat \<times> ustr \<times> nat \<times> nat) list" where
  "scoped_identifiers items c =
     remdups (List.map_filter (\<lambda>(i, g). map_option (\<lambda>r. (mg_canonical_product_id r, g, it_retailer_id i, it_portal_id i))
       (group_of c g)) (with_gtin items))"

definition retailer_assertion :: "nat \<Rightarrow> nat \<times> ustr \<times> nat \<times> nat \<Rightarrow> IdentifierRow" where
  "retailer_assertion n s = (case s of (p, g, rid, pid) \<Rightarrow>
     \<lparr>id_id = n, id_product_id = p, id_kind = GTIN, id_value = g, id_normalized_value = g, id_issuer_retailer_id = Some rid,
      id_issuer_portal_id = Some pid, id_is_validated = False, id_validation_method = Some ''retailer_assertion''\<rparr>)"

definition merge_assertion :: "IdentifierRow \<Rightarrow> IdentifierRow \<Rightarrow> IdentifierRow" where
  "merge_assertion i new =
     (if id_product_id i = id_product_id new \<and> id_validation_method i = Some ''retailer_assertion''
      then i\<lparr>id_value := id_value new\<rparr> else i)"

definition upsert_scoped_identifiers :: "ItemRow list \<Rightarrow> unit query" where
  "upsert_scoped_identifiers items =
     abind (aget (scoped_identifiers items)) (\<lambda>ss.
     abind (fresh_ids (length ss)) (\<lambda>n.
     amodify (\<lambda>c. c\<lparr>c_identifiers := upsert identifier_key merge_assertion (numbered n retailer_assertion ss) (c_identifiers c)\<rparr>)))"

definition item_of :: "catalogue \<Rightarrow> nat \<Rightarrow> ItemRow option" where
  "item_of c n = find (\<lambda>i. it_id i = n) (c_items c)"

definition live_gtin_retailers :: "ustr list \<Rightarrow> catalogue \<Rightarrow> (ustr \<times> nat \<times> nat) list" where
  "live_gtin_retailers affected c =
     remdups (List.map_filter (\<lambda>a. if live_gtin a \<and> as_normalized_value a \<in> set affected
       then map_option (\<lambda>i. (as_normalized_value a, it_retailer_id i, it_portal_id i)) (item_of c (as_retailer_item_id a))
       else None) (c_assertions c))"

definition stale_identifier :: "ustr list \<Rightarrow> (ustr \<times> nat \<times> nat) list \<Rightarrow> IdentifierRow \<Rightarrow> bool" where
  "stale_identifier affected live i \<longleftrightarrow>
     id_kind i = GTIN \<and> id_normalized_value i \<in> set affected \<and> id_issuer_retailer_id i \<noteq> None \<and>
     id_validation_method i = Some ''retailer_assertion'' \<and>
     (id_normalized_value i, id_issuer_retailer_id i, id_issuer_portal_id i) \<notin> set (map (\<lambda>(g, r, p). (g, Some r, Some p)) live)"

definition delete_stale_identifiers :: "ustr list \<Rightarrow> (ustr \<times> nat \<times> nat) list \<Rightarrow> unit query" where
  "delete_stale_identifiers affected live =
     amodify (\<lambda>c. c\<lparr>c_identifiers := filter (\<lambda>i. \<not> stale_identifier affected live i) (c_identifiers c)\<rparr>)"

definition retailer_count :: "(ustr \<times> nat \<times> nat) list \<Rightarrow> ustr \<Rightarrow> nat" where
  "retailer_count live g = length (remdups (map (\<lambda>(_, r, _). r) (filter (\<lambda>(h, _, _). h = g) live)))"

definition corroboration :: "ustr list \<Rightarrow> (ustr \<times> nat \<times> nat) list \<Rightarrow> catalogue \<Rightarrow> (ustr \<times> nat \<times> nat) list" where
  "corroboration affected live c =
     List.map_filter (\<lambda>g. map_option (\<lambda>r. (g, mg_canonical_product_id r, retailer_count live g)) (group_of c g)) affected"

definition delete_uncorroborated :: "(ustr \<times> nat \<times> nat) list \<Rightarrow> unit query" where
  "delete_uncorroborated corr =
     amodify (\<lambda>c. c\<lparr>c_identifiers := filter (\<lambda>i. \<not> (id_kind i = GTIN \<and> id_issuer_retailer_id i = None \<and>
       id_validation_method i = Some ''independent_retailer_corroboration'' \<and>
       id_normalized_value i \<in> set (map fst (filter (\<lambda>(_, _, n). n < 2) corr)))) (c_identifiers c)\<rparr>)"

definition corroborated :: "nat \<Rightarrow> ustr \<times> nat \<times> nat \<Rightarrow> IdentifierRow" where
  "corroborated n k = (case k of (g, p, _) \<Rightarrow>
     \<lparr>id_id = n, id_product_id = p, id_kind = GTIN, id_value = g, id_normalized_value = g, id_issuer_retailer_id = None,
      id_issuer_portal_id = None, id_is_validated = True, id_validation_method = Some ''independent_retailer_corroboration''\<rparr>)"

definition merge_corroborated :: "IdentifierRow \<Rightarrow> IdentifierRow \<Rightarrow> IdentifierRow" where
  "merge_corroborated i new =
     (if id_product_id i = id_product_id new \<and> id_validation_method i = Some ''independent_retailer_corroboration''
      then i\<lparr>id_is_validated := True, id_validation_method := id_validation_method new\<rparr> else i)"

definition insert_corroborated :: "(ustr \<times> nat \<times> nat) list \<Rightarrow> unit query" where
  "insert_corroborated corr =
     (let ks = filter (\<lambda>(_, _, n). n \<ge> 2) corr in
      abind (fresh_ids (length ks)) (\<lambda>n.
      amodify (\<lambda>c. c\<lparr>c_identifiers := upsert identifier_key merge_corroborated (numbered n corroborated ks) (c_identifiers c)\<rparr>)))"

section \<open>Conflicts and matches\<close>

definition match_of :: "catalogue \<Rightarrow> nat \<Rightarrow> MatchRow option" where
  "match_of c n = find (\<lambda>m. ma_retailer_item_id m = n) (c_matches c)"

definition scoped_of :: "catalogue \<Rightarrow> ItemRow \<Rightarrow> ustr \<Rightarrow> IdentifierRow option" where
  "scoped_of c i g =
     find (\<lambda>r. identifier_key r = (GTIN, g, Some (it_retailer_id i), Some (it_portal_id i))) (c_identifiers c)"

definition differs :: "nat \<Rightarrow> nat option \<Rightarrow> bool" where
  "differs p q \<longleftrightarrow> (case q of None \<Rightarrow> False | Some r \<Rightarrow> r \<noteq> p)"

definition identifier_conflicts :: "ItemRow list \<Rightarrow> catalogue \<Rightarrow> (nat \<times> nat) list" where
  "identifier_conflicts items c =
     (let grouped = List.map_filter (\<lambda>(i, g). map_option (\<lambda>r. (i, g, mg_canonical_product_id r)) (group_of c g)) (with_gtin items) in
      map (\<lambda>(i, g, p). (it_id i, p))
        (filter (\<lambda>(i, g, p). differs p (map_option ma_canonical_product_id (match_of c (it_id i)))) grouped) @
      map (\<lambda>(i, g, p). (it_id i, p))
        (filter (\<lambda>(i, g, p). differs p (map_option id_product_id (scoped_of c i g))) grouped) @
      List.map_filter (\<lambda>(i, g, p). if differs p (validated_product c g)
        then map_option (\<lambda>q. (it_id i, q)) (validated_product c g) else None) grouped)"

definition conflict_candidate :: "nat \<Rightarrow> nat \<times> nat \<Rightarrow> CandidateRow" where
  "conflict_candidate n ip =
     \<lparr>ca_id = n, ca_retailer_item_id = fst ip, ca_canonical_product_id = snd ip, ca_method = ''exact_identifier_conflict'',
      ca_score = 1, ca_status = ''pending'', ca_reviewed_at = None, ca_reviewed_by = None\<rparr>"

definition insert_conflicts :: "ItemRow list \<Rightarrow> unit query" where
  "insert_conflicts items =
     abind (aget (identifier_conflicts items)) (\<lambda>ks.
     abind (fresh_ids (length ks)) (\<lambda>n.
     amodify (\<lambda>c. c\<lparr>c_candidates := insert_missing candidate_key (numbered n conflict_candidate ks) (c_candidates c)\<rparr>)))"

definition match_method :: "catalogue \<Rightarrow> ustr \<Rightarrow> nat \<Rightarrow> string" where
  "match_method c g p =
     (if list_ex (\<lambda>i. global_gtin g i \<and> id_product_id i = p) (c_identifiers c)
      then ''exact_validated_gtin'' else ''exact_provisional_gtin'')"

text \<open>The items that get an automatic match: asserted, grouped, scoped to the product, unmatched and undisputed.\<close>

definition matchable :: "ItemRow list \<Rightarrow> catalogue \<Rightarrow> (nat \<times> nat \<times> string) list" where
  "matchable items c =
     List.map_filter (\<lambda>(i, g).
       case group_of c g of None \<Rightarrow> None | Some r \<Rightarrow>
         let p = mg_canonical_product_id r in
         if list_ex (\<lambda>a. live_gtin a \<and> as_retailer_item_id a = it_id i \<and> as_normalized_value a = g) (c_assertions c) \<and>
            map_option id_product_id (scoped_of c i g) = Some p \<and> match_of c (it_id i) = None \<and>
            \<not> list_ex (\<lambda>x. global_gtin g x \<and> id_product_id x \<noteq> p) (c_identifiers c)
         then Some (it_id i, p, match_method c g p) else None) (with_gtin items)"

definition exact_match :: "int \<Rightarrow> nat \<Rightarrow> nat \<times> nat \<times> string \<Rightarrow> MatchRow" where
  "exact_match applied_at n k = (case k of (i, p, how) \<Rightarrow>
     \<lparr>ma_id = n, ma_retailer_item_id = i, ma_canonical_product_id = p, ma_method = how, ma_confirmed_at = applied_at,
      ma_confirmed_by = lit ''system:exact-gtin-evidence''\<rparr>)"

definition insert_exact_matches :: "int \<Rightarrow> ItemRow list \<Rightarrow> unit query" where
  "insert_exact_matches applied_at items =
     abind (aget (matchable items)) (\<lambda>ks.
     abind (fresh_ids (length ks)) (\<lambda>n.
     amodify (\<lambda>c. c\<lparr>c_matches := insert_missing ma_retailer_item_id (numbered n (exact_match applied_at) ks) (c_matches c)\<rparr>)))"

text \<open>The assertion that supports an automatic match, among those of the affected GTINs.\<close>

definition supporting_gtin :: "ustr list \<Rightarrow> catalogue \<Rightarrow> MatchRow \<Rightarrow> ustr option" where
  "supporting_gtin affected c m =
     map_option as_normalized_value (find (\<lambda>a. live_gtin a \<and> as_retailer_item_id a = ma_retailer_item_id m \<and>
       as_normalized_value a \<in> set affected \<and> item_of c (as_retailer_item_id a) \<noteq> None \<and>
       map_option mg_canonical_product_id (group_of c (as_normalized_value a)) = Some (ma_canonical_product_id m)) (c_assertions c))"

definition refresh_exact_matches :: "int \<Rightarrow> ustr list \<Rightarrow> unit query" where
  "refresh_exact_matches applied_at affected =
     amodify (\<lambda>c. c\<lparr>c_matches := map (\<lambda>m.
       case supporting_gtin affected c m of
         Some g \<Rightarrow> if automatic_match m
           then m\<lparr>ma_method := match_method c g (ma_canonical_product_id m), ma_confirmed_at := applied_at,
                  ma_confirmed_by := lit ''system:exact-gtin-evidence''\<rparr>
           else m
       | None \<Rightarrow> m) (c_matches c)\<rparr>)"

section \<open>The whole step\<close>

definition match_exact_gtins :: "nat \<Rightarrow> nat \<Rightarrow> nat \<Rightarrow> int \<Rightarrow> unit query" where
  "match_exact_gtins sid rid pid applied_at =
     abind (aget (exact_gtin_items sid rid pid)) (\<lambda>items.
     abind (aget (affected_gtins items)) (\<lambda>affected.
     abind (supersede_assertions sid applied_at items) (\<lambda>_.
     abind (insert_assertions sid applied_at items) (\<lambda>_.
     abind (delete_automatic_matches items) (\<lambda>_.
     abind (create_groups items) (\<lambda>_.
     abind (upsert_scoped_identifiers items) (\<lambda>_.
     abind (aget (live_gtin_retailers affected)) (\<lambda>live.
     abind (delete_stale_identifiers affected live) (\<lambda>_.
     abind (aget (corroboration affected live)) (\<lambda>corr.
     abind (delete_uncorroborated corr) (\<lambda>_.
     abind (insert_corroborated corr) (\<lambda>_.
     abind (insert_conflicts items) (\<lambda>_.
     abind (insert_exact_matches applied_at items) (\<lambda>_.
     refresh_exact_matches applied_at affected))))))))))))))"

end
