(* ===== verification/Gtin_Evidence.thy ===== *)
theory Gtin_Evidence
  imports Gtin_Matching
begin

text \<open>
  What the automatic matching guarantees: operator decisions are never touched, a GTIN is validated
  globally exactly when two retailers assert it, and what a replay of an older file does to a match.
\<close>

section \<open>The effect of every statement\<close>

lemma fresh_ids_eq: "fresh_ids n c = (Inr m, c') \<longleftrightarrow> m = c_next_id c \<and> c' = c\<lparr>c_next_id := c_next_id c + n\<rparr>"
  by (auto simp: fresh_ids_def)

lemma constraint_eq: "constraint b s = (Inr u, s') \<longleftrightarrow> b \<and> s' = s"
  by (auto simp: constraint_def areturn_def araise_def)

lemma amodify_eq: "amodify f s = (Inr u, s') \<longleftrightarrow> s' = f s"
  by (auto simp: amodify_def)

lemma aget_eq: "aget f s = (Inr x, s') \<longleftrightarrow> x = f s \<and> s' = s"
  by (auto simp: aget_def)

lemmas effect_simps = abind_Inr_iff fresh_ids_eq constraint_eq amodify_eq aget_eq

text \<open>The assertions after a file.\<close>

definition assertions_after :: "nat \<Rightarrow> int \<Rightarrow> ItemRow list \<Rightarrow> nat \<Rightarrow> AssertionRow list \<Rightarrow> AssertionRow list" where
  "assertions_after sid applied_at items n rows =
     insert_missing assertion_key (numbered n (asserted sid applied_at) (with_gtin items))
       (update_where (\<lambda>a. as_retailer_item_id a \<in> set (map it_id items) \<and> live_gtin a \<and> as_source_file_id a \<noteq> sid)
         (\<lambda>a. a\<lparr>as_superseded_at := Some applied_at\<rparr>) rows)"

text \<open>The states between the groups of statements.\<close>

lemma match_exact_gtins_states:
  assumes "match_exact_gtins sid rid pid applied_at c = (Inr u, c')"
  obtains items affected live corr n c1 c2 c3 c4 c5 c6 c7 where
    "items = exact_gtin_items sid rid pid c" "affected = affected_gtins items c"
    "c1 = c\<lparr>c_next_id := c_next_id c + length (with_gtin items),
       c_assertions := assertions_after sid applied_at items (c_next_id c) (c_assertions c)\<rparr>"
    "one_live_assertion (c_assertions c1)"
    "delete_automatic_matches items c1 = (Inr (), c2)" "create_groups items c2 = (Inr (), c3)"
    "upsert_scoped_identifiers items c3 = (Inr (), c4)" "live = live_gtin_retailers affected c4"
    "corr = corroboration affected live (snd (delete_stale_identifiers affected live c4))"
    "delete_stale_identifiers affected live c4 = (Inr (), c5)"
    "abind (delete_uncorroborated corr) (\<lambda>_. insert_corroborated corr) c5 = (Inr (), c6)"
    "insert_conflicts items c6 = (Inr (), c7)"
    "abind (insert_exact_matches applied_at items) (\<lambda>_. refresh_exact_matches applied_at affected) c7 = (Inr (), c')"
proof -
  let ?items = "exact_gtin_items sid rid pid c" let ?aff = "affected_gtins ?items c"
  from assms show thesis
    unfolding match_exact_gtins_def
    apply (simp only: effect_simps)
    apply (elim exE conjE)
    subgoal premises p
      using p by - (rule that [of ?items ?aff], auto simp: effect_simps supersede_assertions_def insert_assertions_def Let_def assertions_after_def)
    done
qed

section \<open>What stays\<close>

text \<open>The tables that the matching does not write.\<close>

definition same_rest :: "catalogue \<Rightarrow> catalogue \<Rightarrow> bool" where
  "same_rest c c' \<longleftrightarrow> c_now c' = c_now c \<and> c_stores c' = c_stores c \<and> c_store_aliases c' = c_store_aliases c \<and>
     c_items c' = c_items c \<and> c_prices c' = c_prices c \<and> c_price_history c' = c_price_history c \<and>
     c_availability c' = c_availability c \<and> c_availability_history c' = c_availability_history c \<and>
     c_staged_documents c' = c_staged_documents c \<and> c_staged_stores c' = c_staged_stores c \<and>
     c_staged_prices c' = c_staged_prices c \<and> c_next_id c \<le> c_next_id c'"

lemma same_rest_refl: "same_rest c c"
  by (simp add: same_rest_def)

lemma same_rest_trans: "same_rest a b \<Longrightarrow> same_rest b c \<Longrightarrow> same_rest a c"
  by (auto simp: same_rest_def)

lemma delete_automatic_effect:
  "delete_automatic_matches items c = (Inr u, c') \<Longrightarrow> same_rest c c' \<and> c_products c' = c_products c \<and>
     c_identifiers c' = c_identifiers c \<and> c_groups c' = c_groups c \<and> c_assertions c' = c_assertions c \<and> c_candidates c' = c_candidates c \<and>
     c_matches c' = filter (\<lambda>m. \<not> (ma_retailer_item_id m \<in> set (map it_id items) \<and> automatic_match m)) (c_matches c)"
  by (auto simp: delete_automatic_matches_def effect_simps same_rest_def)

lemma create_groups_frame:
  "create_groups items c = (Inr u, c') \<Longrightarrow> same_rest c c' \<and> c_identifiers c' = c_identifiers c \<and>
     c_assertions c' = c_assertions c \<and> c_candidates c' = c_candidates c \<and> c_matches c' = c_matches c"
  by (auto simp: create_groups_def effect_simps same_rest_def)

lemma upsert_scoped_effect:
  "upsert_scoped_identifiers items c = (Inr u, c') \<Longrightarrow> same_rest c c' \<and> c_products c' = c_products c \<and> c_groups c' = c_groups c \<and>
     c_assertions c' = c_assertions c \<and> c_candidates c' = c_candidates c \<and> c_matches c' = c_matches c \<and>
     c_identifiers c' = upsert identifier_key merge_assertion
       (numbered (c_next_id c) retailer_assertion (scoped_identifiers items c)) (c_identifiers c)"
  by (auto simp: upsert_scoped_identifiers_def effect_simps same_rest_def)

lemma delete_stale_effect:
  "delete_stale_identifiers affected live c = (Inr u, c') \<Longrightarrow> same_rest c c' \<and> c_products c' = c_products c \<and> c_groups c' = c_groups c \<and>
     c_assertions c' = c_assertions c \<and> c_candidates c' = c_candidates c \<and> c_matches c' = c_matches c \<and>
     c_identifiers c' = filter (\<lambda>i. \<not> stale_identifier affected live i) (c_identifiers c)"
  by (auto simp: delete_stale_identifiers_def effect_simps same_rest_def)

definition corroboration_identifier :: "IdentifierRow \<Rightarrow> bool" where
  "corroboration_identifier i \<longleftrightarrow> id_kind i = GTIN \<and> id_issuer_retailer_id i = None \<and>
     id_validation_method i = Some ''independent_retailer_corroboration''"

lemma corroborate_effect:
  "abind (delete_uncorroborated corr) (\<lambda>_. insert_corroborated corr) c = (Inr u, c') \<Longrightarrow>
     same_rest c c' \<and> c_products c' = c_products c \<and> c_groups c' = c_groups c \<and>
     c_assertions c' = c_assertions c \<and> c_candidates c' = c_candidates c \<and> c_matches c' = c_matches c \<and>
     c_identifiers c' = upsert identifier_key merge_corroborated
       (numbered (c_next_id c) corroborated (filter (\<lambda>(_, _, n). n \<ge> 2) corr))
       (filter (\<lambda>i. \<not> (corroboration_identifier i \<and> id_normalized_value i \<in> set (map fst (filter (\<lambda>(_, _, n). n < 2) corr)))) (c_identifiers c))"
  by (auto simp: delete_uncorroborated_def insert_corroborated_def effect_simps same_rest_def Let_def
    corroboration_identifier_def conj_assoc)

lemma insert_conflicts_effect:
  "insert_conflicts items c = (Inr u, c') \<Longrightarrow> same_rest c c' \<and> c_products c' = c_products c \<and> c_groups c' = c_groups c \<and>
     c_assertions c' = c_assertions c \<and> c_identifiers c' = c_identifiers c \<and> c_matches c' = c_matches c \<and>
     c_candidates c' = insert_missing candidate_key
       (numbered (c_next_id c) conflict_candidate (identifier_conflicts items c)) (c_candidates c)"
  by (auto simp: insert_conflicts_def effect_simps same_rest_def)

lemma insert_matches_effect:
  assumes "abind (insert_exact_matches applied_at items) (\<lambda>_. refresh_exact_matches applied_at affected) c = (Inr u, c')"
  shows "same_rest c c' \<and> c_products c' = c_products c \<and> c_groups c' = c_groups c \<and>
     c_assertions c' = c_assertions c \<and> c_identifiers c' = c_identifiers c \<and> c_candidates c' = c_candidates c \<and>
     (\<exists>f. c_matches c' = map f (insert_missing ma_retailer_item_id
        (numbered (c_next_id c) (exact_match applied_at) (matchable items c)) (c_matches c)) \<and>
        (\<forall>m. \<not> automatic_match m \<longrightarrow> f m = m) \<and> (\<forall>m. automatic_match m \<longrightarrow> automatic_match (f m)) \<and>
        (\<forall>m. ma_retailer_item_id (f m) = ma_retailer_item_id m \<and> ma_canonical_product_id (f m) = ma_canonical_product_id m))"
proof -
  define d where "d = c\<lparr>c_next_id := c_next_id c + length (matchable items c), c_matches := insert_missing ma_retailer_item_id
        (numbered (c_next_id c) (exact_match applied_at) (matchable items c)) (c_matches c)\<rparr>"
  define f where "f m = (case supporting_gtin affected d m of Some g \<Rightarrow> if automatic_match m
           then m\<lparr>ma_method := match_method d g (ma_canonical_product_id m), ma_confirmed_at := applied_at,
                  ma_confirmed_by := lit ''system:exact-gtin-evidence''\<rparr> else m | None \<Rightarrow> m)" for m
  have "refresh_exact_matches applied_at affected d = (Inr u, c')" using assms
    by (auto simp: insert_exact_matches_def effect_simps d_def)
  then have "c' = d\<lparr>c_matches := map f (c_matches d)\<rparr>" by (simp add: refresh_exact_matches_def effect_simps f_def [abs_def])
  moreover have "automatic_match (f m)" if "automatic_match m" for m
    using that by (auto simp: f_def automatic_match_def match_method_def split: option.splits)
  moreover have "ma_retailer_item_id (f m) = ma_retailer_item_id m \<and> ma_canonical_product_id (f m) = ma_canonical_product_id m"
      "\<not> automatic_match m \<longrightarrow> f m = m" for m
    by (auto simp: f_def split: option.splits)
  ultimately show ?thesis by (auto simp: d_def same_rest_def)
qed

lemmas gtin_effects = delete_automatic_effect create_groups_frame upsert_scoped_effect delete_stale_effect corroborate_effect
  insert_conflicts_effect insert_matches_effect

section \<open>Groups\<close>

lemma insert_missing_new:
  "distinct (map k news) \<Longrightarrow> set (map k news) \<inter> set (map k rows) = {} \<Longrightarrow> insert_missing k news rows = rows @ news"
proof -
  assume d: "distinct (map k news)" and i: "set (map k news) \<inter> set (map k rows) = {}"
  then have "filter (\<lambda>n. k n \<notin> set (map k rows)) news = news" by (intro filter_True) auto
  then show "insert_missing k news rows = rows @ news" using d by (simp add: insert_missing_def distinct_on_id)
qed

lemma set_with_gtin: "(i, g) \<in> set (with_gtin items) \<longleftrightarrow> i \<in> set items \<and> it_gtin i = Some g"
  by (force simp: with_gtin_def List.map_filter_def)

lemma ungrouped_gtins: "snd ` set (ungrouped items c) = {g. (\<exists>i\<in>set items. it_gtin i = Some g) \<and> group_of c g = None}"
  by (force simp: ungrouped_def keys_distinct_on set_with_gtin)

lemma candidates_gtins: "map gc_gtin (group_candidates n m items c) = map snd (ungrouped items c)"
  unfolding group_candidates_def by (rule map_numbered) (simp split: prod.splits)

lemma create_groups_effect:
  assumes "create_groups items c = (Inr u, c')"
  shows "\<exists>ks. c_groups c' = c_groups c @ map new_group ks \<and> c_products c' = c_products c @ map new_product (filter gc_creates_product ks) \<and>
     gc_gtin ` set ks = {g. (\<exists>i\<in>set items. it_gtin i = Some g) \<and> group_of c g = None}"
proof -
  let ?n = "length (ungrouped items c)"
  define ks where "ks = group_candidates (c_next_id c) (c_next_id c + ?n) items (c\<lparr>c_next_id := c_next_id c + ?n + ?n\<rparr>)"
  let ?key = "\<lambda>r. (mg_kind r, mg_normalized_value r)"
  have u: "ungrouped items (c\<lparr>c_next_id := x\<rparr>) = ungrouped items c" for x by (simp add: ungrouped_def group_of_def)
  have g: "map gc_gtin ks = map snd (ungrouped items c)" by (simp add: ks_def candidates_gtins u)
  then have img: "gc_gtin ` set ks = {g. (\<exists>i\<in>set items. it_gtin i = Some g) \<and> group_of c g = None}"
    by (metis list.set_map ungrouped_gtins)
  have keys: "map ?key (map new_group ks) = map (Pair GTIN) (map gc_gtin ks)" by (simp add: new_group_def)
  have "distinct (map ?key (map new_group ks))"
    unfolding keys distinct_map [of "Pair GTIN"] g by (simp add: ungrouped_def distinct_distinct_on inj_on_def)
  moreover have "set (map ?key (map new_group ks)) \<inter> set (map ?key (c_groups c)) = {}"
  proof -
    have "group_of c (gc_gtin k) = None" if "k \<in> set ks" for k using img that by blast
    then show ?thesis unfolding keys group_of_def find_None_iff by force
  qed
  ultimately have im: "insert_missing ?key (map new_group ks) (c_groups c) = c_groups c @ map new_group ks"
    by (rule insert_missing_new)
  define c2 where "c2 = c\<lparr>c_next_id := c_next_id c + ?n + ?n, c_products := c_products c @ map new_product (filter gc_creates_product ks),
     c_groups := insert_missing ?key (map new_group ks) (c_groups c)\<rparr>"
  have c': "c' = c2\<lparr>c_products := filter (\<lambda>p. \<not> (pr_id p \<in> set (map gc_product_id (filter gc_creates_product ks)) \<and>
       pr_id p \<notin> set (map mg_canonical_product_id (c_groups c2)))) (c_products c2)\<rparr>"
    using assms by (auto simp: create_groups_def effect_simps c2_def ks_def)
  have "gc_product_id ` set ks \<subseteq> mg_canonical_product_id ` set (c_groups c2)" by (simp add: c2_def im image_Un image_image new_group_def)
  then have "filter (\<lambda>p. \<not> (pr_id p \<in> set (map gc_product_id (filter gc_creates_product ks)) \<and>
       pr_id p \<notin> set (map mg_canonical_product_id (c_groups c2)))) (c_products c2) = c_products c2"
    by (intro filter_True) auto
  then have "c' = c2" by (simp add: c')
  then show ?thesis using img im by (intro exI [of _ ks]) (simp add: c2_def)
qed

lemma group_of_append:
  "c_groups c' = c_groups c @ map new_group ks \<Longrightarrow> group_of c' g =
     (case group_of c g of Some r \<Rightarrow> Some r | None \<Rightarrow> find (\<lambda>r. mg_kind r = GTIN \<and> mg_normalized_value r = g) (map new_group ks))"
  by (simp add: group_of_def find_append split: option.split)

lemma create_groups_groups:
  assumes "create_groups items c = (Inr u, c')"
  shows "group_of c g = Some r \<Longrightarrow> group_of c' g = Some r" "i \<in> set items \<Longrightarrow> it_gtin i = Some g \<Longrightarrow> group_of c' g \<noteq> None"
proof -
  obtain ks where ks: "c_groups c' = c_groups c @ map new_group ks"
      "gc_gtin ` set ks = {g. (\<exists>i\<in>set items. it_gtin i = Some g) \<and> group_of c g = None}"
    using create_groups_effect [OF assms] by blast
  show "group_of c' g = Some r" if "group_of c g = Some r" using that by (simp add: group_of_append [OF ks(1)])
  show "group_of c' g \<noteq> None" if "i \<in> set items" "it_gtin i = Some g"
  proof (cases "group_of c g")
    case None
    then have "g \<in> gc_gtin ` set ks" using that ks(2) by auto
    then obtain k where "k \<in> set ks" "gc_gtin k = g" by blast
    then have "find (\<lambda>r. mg_kind r = GTIN \<and> mg_normalized_value r = g) (map new_group ks) \<noteq> None"
      unfolding find_None_iff by (auto intro!: exI [of _ "new_group k"] simp: new_group_def)
    then show ?thesis using None by (simp add: group_of_append [OF ks(1)])
  qed (simp add: group_of_append [OF ks(1)])
qed

section \<open>Who asserts a GTIN\<close>

definition asserting_retailers :: "catalogue \<Rightarrow> ustr \<Rightarrow> nat list" where
  "asserting_retailers c g =
     remdups (List.map_filter (\<lambda>a. if live_gtin a \<and> as_normalized_value a = g
       then map_option it_retailer_id (item_of c (as_retailer_item_id a)) else None) (c_assertions c))"

lemma set_map_filter: "y \<in> set (List.map_filter f xs) \<longleftrightarrow> (\<exists>x\<in>set xs. f x = Some y)"
  by (force simp: List.map_filter_def)

lemma length_remdups_eq: "set xs = set ys \<Longrightarrow> length (remdups xs) = length (remdups ys)"
  by (simp add: length_remdups_card_conv)

lemma retailer_count_asserting:
  assumes "g \<in> set affected"
  shows "retailer_count (live_gtin_retailers affected c) g = length (asserting_retailers c g)"
proof -
  have "set (map (\<lambda>(_, r, _). r) (filter (\<lambda>(h, _, _). h = g) (live_gtin_retailers affected c))) =
      set (List.map_filter (\<lambda>a. if live_gtin a \<and> as_normalized_value a = g
        then map_option it_retailer_id (item_of c (as_retailer_item_id a)) else None) (c_assertions c))"
    (is "?L = ?R")
  proof (rule set_eqI)
    fix r
    have "r \<in> ?L \<longleftrightarrow> (\<exists>p. (g, r, p) \<in> set (live_gtin_retailers affected c))" by force
    also have "\<dots> \<longleftrightarrow> (\<exists>a\<in>set (c_assertions c). \<exists>i. live_gtin a \<and> as_normalized_value a = g \<and>
        item_of c (as_retailer_item_id a) = Some i \<and> it_retailer_id i = r)"
      using assms by (auto simp: live_gtin_retailers_def set_map_filter split: if_splits)
    also have "\<dots> \<longleftrightarrow> r \<in> ?R" by (auto simp: set_map_filter split: if_splits)
    finally show "r \<in> ?L \<longleftrightarrow> r \<in> ?R" .
  qed
  then show ?thesis unfolding retailer_count_def asserting_retailers_def by (rule length_remdups_eq)
qed

section \<open>The invariant\<close>

text \<open>
  The evidence behind the identifiers: asserting items exist and their GTINs have a group; a GTIN is validated by
  corroboration exactly when two retailers assert it, unless it was validated otherwise; an
  automatic match is backed by a live assertion.
\<close>

definition gtin_inv :: "catalogue \<Rightarrow> bool" where
  "gtin_inv c \<longleftrightarrow>
     (\<forall>a\<in>set (c_assertions c). item_of c (as_retailer_item_id a) \<noteq> None) \<and>
     (\<forall>a\<in>set (c_assertions c). live_gtin a \<longrightarrow> group_of c (as_normalized_value a) \<noteq> None) \<and>
     (\<forall>i\<in>set (c_identifiers c). corroboration_identifier i \<longrightarrow> 2 \<le> length (asserting_retailers c (id_normalized_value i))) \<and>
     (\<forall>g. 2 \<le> length (asserting_retailers c g) \<longrightarrow> (GTIN, g, None, None) \<in> identifier_key ` set (c_identifiers c)) \<and>
     (\<forall>m\<in>set (c_matches c). automatic_match m \<longrightarrow> (\<exists>a\<in>set (c_assertions c). live_gtin a \<and>
        as_retailer_item_id a = ma_retailer_item_id m \<and>
        map_option mg_canonical_product_id (group_of c (as_normalized_value a)) = Some (ma_canonical_product_id m)))"

lemma item_of_cong: "c_items c' = c_items c \<Longrightarrow> item_of c' = item_of c"
  by (simp add: item_of_def fun_eq_iff)

lemma set_insert_missing: "set rows \<subseteq> set (insert_missing k news rows)" "set (insert_missing k news rows) \<subseteq> set rows \<union> set news"
  using set_distinct_on [of k "filter (\<lambda>n. k n \<notin> set (map k rows)) news"] by (auto simp: insert_missing_def)

text \<open>The assertions after a file: live ones of other items stay, those of its items come from it.\<close>

lemma assertions_after_cases:
  assumes "a \<in> set (assertions_after sid applied_at items n rows)"
  shows "(\<exists>b\<in>set rows. as_retailer_item_id b = as_retailer_item_id a \<and> as_normalized_value b = as_normalized_value a \<and> as_kind b = as_kind a \<and>
      (live_gtin a \<longrightarrow> b = a \<and> (as_retailer_item_id a \<in> it_id ` set items \<longrightarrow> as_source_file_id a = sid))) \<or>
    (\<exists>i\<in>set items. it_gtin i = Some (as_normalized_value a) \<and> as_retailer_item_id a = it_id i \<and> as_source_file_id a = sid \<and>
       assertion_key a \<notin> assertion_key ` set rows)"
proof -
  let ?prior = "\<lambda>a. as_retailer_item_id a \<in> set (map it_id items) \<and> live_gtin a \<and> as_source_file_id a \<noteq> sid"
  let ?up = "update_where ?prior (\<lambda>a. a\<lparr>as_superseded_at := Some applied_at\<rparr>) rows"
  have "assertion_key ` set ?up = assertion_key ` set rows" by (rule ids_update_where) (simp add: assertion_key_def)
  then have "a \<in> set ?up \<or> a \<in> set (filter (\<lambda>n. assertion_key n \<notin> assertion_key ` set rows) (numbered n (asserted sid applied_at) (with_gtin items)))"
    using assms set_distinct_on [of assertion_key "filter (\<lambda>n. assertion_key n \<notin> assertion_key ` set rows) (numbered n (asserted sid applied_at) (with_gtin items))"]
    unfolding assertions_after_def insert_missing_def by auto
  then consider "a \<in> set ?up" | "a \<in> set (numbered n (asserted sid applied_at) (with_gtin items))" "assertion_key a \<notin> assertion_key ` set rows"
    by auto
  then show ?thesis
  proof cases
    case 1
    then obtain b where "b \<in> set rows" "a = (if ?prior b then b\<lparr>as_superseded_at := Some applied_at\<rparr> else b)"
      by (auto simp: set_update_where)
    then show ?thesis by (auto simp: live_gtin_def split: if_splits)
  next
    case 2
    then show ?thesis by (auto dest!: set_numbered simp: asserted_def set_with_gtin)
  qed
qed

lemma assertions_after_keep:
  assumes "b \<in> set rows" "\<not> (as_retailer_item_id b \<in> it_id ` set items \<and> live_gtin b)"
  shows "b \<in> set (assertions_after sid applied_at items n rows)"
  unfolding assertions_after_def
proof (rule subsetD [OF set_insert_missing(1)])
  show "b \<in> set (update_where (\<lambda>a. as_retailer_item_id a \<in> set (map it_id items) \<and> live_gtin a \<and> as_source_file_id a \<noteq> sid)
      (\<lambda>a. a\<lparr>as_superseded_at := Some applied_at\<rparr>) rows)"
    unfolding set_update_where using assms by (intro image_eqI [of _ _ b]) auto
qed

lemma asserting_unaffected:
  assumes "g \<notin> set (affected_gtins items c)" "c_items c' = c_items c"
    and "c_assertions c' = assertions_after sid applied_at items n (c_assertions c)"
  shows "set (asserting_retailers c' g) = set (asserting_retailers c g)"
proof -
  have items: "item_of c' = item_of c" using assms(2) by (rule item_of_cong)
  have "a \<in> set (c_assertions c') \<and> live_gtin a \<and> as_normalized_value a = g \<longleftrightarrow>
      a \<in> set (c_assertions c) \<and> live_gtin a \<and> as_normalized_value a = g" for a
  proof
    assume a: "a \<in> set (c_assertions c') \<and> live_gtin a \<and> as_normalized_value a = g"
    then have "\<not> (\<exists>i\<in>set items. it_gtin i = Some (as_normalized_value a))"
      using assms(1) by (auto simp: affected_gtins_def set_map_filter)
    moreover have "a \<in> set (assertions_after sid applied_at items n (c_assertions c))" using a assms(3) by simp
    note assertions_after_cases [OF this]
    ultimately obtain b where "b \<in> set (c_assertions c)" "live_gtin a \<longrightarrow> b = a" by blast
    then show "a \<in> set (c_assertions c) \<and> live_gtin a \<and> as_normalized_value a = g" using a by simp
  next
    assume a: "a \<in> set (c_assertions c) \<and> live_gtin a \<and> as_normalized_value a = g"
    then have "as_retailer_item_id a \<notin> it_id ` set items" using assms(1) by (auto simp: affected_gtins_def)
    then show "a \<in> set (c_assertions c') \<and> live_gtin a \<and> as_normalized_value a = g"
      using assertions_after_keep [of a "c_assertions c" items sid applied_at n] a assms(3) by simp
  qed
  note same = this
  show ?thesis
  proof (rule set_eqI)
    fix r
    have "r \<in> set (asserting_retailers d g) \<longleftrightarrow> (\<exists>a. (a \<in> set (c_assertions d) \<and> live_gtin a \<and> as_normalized_value a = g) \<and>
        map_option it_retailer_id (item_of d (as_retailer_item_id a)) = Some r)" for d
      by (auto simp: asserting_retailers_def set_map_filter split: if_splits)
    then show "r \<in> set (asserting_retailers c' g) \<longleftrightarrow> r \<in> set (asserting_retailers c g)" by (simp only: same items)
  qed
qed

lemma asserting_length: "set (asserting_retailers c' g) = set (asserting_retailers c g) \<Longrightarrow>
    length (asserting_retailers c' g) = length (asserting_retailers c g)"
  by (simp add: asserting_retailers_def length_remdups_card_conv)

text \<open>How identifiers without issuer change.\<close>

lemma merge_keys [simp]: "identifier_key (merge_assertion i n) = identifier_key i" "identifier_key (merge_corroborated i n) = identifier_key i"
  by (simp_all add: merge_assertion_def merge_corroborated_def identifier_key_def)

lemma key_value: "identifier_key i = identifier_key j \<Longrightarrow> id_normalized_value i = id_normalized_value j"
  by (simp add: identifier_key_def)

lemma merge_corroboration [simp]:
  "corroboration_identifier (merge_assertion i n) = corroboration_identifier i"
  "id_validation_method n = Some ''independent_retailer_corroboration'' \<Longrightarrow>
     corroboration_identifier (merge_corroborated i n) = corroboration_identifier i"
  by (auto simp: merge_assertion_def merge_corroborated_def corroboration_identifier_def)

lemma upsert_corroboration:
  assumes "i \<in> set (upsert identifier_key merge news rows)" "corroboration_identifier i"
    and "\<And>r n. n \<in> set news \<Longrightarrow> corroboration_identifier (merge r n) = corroboration_identifier r"
    and "\<And>r n. identifier_key (merge r n) = identifier_key r"
  shows "(\<exists>j\<in>set rows. corroboration_identifier j \<and> id_normalized_value j = id_normalized_value i) \<or>
     i \<in> set news \<and> identifier_key i \<notin> identifier_key ` set rows"
proof -
  consider r where "r \<in> set rows" "i = (case find (\<lambda>n. identifier_key n = identifier_key r) news of None \<Rightarrow> r | Some n \<Rightarrow> merge r n)"
    | "i \<in> set news" "identifier_key i \<notin> identifier_key ` set rows" using assms(1) by (auto simp: upsert_def)
  then show ?thesis
  proof cases
    case 1
    show ?thesis
    proof (cases "find (\<lambda>n. identifier_key n = identifier_key r) news")
      case (Some n)
      then have "n \<in> set news" by (metis find_in)
      then have "corroboration_identifier r" "identifier_key i = identifier_key r" using 1 Some assms(2-4) by auto
      then show ?thesis using 1(1) key_value by metis
    qed (use 1 assms(2) in auto)
  qed blast
qed

lemma keys_upsert_set:
  "(\<And>r n. k (merge r n) = k r) \<Longrightarrow> k ` set (upsert k merge news rows) = k ` set rows \<union> k ` set news"
  by (subst (1 2 3) set_map [symmetric]) (auto simp: keys_upsert)

text \<open>What the matching leaves in the tables, in terms of the state before.\<close>

definition identifiers_after :: "ItemRow list \<Rightarrow> catalogue \<Rightarrow> catalogue \<Rightarrow> bool" where
  "identifiers_after items c c' \<longleftrightarrow> (\<exists>m md ss.
     let affected = affected_gtins items c; live = live_gtin_retailers affected c'; corr = corroboration affected live c' in
     c_identifiers c' = upsert identifier_key merge_corroborated
       (numbered m corroborated (filter (\<lambda>(_, _, n). n \<ge> 2) corr))
       (filter (\<lambda>i. \<not> (corroboration_identifier i \<and> id_normalized_value i \<in> set (map fst (filter (\<lambda>(_, _, n). n < 2) corr))))
         (filter (\<lambda>i. \<not> stale_identifier affected live i)
           (upsert identifier_key merge_assertion (numbered md retailer_assertion ss) (c_identifiers c)))))"

definition matches_after :: "int \<Rightarrow> ItemRow list \<Rightarrow> catalogue \<Rightarrow> catalogue \<Rightarrow> bool" where
  "matches_after applied_at items c c' \<longleftrightarrow> (\<exists>f m e.
     c_matches c' = map f (insert_missing ma_retailer_item_id (numbered m (exact_match applied_at) (matchable items e))
       (filter (\<lambda>m. \<not> (ma_retailer_item_id m \<in> it_id ` set items \<and> automatic_match m)) (c_matches c))) \<and>
     c_assertions e = c_assertions c' \<and> c_groups e = c_groups c' \<and>
     (\<forall>m. \<not> automatic_match m \<longrightarrow> f m = m) \<and> (\<forall>m. automatic_match m \<longrightarrow> automatic_match (f m)) \<and>
     (\<forall>m. ma_retailer_item_id (f m) = ma_retailer_item_id m \<and> ma_canonical_product_id (f m) = ma_canonical_product_id m))"

definition gtin_effect :: "nat \<Rightarrow> int \<Rightarrow> ItemRow list \<Rightarrow> catalogue \<Rightarrow> catalogue \<Rightarrow> bool" where
  "gtin_effect sid applied_at items c c' \<longleftrightarrow> same_rest c c' \<and>
     c_assertions c' = assertions_after sid applied_at items (c_next_id c) (c_assertions c) \<and> one_live_assertion (c_assertions c') \<and>
     (\<forall>g r. group_of c g = Some r \<longrightarrow> group_of c' g = Some r) \<and>
     (\<forall>i g. i \<in> set items \<longrightarrow> it_gtin i = Some g \<longrightarrow> group_of c' g \<noteq> None) \<and>
     (\<exists>new. c_products c' = c_products c @ new) \<and>
     (\<exists>new. c_candidates c' = c_candidates c @ new \<and> list_all (\<lambda>k. ca_status k = ''pending'') new) \<and>
     identifiers_after items c c' \<and> matches_after applied_at items c c'"

lemma match_exact_gtins_effect:
  assumes "match_exact_gtins sid rid pid applied_at c = (Inr u, c')"
  shows "gtin_effect sid applied_at (exact_gtin_items sid rid pid c) c c'"
proof -
  from match_exact_gtins_states [OF assms] obtain items affected live corr c1 c2 c3 c4 c5 c6 c7 where
    s: "items = exact_gtin_items sid rid pid c" "affected = affected_gtins items c"
    "c1 = c\<lparr>c_next_id := c_next_id c + length (with_gtin items),
       c_assertions := assertions_after sid applied_at items (c_next_id c) (c_assertions c)\<rparr>"
    "one_live_assertion (c_assertions c1)"
    "delete_automatic_matches items c1 = (Inr (), c2)" "create_groups items c2 = (Inr (), c3)"
    "upsert_scoped_identifiers items c3 = (Inr (), c4)" "live = live_gtin_retailers affected c4"
    "corr = corroboration affected live (snd (delete_stale_identifiers affected live c4))"
    "delete_stale_identifiers affected live c4 = (Inr (), c5)"
    "abind (delete_uncorroborated corr) (\<lambda>_. insert_corroborated corr) c5 = (Inr (), c6)"
    "insert_conflicts items c6 = (Inr (), c7)"
    "abind (insert_exact_matches applied_at items) (\<lambda>_. refresh_exact_matches applied_at affected) c7 = (Inr (), c')" .
  note e1 = delete_automatic_effect [OF s(5)] and e2 = create_groups_frame [OF s(6)] and e3 = upsert_scoped_effect [OF s(7)]
    and e4 = delete_stale_effect [OF s(10)] and e5 = corroborate_effect [OF s(11)] and e6 = insert_conflicts_effect [OF s(12)]
  from insert_matches_effect [OF s(13)] obtain f where e7: "same_rest c7 c'" "c_products c' = c_products c7" "c_groups c' = c_groups c7"
    "c_assertions c' = c_assertions c7" "c_identifiers c' = c_identifiers c7" "c_candidates c' = c_candidates c7"
    "c_matches c' = map f (insert_missing ma_retailer_item_id
        (numbered (c_next_id c7) (exact_match applied_at) (matchable items c7)) (c_matches c7))"
    "\<And>m. \<not> automatic_match m \<Longrightarrow> f m = m" "\<And>m. automatic_match m \<Longrightarrow> automatic_match (f m)"
    "\<And>m. ma_retailer_item_id (f m) = ma_retailer_item_id m \<and> ma_canonical_product_id (f m) = ma_canonical_product_id m" by blast
  have rest: "same_rest c c1" by (simp add: s(3) same_rest_def)
  have all: "same_rest c c'" using rest e1 e2 e3 e4 e5 e6 e7(1) same_rest_trans by metis
  have items: "c_items c' = c_items c4" using e4 e5 e6 e7(1) by (simp add: same_rest_def)
  have A: "c_assertions c' = c_assertions c4" "c_assertions c4 = c_assertions c1" using e2 e3 e1 e4 e5 e6 e7 by simp_all
  have G: "c_groups c' = c_groups c3" "c_groups c2 = c_groups c" using e1 e3 e4 e5 e6 e7 by (simp_all add: s(3))
  have g: "group_of c' = group_of c3" "group_of c2 = group_of c" "group_of c' = group_of c5"
    using G e3 e4 e5 e6 e7(3) by (simp_all add: group_of_def fun_eq_iff)
  have live: "live = live_gtin_retailers affected c'" unfolding s(8) live_gtin_retailers_def A(1) item_of_cong [OF items] ..
  have corr: "corr = corroboration affected live c'" by (simp add: s(9,10) corroboration_def g(3))
  obtain ks where "c_products c3 = c_products c2 @ map new_product ks" using create_groups_effect [OF s(6)] by blast
  then have p: "\<exists>new. c_products c' = c_products c @ new" using e1 e3 e4 e5 e6 e7(2) by (simp add: s(3))
  have "list_all (\<lambda>k. ca_status k = ''pending'') (distinct_on candidate_key (filter P (numbered m conflict_candidate ks)))" for P m ks
    using set_distinct_on [of candidate_key "filter P (numbered m conflict_candidate ks)"]
    by (auto simp: list_all_iff conflict_candidate_def dest!: set_numbered)
  then have k: "\<exists>new. c_candidates c' = c_candidates c @ new \<and> list_all (\<lambda>k. ca_status k = ''pending'') new"
    using e1 e2 e3 e4 e5 e6 e7(6) by (simp add: s(3) insert_missing_def)
  have "c_identifiers c' = upsert identifier_key merge_corroborated
       (numbered (c_next_id c5) corroborated (filter (\<lambda>(_, _, n). n \<ge> 2) corr))
       (filter (\<lambda>i. \<not> (corroboration_identifier i \<and> id_normalized_value i \<in> set (map fst (filter (\<lambda>(_, _, n). n < 2) corr))))
         (filter (\<lambda>i. \<not> stale_identifier affected live i)
           (upsert identifier_key merge_assertion (numbered (c_next_id c3) retailer_assertion (scoped_identifiers items c3)) (c_identifiers c))))"
    using e1 e2 e3 e4 e5 e6 e7(5) by (simp add: s(3))
  then have "identifiers_after items c c'"
    unfolding identifiers_after_def Let_def s(2) [symmetric] live [symmetric] corr [symmetric] by blast
  moreover have "matches_after applied_at items c c'" unfolding matches_after_def
    using e1 e2 e3 e4 e5 e6 e7(3,4,7-10) by (intro exI [of _ f] exI [of _ "c_next_id c7"] exI [of _ c7]) (simp add: s(3))
  ultimately show ?thesis unfolding gtin_effect_def
    using s A all p k create_groups_groups [OF s(6)] by (simp add: g)
qed

section \<open>Preservation\<close>

lemma corroboration_member:
  "(g, p, n) \<in> set (corroboration affected live c) \<longleftrightarrow>
     g \<in> set affected \<and> n = retailer_count live g \<and> map_option mg_canonical_product_id (group_of c g) = Some p"
  by (auto simp: corroboration_def set_map_filter)

lemma corroboration_gtins:
  assumes "\<And>g. g \<in> set affected \<Longrightarrow> group_of c g \<noteq> None"
  shows "fst ` set (filter (\<lambda>(_, _, n). P n) (corroboration affected live c)) = {g \<in> set affected. P (retailer_count live g)}"
proof (rule set_eqI)
  fix g
  have "g \<in> fst ` set (filter (\<lambda>(_, _, n). P n) (corroboration affected live c)) \<longleftrightarrow>
      (\<exists>p n. (g, p, n) \<in> set (corroboration affected live c) \<and> P n)" by force
  also have "\<dots> \<longleftrightarrow> g \<in> {g \<in> set affected. P (retailer_count live g)}" using assms [of g] by (auto simp: corroboration_member)
  finally show "g \<in> fst ` set (filter (\<lambda>(_, _, n). P n) (corroboration affected live c)) \<longleftrightarrow>
      g \<in> {g \<in> set affected. P (retailer_count live g)}" .
qed

lemma affected_cases:
  assumes "g \<in> set (affected_gtins items c)"
  obtains i where "i \<in> set items" "it_gtin i = Some g"
    | a where "a \<in> set (c_assertions c)" "live_gtin a" "as_normalized_value a = g"
  using assms by (auto simp: affected_gtins_def set_map_filter)

lemma affected_grouped:
  assumes "gtin_inv c" "gtin_effect sid applied_at items c c'" "g \<in> set (affected_gtins items c)"
  shows "group_of c' g \<noteq> None"
proof (rule affected_cases [OF assms(3)])
  fix i assume "i \<in> set items" "it_gtin i = Some g"
  then show ?thesis using assms(2) by (simp add: gtin_effect_def)
next
  fix a assume "a \<in> set (c_assertions c)" "live_gtin a" "as_normalized_value a = g"
  then obtain r where "group_of c g = Some r" using assms(1) by (auto simp: gtin_inv_def)
  then show ?thesis using assms(2) by (simp add: gtin_effect_def)
qed

lemma effect_unaffected:
  assumes "gtin_effect sid applied_at items c c'" "g \<notin> set (affected_gtins items c)"
  shows "length (asserting_retailers c' g) = length (asserting_retailers c g)"
proof -
  have "c_items c' = c_items c" "c_assertions c' = assertions_after sid applied_at items (c_next_id c) (c_assertions c)"
    using assms(1) by (simp_all add: gtin_effect_def same_rest_def)
  from asserting_length [OF asserting_unaffected [OF assms(2) this]] show ?thesis .
qed

lemma effect_corroborated:
  assumes inv: "gtin_inv c" and eff: "gtin_effect sid applied_at items c c'"
    and i: "i \<in> set (c_identifiers c')" "corroboration_identifier i"
  shows "2 \<le> length (asserting_retailers c' (id_normalized_value i))"
proof -
  define affected where "affected = affected_gtins items c"
  define live where "live = live_gtin_retailers affected c'"
  define corr where "corr = corroboration affected live c'"
  obtain m md ss where ids: "c_identifiers c' = upsert identifier_key merge_corroborated
       (numbered m corroborated (filter (\<lambda>(_, _, n). n \<ge> 2) corr))
       (filter (\<lambda>i. \<not> (corroboration_identifier i \<and> id_normalized_value i \<in> set (map fst (filter (\<lambda>(_, _, n). n < 2) corr))))
         (filter (\<lambda>i. \<not> stale_identifier affected live i)
           (upsert identifier_key merge_assertion (numbered md retailer_assertion ss) (c_identifiers c))))"
    using eff by (auto simp: gtin_effect_def identifiers_after_def Let_def corr_def live_def affected_def)
  have grouped: "group_of c' g \<noteq> None" if "g \<in> set affected" for g using affected_grouped [OF inv eff] that by (simp add: affected_def)
  have count: "retailer_count live g = length (asserting_retailers c' g)" if "g \<in> set affected" for g
    using that by (simp add: live_def retailer_count_asserting)
  note gs = corroboration_gtins [OF grouped, of affected _ live, folded corr_def]
  have how: "id_validation_method n = Some ''independent_retailer_corroboration'' \<and> id_normalized_value n \<in> fst ` set ks"
    if "n \<in> set (numbered m corroborated ks)" for n ks
    using set_numbered [OF that] by (force simp: corroborated_def split: prod.splits)
  from upsert_corroboration [OF i(1) [unfolded ids] i(2)] how
  consider j where "j \<in> set (upsert identifier_key merge_assertion (numbered md retailer_assertion ss) (c_identifiers c))"
      "corroboration_identifier j" "id_normalized_value j = id_normalized_value i" "id_normalized_value i \<notin> fst ` set (filter (\<lambda>(_, _, n). n < 2) corr)"
    | "i \<in> set (numbered m corroborated (filter (\<lambda>(_, _, n). n \<ge> 2) corr))" by fastforce
  then show ?thesis
  proof cases
    case 1
    show ?thesis
    proof (cases "id_normalized_value i \<in> set affected")
      case True
      then show ?thesis using 1(4) gs [of "\<lambda>n. n < 2"] count by auto
    next
      case False
      have "\<not> corroboration_identifier n" if "n \<in> set (numbered md retailer_assertion ss)" for n
        using set_numbered [OF that] by (auto simp: retailer_assertion_def corroboration_identifier_def split: prod.splits)
      then obtain k where "k \<in> set (c_identifiers c)" "corroboration_identifier k" "id_normalized_value k = id_normalized_value i"
        using upsert_corroboration [OF 1(1,2)] 1(2,3) by auto
      then show ?thesis using inv effect_unaffected [OF eff] False by (auto simp: gtin_inv_def affected_def)
    qed
  next
    case 2
    from how [OF this] have "id_normalized_value i \<in> {g \<in> set affected. 2 \<le> retailer_count live g}"
      using gs [of "\<lambda>n. n \<ge> 2"] by blast
    then show ?thesis using count by auto
  qed
qed

lemma effect_validated:
  assumes inv: "gtin_inv c" and eff: "gtin_effect sid applied_at items c c'" and g: "2 \<le> length (asserting_retailers c' g)"
  shows "(GTIN, g, None, None) \<in> identifier_key ` set (c_identifiers c')"
proof -
  define affected where "affected = affected_gtins items c"
  define live where "live = live_gtin_retailers affected c'"
  define corr where "corr = corroboration affected live c'"
  define ks where "ks = filter (\<lambda>(_, _, n :: nat). n \<ge> 2) corr"
  obtain m md ss where ids: "c_identifiers c' = upsert identifier_key merge_corroborated (numbered m corroborated ks)
       (filter (\<lambda>i. \<not> (corroboration_identifier i \<and> id_normalized_value i \<in> set (map fst (filter (\<lambda>(_, _, n). n < 2) corr))))
         (filter (\<lambda>i. \<not> stale_identifier affected live i)
           (upsert identifier_key merge_assertion (numbered md retailer_assertion ss) (c_identifiers c))))"
    using eff by (auto simp: gtin_effect_def identifiers_after_def Let_def ks_def corr_def live_def affected_def)
  have grouped: "group_of c' h \<noteq> None" if "h \<in> set affected" for h using affected_grouped [OF inv eff] that by (simp add: affected_def)
  note gs = corroboration_gtins [OF grouped, of affected _ live, folded corr_def]
  have keys: "map identifier_key (numbered m corroborated ks) = map (\<lambda>k. (GTIN, fst k, None, None)) ks"
    by (rule map_numbered) (simp add: corroborated_def identifier_key_def split: prod.splits)
  show ?thesis
  proof (cases "g \<in> set affected")
    case True
    then have "g \<in> fst ` set ks" using g gs [of "\<lambda>n. n \<ge> 2"] retailer_count_asserting [OF True, of c'] by (simp add: ks_def live_def)
    then have "(GTIN, g, None, None) \<in> set (map identifier_key (numbered m corroborated ks))" unfolding keys by auto
    then show ?thesis unfolding ids by (simp add: keys_upsert_set)
  next
    case False
    then have "(GTIN, g, None, None) \<in> identifier_key ` set (c_identifiers c)"
      using inv g effect_unaffected [OF eff, of g] by (simp add: gtin_inv_def affected_def)
    then have "(GTIN, g, None, None) \<in> identifier_key ` set (upsert identifier_key merge_assertion (numbered md retailer_assertion ss) (c_identifiers c))"
      by (simp add: keys_upsert_set)
    then obtain j where j: "j \<in> set (upsert identifier_key merge_assertion (numbered md retailer_assertion ss) (c_identifiers c))"
      "identifier_key j = (GTIN, g, None, None)" by auto
    moreover have "g \<notin> fst ` set (filter (\<lambda>(_, _, n). n < 2) corr)" using False gs [of "\<lambda>n. n < 2"] by simp
    ultimately show ?thesis unfolding ids keys_upsert_set [of identifier_key merge_corroborated, OF merge_keys(2)]
      by (intro UnI1 image_eqI [of _ _ j]) (auto simp: identifier_key_def stale_identifier_def)
  qed
qed

lemma matchable_backed:
  assumes "(n, p, how) \<in> set (matchable items e)"
  shows "\<exists>a\<in>set (c_assertions e). live_gtin a \<and> as_retailer_item_id a = n \<and>
     map_option mg_canonical_product_id (group_of e (as_normalized_value a)) = Some p"
  using assms by (fastforce simp: matchable_def set_map_filter list_ex_iff Let_def split: option.splits if_splits)

lemma exact_match_automatic:
  assumes "k \<in> set (matchable items e)"
  shows "automatic_match (exact_match applied_at n k)"
proof -
  obtain x p how where k: "k = (x, p, how)" by (cases k)
  then have "\<exists>g. how = match_method e g p"
    using assms by (fastforce simp: matchable_def set_map_filter Let_def split: option.splits if_splits)
  then show ?thesis by (auto simp: k exact_match_def automatic_match_def match_method_def)
qed

lemma effect_backed:
  assumes inv: "gtin_inv c" and eff: "gtin_effect sid applied_at items c c'"
    and x: "x \<in> set (c_matches c')" "automatic_match x"
  shows "\<exists>a\<in>set (c_assertions c'). live_gtin a \<and> as_retailer_item_id a = ma_retailer_item_id x \<and>
     map_option mg_canonical_product_id (group_of c' (as_normalized_value a)) = Some (ma_canonical_product_id x)"
proof -
  obtain f m e where M: "c_matches c' = map f (insert_missing ma_retailer_item_id (numbered m (exact_match applied_at) (matchable items e))
       (filter (\<lambda>m. \<not> (ma_retailer_item_id m \<in> it_id ` set items \<and> automatic_match m)) (c_matches c)))"
     "c_assertions e = c_assertions c'" "c_groups e = c_groups c'" "\<And>m. \<not> automatic_match m \<Longrightarrow> f m = m"
     "\<And>m. ma_retailer_item_id (f m) = ma_retailer_item_id m \<and> ma_canonical_product_id (f m) = ma_canonical_product_id m"
    using eff unfolding gtin_effect_def matches_after_def by blast
  obtain y where y: "x = f y" "y \<in> set (insert_missing ma_retailer_item_id (numbered m (exact_match applied_at) (matchable items e))
       (filter (\<lambda>m. \<not> (ma_retailer_item_id m \<in> it_id ` set items \<and> automatic_match m)) (c_matches c)))"
    using x(1) M(1) by auto
  have auto_y: "automatic_match y" using x(2) M(4) y(1) by metis
  from subsetD [OF set_insert_missing(2) y(2)] auto_y
  consider "y \<in> set (c_matches c)" "ma_retailer_item_id y \<notin> it_id ` set items"
    | "y \<in> set (numbered m (exact_match applied_at) (matchable items e))" by auto
  then show ?thesis
  proof cases
    case 1
    then obtain a where a: "a \<in> set (c_assertions c)" "live_gtin a" "as_retailer_item_id a = ma_retailer_item_id y"
        "map_option mg_canonical_product_id (group_of c (as_normalized_value a)) = Some (ma_canonical_product_id y)"
      using inv auto_y by (auto simp: gtin_inv_def)
    then have "a \<in> set (c_assertions c')" using eff 1(2) assertions_after_keep by (simp add: gtin_effect_def)
    moreover have "map_option mg_canonical_product_id (group_of c' (as_normalized_value a)) = Some (ma_canonical_product_id y)"
      using a(4) eff by (auto simp: gtin_effect_def)
    ultimately show ?thesis using a(2,3) M(5) y(1) by (intro bexI [of _ a]) auto
  next
    case 2
    then obtain n p how where "(n, p, how) \<in> set (matchable items e)" "ma_retailer_item_id y = n" "ma_canonical_product_id y = p"
      by (auto simp: exact_match_def dest!: set_numbered)
    moreover have "group_of e = group_of c'" using M(3) by (simp add: group_of_def fun_eq_iff)
    ultimately show ?thesis using matchable_backed M(2,5) y(1) by metis
  qed
qed

lemma match_exact_gtins_inv:
  assumes inv: "gtin_inv c" and run: "match_exact_gtins sid rid pid applied_at c = (Inr u, c')"
  shows "gtin_inv c'"
proof -
  let ?items = "exact_gtin_items sid rid pid c"
  note eff = match_exact_gtins_effect [OF run]
  have io: "item_of c' = item_of c" using eff by (intro item_of_cong) (simp add: gtin_effect_def same_rest_def)
  have known: "item_of c (it_id i) \<noteq> None" if "i \<in> set ?items" for i
    using that by (auto simp: exact_gtin_items_def item_of_def find_None_iff Let_def)
  have "item_of c' (as_retailer_item_id a) \<noteq> None \<and> (live_gtin a \<longrightarrow> group_of c' (as_normalized_value a) \<noteq> None)"
    if "a \<in> set (c_assertions c')" for a
  proof -
    have "a \<in> set (assertions_after sid applied_at ?items (c_next_id c) (c_assertions c))" using that eff by (simp add: gtin_effect_def)
    from assertions_after_cases [OF this] show ?thesis
    proof (elim disjE bexE)
      fix b assume b: "b \<in> set (c_assertions c)" "as_retailer_item_id b = as_retailer_item_id a \<and>
          as_normalized_value b = as_normalized_value a \<and> as_kind b = as_kind a \<and>
          (live_gtin a \<longrightarrow> b = a \<and> (as_retailer_item_id a \<in> it_id ` set ?items \<longrightarrow> as_source_file_id a = sid))"
      then have "item_of c (as_retailer_item_id a) \<noteq> None" "live_gtin a \<longrightarrow> group_of c (as_normalized_value a) \<noteq> None"
        using inv by (auto simp: gtin_inv_def)
      then show ?thesis using eff by (auto simp: io gtin_effect_def)
    next
      fix i assume "i \<in> set ?items" "it_gtin i = Some (as_normalized_value a) \<and> as_retailer_item_id a = it_id i \<and> as_source_file_id a = sid \<and>
          assertion_key a \<notin> assertion_key ` set (c_assertions c)"
      then show ?thesis using eff known by (auto simp: io gtin_effect_def)
    qed
  qed
  then show ?thesis unfolding gtin_inv_def
    using effect_corroborated [OF inv eff] effect_validated [OF inv eff] effect_backed [OF inv eff] by blast
qed

section \<open>Properties\<close>

text \<open>
  C6. Automatic matching never touches a decision of an operator or an isolated product: the
  matches that were not made from GTINs are the same before and after, in the same order; no candidate changes
  and the new ones are pending; no product is removed.
\<close>
theorem decisions_survive_matching:
  assumes "match_exact_gtins sid rid pid applied_at c = (Inr u, c')"
  shows "filter (\<lambda>m. \<not> automatic_match m) (c_matches c') = filter (\<lambda>m. \<not> automatic_match m) (c_matches c) \<and>
     take (length (c_candidates c)) (c_candidates c') = c_candidates c \<and>
     list_all (\<lambda>k. ca_status k = ''pending'') (drop (length (c_candidates c)) (c_candidates c')) \<and>
     take (length (c_products c)) (c_products c') = c_products c"
proof -
  note eff = match_exact_gtins_effect [OF assms]
  let ?items = "exact_gtin_items sid rid pid c"
  obtain f m e where M: "c_matches c' = map f (insert_missing ma_retailer_item_id (numbered m (exact_match applied_at) (matchable ?items e))
       (filter (\<lambda>m. \<not> (ma_retailer_item_id m \<in> it_id ` set ?items \<and> automatic_match m)) (c_matches c)))"
     "\<And>m. \<not> automatic_match m \<Longrightarrow> f m = m" "\<And>m. automatic_match m \<Longrightarrow> automatic_match (f m)"
    using eff unfolding gtin_effect_def matches_after_def by blast
  have f: "filter (\<lambda>m. \<not> automatic_match m) (map f ms) = filter (\<lambda>m. \<not> automatic_match m) ms" for ms
    using M(2,3) by (induction ms) auto
  have "automatic_match y" if "y \<in> set (distinct_on ma_retailer_item_id (filter P (numbered m (exact_match applied_at) (matchable ?items e))))" for y P
  proof -
    from subsetD [OF set_distinct_on that] have y: "y \<in> set (numbered m (exact_match applied_at) (matchable ?items e))" by simp
    obtain n k where "k \<in> set (matchable ?items e)" "y = exact_match applied_at n k" using set_numbered [OF y] by blast
    then show ?thesis by (simp add: exact_match_automatic)
  qed
  then have "filter (\<lambda>m. \<not> automatic_match m) (distinct_on ma_retailer_item_id (filter P (numbered m (exact_match applied_at) (matchable ?items e)))) = []" for P
    by (simp add: filter_empty_conv)
  moreover have "filter (\<lambda>m. \<not> automatic_match m) (filter (\<lambda>m. \<not> (Q m \<and> automatic_match m)) ms) = filter (\<lambda>m. \<not> automatic_match m) ms" for Q ms
    by (induction ms) auto
  ultimately have "filter (\<lambda>m. \<not> automatic_match m) (c_matches c') = filter (\<lambda>m. \<not> automatic_match m) (c_matches c)"
    unfolding M(1) f by (simp add: insert_missing_def)
  then show ?thesis using eff by (auto simp: gtin_effect_def)
qed

text \<open>A witness: a file gives a GTIN to an item that an operator has matched by hand.\<close>

definition empty_catalogue :: catalogue where
  "empty_catalogue = \<lparr>c_next_id = 100, c_now = 0, c_stores = [], c_store_aliases = [], c_items = [], c_products = [],
     c_identifiers = [], c_groups = [], c_assertions = [], c_candidates = [], c_matches = [], c_prices = [], c_price_history = [],
     c_availability = [], c_availability_history = [], c_staged_documents = [], c_staged_stores = [], c_staged_prices = []\<rparr>"

definition demo_catalogue_item :: ItemRow where
  "demo_catalogue_item = \<lparr>it_id = 1, it_retailer_id = 10, it_portal_id = 20, it_source_item_code = lit ''A'',
     it_gtin = Some (lit ''4006381333931''), it_item_type = None, it_name = lit ''coffee'', it_manufacturer_name = None,
     it_manufacturer_country = None, it_manufacturer_description = None, it_unit_quantity = None, it_quantity = None,
     it_unit_of_measure = None, it_is_weighted = None, it_quantity_in_package = None, it_first_seen_at = 0, it_last_seen_at = 0,
     it_last_source_file_id = 5\<rparr>"

definition demo_staged :: "nat \<Rightarrow> rat \<Rightarrow> StagedPrice" where
  "demo_staged sid price = \<lparr>sp_source_file_id = sid, sp_record_index = 1, sp_chain_id = lit ''7'', sp_subchain_id = lit ''1'',
     sp_source_store_id = lit ''2'', sp_source_item_code = lit ''A'', sp_gtin = Some (lit ''4006381333931''), sp_item_type = None,
     sp_item_name = lit ''coffee'', sp_manufacturer_name = None, sp_manufacturer_country = None, sp_manufacturer_description = None,
     sp_unit_quantity = None, sp_quantity = None, sp_unit_of_measure = None, sp_is_weighted = None, sp_quantity_in_package = None,
     sp_item_price = price, sp_unit_of_measure_price = None, sp_allow_discount = None, sp_item_status = None, sp_price_updated_at = None,
     sp_last_sale_at = None, sp_audit_number = None\<rparr>"

definition demo_matched :: catalogue where
  "demo_matched = empty_catalogue\<lparr>c_items := [demo_catalogue_item], c_staged_prices := [demo_staged 5 3],
     c_products := [\<lparr>pr_id = 7, pr_name = lit ''coffee'', pr_brand = None, pr_manufacturer = None, pr_quantity = None,
       pr_unit_of_measure = None, pr_status = ''active''\<rparr>],
     c_matches := [\<lparr>ma_id = 8, ma_retailer_item_id = 1, ma_canonical_product_id = 7, ma_method = ''manual_review'',
       ma_confirmed_at = 0, ma_confirmed_by = lit ''dana''\<rparr>]\<rparr>"

lemmas gtin_eval = match_exact_gtins_def exact_gtin_items_def affected_gtins_def supersede_assertions_def insert_assertions_def
  delete_automatic_matches_def create_groups_def upsert_scoped_identifiers_def live_gtin_retailers_def delete_stale_identifiers_def
  corroboration_def delete_uncorroborated_def insert_corroborated_def insert_conflicts_def insert_exact_matches_def
  refresh_exact_matches_def areturn_def araise_def aget_def amodify_def fresh_ids_def constraint_def Let_def with_gtin_def List.map_filter_def live_gtin_def
  update_where_def insert_missing_def asserted_def assertion_key_def one_live_assertion_def ungrouped_def group_of_def
  group_candidates_def validated_product_def global_gtin_def new_product_def new_group_def scoped_identifiers_def retailer_assertion_def
  upsert_def identifier_key_def item_of_def stale_identifier_def retailer_count_def corroborated_def identifier_conflicts_def differs_def
  match_of_def scoped_of_def conflict_candidate_def candidate_key_def matchable_def match_method_def exact_match_def supporting_gtin_def
  automatic_match_def

theorem decisions_survive_matching_witness:
  "\<exists>c'. match_exact_gtins 5 10 20 3 demo_matched = (Inr (), c') \<and> map ma_method (c_matches c') = [''manual_review''] \<and>
     map ca_status (c_candidates c') = [''pending''] \<and>
     filter (\<lambda>m. \<not> automatic_match m) (c_matches c') = filter (\<lambda>m. \<not> automatic_match m) (c_matches demo_matched)"
proof -
  have "(case match_exact_gtins 5 10 20 3 demo_matched of (r, c') \<Rightarrow> (r, map ma_method (c_matches c'), map ca_status (c_candidates c'))) =
      (Inr (), [''manual_review''], [''pending''])"
    by (simp add: demo_matched_def empty_catalogue_def demo_catalogue_item_def demo_staged_def gtin_eval abind_eval cong: abind_weak_cong)
  then obtain c' where "match_exact_gtins 5 10 20 3 demo_matched = (Inr (), c')" "map ma_method (c_matches c') = [''manual_review'']"
      "map ca_status (c_candidates c') = [''pending'']"
    by (cases "match_exact_gtins 5 10 20 3 demo_matched") auto
  then show ?thesis using decisions_survive_matching [of 5 10 20 3 demo_matched "()" c'] by simp
qed

text \<open>A file that is applied with an instant before the live assertion of another file is refused.\<close>

lemma overtaken_raises:
  assumes "i \<in> set (exact_gtin_items sid rid pid c)" "a \<in> set (c_assertions c)" "live_gtin a"
    and "as_retailer_item_id a = it_id i" "as_source_file_id a \<noteq> sid" "applied_at < as_asserted_at a"
  shows "fst (match_exact_gtins sid rid pid applied_at c) = Inl (exn_of OtherError)"
proof -
  let ?items = "exact_gtin_items sid rid pid c"
  have "\<not> list_all (\<lambda>a. as_retailer_item_id a \<in> set (map it_id ?items) \<and> live_gtin a \<and> as_source_file_id a \<noteq> sid \<longrightarrow>
      as_asserted_at a \<le> applied_at) (c_assertions c)" using assms by (force simp: list_all_iff)
  then have "supersede_assertions sid applied_at ?items c = (Inl (exn_of OtherError), c)"
    by (simp add: supersede_assertions_def Let_def abind_def aget_def constraint_def araise_def)
  then show ?thesis by (simp add: match_exact_gtins_def abind_def aget_def)
qed

end
