(* ===== verification/History.thy ===== *)
theory History
  imports Tables
begin

text \<open>
  Tables that keep the history of a value: a row is valid from one instant to another or still
  open. The abstract view is a timeline per key. The contract of such a table is a locale; its lemma
  says what closing the open rows of changed keys and inserting new ones does to every timeline.
\<close>

section \<open>Timelines\<close>

type_synonym 'v span = "int \<times> int option \<times> 'v"

text \<open>Spans follow each other without gap or overlap, neighbours differ, and only the last is open.\<close>

fun timeline_ok :: "'v span list \<Rightarrow> bool" where
  "timeline_ok [] = True"
| "timeline_ok [(f, t, v)] = (t = None)"
| "timeline_ok ((f, t, v) # (f', t', v') # r) = (t = Some f' \<and> f < f' \<and> v \<noteq> v' \<and> timeline_ok ((f', t', v') # r))"

definition last_value :: "'v span list \<Rightarrow> 'v option" where
  "last_value line = (if line = [] then None else Some (snd (snd (last line))))"

text \<open>What observing the value \<open>v\<close> at an instant does to a timeline.\<close>

definition record_value :: "int \<Rightarrow> 'v \<Rightarrow> 'v span list \<Rightarrow> 'v span list" where
  "record_value at v line =
     (if line = [] then [(at, None, v)]
      else if snd (snd (last line)) = v then line
      else butlast line @ [(fst (last line), Some at, snd (snd (last line))), (at, None, v)])"

definition covers :: "int \<Rightarrow> 'v span \<Rightarrow> bool" where
  "covers x s \<longleftrightarrow> fst s \<le> x \<and> (case fst (snd s) of None \<Rightarrow> True | Some u \<Rightarrow> x < u)"

definition value_at :: "'v span list \<Rightarrow> int \<Rightarrow> 'v option" where
  "value_at line x = map_option (\<lambda>s. snd (snd s)) (find (covers x) line)"

lemma timeline_ok_snoc2:
  "timeline_ok (line @ [(f, t, v), (f', t', v')]) \<longleftrightarrow>
     timeline_ok (line @ [(f, None, v)]) \<and> t = Some f' \<and> f < f' \<and> v \<noteq> v' \<and> t' = None"
proof (induction line)
  case (Cons s line)
  then show ?case by (cases s; cases line) auto
qed auto

lemma last_value_record [simp]: "last_value (record_value at v line) = Some v"
  by (simp add: last_value_def record_value_def)

lemma timeline_ok_last: "timeline_ok line \<Longrightarrow> line \<noteq> [] \<Longrightarrow> fst (snd (last line)) = None"
  by (induction line rule: timeline_ok.induct) auto

lemma timeline_ok_butlast: "timeline_ok line \<Longrightarrow> s \<in> set (butlast line) \<Longrightarrow> fst (snd s) \<noteq> None"
  by (induction line rule: timeline_ok.induct) auto

lemma record_value_ok:
  assumes "timeline_ok line" "last_value line \<noteq> None \<longrightarrow> last_value line \<noteq> Some v \<longrightarrow> fst (last line) < at"
  shows "timeline_ok (record_value at v line)"
proof (cases "line = []")
  case False
  then obtain ss f t w where line: "line = ss @ [(f, t, w)]" by (metis append_butlast_last_id prod.collapse)
  then have "t = None" using timeline_ok_last [OF assms(1)] by simp
  then show ?thesis using assms line by (auto simp: record_value_def last_value_def timeline_ok_snoc2)
qed (simp add: record_value_def)

text \<open>At most one span covers an instant, and recording a value does not touch the past.\<close>

lemma timeline_starts: "timeline_ok ((f, t, v) # r) \<Longrightarrow> s \<in> set r \<Longrightarrow> (\<exists>u. t = Some u \<and> u \<le> fst s)"
proof (induction r arbitrary: f t v)
  case (Cons s' r)
  obtain f' t' v' where s': "s' = (f', t', v')" by (cases s')
  then have t: "t = Some f'" "timeline_ok ((f', t', v') # r)" using Cons.prems(1) by auto
  show ?case
  proof (cases "s = s'")
    case False
    then obtain u where "t' = Some u" "u \<le> fst s" using Cons.IH [OF t(2)] Cons.prems(2) by auto
    moreover have "f' < u" using t(2) \<open>t' = Some u\<close> by (cases r) auto
    ultimately show ?thesis using t(1) by auto
  qed (use t(1) s' in auto)
qed simp

lemma covers_unique:
  "timeline_ok line \<Longrightarrow> s \<in> set line \<Longrightarrow> s' \<in> set line \<Longrightarrow> covers x s \<Longrightarrow> covers x s' \<Longrightarrow> s = s'"
proof (induction line)
  case (Cons a line)
  obtain f t v where a: "a = (f, t, v)" by (cases a)
  have "timeline_ok line" using Cons.prems(1) by (cases line) (auto simp: a)
  moreover have "\<not> (covers x a \<and> covers x b)" if "b \<in> set line" for b
    using timeline_starts [of f t v line b] Cons.prems(1) that by (auto simp: a covers_def)
  ultimately show ?case using Cons.prems Cons.IH by (metis set_ConsD)
qed simp

lemma past_unchanged:
  assumes "timeline_ok line" "x < at"
  shows "value_at (record_value at v line) x = value_at line x"
proof (cases "line = []")
  case False
  then obtain ss f t w where line: "line = ss @ [(f, t, w)]" by (metis append_butlast_last_id prod.collapse)
  then have "t = None" using timeline_ok_last [OF assms(1)] by simp
  then show ?thesis using assms(2) by (auto simp: line record_value_def value_at_def find_append covers_def split: option.split)
qed (use assms(2) in \<open>simp add: record_value_def value_at_def covers_def\<close>)

section \<open>History tables\<close>

definition timeline :: "('h \<Rightarrow> 'k) \<Rightarrow> ('h \<Rightarrow> 'v span) \<Rightarrow> 'h list \<Rightarrow> 'k \<Rightarrow> 'v span list" where
  "timeline key span hs k = map span (filter (\<lambda>h. key h = k) hs)"

locale history_table =
  fixes key :: "'h \<Rightarrow> 'k" and span :: "'h \<Rightarrow> 'v span" and close :: "int \<Rightarrow> 'h \<Rightarrow> 'h"
  assumes key_close [simp]: "key (close at h) = key h"
    and span_close [simp]: "span (close at h) = (fst (span h), Some at, snd (snd (span h)))"
begin

lemma timeline_append: "timeline key span (hs @ ns) k = timeline key span hs k @ timeline key span ns k"
  by (simp add: timeline_def)

lemma timeline_close:
  assumes "timeline_ok (timeline key span hs k)"
  shows "timeline key span (update_where (\<lambda>h. key h \<in> K \<and> fst (snd (span h)) = None) (close at) hs) k =
     (let line = timeline key span hs k in
      if k \<in> K \<and> line \<noteq> [] then butlast line @ [(fst (last line), Some at, snd (snd (last line)))] else line)"
proof -
  let ?f = "\<lambda>s. if k \<in> K \<and> fst (snd s) = None then (fst s, Some at, snd (snd s)) else s"
  have e: "timeline key span (update_where (\<lambda>h. key h \<in> K \<and> fst (snd (span h)) = None) (close at) hs) k =
      map ?f (timeline key span hs k)"
    unfolding timeline_def update_where_def by (induction hs) auto
  define line where "line = timeline key span hs k"
  have ok: "timeline_ok line" using assms by (simp add: line_def)
  have "map ?f line = (if k \<in> K \<and> line \<noteq> [] then butlast line @ [(fst (last line), Some at, snd (snd (last line)))] else line)"
  proof (cases "k \<in> K \<and> line \<noteq> []")
    case True
    then have "line = butlast line @ [last line]" by simp
    then have "map ?f line = map ?f (butlast line) @ [?f (last line)]" by (metis (no_types, lifting) list.simps(8,9) map_append)
    moreover have "map ?f (butlast line) = butlast line"
      using timeline_ok_butlast [OF ok] by (intro map_idI) (metis (no_types, lifting))
    ultimately show ?thesis using True timeline_ok_last [OF ok] by auto
  qed auto
  then show ?thesis by (simp add: e line_def Let_def)
qed

text \<open>
  The pattern of every apply: \<open>inc\<close> are the incoming values, \<open>cur\<close> the current ones. Open rows of
  changed keys are closed, rows for new and changed keys are inserted.
\<close>

lemma timeline_observe:
  assumes ok: "timeline_ok (timeline key span hs k)" and cur: "cur k = last_value (timeline key span hs k)"
    and d: "distinct (map fst inc)"
    and K: "k \<in> K \<longleftrightarrow> (\<exists>v w. map_of inc k = Some v \<and> cur k = Some w \<and> v \<noteq> w)"
    and news: "map (\<lambda>n. (key n, span n)) news = map (\<lambda>(k, v). (k, (at, None, v))) (filter (\<lambda>(k, v). cur k \<noteq> Some v) inc)"
  shows "timeline key span (update_where (\<lambda>h. key h \<in> K \<and> fst (snd (span h)) = None) (close at) hs @ news) k =
     (case map_of inc k of None \<Rightarrow> timeline key span hs k | Some v \<Rightarrow> record_value at v (timeline key span hs k))"
proof -
  have "timeline key span news k = map snd (filter (\<lambda>p. fst p = k) (map (\<lambda>n. (key n, span n)) news))"
    by (simp add: timeline_def filter_map comp_def)
  also have "\<dots> = (case map_of inc k of None \<Rightarrow> [] | Some v \<Rightarrow> if cur k = Some v then [] else [(at, None, v)])"
    unfolding news using d
  proof (induction inc)
    case (Cons p inc)
    obtain k' v' where p: "p = (k', v')" by (cases p)
    show ?case
    proof (cases "k' = k")
      case True
      then have n: "map_of inc k = None" using Cons.prems by (auto simp: p map_of_eq_None_iff)
      then show ?thesis using Cons True by (auto simp: p)
    qed (use Cons in \<open>auto simp: p\<close>)
  qed simp
  finally show ?thesis using ok cur K
    by (auto simp: timeline_append timeline_close record_value_def last_value_def Let_def split: option.splits if_splits)
qed

end

section \<open>Observations\<close>

text \<open>What a file observes: the value of every item and store it lists.\<close>

definition observe :: "int \<Rightarrow> ('k \<times> 'v) list \<Rightarrow> ('k \<Rightarrow> 'v span list) \<Rightarrow> 'k \<Rightarrow> 'v span list" where
  "observe applied_at inc line k = (case map_of inc k of None \<Rightarrow> line k | Some v \<Rightarrow> record_value applied_at v (line k))"

lemma last_value_observe: "last_value (observe applied_at inc line k) = (case map_of inc k of None \<Rightarrow> last_value (line k) | Some v \<Rightarrow> Some v)"
  by (simp add: observe_def split: option.split)

text \<open>An open row at the end of a timeline starts before the instant of a change.\<close>

lemma open_row_start:
  assumes "timeline_ok (timeline key span hs k)" "timeline key span hs k \<noteq> []"
    and "list_all (\<lambda>h. key h = k \<and> fst (snd (span h)) = None \<longrightarrow> fst (span h) < applied_at) hs"
  shows "fst (last (timeline key span hs k)) < applied_at"
proof -
  have "last (timeline key span hs k) \<in> set (timeline key span hs k)" using assms(2) by simp
  then obtain h where "h \<in> set hs" "key h = k" "last (timeline key span hs k) = span h" by (auto simp: timeline_def)
  then show ?thesis using timeline_ok_last [OF assms(1,2)] assms(3) by (auto simp: list_all_iff)
qed

lemma observe_ok:
  assumes ok: "timeline_ok (line k)"
    and s: "\<And>v w. map_of inc k = Some v \<Longrightarrow> last_value (line k) = Some w \<Longrightarrow> w \<noteq> v \<Longrightarrow> fst (last (line k)) < applied_at"
  shows "timeline_ok (observe applied_at inc line k)"
  using ok record_value_ok [OF ok] s by (auto simp: observe_def split: option.split)

end
