(* ===== verification/Price_Apply.thy ===== *)
theory Price_Apply
  imports Gtin_Evidence History
begin

text \<open>
  Applying a staged price file: \<^verbatim>\<open>_apply_prices\<close> of \<^verbatim>\<open>adapters/persistence/ingestion.py\<close> and the functions it
  calls, one definition per statement. The file brings stores, items, prices and availability; prices and
  availability are kept as current rows and as histories; a full snapshot also makes unavailable what it no longer lists.
\<close>

section \<open>Staged rows\<close>

definition staged_key :: "StagedPrice \<Rightarrow> ustr \<times> ustr \<times> ustr" where
  "staged_key p = (sp_subchain_id p, sp_source_store_id p, sp_source_item_code p)"

text \<open>The last staged row of every store and item.\<close>

definition price_incoming :: "nat \<Rightarrow> catalogue \<Rightarrow> StagedPrice list" where
  "price_incoming sid c =
     distinct_on staged_key (sort_key (\<lambda>p. (staged_key p, - sp_record_index p))
       (filter (\<lambda>p. sp_source_file_id p = sid) (c_staged_prices c)))"

section \<open>Validation of a full snapshot\<close>

definition drop_exceeded :: "int \<Rightarrow> int \<Rightarrow> rat \<Rightarrow> bool" where
  "drop_exceeded incoming_count prior_count maximum_drop_fraction =
     (if prior_count \<le> 0 \<or> incoming_count \<ge> prior_count then False
      else of_int (prior_count - incoming_count) / of_int prior_count > maximum_drop_fraction)"

definition document_scopes :: "nat \<Rightarrow> catalogue \<Rightarrow> (ustr \<times> ustr) list" where
  "document_scopes sid c =
     remdups (List.map_filter (\<lambda>d. if sd_source_file_id d = sid
       then map_option (\<lambda>s. (case sd_subchain_id d of None \<Rightarrow> [] | Some x \<Rightarrow> x, s)) (sd_store_id d) else None) (c_staged_documents c))"

definition snapshot_scopes :: "nat \<Rightarrow> catalogue \<Rightarrow> ((ustr \<times> ustr) \<times> int) list" where
  "snapshot_scopes sid c =
     (let incoming = map (\<lambda>p. (sp_subchain_id p, sp_source_store_id p)) (price_incoming sid c) in
      map (\<lambda>s. (s, int (count_list incoming s))) (remdups incoming) @
      map (\<lambda>s. (s, 0)) (filter (\<lambda>s. s \<notin> set incoming) (document_scopes sid c)))"

definition store_of :: "nat \<Rightarrow> nat \<Rightarrow> ustr \<times> ustr \<Rightarrow> catalogue \<Rightarrow> StoreRow option" where
  "store_of rid pid scope c = find (\<lambda>s. store_key s = (rid, pid, fst scope, snd scope)) (c_stores c)"

definition prior_available :: "nat \<Rightarrow> nat \<Rightarrow> ustr \<times> ustr \<Rightarrow> catalogue \<Rightarrow> int" where
  "prior_available rid pid scope c =
     (case store_of rid pid scope c of
        None \<Rightarrow> 0
      | Some s \<Rightarrow> int (length (filter (\<lambda>a. av_store_id a = st_id s \<and> av_is_available a) (c_availability c))))"

definition validate_full_price_snapshot :: "nat \<Rightarrow> nat \<Rightarrow> nat \<Rightarrow> int \<Rightarrow> rat \<Rightarrow> unit query" where
  "validate_full_price_snapshot sid rid pid minimum_full_records maximum_drop_fraction =
     abind (aget (\<lambda>c. map (\<lambda>(s, n). (n, prior_available rid pid s c)) (snapshot_scopes sid c))) (\<lambda>rows.
     if sum_list (map fst rows) < minimum_full_records then araise (exn_of SnapshotValidationError)
     else if list_ex (\<lambda>(incoming, prior). prior = 0 \<and> incoming < minimum_full_records \<or>
       drop_exceeded incoming prior maximum_drop_fraction) rows then araise (exn_of SnapshotValidationError)
     else areturn ())"

section \<open>Stores and items\<close>

definition store_row_ok :: "StoreRow \<Rightarrow> bool" where
  "store_row_ok s \<longleftrightarrow> st_chain_code s \<noteq> [] \<and> st_source_store_code s \<noteq> [] \<and> st_name s \<noteq> [] \<and> length (st_name s) \<le> 1024 \<and>
     st_first_seen_at s \<le> st_last_seen_at s"

definition price_store :: "nat \<Rightarrow> nat \<Rightarrow> nat \<Rightarrow> int \<Rightarrow> nat \<Rightarrow> StagedPrice \<Rightarrow> StoreRow" where
  "price_store sid rid pid applied_at n p =
     \<lparr>st_id = n, st_retailer_id = rid, st_portal_id = pid, st_chain_code = sp_chain_id p, st_subchain_code = sp_subchain_id p,
      st_source_store_code = sp_source_store_id p, st_audit_number = None, st_store_type = None, st_chain_name = None,
      st_subchain_name = None, st_name = lit ''Store '' @ sp_source_store_id p, st_address = None, st_city = None,
      st_postal_code = None, st_is_active = True, st_first_seen_at = applied_at, st_last_seen_at = applied_at,
      st_last_source_file_id = Some sid\<rparr>"

definition merge_price_store :: "StoreRow \<Rightarrow> StoreRow \<Rightarrow> StoreRow" where
  "merge_price_store s new = s\<lparr>st_chain_code := st_chain_code new, st_is_active := True,
     st_last_seen_at := st_last_seen_at new, st_last_source_file_id := st_last_source_file_id new\<rparr>"

definition upsert_price_stores :: "nat \<Rightarrow> nat \<Rightarrow> nat \<Rightarrow> int \<Rightarrow> unit query" where
  "upsert_price_stores sid rid pid applied_at =
     abind (aget (\<lambda>c. distinct_on (\<lambda>p. (sp_subchain_id p, sp_source_store_id p))
       (sort_key (\<lambda>p. (sp_subchain_id p, sp_source_store_id p)) (price_incoming sid c)))) (\<lambda>distinct_stores.
     abind (fresh_ids (length distinct_stores)) (\<lambda>n.
     let news = numbered n (price_store sid rid pid applied_at) distinct_stores in
     abind (amodify (\<lambda>c. c\<lparr>c_stores := upsert store_key merge_price_store news (c_stores c)\<rparr>)) (\<lambda>_.
     abind (aget (\<lambda>c. list_all (\<lambda>s. store_key s \<in> set (map store_key news) \<longrightarrow> store_row_ok s) (c_stores c))) constraint)))"

definition nonnegative :: "rat option \<Rightarrow> bool" where
  "nonnegative q \<longleftrightarrow> (case q of None \<Rightarrow> True | Some x \<Rightarrow> x \<ge> 0)"

definition gtin_digits :: "ustr option \<Rightarrow> bool" where
  "gtin_digits g \<longleftrightarrow> (case g of None \<Rightarrow> True | Some d \<Rightarrow> 8 \<le> length d \<and> length d \<le> 14 \<and> list_all is_ascii_digit d)"

definition item_row_ok :: "ItemRow \<Rightarrow> bool" where
  "item_row_ok i \<longleftrightarrow> it_source_item_code i \<noteq> [] \<and> it_name i \<noteq> [] \<and> length (it_name i) \<le> 2048 \<and> gtin_digits (it_gtin i) \<and>
     nonnegative (it_quantity i) \<and> nonnegative (it_quantity_in_package i) \<and> it_first_seen_at i \<le> it_last_seen_at i"

definition price_item :: "nat \<Rightarrow> nat \<Rightarrow> nat \<Rightarrow> int \<Rightarrow> nat \<Rightarrow> StagedPrice \<Rightarrow> ItemRow" where
  "price_item sid rid pid applied_at n p =
     \<lparr>it_id = n, it_retailer_id = rid, it_portal_id = pid, it_source_item_code = sp_source_item_code p, it_gtin = sp_gtin p,
      it_item_type = sp_item_type p, it_name = sp_item_name p, it_manufacturer_name = sp_manufacturer_name p,
      it_manufacturer_country = sp_manufacturer_country p, it_manufacturer_description = sp_manufacturer_description p,
      it_unit_quantity = sp_unit_quantity p, it_quantity = sp_quantity p, it_unit_of_measure = sp_unit_of_measure p,
      it_is_weighted = sp_is_weighted p, it_quantity_in_package = sp_quantity_in_package p, it_first_seen_at = applied_at,
      it_last_seen_at = applied_at, it_last_source_file_id = sid\<rparr>"

definition merge_item :: "ItemRow \<Rightarrow> ItemRow \<Rightarrow> ItemRow" where
  "merge_item i new = new\<lparr>it_id := it_id i, it_retailer_id := it_retailer_id i, it_portal_id := it_portal_id i,
     it_source_item_code := it_source_item_code i, it_first_seen_at := it_first_seen_at i\<rparr>"

definition upsert_retailer_items :: "nat \<Rightarrow> nat \<Rightarrow> nat \<Rightarrow> int \<Rightarrow> unit query" where
  "upsert_retailer_items sid rid pid applied_at =
     abind (aget (\<lambda>c. distinct_on sp_source_item_code
       (sort_key (\<lambda>p. (sp_source_item_code p, sp_source_store_id p)) (price_incoming sid c)))) (\<lambda>distinct_items.
     abind (fresh_ids (length distinct_items)) (\<lambda>n.
     let news = numbered n (price_item sid rid pid applied_at) distinct_items in
     abind (amodify (\<lambda>c. c\<lparr>c_items := upsert item_key merge_item news (c_items c)\<rparr>)) (\<lambda>_.
     abind (aget (\<lambda>c. list_all (\<lambda>i. item_key i \<in> set (map item_key news) \<longrightarrow> item_row_ok i) (c_items c))) constraint)))"

section \<open>Mapped rows\<close>

text \<open>A staged row joined with its item and its store.\<close>

record MappedPrice =
  mp_item :: nat
  mp_store :: nat
  mp_staged :: StagedPrice

definition mp_key :: "MappedPrice \<Rightarrow> nat \<times> nat" where
  "mp_key m = (mp_item m, mp_store m)"

definition is_available :: "StagedPrice \<Rightarrow> bool" where
  "is_available p = (case sp_item_status p of None \<Rightarrow> True | Some s \<Rightarrow> s \<noteq> 0)"

definition mapped_price_incoming :: "nat \<Rightarrow> nat \<Rightarrow> nat \<Rightarrow> catalogue \<Rightarrow> MappedPrice list" where
  "mapped_price_incoming sid rid pid c =
     List.map_filter (\<lambda>p.
       case find (\<lambda>i. it_source_item_code i = sp_source_item_code p) (exact_gtin_items sid rid pid c) of
         None \<Rightarrow> None
       | Some i \<Rightarrow> map_option (\<lambda>s. \<lparr>mp_item = it_id i, mp_store = st_id s, mp_staged = p\<rparr>)
           (store_of rid pid (sp_subchain_id p, sp_source_store_id p) c)) (price_incoming sid c)"

section \<open>Prices\<close>

type_synonym price = "rat \<times> rat option \<times> bool option"

definition price_of_staged :: "StagedPrice \<Rightarrow> price" where
  "price_of_staged p = (sp_item_price p, sp_unit_of_measure_price p, sp_allow_discount p)"

definition price_of_current :: "CurrentPrice \<Rightarrow> price" where
  "price_of_current p = (cp_item_price p, cp_unit_of_measure_price p, cp_allow_discount p)"

definition cp_key :: "CurrentPrice \<Rightarrow> nat \<times> nat" where
  "cp_key p = (cp_retailer_item_id p, cp_store_id p)"

definition ph_key :: "PriceHistory \<Rightarrow> nat \<times> nat" where
  "ph_key h = (ph_retailer_item_id h, ph_store_id h)"

definition current_price :: "catalogue \<Rightarrow> nat \<times> nat \<Rightarrow> price option" where
  "current_price c k = map_option price_of_current (find (\<lambda>p. cp_key p = k) (c_prices c))"

text \<open>Rows whose price is new or differs (\<^verbatim>\<open>IS DISTINCT FROM\<close>), and those among them that replace one.\<close>

definition price_differs :: "catalogue \<Rightarrow> MappedPrice \<Rightarrow> bool" where
  "price_differs c m \<longleftrightarrow> current_price c (mp_key m) \<noteq> Some (price_of_staged (mp_staged m))"

definition price_changed :: "catalogue \<Rightarrow> MappedPrice \<Rightarrow> bool" where
  "price_changed c m \<longleftrightarrow> current_price c (mp_key m) \<noteq> None \<and> price_differs c m"

definition close_price :: "int \<Rightarrow> PriceHistory \<Rightarrow> PriceHistory" where
  "close_price applied_at h = h\<lparr>ph_valid_to := Some applied_at\<rparr>"

definition new_price_history :: "nat \<Rightarrow> int \<Rightarrow> nat \<Rightarrow> MappedPrice \<Rightarrow> PriceHistory" where
  "new_price_history sid applied_at n m =
     \<lparr>ph_id = n, ph_retailer_item_id = mp_item m, ph_store_id = mp_store m, ph_item_price = sp_item_price (mp_staged m),
      ph_unit_of_measure_price = sp_unit_of_measure_price (mp_staged m), ph_allow_discount = sp_allow_discount (mp_staged m),
      ph_source_updated_at = sp_price_updated_at (mp_staged m), ph_last_sale_at = sp_last_sale_at (mp_staged m),
      ph_audit_number = sp_audit_number (mp_staged m), ph_source_file_id = sid, ph_valid_from = applied_at, ph_valid_to = None\<rparr>"

definition close_price_history :: "int \<Rightarrow> MappedPrice list \<Rightarrow> unit query" where
  "close_price_history applied_at mapped =
     abind (aget (\<lambda>c. set (map mp_key (filter (price_changed c) mapped)))) (\<lambda>changed.
     abind (aget (\<lambda>c. list_all (\<lambda>h. ph_key h \<in> changed \<and> ph_valid_to h = None \<longrightarrow> ph_valid_from h < applied_at) (c_price_history c))) (\<lambda>ok.
     abind (constraint ok) (\<lambda>_.
     amodify (\<lambda>c. c\<lparr>c_price_history := update_where (\<lambda>h. ph_key h \<in> changed \<and> ph_valid_to h = None)
       (close_price applied_at) (c_price_history c)\<rparr>))))"

definition one_open_price :: "PriceHistory list \<Rightarrow> bool" where
  "one_open_price hs \<longleftrightarrow> distinct (map ph_key (filter (\<lambda>h. ph_valid_to h = None) hs))"

definition insert_price_history :: "nat \<Rightarrow> int \<Rightarrow> MappedPrice list \<Rightarrow> int query" where
  "insert_price_history sid applied_at mapped =
     abind (aget (\<lambda>c. filter (price_differs c) mapped)) (\<lambda>news.
     abind (fresh_ids (length news)) (\<lambda>n.
     abind (amodify (\<lambda>c. c\<lparr>c_price_history := c_price_history c @ numbered n (new_price_history sid applied_at) news\<rparr>)) (\<lambda>_.
     abind (aget (\<lambda>c. one_open_price (c_price_history c))) (\<lambda>ok.
     abind (constraint ok) (\<lambda>_. areturn (int (length news)))))))"

definition new_current_price :: "nat \<Rightarrow> int \<Rightarrow> nat \<Rightarrow> MappedPrice \<Rightarrow> CurrentPrice" where
  "new_current_price sid applied_at n m =
     \<lparr>cp_id = n, cp_retailer_item_id = mp_item m, cp_store_id = mp_store m, cp_item_price = sp_item_price (mp_staged m),
      cp_unit_of_measure_price = sp_unit_of_measure_price (mp_staged m), cp_allow_discount = sp_allow_discount (mp_staged m),
      cp_source_updated_at = sp_price_updated_at (mp_staged m), cp_last_sale_at = sp_last_sale_at (mp_staged m),
      cp_audit_number = sp_audit_number (mp_staged m), cp_source_file_id = sid, cp_first_observed_at = applied_at,
      cp_last_observed_at = applied_at\<rparr>"

definition merge_current_price :: "CurrentPrice \<Rightarrow> CurrentPrice \<Rightarrow> CurrentPrice" where
  "merge_current_price p new = new\<lparr>cp_id := cp_id p, cp_retailer_item_id := cp_retailer_item_id p, cp_store_id := cp_store_id p,
     cp_first_observed_at := cp_first_observed_at p\<rparr>"

definition upsert_current_prices :: "nat \<Rightarrow> int \<Rightarrow> MappedPrice list \<Rightarrow> unit query" where
  "upsert_current_prices sid applied_at mapped =
     abind (fresh_ids (length mapped)) (\<lambda>n.
     abind (amodify (\<lambda>c. c\<lparr>c_prices := upsert cp_key merge_current_price (numbered n (new_current_price sid applied_at) mapped) (c_prices c)\<rparr>)) (\<lambda>_.
     abind (aget (\<lambda>c. list_all (\<lambda>p. cp_key p \<in> set (map mp_key mapped) \<longrightarrow> cp_first_observed_at p \<le> cp_last_observed_at p) (c_prices c)))
       constraint))"

section \<open>Availability\<close>

type_synonym availability = "bool \<times> int option"

definition availability_of_staged :: "StagedPrice \<Rightarrow> availability" where
  "availability_of_staged p = (is_available p, sp_item_status p)"

definition av_key :: "CurrentAvailability \<Rightarrow> nat \<times> nat" where
  "av_key a = (av_retailer_item_id a, av_store_id a)"

definition ah_key :: "AvailabilityHistory \<Rightarrow> nat \<times> nat" where
  "ah_key h = (ah_retailer_item_id h, ah_store_id h)"

definition current_availability :: "catalogue \<Rightarrow> nat \<times> nat \<Rightarrow> availability option" where
  "current_availability c k =
     map_option (\<lambda>a. (av_is_available a, av_item_status a)) (find (\<lambda>a. av_key a = k) (c_availability c))"

definition availability_differs :: "catalogue \<Rightarrow> MappedPrice \<Rightarrow> bool" where
  "availability_differs c m \<longleftrightarrow> current_availability c (mp_key m) \<noteq> Some (availability_of_staged (mp_staged m))"

definition close_availability :: "int \<Rightarrow> AvailabilityHistory \<Rightarrow> AvailabilityHistory" where
  "close_availability applied_at h = h\<lparr>ah_valid_to := Some applied_at\<rparr>"

definition close_availability_history :: "int \<Rightarrow> (nat \<times> nat) list \<Rightarrow> unit query" where
  "close_availability_history applied_at keys =
     abind (aget (\<lambda>c. list_all (\<lambda>h. ah_key h \<in> set keys \<and> ah_valid_to h = None \<longrightarrow> ah_valid_from h < applied_at) (c_availability_history c))) (\<lambda>ok.
     abind (constraint ok) (\<lambda>_.
     amodify (\<lambda>c. c\<lparr>c_availability_history := update_where (\<lambda>h. ah_key h \<in> set keys \<and> ah_valid_to h = None)
       (close_availability applied_at) (c_availability_history c)\<rparr>)))"

definition new_availability_history :: "nat \<Rightarrow> int \<Rightarrow> nat \<Rightarrow> (nat \<times> nat) \<times> availability \<Rightarrow> AvailabilityHistory" where
  "new_availability_history sid applied_at n ka =
     \<lparr>ah_id = n, ah_retailer_item_id = fst (fst ka), ah_store_id = snd (fst ka), ah_is_available = fst (snd ka),
      ah_item_status = snd (snd ka), ah_source_file_id = sid, ah_valid_from = applied_at, ah_valid_to = None\<rparr>"

definition one_open_availability :: "AvailabilityHistory list \<Rightarrow> bool" where
  "one_open_availability hs \<longleftrightarrow> distinct (map ah_key (filter (\<lambda>h. ah_valid_to h = None) hs))"

definition insert_availability_history :: "nat \<Rightarrow> int \<Rightarrow> ((nat \<times> nat) \<times> availability) list \<Rightarrow> unit query" where
  "insert_availability_history sid applied_at news =
     abind (fresh_ids (length news)) (\<lambda>n.
     abind (amodify (\<lambda>c. c\<lparr>c_availability_history := c_availability_history c @ numbered n (new_availability_history sid applied_at) news\<rparr>)) (\<lambda>_.
     abind (aget (\<lambda>c. one_open_availability (c_availability_history c))) constraint))"

definition new_current_availability :: "nat \<Rightarrow> int \<Rightarrow> nat \<Rightarrow> MappedPrice \<Rightarrow> CurrentAvailability" where
  "new_current_availability sid applied_at n m =
     \<lparr>av_id = n, av_retailer_item_id = mp_item m, av_store_id = mp_store m, av_is_available = is_available (mp_staged m),
      av_item_status = sp_item_status (mp_staged m), av_source_file_id = sid, av_first_observed_at = applied_at,
      av_last_observed_at = applied_at\<rparr>"

definition merge_availability :: "CurrentAvailability \<Rightarrow> CurrentAvailability \<Rightarrow> CurrentAvailability" where
  "merge_availability a new = new\<lparr>av_id := av_id a, av_retailer_item_id := av_retailer_item_id a, av_store_id := av_store_id a,
     av_first_observed_at := av_first_observed_at a\<rparr>"

definition upsert_current_availability :: "nat \<Rightarrow> int \<Rightarrow> MappedPrice list \<Rightarrow> unit query" where
  "upsert_current_availability sid applied_at mapped =
     abind (fresh_ids (length mapped)) (\<lambda>n.
     abind (amodify (\<lambda>c. c\<lparr>c_availability := upsert av_key merge_availability
       (numbered n (new_current_availability sid applied_at) mapped) (c_availability c)\<rparr>)) (\<lambda>_.
     abind (aget (\<lambda>c. list_all (\<lambda>a. av_key a \<in> set (map mp_key mapped) \<longrightarrow> av_first_observed_at a \<le> av_last_observed_at a) (c_availability c)))
       constraint))"

text \<open>\<^verbatim>\<open>_apply_incoming_availability\<close>: the numbers of history rows and of items that became unavailable.\<close>

definition apply_incoming_availability :: "nat \<Rightarrow> int \<Rightarrow> MappedPrice list \<Rightarrow> (int \<times> int) query" where
  "apply_incoming_availability sid applied_at mapped =
     abind (aget (\<lambda>c. (filter (availability_differs c) mapped,
       filter (\<lambda>m. \<not> is_available (mp_staged m) \<and>
         (case current_availability c (mp_key m) of None \<Rightarrow> True | Some (a, _) \<Rightarrow> a)) mapped))) (\<lambda>(news, gone).
     abind (aget (\<lambda>c. filter (\<lambda>m. current_availability c (mp_key m) \<noteq> None) news)) (\<lambda>changed.
     abind (close_availability_history applied_at (map mp_key changed)) (\<lambda>_.
     abind (insert_availability_history sid applied_at (map (\<lambda>m. (mp_key m, availability_of_staged (mp_staged m))) news)) (\<lambda>_.
     abind (upsert_current_availability sid applied_at mapped) (\<lambda>_.
     areturn (int (length news), int (length gone)))))))"

section \<open>What a full snapshot no longer lists\<close>

definition missing_price_keys :: "nat \<Rightarrow> nat \<Rightarrow> nat \<Rightarrow> MappedPrice list \<Rightarrow> catalogue \<Rightarrow> (nat \<times> nat) list" where
  "missing_price_keys sid rid pid mapped c =
     (let scopes = map mp_store mapped @ List.map_filter (\<lambda>s. map_option st_id (store_of rid pid s c)) (document_scopes sid c) in
      remdups (filter (\<lambda>k. k \<notin> set (map mp_key mapped))
        (map av_key (filter (\<lambda>a. av_is_available a \<and> av_store_id a \<in> set scopes) (c_availability c)))))"

definition reconcile_absent_prices :: "nat \<Rightarrow> nat \<Rightarrow> nat \<Rightarrow> int \<Rightarrow> MappedPrice list \<Rightarrow> int query" where
  "reconcile_absent_prices sid rid pid applied_at mapped =
     abind (aget (missing_price_keys sid rid pid mapped)) (\<lambda>missing.
     abind (close_availability_history applied_at missing) (\<lambda>_.
     abind (insert_availability_history sid applied_at (map (\<lambda>k. (k, (False, None))) missing)) (\<lambda>_.
     abind (amodify (\<lambda>c. c\<lparr>c_availability := update_where (\<lambda>a. av_key a \<in> set missing) (\<lambda>a. a\<lparr>av_is_available := False,
       av_item_status := None, av_source_file_id := sid, av_last_observed_at := applied_at\<rparr>) (c_availability c)\<rparr>)) (\<lambda>_.
     abind (aget (\<lambda>c. list_all (\<lambda>a. av_key a \<in> set missing \<longrightarrow> av_first_observed_at a \<le> av_last_observed_at a) (c_availability c))) (\<lambda>ok.
     abind (constraint ok) (\<lambda>_.
     areturn (int (length missing))))))))"

section \<open>The whole file\<close>

definition apply_price_rows :: "nat \<Rightarrow> nat \<Rightarrow> nat \<Rightarrow> int \<Rightarrow> bool \<Rightarrow> MappedPrice list \<Rightarrow> ApplySummary query" where
  "apply_price_rows sid rid pid applied_at is_full mapped =
     abind (aget (\<lambda>c. (length (filter (\<lambda>m. current_price c (mp_key m) = None) mapped), length (filter (price_changed c) mapped),
       length (filter (\<lambda>m. \<not> price_differs c m) mapped)))) (\<lambda>(ins, upd, unch).
     abind (close_price_history applied_at mapped) (\<lambda>_.
     abind (insert_price_history sid applied_at mapped) (\<lambda>price_history_created.
     abind (upsert_current_prices sid applied_at mapped) (\<lambda>_.
     abind (apply_incoming_availability sid applied_at mapped) (\<lambda>(events, gone).
     abind (if is_full then reconcile_absent_prices sid rid pid applied_at mapped else areturn 0) (\<lambda>absent.
     areturn \<lparr>inserted = int ins, updated = int upd, unchanged = int unch, unavailable = gone + absent,
       history_events = price_history_created + events + absent\<rparr>))))))"

definition apply_prices :: "nat \<Rightarrow> nat \<Rightarrow> nat \<Rightarrow> int \<Rightarrow> bool \<Rightarrow> int \<Rightarrow> rat \<Rightarrow> ApplySummary query" where
  "apply_prices sid rid pid applied_at is_full minimum_full_records maximum_drop_fraction =
     abind (if is_full then validate_full_price_snapshot sid rid pid minimum_full_records maximum_drop_fraction else areturn ()) (\<lambda>_.
     abind (upsert_price_stores sid rid pid applied_at) (\<lambda>_.
     abind (upsert_retailer_items sid rid pid applied_at) (\<lambda>_.
     abind (aget (mapped_price_incoming sid rid pid)) (\<lambda>mapped.
     abind (constraint (distinct (map mp_key mapped))) (\<lambda>_.
     abind (match_exact_gtins sid rid pid applied_at) (\<lambda>_.
     apply_price_rows sid rid pid applied_at is_full mapped))))))"

end
