(* ===== verification/Store_Apply.thy ===== *)
theory Store_Apply
  imports Price_Apply
begin

text \<open>
  Applying a staged roster of stores: \<^verbatim>\<open>_apply_stores\<close> of \<^verbatim>\<open>adapters/persistence/ingestion.py\<close>. A roster is always a full
  snapshot: afterwards exactly its stores are active in the portal, and applying it again changes nothing.
\<close>

section \<open>Statements\<close>

definition roster_key :: "StagedStore \<Rightarrow> ustr \<times> ustr" where
  "roster_key s = (ss_subchain_id s, ss_source_store_id s)"

definition store_incoming :: "nat \<Rightarrow> catalogue \<Rightarrow> StagedStore list" where
  "store_incoming sid c =
     distinct_on roster_key (sort_key (\<lambda>s. (roster_key s, - ss_record_index s))
       (filter (\<lambda>s. ss_source_file_id s = sid) (c_staged_stores c)))"

definition of_portal :: "nat \<Rightarrow> nat \<Rightarrow> StoreRow \<Rightarrow> bool" where
  "of_portal rid pid s \<longleftrightarrow> st_retailer_id s = rid \<and> st_portal_id s = pid"

definition validate_full_snapshot :: "int \<Rightarrow> int \<Rightarrow> int \<Rightarrow> rat \<Rightarrow> unit query" where
  "validate_full_snapshot incoming_count prior_count minimum_full_records maximum_drop_fraction =
     (if incoming_count < minimum_full_records then araise (exn_of SnapshotValidationError)
      else if drop_exceeded incoming_count prior_count maximum_drop_fraction then araise (exn_of SnapshotValidationError)
      else areturn ())"

text \<open>The columns that the counts compare.\<close>

type_synonym roster_entry =
  "ustr \<times> ustr option \<times> ustr option \<times> ustr option \<times> ustr option \<times> ustr \<times> ustr option \<times> ustr option \<times> ustr option \<times> bool"

definition store_entry :: "StoreRow \<Rightarrow> roster_entry" where
  "store_entry s = (st_chain_code s, st_audit_number s, st_store_type s, st_chain_name s, st_subchain_name s, st_name s,
     st_address s, st_city s, st_postal_code s, st_is_active s)"

definition staged_entry :: "StagedStore \<Rightarrow> roster_entry" where
  "staged_entry s = (ss_chain_id s, ss_audit_number s, ss_store_type s, ss_chain_name s, ss_subchain_name s, ss_store_name s,
     ss_address s, ss_city s, ss_postal_code s, True)"

definition existing_store :: "nat \<Rightarrow> nat \<Rightarrow> catalogue \<Rightarrow> StagedStore \<Rightarrow> StoreRow option" where
  "existing_store rid pid c s = store_of rid pid (roster_key s) c"

definition roster_counts :: "nat \<Rightarrow> nat \<Rightarrow> StagedStore list \<Rightarrow> catalogue \<Rightarrow> int \<times> int \<times> int" where
  "roster_counts rid pid incoming c =
     (int (length (filter (\<lambda>s. existing_store rid pid c s = None) incoming)),
      int (length (filter (\<lambda>s. case existing_store rid pid c s of None \<Rightarrow> False | Some e \<Rightarrow> store_entry e \<noteq> staged_entry s) incoming)),
      int (length (filter (\<lambda>s. case existing_store rid pid c s of None \<Rightarrow> False | Some e \<Rightarrow> store_entry e = staged_entry s) incoming)))"

definition roster_store :: "nat \<Rightarrow> nat \<Rightarrow> nat \<Rightarrow> int \<Rightarrow> nat \<Rightarrow> StagedStore \<Rightarrow> StoreRow" where
  "roster_store sid rid pid applied_at n s =
     \<lparr>st_id = n, st_retailer_id = rid, st_portal_id = pid, st_chain_code = ss_chain_id s, st_subchain_code = ss_subchain_id s,
      st_source_store_code = ss_source_store_id s, st_audit_number = ss_audit_number s, st_store_type = ss_store_type s,
      st_chain_name = ss_chain_name s, st_subchain_name = ss_subchain_name s, st_name = ss_store_name s, st_address = ss_address s,
      st_city = ss_city s, st_postal_code = ss_postal_code s, st_is_active = True, st_first_seen_at = applied_at,
      st_last_seen_at = applied_at, st_last_source_file_id = Some sid\<rparr>"

definition merge_roster_store :: "StoreRow \<Rightarrow> StoreRow \<Rightarrow> StoreRow" where
  "merge_roster_store s new = new\<lparr>st_id := st_id s, st_retailer_id := st_retailer_id s, st_portal_id := st_portal_id s,
     st_subchain_code := st_subchain_code s, st_source_store_code := st_source_store_code s, st_is_active := True,
     st_first_seen_at := st_first_seen_at s\<rparr>"

definition upsert_roster :: "nat \<Rightarrow> nat \<Rightarrow> nat \<Rightarrow> int \<Rightarrow> StagedStore list \<Rightarrow> unit query" where
  "upsert_roster sid rid pid applied_at incoming =
     abind (fresh_ids (length incoming)) (\<lambda>n.
     let news = numbered n (roster_store sid rid pid applied_at) incoming in
     abind (amodify (\<lambda>c. c\<lparr>c_stores := upsert store_key merge_roster_store news (c_stores c)\<rparr>)) (\<lambda>_.
     abind (aget (\<lambda>c. list_all (\<lambda>s. store_key s \<in> set (map store_key news) \<longrightarrow> store_row_ok s) (c_stores c))) constraint))"

definition alias_key :: "StoreAlias \<Rightarrow> nat \<times> nat \<times> string \<times> ustr" where
  "alias_key a = (sa_retailer_id a, sa_portal_id a, sa_alias_kind a, sa_alias_value a)"

definition new_alias :: "nat \<Rightarrow> nat \<Rightarrow> nat \<Rightarrow> nat \<times> ustr \<Rightarrow> StoreAlias" where
  "new_alias rid pid n x = \<lparr>sa_id = n, sa_store_id = fst x, sa_retailer_id = rid, sa_portal_id = pid,
     sa_alias_kind = ''source_store_code'', sa_alias_value = snd x\<rparr>"

definition insert_aliases :: "nat \<Rightarrow> nat \<Rightarrow> StagedStore list \<Rightarrow> unit query" where
  "insert_aliases rid pid incoming =
     abind (aget (\<lambda>c. List.map_filter (\<lambda>s. map_option (\<lambda>e. (st_id e, ss_source_store_id s)) (existing_store rid pid c s)) incoming)) (\<lambda>joined.
     abind (fresh_ids (length joined)) (\<lambda>n.
     amodify (\<lambda>c. c\<lparr>c_store_aliases := insert_missing alias_key (numbered n (new_alias rid pid) joined) (c_store_aliases c)\<rparr>)))"

definition unlisted :: "nat \<Rightarrow> nat \<Rightarrow> StagedStore list \<Rightarrow> StoreRow \<Rightarrow> bool" where
  "unlisted rid pid incoming s \<longleftrightarrow> of_portal rid pid s \<and> st_is_active s \<and>
     (st_subchain_code s, st_source_store_code s) \<notin> set (map roster_key incoming)"

definition deactivate_stores :: "nat \<Rightarrow> nat \<Rightarrow> nat \<Rightarrow> StagedStore list \<Rightarrow> int query" where
  "deactivate_stores sid rid pid incoming =
     abind (aget (\<lambda>c. int (length (filter (unlisted rid pid incoming) (c_stores c))))) (\<lambda>deactivated.
     abind (amodify (\<lambda>c. c\<lparr>c_stores := update_where (unlisted rid pid incoming)
       (\<lambda>s. s\<lparr>st_is_active := False, st_last_source_file_id := Some sid\<rparr>) (c_stores c)\<rparr>)) (\<lambda>_.
     areturn deactivated))"

definition apply_stores :: "nat \<Rightarrow> nat \<Rightarrow> nat \<Rightarrow> int \<Rightarrow> int \<Rightarrow> rat \<Rightarrow> ApplySummary query" where
  "apply_stores sid rid pid applied_at minimum_full_records maximum_drop_fraction =
     abind (aget (store_incoming sid)) (\<lambda>incoming.
     abind (aget (\<lambda>c. int (length (filter (\<lambda>s. of_portal rid pid s \<and> st_is_active s) (c_stores c))))) (\<lambda>prior_count.
     abind (validate_full_snapshot (int (length incoming)) prior_count minimum_full_records maximum_drop_fraction) (\<lambda>_.
     abind (aget (roster_counts rid pid incoming)) (\<lambda>counts.
     abind (upsert_roster sid rid pid applied_at incoming) (\<lambda>_.
     abind (insert_aliases rid pid incoming) (\<lambda>_.
     abind (deactivate_stores sid rid pid incoming) (\<lambda>deactivated.
     areturn \<lparr>inserted = fst counts, updated = fst (snd counts), unchanged = snd (snd counts), unavailable = deactivated,
       history_events = 0\<rparr>)))))))"

section \<open>What a roster does\<close>

lemma unlisted_key: "unlisted rid pid inc r \<longleftrightarrow> st_is_active r \<and> (\<exists>x. store_key r = (rid, pid, x) \<and> x \<notin> roster_key ` set inc)"
  by (auto simp: unlisted_def store_key_def of_portal_def)

lemma store_key_roster [simp]: "store_key (roster_store sid rid pid applied_at n s) = (rid, pid, roster_key s)"
    "store_key (merge_roster_store r q) = store_key r"
  by (simp_all add: roster_store_def store_key_def roster_key_def merge_roster_store_def)

lemma of_portal_key: "of_portal rid pid r \<longleftrightarrow> fst (store_key r) = rid \<and> fst (snd (store_key r)) = pid"
  by (simp add: of_portal_def store_key_def)

lemma store_entry_roster [simp]: "store_entry (merge_roster_store r (roster_store sid rid pid applied_at n s)) = staged_entry s"
    "store_entry (roster_store sid rid pid applied_at n s) = staged_entry s"
  by (simp_all add: store_entry_def staged_entry_def roster_store_def merge_roster_store_def)

lemma roster_keys: "distinct (map roster_key (store_incoming sid c))"
  unfolding store_incoming_def by (rule distinct_distinct_on)

definition roster_rows :: "nat \<Rightarrow> nat \<Rightarrow> nat \<Rightarrow> int \<Rightarrow> nat \<Rightarrow> StagedStore list \<Rightarrow> StoreRow list \<Rightarrow> StoreRow list" where
  "roster_rows sid rid pid applied_at n inc rows =
     update_where (unlisted rid pid inc) (\<lambda>s. s\<lparr>st_is_active := False, st_last_source_file_id := Some sid\<rparr>)
       (upsert store_key merge_roster_store (numbered n (roster_store sid rid pid applied_at) inc) rows)"

lemma store_key_deactivate [simp]: "store_key (s\<lparr>st_is_active := b, st_last_source_file_id := f\<rparr>) = store_key s"
  by (simp add: store_key_def)

lemma apply_stores_effect:
  assumes "apply_stores sid rid pid applied_at m d c = (Inr s, c')" and inc: "inc = store_incoming sid c"
  shows "c_stores c' = roster_rows sid rid pid applied_at (c_next_id c) inc (c_stores c)"
    "c_staged_stores c' = c_staged_stores c" "m \<le> int (length inc)"
    "\<forall>r\<in>set (upsert store_key merge_roster_store (numbered (c_next_id c) (roster_store sid rid pid applied_at) inc) (c_stores c)).
       store_key r \<in> (\<lambda>s. (rid, pid, roster_key s)) ` set inc \<longrightarrow> store_row_ok r"
    "s = \<lparr>inserted = fst (roster_counts rid pid inc c), updated = fst (snd (roster_counts rid pid inc c)),
       unchanged = snd (snd (roster_counts rid pid inc c)),
       unavailable = int (length (filter (unlisted rid pid inc)
         (upsert store_key merge_roster_store (numbered (c_next_id c) (roster_store sid rid pid applied_at) inc) (c_stores c)))),
       history_events = 0\<rparr>"
proof -
  have "map store_key (numbered n (roster_store sid rid pid applied_at) xs) = map (\<lambda>s. (rid, pid, roster_key s)) xs" for n xs
    by (rule map_numbered) simp
  then have k: "store_key ` set (numbered n (roster_store sid rid pid applied_at) xs) = (\<lambda>s. (rid, pid, roster_key s)) ` set xs" for n xs
    by (metis list.set_map)
  note e = assms(1) [unfolded apply_stores_def upsert_roster_def insert_aliases_def deactivate_stores_def validate_full_snapshot_def,
    folded inc]
  show "c_stores c' = roster_rows sid rid pid applied_at (c_next_id c) inc (c_stores c)"
    "c_staged_stores c' = c_staged_stores c" "m \<le> int (length inc)"
    "\<forall>r\<in>set (upsert store_key merge_roster_store (numbered (c_next_id c) (roster_store sid rid pid applied_at) inc) (c_stores c)).
       store_key r \<in> (\<lambda>s. (rid, pid, roster_key s)) ` set inc \<longrightarrow> store_row_ok r"
    "s = \<lparr>inserted = fst (roster_counts rid pid inc c), updated = fst (snd (roster_counts rid pid inc c)),
       unchanged = snd (snd (roster_counts rid pid inc c)),
       unavailable = int (length (filter (unlisted rid pid inc)
         (upsert store_key merge_roster_store (numbered (c_next_id c) (roster_store sid rid pid applied_at) inc) (c_stores c)))),
       history_events = 0\<rparr>"
    using e by (auto simp: effect_simps areturn_def araise_def Let_def k roster_rows_def list_all_iff inc split: if_splits)
qed

lemma roster_found:
  assumes "distinct (map roster_key inc)"
  shows "find (\<lambda>r. store_key r = (rid, pid, x)) (roster_rows sid rid pid applied_at n inc rows) =
     (case find (\<lambda>s. roster_key s = x) inc of
        Some s \<Rightarrow> (case find (\<lambda>r. store_key r = (rid, pid, x)) rows of
            None \<Rightarrow> find (\<lambda>r. store_key r = (rid, pid, x)) (numbered n (roster_store sid rid pid applied_at) inc)
          | Some r \<Rightarrow> map_option (merge_roster_store r)
              (find (\<lambda>r. store_key r = (rid, pid, x)) (numbered n (roster_store sid rid pid applied_at) inc)))
      | None \<Rightarrow> map_option (\<lambda>r. if st_is_active r then r\<lparr>st_is_active := False, st_last_source_file_id := Some sid\<rparr> else r)
          (find (\<lambda>r. store_key r = (rid, pid, x)) rows))"
proof -
  let ?news = "numbered n (roster_store sid rid pid applied_at) inc"
  have u: "find (\<lambda>r. store_key r = (rid, pid, x)) (roster_rows sid rid pid applied_at n inc rows) =
      map_option (\<lambda>r. if unlisted rid pid inc r then r\<lparr>st_is_active := False, st_last_source_file_id := Some sid\<rparr> else r)
        (find (\<lambda>r. store_key r = (rid, pid, x)) (upsert store_key merge_roster_store ?news rows))"
    unfolding roster_rows_def by (rule find_update_where) simp
  have l: "unlisted rid pid inc r \<longleftrightarrow> st_is_active r \<and> x \<notin> roster_key ` set inc" if "store_key r = (rid, pid, x)" for r
    using that by (simp add: unlisted_key)
  have k: "store_key r = (rid, pid, x)" if "find (\<lambda>r. store_key r = (rid, pid, x)) rs = Some r" for rs r
    using find_in [OF that] by simp
  have none: "find (\<lambda>r. store_key r = (rid, pid, x)) ?news = None \<longleftrightarrow> x \<notin> roster_key ` set inc"
    by (subst find_numbered_none [where kx = "\<lambda>s. (rid, pid, roster_key s)"]) auto
  have find: "find (\<lambda>s. roster_key s = x) inc = None \<longleftrightarrow> x \<notin> roster_key ` set inc" by (auto simp: find_None_iff)
  show ?thesis
  proof (cases "x \<in> roster_key ` set inc")
    case True
    then obtain s q where s: "find (\<lambda>s. roster_key s = x) inc = Some s" "find (\<lambda>r. store_key r = (rid, pid, x)) ?news = Some q"
      using none find by fastforce
    then show ?thesis using True l k unfolding u by (auto simp: find_upsert split: option.splits)
  next
    case False
    then show ?thesis using none find l k unfolding u by (auto simp: find_upsert split: option.splits)
  qed
qed

lemma roster_counts_total: "fst (roster_counts rid pid inc c) + fst (snd (roster_counts rid pid inc c)) + snd (snd (roster_counts rid pid inc c)) = int (length inc)"
  unfolding roster_counts_def by (induction inc) (auto split: option.splits)

text \<open>The stores after a roster: keys stay unique, listed stores have the listed details.\<close>

lemma roster_keys_unique:
  assumes "distinct (map store_key (c_stores c))" "apply_stores sid rid pid applied_at m d c = (Inr s, c')"
  shows "distinct (map store_key (c_stores c'))"
proof -
  note e = apply_stores_effect [OF assms(2) refl]
  let ?news = "numbered (c_next_id c) (roster_store sid rid pid applied_at) (store_incoming sid c)"
  have ck: "map store_key ?news = map (\<lambda>s. (rid, pid, roster_key s)) (store_incoming sid c)" by (rule map_numbered) simp
  have "distinct (map store_key ?news)" unfolding ck using roster_keys [of sid c] by (simp add: distinct_map inj_on_def)
  then show ?thesis
    unfolding e(1) roster_rows_def by (subst map_update_where) (simp_all add: distinct_upsert assms(1))
qed

lemma roster_contents:
  assumes "apply_stores sid rid pid applied_at m d c = (Inr s, c')"
  shows "case find (\<lambda>s. roster_key s = x) (store_incoming sid c) of
        Some e \<Rightarrow> map_option store_entry (store_of rid pid x c') = Some (staged_entry e)
      | None \<Rightarrow> store_of rid pid x c' = map_option (\<lambda>r. if st_is_active r
          then r\<lparr>st_is_active := False, st_last_source_file_id := Some sid\<rparr> else r) (store_of rid pid x c)"
proof (cases "find (\<lambda>s. roster_key s = x) (store_incoming sid c)")
  note e = apply_stores_effect [OF assms refl]
  let ?inc = "store_incoming sid c" let ?news = "numbered (c_next_id c) (roster_store sid rid pid applied_at) ?inc"
  case (Some q)
  then have q: "q \<in> set ?inc" "roster_key q = x" using find_in by fastforce+
  obtain i where "find (\<lambda>r. store_key r = (rid, pid, x)) ?news = Some (roster_store sid rid pid applied_at i q)"
    using find_numbered_distinct [of store_key "roster_store sid rid pid applied_at" "\<lambda>s. (rid, pid, roster_key s)" ?inc q "c_next_id c"] q
      roster_keys [of sid c] by (auto simp: distinct_map inj_on_def)
  then show ?thesis using Some roster_found [OF roster_keys]
    by (simp add: store_of_def e(1) split: option.split)
next
  note e = apply_stores_effect [OF assms refl]
  case None
  then show ?thesis using roster_found [OF roster_keys] by (simp add: store_of_def e(1))
qed

section \<open>Properties\<close>

text \<open>
  C7. Applying a roster makes it the truth about the portal: every listed store is there, active, with the listed
  details (of its last row); every other store of the portal is inactive and keeps its details; stores of
  other portals are untouched; keys stay unique. The summary counts every listed store once.
\<close>
theorem roster_applied:
  assumes "distinct (map store_key (c_stores c))" "apply_stores sid rid pid applied_at m d c = (Inr s, c')"
  shows "distinct (map store_key (c_stores c')) \<and>
     (\<forall>x. case find (\<lambda>s. roster_key s = x) (store_incoming sid c) of
        Some e \<Rightarrow> map_option store_entry (store_of rid pid x c') = Some (staged_entry e)
      | None \<Rightarrow> store_of rid pid x c' = map_option (\<lambda>r. if st_is_active r
          then r\<lparr>st_is_active := False, st_last_source_file_id := Some sid\<rparr> else r) (store_of rid pid x c)) \<and>
     filter (\<lambda>r. \<not> of_portal rid pid r) (c_stores c') = filter (\<lambda>r. \<not> of_portal rid pid r) (c_stores c) \<and>
     inserted s + updated s + unchanged s = int (length (store_incoming sid c)) \<and>
     unavailable s = int (length (filter (unlisted rid pid (store_incoming sid c)) (c_stores c)))"
proof -
  note e = apply_stores_effect [OF assms(2) refl]
  let ?inc = "store_incoming sid c" let ?news = "numbered (c_next_id c) (roster_store sid rid pid applied_at) ?inc"
  have o: "filter (\<lambda>r. \<not> of_portal rid pid r) (c_stores c') = filter (\<lambda>r. \<not> of_portal rid pid r) (c_stores c)"
  proof -
    have "filter (\<lambda>r. \<not> of_portal rid pid r) (c_stores c') = filter (\<lambda>r. \<not> of_portal rid pid r) (upsert store_key merge_roster_store ?news (c_stores c))"
      unfolding e(1) roster_rows_def
      by (subst filter_update_where, simp add: of_portal_key, rule update_where_none, auto simp: unlisted_def)
    also have "\<dots> = filter (\<lambda>r. \<not> of_portal rid pid r) (c_stores c)"
      by (rule filter_upsert) (auto dest!: set_numbered simp: of_portal_key dest: sym)
    finally show ?thesis .
  qed
  have "filter (unlisted rid pid ?inc) (upsert store_key merge_roster_store ?news (c_stores c)) = filter (unlisted rid pid ?inc) (c_stores c)"
    by (rule filter_upsert) (auto dest!: set_numbered simp: unlisted_key dest: sym intro: rev_image_eqI [OF _ sym])
  then show ?thesis using roster_keys_unique [OF assms] roster_contents [OF assms(2)] o e(5) roster_counts_total by simp
qed

text \<open>A row of a listed store that the roster wrote stays when it is merged again.\<close>

lemma merge_roster_again:
  assumes "r = merge_roster_store r0 (roster_store sid rid pid applied_at i q) \<or> r = roster_store sid rid pid applied_at i q"
  shows "merge_roster_store r (roster_store sid rid pid applied_at j q) = r"
  using assms by (auto simp: merge_roster_store_def roster_store_def)

lemma roster_row:
  assumes "distinct (map roster_key inc)" "r \<in> set (roster_rows sid rid pid applied_at n inc rows)" "q \<in> set inc"
    "store_key r = (rid, pid, roster_key q)"
  shows "\<exists>r0 i. r = merge_roster_store r0 (roster_store sid rid pid applied_at i q) \<or> r = roster_store sid rid pid applied_at i q"
proof -
  let ?news = "numbered n (roster_store sid rid pid applied_at) inc"
  obtain i where i: "find (\<lambda>r. store_key r = (rid, pid, roster_key q)) ?news = Some (roster_store sid rid pid applied_at i q)"
    using find_numbered_distinct [of store_key "roster_store sid rid pid applied_at" "\<lambda>s. (rid, pid, roster_key s)" inc q n] assms(1,3)
    by (auto simp: distinct_map inj_on_def)
  obtain r1 where r1: "r1 \<in> set (upsert store_key merge_roster_store ?news rows)"
      "r = (if unlisted rid pid inc r1 then r1\<lparr>st_is_active := False, st_last_source_file_id := Some sid\<rparr> else r1)"
    using assms(2) by (auto simp: roster_rows_def set_update_where)
  have k1: "store_key r1 = (rid, pid, roster_key q)" using r1(2) assms(4) by (simp split: if_splits)
  then have "\<not> unlisted rid pid inc r1" using assms(3) by (simp add: unlisted_key)
  then have r: "r = r1" using r1(2) by simp
  from store_key_roster(2) r1(1) show ?thesis
  proof (cases rule: set_upsert)
    case old
    then show ?thesis using i k1 by simp
  next
    case (merged r0 m)
    have "m = roster_store sid rid pid applied_at i q" using i merged(3) by (simp add: k1)
    then show ?thesis using merged(2) r by blast
  next
    case new
    from set_numbered [OF new(1)] obtain j q' where q': "q' \<in> set inc" "r1 = roster_store sid rid pid applied_at j q'" by blast
    have "roster_key q' = roster_key q" using k1 unfolding q'(2) by simp
    then have "q' = q" using assms(1,3) q'(1) by (auto simp: distinct_map dest: inj_onD)
    then show ?thesis using q'(2) r by blast
  qed
qed

lemma roster_rows_again:
  assumes "distinct (map roster_key inc)"
  shows "upsert store_key merge_roster_store (numbered m (roster_store sid rid pid applied_at) inc)
       (roster_rows sid rid pid applied_at n inc rows) = roster_rows sid rid pid applied_at n inc rows"
    "filter (unlisted rid pid inc) (roster_rows sid rid pid applied_at n inc rows) = []"
proof -
  let ?L = "roster_rows sid rid pid applied_at n inc rows" let ?news = "numbered m (roster_store sid rid pid applied_at) inc"
  have "(case find (\<lambda>x. store_key x = store_key r) ?news of None \<Rightarrow> r | Some x \<Rightarrow> merge_roster_store r x) = r" if "r \<in> set ?L" for r
  proof (cases "find (\<lambda>x. store_key x = store_key r) ?news")
    case (Some x)
    note x = find_in [OF Some]
    from set_numbered [OF conjunct1 [OF x]] obtain j q where q: "q \<in> set inc" "x = roster_store sid rid pid applied_at j q" by blast
    have "store_key r = (rid, pid, roster_key q)" using x unfolding q(2) by simp
    from roster_row [OF assms that q(1) this] obtain r0 i where
      "r = merge_roster_store r0 (roster_store sid rid pid applied_at i q) \<or> r = roster_store sid rid pid applied_at i q" by blast
    from merge_roster_again [OF this] show ?thesis using Some by (simp add: q(2))
  qed simp
  moreover have "store_key x \<in> store_key ` set ?L" if "x \<in> set ?news" for x
  proof -
    from set_numbered [OF that] obtain j q where q: "q \<in> set inc" "x = roster_store sid rid pid applied_at j q" by blast
    have "find (\<lambda>s. roster_key s = roster_key q) inc \<noteq> None" using q(1) unfolding find_None_iff by blast
    moreover obtain y where "find (\<lambda>r. store_key r = (rid, pid, roster_key q)) (numbered n (roster_store sid rid pid applied_at) inc) = Some y"
      using find_numbered_distinct [of store_key "roster_store sid rid pid applied_at" "\<lambda>s. (rid, pid, roster_key s)" inc q n] assms q(1)
      by (auto simp: distinct_map inj_on_def)
    ultimately have "find (\<lambda>r. store_key r = (rid, pid, roster_key q)) ?L \<noteq> None"
      using roster_found [OF assms, of rid pid "roster_key q" sid applied_at n rows] by (auto split: option.splits)
    then have "(rid, pid, roster_key q) \<in> store_key ` set ?L" by (auto simp: find_None_iff intro: rev_image_eqI [OF _ sym])
    then show ?thesis by (simp add: q(2))
  qed
  ultimately show "upsert store_key merge_roster_store ?news ?L = ?L"
    by (simp add: upsert_def map_idI filter_empty_conv)
  show "filter (unlisted rid pid inc) ?L = []"
    by (auto simp: filter_empty_conv roster_rows_def set_update_where unlisted_key)
qed

lemma roster_active:
  assumes "distinct (map roster_key inc)" "distinct (map store_key rows)"
  shows "length (filter (\<lambda>s. of_portal rid pid s \<and> st_is_active s) (roster_rows sid rid pid applied_at n inc rows)) = length inc"
proof -
  let ?L = "roster_rows sid rid pid applied_at n inc rows" let ?A = "filter (\<lambda>s. of_portal rid pid s \<and> st_is_active s) ?L"
  let ?k = "\<lambda>s. (rid, pid, roster_key s)"
  have "map store_key (numbered n (roster_store sid rid pid applied_at) inc) = map ?k inc" by (rule map_numbered) simp
  moreover have dk: "distinct (map ?k inc)" using assms(1) by (simp add: distinct_map inj_on_def)
  ultimately have "distinct (map store_key ?L)"
    unfolding roster_rows_def by (subst map_update_where) (simp_all add: distinct_upsert assms(2))
  then have d: "distinct (map store_key ?A)" by (rule distinct_map_filter)
  have "store_key r \<in> ?k ` set inc" if r: "r \<in> set ?L" "of_portal rid pid r" "st_is_active r" for r
  proof -
    obtain x where x: "store_key r = (rid, pid, x)" using r(2) by (auto simp: of_portal_key prod_eq_iff)
    have "x \<in> roster_key ` set inc"
      using roster_rows_again(2) [OF assms(1), of rid pid sid applied_at n rows] r(1,3) x unfolding filter_empty_conv unlisted_key by blast
    then show ?thesis using x by auto
  qed
  moreover have "?k q \<in> store_key ` set ?A" if q: "q \<in> set inc" for q
  proof -
    obtain y where y: "find (\<lambda>r. store_key r = ?k q) (numbered n (roster_store sid rid pid applied_at) inc) = Some y"
      using find_numbered_distinct [of store_key "roster_store sid rid pid applied_at" ?k inc q n] dk q by auto
    from find_key [OF assms(1) q] y obtain r where "find (\<lambda>r. store_key r = ?k q) ?L = Some r"
      using roster_found [OF assms(1), of rid pid "roster_key q" sid applied_at n rows] by (auto split: option.splits)
    from find_in [OF this] have r: "r \<in> set ?L" "store_key r = ?k q" by auto
    from roster_row [OF assms(1) r(1) q r(2)] have "st_is_active r" by (auto simp: merge_roster_store_def roster_store_def)
    then have "r \<in> set ?A" using r by (simp add: of_portal_key)
    then show ?thesis using r(2) by (rule rev_image_eqI [OF _ sym])
  qed
  ultimately have "set (map store_key ?A) = set (map ?k inc)" by auto
  then have "card (set (map store_key ?A)) = card (set (map ?k inc))" by (rule arg_cong)
  then show ?thesis unfolding distinct_card [OF d] distinct_card [OF dk] length_map .
qed

text \<open>
  C8. Applying the same roster a second time succeeds, reports every store as unchanged and leaves every
  store as it is.
\<close>
theorem roster_idempotent:
  assumes "distinct (map store_key (c_stores c))" "apply_stores sid rid pid applied_at m d c = (Inr s, c')"
  shows "\<exists>c''. apply_stores sid rid pid applied_at m d c' = (Inr \<lparr>inserted = 0, updated = 0, unchanged = int (length (store_incoming sid c)),
     unavailable = 0, history_events = 0\<rparr>, c'') \<and> c_stores c'' = c_stores c'"
proof -
  let ?inc = "store_incoming sid c"
  note e = apply_stores_effect [OF assms(2) refl]
  have again: "upsert store_key merge_roster_store (numbered k (roster_store sid rid pid applied_at) ?inc) (c_stores c') = c_stores c'"
      "filter (unlisted rid pid ?inc) (c_stores c') = []" for k
    unfolding e(1) by (rule roster_rows_again [OF roster_keys])+
  have inc: "store_incoming sid c' = ?inc" by (simp add: store_incoming_def e(2))
  have act: "length (filter (\<lambda>s. of_portal rid pid s \<and> st_is_active s) (c_stores c')) = length ?inc"
    unfolding e(1) by (rule roster_active [OF roster_keys assms(1)])
  note app = roster_contents [OF assms(2)]
  have ex: "\<exists>r. existing_store rid pid c' q = Some r \<and> store_entry r = staged_entry q" if "q \<in> set ?inc" for q
  proof -
    have "find (\<lambda>s. roster_key s = roster_key q) ?inc = Some q" by (rule find_key [OF roster_keys that])
    then show ?thesis using app [of "roster_key q"] by (simp add: existing_store_def)
  qed
  have c0: "filter (\<lambda>q. existing_store rid pid c' q = None) ?inc = []"
    "filter (\<lambda>q. case existing_store rid pid c' q of None \<Rightarrow> False | Some e \<Rightarrow> store_entry e \<noteq> staged_entry q) ?inc = []"
    "filter (\<lambda>q. case existing_store rid pid c' q of None \<Rightarrow> False | Some e \<Rightarrow> store_entry e = staged_entry q) ?inc = ?inc"
    using ex by (fastforce simp: filter_empty_conv filter_id_conv)+
  have counts: "roster_counts rid pid ?inc c' = (0, 0, int (length ?inc))" unfolding roster_counts_def c0 by simp
  have nodrop: "\<not> drop_exceeded (int (length ?inc)) (int (length ?inc)) d" by (simp add: drop_exceeded_def)
  have ok: "list_all (\<lambda>r. store_key r \<in> set (map store_key (numbered k (roster_store sid rid pid applied_at) ?inc)) \<longrightarrow> store_row_ok r) (c_stores c')" for k
  proof -
    have "map store_key (numbered k (roster_store sid rid pid applied_at) ?inc) = map (\<lambda>s. (rid, pid, roster_key s)) ?inc"
      by (rule map_numbered) simp
    moreover have "store_row_ok r" if l: "r \<in> set (c_stores c')" "store_key r \<in> (\<lambda>s. (rid, pid, roster_key s)) ` set ?inc" for r
    proof -
      obtain r1 where r1: "r1 \<in> set (upsert store_key merge_roster_store (numbered (c_next_id c) (roster_store sid rid pid applied_at) ?inc) (c_stores c))"
          "r = (if unlisted rid pid ?inc r1 then r1\<lparr>st_is_active := False, st_last_source_file_id := Some sid\<rparr> else r1)"
        using l(1) unfolding e(1) roster_rows_def set_update_where by (elim imageE)
      have "store_key r = store_key r1" unfolding r1(2) by simp
      then have k: "store_key r1 \<in> (\<lambda>s. (rid, pid, roster_key s)) ` set ?inc" using l(2) by simp
      then have "\<not> unlisted rid pid ?inc r1" by (auto simp: unlisted_key)
      then have "r = r1" using r1(2) by simp
      then show ?thesis using e(4) r1(1) k by blast
    qed
    ultimately show ?thesis by (simp add: list_all_iff)
  qed
  have stays: "update_where (unlisted rid pid ?inc) (\<lambda>s. s\<lparr>st_is_active := False, st_last_source_file_id := Some sid\<rparr>) (c_stores c') = c_stores c'"
    using again(2) by (intro update_where_none) (simp add: filter_empty_conv)
  show ?thesis
    unfolding apply_stores_def upsert_roster_def insert_aliases_def deactivate_stores_def validate_full_snapshot_def Let_def
    using e(3) by (simp add: abind_def aget_def amodify_def areturn_def fresh_ids_def constraint_def inc act nodrop counts ok [simplified] again stays)
qed

text \<open>A portal with two stores; the roster renames one, drops the other and lists a new one.\<close>

definition demo_staged_store :: "nat \<Rightarrow> int \<Rightarrow> string \<Rightarrow> string \<Rightarrow> StagedStore" where
  "demo_staged_store sid i code name = \<lparr>ss_source_file_id = sid, ss_record_index = i, ss_chain_id = lit ''7290'', ss_subchain_id = lit ''1'',
     ss_source_store_id = lit code, ss_audit_number = None, ss_store_type = None, ss_chain_name = None, ss_subchain_name = None,
     ss_store_name = lit name, ss_address = None, ss_city = None, ss_postal_code = None\<rparr>"

definition demo_roster :: catalogue where
  "demo_roster = empty_catalogue\<lparr>c_stores := [roster_store 4 10 20 2 50 (demo_staged_store 4 0 ''1'' ''Old''),
       roster_store 4 10 20 2 51 (demo_staged_store 4 1 ''2'' ''Gone'')],
     c_staged_stores := [demo_staged_store 6 0 ''1'' ''Centre'', demo_staged_store 6 1 ''3'' ''North''], c_next_id := 60\<rparr>"

lemma demo_roster_run:
  obtains s c' where "apply_stores 6 10 20 7 1 1 demo_roster = (Inr s, c')" "inserted s = 1" "updated s = 1" "unavailable s = 1"
    "map (\<lambda>r. (st_name r, st_is_active r)) (c_stores c') = [(lit ''Centre'', True), (lit ''Gone'', False), (lit ''North'', True)]"
proof -
  have "(case apply_stores 6 10 20 7 1 1 demo_roster of (r, c') \<Rightarrow>
      (map_sum (\<lambda>_. ()) (\<lambda>s. (inserted s, updated s, unavailable s)) r, map (\<lambda>r. (st_name r, st_is_active r)) (c_stores c'))) =
      (Inr (1, 1, 1), [(lit ''Centre'', True), (lit ''Gone'', False), (lit ''North'', True)])"
    by (simp add: demo_roster_def demo_staged_store_def empty_catalogue_def apply_stores_def store_incoming_def roster_key_def of_portal_def
      validate_full_snapshot_def drop_exceeded_def roster_counts_def existing_store_def store_of_def store_key_def store_entry_def staged_entry_def
      upsert_roster_def roster_store_def merge_roster_store_def insert_aliases_def alias_key_def new_alias_def deactivate_stores_def unlisted_def
      store_row_ok_def gtin_eval abind_eval lit_def del: set_filter cong: abind_weak_cong)
  then show thesis using that by (cases "apply_stores 6 10 20 7 1 1 demo_roster"; cases "fst (apply_stores 6 10 20 7 1 1 demo_roster)") auto
qed

lemma demo_roster_keys: "distinct (map store_key (c_stores demo_roster))"
  by (simp add: demo_roster_def roster_key_def demo_staged_store_def lit_def)

theorem roster_applied_witness:
  "\<exists>s c'. apply_stores 6 10 20 7 1 1 demo_roster = (Inr s, c') \<and> unavailable s = 1 \<and> distinct (map store_key (c_stores c')) \<and>
     map (\<lambda>r. (st_name r, st_is_active r)) (c_stores c') = [(lit ''Centre'', True), (lit ''Gone'', False), (lit ''North'', True)]"
proof -
  obtain s c' where r: "apply_stores 6 10 20 7 1 1 demo_roster = (Inr s, c')" "inserted s = 1" "updated s = 1" "unavailable s = 1"
    "map (\<lambda>r. (st_name r, st_is_active r)) (c_stores c') = [(lit ''Centre'', True), (lit ''Gone'', False), (lit ''North'', True)]"
    by (rule demo_roster_run)
  note d = conjunct1 [OF roster_applied [OF demo_roster_keys r(1)]]
  show ?thesis by (intro exI conjI) (rule r d)+
qed

theorem roster_idempotent_witness:
  "\<exists>s c' s' c''. apply_stores 6 10 20 7 1 1 demo_roster = (Inr s, c') \<and> apply_stores 6 10 20 7 1 1 c' = (Inr s', c'') \<and> c_stores c'' = c_stores c'"
proof -
  obtain s c' where r: "apply_stores 6 10 20 7 1 1 demo_roster = (Inr s, c')" by (rule demo_roster_run)
  from roster_idempotent [OF demo_roster_keys r] r show ?thesis by blast
qed

end
