(* ===== verification/Promotion_Apply.thy ===== *)
theory Promotion_Apply
  imports Store_Apply
begin

text \<open>
  Applying a staged file of promotions: \<^verbatim>\<open>_apply_promotions\<close> of \<^verbatim>\<open>adapters/persistence/ingestion.py\<close> and the
  functions it calls, one definition per statement. A promotion is identified by its portal, subchain, number and
  the store it is published for; its open row carries the terms of the last file, compared by fingerprint. Items,
  stores and clubs are attached to the open row. A full file ends what it no longer lists in its scopes.
\<close>

section \<open>Tables\<close>

record promotion_terms =
  pt_description :: "ustr option"
  pt_discount_kind :: DiscountKind
  pt_starts_at :: "int option"
  pt_ends_at :: "int option"
  pt_reward_type :: "int option"
  pt_allows_multiple_discounts :: "bool option"
  pt_minimum_quantity :: "rat option"
  pt_maximum_quantity :: "rat option"
  pt_discount_rate :: "rat option"
  pt_minimum_purchase :: "rat option"
  pt_discounted_price :: "rat option"
  pt_discounted_unit_price :: "rat option"
  pt_minimum_items_offered :: "int option"
  pt_additional_restrictions :: "ustr option"
  pt_remarks :: "ustr option"
  pt_is_active :: "bool option"

record PromotionRow =
  pn_id :: nat
  pn_retailer_id :: nat
  pn_portal_id :: nat
  pn_subchain_code :: ustr
  pn_source_promotion_id :: ustr
  pn_source_scope_store_code :: ustr
  pn_terms :: promotion_terms
  pn_fingerprint :: ustr
  pn_source_file_id :: nat
  pn_valid_from :: int
  pn_valid_to :: "int option"
  pn_last_observed_at :: int

record PromotionItemRow =
  pi_promotion_id :: nat
  pi_retailer_item_id :: nat
  pi_item_type :: "int option"
  pi_is_gift :: bool

record StagedPromotion =
  sm_source_file_id :: nat
  sm_record_index :: int
  sm_chain_id :: ustr
  sm_subchain_id :: ustr
  sm_source_scope_store_code :: ustr
  sm_source_promotion_id :: ustr
  sm_terms :: promotion_terms
  sm_fingerprint :: ustr

record StagedPromotionItem =
  smi_source_file_id :: nat
  smi_record_index :: int
  smi_item_index :: int
  smi_source_item_code :: ustr
  smi_item_type :: "int option"
  smi_is_gift :: bool

record StagedPromotionStore =
  sms_source_file_id :: nat
  sms_record_index :: int
  sms_store_index :: int
  sms_source_store_code :: ustr

record StagedPromotionClub =
  smc_source_file_id :: nat
  smc_record_index :: int
  smc_club_index :: int
  smc_club_id :: ustr

text \<open>\<^verbatim>\<open>source_scope_watermarks\<close>: the newest file that was applied for a scope of a document family.\<close>

record Watermark =
  wm_retailer_id :: nat
  wm_portal_id :: nat
  wm_document_family :: string
  wm_subchain_code :: ustr
  wm_source_scope_code :: ustr
  wm_effective_source_timestamp :: int
  wm_source_content_sha256 :: ustr
  wm_source_file_id :: nat

text \<open>\<^verbatim>\<open>applied_source_contents\<close>: the instant at which a file was applied first.\<close>

record AppliedContent =
  ac_source_file_id :: nat
  ac_retailer_id :: nat
  ac_portal_id :: nat
  ac_document_type :: DocumentType
  ac_content_sha256 :: ustr
  ac_applied_at :: int

text \<open>The catalogue with the tables of promotions and of the order of files.\<close>

record warehouse =
  w_catalogue :: catalogue
  w_promotions :: "PromotionRow list"
  w_promotion_items :: "PromotionItemRow list"
  w_promotion_stores :: "(nat \<times> nat) list"
  w_promotion_clubs :: "(nat \<times> ustr) list"
  w_staged_promotions :: "StagedPromotion list"
  w_staged_promotion_items :: "StagedPromotionItem list"
  w_staged_promotion_stores :: "StagedPromotionStore list"
  w_staged_promotion_clubs :: "StagedPromotionClub list"
  w_watermarks :: "Watermark list"
  w_contents :: "AppliedContent list"

type_synonym 'a command = "(warehouse, exn, 'a) action"

definition on_catalogue :: "'a query \<Rightarrow> 'a command" where
  "on_catalogue m w = (case m (w_catalogue w) of (r, c) \<Rightarrow> (r, w\<lparr>w_catalogue := c\<rparr>))"

section \<open>Incoming rows\<close>

definition promotion_key :: "PromotionRow \<Rightarrow> nat \<times> nat \<times> ustr \<times> ustr \<times> ustr" where
  "promotion_key p = (pn_retailer_id p, pn_portal_id p, pn_subchain_code p, pn_source_promotion_id p, pn_source_scope_store_code p)"

definition open_promotion :: "PromotionRow \<Rightarrow> bool" where
  "open_promotion p \<longleftrightarrow> pn_valid_to p = None"

definition staged_promotion_key :: "StagedPromotion \<Rightarrow> ustr \<times> ustr \<times> ustr" where
  "staged_promotion_key p = (sm_subchain_id p, sm_source_promotion_id p, sm_source_scope_store_code p)"

definition promotion_incoming :: "nat \<Rightarrow> warehouse \<Rightarrow> StagedPromotion list" where
  "promotion_incoming sid w =
     distinct_on staged_promotion_key (sort_key (\<lambda>p. (staged_promotion_key p, - sm_record_index p))
       (filter (\<lambda>p. sm_source_file_id p = sid) (w_staged_promotions w)))"

text \<open>The open row of an incoming promotion.\<close>

definition current_promotion :: "nat \<Rightarrow> nat \<Rightarrow> warehouse \<Rightarrow> StagedPromotion \<Rightarrow> PromotionRow option" where
  "current_promotion rid pid w p =
     find (\<lambda>r. promotion_key r = (rid, pid, staged_promotion_key p) \<and> open_promotion r) (w_promotions w)"

definition promotion_changed :: "nat \<Rightarrow> nat \<Rightarrow> warehouse \<Rightarrow> StagedPromotion \<Rightarrow> bool" where
  "promotion_changed rid pid w p =
     (case current_promotion rid pid w p of None \<Rightarrow> False | Some r \<Rightarrow> pn_fingerprint r \<noteq> sm_fingerprint p)"

definition promotion_counts :: "nat \<Rightarrow> nat \<Rightarrow> StagedPromotion list \<Rightarrow> warehouse \<Rightarrow> int \<times> int \<times> int" where
  "promotion_counts rid pid incoming w =
     (int (length (filter (\<lambda>p. current_promotion rid pid w p = None) incoming)),
      int (length (filter (promotion_changed rid pid w) incoming)),
      int (length (filter (\<lambda>p. current_promotion rid pid w p \<noteq> None \<and> \<not> promotion_changed rid pid w p) incoming)))"

section \<open>Validation of a full file\<close>

definition default_text :: "ustr option \<Rightarrow> ustr" where
  "default_text x = (case x of None \<Rightarrow> [] | Some s \<Rightarrow> s)"

definition promotion_scope :: "StagedPromotion \<Rightarrow> ustr \<times> ustr" where
  "promotion_scope p = (sm_subchain_id p, sm_source_scope_store_code p)"

definition promotion_document_scopes :: "nat \<Rightarrow> warehouse \<Rightarrow> (ustr \<times> ustr) list" where
  "promotion_document_scopes sid w =
     remdups (map (\<lambda>d. (default_text (sd_subchain_id d), default_text (sd_store_id d)))
       (filter (\<lambda>d. sd_source_file_id d = sid) (c_staged_documents (w_catalogue w))))"

definition promotion_scopes :: "nat \<Rightarrow> warehouse \<Rightarrow> ((ustr \<times> ustr) \<times> int) list" where
  "promotion_scopes sid w =
     (let incoming = map promotion_scope (promotion_incoming sid w) in
      map (\<lambda>s. (s, int (count_list incoming s))) (remdups incoming) @
      map (\<lambda>s. (s, 0)) (filter (\<lambda>s. s \<notin> set incoming) (promotion_document_scopes sid w)))"

definition open_in_scope :: "nat \<Rightarrow> nat \<Rightarrow> ustr \<times> ustr \<Rightarrow> PromotionRow \<Rightarrow> bool" where
  "open_in_scope rid pid s r \<longleftrightarrow> pn_retailer_id r = rid \<and> pn_portal_id r = pid \<and>
     (pn_subchain_code r, pn_source_scope_store_code r) = s \<and> open_promotion r"

definition validate_full_promotion_snapshot :: "nat \<Rightarrow> nat \<Rightarrow> nat \<Rightarrow> int \<Rightarrow> rat \<Rightarrow> unit command" where
  "validate_full_promotion_snapshot sid rid pid minimum_full_records maximum_drop_fraction =
     abind (aget (\<lambda>w. map (\<lambda>(s, n). (n, int (length (filter (open_in_scope rid pid s) (w_promotions w))))) (promotion_scopes sid w))) (\<lambda>rows.
     if sum_list (map fst rows) < minimum_full_records then araise (exn_of SnapshotValidationError)
     else if list_ex (\<lambda>(incoming, prior). drop_exceeded incoming prior maximum_drop_fraction) rows then araise (exn_of SnapshotValidationError)
     else areturn ())"

section \<open>Items and stores of promotions\<close>

definition promotion_item :: "nat \<Rightarrow> nat \<Rightarrow> nat \<Rightarrow> int \<Rightarrow> nat \<Rightarrow> ustr \<Rightarrow> ItemRow" where
  "promotion_item sid rid pid applied_at n code =
     \<lparr>it_id = n, it_retailer_id = rid, it_portal_id = pid, it_source_item_code = code, it_gtin = None, it_item_type = None,
      it_name = code, it_manufacturer_name = None, it_manufacturer_country = None, it_manufacturer_description = None,
      it_unit_quantity = None, it_quantity = None, it_unit_of_measure = None, it_is_weighted = None, it_quantity_in_package = None,
      it_first_seen_at = applied_at, it_last_seen_at = applied_at, it_last_source_file_id = sid\<rparr>"

definition see_item :: "ItemRow \<Rightarrow> ItemRow \<Rightarrow> ItemRow" where
  "see_item i new = i\<lparr>it_last_seen_at := it_last_seen_at new, it_last_source_file_id := it_last_source_file_id new\<rparr>"

definition ensure_promotion_items :: "nat \<Rightarrow> nat \<Rightarrow> nat \<Rightarrow> int \<Rightarrow> ustr list \<Rightarrow> unit query" where
  "ensure_promotion_items sid rid pid applied_at codes =
     abind (fresh_ids (length codes)) (\<lambda>n.
     let news = numbered n (promotion_item sid rid pid applied_at) codes in
     abind (amodify (\<lambda>c. c\<lparr>c_items := upsert item_key see_item news (c_items c)\<rparr>)) (\<lambda>_.
     abind (aget (\<lambda>c. list_all (\<lambda>i. item_key i \<in> set (map item_key news) \<longrightarrow> item_row_ok i) (c_items c))) constraint))"

definition promotion_store :: "nat \<Rightarrow> nat \<Rightarrow> nat \<Rightarrow> int \<Rightarrow> nat \<Rightarrow> ustr \<times> ustr \<times> ustr \<Rightarrow> StoreRow" where
  "promotion_store sid rid pid applied_at n s = (case s of (chain, subchain, code) \<Rightarrow>
     \<lparr>st_id = n, st_retailer_id = rid, st_portal_id = pid, st_chain_code = chain, st_subchain_code = subchain,
      st_source_store_code = code, st_audit_number = None, st_store_type = None, st_chain_name = None,
      st_subchain_name = None, st_name = lit ''Store '' @ code, st_address = None, st_city = None,
      st_postal_code = None, st_is_active = True, st_first_seen_at = applied_at, st_last_seen_at = applied_at,
      st_last_source_file_id = Some sid\<rparr>)"

definition see_store :: "StoreRow \<Rightarrow> StoreRow \<Rightarrow> StoreRow" where
  "see_store s new = s\<lparr>st_is_active := True, st_last_seen_at := st_last_seen_at new, st_last_source_file_id := st_last_source_file_id new\<rparr>"

text \<open>An insert that meets the same key twice raises (PostgreSQL's \<^verbatim>\<open>cardinality_violation\<close>).\<close>

definition ensure_promotion_stores :: "nat \<Rightarrow> nat \<Rightarrow> nat \<Rightarrow> int \<Rightarrow> (ustr \<times> ustr \<times> ustr) list \<Rightarrow> unit query" where
  "ensure_promotion_stores sid rid pid applied_at stores =
     abind (fresh_ids (length stores)) (\<lambda>n.
     let news = numbered n (promotion_store sid rid pid applied_at) stores in
     abind (constraint (distinct (map store_key news))) (\<lambda>_.
     abind (amodify (\<lambda>c. c\<lparr>c_stores := upsert store_key see_store news (c_stores c)\<rparr>)) (\<lambda>_.
     abind (aget (\<lambda>c. list_all (\<lambda>s. store_key s \<in> set (map store_key news) \<longrightarrow> store_row_ok s) (c_stores c))) constraint)))"

definition promotion_item_codes :: "nat \<Rightarrow> warehouse \<Rightarrow> ustr list" where
  "promotion_item_codes sid w = remdups (map smi_source_item_code (filter (\<lambda>i. smi_source_file_id i = sid) (w_staged_promotion_items w)))"

definition promotion_store_codes :: "nat \<Rightarrow> warehouse \<Rightarrow> (ustr \<times> ustr \<times> ustr) list" where
  "promotion_store_codes sid w =
     remdups (concat (map (\<lambda>s. map (\<lambda>p. (sm_chain_id p, sm_subchain_id p, sms_source_store_code s))
       (filter (\<lambda>p. sm_source_file_id p = sid \<and> sm_record_index p = sms_record_index s) (w_staged_promotions w)))
       (filter (\<lambda>s. sms_source_file_id s = sid) (w_staged_promotion_stores w))))"

definition ensure_promotion_items_and_stores :: "nat \<Rightarrow> nat \<Rightarrow> nat \<Rightarrow> int \<Rightarrow> unit command" where
  "ensure_promotion_items_and_stores sid rid pid applied_at =
     abind (aget (promotion_item_codes sid)) (\<lambda>codes.
     abind (on_catalogue (ensure_promotion_items sid rid pid applied_at codes)) (\<lambda>_.
     abind (aget (promotion_store_codes sid)) (\<lambda>stores.
     on_catalogue (ensure_promotion_stores sid rid pid applied_at stores))))"

section \<open>Rows of promotions\<close>

definition replaced_promotion :: "nat \<Rightarrow> nat \<Rightarrow> StagedPromotion list \<Rightarrow> PromotionRow \<Rightarrow> bool" where
  "replaced_promotion rid pid incoming r \<longleftrightarrow> open_promotion r \<and>
     list_ex (\<lambda>p. promotion_key r = (rid, pid, staged_promotion_key p) \<and> pn_fingerprint r \<noteq> sm_fingerprint p) incoming"

definition seen_promotion :: "nat \<Rightarrow> nat \<Rightarrow> StagedPromotion list \<Rightarrow> PromotionRow \<Rightarrow> bool" where
  "seen_promotion rid pid incoming r \<longleftrightarrow> open_promotion r \<and>
     list_ex (\<lambda>p. promotion_key r = (rid, pid, staged_promotion_key p) \<and> pn_fingerprint r = sm_fingerprint p) incoming"

definition close_promotions :: "nat \<Rightarrow> nat \<Rightarrow> int \<Rightarrow> StagedPromotion list \<Rightarrow> unit command" where
  "close_promotions rid pid applied_at incoming =
     (let changed = replaced_promotion rid pid incoming in
      abind (aget (\<lambda>w. list_all (\<lambda>r. changed r \<longrightarrow> pn_valid_from r < applied_at) (w_promotions w))) (\<lambda>ok.
      abind (constraint ok) (\<lambda>_.
      amodify (\<lambda>w. w\<lparr>w_promotions := update_where changed (\<lambda>r. r\<lparr>pn_valid_to := Some applied_at\<rparr>) (w_promotions w)\<rparr>))))"

definition observe_promotions :: "nat \<Rightarrow> nat \<Rightarrow> nat \<Rightarrow> int \<Rightarrow> StagedPromotion list \<Rightarrow> unit command" where
  "observe_promotions sid rid pid applied_at incoming =
     amodify (\<lambda>w. w\<lparr>w_promotions := update_where (seen_promotion rid pid incoming)
       (\<lambda>r. r\<lparr>pn_last_observed_at := applied_at, pn_source_file_id := sid\<rparr>) (w_promotions w)\<rparr>)"

definition new_promotion :: "nat \<Rightarrow> nat \<Rightarrow> nat \<Rightarrow> int \<Rightarrow> nat \<Rightarrow> StagedPromotion \<Rightarrow> PromotionRow" where
  "new_promotion sid rid pid applied_at n p =
     \<lparr>pn_id = n, pn_retailer_id = rid, pn_portal_id = pid, pn_subchain_code = sm_subchain_id p,
      pn_source_promotion_id = sm_source_promotion_id p, pn_source_scope_store_code = sm_source_scope_store_code p,
      pn_terms = sm_terms p, pn_fingerprint = sm_fingerprint p, pn_source_file_id = sid, pn_valid_from = applied_at,
      pn_valid_to = None, pn_last_observed_at = applied_at\<rparr>"

definition ordered :: "'a::linorder option \<Rightarrow> 'a option \<Rightarrow> bool" where
  "ordered x y \<longleftrightarrow> (case (x, y) of (Some a, Some b) \<Rightarrow> a \<le> b | _ \<Rightarrow> True)"

definition promotion_row_ok :: "PromotionRow \<Rightarrow> bool" where
  "promotion_row_ok r \<longleftrightarrow> (let t = pn_terms r in
     length (pn_fingerprint r) = 64 \<and> list_all (\<lambda>d. is_ascii_digit d \<or> 97 \<le> d \<and> d \<le> 102) (pn_fingerprint r) \<and>
     ordered (pt_starts_at t) (pt_ends_at t) \<and> nonnegative (pt_minimum_quantity t) \<and> nonnegative (pt_maximum_quantity t) \<and>
     ordered (pt_minimum_quantity t) (pt_maximum_quantity t) \<and> nonnegative (pt_discount_rate t) \<and>
     nonnegative (pt_minimum_purchase t) \<and> nonnegative (pt_discounted_price t) \<and> nonnegative (pt_discounted_unit_price t) \<and>
     (case pt_minimum_items_offered t of None \<Rightarrow> True | Some n \<Rightarrow> 0 \<le> n))"

definition unique_open :: "PromotionRow list \<Rightarrow> bool" where
  "unique_open rows \<longleftrightarrow> distinct (map promotion_key (filter open_promotion rows))"

definition fresh_promotion_ids :: "nat \<Rightarrow> nat command" where
  "fresh_promotion_ids n = on_catalogue (fresh_ids n)"

definition insert_promotions :: "nat \<Rightarrow> nat \<Rightarrow> nat \<Rightarrow> int \<Rightarrow> StagedPromotion list \<Rightarrow> unit command" where
  "insert_promotions sid rid pid applied_at incoming =
     abind (aget (\<lambda>w. filter (\<lambda>p. current_promotion rid pid w p = None) incoming)) (\<lambda>ps.
     abind (fresh_promotion_ids (length ps)) (\<lambda>n.
     let news = numbered n (new_promotion sid rid pid applied_at) ps in
     abind (constraint (list_all promotion_row_ok news)) (\<lambda>_.
     abind (amodify (\<lambda>w. w\<lparr>w_promotions := w_promotions w @ news\<rparr>)) (\<lambda>_.
     abind (aget (\<lambda>w. unique_open (w_promotions w))) constraint))))"

section \<open>Relations\<close>

text \<open>The children of the incoming promotions, each with the open row of its promotion.\<close>

definition parent_of :: "nat \<Rightarrow> nat \<Rightarrow> StagedPromotion list \<Rightarrow> warehouse \<Rightarrow> int \<Rightarrow> PromotionRow option" where
  "parent_of rid pid incoming w i =
     (case find (\<lambda>p. sm_record_index p = i) incoming of None \<Rightarrow> None | Some p \<Rightarrow> current_promotion rid pid w p)"

definition attached_items :: "nat \<Rightarrow> nat \<Rightarrow> nat \<Rightarrow> StagedPromotion list \<Rightarrow> warehouse \<Rightarrow> PromotionItemRow list" where
  "attached_items sid rid pid incoming w =
     List.map_filter (\<lambda>i. if smi_source_file_id i \<noteq> sid then None else
       case (parent_of rid pid incoming w (smi_record_index i),
             find (\<lambda>x. item_key x = (rid, pid, smi_source_item_code i)) (c_items (w_catalogue w))) of
         (Some r, Some x) \<Rightarrow> Some \<lparr>pi_promotion_id = pn_id r, pi_retailer_item_id = it_id x, pi_item_type = smi_item_type i, pi_is_gift = smi_is_gift i\<rparr>
       | _ \<Rightarrow> None) (w_staged_promotion_items w)"

definition attached_stores :: "nat \<Rightarrow> nat \<Rightarrow> nat \<Rightarrow> StagedPromotion list \<Rightarrow> warehouse \<Rightarrow> (nat \<times> nat) list" where
  "attached_stores sid rid pid incoming w =
     List.map_filter (\<lambda>s. if sms_source_file_id s \<noteq> sid then None else
       case parent_of rid pid incoming w (sms_record_index s) of
         None \<Rightarrow> None
       | Some r \<Rightarrow> map_option (\<lambda>x. (pn_id r, st_id x)) (store_of rid pid (pn_subchain_code r, sms_source_store_code s) (w_catalogue w)))
       (w_staged_promotion_stores w)"

definition attached_clubs :: "nat \<Rightarrow> nat \<Rightarrow> nat \<Rightarrow> StagedPromotion list \<Rightarrow> warehouse \<Rightarrow> (nat \<times> ustr) list" where
  "attached_clubs sid rid pid incoming w =
     List.map_filter (\<lambda>s. if smc_source_file_id s \<noteq> sid then None else
       map_option (\<lambda>r. (pn_id r, smc_club_id s)) (parent_of rid pid incoming w (smc_record_index s))) (w_staged_promotion_clubs w)"

definition attach_promotion_relations :: "nat \<Rightarrow> nat \<Rightarrow> nat \<Rightarrow> StagedPromotion list \<Rightarrow> unit command" where
  "attach_promotion_relations sid rid pid incoming =
     abind (amodify (\<lambda>w. w\<lparr>w_promotion_items :=
       insert_missing (\<lambda>x. (pi_promotion_id x, pi_retailer_item_id x)) (attached_items sid rid pid incoming w) (w_promotion_items w)\<rparr>)) (\<lambda>_.
     abind (amodify (\<lambda>w. w\<lparr>w_promotion_stores := insert_missing id (attached_stores sid rid pid incoming w) (w_promotion_stores w)\<rparr>)) (\<lambda>_.
     amodify (\<lambda>w. w\<lparr>w_promotion_clubs := insert_missing id (attached_clubs sid rid pid incoming w) (w_promotion_clubs w)\<rparr>)))"

section \<open>What a full file no longer lists\<close>

definition absent_promotion :: "nat \<Rightarrow> nat \<Rightarrow> nat \<Rightarrow> StagedPromotion list \<Rightarrow> warehouse \<Rightarrow> PromotionRow \<Rightarrow> bool" where
  "absent_promotion sid rid pid incoming w r \<longleftrightarrow>
     pn_retailer_id r = rid \<and> pn_portal_id r = pid \<and> open_promotion r \<and>
     (pn_subchain_code r, pn_source_scope_store_code r) \<in> set (map promotion_scope incoming @ promotion_document_scopes sid w) \<and>
     \<not> list_ex (\<lambda>p. (pn_subchain_code r, pn_source_promotion_id r, pn_source_scope_store_code r) = staged_promotion_key p) incoming"

definition end_absent_promotions :: "nat \<Rightarrow> nat \<Rightarrow> nat \<Rightarrow> int \<Rightarrow> StagedPromotion list \<Rightarrow> int command" where
  "end_absent_promotions sid rid pid applied_at incoming =
     abind (aget (absent_promotion sid rid pid incoming)) (\<lambda>absent.
     abind (aget (\<lambda>w. (list_all (\<lambda>r. absent r \<longrightarrow> pn_valid_from r < applied_at) (w_promotions w),
       int (length (filter absent (w_promotions w)))))) (\<lambda>(ok, n).
     abind (constraint ok) (\<lambda>_.
     abind (amodify (\<lambda>w. w\<lparr>w_promotions := update_where absent
       (\<lambda>r. r\<lparr>pn_valid_to := Some applied_at, pn_last_observed_at := applied_at, pn_source_file_id := sid\<rparr>) (w_promotions w)\<rparr>)) (\<lambda>_.
     areturn n))))"

section \<open>The whole file\<close>

definition apply_promotion_rows :: "nat \<Rightarrow> nat \<Rightarrow> nat \<Rightarrow> int \<Rightarrow> bool \<Rightarrow> StagedPromotion list \<Rightarrow> ApplySummary command" where
  "apply_promotion_rows sid rid pid applied_at is_full incoming =
     abind (aget (promotion_counts rid pid incoming)) (\<lambda>(ins, upd, unch).
     abind (close_promotions rid pid applied_at incoming) (\<lambda>_.
     abind (observe_promotions sid rid pid applied_at incoming) (\<lambda>_.
     abind (insert_promotions sid rid pid applied_at incoming) (\<lambda>_.
     abind (attach_promotion_relations sid rid pid incoming) (\<lambda>_.
     abind (if is_full then end_absent_promotions sid rid pid applied_at incoming else areturn 0) (\<lambda>absent.
     areturn \<lparr>inserted = ins, updated = upd, unchanged = unch, unavailable = absent, history_events = ins + upd + absent\<rparr>))))))"

definition apply_promotions :: "nat \<Rightarrow> nat \<Rightarrow> nat \<Rightarrow> int \<Rightarrow> bool \<Rightarrow> int \<Rightarrow> rat \<Rightarrow> ApplySummary command" where
  "apply_promotions sid rid pid applied_at is_full minimum_full_records maximum_drop_fraction =
     abind (if is_full then validate_full_promotion_snapshot sid rid pid minimum_full_records maximum_drop_fraction else areturn ()) (\<lambda>_.
     abind (ensure_promotion_items_and_stores sid rid pid applied_at) (\<lambda>_.
     abind (aget (promotion_incoming sid)) (\<lambda>incoming.
     apply_promotion_rows sid rid pid applied_at is_full incoming)))"

end
