(* ===== verification/Promotion_Run.thy ===== *)
theory Promotion_Run
  imports Promotion_Apply
begin

text \<open>
  What applying a file of promotions does: the open rows afterwards are those of the file in its scopes and the old ones elsewhere,
  and what was in force before the instant of the file stays.
\<close>

section \<open>Effects\<close>

lemma on_catalogue_eq: "on_catalogue m w = (Inr x, w') \<longleftrightarrow> (\<exists>c. m (w_catalogue w) = (Inr x, c) \<and> w' = w\<lparr>w_catalogue := c\<rparr>)"
  by (auto simp: on_catalogue_def split: prod.splits)

text \<open>The rows after the changed ones are closed and the others observed.\<close>

definition touched :: "nat \<Rightarrow> nat \<Rightarrow> nat \<Rightarrow> int \<Rightarrow> StagedPromotion list \<Rightarrow> PromotionRow \<Rightarrow> PromotionRow" where
  "touched sid rid pid applied_at incoming r =
     (if replaced_promotion rid pid incoming r then r\<lparr>pn_valid_to := Some applied_at\<rparr>
      else if seen_promotion rid pid incoming r then r\<lparr>pn_last_observed_at := applied_at, pn_source_file_id := sid\<rparr> else r)"

definition ended :: "nat \<Rightarrow> int \<Rightarrow> PromotionRow \<Rightarrow> PromotionRow" where
  "ended sid applied_at r = r\<lparr>pn_valid_to := Some applied_at, pn_last_observed_at := applied_at, pn_source_file_id := sid\<rparr>"

lemma touched_simps [simp]:
  "promotion_key (touched sid rid pid applied_at incoming r) = promotion_key r"
  "pn_fingerprint (touched sid rid pid applied_at incoming r) = pn_fingerprint r"
  "pn_terms (touched sid rid pid applied_at incoming r) = pn_terms r"
  "pn_id (touched sid rid pid applied_at incoming r) = pn_id r"
  "pn_valid_from (touched sid rid pid applied_at incoming r) = pn_valid_from r"
  "open_promotion (touched sid rid pid applied_at incoming r) \<longleftrightarrow> open_promotion r \<and> \<not> replaced_promotion rid pid incoming r"
  by (simp_all add: touched_def promotion_key_def open_promotion_def)

lemma ended_simps [simp]:
  "promotion_key (ended sid applied_at r) = promotion_key r" "pn_terms (ended sid applied_at r) = pn_terms r"
  "pn_id (ended sid applied_at r) = pn_id r"
  "pn_valid_from (ended sid applied_at r) = pn_valid_from r" "\<not> open_promotion (ended sid applied_at r)"
  by (simp_all add: ended_def promotion_key_def open_promotion_def)

lemma close_observe: "update_where (seen_promotion rid pid inc) (\<lambda>r. r\<lparr>pn_last_observed_at := applied_at, pn_source_file_id := sid\<rparr>)
    (update_where (replaced_promotion rid pid inc) (\<lambda>r. r\<lparr>pn_valid_to := Some applied_at\<rparr>) rows) = map (touched sid rid pid applied_at inc) rows"
  by (auto simp: update_where_def touched_def seen_promotion_def open_promotion_def)

lemma new_promotion_simps [simp]:
  "promotion_key (new_promotion sid rid pid applied_at n p) = (rid, pid, staged_promotion_key p)"
  "pn_fingerprint (new_promotion sid rid pid applied_at n p) = sm_fingerprint p"
  "pn_terms (new_promotion sid rid pid applied_at n p) = sm_terms p"
  "pn_valid_from (new_promotion sid rid pid applied_at n p) = applied_at"
  "pn_id (new_promotion sid rid pid applied_at n p) = n"
  "open_promotion (new_promotion sid rid pid applied_at n p)"
  by (simp_all add: new_promotion_def promotion_key_def staged_promotion_key_def open_promotion_def)

definition promotion_rows :: "nat \<Rightarrow> nat \<Rightarrow> nat \<Rightarrow> int \<Rightarrow> nat \<Rightarrow> StagedPromotion list \<Rightarrow> PromotionRow list \<Rightarrow> PromotionRow list" where
  "promotion_rows sid rid pid applied_at n incoming rows = map (touched sid rid pid applied_at incoming) rows @
     numbered n (new_promotion sid rid pid applied_at) (filter (\<lambda>p. \<not> list_ex (\<lambda>r. promotion_key r = (rid, pid, staged_promotion_key p) \<and>
       open_promotion r \<and> \<not> replaced_promotion rid pid incoming r) rows) incoming)"

lemma find_none_ex: "find p xs = None \<longleftrightarrow> \<not> list_ex p xs"
  by (auto simp: find_None_iff list_ex_iff)

lemma promotion_document_scopes_cong: "c_staged_documents (w_catalogue w') = c_staged_documents (w_catalogue w) \<Longrightarrow>
    promotion_document_scopes sid w' = promotion_document_scopes sid w"
  by (simp add: promotion_document_scopes_def)

lemma absent_cong: "c_staged_documents (w_catalogue w') = c_staged_documents (w_catalogue w) \<Longrightarrow>
    absent_promotion sid rid pid inc w' = absent_promotion sid rid pid inc w"
  by (rule ext) (simp only: absent_promotion_def promotion_document_scopes_cong [of w' w])

lemma close_observe_effect:
  "abind (close_promotions rid pid applied_at inc) (\<lambda>_. observe_promotions sid rid pid applied_at inc) w = (Inr u, w') \<longleftrightarrow>
     list_all (\<lambda>r. replaced_promotion rid pid inc r \<longrightarrow> pn_valid_from r < applied_at) (w_promotions w) \<and>
     w' = w\<lparr>w_promotions := map (touched sid rid pid applied_at inc) (w_promotions w)\<rparr>"
  by (auto simp: close_promotions_def observe_promotions_def effect_simps Let_def close_observe)

lemma insert_promotions_effect:
  assumes "insert_promotions sid rid pid applied_at inc w1 = (Inr u, w')"
    "w_promotions w1 = map (touched sid rid pid applied_at inc) rows"
  shows "w_promotions w' = promotion_rows sid rid pid applied_at (c_next_id (w_catalogue w1)) inc rows" "unique_open (w_promotions w')"
    "\<exists>m. w_catalogue w' = (w_catalogue w1)\<lparr>c_next_id := m\<rparr>" "w_watermarks w' = w_watermarks w1" "w_contents w' = w_contents w1"
    "\<forall>r\<in>set (w_promotions w') - set (w_promotions w1). promotion_row_ok r"
proof -
  have curr: "current_promotion rid pid w1 p = None \<longleftrightarrow> \<not> list_ex (\<lambda>r. promotion_key r = (rid, pid, staged_promotion_key p) \<and>
       open_promotion r \<and> \<not> replaced_promotion rid pid inc r) rows" for p
    by (simp add: current_promotion_def find_none_ex assms(2) list_ex_iff)
  show "w_promotions w' = promotion_rows sid rid pid applied_at (c_next_id (w_catalogue w1)) inc rows" "unique_open (w_promotions w')"
    "\<exists>m. w_catalogue w' = (w_catalogue w1)\<lparr>c_next_id := m\<rparr>" "w_watermarks w' = w_watermarks w1" "w_contents w' = w_contents w1"
    "\<forall>r\<in>set (w_promotions w') - set (w_promotions w1). promotion_row_ok r"
    using assms(1) by (auto simp: insert_promotions_def effect_simps Let_def fresh_promotion_ids_def on_catalogue_eq curr promotion_rows_def assms(2) list_all_iff)
qed

lemma attach_effect:
  "attach_promotion_relations sid rid pid inc w = (Inr u, w') \<Longrightarrow>
     \<exists>is ss cs. w' = w\<lparr>w_promotion_items := is, w_promotion_stores := ss, w_promotion_clubs := cs\<rparr>"
  by (auto simp: attach_promotion_relations_def effect_simps)

lemma end_absent_effect:
  "end_absent_promotions sid rid pid applied_at inc w = (Inr n, w') \<longleftrightarrow>
     list_all (\<lambda>r. absent_promotion sid rid pid inc w r \<longrightarrow> pn_valid_from r < applied_at) (w_promotions w) \<and>
     n = int (length (filter (absent_promotion sid rid pid inc w) (w_promotions w))) \<and>
     w' = w\<lparr>w_promotions := update_where (absent_promotion sid rid pid inc w) (ended sid applied_at) (w_promotions w)\<rparr>"
  by (auto simp: end_absent_promotions_def effect_simps areturn_def ended_def [abs_def])

lemma apply_promotion_rows_states:
  assumes "apply_promotion_rows sid rid pid applied_at is_full inc w = (Inr s, w')"
  obtains w1 w2 w3 where
    "abind (close_promotions rid pid applied_at inc) (\<lambda>_. observe_promotions sid rid pid applied_at inc) w = (Inr (), w1)"
    "insert_promotions sid rid pid applied_at inc w1 = (Inr (), w2)" "attach_promotion_relations sid rid pid inc w2 = (Inr (), w3)"
    "(if is_full then end_absent_promotions sid rid pid applied_at inc else areturn 0) w3 = (Inr (unavailable s), w')"
    "inserted s = fst (promotion_counts rid pid inc w)" "updated s = fst (snd (promotion_counts rid pid inc w))"
    "unchanged s = snd (snd (promotion_counts rid pid inc w))" "history_events s = inserted s + updated s + unavailable s"
  using assms by (auto simp: apply_promotion_rows_def effect_simps areturn_def split: prod.splits)

section \<open>The rows of a key\<close>

definition open_row :: "PromotionRow list \<Rightarrow> nat \<times> nat \<times> ustr \<times> ustr \<times> ustr \<Rightarrow> PromotionRow option" where
  "open_row rows k = find (\<lambda>r. promotion_key r = k \<and> open_promotion r) rows"

definition in_force :: "int \<Rightarrow> PromotionRow \<Rightarrow> bool" where
  "in_force x r \<longleftrightarrow> pn_valid_from r \<le> x \<and> (case pn_valid_to r of None \<Rightarrow> True | Some u \<Rightarrow> x < u)"

definition terms_at :: "PromotionRow list \<Rightarrow> nat \<times> nat \<times> ustr \<times> ustr \<times> ustr \<Rightarrow> int \<Rightarrow> promotion_terms list" where
  "terms_at rows k x = map pn_terms (filter (\<lambda>r. promotion_key r = k \<and> in_force x r) rows)"

lemma open_row_unique:
  assumes "unique_open rows" "r \<in> set rows" "open_promotion r" "promotion_key r = k"
  shows "open_row rows k = Some r"
proof -
  have "find (\<lambda>y. promotion_key y = promotion_key r) (filter open_promotion rows) = Some r"
    using assms by (intro find_key) (simp_all add: unique_open_def)
  moreover have "find (\<lambda>y. promotion_key y = k) (filter open_promotion xs) = open_row xs k" for xs
    by (induction xs) (auto simp: open_row_def)
  ultimately show ?thesis using assms(4) by simp
qed

lemma open_row_in: "open_row rows k = Some r \<Longrightarrow> r \<in> set rows \<and> open_promotion r \<and> promotion_key r = k"
  by (auto simp: open_row_def dest: find_in)

lemma open_row_none: "open_row rows k = None \<longleftrightarrow> (\<forall>r\<in>set rows. open_promotion r \<longrightarrow> promotion_key r \<noteq> k)"
  by (auto simp: open_row_def find_None_iff)

lemma unique_open_update:
  assumes "unique_open rows" "\<And>r. promotion_key (f r) = promotion_key r" "\<And>r. \<not> open_promotion (f r)"
  shows "unique_open (update_where p f rows)"
proof -
  have "filter open_promotion (update_where p f rows) = filter (\<lambda>r. open_promotion r \<and> \<not> p r) rows"
    by (induction rows) (auto simp: update_where_def assms(3))
  moreover have "filter (\<lambda>r. open_promotion r \<and> \<not> p r) rows = filter (\<lambda>r. \<not> p r) (filter open_promotion rows)" by (induction rows) auto
  ultimately show ?thesis using distinct_map_filter [OF assms(1) [unfolded unique_open_def], of "\<lambda>r. \<not> p r"]
    by (simp only: unique_open_def)
qed

text \<open>The past of every key stays.\<close>

lemma terms_at_append: "terms_at (rows @ rows') k x = terms_at rows k x @ terms_at rows' k x"
  by (simp add: terms_at_def)

lemma terms_at_map:
  assumes "\<And>r. promotion_key (f r) = promotion_key r" "\<And>r. pn_terms (f r) = pn_terms r" "\<And>r. in_force x (f r) = in_force x r"
  shows "terms_at (map f rows) k x = terms_at rows k x"
  by (induction rows) (simp_all add: terms_at_def assms)

lemma in_force_touched: "x < applied_at \<Longrightarrow> in_force x (touched sid rid pid applied_at inc r) = in_force x r"
    "x < applied_at \<Longrightarrow> in_force x (ended sid applied_at r) = in_force x r \<or> \<not> open_promotion r"
    "x < applied_at \<Longrightarrow> \<not> in_force x (new_promotion sid rid pid applied_at n p)"
  by (auto simp: in_force_def touched_def ended_def replaced_promotion_def seen_promotion_def open_promotion_def new_promotion_def)

lemma terms_at_past:
  assumes "x < applied_at"
  shows "terms_at (promotion_rows sid rid pid applied_at n inc rows) k x = terms_at rows k x"
    "(\<And>r. p r \<Longrightarrow> open_promotion r) \<Longrightarrow> terms_at (update_where p (ended sid applied_at) rows) k x = terms_at rows k x"
proof -
  have "terms_at (numbered m (new_promotion sid rid pid applied_at) ps) k x = []" for m ps
    using in_force_touched(3) [OF assms] by (auto simp: terms_at_def filter_empty_conv dest!: set_numbered)
  then show "terms_at (promotion_rows sid rid pid applied_at n inc rows) k x = terms_at rows k x"
    by (simp add: promotion_rows_def terms_at_append terms_at_map in_force_touched(1) [OF assms])
  show "(\<And>r. p r \<Longrightarrow> open_promotion r) \<Longrightarrow> terms_at (update_where p (ended sid applied_at) rows) k x = terms_at rows k x"
    unfolding update_where_def by (rule terms_at_map) (use in_force_touched(2) [OF assms] in auto)
qed

lemma counts_total: "fst (promotion_counts rid pid inc w) + fst (snd (promotion_counts rid pid inc w)) + snd (snd (promotion_counts rid pid inc w)) = int (length inc)"
proof -
  have "promotion_changed rid pid w p \<Longrightarrow> current_promotion rid pid w p \<noteq> None" for p by (auto simp: promotion_changed_def split: option.splits)
  then show ?thesis unfolding promotion_counts_def by (induction inc) auto
qed

lemma replaced_key:
  assumes "distinct (map staged_promotion_key inc)" "p \<in> set inc" "promotion_key r = (rid, pid, staged_promotion_key p)"
  shows "replaced_promotion rid pid inc r \<longleftrightarrow> open_promotion r \<and> pn_fingerprint r \<noteq> sm_fingerprint p"
proof -
  have "q = p" if "q \<in> set inc" "staged_promotion_key p = staged_promotion_key q" for q
    using assms(1,2) that by (auto simp: distinct_map dest: inj_onD)
  then show ?thesis using assms(2,3) unfolding replaced_promotion_def list_ex_iff by (metis Pair_inject)
qed

text \<open>A listed promotion has an open row with its fingerprint, also after the absent ones are ended.\<close>

lemma listed_row:
  assumes "distinct (map staged_promotion_key inc)" "p \<in> set inc"
  obtains r where "r \<in> set (promotion_rows sid rid pid applied_at n inc rows)" "open_promotion r"
    "promotion_key r = (rid, pid, staged_promotion_key p)" "pn_fingerprint r = sm_fingerprint p"
proof -
  let ?new = "filter (\<lambda>p. \<not> list_ex (\<lambda>r. promotion_key r = (rid, pid, staged_promotion_key p) \<and> open_promotion r \<and>
       \<not> replaced_promotion rid pid inc r) rows) inc"
  show thesis
  proof (cases "p \<in> set ?new")
    case True
    from in_numbered [OF this] obtain m where "new_promotion sid rid pid applied_at m p \<in> set (numbered n (new_promotion sid rid pid applied_at) ?new)"
      by blast
    then show ?thesis by (intro that) (auto simp: promotion_rows_def)
  next
    case False
    then obtain r where r: "r \<in> set rows" "promotion_key r = (rid, pid, staged_promotion_key p)" "open_promotion r" "\<not> replaced_promotion rid pid inc r"
      using assms(2) by (auto simp: list_ex_iff)
    then have "touched sid rid pid applied_at inc r \<in> set (promotion_rows sid rid pid applied_at n inc rows)" by (simp add: promotion_rows_def)
    then show ?thesis using r replaced_key [OF assms r(2)] by (intro that [of "touched sid rid pid applied_at inc r"]) simp_all
  qed
qed

text \<open>Rows of a key that is not listed are untouched.\<close>

lemma unlisted_rows:
  assumes "\<And>p. p \<in> set inc \<Longrightarrow> k \<noteq> (rid, pid, staged_promotion_key p)"
  shows "open_row (promotion_rows sid rid pid applied_at n inc rows) k = open_row rows k"
proof -
  have t: "touched sid rid pid applied_at inc r = r" "\<not> replaced_promotion rid pid inc r" if "promotion_key r = k" for r
    using assms that by (auto simp: touched_def replaced_promotion_def seen_promotion_def list_ex_iff)
  have "find (\<lambda>r. promotion_key r = k \<and> open_promotion r) (map (touched sid rid pid applied_at inc) rows) =
      find (\<lambda>r. promotion_key r = k \<and> open_promotion r) rows"
    by (induction rows) (use t in auto)
  moreover have "find (\<lambda>r. promotion_key r = k \<and> open_promotion r) (numbered n (new_promotion sid rid pid applied_at) ps) = None"
    if sub: "set ps \<subseteq> set inc" for ps
  proof -
    have "promotion_key r \<noteq> k" if r: "r \<in> set (numbered n (new_promotion sid rid pid applied_at) ps)" for r
    proof -
      from set_numbered [OF r] obtain i q where q: "q \<in> set ps" "r = new_promotion sid rid pid applied_at i q" by blast
      have "k \<noteq> (rid, pid, staged_promotion_key q)" by (rule assms) (rule subsetD [OF sub q(1)])
      then show ?thesis unfolding q(2) new_promotion_simps(1) by (rule not_sym)
    qed
    then show ?thesis unfolding find_None_iff by blast
  qed
  ultimately show ?thesis by (simp add: open_row_def promotion_rows_def find_append split: option.split)
qed

text \<open>The promotions that a file ends: open ones of the portal in its scopes that it does not list.\<close>

definition ends_key :: "nat \<Rightarrow> nat \<Rightarrow> nat \<Rightarrow> StagedPromotion list \<Rightarrow> warehouse \<Rightarrow> nat \<times> nat \<times> ustr \<times> ustr \<times> ustr \<Rightarrow> bool" where
  "ends_key sid rid pid inc w k \<longleftrightarrow> (case k of (r, p, a, b, c) \<Rightarrow> r = rid \<and> p = pid \<and>
     (a, c) \<in> set (map promotion_scope inc @ promotion_document_scopes sid w) \<and> (a, b, c) \<notin> set (map staged_promotion_key inc))"

lemma absent_key: "absent_promotion sid rid pid inc w r \<longleftrightarrow> open_promotion r \<and> ends_key sid rid pid inc w (promotion_key r)"
  by (auto simp: absent_promotion_def ends_key_def promotion_key_def list_ex_iff image_iff)

lemma open_row_end:
  assumes "unique_open rows"
  shows "open_row (update_where (absent_promotion sid rid pid inc w) (ended sid applied_at) rows) k =
     (if ends_key sid rid pid inc w k then None else open_row rows k)"
  unfolding open_row_def by (induction rows) (auto simp: update_where_def absent_key)

lemma incoming_keys: "distinct (map staged_promotion_key (promotion_incoming sid w))"
  unfolding promotion_incoming_def by (rule distinct_distinct_on)

lemma ensure_effect:
  assumes "ensure_promotion_items_and_stores sid rid pid applied_at w = (Inr u, w')"
  shows "\<exists>c. w' = w\<lparr>w_catalogue := c\<rparr> \<and> c_staged_documents c = c_staged_documents (w_catalogue w)"
  using assms by (auto simp: ensure_promotion_items_and_stores_def ensure_promotion_items_def ensure_promotion_stores_def effect_simps on_catalogue_eq Let_def)

lemma validate_promotion_keeps: "validate_full_promotion_snapshot sid rid pid m d w = (Inr u, w') \<Longrightarrow> w' = w"
  by (auto simp: validate_full_promotion_snapshot_def effect_simps areturn_def araise_def split: if_splits)

lemma apply_promotions_states:
  assumes "apply_promotions sid rid pid applied_at is_full m d w = (Inr s, w')"
  obtains c where "apply_promotion_rows sid rid pid applied_at is_full (promotion_incoming sid w) (w\<lparr>w_catalogue := c\<rparr>) = (Inr s, w')"
    "ensure_promotion_items_and_stores sid rid pid applied_at w = (Inr (), w\<lparr>w_catalogue := c\<rparr>)"
    "c_staged_documents c = c_staged_documents (w_catalogue w)"
proof -
  obtain w1 where w1: "ensure_promotion_items_and_stores sid rid pid applied_at w = (Inr (), w1)"
      "apply_promotion_rows sid rid pid applied_at is_full (promotion_incoming sid w1) w1 = (Inr s, w')"
    using assms by (auto simp: apply_promotions_def effect_simps areturn_def dest!: validate_promotion_keeps split: if_splits)
  from ensure_effect [OF w1(1)] obtain c where c: "w1 = w\<lparr>w_catalogue := c\<rparr>" "c_staged_documents c = c_staged_documents (w_catalogue w)" by blast
  have "promotion_incoming sid w1 = promotion_incoming sid w" by (simp add: c(1) promotion_incoming_def)
  then show thesis using that [of c] w1 c by simp
qed

lemma new_rows_count:
  assumes "unique_open rows" "rows = w_promotions w" "distinct (map staged_promotion_key inc)"
  shows "int (length (promotion_rows sid rid pid applied_at n inc rows)) =
     int (length rows) + fst (promotion_counts rid pid inc w) + fst (snd (promotion_counts rid pid inc w))"
proof -
  have cur: "current_promotion rid pid w p = open_row rows (rid, pid, staged_promotion_key p)" for p
    by (simp add: current_promotion_def open_row_def assms(2))
  have "\<not> list_ex (\<lambda>r. promotion_key r = (rid, pid, staged_promotion_key p) \<and> open_promotion r \<and> \<not> replaced_promotion rid pid inc r) rows \<longleftrightarrow>
      current_promotion rid pid w p = None \<or> promotion_changed rid pid w p" (is "?new p \<longleftrightarrow> _") if p: "p \<in> set inc" for p
  proof (cases "open_row rows (rid, pid, staged_promotion_key p)")
    case None
    then show ?thesis by (auto simp: cur open_row_none list_ex_iff)
  next
    case (Some r)
    from open_row_in [OF this] have r: "r \<in> set rows" "open_promotion r" "promotion_key r = (rid, pid, staged_promotion_key p)" by auto
    have one: "x = r" if "x \<in> set rows" "open_promotion x" "promotion_key x = (rid, pid, staged_promotion_key p)" for x
      using open_row_unique [OF assms(1) that] Some by simp
    have "?new p \<longleftrightarrow> replaced_promotion rid pid inc r"
    proof
      assume "?new p"
      then show "replaced_promotion rid pid inc r" using r unfolding list_ex_iff by blast
    next
      assume "replaced_promotion rid pid inc r"
      then show "?new p" using one unfolding list_ex_iff by metis
    qed
    then show ?thesis using Some replaced_key [OF assms(3) p r(3)] r(2) by (simp add: cur promotion_changed_def)
  qed
  then have "filter ?new inc = filter (\<lambda>p. current_promotion rid pid w p = None \<or> promotion_changed rid pid w p) inc"
    by (intro filter_cong) simp_all
  moreover have "length (filter (\<lambda>p. current_promotion rid pid w p = None \<or> promotion_changed rid pid w p) inc) =
      length (filter (\<lambda>p. current_promotion rid pid w p = None) inc) + length (filter (promotion_changed rid pid w) inc)"
    by (induction inc) (auto simp: promotion_changed_def)
  ultimately show ?thesis by (simp add: promotion_rows_def promotion_counts_def)
qed

text \<open>The rows after a file of promotions.\<close>

lemma apply_promotions_rows:
  assumes run: "apply_promotions sid rid pid applied_at is_full m d w = (Inr s, w')" and inc: "inc = promotion_incoming sid w"
  obtains R n c where "R = promotion_rows sid rid pid applied_at n inc (w_promotions w)" "unique_open R"
    "w_promotions w' = (if is_full then update_where (absent_promotion sid rid pid inc w) (ended sid applied_at) R else R)"
    "unique_open (w_promotions w')"
    "inserted s = fst (promotion_counts rid pid inc (w\<lparr>w_catalogue := c\<rparr>))" "updated s = fst (snd (promotion_counts rid pid inc (w\<lparr>w_catalogue := c\<rparr>)))"
    "unchanged s = snd (snd (promotion_counts rid pid inc (w\<lparr>w_catalogue := c\<rparr>)))" "history_events s = inserted s + updated s + unavailable s"
proof -
  from apply_promotions_states [OF run] obtain c where
    c: "apply_promotion_rows sid rid pid applied_at is_full inc (w\<lparr>w_catalogue := c\<rparr>) = (Inr s, w')"
      "c_staged_documents c = c_staged_documents (w_catalogue w)" unfolding inc by blast
  let ?w = "w\<lparr>w_catalogue := c\<rparr>" and ?rows = "w_promotions w"
  from apply_promotion_rows_states [OF c(1)] obtain w1 w2 w3 where
    s: "abind (close_promotions rid pid applied_at inc) (\<lambda>_. observe_promotions sid rid pid applied_at inc) ?w = (Inr (), w1)"
    "insert_promotions sid rid pid applied_at inc w1 = (Inr (), w2)" "attach_promotion_relations sid rid pid inc w2 = (Inr (), w3)"
    "(if is_full then end_absent_promotions sid rid pid applied_at inc else areturn 0) w3 = (Inr (unavailable s), w')"
    "inserted s = fst (promotion_counts rid pid inc ?w)" "updated s = fst (snd (promotion_counts rid pid inc ?w))"
    "unchanged s = snd (snd (promotion_counts rid pid inc ?w))" "history_events s = inserted s + updated s + unavailable s" .
  have w1: "w1 = ?w\<lparr>w_promotions := map (touched sid rid pid applied_at inc) ?rows\<rparr>" using s(1) unfolding close_observe_effect by simp
  then have "w_promotions w1 = map (touched sid rid pid applied_at inc) ?rows" by simp
  note ins = insert_promotions_effect [OF s(2) this]
  define R where "R = promotion_rows sid rid pid applied_at (c_next_id (w_catalogue w1)) inc ?rows"
  have w3: "w_promotions w3 = R" "w_catalogue w3 = w_catalogue w2" using attach_effect [OF s(3)] ins(1) by (auto simp: R_def)
  have uR: "unique_open R" using ins(1,2) by (simp add: R_def)
  have docs: "c_staged_documents (w_catalogue w3) = c_staged_documents (w_catalogue w)"
    using ins(3) w3(2) c(2) by (auto simp: w1)
  have w': "w_promotions w' = (if is_full then update_where (absent_promotion sid rid pid inc w) (ended sid applied_at) R else R)"
    using s(4) w3(1) absent_cong [OF docs, of sid rid pid inc] by (cases is_full) (simp_all add: end_absent_effect areturn_def)
  have u: "unique_open (w_promotions w')" unfolding w' using uR by (auto intro: unique_open_update)
  show thesis by (rule that [OF R_def uR w' u s(5-8)])
qed

section \<open>Properties\<close>

text \<open>
  C9. After a file of promotions is applied, every promotion that it lists has an open row with the listed fingerprint; when the file is full,
  every other promotion of its scopes is ended; all other open rows are the same. At every
  instant before the file the same terms were in force as before. The summary counts every listed promotion once and
  every new row and every end as an event.
\<close>
theorem promotions_applied:
  assumes "unique_open (w_promotions w)" and run: "apply_promotions sid rid pid applied_at is_full m d w = (Inr s, w')"
    and inc: "inc = promotion_incoming sid w"
  shows "unique_open (w_promotions w') \<and>
     (\<forall>p\<in>set inc. map_option pn_fingerprint (open_row (w_promotions w') (rid, pid, staged_promotion_key p)) = Some (sm_fingerprint p)) \<and>
     (\<forall>k. k \<notin> (\<lambda>p. (rid, pid, staged_promotion_key p)) ` set inc \<longrightarrow> open_row (w_promotions w') k =
        (if is_full \<and> ends_key sid rid pid inc w k then None else open_row (w_promotions w) k)) \<and>
     (\<forall>k x. x < applied_at \<longrightarrow> terms_at (w_promotions w') k x = terms_at (w_promotions w) k x) \<and>
     inserted s + updated s + unchanged s = int (length inc) \<and>
     history_events s = int (length (w_promotions w')) - int (length (w_promotions w)) + unavailable s"
proof -
  let ?rows = "w_promotions w"
  from apply_promotions_rows [OF run inc] obtain R n c where R_def: "R = promotion_rows sid rid pid applied_at n inc ?rows" and uR: "unique_open R"
    and w': "w_promotions w' = (if is_full then update_where (absent_promotion sid rid pid inc w) (ended sid applied_at) R else R)"
    and u: "unique_open (w_promotions w')"
    and counts: "inserted s = fst (promotion_counts rid pid inc (w\<lparr>w_catalogue := c\<rparr>))" "updated s = fst (snd (promotion_counts rid pid inc (w\<lparr>w_catalogue := c\<rparr>)))"
      "unchanged s = snd (snd (promotion_counts rid pid inc (w\<lparr>w_catalogue := c\<rparr>)))" "history_events s = inserted s + updated s + unavailable s" .
  let ?w = "w\<lparr>w_catalogue := c\<rparr>"
  have keys: "distinct (map staged_promotion_key inc)" unfolding inc by (rule incoming_keys)
  have row: "open_row (w_promotions w') k = (if is_full \<and> ends_key sid rid pid inc w k then None else open_row R k)" for k
    unfolding w' using open_row_end [OF uR] by simp
  have listed: "map_option pn_fingerprint (open_row (w_promotions w') (rid, pid, staged_promotion_key p)) = Some (sm_fingerprint p)"
    if p: "p \<in> set inc" for p
  proof -
    obtain r where r: "r \<in> set R" "open_promotion r" "promotion_key r = (rid, pid, staged_promotion_key p)" "pn_fingerprint r = sm_fingerprint p"
      using listed_row [OF keys p] unfolding R_def by blast
    have "\<not> ends_key sid rid pid inc w (rid, pid, staged_promotion_key p)" using imageI [OF p, of staged_promotion_key] by (auto simp: ends_key_def split: prod.splits)
    then show ?thesis using open_row_unique [OF uR r(1-3)] r(4) by (simp add: row)
  qed
  have other: "open_row R k = open_row ?rows k" if "k \<notin> (\<lambda>p. (rid, pid, staged_promotion_key p)) ` set inc" for k
    unfolding R_def by (rule unlisted_rows) (use that in blast)
  have past: "terms_at (w_promotions w') k x = terms_at ?rows k x" if "x < applied_at" for k x
  proof -
    have "terms_at (update_where (absent_promotion sid rid pid inc w) (ended sid applied_at) R) k x = terms_at R k x"
      by (rule terms_at_past(2) [OF that]) (simp add: absent_key)
    then show ?thesis unfolding w' by (simp add: R_def terms_at_past(1) [OF that])
  qed
  have "int (length (w_promotions w')) = int (length ?rows) + inserted s + updated s"
    unfolding counts(1,2) using new_rows_count [OF assms(1) _ keys, of ?w] by (simp add: w' R_def update_where_def)
  then show ?thesis using u listed other past row counts counts_total [of rid pid inc ?w] by simp
qed

text \<open>Two open promotions; a full file changes the first and no longer lists the second.\<close>

definition demo_terms :: promotion_terms where
  "demo_terms = \<lparr>pt_description = None, pt_discount_kind = UNKNOWN_DISCOUNT, pt_starts_at = None, pt_ends_at = None, pt_reward_type = None,
     pt_allows_multiple_discounts = None, pt_minimum_quantity = Some 1, pt_maximum_quantity = Some 2, pt_discount_rate = None,
     pt_minimum_purchase = None, pt_discounted_price = Some 5, pt_discounted_unit_price = None, pt_minimum_items_offered = None,
     pt_additional_restrictions = None, pt_remarks = None, pt_is_active = None\<rparr>"

definition demo_promotion :: "nat \<Rightarrow> string \<Rightarrow> nat \<Rightarrow> StagedPromotion" where
  "demo_promotion sid code digit = \<lparr>sm_source_file_id = sid, sm_record_index = 0, sm_chain_id = lit ''7290'', sm_subchain_id = lit ''1'',
     sm_source_scope_store_code = lit ''7'', sm_source_promotion_id = lit code, sm_terms = demo_terms, sm_fingerprint = replicate 64 digit\<rparr>"

definition demo_warehouse :: warehouse where
  "demo_warehouse = \<lparr>w_catalogue = empty_catalogue\<lparr>c_next_id := 60\<rparr>,
     w_promotions = [new_promotion 4 10 20 2 50 (demo_promotion 4 ''a'' 48), new_promotion 4 10 20 2 51 (demo_promotion 4 ''b'' 48)],
     w_promotion_items = [], w_promotion_stores = [], w_promotion_clubs = [], w_staged_promotions = [demo_promotion 6 ''a'' 49],
     w_staged_promotion_items = [\<lparr>smi_source_file_id = 6, smi_record_index = 0, smi_item_index = 0, smi_source_item_code = lit ''8'',
       smi_item_type = None, smi_is_gift = False\<rparr>],
     w_staged_promotion_stores = [], w_staged_promotion_clubs = [], w_watermarks = [], w_contents = []\<rparr>"

lemmas promotion_eval = apply_promotions_def validate_full_promotion_snapshot_def promotion_scopes_def promotion_document_scopes_def open_in_scope_def
  promotion_scope_def default_text_def drop_exceeded_def ensure_promotion_items_and_stores_def promotion_item_codes_def promotion_store_codes_def
  ensure_promotion_items_def promotion_item_def see_item_def item_key_def item_row_ok_def gtin_digits_def nonnegative_def
  ensure_promotion_stores_def promotion_store_def see_store_def store_key_def store_row_ok_def promotion_incoming_def staged_promotion_key_def
  apply_promotion_rows_def promotion_counts_def current_promotion_def promotion_changed_def promotion_key_def open_promotion_def
  close_promotions_def replaced_promotion_def seen_promotion_def observe_promotions_def insert_promotions_def fresh_promotion_ids_def
  promotion_row_ok_def ordered_def unique_open_def new_promotion_def attach_promotion_relations_def attached_items_def attached_stores_def
  attached_clubs_def parent_of_def end_absent_promotions_def absent_promotion_def on_catalogue_def

lemma demo_warehouse_run:
  obtains s w' where "apply_promotions 6 10 20 7 True 1 1 demo_warehouse = (Inr s, w')" "updated s = 1" "unavailable s = 1"
    "map (\<lambda>r. (pn_source_promotion_id r, pn_valid_to r)) (w_promotions w') = [(lit ''a'', Some 7), (lit ''b'', Some 7), (lit ''a'', None)]"
    "length (w_promotion_items w') = 1"
proof -
  have "(case apply_promotions 6 10 20 7 True 1 1 demo_warehouse of (r, w') \<Rightarrow>
      (map_sum (\<lambda>_. ()) (\<lambda>s. (updated s, unavailable s)) r, map (\<lambda>r. (pn_source_promotion_id r, pn_valid_to r)) (w_promotions w'), length (w_promotion_items w'))) =
      (Inr (1, 1), [(lit ''a'', Some 7), (lit ''b'', Some 7), (lit ''a'', None)], 1)"
    by (simp add: demo_warehouse_def demo_promotion_def demo_terms_def empty_catalogue_def promotion_eval gtin_eval is_ascii_digit_def abind_eval lit_def
      list_all_iff del: set_filter cong: abind_weak_cong)
  then show thesis using that by (cases "apply_promotions 6 10 20 7 True 1 1 demo_warehouse"; cases "fst (apply_promotions 6 10 20 7 True 1 1 demo_warehouse)") auto
qed

theorem promotions_applied_witness:
  "\<exists>s w'. apply_promotions 6 10 20 7 True 1 1 demo_warehouse = (Inr s, w') \<and> updated s = 1 \<and> unavailable s = 1 \<and> unique_open (w_promotions w') \<and>
     map (\<lambda>r. (pn_source_promotion_id r, pn_valid_to r)) (w_promotions w') = [(lit ''a'', Some 7), (lit ''b'', Some 7), (lit ''a'', None)]"
proof -
  obtain s w' where r: "apply_promotions 6 10 20 7 True 1 1 demo_warehouse = (Inr s, w')" "updated s = 1" "unavailable s = 1"
    "map (\<lambda>r. (pn_source_promotion_id r, pn_valid_to r)) (w_promotions w') = [(lit ''a'', Some 7), (lit ''b'', Some 7), (lit ''a'', None)]"
    by (rule demo_warehouse_run)
  have u: "unique_open (w_promotions demo_warehouse)"
    by (simp add: demo_warehouse_def unique_open_def staged_promotion_key_def demo_promotion_def lit_def)
  note d = conjunct1 [OF promotions_applied [OF u r(1) refl]]
  show ?thesis by (intro exI conjI) (rule r d)+
qed

end
