(* ===== verification/Price_History.thy ===== *)
theory Price_History
  imports Price_Apply
begin

text \<open>
  Prices and availability as timelines. The history tables are interpreted as timelines per item and store; the
  statements of \<open>Price_Apply\<close> record the incoming values in them and keep the current rows equal to their ends.
\<close>

section \<open>The histories as timelines\<close>

definition price_span :: "PriceHistory \<Rightarrow> price span" where
  "price_span h = (ph_valid_from h, ph_valid_to h, (ph_item_price h, ph_unit_of_measure_price h, ph_allow_discount h))"

definition availability_span :: "AvailabilityHistory \<Rightarrow> availability span" where
  "availability_span h = (ah_valid_from h, ah_valid_to h, (ah_is_available h, ah_item_status h))"

definition price_line :: "catalogue \<Rightarrow> nat \<times> nat \<Rightarrow> price span list" where
  "price_line c = timeline ph_key price_span (c_price_history c)"

definition availability_line :: "catalogue \<Rightarrow> nat \<times> nat \<Rightarrow> availability span list" where
  "availability_line c = timeline ah_key availability_span (c_availability_history c)"

interpretation prices: history_table ph_key price_span close_price
  by unfold_locales (simp_all add: ph_key_def price_span_def close_price_def)

interpretation availabilities: history_table ah_key availability_span close_availability
  by unfold_locales (simp_all add: ah_key_def availability_span_def close_availability_def)

definition price_inv :: "catalogue \<Rightarrow> bool" where
  "price_inv c \<longleftrightarrow> (\<forall>k. timeline_ok (price_line c k) \<and> current_price c k = last_value (price_line c k))"

definition availability_inv :: "catalogue \<Rightarrow> bool" where
  "availability_inv c \<longleftrightarrow> distinct (map av_key (c_availability c)) \<and>
     (\<forall>k. timeline_ok (availability_line c k) \<and> current_availability c k = last_value (availability_line c k))"

lemma price_invD: "price_inv c \<Longrightarrow> timeline_ok (price_line c k)" "price_inv c \<Longrightarrow> current_price c k = last_value (price_line c k)"
  unfolding price_inv_def by blast+

lemma availability_invD:
  "availability_inv c \<Longrightarrow> distinct (map av_key (c_availability c))"
  "availability_inv c \<Longrightarrow> timeline_ok (availability_line c k)"
  "availability_inv c \<Longrightarrow> current_availability c k = last_value (availability_line c k)"
  unfolding availability_inv_def by blast+

text \<open>The tables that the rows of a file do not write.\<close>

definition rest_of :: "catalogue \<Rightarrow> catalogue" where
  "rest_of c = c\<lparr>c_next_id := 0, c_prices := [], c_price_history := [], c_availability := [], c_availability_history := []\<rparr>"

section \<open>Prices\<close>

definition price_inc :: "MappedPrice list \<Rightarrow> ((nat \<times> nat) \<times> price) list" where
  "price_inc mapped = map (\<lambda>m. (mp_key m, price_of_staged (mp_staged m))) mapped"

definition availability_inc :: "MappedPrice list \<Rightarrow> ((nat \<times> nat) \<times> availability) list" where
  "availability_inc mapped = map (\<lambda>m. (mp_key m, availability_of_staged (mp_staged m))) mapped"

lemma map_of_inc:
  assumes "distinct (map mp_key mapped)"
  shows "map_of (map (\<lambda>m. (mp_key m, f m)) mapped) k = Some v \<longleftrightarrow> (\<exists>m\<in>set mapped. mp_key m = k \<and> f m = v)"
  using assms by (subst map_of_eq_Some_iff) (auto simp: comp_def)

lemma changed_keys:
  assumes "distinct (map mp_key mapped)"
  shows "k \<in> set (map mp_key (filter (\<lambda>m. cur (mp_key m) \<noteq> None \<and> cur (mp_key m) \<noteq> Some (f m)) mapped)) \<longleftrightarrow>
     (\<exists>v w. map_of (map (\<lambda>m. (mp_key m, f m)) mapped) k = Some v \<and> cur k = Some w \<and> v \<noteq> w)"
  unfolding map_of_inc [OF assms] by auto

lemma changed_prices:
  assumes "distinct (map mp_key mapped)"
  shows "k \<in> set (map mp_key (filter (price_changed c) mapped)) \<longleftrightarrow>
     (\<exists>v w. map_of (price_inc mapped) k = Some v \<and> current_price c k = Some w \<and> v \<noteq> w)"
  unfolding price_inc_def price_changed_def [abs_def] price_differs_def by (rule changed_keys [OF assms])

lemma price_history_effect:
  assumes "abind (close_price_history applied_at mapped) (\<lambda>_. insert_price_history sid applied_at mapped) c = (Inr n, c')"
  shows "c_price_history c' = update_where (\<lambda>h. ph_key h \<in> set (map mp_key (filter (price_changed c) mapped)) \<and> ph_valid_to h = None)
       (close_price applied_at) (c_price_history c) @
       numbered (c_next_id c) (new_price_history sid applied_at) (filter (price_differs c) mapped) \<and>
     list_all (\<lambda>h. ph_key h \<in> set (map mp_key (filter (price_changed c) mapped)) \<and> ph_valid_to h = None \<longrightarrow>
       ph_valid_from h < applied_at) (c_price_history c) \<and>
     n = int (length (filter (price_differs c) mapped)) \<and>
     rest_of c' = rest_of c \<and> c_prices c' = c_prices c \<and> c_availability c' = c_availability c \<and>
     c_availability_history c' = c_availability_history c"
proof -
  have d: "price_differs (c\<lparr>c_price_history := x\<rparr>) = price_differs c" for x
    by (simp add: price_differs_def current_price_def fun_eq_iff)
  show ?thesis using assms
    by (auto simp: close_price_history_def insert_price_history_def effect_simps areturn_def d rest_of_def)
qed

lemma new_price_rows:
  "map (\<lambda>h. (ph_key h, price_span h)) (numbered n (new_price_history sid applied_at) (filter (price_differs c) mapped)) =
     map (\<lambda>(k, v). (k, (applied_at, None, v))) (filter (\<lambda>(k, v). current_price c k \<noteq> Some v) (price_inc mapped))"
proof -
  have "map (\<lambda>h. (ph_key h, price_span h)) (numbered n (new_price_history sid applied_at) (filter (price_differs c) mapped)) =
      map (\<lambda>m. (mp_key m, (applied_at, None, price_of_staged (mp_staged m)))) (filter (price_differs c) mapped)"
    by (rule map_numbered) (simp add: new_price_history_def ph_key_def mp_key_def price_span_def price_of_staged_def)
  then show ?thesis by (simp add: price_inc_def filter_map comp_def price_differs_def [abs_def])
qed

lemma price_rows_recorded:
  assumes inv: "price_inv c" and d: "distinct (map mp_key mapped)"
    and run: "abind (close_price_history applied_at mapped) (\<lambda>_. insert_price_history sid applied_at mapped) c = (Inr n, c')"
  shows "price_line c' k = observe applied_at (price_inc mapped) (price_line c) k" "timeline_ok (price_line c' k)"
proof -
  let ?K = "set (map mp_key (filter (price_changed c) mapped))"
  note e = price_history_effect [OF run]
  have ok: "timeline_ok (timeline ph_key price_span (c_price_history c) k)"
    and cur: "current_price c k = last_value (timeline ph_key price_span (c_price_history c) k)"
    using inv unfolding price_inv_def price_line_def by blast+
  have dk: "distinct (map fst (price_inc mapped))" using d by (simp add: price_inc_def comp_def)
  have h: "c_price_history c' = update_where (\<lambda>h. ph_key h \<in> ?K \<and> fst (snd (price_span h)) = None) (close_price applied_at) (c_price_history c) @
      numbered (c_next_id c) (new_price_history sid applied_at) (filter (price_differs c) mapped)"
    using e by (simp add: price_span_def)
  show line: "price_line c' k = observe applied_at (price_inc mapped) (price_line c) k"
    unfolding price_line_def observe_def h
    by (rule prices.timeline_observe [OF ok cur dk changed_prices [OF d] new_price_rows])
  have "fst (last (price_line c k)) < applied_at"
    if v: "map_of (price_inc mapped) k = Some v" "last_value (price_line c k) = Some w" "w \<noteq> v" for v w
  proof -
    have "k \<in> ?K" unfolding changed_prices [OF d] using v cur unfolding price_line_def by metis
    then have "list_all (\<lambda>h. ph_key h = k \<and> fst (snd (price_span h)) = None \<longrightarrow> fst (price_span h) < applied_at) (c_price_history c)"
      using e by (auto simp: list_all_iff price_span_def)
    moreover have "price_line c k \<noteq> []" using v(2) by (auto simp: last_value_def split: if_splits)
    ultimately show ?thesis using open_row_start [OF ok] unfolding price_line_def by blast
  qed
  then show "timeline_ok (price_line c' k)" unfolding line using ok by (intro observe_ok) (auto simp: price_line_def)
qed

lemma upsert_prices_effect:
  assumes "upsert_current_prices sid applied_at mapped c = (Inr u, c')"
  shows "current_price c' k = (case map_of (price_inc mapped) k of None \<Rightarrow> current_price c k | Some v \<Rightarrow> Some v)"
    "rest_of c' = rest_of c \<and> c_price_history c' = c_price_history c \<and> c_availability c' = c_availability c \<and>
       c_availability_history c' = c_availability_history c"
proof -
  let ?news = "numbered (c_next_id c) (new_current_price sid applied_at) mapped"
  have p: "c_prices c' = upsert cp_key merge_current_price ?news (c_prices c)"
    using assms by (auto simp: upsert_current_prices_def effect_simps)
  have m: "cp_key (merge_current_price r n) = cp_key r" "price_of_current (merge_current_price r n) = price_of_current n" for r n
    by (simp_all add: merge_current_price_def cp_key_def price_of_current_def)
  have "map_option price_of_current (find (\<lambda>r. cp_key r = k) ?news) = map_of (price_inc mapped) k"
    unfolding price_inc_def
    by (rule find_numbered) (simp_all add: new_current_price_def cp_key_def mp_key_def price_of_current_def price_of_staged_def)
  then show "current_price c' k = (case map_of (price_inc mapped) k of None \<Rightarrow> current_price c k | Some v \<Rightarrow> Some v)"
    unfolding current_price_def p find_upsert [of cp_key merge_current_price, OF m(1)]
    by (auto simp: m(2) split: option.splits)
  show "rest_of c' = rest_of c \<and> c_price_history c' = c_price_history c \<and> c_availability c' = c_availability c \<and>
       c_availability_history c' = c_availability_history c"
    using assms by (auto simp: upsert_current_prices_def effect_simps rest_of_def)
qed

section \<open>Availability\<close>

lemma close_availability_effect:
  "close_availability_history applied_at keys c = (Inr u, c') \<longleftrightarrow>
     list_all (\<lambda>h. ah_key h \<in> set keys \<and> ah_valid_to h = None \<longrightarrow> ah_valid_from h < applied_at) (c_availability_history c) \<and>
     c' = c\<lparr>c_availability_history := update_where (\<lambda>h. ah_key h \<in> set keys \<and> ah_valid_to h = None)
       (close_availability applied_at) (c_availability_history c)\<rparr>"
  by (auto simp: close_availability_history_def effect_simps)

lemma insert_availability_effect:
  "insert_availability_history sid applied_at news c = (Inr u, c') \<Longrightarrow>
     c' = c\<lparr>c_next_id := c_next_id c + length news, c_availability_history := c_availability_history c @
       numbered (c_next_id c) (new_availability_history sid applied_at) news\<rparr>"
  by (auto simp: insert_availability_history_def effect_simps)

text \<open>Closing the open rows of \<open>keys\<close> and inserting \<open>inc\<close>, as far as it differs from the current values.\<close>

lemma availability_recorded:
  assumes inv: "availability_inv c" and d: "distinct (map fst inc)"
    and K: "k \<in> set keys \<longleftrightarrow> (\<exists>v w. map_of inc k = Some v \<and> current_availability c k = Some w \<and> v \<noteq> w)"
    and news: "news = filter (\<lambda>(k, v). current_availability c k \<noteq> Some v) inc"
    and close: "close_availability_history applied_at keys c = (Inr (), c1)"
    and ins: "insert_availability_history sid applied_at news c1 = (Inr (), c2)"
  shows "availability_line c2 k = observe applied_at inc (availability_line c) k" "timeline_ok (availability_line c2 k)"
proof -
  have ok: "timeline_ok (timeline ah_key availability_span (c_availability_history c) k)"
    and cur: "current_availability c k = last_value (timeline ah_key availability_span (c_availability_history c) k)"
    using inv unfolding availability_inv_def availability_line_def by blast+
  have rows: "map (\<lambda>h. (ah_key h, availability_span h)) (numbered n (new_availability_history sid applied_at) news) =
      map (\<lambda>(k, v). (k, (applied_at, None, v))) (filter (\<lambda>(k, v). current_availability c k \<noteq> Some v) inc)" for n
    unfolding news [symmetric]
    by (rule map_numbered) (simp add: new_availability_history_def ah_key_def availability_span_def split: prod.split)
  have h: "c_availability_history c2 = update_where (\<lambda>h. ah_key h \<in> set keys \<and> fst (snd (availability_span h)) = None)
      (close_availability applied_at) (c_availability_history c) @ numbered (c_next_id c1) (new_availability_history sid applied_at) news"
    using close insert_availability_effect [OF ins] by (simp add: close_availability_effect availability_span_def)
  show line: "availability_line c2 k = observe applied_at inc (availability_line c) k"
    unfolding availability_line_def observe_def h
    by (rule availabilities.timeline_observe [OF ok cur d K rows])
  have "fst (last (availability_line c k)) < applied_at"
    if v: "map_of inc k = Some v" "last_value (availability_line c k) = Some w" "w \<noteq> v" for v w
  proof -
    have "k \<in> set keys" unfolding K using v cur unfolding availability_line_def by metis
    then have "list_all (\<lambda>h. ah_key h = k \<and> fst (snd (availability_span h)) = None \<longrightarrow> fst (availability_span h) < applied_at) (c_availability_history c)"
      using close by (auto simp: list_all_iff availability_span_def close_availability_effect)
    moreover have "availability_line c k \<noteq> []" using v(2) by (auto simp: last_value_def split: if_splits)
    ultimately show ?thesis using open_row_start [OF ok] unfolding availability_line_def by blast
  qed
  then show "timeline_ok (availability_line c2 k)" unfolding line using ok by (intro observe_ok) (auto simp: availability_line_def)
qed

lemma upsert_availability_effect:
  assumes "upsert_current_availability sid applied_at mapped c = (Inr u, c')"
  shows "current_availability c' k = (case map_of (availability_inc mapped) k of None \<Rightarrow> current_availability c k | Some v \<Rightarrow> Some v)"
    "rest_of c' = rest_of c \<and> c_prices c' = c_prices c \<and> c_price_history c' = c_price_history c \<and>
       c_availability_history c' = c_availability_history c"
    "distinct (map av_key (c_availability c)) \<Longrightarrow> distinct (map mp_key mapped) \<Longrightarrow> distinct (map av_key (c_availability c'))"
proof -
  let ?news = "numbered (c_next_id c) (new_current_availability sid applied_at) mapped"
  have p: "c_availability c' = upsert av_key merge_availability ?news (c_availability c)"
    using assms by (auto simp: upsert_current_availability_def effect_simps)
  have m: "av_key (merge_availability r n) = av_key r" "av_is_available (merge_availability r n) = av_is_available n"
      "av_item_status (merge_availability r n) = av_item_status n" for r n
    by (simp_all add: merge_availability_def av_key_def)
  have "map_option (\<lambda>a. (av_is_available a, av_item_status a)) (find (\<lambda>r. av_key r = k) ?news) = map_of (availability_inc mapped) k"
    unfolding availability_inc_def
    by (rule find_numbered) (simp_all add: new_current_availability_def av_key_def mp_key_def availability_of_staged_def)
  then show "current_availability c' k = (case map_of (availability_inc mapped) k of None \<Rightarrow> current_availability c k | Some v \<Rightarrow> Some v)"
    unfolding current_availability_def p find_upsert [of av_key merge_availability, OF m(1)]
    by (auto simp: m split: option.splits)
  show "rest_of c' = rest_of c \<and> c_prices c' = c_prices c \<and> c_price_history c' = c_price_history c \<and>
       c_availability_history c' = c_availability_history c"
    using assms by (auto simp: upsert_current_availability_def effect_simps rest_of_def)
  have "map av_key ?news = map mp_key mapped" by (rule map_numbered) (simp add: new_current_availability_def av_key_def mp_key_def)
  then show "distinct (map av_key (c_availability c)) \<Longrightarrow> distinct (map mp_key mapped) \<Longrightarrow> distinct (map av_key (c_availability c'))"
    unfolding p by (intro distinct_upsert m(1)) simp_all
qed

lemma incoming_availability_recorded:
  assumes inv: "availability_inv c" and d: "distinct (map mp_key mapped)"
    and run: "apply_incoming_availability sid applied_at mapped c = (Inr r, c')"
  shows "availability_line c' k = observe applied_at (availability_inc mapped) (availability_line c) k"
    "availability_inv c'"
    "rest_of c' = rest_of c \<and> c_prices c' = c_prices c \<and> c_price_history c' = c_price_history c"
    "fst r = int (length (c_availability_history c')) - int (length (c_availability_history c))"
proof -
  let ?news = "filter (availability_differs c) mapped"
  let ?changed = "filter (\<lambda>m. current_availability c (mp_key m) \<noteq> None) ?news"
  let ?inc = "availability_inc mapped"
  obtain c1 c2 where s: "close_availability_history applied_at (map mp_key ?changed) c = (Inr (), c1)"
      "insert_availability_history sid applied_at (map (\<lambda>m. (mp_key m, availability_of_staged (mp_staged m))) ?news) c1 = (Inr (), c2)"
      "upsert_current_availability sid applied_at mapped c2 = (Inr (), c')" "fst r = int (length ?news)"
    using run by (auto simp: apply_incoming_availability_def effect_simps areturn_def)
  have news: "map (\<lambda>m. (mp_key m, availability_of_staged (mp_staged m))) ?news = filter (\<lambda>(k, v). current_availability c k \<noteq> Some v) ?inc"
    by (simp add: availability_inc_def filter_map comp_def availability_differs_def [abs_def])
  have K: "k \<in> set (map mp_key ?changed) \<longleftrightarrow> (\<exists>v w. map_of ?inc k = Some v \<and> current_availability c k = Some w \<and> v \<noteq> w)" for k
    unfolding availability_inc_def availability_differs_def filter_filter
    using changed_keys [OF d, of k "current_availability c" "\<lambda>m. availability_of_staged (mp_staged m)"] by (simp add: conj_commute)
  have di: "distinct (map fst ?inc)" using d by (simp add: availability_inc_def comp_def)
  note rec = availability_recorded [OF inv di K news s(1,2)] and up = upsert_availability_effect [OF s(3)]
  obtain h where h: "c1 = c\<lparr>c_availability_history := h\<rparr>" "length h = length (c_availability_history c)"
    using s(1) by (auto simp: close_availability_effect update_where_def)
  obtain n h' where c2: "c2 = c\<lparr>c_next_id := n, c_availability_history := h'\<rparr>" "length h' = length (c_availability_history c) + length ?news"
    using insert_availability_effect [OF s(2)] h by auto
  have hist: "c_availability_history c' = h'" using up(2) by (simp add: c2)
  have line: "availability_line c' = availability_line c2" by (simp add: availability_line_def hist c2)
  show l: "availability_line c' k = observe applied_at ?inc (availability_line c) k" for k by (simp only: line rec(1))
  have cur: "current_availability c2 = current_availability c" "c_availability c2 = c_availability c"
    by (simp_all add: c2 current_availability_def fun_eq_iff)
  show "availability_inv c'" unfolding availability_inv_def
  proof (intro conjI allI)
    show "distinct (map av_key (c_availability c'))" using up(3) d inv by (simp add: cur(2) availability_inv_def)
    fix k show "timeline_ok (availability_line c' k)" by (simp only: line rec(2))
    show "current_availability c' k = last_value (availability_line c' k)"
      unfolding up(1) cur l last_value_observe using availability_invD(3) [OF inv] by (simp split: option.split)
  qed
  show "rest_of c' = rest_of c \<and> c_prices c' = c_prices c \<and> c_price_history c' = c_price_history c"
    using up(2) by (simp add: c2 rest_of_def)
  show "fst r = int (length (c_availability_history c')) - int (length (c_availability_history c))"
    by (simp add: hist c2 s(4))
qed

section \<open>Absent items\<close>

definition scope_stores :: "nat \<Rightarrow> nat \<Rightarrow> nat \<Rightarrow> MappedPrice list \<Rightarrow> catalogue \<Rightarrow> nat set" where
  "scope_stores sid rid pid mapped c =
     set (map mp_store mapped @ List.map_filter (\<lambda>s. map_option st_id (store_of rid pid s c)) (document_scopes sid c))"

lemma current_availability_row:
  "distinct (map av_key (c_availability c)) \<Longrightarrow> a \<in> set (c_availability c) \<Longrightarrow>
     current_availability c (av_key a) = Some (av_is_available a, av_item_status a)"
  by (simp add: current_availability_def find_key)

lemma missing_keys:
  assumes "distinct (map av_key (c_availability c))"
  shows "k \<in> set (missing_price_keys sid rid pid mapped c) \<longleftrightarrow>
     snd k \<in> scope_stores sid rid pid mapped c \<and> k \<notin> set (map mp_key mapped) \<and> (\<exists>st. current_availability c k = Some (True, st))"
proof -
  have "(\<exists>a\<in>set (c_availability c). av_is_available a \<and> av_key a = k) \<longleftrightarrow> (\<exists>st. current_availability c k = Some (True, st))"
    using current_availability_row [OF assms] by (auto simp: current_availability_def dest: find_in)
  then show ?thesis by (auto simp: missing_price_keys_def scope_stores_def Let_def av_key_def)
qed

lemma reconcile_recorded:
  assumes inv: "availability_inv c" and run: "reconcile_absent_prices sid rid pid applied_at mapped c = (Inr n, c')"
  defines "missing \<equiv> missing_price_keys sid rid pid mapped c"
  shows "availability_line c' k = observe applied_at (map (\<lambda>k. (k, (False, None))) missing) (availability_line c) k"
    "availability_inv c'"
    "rest_of c' = rest_of c \<and> c_prices c' = c_prices c \<and> c_price_history c' = c_price_history c"
    "n = int (length (c_availability_history c')) - int (length (c_availability_history c))"
proof -
  let ?inc = "map (\<lambda>k. (k, (False, None :: int option))) missing"
  let ?f = "\<lambda>a. a\<lparr>av_is_available := False, av_item_status := None, av_source_file_id := sid, av_last_observed_at := applied_at\<rparr>"
  obtain c1 c2 where s: "close_availability_history applied_at missing c = (Inr (), c1)"
      "insert_availability_history sid applied_at ?inc c1 = (Inr (), c2)"
      "c' = c2\<lparr>c_availability := update_where (\<lambda>a. av_key a \<in> set missing) ?f (c_availability c2)\<rparr>" "n = int (length missing)"
    using run by (auto simp: reconcile_absent_prices_def effect_simps areturn_def missing_def)
  have di: "distinct (map fst ?inc)" by (simp add: comp_def missing_def missing_price_keys_def Let_def)
  have mo: "map_of ?inc k = (if k \<in> set missing then Some (False, None) else None)" for k by (induction missing) auto
  note mk = missing_keys [OF availability_invD(1) [OF inv], of _ sid rid pid mapped, folded missing_def]
  have news: "?inc = filter (\<lambda>(k, v). current_availability c k \<noteq> Some v) ?inc"
    using mk by (intro filter_True [symmetric]) fastforce
  have K: "k \<in> set missing \<longleftrightarrow> (\<exists>v w. map_of ?inc k = Some v \<and> current_availability c k = Some w \<and> v \<noteq> w)" for k
    using mk [of k] by (cases "k \<in> set missing") (auto simp: mo)
  note rec = availability_recorded [OF inv di K news s(1,2)]
  obtain h where h: "c1 = c\<lparr>c_availability_history := h\<rparr>" "length h = length (c_availability_history c)"
    using s(1) by (auto simp: close_availability_effect update_where_def)
  obtain m h' where c2: "c2 = c\<lparr>c_next_id := m, c_availability_history := h'\<rparr>" "length h' = length (c_availability_history c) + length missing"
    using insert_availability_effect [OF s(2)] h by auto
  have line: "availability_line c' = availability_line c2" by (simp add: s(3) availability_line_def fun_eq_iff)
  show l: "availability_line c' k = observe applied_at ?inc (availability_line c) k" for k by (simp only: line rec(1))
  have kf: "av_key (?f a) = av_key a" for a by (simp add: av_key_def)
  have cur: "current_availability c' k = (if k \<in> set missing then Some (False, None) else current_availability c k)" for k
  proof -
    have e: "current_availability c' k = map_option (\<lambda>a. if k \<in> set missing then (False, None) else (av_is_available a, av_item_status a))
        (find (\<lambda>a. av_key a = k) (c_availability c))"
      unfolding current_availability_def s(3) c2 by (simp add: find_update_where [of av_key, OF kf] option.map_comp)
        (auto simp: comp_def dest: find_in intro!: option.map_cong)
    have "find (\<lambda>a. av_key a = k) (c_availability c) = None \<Longrightarrow> k \<notin> set missing" using mk [of k] by (auto simp: current_availability_def)
    then show ?thesis unfolding e
      by (cases "find (\<lambda>a. av_key a = k) (c_availability c)") (auto simp: current_availability_def)
  qed
  show "availability_inv c'" unfolding availability_inv_def
  proof (intro conjI allI)
    show "distinct (map av_key (c_availability c'))"
      using availability_invD(1) [OF inv] by (simp add: s(3) c2 map_update_where [of av_key, OF kf])
    fix k show "timeline_ok (availability_line c' k)" by (simp only: line rec(2))
    show "current_availability c' k = last_value (availability_line c' k)"
      unfolding cur l last_value_observe mo using availability_invD(3) [OF inv] by simp
  qed
  show "rest_of c' = rest_of c \<and> c_prices c' = c_prices c \<and> c_price_history c' = c_price_history c"
    by (simp add: s(3) c2 rest_of_def)
  show "n = int (length (c_availability_history c')) - int (length (c_availability_history c))" by (simp add: s(3,4) c2)
qed

section \<open>The rows of a file\<close>

definition availability_observed :: "nat \<Rightarrow> nat \<Rightarrow> nat \<Rightarrow> int \<Rightarrow> bool \<Rightarrow> MappedPrice list \<Rightarrow> catalogue \<Rightarrow> catalogue \<Rightarrow> bool" where
  "availability_observed sid rid pid applied_at is_full mapped c c' \<longleftrightarrow>
     (\<forall>k. current_availability c' k =
        (case map_of (availability_inc mapped) k of
           Some v \<Rightarrow> Some v
         | None \<Rightarrow> if is_full \<and> snd k \<in> scope_stores sid rid pid mapped c \<and> (\<exists>st. current_availability c k = Some (True, st))
             then Some (False, None) else current_availability c k))"

lemma scope_stores_cong:
  "c_stores c' = c_stores c \<Longrightarrow> c_staged_documents c' = c_staged_documents c \<Longrightarrow> scope_stores sid rid pid mapped c' = scope_stores sid rid pid mapped c"
  by (simp add: scope_stores_def store_of_def document_scopes_def)

lemma inc_keys: "map_of (availability_inc mapped) k = None \<longleftrightarrow> k \<notin> set (map mp_key mapped)"
  by (simp add: availability_inc_def map_of_eq_None_iff comp_def image_image)

lemma incoming_current:
  assumes "availability_inv c" "distinct (map mp_key mapped)" "apply_incoming_availability sid applied_at mapped c = (Inr r, c')"
  shows "current_availability c' k = (case map_of (availability_inc mapped) k of None \<Rightarrow> current_availability c k | Some v \<Rightarrow> Some v)"
  unfolding availability_invD(3) [OF incoming_availability_recorded(2) [OF assms]] availability_invD(3) [OF assms(1)]
    incoming_availability_recorded(1) [OF assms] last_value_observe ..

lemma reconcile_current:
  assumes "availability_inv c" "reconcile_absent_prices sid rid pid applied_at mapped c = (Inr n, c')"
  shows "current_availability c' k = (if k \<in> set (missing_price_keys sid rid pid mapped c) then Some (False, None) else current_availability c k)"
proof -
  have "map_of (map (\<lambda>k. (k, (False, None :: int option))) ms) k = (if k \<in> set ms then Some (False, None) else None)" for ms :: "(nat \<times> nat) list"
    by (induction ms) auto
  then show ?thesis
    unfolding availability_invD(3) [OF reconcile_recorded(2) [OF assms]] availability_invD(3) [OF assms(1)]
      reconcile_recorded(1) [OF assms] last_value_observe by simp
qed

lemma differs_split: "length (filter (price_differs c) mapped) + length (filter (\<lambda>m. \<not> price_differs c m) mapped) = length mapped"
  by (rule sum_length_filter_compl)

lemma counts_split:
  "length (filter (\<lambda>m. current_price c (mp_key m) = None) mapped) + length (filter (price_changed c) mapped) =
     length (filter (price_differs c) mapped)"
  by (induction mapped) (auto simp: price_changed_def price_differs_def)

lemma line_cong:
  "c_price_history c' = c_price_history c \<Longrightarrow> price_line c' = price_line c"
  "c_availability_history c' = c_availability_history c \<Longrightarrow> availability_line c' = availability_line c"
  "c_prices c' = c_prices c \<Longrightarrow> current_price c' = current_price c"
  "c_availability c' = c_availability c \<Longrightarrow> current_availability c' = current_availability c"
  by (simp_all add: price_line_def availability_line_def current_price_def current_availability_def fun_eq_iff)

lemma rest_of_tables:
  "rest_of c' = rest_of c \<Longrightarrow> c_stores c' = c_stores c \<and> c_items c' = c_items c \<and> c_staged_documents c' = c_staged_documents c \<and>
     c_staged_prices c' = c_staged_prices c"
  by (drule arg_cong [where f = "\<lambda>c. (c_stores c, c_items c, c_staged_documents c, c_staged_prices c)"]) (simp add: rest_of_def)

lemma apply_price_rows_effect:
  assumes inv: "price_inv c" "availability_inv c" and d: "distinct (map mp_key mapped)"
    and run: "apply_price_rows sid rid pid applied_at is_full mapped c = (Inr s, c')"
  shows "price_line c' k = observe applied_at (price_inc mapped) (price_line c) k" "price_inv c'" "availability_inv c'"
    "availability_observed sid rid pid applied_at is_full mapped c c'" "rest_of c' = rest_of c"
    "inserted s + updated s + unchanged s = int (length mapped)"
    "history_events s = int (length (c_price_history c')) - int (length (c_price_history c)) +
       (int (length (c_availability_history c')) - int (length (c_availability_history c)))"
proof -
  let ?ins = "length (filter (\<lambda>m. current_price c (mp_key m) = None) mapped)" let ?upd = "length (filter (price_changed c) mapped)"
  let ?unch = "length (filter (\<lambda>m. \<not> price_differs c m) mapped)"
  obtain n c1 c2 r c3 absent where s:
    "abind (close_price_history applied_at mapped) (\<lambda>_. insert_price_history sid applied_at mapped) c = (Inr n, c1)"
    "upsert_current_prices sid applied_at mapped c1 = (Inr (), c2)" "apply_incoming_availability sid applied_at mapped c2 = (Inr r, c3)"
    "(if is_full then reconcile_absent_prices sid rid pid applied_at mapped else areturn 0) c3 = (Inr absent, c')"
    "s = \<lparr>inserted = int ?ins, updated = int ?upd, unchanged = int ?unch, unavailable = snd r + absent, history_events = n + fst r + absent\<rparr>"
    using run by (auto simp: apply_price_rows_def effect_simps areturn_def split: prod.splits)
  note e1 = price_history_effect [OF s(1)] and l1 = price_rows_recorded [OF inv(1) d s(1)] and e2 = upsert_prices_effect [OF s(2)]
  have same: "price_line c2 = price_line c1" "availability_line c2 = availability_line c" "current_availability c2 = current_availability c"
      "current_price c1 = current_price c" "c_availability c2 = c_availability c"
    using e1 e2(2) by (simp_all add: line_cong(1) [of c2 c1] line_cong(2) [of c2 c] line_cong(3) [of c1 c] line_cong(4) [of c2 c])
  have a2: "availability_inv c2" using inv(2) by (simp add: availability_inv_def same)
  note e3 = incoming_availability_recorded [OF a2 d s(3)]
  have e4: "availability_inv c'" "rest_of c' = rest_of c3" "c_prices c' = c_prices c3" "c_price_history c' = c_price_history c3"
      "absent = int (length (c_availability_history c')) - int (length (c_availability_history c3))"
    using s(4) e3(2) reconcile_recorded [OF e3(2)] by (auto simp: areturn_def split: if_splits)
  have line: "price_line c' = price_line c1" "current_price c' = current_price c2"
    using same(1) e3(3) e4(3,4) by (simp_all add: line_cong(1) [of c' c2] line_cong(3) [of c' c2])
  show l: "price_line c' k = observe applied_at (price_inc mapped) (price_line c) k" for k by (simp add: line(1) l1(1))
  have "current_price c' k = last_value (price_line c' k)" for k
    unfolding line(2) e2(1) same(4) price_invD(2) [OF inv(1)] l last_value_observe ..
  then show "price_inv c'" unfolding price_inv_def using l1(2) by (simp add: line(1))
  show "availability_inv c'" by (rule e4(1))
  show rest: "rest_of c' = rest_of c" using e1 e2(2) e3(3) e4(2) by simp
  show "inserted s + updated s + unchanged s = int (length mapped)"
    using counts_split [of c mapped] differs_split [of c mapped] by (simp add: s(5))
  show "history_events s = int (length (c_price_history c')) - int (length (c_price_history c)) +
       (int (length (c_availability_history c')) - int (length (c_availability_history c)))"
    using e1 e2(2) e3(3,4) e4(4,5) by (simp add: s(5) update_where_def)
  have sc: "scope_stores sid rid pid mapped c3 = scope_stores sid rid pid mapped c"
    using e1 e2(2) e3(3) rest_of_tables [of c3 c] by (intro scope_stores_cong) simp_all
  note cur3 = incoming_current [OF a2 d s(3)]
  show "availability_observed sid rid pid applied_at is_full mapped c c'" unfolding availability_observed_def
  proof
    fix k
    have "current_availability c' k = (if is_full \<and> k \<in> set (missing_price_keys sid rid pid mapped c3) then Some (False, None)
        else current_availability c3 k)"
      using s(4) reconcile_current [OF e3(2)] by (auto simp: areturn_def split: if_splits)
    note e = this [unfolded missing_keys [OF availability_invD(1) [OF e3(2)]] sc cur3 same(3)]
    show "current_availability c' k = (case map_of (availability_inc mapped) k of Some v \<Rightarrow> Some v
        | None \<Rightarrow> if is_full \<and> snd k \<in> scope_stores sid rid pid mapped c \<and> (\<exists>st. current_availability c k = Some (True, st))
            then Some (False, None) else current_availability c k)"
      unfolding e using inc_keys [of mapped k] by (cases "map_of (availability_inc mapped) k") auto
  qed
qed

end
