(* ===== verification/Price_Run.thy ===== *)
theory Price_Run
  imports Price_History
begin

text \<open>
  What applying a price file does as a whole: the prices and the availability it lists are recorded, the past stays, a full
  snapshot leaves nothing available that it does not list, and what a replay cannot do.
\<close>

section \<open>The states between\<close>

lemma upsert_price_stores_effect:
  assumes "upsert_price_stores sid rid pid applied_at c = (Inr u, c')"
  obtains n news where "c' = c\<lparr>c_next_id := n, c_stores := upsert store_key merge_price_store news (c_stores c)\<rparr>" "c_next_id c \<le> n"
    "store_key ` set news = (\<lambda>p. (rid, pid, sp_subchain_id p, sp_source_store_id p)) ` set (price_incoming sid c)"
    "distinct (map store_key news)"
proof -
  let ?ds = "distinct_on (\<lambda>p. (sp_subchain_id p, sp_source_store_id p))
       (sort_key (\<lambda>p. (sp_subchain_id p, sp_source_store_id p)) (price_incoming sid c))"
  let ?news = "numbered (c_next_id c) (price_store sid rid pid applied_at) ?ds"
  have k: "map store_key ?news = map (\<lambda>p. (rid, pid, sp_subchain_id p, sp_source_store_id p)) ?ds"
    by (rule map_numbered) (simp add: price_store_def store_key_def)
  have "(\<lambda>p. (sp_subchain_id p, sp_source_store_id p)) ` set ?ds = (\<lambda>p. (sp_subchain_id p, sp_source_store_id p)) ` set (price_incoming sid c)"
    by (simp add: keys_distinct_on)
  from arg_cong [OF this, of "image (\<lambda>(a, b). (rid, pid, a, b))"]
  have "store_key ` set ?news = (\<lambda>p. (rid, pid, sp_subchain_id p, sp_source_store_id p)) ` set (price_incoming sid c)"
    by (simp add: image_image k [THEN arg_cong [of _ _ set], simplified])
  moreover have "distinct (map store_key ?news)" unfolding k
    using distinct_distinct_on [of "\<lambda>p. (sp_subchain_id p, sp_source_store_id p)" "sort_key (\<lambda>p. (sp_subchain_id p, sp_source_store_id p)) (price_incoming sid c)"]
    by (simp add: distinct_map inj_on_def)
  moreover have "c' = c\<lparr>c_next_id := c_next_id c + length ?ds, c_stores := upsert store_key merge_price_store ?news (c_stores c)\<rparr>"
    using assms by (auto simp: upsert_price_stores_def effect_simps Let_def)
  ultimately show thesis by (intro that [where n = "c_next_id c + length ?ds" and news = ?news]) simp_all
qed

lemma upsert_retailer_items_effect:
  assumes "upsert_retailer_items sid rid pid applied_at c = (Inr u, c')"
  obtains n news where "c' = c\<lparr>c_next_id := n, c_items := upsert item_key merge_item news (c_items c)\<rparr>" "c_next_id c \<le> n"
    "item_key ` set news = (\<lambda>p. (rid, pid, sp_source_item_code p)) ` set (price_incoming sid c)" "distinct (map item_key news)"
    "\<forall>i\<in>set news. c_next_id c \<le> it_id i \<and> it_id i < n" "distinct (map it_id news)"
proof -
  let ?ds = "distinct_on sp_source_item_code (sort_key (\<lambda>p. (sp_source_item_code p, sp_source_store_id p)) (price_incoming sid c))"
  let ?news = "numbered (c_next_id c) (price_item sid rid pid applied_at) ?ds"
  have k: "map item_key ?news = map (\<lambda>p. (rid, pid, sp_source_item_code p)) ?ds"
    by (rule map_numbered) (simp add: price_item_def item_key_def)
  have "sp_source_item_code ` set ?ds = sp_source_item_code ` set (price_incoming sid c)" by (simp add: keys_distinct_on)
  from arg_cong [OF this, of "image (\<lambda>a. (rid, pid, a))"]
  have "item_key ` set ?news = (\<lambda>p. (rid, pid, sp_source_item_code p)) ` set (price_incoming sid c)"
    by (simp add: image_image k [THEN arg_cong [of _ _ set], simplified])
  moreover have "distinct (map item_key ?news)" unfolding k
    using distinct_distinct_on [of sp_source_item_code "sort_key (\<lambda>p. (sp_source_item_code p, sp_source_store_id p)) (price_incoming sid c)"]
    by (simp add: distinct_map inj_on_def)
  moreover have "c' = c\<lparr>c_next_id := c_next_id c + length ?ds, c_items := upsert item_key merge_item ?news (c_items c)\<rparr>"
    using assms by (auto simp: upsert_retailer_items_def effect_simps Let_def)
  moreover have "c_next_id c \<le> it_id i \<and> it_id i < c_next_id c + length ?ds" if "i \<in> set ?news" for i
    using set_numbered [OF that] by (auto simp: price_item_def)
  moreover have "distinct (map it_id ?news)" by (subst ids_numbered) (simp_all add: price_item_def)
  ultimately show thesis by (intro that [where n = "c_next_id c + length ?ds" and news = ?news]) simp_all
qed

lemma validate_keeps: "validate_full_price_snapshot sid rid pid m d c = (Inr u, c') \<Longrightarrow> c' = c"
  by (auto simp: validate_full_price_snapshot_def effect_simps areturn_def araise_def split: if_splits)

lemma apply_prices_states:
  assumes "apply_prices sid rid pid applied_at is_full m d c = (Inr s, c')"
  obtains c1 c2 c3 where "upsert_price_stores sid rid pid applied_at c = (Inr (), c1)"
    "upsert_retailer_items sid rid pid applied_at c1 = (Inr (), c2)" "distinct (map mp_key (mapped_price_incoming sid rid pid c2))"
    "match_exact_gtins sid rid pid applied_at c2 = (Inr (), c3)"
    "apply_price_rows sid rid pid applied_at is_full (mapped_price_incoming sid rid pid c2) c3 = (Inr s, c')"
  using assms by (auto simp: apply_prices_def effect_simps areturn_def dest!: validate_keeps split: if_splits)

section \<open>Frames\<close>

lemma incoming_cong: "c_staged_prices c' = c_staged_prices c \<Longrightarrow> price_incoming sid c' = price_incoming sid c"
  by (simp add: price_incoming_def)

lemma mapped_cong:
  "c_staged_prices c' = c_staged_prices c \<Longrightarrow> c_items c' = c_items c \<Longrightarrow> c_stores c' = c_stores c \<Longrightarrow>
     mapped_price_incoming sid rid pid c' = mapped_price_incoming sid rid pid c"
proof -
  assume s: "c_staged_prices c' = c_staged_prices c" "c_items c' = c_items c" "c_stores c' = c_stores c"
  then have "exact_gtin_items sid rid pid c' = exact_gtin_items sid rid pid c" "store_of rid pid x c' = store_of rid pid x c" for x
    by (simp_all add: exact_gtin_items_def store_of_def)
  then show ?thesis using incoming_cong [OF s(1)] unfolding mapped_price_incoming_def by presburger
qed

text \<open>The state after the stores and the items of a file are there.\<close>

definition prepared :: "nat \<Rightarrow> nat \<Rightarrow> nat \<Rightarrow> catalogue \<Rightarrow> catalogue \<Rightarrow> bool" where
  "prepared sid rid pid c c2 \<longleftrightarrow> (\<exists>n ss is. c2 = c\<lparr>c_next_id := n, c_stores := upsert store_key merge_price_store ss (c_stores c), c_items := upsert item_key merge_item is (c_items c)\<rparr> \<and>
       c_next_id c \<le> n \<and> store_key ` set ss = (\<lambda>p. (rid, pid, sp_subchain_id p, sp_source_store_id p)) ` set (price_incoming sid c) \<and>
       item_key ` set is = (\<lambda>p. (rid, pid, sp_source_item_code p)) ` set (price_incoming sid c) \<and>
       distinct (map store_key ss) \<and> distinct (map item_key is) \<and> distinct (map it_id is) \<and> (\<forall>i\<in>set is. c_next_id c \<le> it_id i \<and> it_id i < n))"

text \<open>The tables of prices before the rows are applied are those before the file.\<close>

lemma apply_prices_frame:
  assumes "apply_prices sid rid pid applied_at is_full m d c = (Inr s, c')"
  obtains c2 c3 where "apply_price_rows sid rid pid applied_at is_full (mapped_price_incoming sid rid pid c2) c3 = (Inr s, c')"
    "distinct (map mp_key (mapped_price_incoming sid rid pid c2))" "match_exact_gtins sid rid pid applied_at c2 = (Inr (), c3)"
    "same_rest c2 c3" "c_prices c3 = c_prices c" "c_price_history c3 = c_price_history c" "c_availability c3 = c_availability c"
    "c_availability_history c3 = c_availability_history c"
    "prepared sid rid pid c c2"
proof -
  from apply_prices_states [OF assms] obtain c1 c2 c3 where s: "upsert_price_stores sid rid pid applied_at c = (Inr (), c1)"
    "upsert_retailer_items sid rid pid applied_at c1 = (Inr (), c2)" "distinct (map mp_key (mapped_price_incoming sid rid pid c2))"
    "match_exact_gtins sid rid pid applied_at c2 = (Inr (), c3)"
    "apply_price_rows sid rid pid applied_at is_full (mapped_price_incoming sid rid pid c2) c3 = (Inr s, c')" .
  from upsert_price_stores_effect [OF s(1)] obtain n1 ss where c1: "c1 = c\<lparr>c_next_id := n1, c_stores := upsert store_key merge_price_store ss (c_stores c)\<rparr>"
    "c_next_id c \<le> n1" "store_key ` set ss = (\<lambda>p. (rid, pid, sp_subchain_id p, sp_source_store_id p)) ` set (price_incoming sid c)"
    "distinct (map store_key ss)" .
  from upsert_retailer_items_effect [OF s(2)] obtain n2 "is" where c2: "c2 = c1\<lparr>c_next_id := n2, c_items := upsert item_key merge_item is (c_items c1)\<rparr>"
    "c_next_id c1 \<le> n2" "item_key ` set is = (\<lambda>p. (rid, pid, sp_source_item_code p)) ` set (price_incoming sid c1)" "distinct (map item_key is)"
    "\<forall>i\<in>set is. c_next_id c1 \<le> it_id i \<and> it_id i < n2" "distinct (map it_id is)" .
  have inc: "price_incoming sid c1 = price_incoming sid c" by (rule incoming_cong) (simp add: c1(1))
  have n1: "c_next_id c1 = n1" by (simp add: c1(1))
  have c2': "c2 = c\<lparr>c_next_id := n2, c_stores := upsert store_key merge_price_store ss (c_stores c), c_items := upsert item_key merge_item is (c_items c)\<rparr>"
    by (simp add: c2(1) c1(1))
  have le: "c_next_id c \<le> n2" using c1(2) c2(2) by (simp add: n1)
  have ids: "\<forall>i\<in>set is. c_next_id c \<le> it_id i \<and> it_id i < n2" using c1(2) c2(5) unfolding n1 by (meson order_trans)
  note shape = conjI [OF c2' conjI [OF le conjI [OF c1(3) conjI [OF c2(3) [unfolded inc]
    conjI [OF c1(4) conjI [OF c2(4) conjI [OF c2(6) ids]]]]]]]
  have rest: "same_rest c2 c3" using match_exact_gtins_effect [OF s(4)] by (simp add: gtin_effect_def)
  have t: "c_prices c3 = c_prices c" "c_price_history c3 = c_price_history c" "c_availability c3 = c_availability c"
    "c_availability_history c3 = c_availability_history c" using rest by (simp_all add: same_rest_def c2')
  show thesis by (rule that [OF s(5,3,4) rest t]) (unfold prepared_def, intro exI, rule shape)
qed

lemma prepared_tables:
  assumes "prepared sid rid pid c c2"
  shows "c_staged_prices c2 = c_staged_prices c" "c_staged_documents c2 = c_staged_documents c" "c_assertions c2 = c_assertions c"
    "c_groups c2 = c_groups c" "c_identifiers c2 = c_identifiers c" "c_matches c2 = c_matches c" "c_candidates c2 = c_candidates c"
    "c_products c2 = c_products c"
  using assms by (auto simp: prepared_def)

section \<open>Properties\<close>

text \<open>
  C4. Applying a price file records it: the timeline of every item and store is extended by the price that
  the file lists for it, if it differs from the last one, and no other timeline changes; what
  was valid before the instant of the file stays. The timelines remain without gap, overlap or repetition and end with the current
  price. The summary counts every listed row once and every new row of the histories.
\<close>
theorem prices_recorded:
  assumes inv: "price_inv c" "availability_inv c" and run: "apply_prices sid rid pid applied_at is_full m d c = (Inr s, c')"
  shows "price_line c' = observe applied_at (price_inc (mapped_price_incoming sid rid pid c')) (price_line c) \<and>
     price_inv c' \<and> (\<forall>k x. x < applied_at \<longrightarrow> value_at (price_line c' k) x = value_at (price_line c k) x) \<and>
     inserted s + updated s + unchanged s = int (length (mapped_price_incoming sid rid pid c')) \<and>
     history_events s = int (length (c_price_history c')) - int (length (c_price_history c)) +
       (int (length (c_availability_history c')) - int (length (c_availability_history c)))"
proof -
  from apply_prices_frame [OF run] obtain c2 c3 where
    s: "apply_price_rows sid rid pid applied_at is_full (mapped_price_incoming sid rid pid c2) c3 = (Inr s, c')"
    "distinct (map mp_key (mapped_price_incoming sid rid pid c2))" "same_rest c2 c3" "c_prices c3 = c_prices c"
    "c_price_history c3 = c_price_history c" "c_availability c3 = c_availability c" "c_availability_history c3 = c_availability_history c" .
  have l: "price_line c3 = price_line c" by (rule line_cong(1)) (rule s(5))
  have i3: "price_inv c3" "availability_inv c3"
    using inv s(4-7) by (simp_all add: price_inv_def availability_inv_def l line_cong(2) [of c3 c] line_cong(3) [of c3 c] line_cong(4) [of c3 c])
  note e = apply_price_rows_effect [OF i3 s(2) s(1)]
  have mapped: "mapped_price_incoming sid rid pid c2 = mapped_price_incoming sid rid pid c'"
    using rest_of_tables [OF e(5)] s(3) by (intro mapped_cong) (simp_all add: same_rest_def)
  have line: "price_line c' = observe applied_at (price_inc (mapped_price_incoming sid rid pid c')) (price_line c)"
    using e(1) by (simp add: fun_eq_iff l mapped)
  moreover have "value_at (price_line c' k) x = value_at (price_line c k) x" if "x < applied_at" for k x
    using past_unchanged [OF price_invD(1) [OF inv(1)] that] by (simp add: line observe_def split: option.split)
  ultimately show ?thesis using e(2,6,7) s(5,7) by (simp add: mapped)
qed

text \<open>
  C5. A full snapshot settles availability: in every store that it covers, afterwards exactly the items that it lists as available are
  available; in other stores nothing changes; the timelines of availability stay consistent.
\<close>
theorem full_snapshot_availability:
  assumes inv: "price_inv c" "availability_inv c" and run: "apply_prices sid rid pid applied_at True m d c = (Inr s, c')"
    and mapped: "mapped = mapped_price_incoming sid rid pid c'"
  shows "availability_inv c' \<and>
     (\<forall>k. if snd k \<in> scope_stores sid rid pid mapped c'
        then (\<exists>st. current_availability c' k = Some (True, st)) \<longleftrightarrow> (\<exists>x\<in>set mapped. mp_key x = k \<and> is_available (mp_staged x))
        else current_availability c' k = current_availability c k)"
proof -
  from apply_prices_frame [OF run] obtain c2 c3 where
    s: "apply_price_rows sid rid pid applied_at True (mapped_price_incoming sid rid pid c2) c3 = (Inr s, c')"
    "distinct (map mp_key (mapped_price_incoming sid rid pid c2))" "same_rest c2 c3" "c_prices c3 = c_prices c"
    "c_price_history c3 = c_price_history c" "c_availability c3 = c_availability c" "c_availability_history c3 = c_availability_history c" .
  have i3: "price_inv c3" "availability_inv c3"
    using inv s(4-7) by (simp_all add: price_inv_def availability_inv_def line_cong(1) [of c3 c] line_cong(2) [of c3 c] line_cong(3) [of c3 c] line_cong(4) [of c3 c])
  note e = apply_price_rows_effect [OF i3 s(2) s(1)]
  have m: "mapped_price_incoming sid rid pid c2 = mapped"
    using rest_of_tables [OF e(5)] s(3) unfolding mapped by (intro mapped_cong) (simp_all add: same_rest_def)
  have sc: "scope_stores sid rid pid mapped c3 = scope_stores sid rid pid mapped c'"
    using rest_of_tables [OF e(5)] by (intro scope_stores_cong) simp_all
  have cur: "current_availability c' k = (case map_of (availability_inc mapped) k of
           Some v \<Rightarrow> Some v
         | None \<Rightarrow> if snd k \<in> scope_stores sid rid pid mapped c' \<and> (\<exists>st. current_availability c k = Some (True, st))
             then Some (False, None) else current_availability c k)" for k
    using e(4) [unfolded availability_observed_def m sc line_cong(4) [OF s(6)], rule_format, of k] by (simp only: simp_thms)
  have some: "map_of (availability_inc mapped) k = Some v \<longleftrightarrow> (\<exists>x\<in>set mapped. mp_key x = k \<and> availability_of_staged (mp_staged x) = v)" for k v
    unfolding availability_inc_def using map_of_inc [OF s(2) [unfolded m]] .
  have f1: "snd k \<in> scope_stores sid rid pid mapped c'" if "map_of (availability_inc mapped) k = Some v" for k v
    using that unfolding some by (auto simp: scope_stores_def mp_key_def)
  have f2: "\<not> (\<exists>x\<in>set mapped. mp_key x = k \<and> is_available (mp_staged x))" if "map_of (availability_inc mapped) k = None" for k
    using that inc_keys [of mapped k] by auto
  have f3: "fst v \<longleftrightarrow> (\<exists>x\<in>set mapped. mp_key x = k \<and> is_available (mp_staged x))" if v: "map_of (availability_inc mapped) k = Some v" for k v
  proof
    assume "fst v"
    then show "\<exists>x\<in>set mapped. mp_key x = k \<and> is_available (mp_staged x)" using v unfolding some by (auto simp: availability_of_staged_def)
  next
    assume "\<exists>x\<in>set mapped. mp_key x = k \<and> is_available (mp_staged x)"
    then obtain x where x: "x \<in> set mapped" "mp_key x = k" "is_available (mp_staged x)" by blast
    then have "map_of (availability_inc mapped) k = Some (availability_of_staged (mp_staged x))" unfolding some by blast
    then show "fst v" using v x(3) by (simp add: availability_of_staged_def)
  qed
  have "if snd k \<in> scope_stores sid rid pid mapped c'
        then (\<exists>st. current_availability c' k = Some (True, st)) \<longleftrightarrow> (\<exists>x\<in>set mapped. mp_key x = k \<and> is_available (mp_staged x))
        else current_availability c' k = current_availability c k" for k
    unfolding cur using f1 [of k] f2 [of k] f3 [of k] by (cases "map_of (availability_inc mapped) k") auto
  then show ?thesis using e(3) by blast
qed

text \<open>Two files of one store: the second changes the price of an item and lists nothing else.\<close>

definition demo_stocked :: catalogue where
  "demo_stocked = empty_catalogue\<lparr>c_staged_prices := [demo_staged 6 4],
     c_stores := [(price_store 5 10 20 3 50 (demo_staged 5 3))], c_items := [price_item 5 10 20 3 51 (demo_staged 5 3)],
     c_prices := [new_current_price 5 3 52 \<lparr>mp_item = 51, mp_store = 50, mp_staged = demo_staged 5 3\<rparr>],
     c_price_history := [new_price_history 5 3 53 \<lparr>mp_item = 51, mp_store = 50, mp_staged = demo_staged 5 3\<rparr>],
     c_availability := [new_current_availability 5 3 54 \<lparr>mp_item = 51, mp_store = 50, mp_staged = demo_staged 5 3\<rparr>],
     c_availability_history := [new_availability_history 5 3 55 ((51, 50), (True, None))]\<rparr>"

lemmas price_eval = apply_prices_def validate_full_price_snapshot_def snapshot_scopes_def document_scopes_def prior_available_def
  drop_exceeded_def store_of_def price_incoming_def staged_key_def upsert_price_stores_def store_row_ok_def price_store_def merge_price_store_def
  upsert_retailer_items_def nonnegative_def gtin_digits_def is_ascii_digit_def item_row_ok_def price_item_def merge_item_def
  mapped_price_incoming_def mp_key_def is_available_def price_of_staged_def price_of_current_def cp_key_def ph_key_def current_price_def
  price_differs_def price_changed_def close_price_def new_price_history_def close_price_history_def one_open_price_def insert_price_history_def
  new_current_price_def merge_current_price_def upsert_current_prices_def availability_of_staged_def av_key_def ah_key_def
  current_availability_def availability_differs_def close_availability_def close_availability_history_def new_availability_history_def
  one_open_availability_def insert_availability_history_def new_current_availability_def merge_availability_def upsert_current_availability_def
  apply_incoming_availability_def missing_price_keys_def reconcile_absent_prices_def apply_price_rows_def store_key_def item_key_def

lemma demo_stocked_inv: "price_inv demo_stocked" "availability_inv demo_stocked"
  by (auto simp: price_inv_def availability_inv_def price_line_def availability_line_def timeline_def current_price_def current_availability_def
    last_value_def demo_stocked_def empty_catalogue_def demo_staged_def new_current_price_def new_price_history_def new_current_availability_def
    new_availability_history_def price_span_def availability_span_def ph_key_def cp_key_def av_key_def ah_key_def price_of_current_def is_available_def)

lemma demo_stocked_run:
  obtains s c' where "apply_prices 6 10 20 7 True 1 1 demo_stocked = (Inr s, c')" "updated s = 1" "history_events s = 1"
    "map ph_valid_to (c_price_history c') = [Some 7, None]"
proof -
  have "(case apply_prices 6 10 20 7 True 1 1 demo_stocked of (r, c') \<Rightarrow>
      (map_sum (\<lambda>_. ()) (\<lambda>s. (updated s, history_events s)) r, map ph_valid_to (c_price_history c'))) = (Inr (1, 1), [Some 7, None])"
    by (simp add: demo_stocked_def empty_catalogue_def demo_staged_def price_eval gtin_eval abind_eval del: set_filter cong: abind_weak_cong)
  then show thesis using that by (cases "apply_prices 6 10 20 7 True 1 1 demo_stocked"; cases "fst (apply_prices 6 10 20 7 True 1 1 demo_stocked)") auto
qed

theorem prices_recorded_witness:
  "\<exists>s c'. apply_prices 6 10 20 7 True 1 1 demo_stocked = (Inr s, c') \<and> updated s = 1 \<and> history_events s = 1 \<and>
     map ph_valid_to (c_price_history c') = [Some 7, None] \<and> price_inv c' \<and>
     value_at (price_line c' (51, 50)) 6 = value_at (price_line demo_stocked (51, 50)) 6"
proof -
  obtain s c' where r: "apply_prices 6 10 20 7 True 1 1 demo_stocked = (Inr s, c')" "updated s = 1" "history_events s = 1"
    "map ph_valid_to (c_price_history c') = [Some 7, None]" by (rule demo_stocked_run)
  note p = prices_recorded [OF demo_stocked_inv r(1)]
  note inv = conjunct1 [OF conjunct2 [OF p]]
  note past = mp [OF spec [OF spec [OF conjunct1 [OF conjunct2 [OF conjunct2 [OF p]]], of "(51, 50)"], of 6]]
  have "value_at (price_line c' (51, 50)) 6 = value_at (price_line demo_stocked (51, 50)) 6" by (rule past) simp
  then show ?thesis by (intro exI conjI) (rule r inv | assumption)+
qed

theorem full_snapshot_availability_witness:
  "\<exists>s c'. apply_prices 6 10 20 7 True 1 1 demo_stocked = (Inr s, c') \<and> availability_inv c'"
proof -
  obtain s c' where r: "apply_prices 6 10 20 7 True 1 1 demo_stocked = (Inr s, c')" by (rule demo_stocked_run)
  with full_snapshot_availability [OF demo_stocked_inv r refl] show ?thesis by blast
qed

section \<open>Replays\<close>

lemma find_upserted:
  assumes "\<And>r n. k (merge r n) = k r" "find (\<lambda>r. k r = x) rows = Some r"
  obtains r' where "find (\<lambda>r. k r = x) (upsert k merge news rows) = Some r'" "r' = r \<or> (\<exists>n. r' = merge r n)"
  using find_upsert [of k merge, OF assms(1), of x news rows] assms(2) by (cases "find (\<lambda>n. k n = x) news") auto

lemma merge_ids [simp]: "st_id (merge_price_store s n) = st_id s" "store_key (merge_price_store s n) = store_key s"
    "it_id (merge_item i j) = it_id i" "item_key (merge_item i j) = item_key i" "it_retailer_id (merge_item i j) = it_retailer_id i"
  by (simp_all add: merge_price_store_def store_key_def merge_item_def item_key_def)

lemma find_filter_cong: "(\<And>x. P x \<and> Q x \<longleftrightarrow> R x) \<Longrightarrow> find P (filter Q xs) = find R xs"
  by (induction xs) (auto simp: split: if_splits)

text \<open>A staged row whose item and store are known is mapped to them.\<close>

lemma known_item:
  assumes prep: "prepared sid rid pid c c2" and p: "p \<in> set (price_incoming sid c)"
    and i: "find (\<lambda>i. item_key i = (rid, pid, sp_source_item_code p)) (c_items c) = Some i"
  obtains i' where "find (\<lambda>i. it_source_item_code i = sp_source_item_code p) (exact_gtin_items sid rid pid c2) = Some i'" "it_id i' = it_id i"
proof -
  obtain n ss "is" where c2: "c2 = c\<lparr>c_next_id := n, c_stores := upsert store_key merge_price_store ss (c_stores c), c_items := upsert item_key merge_item is (c_items c)\<rparr>"
    using prep unfolding prepared_def by (elim exE conjE)
  obtain i' where i'': "find (\<lambda>i. item_key i = (rid, pid, sp_source_item_code p)) (upsert item_key merge_item is (c_items c)) = Some i'"
      "i' = i \<or> (\<exists>n. i' = merge_item i n)"
    by (rule find_upserted [of item_key merge_item, OF merge_ids(4) i])
  have i': "find (\<lambda>i. item_key i = (rid, pid, sp_source_item_code p)) (c_items c2) = Some i'" unfolding c2 using i''(1) by simp
  have iid: "it_id i' = it_id i" using i''(2) by (elim disjE exE) simp_all
  have "p \<in> set (filter (\<lambda>p. sp_source_file_id p = sid) (c_staged_prices c))"
    using subsetD [OF set_distinct_on p [unfolded price_incoming_def]] unfolding set_sort .
  then have code: "sp_source_item_code p \<in> set (map sp_source_item_code (filter (\<lambda>p. sp_source_file_id p = sid) (c_staged_prices c2)))"
    unfolding prepared_tables(1) [OF prep] set_map by (rule imageI)
  have "find (\<lambda>i. it_source_item_code i = sp_source_item_code p) (exact_gtin_items sid rid pid c2) =
      find (\<lambda>i. item_key i = (rid, pid, sp_source_item_code p)) (c_items c2)"
    unfolding exact_gtin_items_def Let_def by (rule find_filter_cong) (use code in \<open>auto simp del: set_map simp: item_key_def\<close>)
  then show thesis using that iid unfolding i' by blast
qed

lemma mapped_known:
  assumes prep: "prepared sid rid pid c c2" and p: "p \<in> set (price_incoming sid c)"
    and i: "find (\<lambda>i. item_key i = (rid, pid, sp_source_item_code p)) (c_items c) = Some i"
    and st: "store_of rid pid (sp_subchain_id p, sp_source_store_id p) c = Some st"
  shows "\<lparr>mp_item = it_id i, mp_store = st_id st, mp_staged = p\<rparr> \<in> set (mapped_price_incoming sid rid pid c2)"
proof -
  obtain n ss "is" where c2: "c2 = c\<lparr>c_next_id := n, c_stores := upsert store_key merge_price_store ss (c_stores c), c_items := upsert item_key merge_item is (c_items c)\<rparr>"
    using prep unfolding prepared_def by (elim exE conjE)
  obtain st' where st': "find (\<lambda>s. store_key s = (rid, pid, sp_subchain_id p, sp_source_store_id p)) (upsert store_key merge_price_store ss (c_stores c)) = Some st'"
      "st' = st \<or> (\<exists>n. st' = merge_price_store st n)"
    by (rule find_upserted [of store_key merge_price_store, OF merge_ids(2) st [unfolded store_of_def fst_conv snd_conv]])
  have so: "store_of rid pid (sp_subchain_id p, sp_source_store_id p) c2 = Some st'"
    unfolding store_of_def fst_conv snd_conv c2 using st'(1) by simp
  have sid: "st_id st' = st_id st" using st'(2) by (elim disjE exE) simp_all
  obtain i' where f: "find (\<lambda>i. it_source_item_code i = sp_source_item_code p) (exact_gtin_items sid rid pid c2) = Some i'" "it_id i' = it_id i"
    by (rule known_item [OF prep p i])
  have p2: "p \<in> set (price_incoming sid c2)" using p unfolding incoming_cong [OF prepared_tables(1) [OF prep]] .
  show ?thesis unfolding mapped_price_incoming_def set_map_filter
    by (intro bexI [OF _ p2]) (simp add: f so sid)
qed



end
