(* ===== verification/Source_Apply.thy ===== *)
theory Source_Apply
  imports Promotion_Run Price_Run Source_Store
begin

text \<open>
  \<^verbatim>\<open>PostgresIngestionRepository.apply\<close>: one transaction that checks the source file and the maintenance gate, orders the
  file against the files applied before, claims the instant of its first application, applies it by its
  document type and advances the watermarks of its scopes. A file that is out of order is
  quarantined: the issue is recorded, nothing is applied.
\<close>

section \<open>State\<close>

text \<open>The attempt that a file is applied for: a run of the lifecycle or a replay.\<close>

datatype attempt = Run nat | Replay nat

record GeneratedIssue =
  gi_source_file_id :: nat
  gi_attempt :: attempt
  gi_severity :: IssueCategory
  gi_code :: ustr
  gi_message :: ustr

record RebuildFile =
  rf_rebuild_run_id :: nat
  rf_sequence :: int
  rf_source_file_id :: nat
  rf_archived_at :: "datetime option"
  rf_original_applied_at :: "int option"
  rf_original_parser_version :: "ustr option"
  rf_effective_source_timestamp :: int
  rf_status :: string

record platform =
  s_store :: database
  s_warehouse :: warehouse
  s_issue_counts :: "(attempt \<times> StageSummary) list"
  s_issues :: "GeneratedIssue list"
  s_results :: "(attempt \<times> ApplySummary) list"
  s_rebuild_files :: "RebuildFile list"

type_synonym 'a call = "(platform, exn, 'a) action"

definition on_store :: "'a statement \<Rightarrow> 'a call" where
  "on_store m s = (case m (s_store s) of (r, d) \<Rightarrow> (r, s\<lparr>s_store := d\<rparr>))"

definition on_warehouse :: "'a command \<Rightarrow> 'a call" where
  "on_warehouse m s = (case m (s_warehouse s) of (r, w) \<Rightarrow> (r, s\<lparr>s_warehouse := w\<rparr>))"

text \<open>\<^verbatim>\<open>_transaction(source_file_id)\<close>, for the tables of both halves.\<close>

definition file_transaction :: "nat \<Rightarrow> 'a call \<Rightarrow> 'a call" where
  "file_transaction sid m s =
     (if db_lock (s_store s) \<noteq> None \<and> db_lock (s_store s) \<noteq> Some sid then (Inl (exn_of PersistenceConflictError), s)
      else atomically m s)"

fun instant :: "datetime \<Rightarrow> int" where
  "instant (Aware t) = t"
| "instant (Naive t) = t"

section \<open>The source file\<close>

definition archived_source :: "database \<Rightarrow> nat \<Rightarrow> (SourceFile \<times> ustr) option" where
  "archived_source d sid =
     (case source_file d sid of
        None \<Rightarrow> None
      | Some f \<Rightarrow> (case f_archive_object_id f of
          None \<Rightarrow> None
        | Some a \<Rightarrow> map_option (\<lambda>x. (f, ao_content_sha256 x)) (find (\<lambda>x. ao_id x = a) (db_archive_objects d))))"

definition lock_source_for_apply :: "nat \<Rightarrow> DocumentType \<Rightarrow> (SourceFile \<times> ustr) statement" where
  "lock_source_for_apply sid dtype =
     abind (aget (\<lambda>d. archived_source d sid)) (\<lambda>row.
     case row of
       None \<Rightarrow> araise (exn_of PersistenceNotFoundError)
     | Some (f, sha) \<Rightarrow>
         if f_document_type f \<noteq> dtype then araise (exn_of PersistenceConflictError)
         else abind (aget (\<lambda>d. find (open_replay sid) (db_replays d))) (\<lambda>replay_active.
           if f_status f \<notin> {APPLYING, COMPLETED} \<and> replay_active = None then araise (exn_of PersistenceConflictError)
           else areturn (f, sha)))"

definition current_attempt :: "nat \<Rightarrow> (attempt \<times> nat option) statement" where
  "current_attempt sid =
     abind (aget (\<lambda>d. find (open_replay sid) (db_replays d))) (\<lambda>replay.
     case replay of
       Some r \<Rightarrow> areturn (Replay (rp_id r), rp_rebuild_run_id r)
     | None \<Rightarrow> abind (current_run_id sid) (\<lambda>run. areturn (Run run, None)))"

section \<open>Generated issues\<close>

record issue_limits =
  maximum_issues :: int
  maximum_issue_bytes :: int
  maximum_evidence :: int

definition no_issues :: StageSummary where
  "no_issues = \<lparr>metadata_records = 0, store_records = 0, price_records = 0, promotion_records = 0, warnings = 0, rejected_records = 0,
     file_quarantines = 0, validation_issue_bytes = 0, sampled_validation_issues = 0\<rparr>"

definition attempt_issue_summary :: "attempt \<Rightarrow> platform \<Rightarrow> StageSummary" where
  "attempt_issue_summary a s = (case map_of (s_issue_counts s) a of None \<Rightarrow> no_issues | Some c \<Rightarrow> c)"

definition count_issue :: "IssueCategory \<Rightarrow> int \<Rightarrow> bool \<Rightarrow> StageSummary \<Rightarrow> StageSummary" where
  "count_issue severity nbytes sampled c = c\<lparr>warnings := warnings c + (if severity = WARNING then 1 else 0),
     rejected_records := rejected_records c + (if severity = RECORD_REJECTION then 1 else 0),
     file_quarantines := file_quarantines c + (if severity = FILE_QUARANTINE then 1 else 0),
     validation_issue_bytes := validation_issue_bytes c + nbytes,
     sampled_validation_issues := sampled_validation_issues c + (if sampled then 1 else 0)\<rparr>"

definition record_generated_issue :: "issue_limits \<Rightarrow> nat \<Rightarrow> attempt \<Rightarrow> IssueCategory \<Rightarrow> string \<Rightarrow> string \<Rightarrow> unit call" where
  "record_generated_issue limits sid a severity code message =
     abind (aget (attempt_issue_summary a)) (\<lambda>current.
     abind (of_result (validation_issue_charge \<lparr>vi_source_file_id = sid, vi_severity = severity, vi_code = lit code,
       vi_message = lit message, vi_record_index = None, vi_field_name = None, vi_rejected_value = None\<rparr>)) (\<lambda>issue_bytes.
     if warnings current + rejected_records current + file_quarantines current + 1 > maximum_issues limits \<or>
        validation_issue_bytes current + issue_bytes > maximum_issue_bytes limits
     then araise (exn_of QuarantinedFileError)
     else
       let sampled = sampled_validation_issues current < maximum_evidence limits in
       amodify (\<lambda>s. s\<lparr>s_issues := s_issues s @ (if sampled then [\<lparr>gi_source_file_id = sid, gi_attempt = a, gi_severity = severity, gi_code = lit code, gi_message = lit message\<rparr>] else []),
         s_issue_counts := (a, count_issue severity issue_bytes sampled current) # s_issue_counts s\<rparr>)))"

section \<open>Order of files\<close>

definition document_family :: "DocumentType \<Rightarrow> string" where
  "document_family dtype = (if is_price dtype then ''prices'' else if is_promotion dtype then ''promotions'' else ''stores'')"

text \<open>The scopes of a file: those of its rows, else those of its document headers, else one for everything.\<close>

definition row_scopes :: "nat \<Rightarrow> DocumentType \<Rightarrow> warehouse \<Rightarrow> (ustr \<times> ustr) list" where
  "row_scopes sid dtype w =
     remdups (if dtype = STORES then map (\<lambda>x. (ss_subchain_id x, [])) (filter (\<lambda>x. ss_source_file_id x = sid) (c_staged_stores (w_catalogue w)))
      else if is_price dtype then map (\<lambda>x. (sp_subchain_id x, sp_source_store_id x)) (filter (\<lambda>x. sp_source_file_id x = sid) (c_staged_prices (w_catalogue w)))
      else map promotion_scope (filter (\<lambda>x. sm_source_file_id x = sid) (w_staged_promotions w)))"

definition header_scopes :: "nat \<Rightarrow> DocumentType \<Rightarrow> warehouse \<Rightarrow> (ustr \<times> ustr) list" where
  "header_scopes sid dtype w =
     remdups (map (\<lambda>d. (default_text (sd_subchain_id d), if dtype = STORES then [] else default_text (sd_store_id d)))
       (filter (\<lambda>d. sd_source_file_id d = sid) (c_staged_documents (w_catalogue w))))"

definition file_scopes :: "nat \<Rightarrow> DocumentType \<Rightarrow> warehouse \<Rightarrow> (ustr \<times> ustr) list" where
  "file_scopes sid dtype w =
     (if row_scopes sid dtype w \<noteq> [] then row_scopes sid dtype w
      else if header_scopes sid dtype w \<noteq> [] then header_scopes sid dtype w else [([], [])])"

definition prepare_source_scopes :: "nat \<Rightarrow> DocumentType \<Rightarrow> (ustr \<times> ustr) list command" where
  "prepare_source_scopes sid dtype =
     (if dtype = STORES \<or> is_price dtype \<or> is_promotion dtype then aget (file_scopes sid dtype)
      else araise (exn_of SnapshotValidationError))"

definition declared_updates :: "nat \<Rightarrow> warehouse \<Rightarrow> int list" where
  "declared_updates sid w =
     List.map_filter sd_source_updated_at (filter (\<lambda>d. sd_source_file_id d = sid) (c_staged_documents (w_catalogue w)))"

definition observed_at :: "SourceFile \<Rightarrow> int" where
  "observed_at f = instant (case f_download_finished_at f of Some t \<Rightarrow> t | None \<Rightarrow> f_discovered_at f)"

definition declared_timestamps :: "SourceFile \<Rightarrow> int list \<Rightarrow> int list" where
  "declared_timestamps f updates =
     (if updates = [] then [] else [Max (set updates)]) @ (case f_source_timestamp f of None \<Rightarrow> [] | Some t \<Rightarrow> [instant t])"

definition effective_timestamp :: "SourceFile \<Rightarrow> int list \<Rightarrow> int" where
  "effective_timestamp f updates =
     (if declared_timestamps f updates \<noteq> [] then Max (set (declared_timestamps f updates)) else observed_at f)"

definition MAXIMUM_FUTURE_SOURCE_SKEW :: int where
  "MAXIMUM_FUTURE_SOURCE_SKEW = 24 * 60 * 60 * 1000000"

definition SOURCE_STALENESS_WARNING_AGE :: int where
  "SOURCE_STALENESS_WARNING_AGE = 30 * 24 * 60 * 60 * 1000000"

definition watermark_key :: "Watermark \<Rightarrow> nat \<times> nat \<times> string \<times> ustr \<times> ustr" where
  "watermark_key m = (wm_retailer_id m, wm_portal_id m, wm_document_family m, wm_subchain_code m, wm_source_scope_code m)"

definition out_of_order :: "int \<Rightarrow> ustr \<Rightarrow> Watermark list \<Rightarrow> (string \<times> string) option" where
  "out_of_order ts sha existing =
     (case find (\<lambda>m. ts < wm_effective_source_timestamp m \<or> ts = wm_effective_source_timestamp m \<and> wm_source_content_sha256 m \<noteq> sha) existing of
        None \<Rightarrow> None
      | Some m \<Rightarrow> Some (if ts < wm_effective_source_timestamp m
          then (''source_timestamp_regression'',
            ''Source timestamp precedes current normalized state; archive it with --archive-only and run a normalized rebuild'')
          else (''source_timestamp_conflict'', ''Different source content claims the same scope timestamp'')))"

definition order_verdict :: "SourceFile \<Rightarrow> ustr \<Rightarrow> int list \<Rightarrow> Watermark list \<Rightarrow> (string \<times> string) option" where
  "order_verdict f sha updates existing =
     (let ts = effective_timestamp f updates in
      if card (set updates) > 1
      then Some (''source_timestamp_conflict'', ''One source file declares conflicting effective timestamps'')
      else if ts > observed_at f + MAXIMUM_FUTURE_SOURCE_SKEW
      then Some (''source_timestamp_future'', ''Source timestamp is implausibly far in the future'')
      else out_of_order ts sha existing)"

definition watermarks_in :: "SourceFile \<Rightarrow> DocumentType \<Rightarrow> (ustr \<times> ustr) list \<Rightarrow> warehouse \<Rightarrow> Watermark list" where
  "watermarks_in f dtype scopes w =
     filter (\<lambda>m. \<exists>s\<in>set scopes. watermark_key m = (f_retailer_id f, f_portal_id f, document_family dtype, s)) (w_watermarks w)"

definition warn_missing_timestamp :: "issue_limits \<Rightarrow> nat \<Rightarrow> SourceFile \<Rightarrow> int list \<Rightarrow> attempt \<Rightarrow> unit call" where
  "warn_missing_timestamp limits sid f updates a =
     (if updates = [] \<and> f_source_timestamp f = None
      then record_generated_issue limits sid a WARNING ''source_timestamp_missing''
        ''Source has no declared timestamp; archive attachment time is used for ordering''
      else areturn ())"

definition warn_stale :: "issue_limits \<Rightarrow> nat \<Rightarrow> SourceFile \<Rightarrow> int \<Rightarrow> attempt \<Rightarrow> unit call" where
  "warn_stale limits sid f ts a =
     (if ts < observed_at f - SOURCE_STALENESS_WARNING_AGE
      then record_generated_issue limits sid a WARNING ''source_timestamp_stale''
        ''Source timestamp is older than the configured freshness warning age''
      else areturn ())"

definition record_verdict :: "issue_limits \<Rightarrow> nat \<Rightarrow> attempt \<Rightarrow> (string \<times> string) option \<Rightarrow> unit call" where
  "record_verdict limits sid a quarantine =
     (case quarantine of
        None \<Rightarrow> areturn ()
      | Some (code, message) \<Rightarrow> record_generated_issue limits sid a FILE_QUARANTINE code message)"

definition validate_source_ordering ::
    "issue_limits \<Rightarrow> nat \<Rightarrow> SourceFile \<Rightarrow> ustr \<Rightarrow> DocumentType \<Rightarrow> attempt \<Rightarrow> ((ustr \<times> ustr) list \<times> int \<times> bool) call" where
  "validate_source_ordering limits sid f sha dtype a =
     abind (on_warehouse (prepare_source_scopes sid dtype)) (\<lambda>scopes.
     abind (on_warehouse (aget (declared_updates sid))) (\<lambda>updates.
     abind (warn_missing_timestamp limits sid f updates a) (\<lambda>_.
     abind (on_warehouse (aget (watermarks_in f dtype scopes))) (\<lambda>existing.
     abind (warn_stale limits sid f (effective_timestamp f updates) a) (\<lambda>_.
     abind (record_verdict limits sid a (order_verdict f sha updates existing)) (\<lambda>_.
     areturn (scopes, effective_timestamp f updates, order_verdict f sha updates existing \<noteq> None)))))))"

section \<open>Claims and watermarks\<close>

definition rebuild_applied_at :: "nat \<Rightarrow> nat option \<Rightarrow> platform \<Rightarrow> int option" where
  "rebuild_applied_at sid rebuild s =
     (case rebuild of
        None \<Rightarrow> None
      | Some b \<Rightarrow> map_option (\<lambda>r. case rf_original_applied_at r of Some t \<Rightarrow> t | None \<Rightarrow> rf_effective_source_timestamp r)
          (find (\<lambda>r. rf_rebuild_run_id r = b \<and> rf_source_file_id r = sid) (s_rebuild_files s)))"

definition applied_instant :: "nat \<Rightarrow> warehouse \<Rightarrow> int option" where
  "applied_instant sid w = map_option ac_applied_at (find (\<lambda>x. ac_source_file_id x = sid) (w_contents w))"

definition claim_content :: "nat \<Rightarrow> SourceFile \<Rightarrow> ustr \<Rightarrow> DocumentType \<Rightarrow> int \<Rightarrow> int \<Rightarrow> attempt \<Rightarrow> nat option \<Rightarrow> int call" where
  "claim_content sid f sha dtype default_applied_at archive_applied_at a rebuild =
     abind (aget (\<lambda>s. applied_instant sid (s_warehouse s))) (\<lambda>existing.
     case existing of
       Some t \<Rightarrow> areturn t
     | None \<Rightarrow>
         abind (aget (rebuild_applied_at sid rebuild)) (\<lambda>rebuilt.
         let t = (case rebuilt of Some t \<Rightarrow> t | None \<Rightarrow> (case a of Replay _ \<Rightarrow> archive_applied_at | Run _ \<Rightarrow> default_applied_at)) in
         abind (on_warehouse (amodify (\<lambda>w. w\<lparr>w_contents := w_contents w @ [\<lparr>ac_source_file_id = sid, ac_retailer_id = f_retailer_id f,
           ac_portal_id = f_portal_id f, ac_document_type = dtype, ac_content_sha256 = sha, ac_applied_at = t\<rparr>]\<rparr>))) (\<lambda>_.
         areturn t)))"

definition new_watermark :: "nat \<Rightarrow> SourceFile \<Rightarrow> ustr \<Rightarrow> DocumentType \<Rightarrow> int \<Rightarrow> ustr \<times> ustr \<Rightarrow> Watermark" where
  "new_watermark sid f sha dtype ts scope = \<lparr>wm_retailer_id = f_retailer_id f, wm_portal_id = f_portal_id f,
     wm_document_family = document_family dtype, wm_subchain_code = fst scope, wm_source_scope_code = snd scope,
     wm_effective_source_timestamp = ts, wm_source_content_sha256 = sha, wm_source_file_id = sid\<rparr>"

definition merge_watermark :: "Watermark \<Rightarrow> Watermark \<Rightarrow> Watermark" where
  "merge_watermark m new = m\<lparr>wm_effective_source_timestamp := wm_effective_source_timestamp new,
     wm_source_content_sha256 := wm_source_content_sha256 new, wm_source_file_id := wm_source_file_id new\<rparr>"

definition advance_source_watermarks :: "nat \<Rightarrow> SourceFile \<Rightarrow> ustr \<Rightarrow> DocumentType \<Rightarrow> int \<Rightarrow> (ustr \<times> ustr) list \<Rightarrow> unit command" where
  "advance_source_watermarks sid f sha dtype ts scopes =
     amodify (\<lambda>w. w\<lparr>w_watermarks := upsert watermark_key merge_watermark (map (new_watermark sid f sha dtype ts) scopes) (w_watermarks w)\<rparr>)"

section \<open>Apply\<close>

definition apply_document :: "nat \<Rightarrow> SourceFile \<Rightarrow> DocumentType \<Rightarrow> int \<Rightarrow> int \<Rightarrow> rat \<Rightarrow> ApplySummary command" where
  "apply_document sid f dtype applied_at least drop_limit =
     (if dtype = STORES
      then on_catalogue (apply_stores sid (f_retailer_id f) (f_portal_id f) applied_at least drop_limit)
      else if is_price dtype
      then on_catalogue (apply_prices sid (f_retailer_id f) (f_portal_id f) applied_at (is_full_snapshot dtype) least drop_limit)
      else if is_promotion dtype
      then apply_promotions sid (f_retailer_id f) (f_portal_id f) applied_at (is_full_snapshot dtype) least drop_limit
      else araise (exn_of SnapshotValidationError))"

definition apply_in_order :: "nat \<Rightarrow> SourceFile \<Rightarrow> ustr \<Rightarrow> DocumentType \<Rightarrow> int \<Rightarrow> rat \<Rightarrow> attempt \<Rightarrow> nat option \<Rightarrow> int \<Rightarrow>
    (ustr \<times> ustr) list \<Rightarrow> int \<Rightarrow> ApplySummary call" where
  "apply_in_order sid f sha dtype least drop_limit a rebuild wall_clock_at scopes ts =
     abind (claim_content sid f sha dtype wall_clock_at ts a rebuild) (\<lambda>applied_at.
     abind (on_warehouse (apply_document sid f dtype applied_at least drop_limit)) (\<lambda>summary.
     abind (on_warehouse (advance_source_watermarks sid f sha dtype ts scopes)) (\<lambda>_.
     abind (amodify (\<lambda>s. s\<lparr>s_results := (a, summary) # s_results s\<rparr>)) (\<lambda>_.
     areturn summary))))"

text \<open>The transaction returns \<open>None\<close> for a file that is out of order; the error is raised after the commit.\<close>

definition apply_steps :: "issue_limits \<Rightarrow> nat \<Rightarrow> DocumentType \<Rightarrow> int \<Rightarrow> rat \<Rightarrow> ApplySummary option call" where
  "apply_steps limits sid dtype least drop_limit =
     abind (on_store (lock_source_for_apply sid dtype)) (\<lambda>(f, sha).
     abind (on_store (current_attempt sid)) (\<lambda>(a, rebuild).
     abind (on_store (maintenance_allows rebuild)) (\<lambda>_.
     abind (aget (\<lambda>s. db_now (s_store s))) (\<lambda>wall_clock_at.
     abind (validate_source_ordering limits sid f sha dtype a) (\<lambda>(scopes, ts, quarantined).
     if quarantined then areturn None
     else abind (apply_in_order sid f sha dtype least drop_limit a rebuild wall_clock_at scopes ts) (\<lambda>summary.
       areturn (Some summary)))))))"

definition apply_file :: "issue_limits \<Rightarrow> nat \<Rightarrow> DocumentType \<Rightarrow> int \<Rightarrow> rat \<Rightarrow> ApplySummary call" where
  "apply_file limits sid dtype least drop_limit =
     (if least < 0 then araise (exn_of ValueError)
      else if \<not> (0 \<le> drop_limit \<and> drop_limit \<le> 1) then araise (exn_of ValueError)
      else
        abind (file_transaction sid (apply_steps limits sid dtype least drop_limit)) (\<lambda>summary.
        case summary of None \<Rightarrow> araise (exn_of QuarantinedFileError) | Some x \<Rightarrow> areturn x))"

end
