(* ===== verification/Source_Order.thy ===== *)
theory Source_Order
  imports Source_Apply
begin

text \<open>
  The effects of the steps of \<^verbatim>\<open>apply\<close>: which tables each may change, what a call that returns has done, that one that raises
  changes no table of the catalogue, and how watermarks advance.
\<close>

section \<open>Parts of the state\<close>

lemma on_warehouse_eq: "on_warehouse m s = (Inr x, s') \<longleftrightarrow> (\<exists>w. m (s_warehouse s) = (Inr x, w) \<and> s' = s\<lparr>s_warehouse := w\<rparr>)"
  by (auto simp: on_warehouse_def split: prod.splits)

lemma on_store_eq: "on_store m s = (Inr x, s') \<longleftrightarrow> (\<exists>d. m (s_store s) = (Inr x, d) \<and> s' = s\<lparr>s_store := d\<rparr>)"
  by (auto simp: on_store_def split: prod.splits)

lemmas call_simps = effect_simps on_warehouse_eq on_store_eq areturn_def

lemma araise_not_Inr [simp]: "araise e s \<noteq> (Inr x, t)"
  by (simp add: araise_def)

section \<open>The steps of apply\<close>

lemma lock_source_effect:
  "lock_source_for_apply sid dtype d = (Inr fs, d') \<Longrightarrow> d' = d \<and> archived_source d sid = Some fs \<and> f_document_type (fst fs) = dtype"
  by (auto simp: lock_source_for_apply_def effect_simps areturn_def split: option.splits if_splits)

lemma current_attempt_effect: "current_attempt sid d = (Inr a, d') \<Longrightarrow> d' = d"
  by (auto simp: current_attempt_def current_run_id_def effect_simps areturn_def split: option.splits)

lemma maintenance_effect: "maintenance_allows r d = (Inr u, d') \<Longrightarrow> d' = d"
  by (auto simp: maintenance_allows_def effect_simps areturn_def split: option.splits if_splits)

lemma record_issue_effect:
  "record_generated_issue limits sid a sev code msg s = (Inr u, s') \<Longrightarrow> s_store s' = s_store s \<and> s_warehouse s' = s_warehouse s \<and>
     s_rebuild_files s' = s_rebuild_files s"
  by (auto simp: record_generated_issue_def effect_simps of_result_def areturn_def Let_def split: if_splits sum.splits)

lemma prepare_scopes_effect: "prepare_source_scopes sid dtype w = (Inr scopes, w') \<Longrightarrow> w' = w \<and> scopes = file_scopes sid dtype w"
  by (auto simp: prepare_source_scopes_def file_scopes_def effect_simps split: if_splits)

lemma issue_effects:
  "warn_missing_timestamp limits sid f updates a s = (Inr u, s') \<Longrightarrow> s_store s' = s_store s \<and> s_warehouse s' = s_warehouse s \<and> s_rebuild_files s' = s_rebuild_files s"
  "warn_stale limits sid f ts a s = (Inr u, s') \<Longrightarrow> s_store s' = s_store s \<and> s_warehouse s' = s_warehouse s \<and> s_rebuild_files s' = s_rebuild_files s"
  "record_verdict limits sid a quarantine s = (Inr u, s') \<Longrightarrow> s_store s' = s_store s \<and> s_warehouse s' = s_warehouse s \<and> s_rebuild_files s' = s_rebuild_files s"
  by (auto simp: warn_missing_timestamp_def warn_stale_def record_verdict_def areturn_def dest: record_issue_effect split: if_splits option.splits)

lemma ordering_effect:
  assumes "validate_source_ordering limits sid f sha dtype a s = (Inr (scopes, ts, quarantined), s')"
  shows "s_store s' = s_store s" "s_warehouse s' = s_warehouse s" "s_rebuild_files s' = s_rebuild_files s"
    "scopes = file_scopes sid dtype (s_warehouse s)" "ts = effective_timestamp f (declared_updates sid (s_warehouse s))"
    "quarantined \<longleftrightarrow> order_verdict f sha (declared_updates sid (s_warehouse s)) (watermarks_in f dtype scopes (s_warehouse s)) \<noteq> None"
proof -
  let ?w = "s_warehouse s"
  have p: "on_warehouse (prepare_source_scopes sid dtype) s = (Inr x, t) \<Longrightarrow> t = s \<and> x = file_scopes sid dtype ?w" for x t
    by (auto simp: on_warehouse_eq dest!: prepare_scopes_effect)
  have q: "on_warehouse (aget g) t = (Inr x, t') \<longleftrightarrow> x = g (s_warehouse t) \<and> t' = t" for g t t' x
    by (auto simp: on_warehouse_eq aget_eq)
  obtain s2 s3 where s: "scopes = file_scopes sid dtype ?w" "warn_missing_timestamp limits sid f (declared_updates sid ?w) a s = (Inr (), s2)"
    "warn_stale limits sid f (effective_timestamp f (declared_updates sid ?w)) a s2 = (Inr (), s3)"
    "record_verdict limits sid a (order_verdict f sha (declared_updates sid ?w) (watermarks_in f dtype scopes (s_warehouse s2))) s3 = (Inr (), s')"
    "ts = effective_timestamp f (declared_updates sid ?w)"
    "quarantined \<longleftrightarrow> order_verdict f sha (declared_updates sid ?w) (watermarks_in f dtype scopes (s_warehouse s2)) \<noteq> None"
    using assms unfolding validate_source_ordering_def by (auto simp: abind_Inr_iff q areturn_def dest!: p)
  show "s_store s' = s_store s" "s_warehouse s' = s_warehouse s" "s_rebuild_files s' = s_rebuild_files s"
    "scopes = file_scopes sid dtype ?w" "ts = effective_timestamp f (declared_updates sid ?w)"
    "quarantined \<longleftrightarrow> order_verdict f sha (declared_updates sid ?w) (watermarks_in f dtype scopes ?w) \<noteq> None"
    using s issue_effects(1) [OF s(2)] issue_effects(2) [OF s(3)] issue_effects(3) [OF s(4)] by simp_all
qed

lemma claim_effect:
  assumes "claim_content sid f sha dtype t0 t1 a rebuild s = (Inr t, s')"
  shows "s_store s' = s_store s" "\<exists>new. s_warehouse s' = (s_warehouse s)\<lparr>w_contents := w_contents (s_warehouse s) @ new\<rparr>"
    "applied_instant sid (s_warehouse s') = Some t" "\<forall>t'. applied_instant sid (s_warehouse s) = Some t' \<longrightarrow> t = t'"
    "\<forall>i t'. applied_instant i (s_warehouse s) = Some t' \<longrightarrow> applied_instant i (s_warehouse s') = Some t'"
proof -
  have "s_store s' = s_store s \<and> (\<exists>new. s_warehouse s' = (s_warehouse s)\<lparr>w_contents := w_contents (s_warehouse s) @ new\<rparr>) \<and>
    applied_instant sid (s_warehouse s') = Some t \<and> (\<forall>t'. applied_instant sid (s_warehouse s) = Some t' \<longrightarrow> t = t')"
    using assms by (cases "applied_instant sid (s_warehouse s)")
      (auto simp: claim_content_def abind_Inr_iff aget_eq areturn_def on_warehouse_eq amodify_eq Let_def applied_instant_def find_append
        intro: exI [of _ "[]"])
  then show "s_store s' = s_store s" "\<exists>new. s_warehouse s' = (s_warehouse s)\<lparr>w_contents := w_contents (s_warehouse s) @ new\<rparr>"
    "applied_instant sid (s_warehouse s') = Some t" "\<forall>t'. applied_instant sid (s_warehouse s) = Some t' \<longrightarrow> t = t'"
    "\<forall>i t'. applied_instant i (s_warehouse s) = Some t' \<longrightarrow> applied_instant i (s_warehouse s') = Some t'"
    by (auto simp: applied_instant_def find_append)
qed

lemma apply_promotion_rows_frame:
  assumes "apply_promotion_rows sid rid pid applied_at is_full inc w = (Inr s, w')"
  shows "w_watermarks w' = w_watermarks w" "w_contents w' = w_contents w" "\<exists>m. w_catalogue w' = (w_catalogue w)\<lparr>c_next_id := m\<rparr>"
proof -
  from apply_promotion_rows_states [OF assms] obtain w1 w2 w3 where
    s: "abind (close_promotions rid pid applied_at inc) (\<lambda>_. observe_promotions sid rid pid applied_at inc) w = (Inr (), w1)"
    "insert_promotions sid rid pid applied_at inc w1 = (Inr (), w2)" "attach_promotion_relations sid rid pid inc w2 = (Inr (), w3)"
    "(if is_full then end_absent_promotions sid rid pid applied_at inc else areturn 0) w3 = (Inr (unavailable s), w')" .
  have w1: "w1 = w\<lparr>w_promotions := map (touched sid rid pid applied_at inc) (w_promotions w)\<rparr>" using s(1) unfolding close_observe_effect by simp
  then have "w_promotions w1 = map (touched sid rid pid applied_at inc) (w_promotions w)" by simp
  note e2 = insert_promotions_effect(3-5) [OF s(2) this]
  have e3: "w_catalogue w3 = w_catalogue w2" "w_watermarks w3 = w_watermarks w2" "w_contents w3 = w_contents w2" using attach_effect [OF s(3)] by auto
  have e4: "w_catalogue w' = w_catalogue w3" "w_watermarks w' = w_watermarks w3" "w_contents w' = w_contents w3"
    using s(4) by (auto simp: end_absent_effect areturn_def split: if_splits)
  show "w_watermarks w' = w_watermarks w" "w_contents w' = w_contents w" "\<exists>m. w_catalogue w' = (w_catalogue w)\<lparr>c_next_id := m\<rparr>"
    using e2 e3 e4 w1 by simp_all
qed

lemma apply_promotions_frame:
  assumes "apply_promotions sid rid pid applied_at is_full m d w = (Inr s, w')"
  shows "w_watermarks w' = w_watermarks w" "w_contents w' = w_contents w"
    "\<exists>c n. ensure_promotion_items_and_stores sid rid pid applied_at w = (Inr (), w\<lparr>w_catalogue := c\<rparr>) \<and> w_catalogue w' = c\<lparr>c_next_id := n\<rparr>"
proof -
  from apply_promotions_states [OF assms] obtain c where
    c: "apply_promotion_rows sid rid pid applied_at is_full (promotion_incoming sid w) (w\<lparr>w_catalogue := c\<rparr>) = (Inr s, w')"
      "ensure_promotion_items_and_stores sid rid pid applied_at w = (Inr (), w\<lparr>w_catalogue := c\<rparr>)" by blast
  show "w_watermarks w' = w_watermarks w" "w_contents w' = w_contents w"
    "\<exists>c n. ensure_promotion_items_and_stores sid rid pid applied_at w = (Inr (), w\<lparr>w_catalogue := c\<rparr>) \<and> w_catalogue w' = c\<lparr>c_next_id := n\<rparr>"
    using apply_promotion_rows_frame [OF c(1)] c(2) by auto
qed

lemma apply_document_frame:
  "apply_document sid f dtype applied_at least drop_limit w = (Inr x, w') \<Longrightarrow> w_watermarks w' = w_watermarks w \<and> w_contents w' = w_contents w"
  unfolding apply_document_def by (auto simp: on_catalogue_eq dest: apply_promotions_frame split: if_splits)

text \<open>The transaction and an application that returns, in their steps.\<close>

lemma apply_steps_effect:
  assumes "apply_steps limits sid dtype least drop_limit s = (Inr r, s')"
  obtains f sha a rebuild scopes ts q s1 where "archived_source (s_store s) sid = Some (f, sha)" "f_document_type f = dtype"
    "validate_source_ordering limits sid f sha dtype a s = (Inr (scopes, ts, q), s1)"
    "if q then r = None \<and> s' = s1
     else \<exists>x. r = Some x \<and> apply_in_order sid f sha dtype least drop_limit a rebuild (db_now (s_store s)) scopes ts s1 = (Inr x, s')"
    "current_attempt sid (s_store s) = (Inr (a, rebuild), s_store s)" "maintenance_allows rebuild (s_store s) = (Inr (), s_store s)"
proof -
  let ?rest = "\<lambda>f sha a rebuild t. abind (validate_source_ordering limits sid f sha dtype a) (\<lambda>(scopes, ts, quarantined).
     if quarantined then areturn None
     else abind (apply_in_order sid f sha dtype least drop_limit a rebuild t scopes ts) (\<lambda>summary. areturn (Some summary)))"
  have l: "on_store (lock_source_for_apply sid dtype) s = (Inr x, t) \<Longrightarrow> t = s \<and> archived_source (s_store s) sid = Some x \<and> f_document_type (fst x) = dtype"
    "on_store (current_attempt sid) s = (Inr y, t) \<Longrightarrow> t = s \<and> current_attempt sid (s_store s) = (Inr y, s_store s)"
    "on_store (maintenance_allows z) s = (Inr u, t) \<Longrightarrow> t = s \<and> maintenance_allows z (s_store s) = (Inr u, s_store s)" for x y z u t
    by (auto simp: on_store_eq) (auto dest!: lock_source_effect dest: current_attempt_effect maintenance_effect)
  obtain f sha a rebuild where b: "archived_source (s_store s) sid = Some (f, sha)" "f_document_type f = dtype"
      "?rest f sha a rebuild (db_now (s_store s)) s = (Inr r, s')"
      "current_attempt sid (s_store s) = (Inr (a, rebuild), s_store s)" "maintenance_allows rebuild (s_store s) = (Inr (), s_store s)"
    using assms unfolding apply_steps_def by (fastforce simp: abind_Inr_iff [where m = "on_store m" for m] abind_Inr_iff [where m = "aget g" for g] aget_eq dest!: l)
  from b(3) obtain scopes ts q s1 where v: "validate_source_ordering limits sid f sha dtype a s = (Inr (scopes, ts, q), s1)"
      "(if q then areturn None else abind (apply_in_order sid f sha dtype least drop_limit a rebuild (db_now (s_store s)) scopes ts)
         (\<lambda>summary. areturn (Some summary))) s1 = (Inr r, s')"
    by (subst (asm) abind_Inr_iff) auto
  show thesis
    by (rule that [OF b(1,2) v(1) _ b(4,5)]) (use v(2) in \<open>auto simp: areturn_def abind_Inr_iff split: if_splits\<close>)
qed

lemma apply_file_steps:
  assumes "apply_file limits sid dtype least drop_limit s = (Inr x, s')"
  obtains f sha a rebuild s1 s2 t w where "archived_source (s_store s) sid = Some (f, sha)" "f_document_type f = dtype" "s_store s' = s_store s"
    "order_verdict f sha (declared_updates sid (s_warehouse s)) (watermarks_in f dtype (file_scopes sid dtype (s_warehouse s)) (s_warehouse s)) = None"
    "s_warehouse s1 = s_warehouse s" "s_store s1 = s_store s"
    "claim_content sid f sha dtype (db_now (s_store s)) (effective_timestamp f (declared_updates sid (s_warehouse s))) a rebuild s1 = (Inr t, s2)"
    "apply_document sid f dtype t least drop_limit (s_warehouse s2) = (Inr x, w)"
    "s_warehouse s' = w\<lparr>w_watermarks := upsert watermark_key merge_watermark
       (map (new_watermark sid f sha dtype (effective_timestamp f (declared_updates sid (s_warehouse s)))) (file_scopes sid dtype (s_warehouse s))) (w_watermarks w)\<rparr>"
proof -
  have "apply_steps limits sid dtype least drop_limit s = (Inr (Some x), s')"
    using assms by (auto simp: apply_file_def abind_Inr_iff areturn_def file_transaction_def atomically_def split: if_splits option.splits prod.splits sum.splits)
  from apply_steps_effect [OF this] obtain f sha a rebuild scopes ts q s1 where s0: "archived_source (s_store s) sid = Some (f, sha)" "f_document_type f = dtype"
    and v: "validate_source_ordering limits sid f sha dtype a s = (Inr (scopes, ts, q), s1)"
      "if q then Some x = None \<and> s' = s1
       else \<exists>y. Some x = Some y \<and> apply_in_order sid f sha dtype least drop_limit a rebuild (db_now (s_store s)) scopes ts s1 = (Inr y, s')" .
  have r2: "validate_source_ordering limits sid f sha dtype a s = (Inr (scopes, ts, False), s1)"
     "apply_in_order sid f sha dtype least drop_limit a rebuild (db_now (s_store s)) scopes ts s1 = (Inr x, s')"
    using v by (auto split: if_splits)
  note o = ordering_effect [OF r2(1)]
  from r2(2) obtain s2 t w where r3: "claim_content sid f sha dtype (db_now (s_store s)) ts a rebuild s1 = (Inr t, s2)"
     "apply_document sid f dtype t least drop_limit (s_warehouse s2) = (Inr x, w)"
     "s' = s2\<lparr>s_warehouse := w\<lparr>w_watermarks := upsert watermark_key merge_watermark (map (new_watermark sid f sha dtype ts) scopes) (w_watermarks w)\<rparr>,
        s_results := (a, x) # s_results s2\<rparr>"
    by (auto simp: apply_in_order_def abind_Inr_iff on_warehouse_eq amodify_eq advance_source_watermarks_def areturn_def)
  have "order_verdict f sha (declared_updates sid (s_warehouse s)) (watermarks_in f dtype scopes (s_warehouse s)) = None" using o(6) by blast
  then show thesis
    using that [of f sha s1 a rebuild t s2 w] s0 o(1-5) r3 claim_effect(1) [OF r3(1)] by simp
qed

text \<open>One that raises leaves the catalogue as it was, also when it records that the file is quarantined.\<close>

lemma apply_file_raises:
  assumes "apply_file limits sid dtype least drop_limit s = (Inl e, s')"
  shows "s_warehouse s' = s_warehouse s \<and> s_store s' = s_store s"
proof -
  consider "s' = s" | "apply_steps limits sid dtype least drop_limit s = (Inr None, s')"
    using assms unfolding apply_file_def
    by (auto simp: abind_def araise_def areturn_def file_transaction_def atomically_def split: if_splits prod.splits sum.splits option.splits)
  then show ?thesis
  proof cases
    case 2
    from apply_steps_effect [OF this] obtain f sha a scopes ts q s1 where v: "validate_source_ordering limits sid f sha dtype a s = (Inr (scopes, ts, q), s1)"
        "q \<and> s' = s1" by (metis (no_types, lifting) option.distinct(1))
    then show ?thesis using ordering_effect(1,2) [OF v(1)] by simp
  qed simp
qed

section \<open>Watermarks\<close>

definition watermark_of :: "warehouse \<Rightarrow> nat \<times> nat \<times> string \<times> ustr \<times> ustr \<Rightarrow> int option" where
  "watermark_of w k = map_option wm_effective_source_timestamp (find (\<lambda>m. watermark_key m = k) (w_watermarks w))"

lemma watermark_keys [simp]: "watermark_key (new_watermark sid f sha dtype ts sc) = (f_retailer_id f, f_portal_id f, document_family dtype, sc)"
    "watermark_key (merge_watermark m n) = watermark_key m"
  by (simp_all add: watermark_key_def new_watermark_def merge_watermark_def)

lemma watermark_advance:
  assumes "w_watermarks w' = upsert watermark_key merge_watermark (map (new_watermark sid f sha dtype ts) scopes) (w_watermarks w)"
  shows "watermark_of w' k = (if k \<in> (\<lambda>sc. (f_retailer_id f, f_portal_id f, document_family dtype, sc)) ` set scopes then Some ts else watermark_of w k)"
proof -
  let ?news = "map (new_watermark sid f sha dtype ts) scopes"
  have n: "find (\<lambda>m. watermark_key m = k) ?news = None \<longleftrightarrow> k \<notin> (\<lambda>sc. (f_retailer_id f, f_portal_id f, document_family dtype, sc)) ` set scopes"
    by (auto simp: find_None_iff)
  have t: "wm_effective_source_timestamp m = ts" if "find (\<lambda>m. watermark_key m = k) ?news = Some m" for m
    using find_in [OF that] by (auto simp: new_watermark_def)
  have u: "find (\<lambda>m. watermark_key m = k) (w_watermarks w') = (case find (\<lambda>m. watermark_key m = k) (w_watermarks w) of
      None \<Rightarrow> find (\<lambda>m. watermark_key m = k) ?news
    | Some r \<Rightarrow> Some (case find (\<lambda>m. watermark_key m = k) ?news of None \<Rightarrow> r | Some n \<Rightarrow> merge_watermark r n))"
    unfolding assms by (rule find_upsert) simp
  show ?thesis
  proof (cases "find (\<lambda>m. watermark_key m = k) ?news")
    case None
    then show ?thesis using n by (simp add: watermark_of_def u split: option.split)
  next
    case (Some m)
    then show ?thesis using n t [OF Some] by (simp add: watermark_of_def u merge_watermark_def split: option.split)
  qed
qed

lemma in_order:
  assumes "order_verdict f sha updates (watermarks_in f dtype scopes w) = None" "sc \<in> set scopes" "m \<in> set (w_watermarks w)"
    "watermark_key m = (f_retailer_id f, f_portal_id f, document_family dtype, sc)"
  shows "wm_effective_source_timestamp m < effective_timestamp f updates \<or>
     wm_effective_source_timestamp m = effective_timestamp f updates \<and> wm_source_content_sha256 m = sha"
proof -
  have "out_of_order (effective_timestamp f updates) sha (watermarks_in f dtype scopes w) = None"
    using assms(1) by (simp add: order_verdict_def Let_def split: if_splits)
  moreover have "m \<in> set (watermarks_in f dtype scopes w)" using assms(2-4) by (auto simp: watermarks_in_def)
  ultimately show ?thesis by (auto simp: out_of_order_def find_None_iff split: option.splits)
qed

end
