(* ===== verification/Platform_Run.thy ===== *)
theory Platform_Run
  imports Source_Order Source_Ledger
begin

text \<open>
  Any sequence of applied files, with anything staged in between: the invariants of all tables hold, files are applied in the order of
  their timestamps, watermarks and claims never go back. A replay that was overtaken by a file of another store fails.
\<close>

section \<open>The invariants of the tables\<close>

definition catalogue_inv :: "catalogue \<Rightarrow> bool" where
  "catalogue_inv c \<longleftrightarrow> price_inv c \<and> availability_inv c \<and> gtin_inv c \<and> distinct (map store_key (c_stores c)) \<and> distinct (map item_key (c_items c))"

definition warehouse_inv :: "warehouse \<Rightarrow> bool" where
  "warehouse_inv w \<longleftrightarrow> catalogue_inv (w_catalogue w) \<and> unique_open (w_promotions w) \<and> distinct (map watermark_key (w_watermarks w)) \<and>
     distinct (map ac_source_file_id (w_contents w))"

text \<open>The tables that the evidence of GTINs is about.\<close>

definition same_evidence :: "catalogue \<Rightarrow> catalogue \<Rightarrow> bool" where
  "same_evidence c c' \<longleftrightarrow> c_assertions c' = c_assertions c \<and> c_groups c' = c_groups c \<and> c_identifiers c' = c_identifiers c \<and> c_matches c' = c_matches c \<and>
     (\<forall>n i. item_of c n = Some i \<longrightarrow> (\<exists>j. item_of c' n = Some j \<and> it_retailer_id j = it_retailer_id i))"

lemma gtin_inv_same:
  assumes "gtin_inv c" "same_evidence c c'"
  shows "gtin_inv c'"
proof -
  have known: "item_of c (as_retailer_item_id a) \<noteq> None" if "a \<in> set (c_assertions c)" for a using assms(1) that by (auto simp: gtin_inv_def)
  have same: "c_assertions c' = c_assertions c" "c_identifiers c' = c_identifiers c" "c_matches c' = c_matches c" "group_of c' = group_of c"
    using assms(2) by (simp_all add: same_evidence_def group_of_def fun_eq_iff)
  have item: "map_option it_retailer_id (item_of c' (as_retailer_item_id a)) = map_option it_retailer_id (item_of c (as_retailer_item_id a))"
    "item_of c' (as_retailer_item_id a) \<noteq> None" if "a \<in> set (c_assertions c)" for a
    using known [OF that] assms(2) unfolding same_evidence_def by fastforce+
  have "List.map_filter (\<lambda>a. if live_gtin a \<and> as_normalized_value a = g then map_option it_retailer_id (item_of c' (as_retailer_item_id a)) else None) as =
      List.map_filter (\<lambda>a. if live_gtin a \<and> as_normalized_value a = g then map_option it_retailer_id (item_of c (as_retailer_item_id a)) else None) as"
    if "set as \<subseteq> set (c_assertions c)" for g as
    using that item(1) by (induction as) (simp_all add: List.map_filter_def)
  then have ar: "asserting_retailers c' g = asserting_retailers c g" for g by (simp add: asserting_retailers_def same(1))
  show ?thesis using assms(1) item(2) unfolding gtin_inv_def same ar by blast
qed

lemma same_evidence_items:
  assumes "c_assertions c' = c_assertions c" "c_groups c' = c_groups c" "c_identifiers c' = c_identifiers c" "c_matches c' = c_matches c"
    "c_items c' = upsert item_key merge news (c_items c)" "\<And>i j. it_id (merge i j) = it_id i \<and> it_retailer_id (merge i j) = it_retailer_id i"
  shows "same_evidence c c'"
proof -
  have "\<exists>j. find (\<lambda>i. it_id i = n) (map (\<lambda>r. case find (\<lambda>x. item_key x = item_key r) news of None \<Rightarrow> r | Some x \<Rightarrow> merge r x) rows) = Some j \<and>
      it_retailer_id j = it_retailer_id i" if "find (\<lambda>i. it_id i = n) rows = Some i" for n i rows
    using that assms(6) by (induction rows) (auto split: option.splits if_splits)
  then show ?thesis using assms(1-5) unfolding same_evidence_def item_of_def assms(5) upsert_def find_append by fastforce
qed

section \<open>Files keep the invariants\<close>

lemma apply_stores_frame:
  assumes "apply_stores sid rid pid applied_at m d c = (Inr s, c')"
  shows "c_prices c' = c_prices c" "c_price_history c' = c_price_history c" "c_availability c' = c_availability c"
    "c_availability_history c' = c_availability_history c" "c_items c' = c_items c" "c_assertions c' = c_assertions c" "c_groups c' = c_groups c"
    "c_identifiers c' = c_identifiers c" "c_matches c' = c_matches c"
  using assms unfolding apply_stores_def upsert_roster_def insert_aliases_def deactivate_stores_def validate_full_snapshot_def
  by (auto simp: effect_simps areturn_def Let_def split: if_splits)

lemma inv_other_tables:
  assumes "c_prices c' = c_prices c" "c_price_history c' = c_price_history c" "c_availability c' = c_availability c"
    "c_availability_history c' = c_availability_history c"
  shows "price_inv c' = price_inv c" "availability_inv c' = availability_inv c"
  using line_cong(1) [of c' c] line_cong(2) [of c' c] line_cong(3) [of c' c] line_cong(4) [of c' c] assms
  by (simp_all add: price_inv_def availability_inv_def)

lemma apply_stores_inv:
  assumes inv: "catalogue_inv c" and run: "apply_stores sid rid pid applied_at m d c = (Inr s, c')"
  shows "catalogue_inv c'"
proof -
  note c' = apply_stores_frame [OF run]
  have "same_evidence c c'" by (simp add: same_evidence_def c' item_of_def)
  then have "gtin_inv c'" by (rule gtin_inv_same [rotated]) (use inv in \<open>simp add: catalogue_inv_def\<close>)
  moreover have "distinct (map store_key (c_stores c'))" by (rule roster_keys_unique [OF _ run]) (use inv in \<open>simp add: catalogue_inv_def\<close>)
  moreover note inv_other_tables [OF c'(1-4)] c'(5)
  ultimately show ?thesis using inv by (simp add: catalogue_inv_def)
qed

lemma apply_prices_inv:
  assumes inv: "catalogue_inv c" and run: "apply_prices sid rid pid applied_at is_full m d c = (Inr s, c')"
  shows "catalogue_inv c'"
proof -
  from apply_prices_frame [OF run] obtain c2 c3 where
    s: "apply_price_rows sid rid pid applied_at is_full (mapped_price_incoming sid rid pid c2) c3 = (Inr s, c')"
    "distinct (map mp_key (mapped_price_incoming sid rid pid c2))" "match_exact_gtins sid rid pid applied_at c2 = (Inr (), c3)"
    "same_rest c2 c3" "c_prices c3 = c_prices c" "c_price_history c3 = c_price_history c" "c_availability c3 = c_availability c"
    "c_availability_history c3 = c_availability_history c" "prepared sid rid pid c c2" .
  obtain n ss "is" where c2: "c2 = c\<lparr>c_next_id := n, c_stores := upsert store_key merge_price_store ss (c_stores c), c_items := upsert item_key merge_item is (c_items c)\<rparr>"
      "distinct (map store_key ss)" "distinct (map item_key is)"
    using s(9) unfolding prepared_def by (elim exE conjE)
  have g2: "same_evidence c c2" by (rule same_evidence_items [where merge = merge_item and news = "is"]) (simp_all add: c2(1))
  have g3: "gtin_inv c3" using match_exact_gtins_inv [OF gtin_inv_same [OF _ g2] s(3)] inv by (simp add: catalogue_inv_def)
  have i3: "price_inv c3" "availability_inv c3" using inv_other_tables [OF s(5-8)] inv by (simp_all add: catalogue_inv_def)
  note e = apply_price_rows_effect [OF i3 s(2) s(1)]
  have t: "c_assertions c' = c_assertions c3" "c_groups c' = c_groups c3" "c_identifiers c' = c_identifiers c3" "c_matches c' = c_matches c3"
    "c_stores c' = c_stores c3" "c_items c' = c_items c3"
    using arg_cong [OF e(5), of c_assertions] arg_cong [OF e(5), of c_groups] arg_cong [OF e(5), of c_identifiers] arg_cong [OF e(5), of c_matches]
      arg_cong [OF e(5), of c_stores] arg_cong [OF e(5), of c_items] by (simp_all add: rest_of_def)
  have "same_evidence c3 c'" using t by (simp add: same_evidence_def item_of_def)
  then have "gtin_inv c'" by (rule gtin_inv_same [OF g3])
  moreover have "c_stores c' = upsert store_key merge_price_store ss (c_stores c)" "c_items c' = upsert item_key merge_item is (c_items c)"
    using t s(4) by (simp_all add: same_rest_def c2(1))
  moreover have "distinct (map store_key (upsert store_key merge_price_store ss (c_stores c)))"
    by (rule distinct_upsert) (use inv c2(2) in \<open>simp_all add: catalogue_inv_def\<close>)
  moreover have "distinct (map item_key (upsert item_key merge_item is (c_items c)))"
    by (rule distinct_upsert) (use inv c2(3) in \<open>simp_all add: catalogue_inv_def\<close>)
  ultimately show ?thesis using e(2,3) by (simp add: catalogue_inv_def)
qed

lemma seen_ids [simp]: "item_key (see_item i j) = item_key i" "it_id (see_item i j) = it_id i" "it_retailer_id (see_item i j) = it_retailer_id i"
    "store_key (see_store s t) = store_key s"
  by (simp_all add: see_item_def see_store_def item_key_def store_key_def)

lemma ensure_items_inv:
  assumes inv: "catalogue_inv c" and run: "ensure_promotion_items sid rid pid applied_at codes c = (Inr u, c')" "distinct codes"
  shows "catalogue_inv c'"
proof -
  let ?news = "numbered (c_next_id c) (promotion_item sid rid pid applied_at) codes"
  have c': "c' = c\<lparr>c_next_id := c_next_id c + length codes, c_items := upsert item_key see_item ?news (c_items c)\<rparr>"
    using run(1) by (auto simp: ensure_promotion_items_def effect_simps Let_def)
  have "map item_key ?news = map (\<lambda>x. (rid, pid, x)) codes" by (rule map_numbered) (simp add: promotion_item_def item_key_def)
  then have "distinct (map item_key ?news)" using run(2) by (simp add: distinct_map inj_on_def)
  then have "distinct (map item_key (c_items c'))" using inv by (simp add: c' distinct_upsert catalogue_inv_def)
  moreover have "same_evidence c c'" by (rule same_evidence_items [where merge = see_item and news = ?news]) (simp_all add: c')
  then have "gtin_inv c'" by (rule gtin_inv_same [rotated]) (use inv in \<open>simp add: catalogue_inv_def\<close>)
  moreover have "price_inv c' = price_inv c" "availability_inv c' = availability_inv c" by (rule inv_other_tables; simp add: c')+
  moreover have "c_stores c' = c_stores c" by (simp add: c')
  ultimately show ?thesis using inv by (simp add: catalogue_inv_def)
qed

lemma ensure_stores_inv:
  assumes inv: "catalogue_inv c" and run: "ensure_promotion_stores sid rid pid applied_at stores c = (Inr u, c')"
  shows "catalogue_inv c'"
proof -
  let ?news = "numbered (c_next_id c) (promotion_store sid rid pid applied_at) stores"
  have c': "c' = c\<lparr>c_next_id := c_next_id c + length stores, c_stores := upsert store_key see_store ?news (c_stores c)\<rparr>" "distinct (map store_key ?news)"
    using run by (auto simp: ensure_promotion_stores_def effect_simps Let_def)
  have "distinct (map store_key (c_stores c'))" using inv c'(2) by (simp add: c'(1) distinct_upsert catalogue_inv_def)
  moreover have "same_evidence c c'" by (simp add: same_evidence_def c'(1) item_of_def)
  then have "gtin_inv c'" by (rule gtin_inv_same [rotated]) (use inv in \<open>simp add: catalogue_inv_def\<close>)
  moreover have "price_inv c' = price_inv c" "availability_inv c' = availability_inv c" by (rule inv_other_tables; simp add: c'(1))+
  moreover have "c_items c' = c_items c" by (simp add: c'(1))
  ultimately show ?thesis using inv by (simp add: catalogue_inv_def)
qed

lemma catalogue_inv_next: "catalogue_inv (c\<lparr>c_next_id := n\<rparr>) = catalogue_inv c"
proof -
  let ?c = "c\<lparr>c_next_id := n\<rparr>"
  have e: "same_evidence c ?c" "same_evidence ?c c" by (simp_all add: same_evidence_def item_of_def)
  have "gtin_inv ?c = gtin_inv c" using gtin_inv_same [OF _ e(1)] gtin_inv_same [OF _ e(2)] by blast
  moreover have "price_inv ?c = price_inv c" "availability_inv ?c = availability_inv c" by (rule inv_other_tables; simp)+
  ultimately show ?thesis by (simp add: catalogue_inv_def)
qed

lemma apply_promotions_inv:
  assumes inv: "warehouse_inv w" and run: "apply_promotions sid rid pid applied_at is_full m d w = (Inr s, w')"
  shows "catalogue_inv (w_catalogue w') \<and> unique_open (w_promotions w')"
proof -
  from apply_promotions_frame(3) [OF run] obtain c n where c: "ensure_promotion_items_and_stores sid rid pid applied_at w = (Inr (), w\<lparr>w_catalogue := c\<rparr>)"
      "w_catalogue w' = c\<lparr>c_next_id := n\<rparr>" by blast
  from c(1) obtain c1 where c1: "ensure_promotion_items sid rid pid applied_at (promotion_item_codes sid w) (w_catalogue w) = (Inr (), c1)"
      "ensure_promotion_stores sid rid pid applied_at (promotion_store_codes sid (w\<lparr>w_catalogue := c1\<rparr>)) c1 = (Inr (), c)"
    by (auto simp: ensure_promotion_items_and_stores_def effect_simps on_catalogue_eq dest!: arg_cong [where f = w_catalogue])
  have "distinct (promotion_item_codes sid w)" by (simp add: promotion_item_codes_def)
  from ensure_items_inv [OF _ c1(1) this] have "catalogue_inv c1" using inv by (simp add: warehouse_inv_def)
  from ensure_stores_inv [OF this c1(2)] have "catalogue_inv (w_catalogue w')" by (simp add: c(2) catalogue_inv_next)
  moreover have "unique_open (w_promotions w')" by (rule apply_promotions_rows [OF run refl])
  ultimately show ?thesis by simp
qed

lemma apply_document_inv:
  assumes inv: "warehouse_inv w" and run: "apply_document sid f dtype t least drop_limit w = (Inr x, w')"
  shows "warehouse_inv w'"
proof -
  have frame: "w_watermarks w' = w_watermarks w" "w_contents w' = w_contents w" using apply_document_frame [OF run] by simp_all
  have cat: "catalogue_inv (w_catalogue w)" "unique_open (w_promotions w)" using inv by (simp_all add: warehouse_inv_def)
  consider c where "dtype = STORES" "apply_stores sid (f_retailer_id f) (f_portal_id f) t least drop_limit (w_catalogue w) = (Inr x, c)" "w' = w\<lparr>w_catalogue := c\<rparr>"
    | c where "dtype \<noteq> STORES" "apply_prices sid (f_retailer_id f) (f_portal_id f) t (is_full_snapshot dtype) least drop_limit (w_catalogue w) = (Inr x, c)" "w' = w\<lparr>w_catalogue := c\<rparr>"
    | "apply_promotions sid (f_retailer_id f) (f_portal_id f) t (is_full_snapshot dtype) least drop_limit w = (Inr x, w')"
    using run unfolding apply_document_def by (auto simp only: on_catalogue_eq araise_not_Inr split: if_splits)
  then have "catalogue_inv (w_catalogue w') \<and> unique_open (w_promotions w')"
  proof cases
    case 1
    then show ?thesis using apply_stores_inv [OF cat(1) 1(2)] cat(2) by simp
  next
    case 2
    then show ?thesis using apply_prices_inv [OF cat(1) 2(2)] cat(2) by simp
  next
    case 3
    then show ?thesis by (rule apply_promotions_inv [OF inv])
  qed
  then show ?thesis using inv frame by (simp add: warehouse_inv_def)
qed

lemma claim_inv:
  assumes "warehouse_inv (s_warehouse s)" "claim_content sid f sha dtype t0 t1 a rebuild s = (Inr t, s')"
  shows "warehouse_inv (s_warehouse s')"
proof -
  have new: "sid \<notin> ac_source_file_id ` set (w_contents (s_warehouse s))" if "applied_instant sid (s_warehouse s) = None"
    using that by (auto simp: applied_instant_def find_None_iff)
  have "distinct (map ac_source_file_id (w_contents (s_warehouse s')))"
    using assms new by (cases "applied_instant sid (s_warehouse s)")
      (auto simp: claim_content_def abind_Inr_iff aget_eq areturn_def on_warehouse_eq amodify_eq Let_def warehouse_inv_def)
  then show ?thesis using claim_effect(2) [OF assms(2)] assms(1) by (auto simp: warehouse_inv_def)
qed

lemma apply_file_inv:
  assumes inv: "warehouse_inv (s_warehouse s)" and run: "apply_file limits sid dtype least drop_limit s = (r, s')"
  shows "warehouse_inv (s_warehouse s')"
proof (cases r)
  case (Inl e)
  then show ?thesis using inv apply_file_raises run by simp
next
  case (Inr x)
  from apply_file_steps [OF run [unfolded Inr]] obtain f sha a rebuild s1 s2 t w where st: "s_warehouse s1 = s_warehouse s"
      "claim_content sid f sha dtype (db_now (s_store s)) (effective_timestamp f (declared_updates sid (s_warehouse s))) a rebuild s1 = (Inr t, s2)"
      "apply_document sid f dtype t least drop_limit (s_warehouse s2) = (Inr x, w)"
      "s_warehouse s' = w\<lparr>w_watermarks := upsert watermark_key merge_watermark
         (map (new_watermark sid f sha dtype (effective_timestamp f (declared_updates sid (s_warehouse s)))) (file_scopes sid dtype (s_warehouse s))) (w_watermarks w)\<rparr>" .
  have "warehouse_inv w" using claim_inv [OF _ st(2)] inv st(1) by (intro apply_document_inv [OF _ st(3)]) simp
  moreover have "distinct (file_scopes sid dtype (s_warehouse s))" by (simp add: file_scopes_def row_scopes_def header_scopes_def)
  then have "distinct (map watermark_key (map (new_watermark sid f sha dtype ts) (file_scopes sid dtype (s_warehouse s))))" for ts
    by (simp add: distinct_map inj_on_def)
  ultimately show ?thesis unfolding st(4) by (simp add: warehouse_inv_def distinct_upsert)
qed

section \<open>The order of files\<close>

text \<open>An application that returns found no later watermark, nor other content of the same timestamp, and moved those of its scopes.\<close>

lemma apply_file_order:
  assumes run: "apply_file limits sid dtype least drop_limit s = (Inr x, s')"
  obtains f sha where "archived_source (s_store s) sid = Some (f, sha)"
    "\<forall>m\<in>set (w_watermarks (s_warehouse s)). watermark_key m \<in> (\<lambda>sc. (f_retailer_id f, f_portal_id f, document_family dtype, sc)) `
        set (file_scopes sid dtype (s_warehouse s)) \<longrightarrow> wm_effective_source_timestamp m < effective_timestamp f (declared_updates sid (s_warehouse s)) \<or>
        wm_effective_source_timestamp m = effective_timestamp f (declared_updates sid (s_warehouse s)) \<and> wm_source_content_sha256 m = sha"
    "\<forall>k. watermark_of (s_warehouse s') k = (if k \<in> (\<lambda>sc. (f_retailer_id f, f_portal_id f, document_family dtype, sc)) `
        set (file_scopes sid dtype (s_warehouse s)) then Some (effective_timestamp f (declared_updates sid (s_warehouse s))) else watermark_of (s_warehouse s) k)"
    "\<forall>i t. applied_instant i (s_warehouse s) = Some t \<longrightarrow> applied_instant i (s_warehouse s') = Some t"
proof -
  from apply_file_steps [OF run] obtain f sha a rebuild s1 s2 t w where
    st: "archived_source (s_store s) sid = Some (f, sha)"
      "order_verdict f sha (declared_updates sid (s_warehouse s)) (watermarks_in f dtype (file_scopes sid dtype (s_warehouse s)) (s_warehouse s)) = None"
      "s_warehouse s1 = s_warehouse s"
      "claim_content sid f sha dtype (db_now (s_store s)) (effective_timestamp f (declared_updates sid (s_warehouse s))) a rebuild s1 = (Inr t, s2)"
      "apply_document sid f dtype t least drop_limit (s_warehouse s2) = (Inr x, w)"
      "s_warehouse s' = w\<lparr>w_watermarks := upsert watermark_key merge_watermark
         (map (new_watermark sid f sha dtype (effective_timestamp f (declared_updates sid (s_warehouse s)))) (file_scopes sid dtype (s_warehouse s))) (w_watermarks w)\<rparr>" .
  have same: "w_watermarks w = w_watermarks (s_warehouse s)" "w_contents w = w_contents (s_warehouse s2)"
    using claim_effect(2) [OF st(4)] apply_document_frame [OF st(5)] st(3) by auto
  have "w_watermarks (s_warehouse s') = upsert watermark_key merge_watermark (map (new_watermark sid f sha dtype
      (effective_timestamp f (declared_updates sid (s_warehouse s)))) (file_scopes sid dtype (s_warehouse s))) (w_watermarks (s_warehouse s))"
    by (simp add: st(6) same)
  note adv = watermark_advance [OF this]
  have "applied_instant i (s_warehouse s') = applied_instant i (s_warehouse s2)" for i by (simp add: applied_instant_def st(6) same(2))
  then have claimed: "\<forall>i t. applied_instant i (s_warehouse s) = Some t \<longrightarrow> applied_instant i (s_warehouse s') = Some t"
    using claim_effect(5) [OF st(4)] st(3) by simp
  show thesis by (rule that [OF st(1) _ _ claimed]) (use in_order [OF st(2)] adv in blast)+
qed

lemma late_file_raises:
  assumes "watermark_of (s_warehouse s) (f_retailer_id f, f_portal_id f, document_family dtype, sc) = Some t" "archived_source (s_store s) sid = Some (f, sha)"
    "sc \<in> set (file_scopes sid dtype (s_warehouse s))" "effective_timestamp f (declared_updates sid (s_warehouse s)) < t"
  shows "\<exists>e s'. apply_file limits sid dtype least drop_limit s = (Inl e, s') \<and> s_warehouse s' = s_warehouse s"
proof (cases "apply_file limits sid dtype least drop_limit s")
  case (Pair r s')
  show ?thesis
  proof (cases r)
    case (Inl e)
    then show ?thesis using apply_file_raises Pair by blast
  next
    case (Inr x)
    from assms(1) obtain m where m: "find (\<lambda>m. watermark_key m = (f_retailer_id f, f_portal_id f, document_family dtype, sc)) (w_watermarks (s_warehouse s)) = Some m"
      "wm_effective_source_timestamp m = t" by (auto simp: watermark_of_def)
    from apply_file_order [OF Pair [unfolded Inr]] obtain f' sha' where o: "archived_source (s_store s) sid = Some (f', sha')"
      "\<forall>m\<in>set (w_watermarks (s_warehouse s)). watermark_key m \<in> (\<lambda>sc. (f_retailer_id f', f_portal_id f', document_family dtype, sc)) `
        set (file_scopes sid dtype (s_warehouse s)) \<longrightarrow> wm_effective_source_timestamp m < effective_timestamp f' (declared_updates sid (s_warehouse s)) \<or>
        wm_effective_source_timestamp m = effective_timestamp f' (declared_updates sid (s_warehouse s)) \<and> wm_source_content_sha256 m = sha'" .
    have "f' = f" using o(1) assms(2) by simp
    then show ?thesis using bspec [OF o(2), of m] find_in [OF m(1)] assms(3,4) m(2) by fastforce
  qed
qed

section \<open>Sequences of steps\<close>

text \<open>
  Between two applications files are registered, parsed, staged, retried and replayed: the source store and the staging
  tables change in any way, the other tables do not.
\<close>

definition unstaged :: "warehouse \<Rightarrow> warehouse" where
  "unstaged w = w\<lparr>w_catalogue := (w_catalogue w)\<lparr>c_next_id := 0, c_now := 0, c_staged_documents := [], c_staged_stores := [], c_staged_prices := []\<rparr>,
     w_staged_promotions := [], w_staged_promotion_items := [], w_staged_promotion_stores := [], w_staged_promotion_clubs := []\<rparr>"

inductive platform_step :: "platform \<Rightarrow> platform \<Rightarrow> bool" where
  Apply: "apply_file limits sid dtype least drop_limit s = (r, s') \<Longrightarrow> platform_step s s'"
| Prepare: "unstaged (s_warehouse s') = unstaged (s_warehouse s) \<Longrightarrow> platform_step s s'"

lemma unstaged_tables:
  assumes "unstaged w' = unstaged w"
  shows "c_prices (w_catalogue w') = c_prices (w_catalogue w)" "c_price_history (w_catalogue w') = c_price_history (w_catalogue w)"
    "c_availability (w_catalogue w') = c_availability (w_catalogue w)" "c_availability_history (w_catalogue w') = c_availability_history (w_catalogue w)"
    "c_stores (w_catalogue w') = c_stores (w_catalogue w)" "c_items (w_catalogue w') = c_items (w_catalogue w)"
    "same_evidence (w_catalogue w) (w_catalogue w')"
    "w_promotions w' = w_promotions w" "w_watermarks w' = w_watermarks w" "w_contents w' = w_contents w"
  using arg_cong [OF assms, of "\<lambda>w. c_prices (w_catalogue w)"] arg_cong [OF assms, of "\<lambda>w. c_price_history (w_catalogue w)"]
    arg_cong [OF assms, of "\<lambda>w. c_availability (w_catalogue w)"] arg_cong [OF assms, of "\<lambda>w. c_availability_history (w_catalogue w)"]
    arg_cong [OF assms, of "\<lambda>w. c_stores (w_catalogue w)"] arg_cong [OF assms, of "\<lambda>w. c_items (w_catalogue w)"]
    arg_cong [OF assms, of "\<lambda>w. c_assertions (w_catalogue w)"] arg_cong [OF assms, of "\<lambda>w. c_groups (w_catalogue w)"]
    arg_cong [OF assms, of "\<lambda>w. c_identifiers (w_catalogue w)"] arg_cong [OF assms, of "\<lambda>w. c_matches (w_catalogue w)"]
    arg_cong [OF assms, of w_promotions] arg_cong [OF assms, of w_watermarks] arg_cong [OF assms, of w_contents]
  by (simp_all add: unstaged_def same_evidence_def item_of_def)

lemma unstaged_inv:
  assumes "unstaged w' = unstaged w" "warehouse_inv w"
  shows "warehouse_inv w'"
proof -
  note t = unstaged_tables [OF assms(1)]
  have "gtin_inv (w_catalogue w')" by (rule gtin_inv_same [OF _ t(7)]) (use assms(2) in \<open>simp add: warehouse_inv_def catalogue_inv_def\<close>)
  then show ?thesis using assms(2) inv_other_tables [OF t(1-4)] t(5,6,8-10) by (simp add: warehouse_inv_def catalogue_inv_def)
qed

text \<open>What has happened stays so: watermarks do not go back, an instant of application is for ever.\<close>

definition keeps_past :: "warehouse \<Rightarrow> warehouse \<Rightarrow> bool" where
  "keeps_past w w' \<longleftrightarrow> (\<forall>k t. watermark_of w k = Some t \<longrightarrow> (\<exists>t'. watermark_of w' k = Some t' \<and> t \<le> t')) \<and>
     (\<forall>i t. applied_instant i w = Some t \<longrightarrow> applied_instant i w' = Some t)"

lemma keeps_past_refl: "keeps_past w w"
  by (simp add: keeps_past_def)

lemma keeps_past_same: "w_watermarks w' = w_watermarks w \<Longrightarrow> w_contents w' = w_contents w \<Longrightarrow> keeps_past w w'"
  by (auto simp: keeps_past_def watermark_of_def applied_instant_def)

lemma keeps_past_trans: "keeps_past w w' \<Longrightarrow> keeps_past w' w'' \<Longrightarrow> keeps_past w w''"
  unfolding keeps_past_def by (meson order_trans)

lemma apply_file_keeps_past:
  assumes run: "apply_file limits sid dtype least drop_limit s = (r, s')"
  shows "keeps_past (s_warehouse s) (s_warehouse s')"
proof (cases r)
  case (Inl e)
  then show ?thesis using apply_file_raises run by (simp add: keeps_past_refl)
next
  case (Inr x)
  from apply_file_order [OF run [unfolded Inr]] obtain f sha where
    o: "archived_source (s_store s) sid = Some (f, sha)"
      "\<forall>k. watermark_of (s_warehouse s') k = (if k \<in> (\<lambda>sc. (f_retailer_id f, f_portal_id f, document_family dtype, sc)) `
        set (file_scopes sid dtype (s_warehouse s)) then Some (effective_timestamp f (declared_updates sid (s_warehouse s))) else watermark_of (s_warehouse s) k)"
      "\<forall>i t. applied_instant i (s_warehouse s) = Some t \<longrightarrow> applied_instant i (s_warehouse s') = Some t" .
  have "t \<le> effective_timestamp f (declared_updates sid (s_warehouse s))" if "watermark_of (s_warehouse s) (f_retailer_id f, f_portal_id f, document_family dtype, sc) = Some t"
    "sc \<in> set (file_scopes sid dtype (s_warehouse s))" for sc t
    using late_file_raises [OF that(1) o(1) that(2), of limits least drop_limit] run Inr by fastforce
  then show ?thesis using o(2,3) by (auto simp: keeps_past_def)
qed

lemma step_keeps:
  assumes "platform_step s s'"
  shows "keeps_past (s_warehouse s) (s_warehouse s')" "warehouse_inv (s_warehouse s) \<Longrightarrow> warehouse_inv (s_warehouse s')"
  using assms keeps_past_same [OF unstaged_tables(9,10)]
  by (auto elim!: platform_step.cases intro: apply_file_keeps_past apply_file_inv unstaged_inv)

lemma steps_keep_past: "platform_step\<^sup>*\<^sup>* s s' \<Longrightarrow> keeps_past (s_warehouse s) (s_warehouse s')"
  by (induction rule: rtranclp_induct) (auto simp: keeps_past_refl intro: keeps_past_trans step_keeps)

lemma steps_keep_inv: "platform_step\<^sup>*\<^sup>* s s' \<Longrightarrow> warehouse_inv (s_warehouse s) \<Longrightarrow> warehouse_inv (s_warehouse s')"
  by (induction rule: rtranclp_induct) (auto intro: step_keeps)


lemma overtaken_prices:
  assumes "p \<in> set (price_incoming sid c)" "find (\<lambda>i. item_key i = (rid, pid, sp_source_item_code p)) (c_items c) = Some i"
    and "a \<in> set (c_assertions c)" "live_gtin a" "as_retailer_item_id a = it_id i" "as_source_file_id a \<noteq> sid" "applied_at < as_asserted_at a"
  shows "apply_prices sid rid pid applied_at is_full m d c \<noteq> (Inr s, c')"
proof
  assume "apply_prices sid rid pid applied_at is_full m d c = (Inr s, c')"
  from apply_prices_frame [OF this] obtain c2 c3 where s: "match_exact_gtins sid rid pid applied_at c2 = (Inr (), c3)" "prepared sid rid pid c c2" .
  obtain i' where i': "find (\<lambda>i. it_source_item_code i = sp_source_item_code p) (exact_gtin_items sid rid pid c2) = Some i'" "it_id i' = it_id i"
    by (rule known_item [OF s(2) assms(1,2)])
  have "a \<in> set (c_assertions c2)" using s(2) assms(3) unfolding prepared_def by auto
  with overtaken_raises [of i' sid rid pid c2 a applied_at] find_in [OF i'(1)] i'(2) assms(4-7) s(1) show False by simp
qed

lemma overtaken_file:
  assumes src: "archived_source (s_store s) sid = Some (f, sha)" and prices: "is_price dtype" and claimed: "applied_instant sid (s_warehouse s) = Some t"
    and "p \<in> set (price_incoming sid (w_catalogue (s_warehouse s)))"
      "find (\<lambda>i. item_key i = (f_retailer_id f, f_portal_id f, sp_source_item_code p)) (c_items (w_catalogue (s_warehouse s))) = Some i"
    and "a \<in> set (c_assertions (w_catalogue (s_warehouse s)))" "live_gtin a" "as_retailer_item_id a = it_id i" "as_source_file_id a \<noteq> sid" "t < as_asserted_at a"
  shows "apply_file limits sid dtype least drop_limit s \<noteq> (Inr x, s')"
proof
  assume run: "apply_file limits sid dtype least drop_limit s = (Inr x, s')"
  from apply_file_steps [OF run] obtain f' sha' b rebuild s1 s2 t' w where st: "archived_source (s_store s) sid = Some (f', sha')"
      "s_warehouse s1 = s_warehouse s"
      "claim_content sid f' sha' dtype (db_now (s_store s)) (effective_timestamp f' (declared_updates sid (s_warehouse s))) b rebuild s1 = (Inr t', s2)"
      "apply_document sid f' dtype t' least drop_limit (s_warehouse s2) = (Inr x, w)" .
  have t: "t' = t" "w_catalogue (s_warehouse s2) = w_catalogue (s_warehouse s)" "f' = f"
    using claim_effect(2,4) [OF st(3)] claimed st(1,2) src by auto
  have "dtype \<noteq> STORES" using prices by (cases dtype) simp_all
  then obtain c' where "apply_prices sid (f_retailer_id f) (f_portal_id f) t (is_full_snapshot dtype) least drop_limit (w_catalogue (s_warehouse s)) = (Inr x, c')"
    using st(4) prices t by (auto simp: apply_document_def on_catalogue_eq)
  with overtaken_prices [OF assms(4-10)] show False by blast
qed

section \<open>Properties\<close>

text \<open>
  C10. Files are applied in the order of their timestamps, scope by scope. A call of apply that returns had, in every scope of the file, no
  watermark later than the timestamp of the file and none with the same timestamp from other content; it moves
  the watermarks of these scopes to the timestamp and no others. A call that raises, for whatever reason,
  leaves stores, prices, promotions, watermarks and claims as they were.
\<close>
theorem apply_respects_order:
  assumes run: "apply_file limits sid dtype least drop_limit s = (r, s')"
  shows "case r of
      Inl e \<Rightarrow> s_warehouse s' = s_warehouse s
    | Inr x \<Rightarrow> (\<exists>f sha. archived_source (s_store s) sid = Some (f, sha) \<and>
        (let ts = effective_timestamp f (declared_updates sid (s_warehouse s)); scopes = file_scopes sid dtype (s_warehouse s);
             key = (\<lambda>sc. (f_retailer_id f, f_portal_id f, document_family dtype, sc)) in
         (\<forall>m\<in>set (w_watermarks (s_warehouse s)). watermark_key m \<in> key ` set scopes \<longrightarrow>
            wm_effective_source_timestamp m < ts \<or> wm_effective_source_timestamp m = ts \<and> wm_source_content_sha256 m = sha) \<and>
         (\<forall>k. watermark_of (s_warehouse s') k = (if k \<in> key ` set scopes then Some ts else watermark_of (s_warehouse s) k))))"
proof (cases r)
  case (Inl e)
  then show ?thesis using apply_file_raises run by simp
next
  case (Inr x)
  from apply_file_order [OF run [unfolded Inr]] obtain f sha where
    o: "archived_source (s_store s) sid = Some (f, sha)"
      "\<forall>m\<in>set (w_watermarks (s_warehouse s)). watermark_key m \<in> (\<lambda>sc. (f_retailer_id f, f_portal_id f, document_family dtype, sc)) `
        set (file_scopes sid dtype (s_warehouse s)) \<longrightarrow> wm_effective_source_timestamp m < effective_timestamp f (declared_updates sid (s_warehouse s)) \<or>
        wm_effective_source_timestamp m = effective_timestamp f (declared_updates sid (s_warehouse s)) \<and> wm_source_content_sha256 m = sha"
      "\<forall>k. watermark_of (s_warehouse s') k = (if k \<in> (\<lambda>sc. (f_retailer_id f, f_portal_id f, document_family dtype, sc)) `
        set (file_scopes sid dtype (s_warehouse s)) then Some (effective_timestamp f (declared_updates sid (s_warehouse s))) else watermark_of (s_warehouse s) k)" .
  show ?thesis unfolding Inr sum.case Let_def by (rule exI [of _ f], rule exI [of _ sha]) (intro conjI o)
qed

text \<open>
  C11. Whatever is registered, staged, applied, retried and replayed, in whatever order and with whatever errors in between, the tables
  stay consistent: every current price and availability is the open end of a gapless history without overlaps, every
  promotion has one open row, keys of stores, items, watermarks and claims are unique, and every automatic match and corroborated
  identifier rests on live assertions of a GTIN.
\<close>
theorem tables_stay_consistent:
  assumes "platform_step\<^sup>*\<^sup>* s s'" "warehouse_inv (s_warehouse s)"
  shows "warehouse_inv (s_warehouse s')"
  by (rule steps_keep_inv [OF assms])

text \<open>
  C39. The price file of one store cannot be replayed after a later file of another store of the portal named the GTIN of an item that
  both list: the replay raises and changes no table.
\<close>
theorem overtaken_replay_fails:
  assumes "archived_source (s_store s) sid = Some (f, sha)" "is_price dtype" "applied_instant sid (s_warehouse s) = Some t"
    and "p \<in> set (price_incoming sid (w_catalogue (s_warehouse s)))"
      "find (\<lambda>i. item_key i = (f_retailer_id f, f_portal_id f, sp_source_item_code p)) (c_items (w_catalogue (s_warehouse s))) = Some i"
    and "a \<in> set (c_assertions (w_catalogue (s_warehouse s)))" "live_gtin a" "as_retailer_item_id a = it_id i" "as_source_file_id a \<noteq> sid" "t < as_asserted_at a"
  shows "\<exists>e s'. apply_file limits sid dtype least drop_limit s = (Inl e, s') \<and> s_warehouse s' = s_warehouse s"
proof (cases "apply_file limits sid dtype least drop_limit s")
  case (Pair r s')
  then obtain e where "r = Inl e" using overtaken_file [OF assms, of limits least drop_limit] by (cases r) auto
  then show ?thesis using apply_file_raises Pair by blast
qed

section \<open>Examples\<close>

text \<open>Two files with the prices of two stores of one portal, both list the same item.\<close>

definition demo_file :: "nat \<Rightarrow> int \<Rightarrow> SourceFile" where
  "demo_file sid ts = \<lparr>f_id = sid, f_retailer_id = 10, f_portal_id = 20, f_remote_id = [], f_download_url = [], f_original_filename = [],
     f_document_type = PRICE_DELTA, f_compression = GZIP, f_protocol = HTTPS, f_status = APPLYING, f_discovered_at = Aware ts,
     f_source_timestamp = Some (Aware ts), f_declared_content_length = None, f_media_type = None, f_etag = None, f_last_modified = None,
     f_response_metadata = [], f_archive_object_id = Some sid, f_parser_version = None, f_download_started_at = None, f_download_finished_at = None,
     f_download_status_code = None, f_download_content_length = None, f_download_response_metadata = None, f_error_code = None, f_updated_at = 0\<rparr>"

definition demo_source :: "int \<Rightarrow> database" where
  "demo_source now = empty_database\<lparr>db_now := now, db_source_files := [demo_file 5 1, demo_file 6 2],
     db_archive_objects := [\<lparr>ao_id = 5, ao_content_sha256 = lit ''a'', ao_object_key = [], ao_content_length = 1, ao_archived_at = Aware 0\<rparr>,
       \<lparr>ao_id = 6, ao_content_sha256 = lit ''b'', ao_object_key = [], ao_content_length = 1, ao_archived_at = Aware 0\<rparr>],
     db_runs := [\<lparr>run_id = 7, run_source_file_id = 5, run_attempt = 1, run_status = APPLYING, run_error_code = None, run_finished_at = None\<rparr>,
       \<lparr>run_id = 8, run_source_file_id = 6, run_attempt = 1, run_status = APPLYING, run_error_code = None, run_finished_at = None\<rparr>]\<rparr>"

definition demo_platform :: platform where
  "demo_platform = \<lparr>s_store = demo_source 3,
     s_warehouse = demo_warehouse\<lparr>w_catalogue := empty_catalogue\<lparr>c_staged_prices := [demo_staged 5 3, (demo_staged 6 4)\<lparr>sp_source_store_id := lit ''3''\<rparr>]\<rparr>,
       w_promotions := [], w_staged_promotions := [], w_staged_promotion_items := []\<rparr>,
     s_issue_counts = [], s_issues = [], s_results = [], s_rebuild_files = []\<rparr>"

definition demo_limits :: issue_limits where
  "demo_limits = \<lparr>maximum_issues = 1, maximum_issue_bytes = 1, maximum_evidence = 1\<rparr>"

lemmas platform_eval = apply_file_def file_transaction_def atomically_def apply_steps_def on_store_def on_warehouse_def lock_source_for_apply_def
  archived_source_def source_file_def open_replay_def current_attempt_def current_run_id_def current_run_def runs_of_def maintenance_allows_def
  validate_source_ordering_def prepare_source_scopes_def file_scopes_def row_scopes_def declared_updates_def warn_missing_timestamp_def
  warn_stale_def record_verdict_def order_verdict_def out_of_order_def watermarks_in_def watermark_key_def document_family_def observed_at_def
  effective_timestamp_def declared_timestamps_def MAXIMUM_FUTURE_SOURCE_SKEW_def SOURCE_STALENESS_WARNING_AGE_def
  apply_in_order_def claim_content_def applied_instant_def rebuild_applied_at_def apply_document_def on_catalogue_def
  advance_source_watermarks_def new_watermark_def merge_watermark_def

lemmas demo_defs = demo_platform_def demo_source_def demo_file_def demo_limits_def demo_warehouse_def empty_database_def empty_catalogue_def demo_staged_def lit_def

lemma demo_platform_run:
  obtains x s' where "apply_file demo_limits 5 PRICE_DELTA 0 1 demo_platform = (Inr x, s')" "length (c_prices (w_catalogue (s_warehouse s'))) = 1"
    "map (\<lambda>m. (wm_source_scope_code m, wm_effective_source_timestamp m)) (w_watermarks (s_warehouse s')) = [(lit ''2'', 1)]"
proof -
  have "(case apply_file demo_limits 5 PRICE_DELTA 0 1 demo_platform of (r, s') \<Rightarrow>
      (map_sum (\<lambda>_. ()) (\<lambda>s. (inserted s, updated s)) r, length (c_prices (w_catalogue (s_warehouse s'))),
       map (\<lambda>m. (wm_source_scope_code m, wm_effective_source_timestamp m)) (w_watermarks (s_warehouse s')))) = (Inr (1, 0), 1, [(lit ''2'', 1)])"
    by (simp add: demo_defs platform_eval price_eval gtin_eval abind_eval del: set_filter cong: abind_weak_cong)
  then show thesis using that by (cases "apply_file demo_limits 5 PRICE_DELTA 0 1 demo_platform"; cases "fst (apply_file demo_limits 5 PRICE_DELTA 0 1 demo_platform)") auto
qed

lemma demo_platform_inv: "warehouse_inv (s_warehouse demo_platform)"
  by (simp add: demo_defs warehouse_inv_def catalogue_inv_def price_inv_def availability_inv_def gtin_inv_def unique_open_def asserting_retailers_def
    price_line_def availability_line_def timeline_def current_price_def current_availability_def last_value_def)

theorem apply_respects_order_witness:
  "\<exists>x s'. apply_file demo_limits 5 PRICE_DELTA 0 1 demo_platform = (Inr x, s') \<and> watermark_of (s_warehouse s') (10, 20, ''prices'', lit ''1'', lit ''2'') = Some 1"
proof -
  obtain x s' where r: "apply_file demo_limits 5 PRICE_DELTA 0 1 demo_platform = (Inr x, s')" by (rule demo_platform_run)
  have f: "archived_source (s_store demo_platform) 5 = Some (demo_file 5 1, lit ''a'')" by (simp add: demo_defs archived_source_def source_file_def)
  have t: "effective_timestamp (demo_file 5 1) (declared_updates 5 (s_warehouse demo_platform)) = 1"
    "file_scopes 5 PRICE_DELTA (s_warehouse demo_platform) = [(lit ''1'', lit ''2'')]"
    by (simp_all add: demo_defs effective_timestamp_def declared_timestamps_def declared_updates_def file_scopes_def row_scopes_def List.map_filter_def)
  have "watermark_of (s_warehouse s') (10, 20, ''prices'', lit ''1'', lit ''2'') = Some 1"
    using apply_respects_order [OF r] f t by (simp add: Let_def demo_file_def document_family_def)
  with r show ?thesis by blast
qed

theorem tables_stay_consistent_witness:
  "\<exists>s'. platform_step\<^sup>*\<^sup>* demo_platform s' \<and> length (c_prices (w_catalogue (s_warehouse s'))) = 1 \<and> warehouse_inv (s_warehouse s')"
proof -
  obtain x s' where r: "apply_file demo_limits 5 PRICE_DELTA 0 1 demo_platform = (Inr x, s')" "length (c_prices (w_catalogue (s_warehouse s'))) = 1"
    by (rule demo_platform_run)
  have s: "platform_step\<^sup>*\<^sup>* demo_platform s'" using platform_step.Apply [OF r(1)] by (rule r_into_rtranclp)
  show ?thesis using s r(2) tables_stay_consistent [OF s demo_platform_inv] by blast
qed

text \<open>The state after both: the second file, at instant 4, named the GTIN last; the first, of instant 3, is replayed.\<close>

definition demo_overtaken :: platform where
  "demo_overtaken = demo_platform\<lparr>
     s_store := (demo_source 5)\<lparr>db_replays := [\<lparr>rp_id = 9, rp_source_file_id = 5, rp_rebuild_run_id = None, rp_requested_parser_version = lit ''1'',
       rp_previous_parser_version = None, rp_status = APPLYING, rp_finished_at = None, rp_succeeded = None, rp_error_code = None\<rparr>]\<rparr>,
     s_warehouse := (s_warehouse demo_platform)\<lparr>
       w_catalogue := (w_catalogue (s_warehouse demo_platform))\<lparr>c_stores := [price_store 5 10 20 3 50 (demo_staged 5 3)],
         c_items := [price_item 6 10 20 4 51 (demo_staged 6 3)],
         c_assertions := [\<lparr>as_id = 60, as_retailer_item_id = 51, as_kind = GTIN, as_normalized_value = lit ''4006381333931'',
           as_source_file_id = 6, as_asserted_at = 4, as_superseded_at = None\<rparr>],
         c_groups := [\<lparr>mg_id = 62, mg_kind = GTIN, mg_normalized_value = lit ''4006381333931'', mg_canonical_product_id = 61\<rparr>]\<rparr>,
       w_contents := [\<lparr>ac_source_file_id = 5, ac_retailer_id = 10, ac_portal_id = 20, ac_document_type = PRICE_DELTA, ac_content_sha256 = lit ''a'', ac_applied_at = 3\<rparr>,
         \<lparr>ac_source_file_id = 6, ac_retailer_id = 10, ac_portal_id = 20, ac_document_type = PRICE_DELTA, ac_content_sha256 = lit ''b'', ac_applied_at = 4\<rparr>],
       w_watermarks := [new_watermark 5 (demo_file 5 1) (lit ''a'') PRICE_DELTA 1 (lit ''1'', lit ''2''),
         new_watermark 6 (demo_file 6 2) (lit ''b'') PRICE_DELTA 2 (lit ''1'', lit ''3'')]\<rparr>\<rparr>"

theorem overtaken_replay_fails_witness:
  "\<exists>e s'. apply_file demo_limits 5 PRICE_DELTA 0 1 demo_overtaken = (Inl e, s') \<and> s_warehouse s' = s_warehouse demo_overtaken"
  by (rule overtaken_replay_fails [where f = "demo_file 5 1" and sha = "lit ''a''" and t = 3 and p = "demo_staged 5 3" and i = "price_item 6 10 20 4 51 (demo_staged 6 3)"
    and a = "hd (c_assertions (w_catalogue (s_warehouse demo_overtaken)))"])
    (simp_all add: demo_overtaken_def demo_defs archived_source_def source_file_def applied_instant_def price_incoming_def staged_key_def price_item_def item_key_def live_gtin_def)

end
