(* ===== verification/Rebuild.thy ===== *)
theory Rebuild
  imports Platform_Run "HOL-Library.Multiset"
begin

text \<open>
  The rebuild of derived tables (\<^verbatim>\<open>adapters/persistence/maintenance.py\<close>). A rebuild records the files to replay in a fixed order,
  keeps a snapshot of all tables, clears the derived ones and raises a barrier that lets only its own replays apply. It ends
  when every file has been replayed; when neither the parser nor the set of files has changed, it ends only with the
  rows of the snapshot.
\<close>

section \<open>State\<close>

text \<open>
  \<^verbatim>\<open>normalized_rebuild_runs\<close> without the status, which the barrier reads in \<open>db_rebuild_runs\<close>. A snapshot is kept as the tables it was
  taken of; the outcome that is written next to a snapshot for people is left out.
\<close>

record RebuildRun =
  rb_id :: nat
  rb_requested_by :: ustr
  rb_requested_parser_version :: ustr
  rb_archive_cutoff_at :: int
  rb_source_files_total :: int
  rb_source_files_completed :: int
  rb_last_sequence :: "int option"
  rb_last_source_file_id :: "nat option"
  rb_last_archived_at :: "datetime option"
  rb_finished_at :: "int option"
  rb_error_code :: "string option"

datatype snapshot_phase = Original | Rebuilt

record maintenance =
  m_platform :: platform
  m_rebuilds :: "RebuildRun list"
  m_snapshots :: "((nat \<times> snapshot_phase) \<times> warehouse) list"
  m_lock_held :: bool

type_synonym 'a upkeep = "(maintenance, exn, 'a) action"

definition on_tables :: "(warehouse \<Rightarrow> warehouse) \<Rightarrow> maintenance \<Rightarrow> maintenance" where
  "on_tables f m = m\<lparr>m_platform := (m_platform m)\<lparr>s_warehouse := f (s_warehouse (m_platform m))\<rparr>\<rparr>"

definition on_database :: "(database \<Rightarrow> database) \<Rightarrow> maintenance \<Rightarrow> maintenance" where
  "on_database f m = m\<lparr>m_platform := (m_platform m)\<lparr>s_store := f (s_store (m_platform m))\<rparr>\<rparr>"

definition set_rebuild_status :: "nat \<Rightarrow> string \<Rightarrow> maintenance \<Rightarrow> maintenance" where
  "set_rebuild_status b st = on_database (\<lambda>d. d\<lparr>db_rebuild_runs := map (\<lambda>(i, old). (i, if i = b then st else old)) (db_rebuild_runs d)\<rparr>)"

definition rebuild_status_of :: "nat \<Rightarrow> maintenance \<Rightarrow> string option" where
  "rebuild_status_of b m = map_of (db_rebuild_runs (s_store (m_platform m))) b"

definition active_rebuild :: "maintenance \<Rightarrow> nat option" where
  "active_rebuild m = db_active_rebuild (s_store (m_platform m))"

definition files_of :: "nat \<Rightarrow> maintenance \<Rightarrow> RebuildFile list" where
  "files_of b m = filter (\<lambda>r. rf_rebuild_run_id r = b) (s_rebuild_files (m_platform m))"

section \<open>Archived files\<close>

record ArchivedSourceFile =
  asf_source_file_id :: nat
  asf_archived_at :: "datetime option"

definition MAXIMUM_ARCHIVE_PAGE_SIZE :: int where
  "MAXIMUM_ARCHIVE_PAGE_SIZE = 200"

definition bounded_limit :: "int \<Rightarrow> exn + nat" where
  "bounded_limit limit = (if limit \<le> 0 \<or> limit > MAXIMUM_ARCHIVE_PAGE_SIZE then Inl (exn_of QueryLimitError) else Inr (nat limit))"

fun download_instant :: "SourceFile \<Rightarrow> int option" where
  "download_instant f = map_option instant (f_download_finished_at f)"

definition archive_position :: "SourceFile \<Rightarrow> int \<times> nat" where
  "archive_position f = (case download_instant f of None \<Rightarrow> 0 | Some t \<Rightarrow> t, f_id f)"

definition archived_between :: "int \<Rightarrow> int \<Rightarrow> database \<Rightarrow> SourceFile list" where
  "archived_between since until d =
     sort_key archive_position (filter (\<lambda>f. f_archive_object_id f \<noteq> None \<and>
       (case download_instant f of None \<Rightarrow> False | Some t \<Rightarrow> since \<le> t \<and> t < until)) (db_source_files d))"

text \<open>A cursor that names no archived file has no position: the comparison with it is NULL and the page is empty.\<close>

definition after_cursor :: "nat option \<Rightarrow> database \<Rightarrow> SourceFile \<Rightarrow> bool" where
  "after_cursor cursor d f =
     (case cursor of
        None \<Rightarrow> True
      | Some i \<Rightarrow> (case find (\<lambda>g. f_id g = i \<and> f_archive_object_id g \<noteq> None) (db_source_files d) of
          None \<Rightarrow> False
        | Some g \<Rightarrow> download_instant g \<noteq> None \<and> archive_position g < archive_position f))"

text \<open>\<^verbatim>\<open>UUID(text)\<close> and \<^verbatim>\<open>str(uuid)\<close>.\<close>

record uuid_library =
  parse_uuid :: "ustr \<Rightarrow> nat option"
  str_uuid :: "nat \<Rightarrow> ustr"

definition uuid_cursor :: "uuid_library \<Rightarrow> ustr option \<Rightarrow> exn + nat option" where
  "uuid_cursor U cursor =
     (case cursor of
        None \<Rightarrow> Inr None
      | Some c \<Rightarrow>
          if length c > 128 \<or> list_ex (\<lambda>ch. ch < 32) c then Inl (exn_of DomainValidationError)
          else case parse_uuid U c of None \<Rightarrow> Inl (exn_of DomainValidationError) | Some i \<Rightarrow> Inr (Some i))"

definition archive_page :: "int \<Rightarrow> int \<Rightarrow> nat \<Rightarrow> nat option \<Rightarrow> database \<Rightarrow> SourceFile list" where
  "archive_page since until n cursor d = take n (filter (after_cursor cursor d) (archived_between since until d))"

definition list_archived_files :: "uuid_library \<Rightarrow> int \<Rightarrow> int \<Rightarrow> int \<Rightarrow> ustr option \<Rightarrow> (ArchivedSourceFile list \<times> ustr option) upkeep" where
  "list_archived_files U since until limit cursor =
     abind (of_result (bounded_limit limit)) (\<lambda>n.
     abind (of_result (uuid_cursor U cursor)) (\<lambda>position.
     aget (\<lambda>m. let rows = archive_page since until (n + 1) position (s_store (m_platform m));
         files = map (\<lambda>f. \<lparr>asf_source_file_id = f_id f, asf_archived_at = f_download_finished_at f\<rparr>) (take n rows)
       in (files, if length rows > n then Some (str_uuid U (asf_source_file_id (last files))) else None))))"

section \<open>Begin\<close>

text \<open>
  \<^verbatim>\<open>_capture_snapshots\<close>. Each phase of a run is captured once: an attempt to finish that raises rolls its snapshot back.
\<close>

definition capture_snapshots :: "nat \<Rightarrow> snapshot_phase \<Rightarrow> unit upkeep" where
  "capture_snapshots b phase = amodify (\<lambda>m. m\<lparr>m_snapshots := ((b, phase), s_warehouse (m_platform m)) # m_snapshots m\<rparr>)"

definition original_of :: "nat \<Rightarrow> maintenance \<Rightarrow> warehouse option" where
  "original_of b m = map_of (m_snapshots m) (b, Original)"

definition archive_known :: "database \<Rightarrow> SourceFile \<Rightarrow> bool" where
  "archive_known d f = (case f_archive_object_id f of None \<Rightarrow> False | Some a \<Rightarrow> a \<in> set (map ao_id (db_archive_objects d)))"

definition eligible :: "int \<Rightarrow> database \<Rightarrow> SourceFile \<Rightarrow> bool" where
  "eligible cutoff d f \<longleftrightarrow> archive_known d f \<and> (case download_instant f of None \<Rightarrow> False | Some t \<Rightarrow> t \<le> cutoff) \<and>
     f_status f \<in> {COMPLETED, ARCHIVED}"

definition rebuild_timestamp :: "warehouse \<Rightarrow> SourceFile \<Rightarrow> int" where
  "rebuild_timestamp w f =
     (if declared_updates (f_id f) w \<noteq> [] then Max (set (declared_updates (f_id f) w))
      else case f_source_timestamp f of Some t \<Rightarrow> instant t | None \<Rightarrow> observed_at f)"

definition rebuild_position :: "warehouse \<Rightarrow> SourceFile \<Rightarrow> int \<times> nat" where
  "rebuild_position w f = (case applied_instant (f_id f) w of Some t \<Rightarrow> t | None \<Rightarrow> rebuild_timestamp w f, f_id f)"

definition rebuild_file :: "nat \<Rightarrow> warehouse \<Rightarrow> nat \<Rightarrow> SourceFile \<Rightarrow> RebuildFile" where
  "rebuild_file b w n f = \<lparr>rf_rebuild_run_id = b, rf_sequence = int n, rf_source_file_id = f_id f, rf_archived_at = f_download_finished_at f,
     rf_original_applied_at = applied_instant (f_id f) w, rf_original_parser_version = f_parser_version f,
     rf_effective_source_timestamp = rebuild_timestamp w f, rf_status = ''pending''\<rparr>"

definition rebuild_queue :: "nat \<Rightarrow> int \<Rightarrow> platform \<Rightarrow> RebuildFile list" where
  "rebuild_queue b cutoff s =
     numbered 1 (rebuild_file b (s_warehouse s)) (sort_key (rebuild_position (s_warehouse s)) (filter (eligible cutoff (s_store s)) (db_source_files (s_store s))))"

definition truncate_derived :: "warehouse \<Rightarrow> warehouse" where
  "truncate_derived w = w\<lparr>w_catalogue := (w_catalogue w)\<lparr>c_prices := [], c_price_history := [], c_availability := [], c_availability_history := [],
       c_assertions := [], c_staged_prices := [], c_staged_stores := [], c_staged_documents := []\<rparr>,
     w_promotions := [], w_promotion_items := [], w_promotion_stores := [], w_promotion_clubs := [], w_staged_promotions := [],
     w_staged_promotion_items := [], w_staged_promotion_stores := [], w_staged_promotion_clubs := [], w_watermarks := [], w_contents := []\<rparr>"

definition derived_identifier :: "IdentifierRow \<Rightarrow> bool" where
  "derived_identifier i \<longleftrightarrow> id_validation_method i \<in> {Some ''retailer_assertion'', Some ''independent_retailer_corroboration''}"

definition system_match :: "MatchRow \<Rightarrow> bool" where
  "system_match x \<longleftrightarrow> ma_confirmed_by x \<in> {lit ''system:exact-gtin'', lit ''system:exact-gtin-evidence''}"

definition delete_derived_matches :: "warehouse \<Rightarrow> warehouse" where
  "delete_derived_matches w = w\<lparr>w_catalogue := (w_catalogue w)\<lparr>c_matches := filter (\<lambda>x. \<not> system_match x) (c_matches (w_catalogue w)),
     c_identifiers := filter (\<lambda>i. \<not> derived_identifier i) (c_identifiers (w_catalogue w))\<rparr>\<rparr>"

definition new_rebuild :: "nat \<Rightarrow> ustr \<Rightarrow> ustr \<Rightarrow> int \<Rightarrow> RebuildRun" where
  "new_rebuild b requested_by version now = \<lparr>rb_id = b, rb_requested_by = requested_by, rb_requested_parser_version = version,
     rb_archive_cutoff_at = now, rb_source_files_total = 0, rb_source_files_completed = 0, rb_last_sequence = None, rb_last_source_file_id = None,
     rb_last_archived_at = None, rb_finished_at = None, rb_error_code = None\<rparr>"

definition run_row_ok :: "RebuildRun \<Rightarrow> bool" where
  "run_row_ok r \<longleftrightarrow> rb_requested_by r \<noteq> [] \<and> length (rb_requested_by r) \<le> 128 \<and>
     rb_requested_parser_version r \<noteq> [] \<and> length (rb_requested_parser_version r) \<le> 128 \<and>
     0 \<le> rb_source_files_total r \<and> 0 \<le> rb_source_files_completed r \<and> rb_source_files_completed r \<le> rb_source_files_total r"

definition insert_rebuild :: "ustr \<Rightarrow> ustr \<Rightarrow> nat upkeep" where
  "insert_rebuild requested_by version =
     abind (aget (\<lambda>m. (db_next_id (s_store (m_platform m)), db_now (s_store (m_platform m))))) (\<lambda>(b, now).
     abind (constraint (run_row_ok (new_rebuild b requested_by version now))) (\<lambda>_.
     abind (amodify (\<lambda>m. (on_database (\<lambda>d. d\<lparr>db_next_id := b + 1, db_rebuild_runs := db_rebuild_runs d @ [(b, ''running'')]\<rparr>) m)
       \<lparr>m_rebuilds := m_rebuilds m @ [new_rebuild b requested_by version now]\<rparr>)) (\<lambda>_.
     areturn b)))"

definition enqueue_files :: "nat \<Rightarrow> unit upkeep" where
  "enqueue_files b =
     abind (aget (\<lambda>m. db_now (s_store (m_platform m)))) (\<lambda>cutoff.
     abind (amodify (\<lambda>m. m\<lparr>m_platform := (m_platform m)\<lparr>s_rebuild_files := s_rebuild_files (m_platform m) @ rebuild_queue b cutoff (m_platform m)\<rparr>\<rparr>)) (\<lambda>_.
     amodify (\<lambda>m. m\<lparr>m_rebuilds := update_where (\<lambda>r. rb_id r = b) (\<lambda>r. r\<lparr>rb_source_files_total := int (length (files_of b m))\<rparr>) (m_rebuilds m)\<rparr>)))"

definition rebuild_view :: "nat \<Rightarrow> (RebuildRun \<times> string) upkeep" where
  "rebuild_view b =
     abind (aget (\<lambda>m. (find (\<lambda>r. rb_id r = b) (m_rebuilds m), rebuild_status_of b m))) (\<lambda>row.
     case row of (Some r, Some st) \<Rightarrow> areturn (r, st) | _ \<Rightarrow> araise (exn_of NotFoundError))"

definition begin_rebuild :: "ustr \<Rightarrow> ustr \<Rightarrow> (RebuildRun \<times> string) upkeep" where
  "begin_rebuild requested_by version = atomically
     (abind (aget active_rebuild) (\<lambda>active.
      if active \<noteq> None then araise (exn_of InvalidStateTransitionError)
      else
        abind (insert_rebuild requested_by version) (\<lambda>b.
        abind (enqueue_files b) (\<lambda>_.
        abind (amodify (on_database (\<lambda>d. d\<lparr>db_active_rebuild := Some b\<rparr>))) (\<lambda>_.
        abind (capture_snapshots b Original) (\<lambda>_.
        abind (amodify (on_tables truncate_derived)) (\<lambda>_.
        abind (amodify (on_tables delete_derived_matches)) (\<lambda>_.
        rebuild_view b))))))))"

section \<open>Progress\<close>

definition lock_rebuild_run :: "nat \<Rightarrow> (RebuildRun \<times> string) upkeep" where
  "lock_rebuild_run b = rebuild_view b"

definition resume_rebuild :: "nat \<Rightarrow> (RebuildRun \<times> string) upkeep" where
  "resume_rebuild b = atomically
     (abind (aget active_rebuild) (\<lambda>active.
      if active \<noteq> Some b then araise (exn_of InvalidStateTransitionError)
      else
        abind (lock_rebuild_run b) (\<lambda>(run, status).
        if status = ''completed'' then araise (exn_of InvalidStateTransitionError)
        else
          abind (amodify (\<lambda>m. (set_rebuild_status b ''running'' m)\<lparr>m_rebuilds := update_where (\<lambda>r. rb_id r = b)
            (\<lambda>r. r\<lparr>rb_finished_at := None, rb_error_code := None\<rparr>) (m_rebuilds m)\<rparr>)) (\<lambda>_.
          rebuild_view b))))"

definition get_rebuild :: "nat \<Rightarrow> (RebuildRun \<times> string) upkeep" where
  "get_rebuild b = rebuild_view b"

definition pending_file :: "RebuildFile \<Rightarrow> bool" where
  "pending_file r \<longleftrightarrow> rf_status r = ''pending''"

definition archived_file :: "RebuildFile \<Rightarrow> ArchivedSourceFile" where
  "archived_file r = \<lparr>asf_source_file_id = rf_source_file_id r, asf_archived_at = rf_archived_at r\<rparr>"

definition next_rebuild_files :: "nat \<Rightarrow> int \<Rightarrow> (int \<times> ArchivedSourceFile) list upkeep" where
  "next_rebuild_files b limit =
     abind (of_result (bounded_limit limit)) (\<lambda>n.
     aget (\<lambda>m. map (\<lambda>r. (rf_sequence r, archived_file r)) (take n (sort_key rf_sequence (filter pending_file (files_of b m))))))"

definition checkpointed :: "nat \<Rightarrow> int \<Rightarrow> ArchivedSourceFile \<Rightarrow> RebuildFile \<Rightarrow> bool" where
  "checkpointed b sequence f r \<longleftrightarrow> rf_rebuild_run_id r = b \<and> rf_sequence r = sequence \<and> archived_file r = f \<and> pending_file r"

definition complete_rebuild_file :: "nat \<Rightarrow> int \<Rightarrow> ArchivedSourceFile \<Rightarrow> unit upkeep" where
  "complete_rebuild_file b sequence f = atomically
     (abind (lock_rebuild_run b) (\<lambda>(run, status).
      if status \<noteq> ''running'' then araise (exn_of InvalidStateTransitionError)
      else if sequence \<noteq> (case rb_last_sequence run of None \<Rightarrow> 0 | Some n \<Rightarrow> n) + 1 then araise (exn_of InvalidStateTransitionError)
      else
        abind (aget (\<lambda>m. find (checkpointed b sequence f) (s_rebuild_files (m_platform m)))) (\<lambda>row.
        if row = None then araise (exn_of InvalidStateTransitionError)
        else
          abind (amodify (\<lambda>m. m\<lparr>m_platform := (m_platform m)\<lparr>s_rebuild_files :=
            update_where (checkpointed b sequence f) (\<lambda>r. r\<lparr>rf_status := ''completed''\<rparr>) (s_rebuild_files (m_platform m))\<rparr>\<rparr>)) (\<lambda>_.
          abind (constraint (rb_source_files_completed run + 1 \<le> rb_source_files_total run)) (\<lambda>_.
          amodify (\<lambda>m. m\<lparr>m_rebuilds := update_where (\<lambda>r. rb_id r = b)
            (\<lambda>r. r\<lparr>rb_source_files_completed := rb_source_files_completed r + 1, rb_last_sequence := Some sequence,
              rb_last_source_file_id := Some (asf_source_file_id f), rb_last_archived_at := asf_archived_at f\<rparr>) (m_rebuilds m)\<rparr>))))))"

definition fail_rebuild :: "nat \<Rightarrow> string \<Rightarrow> unit upkeep" where
  "fail_rebuild b ecode = atomically
     (abind (aget (rebuild_status_of b)) (\<lambda>status.
      if status = None \<or> status = Some ''completed'' then araise (exn_of InvalidStateTransitionError)
      else amodify (\<lambda>m. (set_rebuild_status b ''failed'' m)\<lparr>m_rebuilds := update_where (\<lambda>r. rb_id r = b)
        (\<lambda>r. r\<lparr>rb_error_code := Some ecode\<rparr>) (m_rebuilds m)\<rparr>)))"

section \<open>Comparison with the snapshot\<close>

text \<open>\<^verbatim>\<open>EXCEPT ALL\<close> in both directions, of rows without the columns that are ignored.\<close>

definition same_rows :: "('r \<Rightarrow> 'k) \<Rightarrow> 'r list \<Rightarrow> 'r list \<Rightarrow> bool" where
  "same_rows f xs ys \<longleftrightarrow> mset (map f xs) = mset (map f ys)"

definition logically_equal :: "warehouse \<Rightarrow> warehouse \<Rightarrow> bool" where
  "logically_equal w w' \<longleftrightarrow> (let c = w_catalogue w; c' = w_catalogue w' in
     same_rows (\<lambda>r. r\<lparr>st_id := 0\<rparr>) (c_stores c) (c_stores c') \<and> same_rows (\<lambda>r. r\<lparr>sa_id := 0\<rparr>) (c_store_aliases c) (c_store_aliases c') \<and>
     same_rows (\<lambda>r. r\<lparr>it_id := 0\<rparr>) (c_items c) (c_items c') \<and> same_rows (\<lambda>r. r\<lparr>pr_id := 0\<rparr>) (c_products c) (c_products c') \<and>
     same_rows (\<lambda>r. r\<lparr>id_id := 0\<rparr>) (c_identifiers c) (c_identifiers c') \<and> same_rows (\<lambda>r. r\<lparr>mg_id := 0\<rparr>) (c_groups c) (c_groups c') \<and>
     same_rows (\<lambda>r. r\<lparr>as_id := 0\<rparr>) (c_assertions c) (c_assertions c') \<and> same_rows (\<lambda>r. r\<lparr>ca_id := 0\<rparr>) (c_candidates c) (c_candidates c') \<and>
     same_rows (\<lambda>r. r\<lparr>ma_id := 0\<rparr>) (c_matches c) (c_matches c') \<and> same_rows (\<lambda>r. r\<lparr>cp_id := 0\<rparr>) (c_prices c) (c_prices c') \<and>
     same_rows (\<lambda>r. r\<lparr>ph_id := 0\<rparr>) (c_price_history c) (c_price_history c') \<and>
     same_rows (\<lambda>r. r\<lparr>av_id := 0\<rparr>) (c_availability c) (c_availability c') \<and>
     same_rows (\<lambda>r. r\<lparr>ah_id := 0\<rparr>) (c_availability_history c) (c_availability_history c') \<and>
     same_rows (\<lambda>r. r\<lparr>pn_id := 0\<rparr>) (w_promotions w) (w_promotions w') \<and>
     same_rows id (w_contents w) (w_contents w') \<and> same_rows id (w_watermarks w) (w_watermarks w'))"

definition exactly_equal :: "warehouse \<Rightarrow> warehouse \<Rightarrow> bool" where
  "exactly_equal w w' \<longleftrightarrow> (let c = w_catalogue w; c' = w_catalogue w' in
     same_rows id (c_stores c) (c_stores c') \<and> same_rows id (c_store_aliases c) (c_store_aliases c') \<and>
     same_rows id (c_items c) (c_items c') \<and> same_rows id (c_products c) (c_products c') \<and>
     same_rows id (c_identifiers c) (c_identifiers c') \<and> same_rows id (c_groups c) (c_groups c') \<and>
     same_rows id (c_assertions c) (c_assertions c') \<and> same_rows id (c_candidates c) (c_candidates c') \<and>
     same_rows id (c_matches c) (c_matches c') \<and> same_rows id (c_prices c) (c_prices c') \<and>
     same_rows id (c_price_history c) (c_price_history c') \<and> same_rows id (c_availability c) (c_availability c') \<and>
     same_rows id (c_availability_history c) (c_availability_history c') \<and> same_rows id (w_promotions w) (w_promotions w') \<and>
     same_rows id (w_promotion_items w) (w_promotion_items w') \<and> same_rows id (w_promotion_stores w) (w_promotion_stores w') \<and>
     same_rows id (w_promotion_clubs w) (w_promotion_clubs w') \<and>
     same_rows id (w_contents w) (w_contents w') \<and> same_rows id (w_watermarks w) (w_watermarks w'))"

text \<open>
  \<^verbatim>\<open>_reuse_ids_by_payload\<close>: a row that agrees with a row of the snapshot but for \<open>ignored\<close> columns takes over its key, unless a row
  has it. The keys of claims and watermarks and the evidence of matches are columns that the model leaves out.
\<close>

definition reuse_ids :: "('r \<Rightarrow> nat) \<Rightarrow> (nat \<Rightarrow> 'r \<Rightarrow> 'r) \<Rightarrow> ('r \<Rightarrow> 'r) \<Rightarrow> 'r list \<Rightarrow> 'r list \<Rightarrow> 'r list" where
  "reuse_ids key set_key ignored originals live =
     map (\<lambda>l. case find (\<lambda>r. ignored r = ignored l \<and> key r \<noteq> key l) (sort_key key originals) of
         None \<Rightarrow> l
       | Some r \<Rightarrow> if key r \<in> set (map key live) then l else set_key (key r) l) live"

definition reuse_in :: "(catalogue \<Rightarrow> 'r list) \<Rightarrow> ('r list \<Rightarrow> catalogue \<Rightarrow> catalogue) \<Rightarrow> ('r \<Rightarrow> nat) \<Rightarrow> (nat \<Rightarrow> 'r \<Rightarrow> 'r) \<Rightarrow> ('r \<Rightarrow> 'r) \<Rightarrow>
    catalogue \<Rightarrow> unit query" where
  "reuse_in rows set_rows key set_key ignored original =
     abind (aget (\<lambda>c. reuse_ids key set_key ignored (rows original) (rows c))) (\<lambda>relabelled.
     abind (constraint (distinct (map key relabelled))) (\<lambda>_.
     amodify (set_rows relabelled)))"

definition reuse_catalogue_ids :: "catalogue \<Rightarrow> unit query" where
  "reuse_catalogue_ids original =
     abind (reuse_in c_assertions (\<lambda>rs c. c\<lparr>c_assertions := rs\<rparr>) as_id (\<lambda>n r. r\<lparr>as_id := n\<rparr>) (\<lambda>r. r\<lparr>as_id := 0\<rparr>) original) (\<lambda>_.
     abind (reuse_in c_identifiers (\<lambda>rs c. c\<lparr>c_identifiers := rs\<rparr>) id_id (\<lambda>n r. r\<lparr>id_id := n\<rparr>) (\<lambda>r. r\<lparr>id_id := 0\<rparr>) original) (\<lambda>_.
     abind (reuse_in c_matches (\<lambda>rs c. c\<lparr>c_matches := rs\<rparr>) ma_id (\<lambda>n r. r\<lparr>ma_id := n\<rparr>) (\<lambda>r. r\<lparr>ma_id := 0\<rparr>) original) (\<lambda>_.
     abind (reuse_in c_prices (\<lambda>rs c. c\<lparr>c_prices := rs\<rparr>) cp_id (\<lambda>n r. r\<lparr>cp_id := n\<rparr>)
       (\<lambda>r. r\<lparr>cp_id := 0, cp_source_file_id := 0, cp_last_observed_at := 0\<rparr>) original) (\<lambda>_.
     abind (reuse_in c_price_history (\<lambda>rs c. c\<lparr>c_price_history := rs\<rparr>) ph_id (\<lambda>n r. r\<lparr>ph_id := n\<rparr>)
       (\<lambda>r. r\<lparr>ph_id := 0, ph_valid_to := None\<rparr>) original) (\<lambda>_.
     abind (reuse_in c_availability (\<lambda>rs c. c\<lparr>c_availability := rs\<rparr>) av_id (\<lambda>n r. r\<lparr>av_id := n\<rparr>)
       (\<lambda>r. r\<lparr>av_id := 0, av_source_file_id := 0, av_last_observed_at := 0\<rparr>) original) (\<lambda>_.
     reuse_in c_availability_history (\<lambda>rs c. c\<lparr>c_availability_history := rs\<rparr>) ah_id (\<lambda>n r. r\<lparr>ah_id := n\<rparr>)
       (\<lambda>r. r\<lparr>ah_id := 0, ah_valid_to := None\<rparr>) original))))))"

text \<open>\<^verbatim>\<open>_reuse_promotion_ids_and_relations\<close>: promotions take over keys without regard to keys in use; their relations follow.\<close>

definition promotion_payload :: "PromotionRow \<Rightarrow> PromotionRow" where
  "promotion_payload p = p\<lparr>pn_id := 0, pn_source_file_id := 0, pn_valid_to := None, pn_last_observed_at := 0\<rparr>"

definition promotion_id_map :: "warehouse \<Rightarrow> warehouse \<Rightarrow> (nat \<times> nat) list" where
  "promotion_id_map original w =
     map (\<lambda>p. (pn_id p, case find (\<lambda>r. promotion_payload r = promotion_payload p) (sort_key pn_id (w_promotions original)) of
       None \<Rightarrow> pn_id p | Some r \<Rightarrow> pn_id r)) (w_promotions w)"

definition rekey :: "(nat \<times> nat) list \<Rightarrow> nat \<Rightarrow> nat" where
  "rekey ids n = (case map_of ids n of None \<Rightarrow> n | Some k \<Rightarrow> k)"

definition rekey_relations :: "(nat \<times> nat) list \<Rightarrow> warehouse \<Rightarrow> warehouse" where
  "rekey_relations ids w = w\<lparr>
     w_promotion_items := List.map_filter (\<lambda>x. map_option (\<lambda>k. x\<lparr>pi_promotion_id := k\<rparr>) (map_of ids (pi_promotion_id x))) (w_promotion_items w),
     w_promotion_stores := List.map_filter (\<lambda>(n, st). map_option (\<lambda>k. (k, st)) (map_of ids n)) (w_promotion_stores w),
     w_promotion_clubs := List.map_filter (\<lambda>(n, cl). map_option (\<lambda>k. (k, cl)) (map_of ids n)) (w_promotion_clubs w)\<rparr>"

definition reuse_promotion_ids :: "warehouse \<Rightarrow> unit command" where
  "reuse_promotion_ids original =
     abind (aget (promotion_id_map original)) (\<lambda>ids.
     abind (aget (\<lambda>w. map (\<lambda>p. p\<lparr>pn_id := rekey ids (pn_id p)\<rparr>) (w_promotions w))) (\<lambda>relabelled.
     abind (constraint (distinct (map pn_id relabelled))) (\<lambda>_.
     amodify (\<lambda>w. rekey_relations ids (w\<lparr>w_promotions := relabelled\<rparr>)))))"

definition reconcile_stable_rebuild_ids :: "warehouse \<Rightarrow> unit command" where
  "reconcile_stable_rebuild_ids original =
     abind (on_catalogue (reuse_catalogue_ids (w_catalogue original))) (\<lambda>_. reuse_promotion_ids original)"

section \<open>Finish\<close>

text \<open>\<^verbatim>\<open>_rebuild_materially_changes_state\<close>: another parser version, or files that were never applied.\<close>

definition parser_correction :: "RebuildRun \<Rightarrow> maintenance \<Rightarrow> bool" where
  "parser_correction run m \<longleftrightarrow> (\<exists>r\<in>set (files_of (rb_id run) m). rf_original_applied_at r \<noteq> None \<and>
     rf_original_parser_version r \<noteq> Some (rb_requested_parser_version run))"

definition archive_only_files :: "nat \<Rightarrow> maintenance \<Rightarrow> bool" where
  "archive_only_files b m \<longleftrightarrow> (\<exists>r\<in>set (files_of b m). rf_original_applied_at r = None)"

definition on_warehouse_of :: "'a command \<Rightarrow> 'a upkeep" where
  "on_warehouse_of g m = (case g (s_warehouse (m_platform m)) of (r, w) \<Rightarrow> (r, on_tables (\<lambda>_. w) m))"

text \<open>A run without rows in the snapshot table has empty tables.\<close>

definition no_tables :: warehouse where
  "no_tables = \<lparr>w_catalogue = \<lparr>c_next_id = 0, c_now = 0, c_stores = [], c_store_aliases = [], c_items = [], c_products = [], c_identifiers = [],
     c_groups = [], c_assertions = [], c_candidates = [], c_matches = [], c_prices = [], c_price_history = [], c_availability = [],
     c_availability_history = [], c_staged_documents = [], c_staged_stores = [], c_staged_prices = []\<rparr>,
     w_promotions = [], w_promotion_items = [], w_promotion_stores = [], w_promotion_clubs = [], w_staged_promotions = [],
     w_staged_promotion_items = [], w_staged_promotion_stores = [], w_staged_promotion_clubs = [], w_watermarks = [], w_contents = []\<rparr>"

definition snapshot_original :: "nat \<Rightarrow> maintenance \<Rightarrow> warehouse" where
  "snapshot_original b m = (case original_of b m of None \<Rightarrow> no_tables | Some w \<Rightarrow> w)"

definition close_rebuild :: "nat \<Rightarrow> maintenance \<Rightarrow> maintenance" where
  "close_rebuild b m = on_database (\<lambda>d. d\<lparr>db_active_rebuild := None\<rparr>)
     ((set_rebuild_status b ''completed'' m)\<lparr>m_rebuilds := update_where (\<lambda>r. rb_id r = b)
       (\<lambda>r. r\<lparr>rb_finished_at := Some (db_now (s_store (m_platform m))), rb_error_code := None\<rparr>) (m_rebuilds m)\<rparr>)"

definition drop_snapshots :: "nat \<Rightarrow> bool \<Rightarrow> maintenance \<Rightarrow> maintenance" where
  "drop_snapshots b exact m = m\<lparr>m_snapshots := filter (\<lambda>x. if exact then fst (fst x) \<noteq> b else fst x \<noteq> (b, Rebuilt)) (m_snapshots m)\<rparr>"

definition settle_rebuild :: "nat \<Rightarrow> RebuildRun \<Rightarrow> unit upkeep" where
  "settle_rebuild b run =
     abind (capture_snapshots b Rebuilt) (\<lambda>_.
     abind (aget (\<lambda>m. \<not> parser_correction run m \<and> \<not> archive_only_files b m)) (\<lambda>exact_equivalence_required.
     abind (aget (snapshot_original b)) (\<lambda>original.
     abind (aget (\<lambda>m. exact_equivalence_required \<and> \<not> logically_equal original (s_warehouse (m_platform m)))) (\<lambda>differs.
     if differs then araise (exn_of InvalidStateTransitionError)
     else
       abind (on_warehouse_of (reconcile_stable_rebuild_ids original)) (\<lambda>_.
       abind (aget (\<lambda>m. exact_equivalence_required \<and> \<not> exactly_equal original (s_warehouse (m_platform m)))) (\<lambda>differs.
       if differs then araise (exn_of InvalidStateTransitionError)
       else amodify (drop_snapshots b exact_equivalence_required)))))))"

definition finish_rebuild :: "nat \<Rightarrow> (RebuildRun \<times> string) upkeep" where
  "finish_rebuild b = atomically
     (abind (aget active_rebuild) (\<lambda>active.
      if active \<noteq> Some b then araise (exn_of InvalidStateTransitionError)
      else
        abind (lock_rebuild_run b) (\<lambda>(run, status).
        abind (aget (\<lambda>m. length (filter pending_file (files_of b m)))) (\<lambda>remaining.
        if remaining \<noteq> 0 \<or> rb_source_files_completed run \<noteq> rb_source_files_total run then araise (exn_of InvalidStateTransitionError)
        else
          abind (settle_rebuild b run) (\<lambda>_.
          abind (amodify (close_rebuild b)) (\<lambda>_.
          rebuild_view b))))))"

end
