(* ===== verification/Rebuild_Inv.thy ===== *)
theory Rebuild_Inv
  imports Rebuild
begin

text \<open>
  The bookkeeping of rebuilds: files are checkpointed in the order of the queue, the counters of a run are those of its queue, and the barrier is
  up exactly while a run is not completed.
\<close>

section \<open>The invariant\<close>

definition queue_ok :: "RebuildRun \<Rightarrow> RebuildFile list \<Rightarrow> bool" where
  "queue_ok r fs \<longleftrightarrow> map rf_sequence fs = map int [1..<Suc (length fs)] \<and> rb_source_files_total r = int (length fs) \<and>
     (\<exists>k\<le>length fs. rb_source_files_completed r = int k \<and> rb_last_sequence r = (if k = 0 then None else Some (int k)) \<and>
       (\<forall>f\<in>set fs. rf_status f = (if rf_sequence f \<le> int k then ''completed'' else ''pending'')))"

definition rebuild_inv :: "maintenance \<Rightarrow> bool" where
  "rebuild_inv m \<longleftrightarrow> distinct (map rb_id (m_rebuilds m)) \<and>
     map fst (db_rebuild_runs (s_store (m_platform m))) = map rb_id (m_rebuilds m) \<and>
     (\<forall>r\<in>set (m_rebuilds m). rb_id r < db_next_id (s_store (m_platform m)) \<and> queue_ok r (files_of (rb_id r) m)) \<and>
     (\<forall>f\<in>set (s_rebuild_files (m_platform m)). rf_rebuild_run_id f \<in> rb_id ` set (m_rebuilds m)) \<and>
     (\<forall>b st. (b, st) \<in> set (db_rebuild_runs (s_store (m_platform m))) \<longrightarrow> st \<in> {''running'', ''failed'', ''completed''} \<and>
        (st = ''completed'' \<longleftrightarrow> active_rebuild m \<noteq> Some b) \<and>
        (st = ''completed'' \<longrightarrow> (\<forall>f\<in>set (files_of b m). rf_status f = ''completed'')))"

lemma rebuild_invD:
  assumes "rebuild_inv m"
  shows "distinct (map rb_id (m_rebuilds m))" "map fst (db_rebuild_runs (s_store (m_platform m))) = map rb_id (m_rebuilds m)"
    "r \<in> set (m_rebuilds m) \<Longrightarrow> rb_id r < db_next_id (s_store (m_platform m))" "r \<in> set (m_rebuilds m) \<Longrightarrow> queue_ok r (files_of (rb_id r) m)"
    "f \<in> set (s_rebuild_files (m_platform m)) \<Longrightarrow> rf_rebuild_run_id f \<in> rb_id ` set (m_rebuilds m)"
    "(b, st) \<in> set (db_rebuild_runs (s_store (m_platform m))) \<Longrightarrow> st \<in> {''running'', ''failed'', ''completed''}"
    "(b, st) \<in> set (db_rebuild_runs (s_store (m_platform m))) \<Longrightarrow> st = ''completed'' \<longleftrightarrow> active_rebuild m \<noteq> Some b"
    "(b, ''completed'') \<in> set (db_rebuild_runs (s_store (m_platform m))) \<Longrightarrow> x \<in> set (files_of b m) \<Longrightarrow> rf_status x = ''completed''"
proof -
  have all: "\<forall>b st. (b, st) \<in> set (db_rebuild_runs (s_store (m_platform m))) \<longrightarrow> st \<in> {''running'', ''failed'', ''completed''} \<and>
        (st = ''completed'' \<longleftrightarrow> active_rebuild m \<noteq> Some b) \<and> (st = ''completed'' \<longrightarrow> (\<forall>f\<in>set (files_of b m). rf_status f = ''completed''))"
    using assms unfolding rebuild_inv_def by (elim conjE)
  show "(b, st) \<in> set (db_rebuild_runs (s_store (m_platform m))) \<Longrightarrow> st \<in> {''running'', ''failed'', ''completed''}"
    "(b, st) \<in> set (db_rebuild_runs (s_store (m_platform m))) \<Longrightarrow> st = ''completed'' \<longleftrightarrow> active_rebuild m \<noteq> Some b"
    "(b, ''completed'') \<in> set (db_rebuild_runs (s_store (m_platform m))) \<Longrightarrow> x \<in> set (files_of b m) \<Longrightarrow> rf_status x = ''completed''"
    using all by blast+
qed (use assms in \<open>simp_all add: rebuild_inv_def\<close>)

text \<open>The part of the state that only the operations of a rebuild change.\<close>

definition rebuild_part :: "maintenance \<Rightarrow> RebuildRun list \<times> ((nat \<times> snapshot_phase) \<times> warehouse) list \<times> RebuildFile list \<times> (nat \<times> string) list \<times> nat option" where
  "rebuild_part m = (m_rebuilds m, m_snapshots m, s_rebuild_files (m_platform m), db_rebuild_runs (s_store (m_platform m)), active_rebuild m)"

lemma rebuild_part_inv:
  assumes "rebuild_part m' = rebuild_part m" "db_next_id (s_store (m_platform m)) \<le> db_next_id (s_store (m_platform m'))" "rebuild_inv m"
  shows "rebuild_inv m'"
proof -
  have e: "m_rebuilds m' = m_rebuilds m" "s_rebuild_files (m_platform m') = s_rebuild_files (m_platform m)"
    "db_rebuild_runs (s_store (m_platform m')) = db_rebuild_runs (s_store (m_platform m))" "active_rebuild m' = active_rebuild m"
    using assms(1) by (simp_all add: rebuild_part_def)
  have "files_of b m' = files_of b m" for b by (simp add: files_of_def e)
  then show ?thesis using assms(2,3) unfolding rebuild_inv_def e by fastforce
qed

section \<open>Effects of the operations\<close>

lemmas upkeep_simps = effect_simps on_tables_def on_database_def set_rebuild_status_def areturn_def Let_def

lemma atomically_Inr [simp]: "atomically g s = (Inr x, t) \<longleftrightarrow> g s = (Inr x, t)"
  by (auto simp: atomically_def split: prod.splits sum.splits)

lemma atomically_Inl: "atomically g s = (Inl e, t) \<Longrightarrow> t = s"
  by (auto simp: atomically_def split: prod.splits sum.splits)

lemma rebuild_view_effect:
  "rebuild_view b m = (Inr x, m') \<longleftrightarrow> m' = m \<and> find (\<lambda>r. rb_id r = b) (m_rebuilds m) = Some (fst x) \<and> rebuild_status_of b m = Some (snd x)"
  by (cases x) (auto simp: rebuild_view_def effect_simps areturn_def split: option.splits prod.splits)

lemma files_of_append: "files_of b (m\<lparr>m_platform := (m_platform m)\<lparr>s_rebuild_files := s_rebuild_files (m_platform m) @ q\<rparr>\<rparr>) =
    files_of b m @ filter (\<lambda>r. rf_rebuild_run_id r = b) q"
  by (simp add: files_of_def)

lemma rebuild_queue_other [simp]:
  "rebuild_queue b t (s\<lparr>s_store := (s_store s)\<lparr>db_next_id := n, db_rebuild_runs := rs\<rparr>\<rparr>) = rebuild_queue b t s"
proof -
  have "eligible t (d\<lparr>db_next_id := n, db_rebuild_runs := rs\<rparr>) = eligible t d" for d by (rule ext) (simp add: eligible_def archive_known_def split: option.split)
  then show ?thesis by (simp add: rebuild_queue_def)
qed

lemma begin_effect:
  assumes "begin_rebuild by version m = (Inr x, m')"
  obtains b q where "active_rebuild m = None" "b = db_next_id (s_store (m_platform m))"
    "q = rebuild_queue b (db_now (s_store (m_platform m))) (m_platform m)"
    "m_rebuilds m' = update_where (\<lambda>r. rb_id r = b) (\<lambda>r. r\<lparr>rb_source_files_total := int (length (files_of b m @ filter (\<lambda>r. rf_rebuild_run_id r = b) q))\<rparr>)
       (m_rebuilds m @ [new_rebuild b by version (db_now (s_store (m_platform m)))])"
    "s_rebuild_files (m_platform m') = s_rebuild_files (m_platform m) @ q"
    "db_rebuild_runs (s_store (m_platform m')) = db_rebuild_runs (s_store (m_platform m)) @ [(b, ''running'')]"
    "active_rebuild m' = Some b" "db_next_id (s_store (m_platform m')) = b + 1"
    "m_snapshots m' = ((b, Original), s_warehouse (m_platform m)) # m_snapshots m" "rb_id (fst x) = b"
    "s_warehouse (m_platform m') = delete_derived_matches (truncate_derived (s_warehouse (m_platform m)))"
  using assms unfolding begin_rebuild_def atomically_Inr
  by (auto simp: insert_rebuild_def enqueue_files_def capture_snapshots_def rebuild_view_effect upkeep_simps active_rebuild_def files_of_def
      dest: find_in split: if_splits)


lemma resume_effect:
  assumes "resume_rebuild b m = (Inr x, m')"
  shows "active_rebuild m = Some b" "m' = (set_rebuild_status b ''running'' m)\<lparr>m_rebuilds := update_where (\<lambda>r. rb_id r = b)
            (\<lambda>r. r\<lparr>rb_finished_at := None, rb_error_code := None\<rparr>) (m_rebuilds m)\<rparr>"
  using assms unfolding resume_rebuild_def atomically_Inr lock_rebuild_run_def
  by (auto simp: abind_Inr_iff aget_eq amodify_eq rebuild_view_effect split: if_splits)

lemma fail_effect:
  assumes "fail_rebuild b ecode m = (Inr x, m')"
  shows "rebuild_status_of b m \<notin> {None, Some ''completed''}" "m' = (set_rebuild_status b ''failed'' m)\<lparr>m_rebuilds := update_where (\<lambda>r. rb_id r = b)
            (\<lambda>r. r\<lparr>rb_error_code := Some ecode\<rparr>) (m_rebuilds m)\<rparr>"
  using assms unfolding fail_rebuild_def atomically_Inr
  by (auto simp: abind_Inr_iff aget_eq amodify_eq split: if_splits)

lemma complete_effect:
  assumes "complete_rebuild_file b n f m = (Inr x, m')"
  obtains run r where "find (\<lambda>r. rb_id r = b) (m_rebuilds m) = Some run" "rebuild_status_of b m = Some ''running''"
    "n = (case rb_last_sequence run of None \<Rightarrow> 0 | Some n \<Rightarrow> n) + 1" "find (checkpointed b n f) (s_rebuild_files (m_platform m)) = Some r"
    "m' = m\<lparr>m_platform := (m_platform m)\<lparr>s_rebuild_files :=
            update_where (checkpointed b n f) (\<lambda>r. r\<lparr>rf_status := ''completed''\<rparr>) (s_rebuild_files (m_platform m))\<rparr>,
       m_rebuilds := update_where (\<lambda>r. rb_id r = b)
            (\<lambda>r. r\<lparr>rb_source_files_completed := rb_source_files_completed r + 1, rb_last_sequence := Some n,
              rb_last_source_file_id := Some (asf_source_file_id f), rb_last_archived_at := asf_archived_at f\<rparr>) (m_rebuilds m)\<rparr>"
  using assms unfolding complete_rebuild_file_def atomically_Inr lock_rebuild_run_def
  by (auto simp: abind_Inr_iff aget_eq amodify_eq rebuild_view_effect constraint_def areturn_def split: if_splits)

lemma settle_effect:
  assumes "settle_rebuild b run m = (Inr u, m')"
  obtains w ex where "reconcile_stable_rebuild_ids (snapshot_original b m) (s_warehouse (m_platform m)) = (Inr (), w)"
    "parser_correction run m \<or> archive_only_files b m \<or> exactly_equal (snapshot_original b m) w"
    "m' = drop_snapshots b ex ((on_tables (\<lambda>_. w) m)\<lparr>m_snapshots := ((b, Rebuilt), s_warehouse (m_platform m)) # m_snapshots m\<rparr>)"
proof -
  let ?m = "m\<lparr>m_snapshots := ((b, Rebuilt), s_warehouse (m_platform m)) # m_snapshots m\<rparr>"
  have f: "snapshot_original b ?m = snapshot_original b m" "parser_correction run ?m = parser_correction run m" "archive_only_files b ?m = archive_only_files b m"
    by (simp_all add: snapshot_original_def original_of_def parser_correction_def archive_only_files_def files_of_def)
  obtain w where w: "reconcile_stable_rebuild_ids (snapshot_original b m) (s_warehouse (m_platform m)) = (Inr (), w)"
    "parser_correction run m \<or> archive_only_files b m \<or> exactly_equal (snapshot_original b m) w"
    "m' = drop_snapshots b (\<not> parser_correction run m \<and> \<not> archive_only_files b m) (on_tables (\<lambda>_. w) ?m)"
    using assms unfolding settle_rebuild_def capture_snapshots_def
    by (auto simp: abind_Inr_iff aget_eq amodify_eq f on_warehouse_of_def on_tables_def split: if_splits prod.splits)
  show thesis by (rule that [OF w(1,2), of "\<not> parser_correction run m \<and> \<not> archive_only_files b m"]) (cases m, simp add: w(3) on_tables_def)
qed

lemma finish_effect:
  assumes "finish_rebuild b m = (Inr x, m')"
  obtains run w ex where "active_rebuild m = Some b" "find (\<lambda>r. rb_id r = b) (m_rebuilds m) = Some run" "filter pending_file (files_of b m) = []"
    "rb_source_files_completed run = rb_source_files_total run"
    "reconcile_stable_rebuild_ids (snapshot_original b m) (s_warehouse (m_platform m)) = (Inr (), w)"
    "parser_correction run m \<or> archive_only_files b m \<or> exactly_equal (snapshot_original b m) w"
    "m' = close_rebuild b (drop_snapshots b ex ((on_tables (\<lambda>_. w) m)\<lparr>m_snapshots := ((b, Rebuilt), s_warehouse (m_platform m)) # m_snapshots m\<rparr>))"
proof -
  obtain run m1 where r: "active_rebuild m = Some b" "find (\<lambda>r. rb_id r = b) (m_rebuilds m) = Some run" "filter pending_file (files_of b m) = []"
      "rb_source_files_completed run = rb_source_files_total run" "settle_rebuild b run m = (Inr (), m1)" "m' = close_rebuild b m1"
    using assms unfolding finish_rebuild_def atomically_Inr lock_rebuild_run_def
    by (auto simp: abind_Inr_iff aget_eq amodify_eq rebuild_view_effect split: if_splits)
  from settle_effect [OF r(5)] that [OF r(1-4)] r(6) show thesis by metis
qed


section \<open>Every operation keeps the invariant\<close>

lemma status_of_in: "rebuild_status_of b m = Some st \<Longrightarrow> (b, st) \<in> set (db_rebuild_runs (s_store (m_platform m)))"
  unfolding rebuild_status_of_def by (rule map_of_SomeD)

lemma update_runs:
  assumes "\<And>r. rb_id (g r) = rb_id r"
  shows "map rb_id (update_where p g rs) = map rb_id rs" "rb_id ` set (update_where p g rs) = rb_id ` set rs"
  using assms by (simp_all add: map_update_where ids_update_where)

text \<open>Operations on one run that keep its queue and its counters.\<close>

lemma keep_counters_inv:
  assumes inv: "rebuild_inv m" and b: "active_rebuild m = Some b" and st: "st \<in> {''running'', ''failed''}"
    and g: "\<And>r. rb_id (g r) = rb_id r" "\<And>r fs. queue_ok (g r) fs = queue_ok r fs"
  shows "rebuild_inv ((set_rebuild_status b st m)\<lparr>m_rebuilds := update_where (\<lambda>r. rb_id r = b) g (m_rebuilds m)\<rparr>)"
proof -
  let ?m = "(set_rebuild_status b st m)\<lparr>m_rebuilds := update_where (\<lambda>r. rb_id r = b) g (m_rebuilds m)\<rparr>"
  have f: "files_of i ?m = files_of i m" "active_rebuild ?m = active_rebuild m" for i
    by (simp_all add: files_of_def active_rebuild_def set_rebuild_status_def on_database_def)
  have d: "map fst (map (\<lambda>(i, old). (i, if i = b then st else old)) xs) = map fst xs" for xs :: "(nat \<times> string) list"
    by (simp add: case_prod_unfold)
  have s: "s' \<in> {''running'', ''failed'', ''completed''} \<and> (s' = ''completed'' \<longleftrightarrow> active_rebuild m \<noteq> Some i) \<and>
      (s' = ''completed'' \<longrightarrow> (\<forall>f\<in>set (files_of i m). rf_status f = ''completed''))"
    if "(i, s') \<in> (\<lambda>(i, old). (i, if i = b then st else old)) ` set (db_rebuild_runs (s_store (m_platform m)))" for i s'
    using that inv b st unfolding rebuild_inv_def by (auto split: if_splits)
  have r: "set (update_where (\<lambda>r. rb_id r = b) g (m_rebuilds m)) = (\<lambda>x. if rb_id x = b then g x else x) ` set (m_rebuilds m)"
    by (rule set_update_where)
  show ?thesis unfolding rebuild_inv_def f
  proof (intro conjI)
    show "distinct (map rb_id (m_rebuilds ?m))" using rebuild_invD(1) [OF inv] by (simp add: update_runs [OF g(1)])
    show "map fst (db_rebuild_runs (s_store (m_platform ?m))) = map rb_id (m_rebuilds ?m)"
      using rebuild_invD(2) [OF inv] by (simp add: update_runs [OF g(1)] set_rebuild_status_def on_database_def d del: map_map)
    show "\<forall>r\<in>set (m_rebuilds ?m). rb_id r < db_next_id (s_store (m_platform ?m)) \<and> queue_ok r (files_of (rb_id r) m)"
      using rebuild_invD(3,4) [OF inv] g by (auto simp: r set_rebuild_status_def on_database_def)
    show "\<forall>f\<in>set (s_rebuild_files (m_platform ?m)). rf_rebuild_run_id f \<in> rb_id ` set (m_rebuilds ?m)"
      using rebuild_invD(5) [OF inv] by (simp add: update_runs [OF g(1)] set_rebuild_status_def on_database_def)
    show "\<forall>i s'. (i, s') \<in> set (db_rebuild_runs (s_store (m_platform ?m))) \<longrightarrow> s' \<in> {''running'', ''failed'', ''completed''} \<and>
        (s' = ''completed'' \<longleftrightarrow> active_rebuild m \<noteq> Some i) \<and> (s' = ''completed'' \<longrightarrow> (\<forall>f\<in>set (files_of i m). rf_status f = ''completed''))"
    proof (intro allI impI)
      fix i s' assume "(i, s') \<in> set (db_rebuild_runs (s_store (m_platform ?m)))"
      then show "s' \<in> {''running'', ''failed'', ''completed''} \<and> (s' = ''completed'' \<longleftrightarrow> active_rebuild m \<noteq> Some i) \<and>
          (s' = ''completed'' \<longrightarrow> (\<forall>f\<in>set (files_of i m). rf_status f = ''completed''))"
        by (intro s) (simp add: set_rebuild_status_def on_database_def)
    qed
  qed
qed

lemma numbered_sequence: "map rf_sequence (numbered n (rebuild_file b w) fs) = map int [n..<n + length fs]"
proof (induction fs arbitrary: n)
  case (Cons f fs)
  have "[n..<n + length (f # fs)] = n # [Suc n..<Suc n + length fs]" by (simp add: upt_conv_Cons del: upt_Suc)
  then show ?case using Cons [of "Suc n"] by (simp add: rebuild_file_def)
qed simp

lemma rebuild_queue_rows:
  "filter (\<lambda>r. rf_rebuild_run_id r = i) (rebuild_queue b t s) = (if i = b then rebuild_queue b t s else [])"
  "\<forall>r\<in>set (rebuild_queue b t s). rf_rebuild_run_id r = b \<and> rf_status r = ''pending'' \<and> 0 < rf_sequence r"
proof -
  have "\<forall>r\<in>set (numbered n (rebuild_file b w) fs). rf_rebuild_run_id r = b \<and> rf_status r = ''pending'' \<and> int n \<le> rf_sequence r" for n w fs
    by (induction fs arbitrary: n) (auto simp: rebuild_file_def, fastforce+)
  then show r: "\<forall>r\<in>set (rebuild_queue b t s). rf_rebuild_run_id r = b \<and> rf_status r = ''pending'' \<and> 0 < rf_sequence r"
    unfolding rebuild_queue_def by fastforce
  then show "filter (\<lambda>r. rf_rebuild_run_id r = i) (rebuild_queue b t s) = (if i = b then rebuild_queue b t s else [])"
    by (auto simp: filter_empty_conv filter_id_conv)
qed

lemma begin_inv:
  assumes inv: "rebuild_inv m" and run: "begin_rebuild by version m = (Inr x, m')"
  shows "rebuild_inv m'"
proof -
  from begin_effect [OF run] obtain b q where e: "active_rebuild m = None" "b = db_next_id (s_store (m_platform m))"
    "q = rebuild_queue b (db_now (s_store (m_platform m))) (m_platform m)"
    "m_rebuilds m' = update_where (\<lambda>r. rb_id r = b) (\<lambda>r. r\<lparr>rb_source_files_total := int (length (files_of b m @ filter (\<lambda>r. rf_rebuild_run_id r = b) q))\<rparr>)
       (m_rebuilds m @ [new_rebuild b by version (db_now (s_store (m_platform m)))])"
    "s_rebuild_files (m_platform m') = s_rebuild_files (m_platform m) @ q"
    "db_rebuild_runs (s_store (m_platform m')) = db_rebuild_runs (s_store (m_platform m)) @ [(b, ''running'')]"
    "active_rebuild m' = Some b" "db_next_id (s_store (m_platform m')) = b + 1" .
  have new: "\<forall>r\<in>set (m_rebuilds m). rb_id r < b" using inv e(2) by (simp add: rebuild_inv_def)
  have none: "files_of b m = []" using rebuild_invD(5) [OF inv] new by (fastforce simp: files_of_def filter_empty_conv)
  have q: "filter (\<lambda>r. rf_rebuild_run_id r = i) q = (if i = b then q else [])" "\<forall>r\<in>set q. rf_rebuild_run_id r = b \<and> rf_status r = ''pending'' \<and> 0 < rf_sequence r" for i
    unfolding e(3) by (rule rebuild_queue_rows)+
  define run0 where "run0 = (new_rebuild b by version (db_now (s_store (m_platform m))))\<lparr>rb_source_files_total := int (length q)\<rparr>"
  have "update_where (\<lambda>r. rb_id r = b) g (m_rebuilds m) = m_rebuilds m" for g by (rule update_where_none) (use new in auto)
  then have runs: "m_rebuilds m' = m_rebuilds m @ [run0]"
    unfolding e(4) run0_def using none q(1) by (simp add: update_where_def new_rebuild_def)
  have files: "files_of i m' = (if i = b then q else files_of i m)" for i using none q(1) by (simp add: files_of_def e(5))
  have "map rf_sequence q = map int [1..<Suc (length q)]" unfolding e(3) rebuild_queue_def numbered_sequence by simp
  then have ok: "queue_ok run0 q" using q(2) by (fastforce simp: queue_ok_def run0_def new_rebuild_def)
  have id0: "rb_id run0 = b" by (simp add: run0_def new_rebuild_def)
  have st: "s' = ''completed'' \<and> i \<noteq> b" if "(i, s') \<in> set (db_rebuild_runs (s_store (m_platform m)))" for i s'
  proof -
    have "i \<in> set (map fst (db_rebuild_runs (s_store (m_platform m))))" using that by force
    then have "i \<in> rb_id ` set (m_rebuilds m)" unfolding rebuild_invD(2) [OF inv] by simp
    then show ?thesis using rebuild_invD(7) [OF inv that] new e(1) by auto
  qed
  show ?thesis unfolding rebuild_inv_def runs files e(5-8)
  proof (intro conjI)
    show "distinct (map rb_id (m_rebuilds m @ [run0]))" using inv new id0 by (auto simp: rebuild_inv_def)
    show "map fst (db_rebuild_runs (s_store (m_platform m)) @ [(b, ''running'')]) = map rb_id (m_rebuilds m @ [run0])"
      using inv id0 by (simp add: rebuild_inv_def)
    show "\<forall>r\<in>set (m_rebuilds m @ [run0]). rb_id r < b + 1 \<and> queue_ok r (if rb_id r = b then q else files_of (rb_id r) m)"
      using inv new id0 ok by (fastforce simp: rebuild_inv_def)
    show "\<forall>f\<in>set (s_rebuild_files (m_platform m) @ q). rf_rebuild_run_id f \<in> rb_id ` set (m_rebuilds m @ [run0])"
      using inv q(2) id0 by (auto simp: rebuild_inv_def)
    show "\<forall>i s'. (i, s') \<in> set (db_rebuild_runs (s_store (m_platform m)) @ [(b, ''running'')]) \<longrightarrow> s' \<in> {''running'', ''failed'', ''completed''} \<and>
        (s' = ''completed'' \<longleftrightarrow> Some b \<noteq> Some i) \<and> (s' = ''completed'' \<longrightarrow> (\<forall>f\<in>set (if i = b then q else files_of i m). rf_status f = ''completed''))"
    proof (intro allI impI)
      fix i s' assume "(i, s') \<in> set (db_rebuild_runs (s_store (m_platform m)) @ [(b, ''running'')])"
      then consider "(i, s') \<in> set (db_rebuild_runs (s_store (m_platform m)))" | "i = b" "s' = ''running''" by auto
      then show "s' \<in> {''running'', ''failed'', ''completed''} \<and> (s' = ''completed'' \<longleftrightarrow> Some b \<noteq> Some i) \<and>
          (s' = ''completed'' \<longrightarrow> (\<forall>f\<in>set (if i = b then q else files_of i m). rf_status f = ''completed''))"
      proof cases
        case 1
        then show ?thesis using st [OF 1] rebuild_invD(8) [OF inv, of i] by simp
      qed simp
    qed
  qed
qed


lemma queue_ok_cong:
  "queue_ok (r\<lparr>rb_finished_at := x\<rparr>) fs = queue_ok r fs" "queue_ok (r\<lparr>rb_error_code := y\<rparr>) fs = queue_ok r fs"
  by (simp_all add: queue_ok_def)

lemma resume_inv: "rebuild_inv m \<Longrightarrow> resume_rebuild b m = (Inr x, m') \<Longrightarrow> rebuild_inv m'"
  using resume_effect [of b m x m'] keep_counters_inv [of m b "''running''" "\<lambda>r. r\<lparr>rb_finished_at := None, rb_error_code := None\<rparr>"]
  by (simp add: queue_ok_cong)

lemma fail_inv:
  assumes inv: "rebuild_inv m" and run: "fail_rebuild b ecode m = (Inr x, m')"
  shows "rebuild_inv m'"
proof -
  obtain st where st: "rebuild_status_of b m = Some st" "st \<noteq> ''completed''" using fail_effect(1) [OF run] by auto
  have "active_rebuild m = Some b" using rebuild_invD(7) [OF inv status_of_in [OF st(1)]] st(2) by simp
  then show ?thesis unfolding fail_effect(2) [OF run] by (intro keep_counters_inv inv) (simp_all add: queue_ok_cong)
qed

lemma run_found:
  assumes "rebuild_inv m" "find (\<lambda>r. rb_id r = b) (m_rebuilds m) = Some run" "r \<in> set (m_rebuilds m)" "rb_id r = b"
  shows "r = run"
proof -
  have "run \<in> set (m_rebuilds m)" "rb_id run = b" using find_in [OF assms(2)] by simp_all
  then show ?thesis using rebuild_invD(1) [OF assms(1)] assms(3,4) by (auto simp: distinct_map inj_on_def)
qed

lemma queue_ok_step:
  assumes ok: "queue_ok r fs" and n: "n = (case rb_last_sequence r of None \<Rightarrow> 0 | Some n \<Rightarrow> n) + 1"
    and found: "x \<in> set fs" "rf_sequence x = n" "p x" and p: "\<And>y. p y \<Longrightarrow> rf_sequence y = n"
  shows "queue_ok (r\<lparr>rb_source_files_completed := rb_source_files_completed r + 1, rb_last_sequence := Some n, rb_last_source_file_id := a, rb_last_archived_at := t\<rparr>)
    (update_where p (\<lambda>r. r\<lparr>rf_status := ''completed''\<rparr>) fs)"
proof -
  obtain k where k: "k \<le> length fs" "rb_source_files_completed r = int k" "rb_last_sequence r = (if k = 0 then None else Some (int k))"
      "\<forall>f\<in>set fs. rf_status f = (if rf_sequence f \<le> int k then ''completed'' else ''pending'')"
    using ok unfolding queue_ok_def by blast
  have seqs: "map rf_sequence fs = map int [1..<Suc (length fs)]" using ok by (simp add: queue_ok_def)
  have nk: "n = int (Suc k)" using n k(3) by (simp split: if_splits)
  have "rf_sequence x \<in> set (map rf_sequence fs)" using found(1) by simp
  then have le: "Suc k \<le> length fs" unfolding seqs found(2) nk by auto
  have "distinct (map rf_sequence fs)" unfolding seqs by (simp add: distinct_map inj_on_def)
  then have uniq: "y = x" if "y \<in> set fs" "rf_sequence y = n" for y using that found(1,2) by (auto simp: distinct_map inj_on_def)
  have "rf_status f = (if rf_sequence f \<le> int (Suc k) then ''completed'' else ''pending'')"
    if f: "f \<in> set (update_where p (\<lambda>r. r\<lparr>rf_status := ''completed''\<rparr>) fs)" for f
  proof -
    from f obtain y where y: "y \<in> set fs" "f = (if p y then y\<lparr>rf_status := ''completed''\<rparr> else y)" unfolding set_update_where by blast
    show ?thesis
    proof (cases "p y")
      case True
      then show ?thesis using y(2) p [OF True] nk by simp
    next
      case False
      then have "rf_sequence y \<noteq> n" using uniq [OF y(1)] found(3) by blast
      then show ?thesis using False y k(4) nk by auto
    qed
  qed
  moreover have "map rf_sequence (update_where p (\<lambda>r. r\<lparr>rf_status := ''completed''\<rparr>) fs) = map rf_sequence fs" by (rule map_update_where) simp
  moreover have "length (update_where p (\<lambda>r. r\<lparr>rf_status := ''completed''\<rparr>) fs) = length fs" by (simp add: update_where_def)
  ultimately show ?thesis using ok k(2) nk le seqs by (auto simp: queue_ok_def intro!: exI [of _ "Suc k"])
qed

lemma complete_inv:
  assumes inv: "rebuild_inv m" and run: "complete_rebuild_file b n f m = (Inr x, m')"
  shows "rebuild_inv m'"
proof -
  let ?g = "\<lambda>r. r\<lparr>rb_source_files_completed := rb_source_files_completed r + 1, rb_last_sequence := Some n,
              rb_last_source_file_id := Some (asf_source_file_id f), rb_last_archived_at := asf_archived_at f\<rparr>"
  let ?h = "update_where (checkpointed b n f) (\<lambda>r. r\<lparr>rf_status := ''completed''\<rparr>)"
  from complete_effect [OF run] obtain run0 r where e: "find (\<lambda>r. rb_id r = b) (m_rebuilds m) = Some run0" "rebuild_status_of b m = Some ''running''"
    "n = (case rb_last_sequence run0 of None \<Rightarrow> 0 | Some n \<Rightarrow> n) + 1" "find (checkpointed b n f) (s_rebuild_files (m_platform m)) = Some r"
    "m' = m\<lparr>m_platform := (m_platform m)\<lparr>s_rebuild_files := ?h (s_rebuild_files (m_platform m))\<rparr>,
       m_rebuilds := update_where (\<lambda>r. rb_id r = b) ?g (m_rebuilds m)\<rparr>" .
  have c: "rf_rebuild_run_id y = b \<and> rf_sequence y = n" if "checkpointed b n f y" for y using that by (simp add: checkpointed_def)
  have files: "files_of i m' = ?h (files_of i m)" for i unfolding files_of_def e(5) by (simp add: filter_update_where)
  have other: "?h (files_of i m) = files_of i m" if "i \<noteq> b" for i by (rule update_where_none) (use c that in \<open>auto simp: files_of_def\<close>)
  have r: "r \<in> set (files_of b m)" "rf_sequence r = n" "checkpointed b n f r" using find_in [OF e(4)] c by (auto simp: files_of_def)
  have run0: "run0 \<in> set (m_rebuilds m)" "rb_id run0 = b" using find_in [OF e(1)] by simp_all
  have "queue_ok run0 (files_of b m)" using rebuild_invD(4) [OF inv run0(1)] run0(2) by simp
  then have ok: "queue_ok (?g run0) (?h (files_of b m))" by (rule queue_ok_step [where x = r and p = "checkpointed b n f", OF _ e(3) r]) (use c in blast)
  have q: "queue_ok y (files_of (rb_id y) m') \<and> rb_id y < db_next_id (s_store (m_platform m))" if "y \<in> set (m_rebuilds m')" for y
  proof -
    from that obtain z where z: "z \<in> set (m_rebuilds m)" "y = (if rb_id z = b then ?g z else z)" by (auto simp: e(5) set_update_where)
    show ?thesis
    proof (cases "rb_id z = b")
      case True
      then show ?thesis using run_found [OF inv e(1) z(1) True] z rebuild_invD(3) [OF inv z(1)] ok by (simp add: files)
    next
      case False
      then show ?thesis using z rebuild_invD(3,4) [OF inv z(1)] other [OF False] by (simp add: files)
    qed
  qed
  have ids: "map rb_id (m_rebuilds m') = map rb_id (m_rebuilds m)" "rb_id ` set (m_rebuilds m') = rb_id ` set (m_rebuilds m)"
    by (simp_all add: e(5) update_runs)
  have same: "active_rebuild m' = active_rebuild m" "s_store (m_platform m') = s_store (m_platform m)" by (simp_all add: e(5) active_rebuild_def)
  show ?thesis unfolding rebuild_inv_def ids same
  proof (intro conjI)
    show "\<forall>r\<in>set (m_rebuilds m'). rb_id r < db_next_id (s_store (m_platform m)) \<and> queue_ok r (files_of (rb_id r) m')" using q by blast
    show "\<forall>f\<in>set (s_rebuild_files (m_platform m')). rf_rebuild_run_id f \<in> rb_id ` set (m_rebuilds m)"
      using rebuild_invD(5) [OF inv] by (auto simp: e(5) set_update_where)
    show "\<forall>i s'. (i, s') \<in> set (db_rebuild_runs (s_store (m_platform m))) \<longrightarrow> s' \<in> {''running'', ''failed'', ''completed''} \<and>
        (s' = ''completed'' \<longleftrightarrow> active_rebuild m \<noteq> Some i) \<and> (s' = ''completed'' \<longrightarrow> (\<forall>f\<in>set (files_of i m'). rf_status f = ''completed''))"
    proof (intro allI impI)
      fix i s' assume a: "(i, s') \<in> set (db_rebuild_runs (s_store (m_platform m)))"
      have "i \<noteq> b" if "s' = ''completed''"
        using that rebuild_invD(7) [OF inv a] rebuild_invD(7) [OF inv status_of_in [OF e(2)]] by auto
      then show "s' \<in> {''running'', ''failed'', ''completed''} \<and> (s' = ''completed'' \<longleftrightarrow> active_rebuild m \<noteq> Some i) \<and>
          (s' = ''completed'' \<longrightarrow> (\<forall>f\<in>set (files_of i m'). rf_status f = ''completed''))"
        using rebuild_invD(6,7) [OF inv a] rebuild_invD(8) [OF inv, of i] a other [of i] by (auto simp: files)
    qed
  qed (use rebuild_invD(1,2) [OF inv] in simp_all)
qed

lemma finish_inv:
  assumes inv: "rebuild_inv m" and run: "finish_rebuild b m = (Inr x, m')"
  shows "rebuild_inv m'"
proof -
  from finish_effect [OF run] obtain run0 w ex where e: "active_rebuild m = Some b" "find (\<lambda>r. rb_id r = b) (m_rebuilds m) = Some run0"
    "filter pending_file (files_of b m) = []"
    "m' = close_rebuild b (drop_snapshots b ex ((on_tables (\<lambda>_. w) m)\<lparr>m_snapshots := ((b, Rebuilt), s_warehouse (m_platform m)) # m_snapshots m\<rparr>))" .
  let ?st = "\<lambda>(i, old). (i :: nat, if i = b then ''completed'' else old)"
  have t: "m_rebuilds m' = update_where (\<lambda>r. rb_id r = b) (\<lambda>r. r\<lparr>rb_finished_at := Some (db_now (s_store (m_platform m))), rb_error_code := None\<rparr>) (m_rebuilds m)"
    "s_rebuild_files (m_platform m') = s_rebuild_files (m_platform m)" "db_next_id (s_store (m_platform m')) = db_next_id (s_store (m_platform m))"
    "db_rebuild_runs (s_store (m_platform m')) = map ?st (db_rebuild_runs (s_store (m_platform m)))" "active_rebuild m' = None"
    by (simp_all add: e(4) close_rebuild_def drop_snapshots_def on_tables_def set_rebuild_status_def on_database_def active_rebuild_def)
  have files: "files_of i m' = files_of i m" for i by (simp add: files_of_def t)
  have ids: "map rb_id (m_rebuilds m') = map rb_id (m_rebuilds m)" "rb_id ` set (m_rebuilds m') = rb_id ` set (m_rebuilds m)" by (simp_all add: t update_runs)
  have run0: "run0 \<in> set (m_rebuilds m)" "rb_id run0 = b" using find_in [OF e(2)] by simp_all
  have all_done: "rf_status f = ''completed''" if "f \<in> set (files_of b m)" for f
  proof -
    have "rf_status f \<noteq> ''pending''" using e(3) that by (auto simp: filter_empty_conv pending_file_def)
    then show ?thesis using rebuild_invD(4) [OF inv run0(1)] run0(2) that unfolding queue_ok_def by metis
  qed
  have d: "map fst (map ?st xs) = map fst xs" for xs by (simp add: case_prod_unfold)
  show ?thesis unfolding rebuild_inv_def ids t(2-5) files
  proof (intro conjI)
    show "map fst (map ?st (db_rebuild_runs (s_store (m_platform m)))) = map rb_id (m_rebuilds m)" unfolding d by (rule rebuild_invD(2) [OF inv])
    show "\<forall>r\<in>set (m_rebuilds m'). rb_id r < db_next_id (s_store (m_platform m)) \<and> queue_ok r (files_of (rb_id r) m)"
      using rebuild_invD(3,4) [OF inv] by (auto simp: t(1) set_update_where queue_ok_cong)
    show "\<forall>i s'. (i, s') \<in> set (map ?st (db_rebuild_runs (s_store (m_platform m)))) \<longrightarrow> s' \<in> {''running'', ''failed'', ''completed''} \<and>
        (s' = ''completed'' \<longleftrightarrow> None \<noteq> Some i) \<and> (s' = ''completed'' \<longrightarrow> (\<forall>f\<in>set (files_of i m). rf_status f = ''completed''))"
    proof (intro allI impI)
      fix i s' assume "(i, s') \<in> set (map ?st (db_rebuild_runs (s_store (m_platform m))))"
      then obtain old where old: "(i, old) \<in> set (db_rebuild_runs (s_store (m_platform m)))" "s' = (if i = b then ''completed'' else old)" by auto
      have "i \<noteq> b \<longrightarrow> old = ''completed''" using rebuild_invD(7) [OF inv old(1)] e(1) by auto
      then show "s' \<in> {''running'', ''failed'', ''completed''} \<and> (s' = ''completed'' \<longleftrightarrow> None \<noteq> Some i) \<and>
          (s' = ''completed'' \<longrightarrow> (\<forall>f\<in>set (files_of i m). rf_status f = ''completed''))"
        using old all_done rebuild_invD(8) [OF inv, of i] by (cases "i = b") auto
    qed
  qed (use rebuild_invD(1,5) [OF inv] in simp_all)
qed


section \<open>Sequences of operations\<close>

text \<open>
  The operations of a rebuild in any order, with anything in between that leaves the tables of rebuilds alone (\<open>Other\<close>: collections, ingestions,
  replays).
\<close>

datatype upkeep_op =
    Begin ustr ustr
  | Resume nat
  | Complete nat int ArchivedSourceFile
  | Fail nat string
  | Finish nat
  | Other platform

definition other_step :: "platform \<Rightarrow> maintenance \<Rightarrow> maintenance" where
  "other_step p m = (if s_rebuild_files p = s_rebuild_files (m_platform m) \<and>
       db_rebuild_runs (s_store p) = db_rebuild_runs (s_store (m_platform m)) \<and>
       db_active_rebuild (s_store p) = db_active_rebuild (s_store (m_platform m)) \<and>
       db_next_id (s_store (m_platform m)) \<le> db_next_id (s_store p)
     then m\<lparr>m_platform := p\<rparr> else m)"

fun upkeep_step :: "upkeep_op \<Rightarrow> maintenance \<Rightarrow> maintenance" where
  "upkeep_step (Begin requested_by version) m = snd (begin_rebuild requested_by version m)"
| "upkeep_step (Resume b) m = snd (resume_rebuild b m)"
| "upkeep_step (Complete b n f) m = snd (complete_rebuild_file b n f m)"
| "upkeep_step (Fail b ecode) m = snd (fail_rebuild b ecode m)"
| "upkeep_step (Finish b) m = snd (finish_rebuild b m)"
| "upkeep_step (Other p) m = other_step p m"

lemma raises_unchanged:
  "begin_rebuild requested_by version m = (Inl e, m') \<Longrightarrow> m' = m" "resume_rebuild b m = (Inl e, m') \<Longrightarrow> m' = m"
  "complete_rebuild_file b n f m = (Inl e, m') \<Longrightarrow> m' = m" "fail_rebuild b ecode m = (Inl e, m') \<Longrightarrow> m' = m" "finish_rebuild b m = (Inl e, m') \<Longrightarrow> m' = m"
  unfolding begin_rebuild_def resume_rebuild_def complete_rebuild_file_def fail_rebuild_def finish_rebuild_def by (rule atomically_Inl; assumption)+

lemma snd_cases:
  assumes "\<And>x m'. g m = (Inr x, m') \<Longrightarrow> P m'" "\<And>e m'. g m = (Inl e, m') \<Longrightarrow> m' = m" "P m"
  shows "P (snd (g m))"
proof (cases "g m")
  case (Pair r m')
  then show ?thesis using assms by (cases r) auto
qed

lemma upkeep_step_inv: "rebuild_inv m \<Longrightarrow> rebuild_inv (upkeep_step x m)"
proof (induction x m rule: upkeep_step.induct)
  case (6 p m)
  then show ?case unfolding upkeep_step.simps other_step_def
    by (auto intro!: rebuild_part_inv [of _ m] simp: rebuild_part_def active_rebuild_def)
qed (unfold upkeep_step.simps, (rule snd_cases, erule (1) begin_inv resume_inv complete_inv fail_inv finish_inv, erule raises_unchanged, assumption)+)

end
