(* ===== verification/Rebuild_Run.thy ===== *)
theory Rebuild_Run
  imports Rebuild_Inv
begin

text \<open>
  What a rebuild guarantees: files are replayed in the order of the queue and none is skipped, ordinary files wait at the barrier, and a rebuild
  with the same parser and the same files ends with the rows that it began with. The order of the queue is not the order in which files
  may be applied: a file that was only archived can block it.
\<close>

section \<open>The queue of a run\<close>

lemma queue_statuses:
  assumes "queue_ok r fs"
  obtains k where "k \<le> length fs" "rb_source_files_completed r = int k" "rb_source_files_total r = int (length fs)"
    "map rf_status fs = replicate k ''completed'' @ replicate (length fs - k) ''pending''"
proof -
  obtain k where k: "k \<le> length fs" "rb_source_files_completed r = int k"
      "\<forall>f\<in>set fs. rf_status f = (if rf_sequence f \<le> int k then ''completed'' else ''pending'')" "rb_source_files_total r = int (length fs)"
    using assms unfolding queue_ok_def by blast
  have seqs: "map rf_sequence fs = map int [1..<Suc (length fs)]" using assms by (simp add: queue_ok_def)
  have "map rf_status fs = replicate k ''completed'' @ replicate (length fs - k) ''pending''"
  proof (rule nth_equalityI)
    fix i assume "i < length (map rf_status fs)"
    then have i: "i < length fs" by simp
    have "map rf_sequence fs ! i = map int [1..<Suc (length fs)] ! i" by (simp only: seqs)
    then have "rf_sequence (fs ! i) = int (Suc i)" using i by (simp del: upt_Suc)
    then have "rf_status (fs ! i) = (if i < k then ''completed'' else ''pending'')" using k(3) nth_mem [OF i] by auto
    then show "map rf_status fs ! i = (replicate k ''completed'' @ replicate (length fs - k) ''pending'') ! i"
      using i k(1) by (simp add: nth_append)
  qed (use k(1) in simp)
  with k that show thesis by blast
qed

lemma upkeep_inv: "rebuild_inv m \<Longrightarrow> rebuild_inv (fold upkeep_step ops m)"
  by (induction ops arbitrary: m) (simp_all add: upkeep_step_inv)

definition fresh_maintenance :: "platform \<Rightarrow> maintenance" where
  "fresh_maintenance p = \<lparr>m_platform = p\<lparr>s_rebuild_files := [], s_store := (s_store p)\<lparr>db_rebuild_runs := [], db_active_rebuild := None\<rparr>\<rparr>,
     m_rebuilds = [], m_snapshots = [], m_lock_held = False\<rparr>"

lemma fresh_inv: "rebuild_inv (fresh_maintenance p)"
  by (simp add: rebuild_inv_def fresh_maintenance_def)

section \<open>What stays the same while a run is active\<close>

definition static_file :: "RebuildFile \<Rightarrow> RebuildFile" where
  "static_file r = r\<lparr>rf_status := []\<rparr>"

definition versions :: "maintenance \<Rightarrow> (nat \<times> ustr) list" where
  "versions m = map (\<lambda>r. (rb_id r, rb_requested_parser_version r)) (m_rebuilds m)"

definition frozen :: "nat \<Rightarrow> ustr \<Rightarrow> warehouse \<Rightarrow> RebuildFile list \<Rightarrow> maintenance \<Rightarrow> bool" where
  "frozen b version w q m \<longleftrightarrow> b < db_next_id (s_store (m_platform m)) \<and>
     (active_rebuild m = Some b \<longrightarrow> original_of b m = Some w \<and> map static_file (files_of b m) = q \<and>
        (\<forall>v. (b, v) \<in> set (versions m) \<longrightarrow> v = version))"

lemma frozen_keep:
  assumes "frozen b version w q m" "active_rebuild m' = active_rebuild m \<or> active_rebuild m' = None" "m_snapshots m' = m_snapshots m \<or> active_rebuild m' = None"
    "map static_file (files_of b m') = map static_file (files_of b m)" "db_next_id (s_store (m_platform m)) \<le> db_next_id (s_store (m_platform m'))"
    "versions m' = versions m"
  shows "frozen b version w q m'"
  using assms unfolding frozen_def original_of_def by auto

lemma begin_frozen:
  assumes "frozen b version w q m" "begin_rebuild by v m = (Inr x, m')"
  shows "frozen b version w q m'"
proof -
  from begin_effect [OF assms(2)] obtain b' where "b' = db_next_id (s_store (m_platform m))" "active_rebuild m' = Some b'" "db_next_id (s_store (m_platform m')) = b' + 1" .
  then show ?thesis using assms(1) by (auto simp: frozen_def)
qed

lemma resume_frozen: "frozen b version w q m \<Longrightarrow> resume_rebuild i m = (Inr x, m') \<Longrightarrow> frozen b version w q m'"
  using resume_effect(2) [of i m x m']
  by (elim frozen_keep) (simp_all add: set_rebuild_status_def on_database_def active_rebuild_def files_of_def versions_def map_update_where)

lemma fail_frozen: "frozen b version w q m \<Longrightarrow> fail_rebuild i ecode m = (Inr x, m') \<Longrightarrow> frozen b version w q m'"
  using fail_effect(2) [of i ecode m x m']
  by (elim frozen_keep) (simp_all add: set_rebuild_status_def on_database_def active_rebuild_def files_of_def versions_def map_update_where)

lemma complete_frozen:
  assumes "frozen b version w q m" "complete_rebuild_file i n f m = (Inr x, m')"
  shows "frozen b version w q m'"
proof -
  from complete_effect [OF assms(2)] have m': "m' = m\<lparr>m_platform := (m_platform m)\<lparr>s_rebuild_files :=
            update_where (checkpointed i n f) (\<lambda>r. r\<lparr>rf_status := ''completed''\<rparr>) (s_rebuild_files (m_platform m))\<rparr>,
       m_rebuilds := update_where (\<lambda>r. rb_id r = i)
            (\<lambda>r. r\<lparr>rb_source_files_completed := rb_source_files_completed r + 1, rb_last_sequence := Some n,
              rb_last_source_file_id := Some (asf_source_file_id f), rb_last_archived_at := asf_archived_at f\<rparr>) (m_rebuilds m)\<rparr>" .
  have "map static_file (files_of b m') = map static_file (files_of b m)"
    unfolding files_of_def m' by (simp add: filter_update_where map_update_where static_file_def)
  then show ?thesis by (rule frozen_keep [OF assms(1), rotated 2]) (simp_all add: m' active_rebuild_def versions_def map_update_where)
qed

lemma finish_frozen:
  assumes "frozen b version w q m" "finish_rebuild i m = (Inr x, m')"
  shows "frozen b version w q m'"
proof -
  from finish_effect [OF assms(2)] obtain w' ex where
    "m' = close_rebuild i (drop_snapshots i ex ((on_tables (\<lambda>_. w') m)\<lparr>m_snapshots := ((i, Rebuilt), s_warehouse (m_platform m)) # m_snapshots m\<rparr>))" .
  then show ?thesis using assms(1)
    by (simp add: frozen_def close_rebuild_def drop_snapshots_def on_tables_def set_rebuild_status_def on_database_def active_rebuild_def)
qed

lemma upkeep_step_frozen: "frozen b version w q m \<Longrightarrow> frozen b version w q (upkeep_step x m)"
proof (induction x m rule: upkeep_step.induct)
  case (6 p m)
  then show ?case unfolding upkeep_step.simps other_step_def
    by (auto simp: frozen_def active_rebuild_def original_of_def files_of_def versions_def)
qed (unfold upkeep_step.simps, (rule snd_cases, erule (1) begin_frozen resume_frozen complete_frozen fail_frozen finish_frozen, erule raises_unchanged, assumption)+)

lemma upkeep_frozen: "frozen b version w q m \<Longrightarrow> frozen b version w q (fold upkeep_step ops m)"
  by (induction ops arbitrary: m) (simp_all add: upkeep_step_frozen)


lemma static_columns [simp]: "rf_original_applied_at (static_file r) = rf_original_applied_at r" "rf_source_file_id (static_file r) = rf_source_file_id r"
    "rf_original_parser_version (static_file r) = rf_original_parser_version r"
  by (simp_all add: static_file_def)

lemma queue_file:
  assumes "r \<in> set (rebuild_queue b t p)"
  obtains f where "f \<in> set (db_source_files (s_store p))" "eligible t (s_store p) f" "rf_original_applied_at r = applied_instant (f_id f) (s_warehouse p)"
    "rf_original_parser_version r = f_parser_version f" "rf_source_file_id r = f_id f"
proof -
  have "\<exists>f\<in>set fs. \<exists>k. r = rebuild_file b w k f" if "r \<in> set (numbered n (rebuild_file b w) fs)" for n w fs
    using that by (induction fs arbitrary: n) auto
  then show thesis using assms that unfolding rebuild_queue_def by (fastforce simp: rebuild_file_def)
qed

text \<open>What a run that begins freezes.\<close>

lemma queue_of_run:
  assumes inv: "rebuild_inv m" and run: "begin_rebuild by version m = (Inr (x, st), m')"
  shows "files_of (rb_id x) m' = rebuild_queue (rb_id x) (db_now (s_store (m_platform m))) (m_platform m)"
proof -
  from begin_effect [OF run] obtain b where e: "b = db_next_id (s_store (m_platform m))"
    "s_rebuild_files (m_platform m') = s_rebuild_files (m_platform m) @ rebuild_queue b (db_now (s_store (m_platform m))) (m_platform m)" "rb_id (fst (x, st)) = b"
    by metis
  have "files_of b m = []" using rebuild_invD(5) [OF inv] rebuild_invD(3) [OF inv] e(1) by (fastforce simp: files_of_def filter_empty_conv)
  then show ?thesis using rebuild_queue_rows(1) [of b b] e(2,3) by (simp add: files_of_def)
qed

lemma begin_freezes:
  assumes inv: "rebuild_inv m" and run: "begin_rebuild by version m = (Inr x, m')"
  shows "frozen (rb_id (fst x)) version (s_warehouse (m_platform m))
     (map static_file (rebuild_queue (rb_id (fst x)) (db_now (s_store (m_platform m))) (m_platform m))) m'"
proof -
  from begin_effect [OF run] obtain b q where e: "b = db_next_id (s_store (m_platform m))"
    "q = rebuild_queue b (db_now (s_store (m_platform m))) (m_platform m)"
    "m_rebuilds m' = update_where (\<lambda>r. rb_id r = b) (\<lambda>r. r\<lparr>rb_source_files_total := int (length (files_of b m @ filter (\<lambda>r. rf_rebuild_run_id r = b) q))\<rparr>)
       (m_rebuilds m @ [new_rebuild b by version (db_now (s_store (m_platform m)))])"
    "s_rebuild_files (m_platform m') = s_rebuild_files (m_platform m) @ q"
    "db_next_id (s_store (m_platform m')) = b + 1" "m_snapshots m' = ((b, Original), s_warehouse (m_platform m)) # m_snapshots m" "rb_id (fst x) = b" .
  have new: "\<forall>r\<in>set (m_rebuilds m). rb_id r < b" using rebuild_invD(3) [OF inv] e(1) by simp
  have files: "files_of b m' = q" using queue_of_run [OF inv, of "by" version "fst x" "snd x"] run e(2,7) by simp
  have "versions m' = versions m @ [(b, version)]" unfolding versions_def e(3) by (simp add: map_update_where new_rebuild_def)
  then have "v = version" if "(b, v) \<in> set (versions m')" for v using that new by (auto simp: versions_def)
  then show ?thesis by (simp add: frozen_def e(5-7) original_of_def files) (simp add: e(2))
qed

lemma queued:
  assumes "f \<in> set (db_source_files (s_store p))" "eligible t (s_store p) f"
  shows "\<exists>r\<in>set (rebuild_queue b t p). rf_source_file_id r = f_id f"
proof -
  have "\<exists>r\<in>set (numbered n (rebuild_file b w) fs). rf_source_file_id r = f_id f" if "f \<in> set fs" for n w fs
    using that by (induction fs arbitrary: n) (auto simp: rebuild_file_def)
  then show ?thesis using assms by (simp add: rebuild_queue_def)
qed

text \<open>The row of a file in the queue of the active run names the instant of its first application.\<close>

lemma frozen_row:
  assumes fr: "frozen b version w (map static_file (rebuild_queue b t0 p)) m" and active: "active_rebuild m = Some b"
    and listed: "f \<in> set (db_source_files (s_store p))" "eligible t0 (s_store p) f" "applied_instant (f_id f) (s_warehouse p) = Some t"
  shows "\<exists>r. find (\<lambda>r. rf_rebuild_run_id r = b \<and> rf_source_file_id r = f_id f) (s_rebuild_files (m_platform m)) = Some r \<and> rf_original_applied_at r = Some t"
proof -
  have q: "map static_file (files_of b m) = map static_file (rebuild_queue b t0 p)" using fr active by (simp add: frozen_def)
  have row: "rf_original_applied_at r = Some t" if r: "r \<in> set (files_of b m)" "rf_source_file_id r = f_id f" for r
  proof -
    have "static_file r \<in> static_file ` set (rebuild_queue b t0 p)" using arg_cong [OF q, of set] r(1) by auto
    then obtain r0 where r0: "static_file r = static_file r0" "r0 \<in> set (rebuild_queue b t0 p)" by (rule imageE)
    obtain g :: SourceFile where "rf_original_applied_at r0 = applied_instant (f_id g) (s_warehouse p)" "rf_source_file_id r0 = f_id g"
      by (rule queue_file [OF r0(2)])
    then show ?thesis using arg_cong [OF r0(1), of rf_original_applied_at] arg_cong [OF r0(1), of rf_source_file_id] r(2) listed(3) by simp
  qed
  obtain r0 where "r0 \<in> set (rebuild_queue b t0 p)" "rf_source_file_id r0 = f_id f" using queued [OF listed(1,2)] by blast
  then have "static_file r0 \<in> static_file ` set (files_of b m)" using arg_cong [OF q, of set] by auto
  then obtain r1 where r1: "static_file r0 = static_file r1" "r1 \<in> set (files_of b m)" by (rule imageE)
  have "rf_source_file_id r1 = f_id f" using arg_cong [OF r1(1), of rf_source_file_id] \<open>rf_source_file_id r0 = f_id f\<close> by simp
  then have "find (\<lambda>r. rf_rebuild_run_id r = b \<and> rf_source_file_id r = f_id f) (s_rebuild_files (m_platform m)) \<noteq> None"
    using r1(2) by (auto simp: find_None_iff files_of_def)
  then obtain r where r: "find (\<lambda>r. rf_rebuild_run_id r = b \<and> rf_source_file_id r = f_id f) (s_rebuild_files (m_platform m)) = Some r" by auto
  from find_in [OF r] have "r \<in> set (files_of b m)" "rf_source_file_id r = f_id f" by (simp_all add: files_of_def)
  with row r show ?thesis by blast
qed

section \<open>The order of the queue\<close>

lemma numbered_nth: "i < length xs \<Longrightarrow> numbered n f xs ! i = f (n + i) (xs ! i)"
proof (induction xs arbitrary: n i)
  case (Cons x xs)
  then show ?case using Cons.IH [of "i - 1" "Suc n"] by (cases i) auto
qed simp

lemma queue_order:
  assumes "f \<in> set (db_source_files (s_store p))" "eligible t (s_store p) f" "g \<in> set (db_source_files (s_store p))" "eligible t (s_store p) g"
    and less: "rebuild_position (s_warehouse p) f < rebuild_position (s_warehouse p) g"
  shows "\<exists>x\<in>set (rebuild_queue b t p). \<exists>y\<in>set (rebuild_queue b t p). rf_source_file_id x = f_id f \<and> rf_source_file_id y = f_id g \<and> rf_sequence x < rf_sequence y"
proof -
  let ?k = "rebuild_position (s_warehouse p)"
  let ?xs = "sort_key ?k (filter (eligible t (s_store p)) (db_source_files (s_store p)))"
  have "f \<in> set ?xs" "g \<in> set ?xs" using assms(1-4) by simp_all
  then obtain i j where ij: "i < length ?xs" "?xs ! i = f" "j < length ?xs" "?xs ! j = g" by (auto simp: in_set_conv_nth simp del: length_sort set_sort)
  have "sorted (map ?k ?xs)" by simp
  then have "i < j" using ij less sorted_nth_mono [of "map ?k ?xs" j i] by (fastforce simp: not_less)
  moreover have "rebuild_queue b t p ! i = rebuild_file b (s_warehouse p) (1 + i) f" "rebuild_queue b t p ! j = rebuild_file b (s_warehouse p) (1 + j) g"
    unfolding rebuild_queue_def using ij by (simp_all only: numbered_nth)
  moreover have "rebuild_queue b t p ! i \<in> set (rebuild_queue b t p)" "rebuild_queue b t p ! j \<in> set (rebuild_queue b t p)"
    using ij(1,3) by (simp_all add: rebuild_queue_def)
  ultimately show ?thesis by (intro bexI [of _ "rebuild_queue b t p ! i"] bexI [of _ "rebuild_queue b t p ! j"]) (simp_all add: rebuild_file_def)
qed

section \<open>Applications behind the barrier\<close>

lemma apply_file_Inr: "apply_file limits sid dtype least drop_limit s = (Inr x, s') \<Longrightarrow> apply_steps limits sid dtype least drop_limit s = (Inr (Some x), s')"
  by (auto simp: apply_file_def abind_Inr_iff areturn_def file_transaction_def split: if_splits option.splits)

lemma barrier_rebuild:
  assumes "db_active_rebuild d = Some b" "maintenance_allows rebuild d = (Inr (), d')"
  shows "rebuild = Some b" "map_of (db_rebuild_runs d) b = Some ''running''"
  using assms by (auto simp: maintenance_allows_def effect_simps areturn_def split: if_splits)

lemma claims_original:
  assumes run: "apply_file limits sid dtype least drop_limit s = (Inr x, s')" and new: "applied_instant sid (s_warehouse s) = None"
    and active: "db_active_rebuild (s_store s) = Some b"
    and row: "find (\<lambda>r. rf_rebuild_run_id r = b \<and> rf_source_file_id r = sid) (s_rebuild_files s) = Some r" "rf_original_applied_at r = Some t"
  shows "applied_instant sid (s_warehouse s') = Some t"
  using apply_file_Inr [OF run]
proof (rule apply_steps_effect)
  fix f sha a rebuild scopes ts q s1
  assume v: "validate_source_ordering limits sid f sha dtype a s = (Inr (scopes, ts, q), s1)" and m: "maintenance_allows rebuild (s_store s) = (Inr (), s_store s)"
    and "if q then Some x = None \<and> s' = s1
      else \<exists>y. Some x = Some y \<and> apply_in_order sid f sha dtype least drop_limit a rebuild (db_now (s_store s)) scopes ts s1 = (Inr y, s')"
  then have r: "apply_in_order sid f sha dtype least drop_limit a rebuild (db_now (s_store s)) scopes ts s1 = (Inr x, s')" by (auto split: if_splits)
  have s1: "s_warehouse s1 = s_warehouse s" "s_rebuild_files s1 = s_rebuild_files s" using ordering_effect(2,3) [OF v] .
  from r obtain s2 t' w where c: "claim_content sid f sha dtype (db_now (s_store s)) ts a rebuild s1 = (Inr t', s2)"
     "apply_document sid f dtype t' least drop_limit (s_warehouse s2) = (Inr x, w)" "w_contents (s_warehouse s') = w_contents w"
    by (auto simp: apply_in_order_def abind_Inr_iff on_warehouse_eq amodify_eq advance_source_watermarks_def areturn_def)
  have "t' = t" using c(1) barrier_rebuild(1) [OF active m] row new
    by (auto simp: claim_content_def abind_Inr_iff aget_eq areturn_def on_warehouse_eq amodify_eq Let_def s1 rebuild_applied_at_def)
  then show "applied_instant sid (s_warehouse s') = Some t" using claim_effect(3) [OF c(1)] apply_document_frame [OF c(2)] c(3) by (simp add: applied_instant_def)
qed

section \<open>Properties\<close>

text \<open>
  C14. The bookkeeping of rebuilds is exact, whatever operations are called in whatever order and with whatever arguments, and whatever happens in between: the
  completed files of a run are the first ones of its queue, the counters say how many, a run is completed exactly when it is not
  the active one, and a completed run has completed all its files.
\<close>
theorem rebuild_bookkeeping:
  assumes "m = fold upkeep_step ops (fresh_maintenance p)" "r \<in> set (m_rebuilds m)"
  shows "\<exists>k\<le>length (files_of (rb_id r) m). map rf_status (files_of (rb_id r) m) =
        replicate k ''completed'' @ replicate (length (files_of (rb_id r) m) - k) ''pending'' \<and>
      map rf_sequence (files_of (rb_id r) m) = map int [1..<Suc (length (files_of (rb_id r) m))] \<and>
      rb_source_files_completed r = int k \<and> rb_source_files_total r = int (length (files_of (rb_id r) m)) \<and>
      (rebuild_status_of (rb_id r) m = Some ''completed'' \<longleftrightarrow> active_rebuild m \<noteq> Some (rb_id r)) \<and>
      (rebuild_status_of (rb_id r) m = Some ''completed'' \<longrightarrow> k = length (files_of (rb_id r) m))"
proof -
  have inv: "rebuild_inv m" unfolding assms(1) by (rule upkeep_inv [OF fresh_inv])
  let ?fs = "files_of (rb_id r) m"
  have ok: "queue_ok r ?fs" by (rule rebuild_invD(4) [OF inv assms(2)])
  then obtain k where k: "k \<le> length ?fs" "rb_source_files_completed r = int k" "rb_source_files_total r = int (length ?fs)"
    "map rf_status ?fs = replicate k ''completed'' @ replicate (length ?fs - k) ''pending''" by (rule queue_statuses)
  have "rb_id r \<in> set (map fst (db_rebuild_runs (s_store (m_platform m))))" unfolding rebuild_invD(2) [OF inv] using assms(2) by simp
  then obtain st where st: "rebuild_status_of (rb_id r) m = Some st"
    unfolding rebuild_status_of_def by (metis list.set_map map_of_eq_None_iff not_None_eq)
  note in_runs = status_of_in [OF st]
  have full: "k = length ?fs" if "st = ''completed''"
  proof (rule ccontr)
    assume "k \<noteq> length ?fs"
    then have "''pending'' \<in> set (map rf_status ?fs)" unfolding k(4) using k(1) by simp
    then show False using rebuild_invD(8) [OF inv] in_runs that by fastforce
  qed
  show ?thesis using k ok st rebuild_invD(7) [OF inv in_runs] full by (intro exI [of _ k]) (simp add: queue_ok_def del: upt_Suc)
qed

text \<open>
  C13. A rebuild is loss free. When every file that it replays was applied before with the same parser version and it completes, then all
  tables of the catalogue hold exactly the rows they held when it began, keys included, and the barrier is lifted. Whatever
  the replays did in between, a rebuild that would end otherwise does not complete.
\<close>
theorem unchanged_rebuild_restores:
  assumes inv: "rebuild_inv m0" and start: "begin_rebuild by version m0 = (Inr (run, st), m1)" and m2: "m2 = fold upkeep_step ops m1"
    and finish: "finish_rebuild (rb_id run) m2 = (Inr x, m3)"
    and unchanged: "\<forall>f\<in>set (db_source_files (s_store (m_platform m0))). eligible (db_now (s_store (m_platform m0))) (s_store (m_platform m0)) f \<longrightarrow>
      applied_instant (f_id f) (s_warehouse (m_platform m0)) \<noteq> None \<and> f_parser_version f = Some version"
  shows "exactly_equal (s_warehouse (m_platform m0)) (s_warehouse (m_platform m3)) \<and> active_rebuild m3 = None"
proof -
  let ?b = "rb_id run" and ?w = "s_warehouse (m_platform m0)"
  let ?q = "map static_file (rebuild_queue ?b (db_now (s_store (m_platform m0))) (m_platform m0))"
  from finish_effect [OF finish] obtain run2 w ex where e: "active_rebuild m2 = Some ?b" "find (\<lambda>r. rb_id r = ?b) (m_rebuilds m2) = Some run2"
    "parser_correction run2 m2 \<or> archive_only_files ?b m2 \<or> exactly_equal (snapshot_original ?b m2) w"
    "m3 = close_rebuild ?b (drop_snapshots ?b ex ((on_tables (\<lambda>_. w) m2)\<lparr>m_snapshots := ((?b, Rebuilt), s_warehouse (m_platform m2)) # m_snapshots m2\<rparr>))" .
  have "frozen ?b version ?w ?q m2" unfolding m2 by (rule upkeep_frozen) (use begin_freezes [OF inv start] in simp)
  then have fr: "original_of ?b m2 = Some ?w" "map static_file (files_of ?b m2) = ?q" "\<forall>v. (?b, v) \<in> set (versions m2) \<longrightarrow> v = version"
    using e(1) by (simp_all add: frozen_def)
  have run2: "run2 \<in> set (m_rebuilds m2)" "rb_id run2 = ?b" using find_in [OF e(2)] by simp_all
  have "(rb_id run2, rb_requested_parser_version run2) \<in> set (versions m2)" unfolding versions_def set_map by (rule imageI [OF run2(1)])
  then have v: "rb_requested_parser_version run2 = version" using fr(3) run2(2) by simp
  have applied: "rf_original_applied_at r \<noteq> None \<and> rf_original_parser_version r = Some version" if "r \<in> set (files_of ?b m2)" for r
  proof -
    have "static_file r \<in> set (map static_file (files_of ?b m2))" using that by simp
    then obtain r0 where r0: "static_file r = static_file r0" "r0 \<in> set (rebuild_queue ?b (db_now (s_store (m_platform m0))) (m_platform m0))"
      unfolding fr(2) set_map by (rule imageE)
    have same: "rf_original_applied_at r = rf_original_applied_at r0" "rf_original_parser_version r = rf_original_parser_version r0"
      using arg_cong [OF r0(1), of rf_original_applied_at] arg_cong [OF r0(1), of rf_original_parser_version] by simp_all
    from queue_file [OF r0(2)] obtain f where f: "f \<in> set (db_source_files (s_store (m_platform m0)))"
      "eligible (db_now (s_store (m_platform m0))) (s_store (m_platform m0)) f" "rf_original_applied_at r0 = applied_instant (f_id f) ?w"
      "rf_original_parser_version r0 = f_parser_version f" .
    show ?thesis unfolding same f(3,4) using unchanged f(1,2) by blast
  qed
  then have "\<not> parser_correction run2 m2" "\<not> archive_only_files ?b m2"
    using v run2(2) by (auto simp: parser_correction_def archive_only_files_def)
  then have "exactly_equal ?w w" using e(3) fr(1) by (simp add: snapshot_original_def)
  moreover have "s_warehouse (m_platform m3) = w" "active_rebuild m3 = None"
    by (simp_all add: e(4) close_rebuild_def drop_snapshots_def on_tables_def set_rebuild_status_def on_database_def active_rebuild_def)
  ultimately show ?thesis by simp
qed

text \<open>
  C15. While a rebuild is active only its own replays are applied: a file is applied only with an open replay of this rebuild, and only while
  the rebuild is running.
\<close>
theorem barrier_admits_own_replays:
  assumes "db_active_rebuild (s_store s) = Some b" "apply_file limits sid dtype least drop_limit s = (Inr x, s')"
  shows "map_of (db_rebuild_runs (s_store s)) b = Some ''running'' \<and> (\<exists>r\<in>set (db_replays (s_store s)). open_replay sid r \<and> rp_rebuild_run_id r = Some b)"
proof -
  obtain a rebuild where st: "current_attempt sid (s_store s) = (Inr (a, rebuild), s_store s)" "maintenance_allows rebuild (s_store s) = (Inr (), s_store s)"
    by (rule apply_steps_effect [OF apply_file_Inr [OF assms(2)]])
  note m = barrier_rebuild [OF assms(1) st(2)]
  from st(1) m(1) obtain r where "find (open_replay sid) (db_replays (s_store s)) = Some r" "rp_rebuild_run_id r = Some b"
    by (auto simp: current_attempt_def effect_simps areturn_def split: option.splits)
  then show ?thesis using m(2) find_in by fastforce
qed

text \<open>
  C12. A rebuild keeps the instants of application. It clears them, but when a file that was applied before is applied again for the first time by one of its replays,
  whatever happened since the rebuild began, the file gets the instant of its first application back, and keeps it whatever is staged and applied afterwards.
\<close>
theorem instants_survive_rebuild:
  assumes inv: "rebuild_inv m0" and start: "begin_rebuild by version m0 = (Inr (run, st), m1)"
    and listed: "f \<in> set (db_source_files (s_store (m_platform m0)))" "eligible (db_now (s_store (m_platform m0))) (s_store (m_platform m0)) f"
      "applied_instant (f_id f) (s_warehouse (m_platform m0)) = Some t"
    and m2: "m2 = fold upkeep_step ops m1" "active_rebuild m2 = Some (rb_id run)" "applied_instant (f_id f) (s_warehouse (m_platform m2)) = None"
    and replay: "apply_file limits (f_id f) dtype least drop_limit (m_platform m2) = (Inr x, p)" and later: "platform_step\<^sup>*\<^sup>* p p'"
  shows "applied_instant (f_id f) (s_warehouse (m_platform m1)) = None \<and> applied_instant (f_id f) (s_warehouse p') = Some t"
proof
  have "s_warehouse (m_platform m1) = delete_derived_matches (truncate_derived (s_warehouse (m_platform m0)))" by (rule begin_effect [OF start])
  then have "w_contents (s_warehouse (m_platform m1)) = []" by (simp add: delete_derived_matches_def truncate_derived_def)
  then show "applied_instant (f_id f) (s_warehouse (m_platform m1)) = None" by (simp add: applied_instant_def)
  have "frozen (rb_id run) version (s_warehouse (m_platform m0)) (map static_file (rebuild_queue (rb_id run) (db_now (s_store (m_platform m0))) (m_platform m0))) m2"
    unfolding m2(1) by (rule upkeep_frozen) (use begin_freezes [OF inv start] in simp)
  from frozen_row [OF this m2(2) listed] obtain r where
    r: "find (\<lambda>r. rf_rebuild_run_id r = rb_id run \<and> rf_source_file_id r = f_id f) (s_rebuild_files (m_platform m2)) = Some r" "rf_original_applied_at r = Some t" by blast
  have "applied_instant (f_id f) (s_warehouse p) = Some t"
    by (rule claims_original [OF replay m2(3) _ r]) (use m2(2) in \<open>simp add: active_rebuild_def\<close>)
  then show "applied_instant (f_id f) (s_warehouse p') = Some t" using steps_keep_past [OF later] by (simp add: keeps_past_def)
qed

text \<open>
  C40. A file that was only archived can block a rebuild for good. When its timestamp lies before the instant at which another file was applied, it comes
  first in the queue, also when the timestamp of the other file is the older one. Once it has been applied, the
  other file of the same scope is late and every application of it raises, whatever happens in between.
\<close>
theorem archived_file_blocks_rebuild:
  assumes inv: "rebuild_inv m" and start: "begin_rebuild by version m = (Inr (run, st), m1)"
    and files: "f \<in> set (db_source_files (s_store (m_platform m)))" "eligible (db_now (s_store (m_platform m))) (s_store (m_platform m)) f"
      "g \<in> set (db_source_files (s_store (m_platform m)))" "eligible (db_now (s_store (m_platform m))) (s_store (m_platform m)) g"
    and applied: "applied_instant (f_id f) (s_warehouse (m_platform m)) = None" "applied_instant (f_id g) (s_warehouse (m_platform m)) = Some a"
      "rebuild_timestamp (s_warehouse (m_platform m)) f < a"
    and replayed: "apply_file limits (f_id f) dtype least drop_limit s = (Inr x, s1)" "archived_source (s_store s) (f_id f) = Some (f1, sha1)"
      "sc \<in> set (file_scopes (f_id f) dtype (s_warehouse s))"
    and later: "platform_step\<^sup>*\<^sup>* s1 s2" "archived_source (s_store s2) (f_id g) = Some (g2, sha2)" "sc \<in> set (file_scopes (f_id g) dtype (s_warehouse s2))"
      "f_retailer_id g2 = f_retailer_id f1" "f_portal_id g2 = f_portal_id f1"
      "effective_timestamp g2 (declared_updates (f_id g) (s_warehouse s2)) < effective_timestamp f1 (declared_updates (f_id f) (s_warehouse s))"
  shows "(\<exists>y\<in>set (files_of (rb_id run) m1). \<exists>z\<in>set (files_of (rb_id run) m1).
        rf_source_file_id y = f_id f \<and> rf_source_file_id z = f_id g \<and> rf_sequence y < rf_sequence z) \<and>
     (\<exists>e s3. apply_file limits (f_id g) dtype least drop_limit s2 = (Inl e, s3) \<and> s_warehouse s3 = s_warehouse s2)"
proof
  let ?k = "(f_retailer_id f1, f_portal_id f1, document_family dtype, sc)"
  have "rebuild_position (s_warehouse (m_platform m)) f < rebuild_position (s_warehouse (m_platform m)) g"
    using applied by (simp add: rebuild_position_def)
  from queue_order [OF files this, of "rb_id run"] queue_of_run [OF inv start]
  show "\<exists>y\<in>set (files_of (rb_id run) m1). \<exists>z\<in>set (files_of (rb_id run) m1).
      rf_source_file_id y = f_id f \<and> rf_source_file_id z = f_id g \<and> rf_sequence y < rf_sequence z" by simp
  from apply_file_order [OF replayed(1)] obtain f' sha' where o: "archived_source (s_store s) (f_id f) = Some (f', sha')"
    "\<forall>k. watermark_of (s_warehouse s1) k = (if k \<in> (\<lambda>sc. (f_retailer_id f', f_portal_id f', document_family dtype, sc)) `
        set (file_scopes (f_id f) dtype (s_warehouse s)) then Some (effective_timestamp f' (declared_updates (f_id f) (s_warehouse s))) else watermark_of (s_warehouse s) k)" .
  have "watermark_of (s_warehouse s1) ?k = Some (effective_timestamp f1 (declared_updates (f_id f) (s_warehouse s)))"
    using spec [OF o(2), of ?k] o(1) replayed(2) imageI [OF replayed(3), of "\<lambda>sc. (f_retailer_id f', f_portal_id f', document_family dtype, sc)"] by simp
  then obtain t where t: "watermark_of (s_warehouse s2) ?k = Some t" "effective_timestamp f1 (declared_updates (f_id f) (s_warehouse s)) \<le> t"
    using steps_keep_past [OF later(1)] unfolding keeps_past_def by blast
  show "\<exists>e s3. apply_file limits (f_id g) dtype least drop_limit s2 = (Inl e, s3) \<and> s_warehouse s3 = s_warehouse s2"
    by (rule late_file_raises [where t = t, OF _ later(2,3)]) (use t later(4-6) in simp_all)
qed


section \<open>Examples\<close>

text \<open>File 6, with timestamp 2, was applied at instant 9; file 5, with timestamp 5, was only archived.\<close>

definition demo_archived :: "nat \<Rightarrow> int \<Rightarrow> IngestionStatus \<Rightarrow> SourceFile" where
  "demo_archived sid ts st = (demo_file sid ts)\<lparr>f_status := st, f_download_finished_at := Some (Aware ts), f_parser_version := Some (lit ''1'')\<rparr>"

definition demo_archive :: platform where
  "demo_archive = demo_platform\<lparr>s_store := (demo_source 10)\<lparr>db_next_id := 20, db_source_files := [demo_archived 5 5 ARCHIVED, demo_archived 6 2 COMPLETED]\<rparr>,
     s_warehouse := no_tables\<lparr>w_contents := [\<lparr>ac_source_file_id = 6, ac_retailer_id = 10, ac_portal_id = 20, ac_document_type = PRICE_DELTA,
       ac_content_sha256 = lit ''b'', ac_applied_at = 9\<rparr>]\<rparr>\<rparr>"

text \<open>The rebuild in the middle of the replay of file 5.\<close>

definition demo_replaying :: platform where
  "demo_replaying = demo_archive\<lparr>s_store := (s_store demo_archive)\<lparr>db_active_rebuild := Some 20, db_rebuild_runs := [(20, ''running'')],
       db_replays := [\<lparr>rp_id = 30, rp_source_file_id = 5, rp_rebuild_run_id = Some 20, rp_requested_parser_version = lit ''1'',
         rp_previous_parser_version = None, rp_status = APPLYING, rp_finished_at = None, rp_succeeded = None, rp_error_code = None\<rparr>]\<rparr>,
     s_warehouse := no_tables\<rparr>"

lemmas archive_eval = demo_archive_def demo_archived_def demo_replaying_def no_tables_def demo_defs

lemma demo_replaying_run:
  obtains x s1 where "apply_file demo_limits 5 PRICE_DELTA 0 1 demo_replaying = (Inr x, s1)" "s_store s1 = s_store demo_replaying"
    "file_scopes 6 PRICE_DELTA (s_warehouse s1) = [([], [])]" "declared_updates 6 (s_warehouse s1) = []"
proof -
  have "(case apply_file demo_limits 5 PRICE_DELTA 0 1 demo_replaying of (r, s') \<Rightarrow>
      (map_sum (\<lambda>_. ()) inserted r, s_store s' = s_store demo_replaying, file_scopes 6 PRICE_DELTA (s_warehouse s'), declared_updates 6 (s_warehouse s'))) =
      (Inr 0, True, [([], [])], [])"
    by (simp add: archive_eval platform_eval header_scopes_def price_eval gtin_eval abind_eval del: set_filter cong: abind_weak_cong)
  then show thesis using that by (cases "apply_file demo_limits 5 PRICE_DELTA 0 1 demo_replaying"; cases "fst (apply_file demo_limits 5 PRICE_DELTA 0 1 demo_replaying)") auto
qed

lemma abind_aget_eval: "abind (aget g) k s = k (g s) s"
  by (simp add: abind_def aget_def)

lemmas rebuild_eval = abind_aget_eval begin_rebuild_def insert_rebuild_def run_row_ok_def new_rebuild_def enqueue_files_def rebuild_queue_def rebuild_position_def rebuild_file_def
  rebuild_timestamp_def eligible_def archive_known_def capture_snapshots_def truncate_derived_def delete_derived_matches_def rebuild_view_def
  rebuild_status_of_def active_rebuild_def on_database_def on_tables_def files_of_def fresh_maintenance_def complete_rebuild_file_def lock_rebuild_run_def
  checkpointed_def archived_file_def pending_file_def other_step_def finish_rebuild_def settle_rebuild_def parser_correction_def archive_only_files_def
  snapshot_original_def original_of_def logically_equal_def exactly_equal_def same_rows_def on_warehouse_of_def reconcile_stable_rebuild_ids_def
  reuse_catalogue_ids_def reuse_in_def reuse_ids_def reuse_promotion_ids_def promotion_id_map_def rekey_relations_def drop_snapshots_def close_rebuild_def
  set_rebuild_status_def atomically_def

lemma demo_begin_run:
  obtains run st m1 where "begin_rebuild (lit ''ops'') (lit ''1'') (fresh_maintenance demo_archive) = (Inr (run, st), m1)"
    "rb_id run = 20" "map rf_source_file_id (files_of 20 m1) = [5, 6]" "map rb_id (m_rebuilds m1) = [20]"
proof -
  have "(case begin_rebuild (lit ''ops'') (lit ''1'') (fresh_maintenance demo_archive) of (r, m1) \<Rightarrow>
      (map_sum (\<lambda>_. ()) (\<lambda>(run, st). rb_id run) r, map rf_source_file_id (files_of 20 m1), map rb_id (m_rebuilds m1))) = (Inr 20, [5, 6], [20])"
    by (simp add: rebuild_eval archive_eval platform_eval gtin_eval abind_eval cong: abind_weak_cong)
  then show thesis using that by (cases "begin_rebuild (lit ''ops'') (lit ''1'') (fresh_maintenance demo_archive)";
    cases "fst (begin_rebuild (lit ''ops'') (lit ''1'') (fresh_maintenance demo_archive))") auto
qed


theorem archived_file_blocks_rebuild_witness:
  "\<exists>run st m1 x s1. begin_rebuild (lit ''ops'') (lit ''1'') (fresh_maintenance demo_archive) = (Inr (run, st), m1) \<and>
     apply_file demo_limits 5 PRICE_DELTA 0 1 demo_replaying = (Inr x, s1) \<and>
     (\<exists>e s3. apply_file demo_limits 6 PRICE_DELTA 0 1 s1 = (Inl e, s3) \<and> s_warehouse s3 = s_warehouse s1)"
proof -
  obtain run st m1 where r: "begin_rebuild (lit ''ops'') (lit ''1'') (fresh_maintenance demo_archive) = (Inr (run, st), m1)" by (rule demo_begin_run)
  obtain x s1 where a: "apply_file demo_limits 5 PRICE_DELTA 0 1 demo_replaying = (Inr x, s1)" "s_store s1 = s_store demo_replaying"
    "file_scopes 6 PRICE_DELTA (s_warehouse s1) = [([], [])]" "declared_updates 6 (s_warehouse s1) = []" by (rule demo_replaying_run)
  let ?f = "demo_archived 5 5 ARCHIVED" and ?g = "demo_archived 6 2 COMPLETED" and ?m = "fresh_maintenance demo_archive"
  have ids: "f_id ?f = 5" "f_id ?g = 6" by (simp_all add: demo_archived_def demo_file_def)
  have files: "?f \<in> set (db_source_files (s_store (m_platform ?m)))" "eligible (db_now (s_store (m_platform ?m))) (s_store (m_platform ?m)) ?f"
    "?g \<in> set (db_source_files (s_store (m_platform ?m)))" "eligible (db_now (s_store (m_platform ?m))) (s_store (m_platform ?m)) ?g"
    by (simp_all add: archive_eval fresh_maintenance_def eligible_def archive_known_def)
  have applied: "applied_instant 5 (s_warehouse (m_platform ?m)) = None" "applied_instant 6 (s_warehouse (m_platform ?m)) = Some 9"
    "rebuild_timestamp (s_warehouse (m_platform ?m)) ?f < 9"
    by (simp_all add: archive_eval fresh_maintenance_def applied_instant_def rebuild_timestamp_def declared_updates_def List.map_filter_def)
  have src: "archived_source (s_store demo_replaying) 5 = Some (?f, lit ''a'')" "archived_source (s_store demo_replaying) 6 = Some (?g, lit ''b'')"
    by (simp_all add: archive_eval archived_source_def source_file_def)
  have sc: "([], []) \<in> set (file_scopes 5 PRICE_DELTA (s_warehouse demo_replaying))" "([], []) \<in> set (file_scopes 6 PRICE_DELTA (s_warehouse s1))"
    unfolding a(3) by (simp_all add: archive_eval file_scopes_def row_scopes_def header_scopes_def)
  have same: "f_retailer_id ?g = f_retailer_id ?f" "f_portal_id ?g = f_portal_id ?f" by (simp_all add: demo_archived_def demo_file_def)
  have ts: "effective_timestamp ?g (declared_updates 6 (s_warehouse s1)) < effective_timestamp ?f (declared_updates 5 (s_warehouse demo_replaying))"
    unfolding a(4) by (simp add: archive_eval effective_timestamp_def declared_timestamps_def declared_updates_def List.map_filter_def)
  note blocked = archived_file_blocks_rebuild [where f = ?f and g = ?g, unfolded ids, OF fresh_inv r files applied a(1) src(1) sc(1) rtranclp.rtrancl_refl
    src(2) [folded a(2)] sc(2) same ts]
  show ?thesis using r a(1) blocked by blast
qed

theorem barrier_admits_own_replays_witness:
  "\<exists>x s1. apply_file demo_limits 5 PRICE_DELTA 0 1 demo_replaying = (Inr x, s1) \<and> map_of (db_rebuild_runs (s_store demo_replaying)) 20 = Some ''running''"
proof -
  obtain x s1 where a: "apply_file demo_limits 5 PRICE_DELTA 0 1 demo_replaying = (Inr x, s1)" by (rule demo_replaying_run)
  have b: "db_active_rebuild (s_store demo_replaying) = Some 20" by (simp add: demo_replaying_def)
  from barrier_admits_own_replays [OF b a] a show ?thesis by blast
qed

theorem rebuild_bookkeeping_witness:
  "\<exists>m r. m = fold upkeep_step [Begin (lit ''ops'') (lit ''1'')] (fresh_maintenance demo_archive) \<and>
     r \<in> set (m_rebuilds m) \<and> map rf_source_file_id (files_of (rb_id r) m) = [5, 6] \<and> rb_source_files_total r = 2"
proof -
  obtain run st m1 where b: "begin_rebuild (lit ''ops'') (lit ''1'') (fresh_maintenance demo_archive) = (Inr (run, st), m1)"
    "map rf_source_file_id (files_of 20 m1) = [5, 6]" "map rb_id (m_rebuilds m1) = [20]" by (rule demo_begin_run)
  have m: "m1 = fold upkeep_step [Begin (lit ''ops'') (lit ''1'')] (fresh_maintenance demo_archive)"
    by (simp only: fold_simps upkeep_step.simps b(1) snd_conv)
  obtain r where r: "r \<in> set (m_rebuilds m1)" "rb_id r = 20" using b(3) by auto
  have "length (files_of (rb_id r) m1) = 2" using arg_cong [OF b(2), of length] r(2) by simp
  with rebuild_bookkeeping [OF m r(1)] have t: "rb_source_files_total r = 2" by auto
  have "map rf_source_file_id (files_of (rb_id r) m1) = [5, 6]" using b(2) r(2) by simp
  then show ?thesis using t by (intro exI conjI) (rule m r(1) | assumption)+
qed

text \<open>A rebuild of one file, whose replay brings back what was cleared.\<close>

definition demo_applied :: platform where
  "demo_applied = demo_archive\<lparr>s_store := (s_store demo_archive)\<lparr>db_source_files := [demo_archived 6 2 COMPLETED]\<rparr>\<rparr>"

definition demo_rebuilt :: platform where
  "demo_rebuilt = demo_applied\<lparr>s_store := (s_store demo_applied)\<lparr>db_next_id := 21, db_active_rebuild := Some 20, db_rebuild_runs := [(20, ''running'')]\<rparr>,
     s_rebuild_files := [rebuild_file 20 (s_warehouse demo_archive) 1 (demo_archived 6 2 COMPLETED)]\<rparr>"

definition demo_restore_ops :: "upkeep_op list" where
  "demo_restore_ops = [Other demo_rebuilt, Complete 20 1 \<lparr>asf_source_file_id = 6, asf_archived_at = Some (Aware 2)\<rparr>]"

lemma demo_restore_run:
  obtains run st m1 x m3 where "begin_rebuild (lit ''ops'') (lit ''1'') (fresh_maintenance demo_applied) = (Inr (run, st), m1)"
    "rb_id run = 20" "finish_rebuild 20 (fold upkeep_step demo_restore_ops m1) = (Inr x, m3)" "w_contents (s_warehouse (m_platform m1)) = []"
proof -
  have b: "(case begin_rebuild (lit ''ops'') (lit ''1'') (fresh_maintenance demo_applied) of (r, m1) \<Rightarrow>
      case other_step demo_rebuilt m1 of m2 \<Rightarrow>
      case complete_rebuild_file 20 1 \<lparr>asf_source_file_id = 6, asf_archived_at = Some (Aware 2)\<rparr> m2 of (r2, m2) \<Rightarrow>
      case finish_rebuild 20 m2 of (r3, m3) \<Rightarrow>
      (map_sum (\<lambda>_. ()) (\<lambda>(run, st). rb_id run) r, w_contents (s_warehouse (m_platform m1)), map_sum (\<lambda>_. ()) (\<lambda>_. ()) r3)) = (Inr 20, [], Inr ())"
    by (simp add: demo_applied_def demo_rebuilt_def rebuild_eval archive_eval platform_eval gtin_eval abind_eval del: set_filter cong: abind_weak_cong)
  let ?b = "begin_rebuild (lit ''ops'') (lit ''1'') (fresh_maintenance demo_applied)"
  obtain r m1 where m1: "?b = (r, m1)" by (cases ?b)
  define m2 where "m2 = fold upkeep_step demo_restore_ops m1"
  obtain r3 m3 where m3: "finish_rebuild 20 m2 = (r3, m3)" by (cases "finish_rebuild 20 m2")
  have "m2 = snd (complete_rebuild_file 20 1 \<lparr>asf_source_file_id = 6, asf_archived_at = Some (Aware 2)\<rparr> (other_step demo_rebuilt m1))"
    by (simp add: m2_def demo_restore_ops_def)
  with b m1 m3 have "map_sum (\<lambda>_. ()) (\<lambda>(run, st). rb_id run) r = Inr 20" "w_contents (s_warehouse (m_platform m1)) = []" "map_sum (\<lambda>_. ()) (\<lambda>_. ()) r3 = Inr ()"
    by (simp_all split: prod.splits)
  with m1 m3 that show thesis unfolding m2_def by (cases r; cases r3) auto
qed

theorem unchanged_rebuild_restores_witness:
  "\<exists>run st m1 x m3. begin_rebuild (lit ''ops'') (lit ''1'') (fresh_maintenance demo_applied) = (Inr (run, st), m1) \<and>
     w_contents (s_warehouse (m_platform m1)) = [] \<and> finish_rebuild 20 (fold upkeep_step demo_restore_ops m1) = (Inr x, m3) \<and>
     exactly_equal (s_warehouse (m_platform (fresh_maintenance demo_applied))) (s_warehouse (m_platform m3))"
proof -
  obtain run st m1 x m3 where r: "begin_rebuild (lit ''ops'') (lit ''1'') (fresh_maintenance demo_applied) = (Inr (run, st), m1)"
    "rb_id run = 20" "finish_rebuild 20 (fold upkeep_step demo_restore_ops m1) = (Inr x, m3)" "w_contents (s_warehouse (m_platform m1)) = []"
    by (rule demo_restore_run)
  have u: "\<forall>f\<in>set (db_source_files (s_store (m_platform (fresh_maintenance demo_applied)))).
      eligible (db_now (s_store (m_platform (fresh_maintenance demo_applied)))) (s_store (m_platform (fresh_maintenance demo_applied))) f \<longrightarrow>
      applied_instant (f_id f) (s_warehouse (m_platform (fresh_maintenance demo_applied))) \<noteq> None \<and> f_parser_version f = Some (lit ''1'')"
    by (simp add: fresh_maintenance_def demo_applied_def archive_eval applied_instant_def)
  from unchanged_rebuild_restores [OF fresh_inv r(1) refl r(3) [folded r(2)] u] r show ?thesis by blast
qed

text \<open>In the middle of this rebuild, in the replay of the file.\<close>

definition demo_again :: platform where
  "demo_again = demo_rebuilt\<lparr>s_warehouse := no_tables, s_store := (s_store demo_rebuilt)\<lparr>
     db_replays := [\<lparr>rp_id = 30, rp_source_file_id = 6, rp_rebuild_run_id = Some 20, rp_requested_parser_version = lit ''1'',
       rp_previous_parser_version = None, rp_status = APPLYING, rp_finished_at = None, rp_succeeded = None, rp_error_code = None\<rparr>]\<rparr>\<rparr>"

lemma demo_again_run:
  obtains x s1 where "apply_file demo_limits 6 PRICE_DELTA 0 1 demo_again = (Inr x, s1)"
proof -
  have "map_sum (\<lambda>_. ()) inserted (fst (apply_file demo_limits 6 PRICE_DELTA 0 1 demo_again)) = Inr 0"
    by (simp add: demo_again_def demo_rebuilt_def demo_applied_def rebuild_file_def rebuild_timestamp_def archive_eval platform_eval header_scopes_def price_eval
      gtin_eval abind_eval del: set_filter cong: abind_weak_cong)
  then show thesis using that by (cases "apply_file demo_limits 6 PRICE_DELTA 0 1 demo_again"; cases "fst (apply_file demo_limits 6 PRICE_DELTA 0 1 demo_again)") auto
qed

lemma demo_again_reached:
  obtains run st m1 where "begin_rebuild (lit ''ops'') (lit ''1'') (fresh_maintenance demo_applied) = (Inr (run, st), m1)" "rb_id run = 20"
    "m_platform (fold upkeep_step [Other demo_again] m1) = demo_again"
proof -
  have "(case begin_rebuild (lit ''ops'') (lit ''1'') (fresh_maintenance demo_applied) of (r, m1) \<Rightarrow>
      (map_sum (\<lambda>_. ()) (\<lambda>(run, st). rb_id run) r, s_rebuild_files (m_platform m1) = s_rebuild_files demo_again,
       db_rebuild_runs (s_store (m_platform m1)) = db_rebuild_runs (s_store demo_again),
       db_active_rebuild (s_store (m_platform m1)) = db_active_rebuild (s_store demo_again),
       db_next_id (s_store (m_platform m1)) = db_next_id (s_store demo_again))) = (Inr 20, True, True, True, True)"
    by (simp add: demo_again_def demo_applied_def demo_rebuilt_def rebuild_eval archive_eval platform_eval gtin_eval abind_eval del: set_filter cong: abind_weak_cong)
  then show thesis using that by (cases "begin_rebuild (lit ''ops'') (lit ''1'') (fresh_maintenance demo_applied)";
    cases "fst (begin_rebuild (lit ''ops'') (lit ''1'') (fresh_maintenance demo_applied))") (auto simp: other_step_def)
qed

theorem instants_survive_rebuild_witness:
  "applied_instant 6 (s_warehouse demo_applied) = Some 9 \<and> applied_instant 6 (s_warehouse demo_again) = None \<and>
   (\<exists>x s1. apply_file demo_limits 6 PRICE_DELTA 0 1 demo_again = (Inr x, s1) \<and> applied_instant 6 (s_warehouse s1) = Some 9)"
proof -
  obtain run st m1 where b: "begin_rebuild (lit ''ops'') (lit ''1'') (fresh_maintenance demo_applied) = (Inr (run, st), m1)" "rb_id run = 20"
    "m_platform (fold upkeep_step [Other demo_again] m1) = demo_again" by (rule demo_again_reached)
  obtain x s1 where a: "apply_file demo_limits 6 PRICE_DELTA 0 1 demo_again = (Inr x, s1)" by (rule demo_again_run)
  let ?f = "demo_archived 6 2 COMPLETED" and ?m = "fresh_maintenance demo_applied"
  have f: "?f \<in> set (db_source_files (s_store (m_platform ?m)))" "eligible (db_now (s_store (m_platform ?m))) (s_store (m_platform ?m)) ?f"
    by (simp_all add: archive_eval demo_applied_def fresh_maintenance_def eligible_def archive_known_def)
  have ids: "f_id ?f = 6" by (simp add: demo_archived_def demo_file_def)
  have i: "applied_instant 6 (s_warehouse (m_platform ?m)) = Some 9" "applied_instant 6 (s_warehouse demo_applied) = Some 9" "applied_instant 6 (s_warehouse demo_again) = None"
    by (simp_all add: archive_eval demo_applied_def demo_again_def fresh_maintenance_def applied_instant_def)
  have act: "active_rebuild (fold upkeep_step [Other demo_again] m1) = Some (rb_id run)"
    unfolding active_rebuild_def b(2,3) by (simp add: demo_again_def demo_rebuilt_def)
  from instants_survive_rebuild [OF fresh_inv b(1) f _ refl act, unfolded ids b(3), OF i(1,3) a rtranclp.rtrancl_refl] a i(2,3)
  show ?thesis by blast
qed

end
