(* ===== verification/Maintenance_Service.thy ===== *)
theory Maintenance_Service
  imports Rebuild_Run Ingestion
begin

text \<open>
  \<^verbatim>\<open>application/maintenance.py\<close>: replays of archived files by range, and the service that drives a rebuild page by page until the queue is empty. The
  replay of a file and the bootstrap of the catalogue are ports.
\<close>

section \<open>Limits and arguments\<close>

record ArchiveMaintenanceLimits =
  default_page_size :: int
  maximum_page_size :: int
  rebuild_page_size :: int

definition ArchiveMaintenanceLimits_post_init :: "ArchiveMaintenanceLimits \<Rightarrow> exn + ArchiveMaintenanceLimits" where
  "ArchiveMaintenanceLimits_post_init l =
     (if default_page_size l \<le> 0 then Inl (exn_of ValueError)
      else if maximum_page_size l < default_page_size l then Inl (exn_of ValueError)
      else if rebuild_page_size l \<le> 0 \<or> rebuild_page_size l > maximum_page_size l then Inl (exn_of ValueError)
      else Inr l)"

definition REBUILD_CONFIRMATION_TOKEN :: ustr where
  "REBUILD_CONFIRMATION_TOKEN = lit ''REBUILD-NORMALIZED-STATE''"

fun maintenance_aware :: "datetime \<Rightarrow> exn + int" where
  "maintenance_aware (Aware t) = Inr t"
| "maintenance_aware (Naive t) = Inl (exn_of DomainValidationError)"

definition maintenance_cursor :: "ustr option \<Rightarrow> exn + ustr option" where
  "maintenance_cursor v =
     (case v of
        None \<Rightarrow> Inr None
      | Some c \<Rightarrow>
          let cleaned = py_strip c in
          if cleaned = [] \<or> length cleaned > 128 \<or> list_ex (\<lambda>ch. ch < 32) cleaned then Inl (exn_of DomainValidationError)
          else Inr (Some cleaned))"

definition maintenance_limit :: "ArchiveMaintenanceLimits \<Rightarrow> int option \<Rightarrow> exn + int" where
  "maintenance_limit l v =
     (let selected = (case v of None \<Rightarrow> default_page_size l | Some n \<Rightarrow> n) in
      if selected \<le> 0 \<or> selected > maximum_page_size l then Inl (exn_of QueryLimitError) else Inr selected)"

definition maintenance_error_code :: "exn \<Rightarrow> string" where
  "maintenance_error_code e = (case error_class_code (exn_class e) of Some c \<Rightarrow> c | None \<Rightarrow> ''rebuild_replay_failed'')"

section \<open>Replays by range\<close>

record replay_ports =
  port_parser_version :: ustr
  port_replay :: "nat \<Rightarrow> nat option \<Rightarrow> IngestionResult upkeep"
  port_bootstrap :: "(nat \<Rightarrow> unit upkeep) option"

definition bootstrap_replayed :: "replay_ports \<Rightarrow> IngestionResult \<Rightarrow> unit upkeep" where
  "bootstrap_replayed ports result =
     (case port_bootstrap ports of
        None \<Rightarrow> areturn ()
      | Some bootstrap \<Rightarrow> if ir_status result = COMPLETED then bootstrap (ir_source_file_id result) else areturn ())"

fun replay_files :: "replay_ports \<Rightarrow> ArchivedSourceFile list \<Rightarrow> IngestionResult list upkeep" where
  "replay_files ports [] = areturn []"
| "replay_files ports (f # fs) =
     abind (port_replay ports (asf_source_file_id f) None) (\<lambda>result.
     abind (bootstrap_replayed ports result) (\<lambda>_.
     abind (replay_files ports fs) (\<lambda>results.
     areturn (result # results))))"

definition replay_range :: "uuid_library \<Rightarrow> ArchiveMaintenanceLimits \<Rightarrow> replay_ports \<Rightarrow> datetime \<Rightarrow> datetime \<Rightarrow> int option \<Rightarrow> ustr option \<Rightarrow>
    (IngestionResult list \<times> ustr option) upkeep" where
  "replay_range U l ports since until limit cursor =
     abind (of_result (maintenance_aware since)) (\<lambda>start.
     abind (of_result (maintenance_aware until)) (\<lambda>stop.
     if start \<ge> stop then araise (exn_of DomainValidationError)
     else
       abind (of_result (maintenance_limit l limit)) (\<lambda>selected_limit.
       abind (of_result (maintenance_cursor cursor)) (\<lambda>selected_cursor.
       abind (list_archived_files U start stop selected_limit selected_cursor) (\<lambda>(files, next_cursor).
       abind (replay_files ports files) (\<lambda>results.
       areturn (results, next_cursor)))))))"

section \<open>Rebuild\<close>

fun rebuild_page :: "replay_ports \<Rightarrow> nat \<Rightarrow> (int \<times> ArchivedSourceFile) list \<Rightarrow> unit upkeep" where
  "rebuild_page ports b [] = areturn ()"
| "rebuild_page ports b ((sequence, f) # fs) =
     abind (port_replay ports (asf_source_file_id f) (Some b)) (\<lambda>result.
     abind (bootstrap_replayed ports result) (\<lambda>_.
     abind (complete_rebuild_file b sequence f) (\<lambda>_.
     rebuild_page ports b fs)))"

text \<open>The loop \<^verbatim>\<open>while True\<close>: \<open>None\<close> when it does not end.\<close>

partial_function (option) rebuild_pages :: "replay_ports \<Rightarrow> int \<Rightarrow> nat \<Rightarrow> maintenance \<Rightarrow> ((exn + RebuildRun \<times> string) \<times> maintenance) option" where
  "rebuild_pages ports page_size b m =
     (case next_rebuild_files b page_size m of
        (Inl e, t) \<Rightarrow> Some (Inl e, t)
      | (Inr files, t) \<Rightarrow>
          if files = [] then Some (finish_rebuild b t)
          else (case rebuild_page ports b files t of
              (Inl e, u) \<Rightarrow> Some (Inl e, u)
            | (Inr _, u) \<Rightarrow> rebuild_pages ports page_size b u))"

definition rebuild_failed :: "nat \<Rightarrow> exn \<Rightarrow> (RebuildRun \<times> string) upkeep" where
  "rebuild_failed b e =
     abind (fail_rebuild b (maintenance_error_code e)) (\<lambda>_.
     araise (if exn_class e = CancelledError then e else exn_of NormalizedRebuildInterruptedError))"

definition rebuild_locked :: "ArchiveMaintenanceLimits \<Rightarrow> replay_ports \<Rightarrow> nat \<Rightarrow> maintenance \<Rightarrow> ((exn + RebuildRun \<times> string) \<times> maintenance) option" where
  "rebuild_locked l ports b m =
     (case resume_rebuild b m of
        (Inl e, t) \<Rightarrow> Some (Inl e, t)
      | (Inr run, t) \<Rightarrow>
          (case rebuild_pages ports (rebuild_page_size l) b t of
             None \<Rightarrow> None
           | Some (Inl e, u) \<Rightarrow> Some (rebuild_failed b e u)
           | Some (Inr x, u) \<Rightarrow> Some (Inr x, u)))"

definition resume_service :: "ArchiveMaintenanceLimits \<Rightarrow> replay_ports \<Rightarrow> nat \<Rightarrow> maintenance \<Rightarrow> ((exn + RebuildRun \<times> string) \<times> maintenance) option" where
  "resume_service l ports b m =
     (if m_lock_held m then Some (Inl (exn_of LeaseUnavailableError), m)
      else map_option (\<lambda>(r, t). (r, t\<lparr>m_lock_held := False\<rparr>)) (rebuild_locked l ports b (m\<lparr>m_lock_held := True\<rparr>)))"

definition start_rebuild :: "text_library \<Rightarrow> ArchiveMaintenanceLimits \<Rightarrow> replay_ports \<Rightarrow> ustr \<Rightarrow> ustr \<Rightarrow> maintenance \<Rightarrow>
    ((exn + RebuildRun \<times> string) \<times> maintenance) option" where
  "start_rebuild L l ports confirmation requested_by m =
     (if confirmation \<noteq> REBUILD_CONFIRMATION_TOKEN then Some (Inl (exn_of DomainValidationError), m)
      else case clean_source_text L (Some requested_by) 128 of
          Inl e \<Rightarrow> Some (Inl e, m)
        | Inr None \<Rightarrow> Some (Inl (exn_of DomainValidationError), m)
        | Inr (Some operator) \<Rightarrow>
            (case begin_rebuild operator (port_parser_version ports) m of
               (Inl e, t) \<Rightarrow> Some (Inl e, t)
             | (Inr (run, st), t) \<Rightarrow> resume_service l ports (rb_id run) t))"

end
