(* ===== verification/Maintenance_Run.thy ===== *)
theory Maintenance_Run
  imports Maintenance_Service Ingestion_Run
begin

text \<open>
  A rebuild that is driven by the service ends: each page that succeeds checkpoints its files, so that the queue shrinks until it is empty or
  something raises. What raises leaves the run failed behind its barrier, to be resumed.
\<close>

section \<open>Progress of a run\<close>

definition pending_count :: "nat \<Rightarrow> maintenance \<Rightarrow> nat" where
  "pending_count b m = length (filter pending_file (files_of b m))"

definition advances :: "nat \<Rightarrow> maintenance \<Rightarrow> maintenance \<Rightarrow> bool" where
  "advances b m m' \<longleftrightarrow> rebuild_inv m' \<and> active_rebuild m' = active_rebuild m \<and> map rb_id (m_rebuilds m') = map rb_id (m_rebuilds m) \<and>
     pending_count b m' \<le> pending_count b m"

lemma advances_trans: "advances b m m' \<Longrightarrow> advances b m' m'' \<Longrightarrow> advances b m m''"
  by (simp add: advances_def)

lemma advances_refl: "rebuild_inv m \<Longrightarrow> advances b m m"
  by (simp add: advances_def)

lemma update_where_shrinks:
  assumes "x \<in> set xs" "p x" "q x" "\<And>y. \<not> q (f y)"
  shows "length (filter q (update_where p f xs)) < length (filter q xs)"
proof -
  have le: "length (filter q (update_where p f ys)) \<le> length (filter q ys)" for ys using assms(4) by (induction ys) (auto simp: update_where_def)
  obtain ys zs where xs: "xs = ys @ x # zs" using split_list [OF assms(1)] by blast
  show ?thesis using le [of ys] le [of zs] assms(2-4) by (simp add: xs update_where_def)
qed

lemma complete_progress:
  assumes inv: "rebuild_inv m" and run: "complete_rebuild_file b n f m = (Inr x, m')"
  shows "advances b m m'" "pending_count b m' < pending_count b m"
proof -
  obtain r where e: "find (checkpointed b n f) (s_rebuild_files (m_platform m)) = Some r"
    "s_rebuild_files (m_platform m') = update_where (checkpointed b n f) (\<lambda>r. r\<lparr>rf_status := ''completed''\<rparr>) (s_rebuild_files (m_platform m))"
    "active_rebuild m' = active_rebuild m" "map rb_id (m_rebuilds m') = map rb_id (m_rebuilds m)"
  proof (rule complete_effect [OF run])
    fix run0 r assume found: "find (checkpointed b n f) (s_rebuild_files (m_platform m)) = Some r"
      and m': "m' = m\<lparr>m_platform := (m_platform m)\<lparr>s_rebuild_files :=
            update_where (checkpointed b n f) (\<lambda>r. r\<lparr>rf_status := ''completed''\<rparr>) (s_rebuild_files (m_platform m))\<rparr>,
       m_rebuilds := update_where (\<lambda>r. rb_id r = b)
            (\<lambda>r. r\<lparr>rb_source_files_completed := rb_source_files_completed r + 1, rb_last_sequence := Some n,
              rb_last_source_file_id := Some (asf_source_file_id f), rb_last_archived_at := asf_archived_at f\<rparr>) (m_rebuilds m)\<rparr>"
    show thesis by (rule that [OF found]) (simp_all add: m' active_rebuild_def update_runs)
  qed
  have r: "r \<in> set (s_rebuild_files (m_platform m))" "checkpointed b n f r" using find_in [OF e(1)] by simp_all
  then have "r \<in> set (files_of b m)" "pending_file r" by (simp_all add: files_of_def checkpointed_def)
  moreover have "files_of b m' = update_where (checkpointed b n f) (\<lambda>r. r\<lparr>rf_status := ''completed''\<rparr>) (files_of b m)"
    by (simp add: files_of_def e(2) filter_update_where)
  ultimately show less: "pending_count b m' < pending_count b m"
    unfolding pending_count_def using r(2) by (simp add: update_where_shrinks [where x = r] pending_file_def)
  then show "advances b m m'" using complete_inv [OF inv run] e(3,4) by (simp add: advances_def)
qed

lemma part_advances:
  assumes "rebuild_inv m" "rebuild_part m' = rebuild_part m" "db_next_id (s_store (m_platform m)) \<le> db_next_id (s_store (m_platform m'))"
  shows "advances b m m'"
  using rebuild_part_inv [OF assms(2,3,1)] assms(2) by (simp add: advances_def pending_count_def files_of_def rebuild_part_def)

lemma next_files:
  assumes "1 \<le> n" "n \<le> 200"
  shows "\<exists>fs. next_rebuild_files b n m = (Inr fs, m) \<and> (fs = [] \<longleftrightarrow> pending_count b m = 0)"
  using assms by (auto simp: next_rebuild_files_def bounded_limit_def MAXIMUM_ARCHIVE_PAGE_SIZE_def abind_def of_result_def aget_def pending_count_def
    simp flip: length_0_conv split: sum.splits)

lemma resume_advances:
  assumes inv: "rebuild_inv m" and run: "resume_rebuild b m = (Inr x, m')"
  shows "advances b m m'" "active_rebuild m' = Some b" "b \<in> rb_id ` set (m_rebuilds m)"
proof -
  have "\<exists>x. find (\<lambda>r. rb_id r = b) (m_rebuilds m) = Some x"
    using run unfolding resume_rebuild_def atomically_Inr lock_rebuild_run_def
    by (auto simp: abind_Inr_iff aget_eq rebuild_view_effect split: if_splits)
  then show "b \<in> rb_id ` set (m_rebuilds m)" using find_in by fastforce
qed (use resume_inv [OF inv run] resume_effect [OF run] in \<open>simp_all add: update_runs advances_def pending_count_def files_of_def set_rebuild_status_def on_database_def active_rebuild_def\<close>)

text \<open>A run that is active can be marked as failed, and stays active.\<close>

lemma fail_marks:
  assumes inv: "rebuild_inv m" and active: "active_rebuild m = Some b" and known: "b \<in> rb_id ` set (m_rebuilds m)"
  shows "\<exists>m'. fail_rebuild b ecode m = (Inr (), m') \<and> advances b m m' \<and> rebuild_status_of b m' = Some ''failed''"
proof -
  have "b \<in> set (map fst (db_rebuild_runs (s_store (m_platform m))))" unfolding rebuild_invD(2) [OF inv] using known by simp
  then obtain st where st: "rebuild_status_of b m = Some st" unfolding rebuild_status_of_def by (metis list.set_map map_of_eq_None_iff not_None_eq)
  have "st \<noteq> ''completed''" using rebuild_invD(7) [OF inv status_of_in [OF st]] active by simp
  then obtain m' where m': "fail_rebuild b ecode m = (Inr (), m')"
    by (simp add: fail_rebuild_def atomically_def abind_def aget_def amodify_def st)
  have e: "m' = (set_rebuild_status b ''failed'' m)\<lparr>m_rebuilds := update_where (\<lambda>r. rb_id r = b) (\<lambda>r. r\<lparr>rb_error_code := Some ecode\<rparr>) (m_rebuilds m)\<rparr>"
    by (rule fail_effect(2) [OF m'])
  have "map_of (map (\<lambda>(i, old). (i, if i = b then s else old)) xs) b = map_option (\<lambda>_. s) (map_of xs b)" for xs :: "(nat \<times> string) list" and s
    by (induction xs) auto
  then have "rebuild_status_of b m' = Some ''failed''" using st by (simp add: e rebuild_status_of_def set_rebuild_status_def on_database_def)
  moreover have "advances b m m'" using fail_inv [OF inv m']
    by (simp add: e update_runs advances_def pending_count_def files_of_def set_rebuild_status_def on_database_def active_rebuild_def)
  ultimately show ?thesis using m' by blast
qed

definition pages_outcome :: "nat \<Rightarrow> maintenance \<Rightarrow> exn + RebuildRun \<times> string \<Rightarrow> maintenance \<Rightarrow> bool" where
  "pages_outcome b m x m' \<longleftrightarrow> (case x of Inl e \<Rightarrow> advances b m m' | Inr y \<Rightarrow> \<exists>t. advances b m t \<and> finish_rebuild b t = (Inr y, m'))"

lemma pages_outcome_simps [simp]: "pages_outcome b m (Inl e) m' = advances b m m'"
    "pages_outcome b m (Inr y) m' = (\<exists>t. advances b m t \<and> finish_rebuild b t = (Inr y, m'))"
  by (simp_all add: pages_outcome_def)

lemma pages_outcome_later: "advances b m u \<Longrightarrow> pages_outcome b u x m' \<Longrightarrow> pages_outcome b m x m'"
proof (cases x)
  case (Inr y)
  assume a: "advances b m u" "pages_outcome b u x m'"
  from a(2) obtain t where t: "advances b u t" "finish_rebuild b t = (Inr y, m')" unfolding Inr pages_outcome_simps by (elim exE conjE)
  show ?thesis unfolding Inr pages_outcome_simps by (rule exI [of _ t], intro conjI advances_trans [OF a(1) t(1)] t(2))
qed (use advances_trans in auto)

lemma finish_settles:
  assumes inv: "rebuild_inv m" and run: "finish_rebuild b m = (Inr y, m')"
  shows "rb_id (fst y) = b" "snd y = ''completed''" "active_rebuild m' = None" "pending_count b m' = 0"
proof -
  obtain run0 w ex where e: "filter pending_file (files_of b m) = []"
    "m' = close_rebuild b (drop_snapshots b ex ((on_tables (\<lambda>_. w) m)\<lparr>m_snapshots := ((b, Rebuilt), s_warehouse (m_platform m)) # m_snapshots m\<rparr>))"
    using finish_effect [OF run] by metis
  show a: "active_rebuild m' = None" and "pending_count b m' = 0"
    using e(1) by (simp_all add: e(2) pending_count_def files_of_def close_rebuild_def drop_snapshots_def on_tables_def set_rebuild_status_def on_database_def active_rebuild_def)
  have v: "rebuild_view b m' = (Inr y, m')" using run unfolding finish_rebuild_def atomically_Inr
    by (auto simp: abind_Inr_iff aget_eq amodify_eq rebuild_view_effect split: if_splits)
  then show "rb_id (fst y) = b" using find_in by (fastforce simp: rebuild_view_effect)
  have "(b, snd y) \<in> set (db_rebuild_runs (s_store (m_platform m')))" by (rule status_of_in) (use v in \<open>simp add: rebuild_view_effect\<close>)
  then show "snd y = ''completed''" using rebuild_invD(7) [OF finish_inv [OF inv run]] a by simp
qed

section \<open>The contract of a replay\<close>

text \<open>A replay and the bootstrap of the catalogue leave the tables of rebuilds alone, whether they return or raise.\<close>

locale replay_contract =
  fixes ports :: replay_ports
  assumes replay_part: "rebuild_part (snd (port_replay ports i r m)) = rebuild_part m"
    and replay_ids: "db_next_id (s_store (m_platform m)) \<le> db_next_id (s_store (m_platform (snd (port_replay ports i r m))))"
    and bootstrap_part: "port_bootstrap ports = Some g \<Longrightarrow> rebuild_part (snd (g i m)) = rebuild_part m"
    and bootstrap_ids: "port_bootstrap ports = Some g \<Longrightarrow> db_next_id (s_store (m_platform m)) \<le> db_next_id (s_store (m_platform (snd (g i m))))"
begin

lemma replay_advances:
  assumes "rebuild_inv m" "port_replay ports i r m = (x, m')"
  shows "advances b m m'"
  by (rule part_advances [OF assms(1)]) (use replay_part [of i r m] replay_ids [of m i r] assms(2) in simp_all)

lemma bootstrap_advances:
  assumes "rebuild_inv m" "bootstrap_replayed ports y m = (x, m')"
  shows "advances b m m'"
proof (cases "port_bootstrap ports")
  case None
  then show ?thesis using assms by (simp add: bootstrap_replayed_def areturn_def advances_refl)
next
  case (Some g)
  have "advances b m (snd (g i m))" for i by (rule part_advances [OF assms(1) bootstrap_part [OF Some] bootstrap_ids [OF Some]])
  then show ?thesis using assms Some by (auto simp: bootstrap_replayed_def areturn_def advances_refl split: if_splits) (metis snd_conv)
qed

lemma page_advances:
  assumes "rebuild_inv m" "rebuild_page ports b fs m = (x, m')"
  shows "advances b m m' \<and> (fs \<noteq> [] \<and> x = Inr () \<longrightarrow> pending_count b m' < pending_count b m)"
  using assms
proof (induction fs arbitrary: m)
  case Nil
  then show ?case by (simp add: areturn_def advances_refl)
next
  case (Cons p fs)
  obtain n f where p: "p = (n, f)" by (cases p)
  obtain y m1 where m1: "port_replay ports (asf_source_file_id f) (Some b) m = (y, m1)" by (rule prod.exhaust)
  have a1: "advances b m m1" by (rule replay_advances [OF Cons.prems(1) m1])
  show ?case
  proof (cases y)
    case (Inl e)
    then show ?thesis using Cons.prems(2) a1 by (auto simp: p abind_def m1)
  next
    case (Inr res)
    obtain z m2 where m2: "bootstrap_replayed ports res m1 = (z, m2)" by (rule prod.exhaust)
    have a2: "advances b m m2" using bootstrap_advances [OF _ m2] a1 by (meson advances_def advances_trans)
    show ?thesis
    proof (cases z)
      case Inl
      then show ?thesis using Cons.prems(2) a2 by (auto simp: p abind_def m1 m2 Inr)
    next
      case z: (Inr u)
      obtain c m3 where m3: "complete_rebuild_file b n f m2 = (c, m3)" by (rule prod.exhaust)
      have inv2: "rebuild_inv m2" using a2 by (simp add: advances_def)
      show ?thesis
      proof (cases c)
        case (Inl e)
        then show ?thesis using Cons.prems(2) a2 raises_unchanged(3) [of b n f m2 e m3] m3 by (auto simp: p abind_def m1 m2 Inr z)
      next
        case c: (Inr v)
        note done3 = complete_progress [OF inv2 m3 [unfolded c]]
        have "rebuild_page ports b fs m3 = (x, m')" using Cons.prems(2) by (simp add: p abind_def m1 m2 m3 Inr z c)
        then have "advances b m3 m'" using Cons.IH [of m3] done3(1) by (simp add: advances_def)
        then show ?thesis using done3 a2 by (auto simp: advances_def)
      qed
    qed
  qed
qed

lemma pages_end:
  assumes "rebuild_inv m" "1 \<le> n" "n \<le> 200"
  shows "\<exists>x m'. rebuild_pages ports n b m = Some (x, m') \<and> pages_outcome b m x m'"
  using assms(1)
proof (induction "pending_count b m" arbitrary: m rule: less_induct)
  case less
  obtain fs where fs: "next_rebuild_files b n m = (Inr fs, m)" "fs = [] \<longleftrightarrow> pending_count b m = 0" using next_files [OF assms(2,3)] by blast
  show ?case
  proof (cases "fs = []")
    case True
    then have r: "rebuild_pages ports n b m = Some (finish_rebuild b m)" by (subst rebuild_pages.simps) (simp add: fs(1))
    obtain x m' where f: "finish_rebuild b m = (x, m')" by (rule prod.exhaust)
    show ?thesis
    proof (cases x)
      case (Inl e)
      then show ?thesis using r f raises_unchanged(5) [of b m e m'] advances_refl [OF less.prems] by auto
    next
      case (Inr y)
      have o: "pages_outcome b m (Inr y) m'" unfolding pages_outcome_simps
        by (rule exI [of _ m], intro conjI advances_refl [OF less.prems]) (use f Inr in simp)
      show ?thesis by (intro exI conjI, rule r [unfolded f Inr], rule o)
    qed
  next
    case False
    obtain x u where u: "rebuild_page ports b fs m = (x, u)" by (rule prod.exhaust)
    note page = page_advances [OF less.prems u]
    show ?thesis
    proof (cases x)
      case (Inl e)
      then have "rebuild_pages ports n b m = Some (Inl e, u)" by (subst rebuild_pages.simps) (simp add: fs(1) False u)
      then show ?thesis using page by (intro exI conjI) (assumption, simp)
    next
      case (Inr v)
      then have r: "rebuild_pages ports n b m = rebuild_pages ports n b u" by (subst rebuild_pages.simps) (simp add: fs(1) False u)
      have "pending_count b u < pending_count b m" "rebuild_inv u" using page False Inr by (simp_all add: advances_def)
      from less.hyps [OF this] obtain x' m' where e: "rebuild_pages ports n b u = Some (x', m')" "pages_outcome b u x' m'" by (elim exE conjE)
      then show ?thesis using r pages_outcome_later [OF conjunct1 [OF page] e(2)] by (intro exI conjI) simp_all
    qed
  qed
qed

lemma locked_ends:
  assumes inv: "rebuild_inv m" and size: "1 \<le> rebuild_page_size l" "rebuild_page_size l \<le> 200"
  obtains (refused) e where "rebuild_locked l ports b m = Some (Inl e, m)"
  | (failed) e m' where "rebuild_locked l ports b m = Some (Inl e, m')" "advances b m m'" "active_rebuild m' = Some b" "rebuild_status_of b m' = Some ''failed''"
  | (completed) y t m' where "rebuild_locked l ports b m = Some (Inr y, m')" "advances b m t" "finish_rebuild b t = (Inr y, m')"
proof -
  obtain x0 t where t: "resume_rebuild b m = (x0, t)" by (rule prod.exhaust)
  show thesis
  proof (cases x0)
    case (Inl e)
    then show thesis using t raises_unchanged(2) [of b m e t] refused by (simp add: rebuild_locked_def)
  next
    case (Inr run)
    note r = resume_advances [OF inv t [unfolded Inr]]
    have invt: "rebuild_inv t" using r(1) by (simp add: advances_def)
    obtain x u where u: "rebuild_pages ports (rebuild_page_size l) b t = Some (x, u)"
 "pages_outcome b t x u"
      using pages_end [OF invt size, of b] by (elim exE conjE)
    show thesis
    proof (cases x)
      case (Inl e)
      then have a: "advances b m u" "active_rebuild u = Some b" using u(2) r(1,2) by (auto simp: advances_def)
      have "rebuild_inv u" "b \<in> rb_id ` set (m_rebuilds u)"
        using a(1) r(3) by (auto simp: advances_def) (metis image_eqI list.set_map)
      from fail_marks [OF this(1) a(2) this(2)] obtain m' where m': "fail_rebuild b (maintenance_error_code e) u = (Inr (), m')"
        "advances b u m'" "rebuild_status_of b m' = Some ''failed''" by blast
      have "rebuild_locked l ports b m = Some (rebuild_failed b e u)" by (simp add: rebuild_locked_def t \<open>x0 = Inr run\<close> u(1) Inl)
      then have "rebuild_locked l ports b m = Some (Inl (if exn_class e = CancelledError then e else exn_of NormalizedRebuildInterruptedError), m')"
        by (simp add: rebuild_failed_def abind_def araise_def m'(1))
      then show thesis by (rule failed [OF _ advances_trans [OF a(1) m'(2)] _ m'(3)]) (use m'(2) a(2) in \<open>simp add: advances_def\<close>)
    next
      case (Inr y)
      then obtain t' where t': "advances b t t'" "finish_rebuild b t' = (Inr y, u)" using u(2) by auto
      have "rebuild_locked l ports b m = Some (Inr y, u)" by (simp add: rebuild_locked_def t \<open>x0 = Inr run\<close> u(1) Inr)
      then show thesis by (rule completed [OF _ advances_trans [OF r(1) t'(1)] t'(2)])
    qed
  qed
qed

lemma resume_ends:
  assumes inv: "rebuild_inv m" and size: "1 \<le> rebuild_page_size l" "rebuild_page_size l \<le> 200"
  shows "\<exists>r m'. resume_service l ports b m = Some (r, m') \<and> rebuild_inv m' \<and>
    (case r of
       Inl e \<Rightarrow> m' = m \<or> rebuild_status_of b m' = Some ''failed'' \<and> active_rebuild m' = Some b \<and> pending_count b m' \<le> pending_count b m
     | Inr (run, st) \<Rightarrow> rb_id run = b \<and> st = ''completed'' \<and> active_rebuild m' = None \<and> pending_count b m' = 0)"
proof (cases "m_lock_held m")
  case True
  then show ?thesis using inv by (simp add: resume_service_def)
next
  case False
  have lock: "rebuild_inv (t\<lparr>m_lock_held := h\<rparr>) = rebuild_inv t" "pending_count b (t\<lparr>m_lock_held := h\<rparr>) = pending_count b t"
    "active_rebuild (t\<lparr>m_lock_held := h\<rparr>) = active_rebuild t" "rebuild_status_of b (t\<lparr>m_lock_held := h\<rparr>) = rebuild_status_of b t" for t h
    by (simp_all add: rebuild_inv_def pending_count_def files_of_def active_rebuild_def rebuild_status_of_def)
  let ?m = "m\<lparr>m_lock_held := True\<rparr>"
  have inv': "rebuild_inv ?m" using inv by (simp add: lock)
  show ?thesis
  proof (rule locked_ends [OF inv' size, of b])
    fix e assume "rebuild_locked l ports b ?m = Some (Inl e, ?m)"
    moreover have "?m\<lparr>m_lock_held := False\<rparr> = m" using False by (cases m) simp
    ultimately show ?thesis using False inv by (simp add: resume_service_def lock)
  next
    fix e m' assume "rebuild_locked l ports b ?m = Some (Inl e, m')" "advances b ?m m'" "active_rebuild m' = Some b" "rebuild_status_of b m' = Some ''failed''"
    then show ?thesis using False by (simp add: resume_service_def lock advances_def)
  next
    fix y t m' assume r: "rebuild_locked l ports b ?m = Some (Inr y, m')" "advances b ?m t" "finish_rebuild b t = (Inr y, m')"
    have invt: "rebuild_inv t" using r(2) by (simp add: advances_def)
    note f = finish_inv [OF invt r(3)] finish_settles [OF invt r(3)]
    show ?thesis using False r(1) f by (cases y) (simp add: resume_service_def lock)
  qed
qed

end

section \<open>The replays of the service\<close>

text \<open>
  The replay that the service of a rebuild calls is \<^verbatim>\<open>IngestionService.replay\<close> on the source store, with \<^verbatim>\<open>apply\<close> on the
  tables of the platform. Staging, the parser, the object storage and the locks of the server are arbitrary: they read the
  state and change the tables of the catalogue, of staging and of issues, but not the queue of a rebuild.
\<close>

definition beside_rebuilds :: "'a call \<Rightarrow> 'a call" where
  "beside_rebuilds g p = (case g p of (r, q) \<Rightarrow>
     (r, p\<lparr>s_warehouse := s_warehouse q, s_issue_counts := s_issue_counts q, s_issues := s_issues q, s_results := s_results q\<rparr>))"

definition replay_outside :: "issue_limits \<Rightarrow> platform outside \<Rightarrow> platform outside" where
  "replay_outside limits out =
     \<lparr>o_reuse = (\<lambda>d sid version dt cf. beside_rebuilds (o_reuse out d sid version dt cf)),
      o_stage = (\<lambda>d sid es. beside_rebuilds (o_stage out d sid es)),
      o_finalize = (\<lambda>d sid dt. beside_rebuilds (o_finalize out d sid dt)),
      o_quarantined = (\<lambda>d sid. beside_rebuilds (o_quarantined out d sid)),
      o_apply = (\<lambda>d sid dt n q p. apply_file limits sid dt n q (p\<lparr>s_store := d\<rparr>)),
      o_open = (\<lambda>f cap. beside_rebuilds (o_open out f cap)),
      o_transferred = o_transferred out,
      o_finish = (\<lambda>h n. beside_rebuilds (o_finish out h n)),
      o_close = (\<lambda>h. beside_rebuilds (o_close out h)),
      o_put = (\<lambda>h name. beside_rebuilds (o_put out h name)),
      o_verify = (\<lambda>k sha. beside_rebuilds (o_verify out k sha)),
      o_read = (\<lambda>k. beside_rebuilds (o_read out k)),
      o_read_close = (\<lambda>k. beside_rebuilds (o_read_close out k)),
      o_parse = (\<lambda>sid f p. map beside_rebuilds (o_parse out sid f p)),
      o_parser_version = o_parser_version out,
      o_try_lock = (\<lambda>sid. beside_rebuilds (o_try_lock out sid)),
      o_unlock = (\<lambda>sid p. snd (beside_rebuilds (amodify (o_unlock out sid)) p))\<rparr>"

text \<open>A call of the ingestion service in the state of maintenance: the store is the one of the platform.\<close>

definition on_service :: "(platform service_state, exn, 'a) action \<Rightarrow> 'a upkeep" where
  "on_service g m = (case g \<lparr>sv_db = s_store (m_platform m), sv_world = m_platform m\<rparr> of
     (r, s) \<Rightarrow> (r, m\<lparr>m_platform := (sv_world s)\<lparr>s_store := sv_db s\<rparr>\<rparr>))"

text \<open>The ports as the composition root wires them; the bootstrap of the catalogue is any call on its tables.\<close>

definition service_ports :: "IngestionPolicy \<Rightarrow> url_library \<Rightarrow> issue_limits \<Rightarrow> platform outside \<Rightarrow> (nat \<Rightarrow> unit command) option \<Rightarrow> replay_ports" where
  "service_ports policy L limits out bootstrap = \<lparr>port_parser_version = o_parser_version out,
     port_replay = (\<lambda>sid b. on_service (replay policy (store_repository L (replay_outside limits out)) (store_ports (replay_outside limits out)) sid b)),
     port_bootstrap = map_option (\<lambda>g sid. on_warehouse_of (g sid)) bootstrap\<rparr>"

lemma apply_file_part:
  assumes "apply_file limits sid dtype least drop_limit s = (x, s')"
  shows "s_store s' = s_store s \<and> s_rebuild_files s' = s_rebuild_files s"
proof -
  have steps: "s_rebuild_files s' = s_rebuild_files s" if "apply_steps limits sid dtype least drop_limit s = (Inr y, s')" for y
    using that
  proof (rule apply_steps_effect)
    fix f sha a rebuild scopes ts q s1
    assume v: "validate_source_ordering limits sid f sha dtype a s = (Inr (scopes, ts, q), s1)"
      and r: "if q then y = None \<and> s' = s1 else \<exists>x. y = Some x \<and> apply_in_order sid f sha dtype least drop_limit a rebuild (db_now (s_store s)) scopes ts s1 = (Inr x, s')"
    have c: "claim_content sid f sha dtype t0 t1 a rebuild s = (Inr t, s'') \<Longrightarrow> s_rebuild_files s'' = s_rebuild_files s" for t0 t1 t s s''
      by (auto simp: claim_content_def abind_Inr_iff aget_eq areturn_def on_warehouse_eq amodify_eq Let_def split: option.splits if_splits)
    have "s_rebuild_files s' = s_rebuild_files s1" using r c
      by (auto simp: apply_in_order_def abind_Inr_iff on_warehouse_eq amodify_eq advance_source_watermarks_def areturn_def split: if_splits)
    then show "s_rebuild_files s' = s_rebuild_files s" using ordering_effect(3) [OF v] by simp
  qed
  show ?thesis
  proof (cases x)
    case (Inl e)
    have "s_rebuild_files s' = s_rebuild_files s" using assms steps unfolding Inl apply_file_def
      by (auto simp: abind_def araise_def areturn_def file_transaction_def atomically_def split: if_splits prod.splits sum.splits option.splits)
    then show ?thesis using apply_file_raises [OF assms [unfolded Inl]] by simp
  next
    case (Inr y)
    have "s_rebuild_files s' = s_rebuild_files s" using assms steps unfolding Inr apply_file_def
      by (auto simp: abind_def araise_def areturn_def file_transaction_def atomically_def split: if_splits prod.splits sum.splits option.splits)
    then show ?thesis using apply_file_steps [OF assms [unfolded Inr]] by metis
  qed
qed


subsection \<open>What a replay keeps\<close>

definition beside :: "platform service_state \<Rightarrow> platform service_state \<Rightarrow> bool" where
  "beside base s \<longleftrightarrow> db_rebuild_runs (sv_db s) = db_rebuild_runs (sv_db base) \<and> db_active_rebuild (sv_db s) = db_active_rebuild (sv_db base) \<and>
     db_next_id (sv_db base) \<le> db_next_id (sv_db s) \<and> s_rebuild_files (sv_world s) = s_rebuild_files (sv_world base)"

definition rebuild_rows_kept :: "database \<Rightarrow> database \<Rightarrow> bool" where
  "rebuild_rows_kept d d' \<longleftrightarrow> db_rebuild_runs d' = db_rebuild_runs d \<and> db_active_rebuild d' = db_active_rebuild d \<and> db_next_id d \<le> db_next_id d'"

lemma keeps_on_db:
  assumes "\<And>d. wp m (\<lambda>_. rebuild_rows_kept d) (\<lambda>_. rebuild_rows_kept d) d"
  shows "keeps (beside base) (on_db m)"
  unfolding keeps_def wp_on_db
  by (intro allI impI wp_mono [OF assms]) (auto simp: beside_def rebuild_rows_kept_def)

lemma keeps_on_outside:
  assumes "\<And>d p. s_rebuild_files (snd (m d p)) = s_rebuild_files p"
  shows "keeps (beside base) (on_outside m)"
proof -
  have "m d p = (r, q) \<Longrightarrow> s_rebuild_files q = s_rebuild_files p" for d p r q using assms [of d p] by simp
  then show ?thesis by (auto simp: keeps_def wp_def on_outside_def beside_def split: prod.splits sum.splits)
qed

lemma beside_rebuilds_files [simp]: "s_rebuild_files (snd (beside_rebuilds g p)) = s_rebuild_files p"
  by (simp add: beside_rebuilds_def split: prod.split)

lemma keeps_catch_exception [keeps_intros]: "keeps I m \<Longrightarrow> (\<And>e. keeps I (h e)) \<Longrightarrow> keeps I (catch_exception m h)"
  unfolding catch_exception_def by (intro keeps_intros)

lemma keeps_aget: "(\<And>s. keeps I (k (f s))) \<Longrightarrow> keeps I (abind (aget f) k)"
  by (simp add: keeps_def wp_abind action_simps)

lemma kept_transaction:
  "wp m (\<lambda>_. rebuild_rows_kept d) (\<lambda>_ _. True) d \<Longrightarrow> wp (transaction sid own m) (\<lambda>_. rebuild_rows_kept d) (\<lambda>_. rebuild_rows_kept d) d"
  unfolding wp_transaction by (auto simp: rebuild_rows_kept_def elim: wp_mono)

lemma allows_keeps: "wp (maintenance_allows b) (\<lambda>_ t. t = d) (\<lambda>_ _. True) d"
  by (auto simp: maintenance_allows_def wp_def abind_def aget_def araise_def areturn_def split: option.split)

lemma store_calls_keep:
  "keeps (beside base) (on_db (assert_ingestion_allowed b))" "keeps (beside base) (on_db (get_file sid))"
  "keeps (beside base) (on_db (begin_replay sid version b))" "keeps (beside base) (on_db (finish_replay i ok ec))"
proof -
  show "keeps (beside base) (on_db (assert_ingestion_allowed b))"
    unfolding assert_ingestion_allowed_def
    by (intro keeps_on_db kept_transaction wp_mono [OF allows_keeps]) (simp_all add: rebuild_rows_kept_def)
  show "keeps (beside base) (on_db (get_file sid))"
    unfolding get_file_def source_row_def
    by (intro keeps_on_db kept_transaction) (auto simp: wp_def action_defs rebuild_rows_kept_def split: option.splits)
  show "keeps (beside base) (on_db (begin_replay sid version b))"
  proof (rule keeps_on_db)
    fix d
    have allow: "wp (abind (maintenance_allows b) k) (\<lambda>_. rebuild_rows_kept d) (\<lambda>_ _. True) d"
      if "wp (k ()) (\<lambda>_. rebuild_rows_kept d) (\<lambda>_ _. True) d" for k :: "unit \<Rightarrow> nat statement"
      unfolding wp_abind by (rule wp_mono [OF allows_keeps]) (use that in simp_all)
    show "wp (begin_replay sid version b) (\<lambda>_. rebuild_rows_kept d) (\<lambda>_. rebuild_rows_kept d) d"
    proof (cases "version = [] \<or> 128 < length version")
      case False
      show ?thesis unfolding begin_replay_def if_not_P [OF False]
        by (rule kept_transaction, rule allow) (auto simp: wp_abind action_simps rebuild_rows_kept_def split: option.split)
    qed (simp add: begin_replay_def action_simps rebuild_rows_kept_def)
  qed
  show "keeps (beside base) (on_db (finish_replay i ok ec))"
  proof (rule keeps_on_db)
    fix d
    show "wp (finish_replay i ok ec) (\<lambda>_. rebuild_rows_kept d) (\<lambda>_. rebuild_rows_kept d) d"
      unfolding finish_replay_def by (auto simp: action_simps wp_abind wp_transaction rebuild_rows_kept_def)
  qed
qed

lemma lease_keeps: "keeps (beside base) (lease_acquire (replay_outside limits out) sid)" "keeps (beside base) (lease_release (replay_outside limits out) sid)"
proof -
  show "keeps (beside base) (lease_acquire (replay_outside limits out) sid)"
    unfolding lease_acquire_def by (intro keeps_intros keeps_on_outside) (simp_all add: replay_outside_def beside_def)
  show "keeps (beside base) (lease_release (replay_outside limits out) sid)"
    unfolding lease_release_def by (intro keeps_intros) (simp_all add: replay_outside_def beside_def)
qed

lemma apply_keeps: "s_rebuild_files (snd (o_apply (replay_outside limits out) d sid dt n q p)) = s_rebuild_files p"
proof -
  obtain x t where "apply_file limits sid dt n q (p\<lparr>s_store := d\<rparr>) = (x, t)" by (rule prod.exhaust)
  then show ?thesis using apply_file_part by (fastforce simp: replay_outside_def)
qed

lemma outside_calls_keep:
  fixes base limits out L
  defines "repo \<equiv> store_repository L (replay_outside limits out)" and "ports \<equiv> store_ports (replay_outside limits out)"
  shows "keeps (beside base) (i_reuse_validated_staging repo sid version dt cf)" "keeps (beside base) (i_stage repo sid es)"
    "keeps (beside base) (i_finalize_staging repo sid dt)" "keeps (beside base) (i_has_file_quarantine_issue repo sid)"
    "keeps (beside base) (i_apply repo sid dt n q)" "keeps (beside base) (a_verify ports k sha)" "keeps (beside base) (a_open ports k)"
    "keeps (beside base) (a_close ports k)" "g \<in> set (a_parse ports sid f s) \<Longrightarrow> keeps (beside base) g"
    "keeps (beside base) (i_assert_allowed repo b)" "keeps (beside base) (i_get repo sid)" "keeps (beside base) (i_begin_replay repo sid version b)"
    "keeps (beside base) (i_finish_replay repo i ok ec)" "keeps (beside base) (l_acquire ports sid)" "keeps (beside base) (l_release ports sid)"
proof -
  show "keeps (beside base) (i_apply repo sid dt n q)"
    unfolding repo_def store_selectors by (rule keeps_on_outside) (rule apply_keeps)
  show "keeps (beside base) (i_assert_allowed repo b)" "keeps (beside base) (i_get repo sid)" "keeps (beside base) (i_begin_replay repo sid version b)"
    "keeps (beside base) (i_finish_replay repo i ok ec)" "keeps (beside base) (l_acquire ports sid)" "keeps (beside base) (l_release ports sid)"
    unfolding repo_def ports_def store_selectors by (rule store_calls_keep lease_keeps)+
  show "g \<in> set (a_parse ports sid f s) \<Longrightarrow> keeps (beside base) g"
    unfolding ports_def store_selectors by (auto simp: replay_outside_def intro!: keeps_on_outside)
qed (unfold repo_def ports_def store_selectors, (rule keeps_on_outside, simp add: replay_outside_def)+)

lemma stage_loop_keeps:
  assumes stage: "\<And>es. keeps I (i_stage repo sid es)" and "\<forall>g\<in>set steps. keeps I g"
  shows "keeps I (stage_loop p repo sid steps b)"
  using assms(2)
proof (induction steps arbitrary: b)
  case (Cons g steps)
  have flush: "keeps I (flush_batch repo sid b)" for b unfolding flush_batch_def by (intro keeps_intros stage)
  have "keeps I (stage_event p repo sid e b)" for e b
    unfolding stage_event_def add_event_def Let_def by (intro keeps_intros flush)
  then show ?case using Cons by (simp add: keeps_intros)
qed (simp add: keeps_intros)

lemma replay_keeps:
  fixes base limits out L
  defines "repo \<equiv> store_repository L (replay_outside limits out)" and "ports \<equiv> store_ports (replay_outside limits out)"
  shows "keeps (beside base) (replay p repo ports sid b)"
proof -
  note calls = outside_calls_keep(1-5,10-13) [where base = base and limits = limits and out = out and L = L, folded repo_def]
    outside_calls_keep(6-9,14,15) [where base = base and limits = limits and out = out, folded ports_def]
  have loop: "keeps (beside base) (abind (aget (a_parse ports sid f)) (\<lambda>steps. stage_loop p repo sid steps no_batch))" for sid f
    by (intro keeps_aget stage_loop_keeps ballI calls) assumption
  have flush: "keeps (beside base) (flush_batch repo sid b)" for sid b unfolding flush_batch_def by (intro keeps_intros calls)
  have parse: "keeps (beside base) (parse_and_stage p repo ports sid f k)" for sid f k
    unfolding parse_and_stage_def by (intro keeps_abind keeps_afinally keeps_basic keeps_branches calls loop flush)
  have all: "keeps (beside base) (parse_validate_apply p repo ports sid f k False)" for sid f k
    unfolding parse_validate_apply_def transition_if_def if_False by (intro keeps_intros calls parse)
  have "keeps (beside base) (replay_owned p repo ports sid b)" for sid
    unfolding replay_owned_def by (intro keeps_intros calls all)
  then show ?thesis unfolding replay_def under_lease_def by (intro keeps_intros calls)
qed

interpretation served: replay_contract "service_ports policy L limits out bootstrap"
proof -
  let ?ports = "service_ports policy L limits out bootstrap"
  have "rebuild_part (snd (port_replay ?ports i b m)) = rebuild_part m \<and>
      db_next_id (s_store (m_platform m)) \<le> db_next_id (s_store (m_platform (snd (port_replay ?ports i b m))))" for i b m
  proof -
    let ?s = "\<lparr>sv_db = s_store (m_platform m), sv_world = m_platform m\<rparr>" and ?out = "replay_outside limits out"
    obtain r s where run: "replay policy (store_repository L ?out) (store_ports ?out) i b ?s = (r, s)" by (rule prod.exhaust)
    have "beside ?s s" using keeps_wp [OF replay_keeps, of ?s ?s policy L limits out i b] run
      by (auto simp: beside_def wp_def split: sum.splits)
    then show ?thesis by (simp add: service_ports_def on_service_def run beside_def rebuild_part_def active_rebuild_def)
  qed
  moreover have "rebuild_part (snd (on_warehouse_of g m)) = rebuild_part m \<and> db_next_id (s_store (m_platform (snd (on_warehouse_of g m)))) = db_next_id (s_store (m_platform m))"
    for g :: "unit command" and m
    by (auto simp: on_warehouse_of_def on_tables_def rebuild_part_def active_rebuild_def split: prod.split)
  ultimately show "replay_contract ?ports"
    by unfold_locales (auto simp: service_ports_def)
qed

section \<open>Properties\<close>

text \<open>
  C16. A rebuild always ends. With the replays of the ingestion service on the source store, whatever staging, parser, object storage, locks and the bootstrap of the catalogue do
  beside the tables of rebuilds, resuming a rebuild returns: with the run completed, all its files replayed and
  the barrier lifted; or with an error. An error changes nothing when the run could not be resumed, and else leaves the run failed and its barrier up,
  so that it can be resumed; files that were completed stay completed.
\<close>
theorem rebuild_run_ends:
  assumes "rebuild_inv m" "1 \<le> rebuild_page_size l" "rebuild_page_size l \<le> 200"
  shows "\<exists>r m'. resume_service l (service_ports policy L limits out bootstrap) b m = Some (r, m') \<and> rebuild_inv m' \<and>
    (case r of
       Inl e \<Rightarrow> m' = m \<or> rebuild_status_of b m' = Some ''failed'' \<and> active_rebuild m' = Some b \<and> pending_count b m' \<le> pending_count b m
     | Inr (run, st) \<Rightarrow> rb_id run = b \<and> st = ''completed'' \<and> active_rebuild m' = None \<and> pending_count b m' = 0)"
  by (rule served.resume_ends [OF assms])

text \<open>A rebuild of one applied file whose staging is reused: the replay brings back its claim and its watermark.\<close>

definition demo_settled :: platform where
  "demo_settled = demo_applied\<lparr>
     s_store := (s_store demo_applied)\<lparr>db_retailers := [\<lparr>re_id = 10, re_source_key = lit ''r''\<rparr>],
       db_portals := [\<lparr>po_id = 20, po_retailer_id = 10, po_source_key = lit ''p'', po_protocol = HTTPS\<rparr>]\<rparr>,
     s_warehouse := (s_warehouse demo_applied)\<lparr>
     w_watermarks := [new_watermark 6 (Rebuild_Run.demo_archived 6 2 COMPLETED) (lit ''b'') PRICE_DELTA 2 ([], [])]\<rparr>\<rparr>"

definition demo_world :: "platform outside" where
  "demo_world =
     \<lparr>o_reuse = (\<lambda>_ _ _ _ _. areturn (Some no_stage)), o_stage = (\<lambda>_ _ _. areturn no_stage), o_finalize = (\<lambda>_ _ _. areturn no_stage),
      o_quarantined = (\<lambda>_ _. areturn False), o_apply = (\<lambda>_ _ _ _ _. araise (exn_of RepositoryError)), o_open = (\<lambda>_ _. araise (exn_of SourceAccessError)),
      o_transferred = (\<lambda>_ _. 0), o_finish = (\<lambda>_ _. araise (exn_of SourceAccessError)), o_close = (\<lambda>_. areturn ()),
      o_put = (\<lambda>_ _. araise (exn_of ArchiveCapacityError)), o_verify = (\<lambda>_ _. areturn 1), o_read = (\<lambda>_. areturn ()), o_read_close = (\<lambda>_. areturn ()),
      o_parse = (\<lambda>_ _ _. []), o_parser_version = lit ''1'', o_try_lock = (\<lambda>_. areturn True), o_unlock = (\<lambda>_ p. p)\<rparr>"

abbreviation demo_page_limits :: ArchiveMaintenanceLimits where
  "demo_page_limits \<equiv> \<lparr>default_page_size = 50, maximum_page_size = 200, rebuild_page_size = 50\<rparr>"

abbreviation demo_replays :: replay_ports where
  "demo_replays \<equiv> service_ports demo_ingestion_policy demo_urls demo_limits demo_world (Some (\<lambda>_. areturn ()))"

lemma replay_reusing:
  assumes "i_assert_allowed repo b s = (Inr (), s)" "i_get repo sid s = (Inr cur, s)" "rs_source_file_id cur = sid"
    and "l_acquire ports sid s = (Inr True, s1)" "i_get repo sid s1 = (Inr cur, s1)"
    and "rs_archive_object_key cur = Some k" "rs_content_sha256 cur = Some sha"
    and "a_verify ports k sha s1 = (Inr n, s1)" "ensure_archive_length cur n = Inr ()"
    and "i_begin_replay repo sid (parser_version ports) b s1 = (Inr i, s2)"
    and "i_reuse_validated_staging repo sid (parser_version ports) (rf_document_type (rs_remote_file cur)) (rf_compression (rs_remote_file cur)) s2 = (Inr (Some sm), s2)"
    and "i_finalize_staging repo sid (rf_document_type (rs_remote_file cur)) s2 = (Inr sm, s2)"
    and "i_has_file_quarantine_issue repo sid s2 = (Inr False, s2)" "\<not> rejection_exceeded p sm"
    and "i_apply repo sid (rf_document_type (rs_remote_file cur)) (minimum_full_records_for p (rf_document_type (rs_remote_file cur)))
      (maximum_full_snapshot_drop_fraction p) s2 = (Inr applied, s3)"
    and "i_finish_replay repo i True None s3 = (Inr (), s4)" "l_release ports sid s4 = (Inr (), s5)"
    and "ingested_result sid COMPLETED sha (Some sm) (Some applied) False True 0 = Inr res"
  shows "replay p repo ports sid b s = (Inr res, s5)"
  using assms by (simp add: replay_def replay_owned_def under_lease_def parse_validate_apply_def transition_if_def parse_and_stage_def catch_exception_def
      of_result_def action_defs)

abbreviation demo_run :: RebuildRun where
  "demo_run \<equiv> (new_rebuild 20 (lit ''ops'') (lit ''1'') 10)\<lparr>rb_source_files_total := 1\<rparr>"

definition demo_started :: database where
  "demo_started = (s_store demo_settled)\<lparr>db_next_id := 21, db_active_rebuild := Some 20, db_rebuild_runs := [(20, ''running'')]\<rparr>"

definition demo_begun :: maintenance where
  "demo_begun = \<lparr>m_platform = demo_settled\<lparr>s_store := demo_started, s_warehouse := no_tables,
       s_rebuild_files := [rebuild_file 20 (s_warehouse demo_settled) 1 (Rebuild_Run.demo_archived 6 2 COMPLETED)]\<rparr>,
     m_rebuilds = [demo_run], m_snapshots = [((20, Original), s_warehouse demo_settled)], m_lock_held = False\<rparr>"

lemmas settled_eval = demo_settled_def demo_applied_def new_watermark_def document_family_def demo_started_def demo_begun_def

lemma demo_begins: "begin_rebuild (lit ''ops'') (lit ''1'') (fresh_maintenance demo_settled) = (Inr (demo_run, ''running''), demo_begun)"
  by (simp add: settled_eval rebuild_eval archive_eval platform_eval gtin_eval abind_eval del: set_filter cong: abind_weak_cong)

definition demo_replay_row :: ReplayRun where
  "demo_replay_row = \<lparr>rp_id = 21, rp_source_file_id = 6, rp_rebuild_run_id = Some 20, rp_requested_parser_version = lit ''1'',
     rp_previous_parser_version = Some (lit ''1''), rp_status = PARSING, rp_finished_at = None, rp_succeeded = None, rp_error_code = None\<rparr>"

definition demo_leased :: database where
  "demo_leased = demo_started\<lparr>db_lock := Some 6, db_next_id := 22, db_replays := [demo_replay_row]\<rparr>"

definition demo_finished :: database where
  "demo_finished = demo_leased\<lparr>db_replays := [demo_replay_row\<lparr>rp_status := COMPLETED, rp_finished_at := Some 10, rp_succeeded := Some True\<rparr>]\<rparr>"

abbreviation demo_summary :: ApplySummary where
  "demo_summary \<equiv> \<lparr>inserted = 0, updated = 0, unchanged = 0, unavailable = 0, history_events = 0\<rparr>"

lemma demo_applies: "apply_file demo_limits 6 PRICE_DELTA 1 (1 / 2) ((m_platform demo_begun)\<lparr>s_store := demo_leased\<rparr>) =
   (Inr demo_summary, (m_platform demo_begun)\<lparr>s_store := demo_leased, s_warehouse := s_warehouse demo_settled, s_results := [(Replay 21, demo_summary)]\<rparr>)"
  by (simp add: demo_leased_def demo_replay_row_def settled_eval rebuild_file_def rebuild_timestamp_def archive_eval platform_eval header_scopes_def price_eval
      gtin_eval abind_eval del: set_filter cong: abind_weak_cong)

definition demo_replayed :: maintenance where
  "demo_replayed = demo_begun\<lparr>m_platform := (m_platform demo_begun)\<lparr>s_store := demo_finished\<lparr>db_lock := None\<rparr>, s_warehouse := s_warehouse demo_settled,
     s_results := [(Replay 21, demo_summary)]\<rparr>\<rparr>"

lemma demo_replay_run:
  obtains res where "port_replay demo_replays 6 (Some 20) (demo_begun\<lparr>m_lock_held := True\<rparr>) = (Inr res, demo_replayed\<lparr>m_lock_held := True\<rparr>)"
proof -
  let ?out = "replay_outside demo_limits demo_world" and ?p = "m_platform demo_begun"
  let ?repo = "store_repository demo_urls ?out" and ?ports = "store_ports ?out"
  let ?s = "\<lambda>d. \<lparr>sv_db = d, sv_world = ?p\<rparr>" and ?t = "\<lambda>d. \<lparr>sv_db = d, sv_world = m_platform demo_replayed\<lparr>s_store := demo_leased\<rparr>\<rparr>"
  let ?cur = "registered_source_file True (Rebuild_Run.demo_archived 6 2 COMPLETED, lit ''r'', lit ''p'',
     Some \<lparr>ao_id = 6, ao_content_sha256 = lit ''b'', ao_object_key = [], ao_content_length = 1, ao_archived_at = Aware 0\<rparr>)"
  let ?res = "\<lparr>ir_source_file_id = 6, ir_status = COMPLETED, ir_content_sha256 = Some (lit ''b''), ir_stage = Some no_stage, ir_apply = Some demo_summary,
     ir_duplicate = False, ir_replayed = True, ir_transferred_bytes = 0\<rparr>"
  note eval = store_repository_def store_ports_def replay_outside_def demo_world_def on_db_def on_outside_def beside_rebuilds_def action_defs
    demo_leased_def demo_finished_def demo_replay_row_def settled_eval archive_eval
  have "replay demo_ingestion_policy ?repo ?ports 6 (Some 20) (?s demo_started) = (Inr ?res, ?t (demo_finished\<lparr>db_lock := None\<rparr>))"
  proof (rule replay_reusing [where cur = ?cur and k = "[]" and n = 1 and sm = no_stage and i = 21 and applied = demo_summary])
    show "i_assert_allowed ?repo (Some 20) (?s demo_started) = (Inr (), ?s demo_started)"
      by (simp add: eval assert_ingestion_allowed_def transaction_def maintenance_allows_def)
    show "i_get ?repo 6 (?s demo_started) = (Inr ?cur, ?s demo_started)" "i_get ?repo 6 (?s (demo_started\<lparr>db_lock := Some 6\<rparr>)) = (Inr ?cur, ?s (demo_started\<lparr>db_lock := Some 6\<rparr>))"
      by (simp_all add: eval get_file_def transaction_def source_row_def source_file_def)
    show "l_acquire ?ports 6 (?s demo_started) = (Inr True, ?s (demo_started\<lparr>db_lock := Some 6\<rparr>))" by (simp add: eval lease_acquire_def)
    show "i_begin_replay ?repo 6 (parser_version ?ports) (Some 20) (?s (demo_started\<lparr>db_lock := Some 6\<rparr>)) = (Inr 21, ?s demo_leased)"
      by (simp add: eval begin_replay_def transaction_def maintenance_allows_def source_file_def fresh_id_def update_where_def)
    show "i_finish_replay ?repo 21 True None (?t demo_leased) = (Inr (), ?t demo_finished)"
      by (simp add: eval finish_replay_def transaction_def code_too_long_def update_where_def)
    show "i_apply ?repo 6 (rf_document_type (rs_remote_file ?cur)) (minimum_full_records_for demo_ingestion_policy (rf_document_type (rs_remote_file ?cur)))
        (maximum_full_snapshot_drop_fraction demo_ingestion_policy) (?s demo_leased) = (Inr demo_summary, ?t demo_leased)"
      by (simp add: store_repository_def replay_outside_def on_outside_def demo_applies demo_replayed_def registered_source_file_def
        Rebuild_Run.demo_archived_def demo_file_def minimum_full_records_for_def demo_ingestion_policy_def)
  qed (simp_all add: eval lease_release_def registered_source_file_def ensure_archive_length_def rejection_exceeded_def no_stage_def ingested_result_def
      IngestionResult_post_init_def)
  then show thesis by (intro that [of ?res]) (simp add: service_ports_def on_service_def demo_begun_def demo_replayed_def)
qed

definition demo_checked :: maintenance where
  "demo_checked = demo_replayed\<lparr>m_platform := (m_platform demo_replayed)\<lparr>s_rebuild_files :=
       map (\<lambda>r. r\<lparr>rf_status := ''completed''\<rparr>) (s_rebuild_files (m_platform demo_replayed))\<rparr>,
     m_rebuilds := [demo_run\<lparr>rb_source_files_completed := 1, rb_last_sequence := Some 1, rb_last_source_file_id := Some 6,
       rb_last_archived_at := Some (Aware 2)\<rparr>], m_lock_held := True\<rparr>"

lemma demo_checks:
  "complete_rebuild_file 20 1 \<lparr>asf_source_file_id = 6, asf_archived_at = Some (Aware 2)\<rparr> (demo_replayed\<lparr>m_lock_held := True\<rparr>) = (Inr (), demo_checked)"
  by (simp add: demo_checked_def demo_replayed_def demo_finished_def demo_leased_def demo_replay_row_def settled_eval rebuild_eval archive_eval platform_eval
      gtin_eval update_where_def abind_eval del: set_filter cong: abind_weak_cong)

lemma demo_finishes:
  obtains run m' where "finish_rebuild 20 demo_checked = (Inr (run, ''completed''), m')"
proof -
  have "map_sum exn_class snd (fst (finish_rebuild 20 demo_checked)) = Inr ''completed''"
    by (simp add: demo_checked_def demo_replayed_def demo_finished_def demo_leased_def demo_replay_row_def settled_eval rebuild_eval archive_eval platform_eval
      gtin_eval update_where_def abind_eval del: set_filter cong: abind_weak_cong)
  then show thesis using that by (cases "finish_rebuild 20 demo_checked"; cases "fst (finish_rebuild 20 demo_checked)") auto
qed

lemma demo_pages:
  "next_rebuild_files 20 50 (demo_begun\<lparr>m_lock_held := True\<rparr>) =
     (Inr [(1, \<lparr>asf_source_file_id = 6, asf_archived_at = Some (Aware 2)\<rparr>)], demo_begun\<lparr>m_lock_held := True\<rparr>)"
  "next_rebuild_files 20 50 demo_checked = (Inr [], demo_checked)"
  "resume_rebuild 20 (demo_begun\<lparr>m_lock_held := True\<rparr>) = (Inr (demo_run, ''running''), demo_begun\<lparr>m_lock_held := True\<rparr>)"
  by (simp_all add: next_rebuild_files_def bounded_limit_def MAXIMUM_ARCHIVE_PAGE_SIZE_def of_result_def resume_rebuild_def new_rebuild_def
      demo_checked_def demo_replayed_def settled_eval rebuild_eval archive_eval update_where_def action_defs)

lemma demo_rebuild_completes:
  obtains run m' where "resume_service demo_page_limits demo_replays 20 demo_begun = Some (Inr (run, ''completed''), m')"
proof -
  let ?m = "demo_begun\<lparr>m_lock_held := True\<rparr>"
  obtain res where replay: "port_replay demo_replays 6 (Some 20) ?m = (Inr res, demo_replayed\<lparr>m_lock_held := True\<rparr>)" by (rule demo_replay_run)
  obtain run m' where finish: "finish_rebuild 20 demo_checked = (Inr (run, ''completed''), m')" by (rule demo_finishes)
  have boot: "bootstrap_replayed demo_replays res m = (Inr (), m)" for m
    by (simp add: bootstrap_replayed_def service_ports_def on_warehouse_of_def on_tables_def areturn_def)
  have page: "rebuild_page demo_replays 20 [(1, \<lparr>asf_source_file_id = 6, asf_archived_at = Some (Aware 2)\<rparr>)] ?m = (Inr (), demo_checked)"
    by (simp add: replay boot demo_checks abind_def areturn_def)
  have "rebuild_pages demo_replays 50 20 demo_checked = Some (Inr (run, ''completed''), m')"
    by (subst rebuild_pages.simps) (simp add: demo_pages finish)
  then have "rebuild_pages demo_replays 50 20 ?m = Some (Inr (run, ''completed''), m')"
    by (subst rebuild_pages.simps) (simp only: demo_pages page prod.case sum.case list.distinct if_False)
  then have "rebuild_locked demo_page_limits demo_replays 20 ?m = Some (Inr (run, ''completed''), m')"
    by (simp add: rebuild_locked_def demo_pages)
  moreover have "\<not> m_lock_held demo_begun" by (simp add: demo_begun_def)
  ultimately have "resume_service demo_page_limits demo_replays 20 demo_begun = Some (Inr (run, ''completed''), m'\<lparr>m_lock_held := False\<rparr>)"
    by (simp add: resume_service_def)
  then show thesis by (rule that)
qed

theorem rebuild_run_ends_witness:
  "\<exists>run m'. begin_rebuild (lit ''ops'') (lit ''1'') (fresh_maintenance demo_settled) = (Inr (demo_run, ''running''), demo_begun) \<and>
     pending_count 20 demo_begun = 1 \<and> resume_service demo_page_limits demo_replays 20 demo_begun = Some (Inr (run, ''completed''), m') \<and>
     rb_id run = 20 \<and> active_rebuild m' = None \<and> pending_count 20 m' = 0"
proof -
  have inv: "rebuild_inv demo_begun" by (rule begin_inv [OF fresh_inv demo_begins])
  obtain run m' where r: "resume_service demo_page_limits demo_replays 20 demo_begun = Some (Inr (run, ''completed''), m')" by (rule demo_rebuild_completes)
  have one: "pending_count 20 demo_begun = 1"
    by (simp add: pending_count_def files_of_def demo_begun_def rebuild_file_def pending_file_def)
  have size: "1 \<le> rebuild_page_size demo_page_limits" "rebuild_page_size demo_page_limits \<le> 200" by simp_all
  from rebuild_run_ends [OF inv size, where policy = demo_ingestion_policy and L = demo_urls and limits = demo_limits and out = demo_world
      and bootstrap = "Some (\<lambda>_. areturn ())" and b = 20] r
  have "rb_id run = 20 \<and> active_rebuild m' = None \<and> pending_count 20 m' = 0" by auto
  then show ?thesis using demo_begins one r by blast
qed

end
