(* ===== verification/Spec2Isabelle.thy ===== *)
theory Spec2Isabelle
  imports Archive_Keys Parquet_Reader Collection_Run Ingestion_Run Worker_Schedule Catalog Maintenance_Run
begin

text \<open>
  \<^bold>\<open>Makolet\<close> collects the price files that supermarket chains publish, archives them by
  content, parses and applies them to a catalogue, and exports the catalogue as Parquet files. This
  development models its core in HOL and proves what makes it correct. All paths below are under
  \<^verbatim>\<open>src/makolet/\<close>.

  \<^bold>\<open>The program.\<close> A worker (\<^verbatim>\<open>application/worker.py\<close>) runs the collection of every configured source, once
  or on a schedule. A collection (\<^verbatim>\<open>application/collection.py\<close>) traverses the listing of a source page by page
  under budgets of requests, bytes and time, with a durable checkpoint, and hands every
  listed file to the ingestion. The ingestion (\<^verbatim>\<open>application/ingestion.py\<close>) takes one file through
  its lifecycle (\<^verbatim>\<open>domain/enums.py\<close>): download, archive, parse, stage, validate, apply. The source store
  (\<^verbatim>\<open>adapters/persistence/ingestion.py\<close>) keeps the status of every file, its attempts and its events in tables,
  under one lock per file (\<^verbatim>\<open>adapters/persistence/leases.py\<close>). Archived objects have content-addressed
  keys (\<^verbatim>\<open>adapters/archive/keys.py\<close>). The export (\<^verbatim>\<open>adapters/export\<close>) writes rows into Parquet files within
  limits that are accounted in advance.

  \<^bold>\<open>Theories.\<close>
  \<^item> \<open>Prelude\<close>: Python strings as lists of code points, calls that return or raise (\<open>'e + 'a\<close>), stateful calls
    that may raise (\<open>action\<close>) with weakest preconditions, guarded operations, budgets with a meter per charge (\<open>metered_ops\<close>) and event machines as locales.
  \<^item> \<open>Lifecycle\<close> (\<^verbatim>\<open>domain/enums.py\<close>, \<^verbatim>\<open>domain/errors.py\<close>): statuses, the table of transitions,
    exceptions with the attributes that handlers read. \<open>Py_Values\<close>: UTF-8, decimals, dates.
    \<open>Domain_Models\<close>, \<open>Application_Models\<close> (\<^verbatim>\<open>domain/models.py\<close>, \<^verbatim>\<open>application/models.py\<close>): the records
    with the checks of their constructors, the listing budget.
  \<^item> \<open>Archive_Keys\<close>: digests and keys determine each other.
  \<^item> \<open>Export_Models\<close>, \<open>Compact_Thrift\<close>, \<open>Parquet_Pages\<close>, \<open>Parquet_Writer\<close> (\<^verbatim>\<open>adapters/export/models.py\<close>,
    \<^verbatim>\<open>adapters/export/parquet.py\<close>): limits and budgets, varints and structs, pages, file layout. \<open>Parquet_Correct\<close>,
    \<open>Parquet_Budget\<close>: the accounting is exact or an upper bound, and rows that the budget accepts are
    always encoded within it (the writing of the bytes to disk is left out). \<open>Parquet_Reader\<close>: an independent reader recovers the rows from the bytes.
  \<^item> \<open>Collection\<close>, \<open>Collection_Memory\<close> (\<^verbatim>\<open>application/collection.py\<close>): the traversal over its ports and the
    in-memory repository. \<open>Collection_Bounds\<close>: termination and counts for arbitrary ports. \<open>Collection_Safety\<close>:
    the contract of the repository as a locale and its client lemmas; \<open>Collection_Run\<close> interprets it on the
    in-memory repository: charges stay within the policy, the checkpoint passes only handled files, a
    completed run has covered the listing from the offset at which it resumed.
  \<^item> \<open>Ingestion\<close> (\<^verbatim>\<open>application/ingestion.py\<close>): \<^verbatim>\<open>ingest\<close>, \<^verbatim>\<open>archive_only\<close> and \<^verbatim>\<open>replay\<close> over their ports.
    \<open>Ingestion_Staging\<close>: batches lose and repeat nothing and respect their limits, for every parser and repository.
  \<^item> \<open>Source_Store\<close>: registration and rediscovery, transitions, archive evidence, replays, stale job recovery
    (\<^verbatim>\<open>adapters/persistence/operations.py\<close>) and the maintenance gate on tables that are lists of rows. \<open>Source_Ledger\<close>: the
    tables implement an abstract ledger of lifecycle trails; its specification \<open>ledger_spec\<close> says which answers a call may have and how each
    moves the ledger, and a trace of calls with their answers is a run of it. \<open>Source_Audit\<close>: the audit record is
    consistent after any calls and rediscovery overwrites no evidence.
  \<^item> \<open>Ingestion_Lifecycle\<close>: the contract between service and store as a locale; \<open>Ingestion_Run\<close> interprets it on the
    store with its locks: an ingestion that returns has completed its file, one that raises has left
    nothing half done.
  \<^item> \<open>Worker\<close>, \<open>Worker_Once\<close>, \<open>Worker_Schedule\<close>: the tasks of the worker as event machines whose
    events are the segments between two awaits, in any order. A run without telemetry failure or cancellation ends in a bounded
    number of events with one outcome per source; the scheduler never runs a source twice at a time nor more
    often than its interval.
  \<^item> \<open>Normalization\<close>, \<open>Catalog\<close> (\<^verbatim>\<open>domain/normalization.py\<close>, \<^verbatim>\<open>domain/catalog.py\<close>): texts, identifiers with
    their check digit, decimals and amounts with units; the rules and the score by which items are matched to products.
    A match is symmetric, and may be confirmed without review only for a shared valid GTIN across retailers.
  \<^item> \<open>Tables\<close>, \<open>Catalogue\<close> (\<^verbatim>\<open>adapters/persistence/schema.py\<close>): statements on tables as functions on lists of rows
    (update, upsert, insert where missing, constraint) and the tables of stores, items, products, identifiers, prices and
    availability. \<open>History\<close>: timelines of values as a locale \<open>history_table\<close>, without gap, overlap or repetition.
  \<^item> \<open>Gtin_Matching\<close>, \<open>Gtin_Evidence\<close>: the matching of items by GTIN when a file is applied, one definition per SQL statement
    of \<^verbatim>\<open>_match_exact_gtins\<close>; the evidence stays consistent and decisions of operators are never touched.
  \<^item> \<open>Price_Apply\<close>, \<open>Price_History\<close>, \<open>Price_Run\<close>: \<^verbatim>\<open>_apply_prices\<close> with everything that it calls. The two histories interpret
    \<open>history_table\<close>; applying a file extends the timelines by what the file lists and a full
    snapshot settles the availability in the stores that it covers.
  \<^item> \<open>Store_Apply\<close>, \<open>Promotion_Apply\<close>, \<open>Promotion_Run\<close>: \<^verbatim>\<open>_apply_stores\<close> and \<^verbatim>\<open>_apply_promotions\<close>. A roster decides which stores of a portal are
    active and is idempotent; a file of promotions decides which rows are open and leaves the past as it was.
  \<^item> \<open>Source_Apply\<close>, \<open>Source_Order\<close>, \<open>Platform_Run\<close>: \<^verbatim>\<open>apply\<close>, the transaction around them. It locks the source file, passes the maintenance gate,
    orders the file by its timestamp against the watermarks of its scopes, claims the instant of its first application, applies it
    and advances the watermarks. Its steps and everything that may happen in between are the step relation \<open>platform_step\<close>; all
    invariants of the tables hold in every reachable state.
  \<^item> \<open>Rebuild\<close> (\<^verbatim>\<open>adapters/persistence/maintenance.py\<close>): the rebuild of the derived tables from the archive: its queue, snapshots, barrier, checkpoints,
    and the comparison with the snapshot at its end. \<open>Rebuild_Inv\<close>, \<open>Rebuild_Run\<close>: its bookkeeping over any sequence of operations; a rebuild
    that changes neither parser nor files restores the rows it began with, and a replayed file gets the instant of its first application back. \<open>Maintenance_Service\<close> (\<^verbatim>\<open>application/maintenance.py\<close>): replays by range and the loop that drives a
    rebuild; \<open>Maintenance_Run\<close>: the contract of a replay as the locale \<open>replay_contract\<close>, interpreted on the replay of
    the ingestion service over the source store and \<^verbatim>\<open>apply\<close>, and that a rebuild always ends.

  \<^bold>\<open>Modelling decisions.\<close> Ports are records of functions and everything behind them (publishers, network, object
  storage, parsers, the clock, jitter) is arbitrary. A database transaction is atomic, keeps its
  effects only when it returns, and does not fail on commit; releasing a lock does not fail. Fractions and clock readings are exact rationals.
  Statements of SQL are functions on lists of rows that check the constraints of the tables; sorting is by code points,
  and fresh identifiers are a counter. Texts of messages, log events and metrics are left out. Sizes that CPython reports
  (\<^verbatim>\<open>sys.getsizeof\<close>), the URL functions of the standard library and the tables of the Unicode database are parameters.

  \<^bold>\<open>Bounds.\<close> The traversal of a listing recurses on fuel \<open>page_fuel\<close>, the maximum number of discovery records plus two; every page after the first
  counts a record, and \<open>collection_run_ends\<close> shows that the fuel is never used up. Download retries recurse on
  the number of attempts of the policy. The loop that drives a rebuild is a
  \<^theory_text>\<open>partial_function\<close> into \<open>option\<close>, and \<open>rebuild_run_ends\<close> shows that it returns. All other loops are structural or have a termination proof.

  \<^bold>\<open>Findings.\<close> Some theorems state behaviour that is not intended: a file abandoned while downloading is failed for
  good, a temporary verification failure surfaces as a transition error, a retry that
  fails at once leaves an attempt open, a consumer lost to a telemetry failure hangs or silently idles the worker,
  three spellings of units are recognised and then dropped, a replay cannot correct a price, one that a file of another
  store has overtaken cannot be applied, and a file that was only archived can block a rebuild. An ingestion that reuses validated staging
  passes through parsing all the same, where the lifecycle diagram of the documentation goes from archived to staged.

  \<^bold>\<open>Not modelled.\<close> The SQL of the queries; the PostgreSQL twin of the collection
  repository; the parsing of dates; parsers, downloaders, source adapters, object
  storage, HTTP, MCP and command line interfaces, configuration and deployment, which are I/O or third-party
  frameworks around the modelled core. Next in the plan: the copying of events into staging tables, the review of product matches and the query cursors.
\<close>

end
